(* ===== verification/Go_Prelude.thy ===== *)
theory Go_Prelude
  imports Main "HOL-Library.Sublist" "HOL-Library.Char_ord"
begin

text \<open>
  The part of Go and of its \<open>strings\<close> package that the components share: byte strings, error
  results and the operations \<open>strings.HasPrefix\<close>, \<open>HasSuffix\<close>, \<open>Contains\<close>, \<open>Count\<close>, \<open>Cut\<close>,
  \<open>Split\<close> and \<open>TrimPrefix\<close>. A Go string is a sequence of bytes, here the \<open>char list\<close> of HOL
  (every \<open>char\<close> is one of 256 values). A function that returns \<open>(value, error)\<close> returns
  \<open>error + value\<close> here, a function that returns only \<open>error\<close> returns \<open>error option\<close>, with
  \<open>None\<close> for \<open>nil\<close>. The two locales at the end state what a state machine of the program
  promises about runs of its operations; the components interpret them.
\<close>

named_theorems go_defs \<open>definitions of the string operations\<close>
named_theorems result_split \<open>case splits of results\<close>

declare sum.splits [result_split] option.splits [result_split] if_splits [result_split]

section \<open>Results\<close>

definition bindE :: "'e + 'a \<Rightarrow> ('a \<Rightarrow> 'e + 'b) \<Rightarrow> 'e + 'b" where
  "bindE m f = (case m of Inl e \<Rightarrow> Inl e | Inr a \<Rightarrow> f a)"

lemma bindE_simps [simp]:
  "bindE (Inl e) f = Inl e"
  "bindE (Inr a) f = f a"
  by (simp_all add: bindE_def)

lemma bindE_Inr_iff: "bindE m f = Inr b \<longleftrightarrow> (\<exists>a. m = Inr a \<and> f a = Inr b)"
  by (cases m) auto

lemma bindE_cong [fundef_cong]:
  "m = m' \<Longrightarrow> (\<And>a. m' = Inr a \<Longrightarrow> f a = f' a) \<Longrightarrow> bindE m f = bindE m' f'"
  by (cases m') (auto simp: bindE_def)

text \<open>Turn an \<open>error\<close> result (\<open>None\<close> is \<open>nil\<close>) into a guard of the enclosing function.\<close>

definition checkE :: "'e option \<Rightarrow> 'e + unit" where
  "checkE e = (case e of None \<Rightarrow> Inr () | Some x \<Rightarrow> Inl x)"

lemma checkE_simps [simp]:
  "checkE None = Inr ()"
  "checkE (Some e) = Inl e"
  by (simp_all add: checkE_def)

lemma checkE_Inr_iff: "checkE e = Inr u \<longleftrightarrow> e = None"
  by (cases e) auto

text \<open>A chain of checks that return early has no error exactly when none of them has one.\<close>

named_theorems check_chain \<open>chains of early returns\<close>

lemma if_error_None [check_chain]: "(if b then Some e else x) = None \<longleftrightarrow> \<not> b \<and> x = None"
  by simp

lemma case_error_None [check_chain]:
  "(case x of None \<Rightarrow> y | Some e \<Rightarrow> Some (f e)) = None \<longleftrightarrow> x = None \<and> y = None"
  by (simp split: option.split)

section \<open>The strings package\<close>

definition has_prefix :: "string \<Rightarrow> string \<Rightarrow> bool" where
  "has_prefix s p = prefix p s"

definition has_suffix :: "string \<Rightarrow> string \<Rightarrow> bool" where
  "has_suffix s p = suffix p s"

definition contains :: "string \<Rightarrow> string \<Rightarrow> bool" where
  "contains s p = sublist p s"

definition trim_prefix :: "string \<Rightarrow> string \<Rightarrow> string" where
  "trim_prefix s p = (if has_prefix s p then drop (length p) s else s)"

definition trim_suffix :: "string \<Rightarrow> string \<Rightarrow> string" where
  "trim_suffix s p = (if has_suffix s p then take (length s - length p) s else s)"

declare has_prefix_def [go_defs] has_suffix_def [go_defs] contains_def [go_defs]
  trim_prefix_def [go_defs] trim_suffix_def [go_defs]

lemma trim_prefix_append [simp]: "trim_prefix (p @ s) p = s"
  by (simp add: go_defs)

lemma has_prefix_append [simp]: "has_prefix (p @ s) p"
  by (simp add: go_defs)

text \<open>\<open>strings.Count\<close> for a separator that is not empty: the occurrences do not overlap.\<close>

function count_sub :: "string \<Rightarrow> string \<Rightarrow> nat" where
  "count_sub s p =
     (if s = [] then 0
      else if has_prefix s p \<and> p \<noteq> [] then Suc (count_sub (drop (length p) s) p)
      else count_sub (tl s) p)"
  by pat_completeness auto
termination
  by (relation "measure (\<lambda>(s, p). length s)") auto

declare count_sub.simps [simp del]

text \<open>\<open>strings.Split\<close> with a separator of one byte: never the empty list.\<close>

fun split_on :: "char \<Rightarrow> string \<Rightarrow> string list" where
  "split_on d [] = [[]]"
| "split_on d (c # cs) =
     (if c = d then [] # split_on d cs
      else (case split_on d cs of [] \<Rightarrow> [[c]] | w # ws \<Rightarrow> (c # w) # ws))"

text \<open>\<open>strings.Cut\<close>: the text before and after the first occurrence of the separator.\<close>

fun cut :: "string \<Rightarrow> string \<Rightarrow> (string \<times> string) option" where
  "cut [] sep = (if sep = [] then Some ([], []) else None)"
| "cut (c # cs) sep =
     (if has_prefix (c # cs) sep then Some ([], drop (length sep) (c # cs))
      else map_option (\<lambda>(a, b). (c # a, b)) (cut cs sep))"

fun join_with :: "char \<Rightarrow> string list \<Rightarrow> string" where
  "join_with d [] = []"
| "join_with d [w] = w"
| "join_with d (w # ws) = w @ d # join_with d ws"

lemma split_on_not_Nil [simp]: "split_on d s \<noteq> []"
  by (induction s) (auto split: list.splits)

lemma join_split_on: "join_with d (split_on d s) = s"
proof (induction s)
  case (Cons c cs)
  then show ?case by (cases "split_on d cs") (auto, (cases "tl (split_on d cs)", auto)+)
qed simp

lemma split_on_no_sep: "w \<in> set (split_on d s) \<Longrightarrow> d \<notin> set w"
  by (induction s arbitrary: w) (auto split: list.splits if_splits)

lemma set_split_on: "w \<in> set (split_on d s) \<Longrightarrow> set w \<subseteq> set s"
  by (induction s arbitrary: w) (fastforce split: list.splits if_splits)+

lemma cut_Some: "cut s sep = Some (a, b) \<Longrightarrow> s = a @ sep @ b"
proof (induction s arbitrary: a)
  case (Cons c cs)
  then show ?case
    by (auto simp: has_prefix_def prefix_def split: if_splits)
qed (auto split: if_splits)

lemma in_map_filter: "y \<in> set (List.map_filter f xs) \<longleftrightarrow> (\<exists>x \<in> set xs. f x = Some y)"
  by (induction xs) (auto simp: List.map_filter_simps split: option.splits)

text \<open>Facts about byte classes as arithmetic on the codes of the bytes.\<close>

definition code_of :: "char \<Rightarrow> nat" where
  "code_of c = of_char c"

named_theorems byte_codes \<open>orders and equalities of bytes as facts about their codes\<close>

lemma byte_le [byte_codes]: "c \<le> d \<longleftrightarrow> code_of c \<le> code_of d"
  by (simp add: less_eq_char_def code_of_def)

lemma byte_less [byte_codes]: "c < d \<longleftrightarrow> code_of c < code_of d"
  by (simp add: less_char_def code_of_def)

lemma byte_eq [byte_codes]: "c = d \<longleftrightarrow> code_of c = code_of d"
  by (simp add: code_of_def)

lemma code_of_Char [byte_codes]:
  "code_of (Char b0 b1 b2 b3 b4 b5 b6 b7) = of_char (Char b0 b1 b2 b3 b4 b5 b6 b7)"
  by (simp add: code_of_def)

lemma code_of_char_of [byte_codes]: "code_of (char_of (n :: nat)) = n mod 256"
  by (simp add: code_of_def)

lemma code_of_less [simp]: "code_of c < 256"
  by (simp add: code_of_def)

section \<open>Byte classes\<close>

definition is_lower :: "char \<Rightarrow> bool" where
  "is_lower c \<longleftrightarrow> CHR ''a'' \<le> c \<and> c \<le> CHR ''z''"

definition is_upper :: "char \<Rightarrow> bool" where
  "is_upper c \<longleftrightarrow> CHR ''A'' \<le> c \<and> c \<le> CHR ''Z''"

definition is_digit :: "char \<Rightarrow> bool" where
  "is_digit c \<longleftrightarrow> CHR ''0'' \<le> c \<and> c \<le> CHR ''9''"

text \<open>\<open>bytes.TrimSpace\<close> for a text without white space outside ASCII around it, as a raw JSON value is.\<close>

definition json_space :: "char \<Rightarrow> bool" where
  "json_space c \<longleftrightarrow> c = CHR '' '' \<or> (CHR 0x09 \<le> c \<and> c \<le> CHR 0x0D)"

definition trim_space :: "string \<Rightarrow> string" where
  "trim_space s = rev (dropWhile json_space (rev (dropWhile json_space s)))"

text \<open>\<open>strconv.Itoa\<close>.\<close>

fun decimal :: "nat \<Rightarrow> string" where
  "decimal n = (if n < 10 then [char_of (48 + n)] else decimal (n div 10) @ [char_of (48 + n mod 10)])"

declare decimal.simps [simp del]

definition decimal_int :: "int \<Rightarrow> string" where
  "decimal_int i = (if i < 0 then CHR ''-'' # decimal (nat (- i)) else decimal (nat i))"

text \<open>\<open>hex.EncodeToString\<close>: two lower-case digits for each byte.\<close>

definition hex_digit :: "nat \<Rightarrow> char" where
  "hex_digit n = ''0123456789abcdef'' ! n"

fun hex_encode :: "string \<Rightarrow> string" where
  "hex_encode [] = []"
| "hex_encode (c # cs) =
     hex_digit (of_char c div 16) # hex_digit (of_char c mod 16) # hex_encode cs"

lemma length_hex_encode [simp]: "length (hex_encode s) = 2 * length s"
  by (induction s) auto

lemma hex_encode_empty [simp]: "hex_encode s = [] \<longleftrightarrow> s = []"
  by (cases s) auto

section \<open>Runs of a state machine\<close>

text \<open>
  The operations of a component as one function \<open>call\<close>: a rejected call returns an error and the
  caller keeps the state it had. \<open>run_calls\<close> is what a client sees that goes on after an error,
  \<open>run_strict\<close> a client that stops at the first one. \<open>count_accepted\<close> counts the accepted calls
  of a run that satisfy \<open>P\<close>.
\<close>

definition apply_call :: "('s \<Rightarrow> 'c \<Rightarrow> 'e + 's) \<Rightarrow> 's \<Rightarrow> 'c \<Rightarrow> 's" where
  "apply_call call s c = (case call s c of Inl _ \<Rightarrow> s | Inr s' \<Rightarrow> s')"

fun run_calls :: "('s \<Rightarrow> 'c \<Rightarrow> 'e + 's) \<Rightarrow> 's \<Rightarrow> 'c list \<Rightarrow> 's" where
  "run_calls call s [] = s"
| "run_calls call s (c # cs) = run_calls call (apply_call call s c) cs"

fun run_strict :: "('s \<Rightarrow> 'c \<Rightarrow> 'e + 's) \<Rightarrow> 's \<Rightarrow> 'c list \<Rightarrow> 'e + 's" where
  "run_strict call s [] = Inr s"
| "run_strict call s (c # cs) = bindE (call s c) (\<lambda>s'. run_strict call s' cs)"

lemma run_strict_append:
  "run_strict call s (xs @ ys) = bindE (run_strict call s xs) (\<lambda>s'. run_strict call s' ys)"
proof (induction xs arbitrary: s)
  case (Cons c cs)
  then show ?case by (cases "call s c") simp_all
qed simp

fun count_accepted ::
  "('s \<Rightarrow> 'c \<Rightarrow> 'e + 's) \<Rightarrow> ('s \<Rightarrow> 'c \<Rightarrow> bool) \<Rightarrow> 's \<Rightarrow> 'c list \<Rightarrow> nat" where
  "count_accepted call P s [] = 0"
| "count_accepted call P s (c # cs) =
     (case call s c of
        Inl _ \<Rightarrow> count_accepted call P s cs
      | Inr s' \<Rightarrow> (if P s c then Suc (count_accepted call P s' cs) else count_accepted call P s' cs))"

text \<open>The contract of a component whose operations keep an invariant.\<close>

locale invariant_machine =
  fixes call :: "'s \<Rightarrow> 'c \<Rightarrow> 'e + 's" and inv :: "'s \<Rightarrow> bool"
  assumes call_inv: "inv s \<Longrightarrow> call s c = Inr s' \<Longrightarrow> inv s'"
begin

lemma apply_inv: "inv s \<Longrightarrow> inv (apply_call call s c)"
  by (auto simp: apply_call_def intro: call_inv split: sum.splits)

lemma run_inv: "inv s \<Longrightarrow> inv (run_calls call s cs)"
  by (induction cs arbitrary: s) (auto intro: apply_inv)

lemma strict_inv: "inv s \<Longrightarrow> run_strict call s cs = Inr s' \<Longrightarrow> inv s'"
  by (induction cs arbitrary: s) (auto simp: bindE_Inr_iff dest: call_inv)

end

text \<open>
  A component with something that can be spent once: a call that spends it is accepted only while
  it is unused, and it stays used afterwards.
\<close>

locale one_shot_machine = invariant_machine call inv
  for call :: "'s \<Rightarrow> 'c \<Rightarrow> 'e + 's" and inv :: "'s \<Rightarrow> bool" +
  fixes spends :: "'s \<Rightarrow> 'c \<Rightarrow> bool" and used :: "'s \<Rightarrow> bool"
  assumes spend_unused: "inv s \<Longrightarrow> call s c = Inr s' \<Longrightarrow> spends s c \<Longrightarrow> \<not> used s \<and> used s'"
    and used_stays: "inv s \<Longrightarrow> call s c = Inr s' \<Longrightarrow> used s \<Longrightarrow> used s'"
begin

lemma used_no_spend: "inv s \<Longrightarrow> used s \<Longrightarrow> count_accepted call spends s cs = 0"
  by (induction cs arbitrary: s)
     (auto split: sum.splits dest: call_inv spend_unused used_stays)

lemma spent_at_most_once: "inv s \<Longrightarrow> count_accepted call spends s cs \<le> 1"
proof (induction cs arbitrary: s)
  case (Cons c cs)
  show ?case
  proof (cases "call s c")
    case (Inr s')
    with Cons.prems have "inv s'" by (rule call_inv)
    with Inr Cons show ?thesis
      by (auto simp: used_no_spend dest: spend_unused)
  qed (use Cons in simp)
qed simp

lemma run_used: "inv s \<Longrightarrow> used s \<Longrightarrow> used (run_calls call s cs)"
  by (induction cs arbitrary: s)
     (auto simp: apply_call_def split: sum.splits dest: call_inv used_stays)

end

text \<open>A component whose accepted calls use up a measure: a strict run has a bounded length.\<close>

locale decreasing_machine = invariant_machine call inv
  for call :: "'s \<Rightarrow> 'c \<Rightarrow> 'e + 's" and inv :: "'s \<Rightarrow> bool" +
  fixes fuel_left :: "'s \<Rightarrow> nat"
  assumes call_decreases: "inv s \<Longrightarrow> call s c = Inr s' \<Longrightarrow> fuel_left s' < fuel_left s"
begin

lemma strict_run_bounded:
  "inv s \<Longrightarrow> run_strict call s cs = Inr s' \<Longrightarrow> length cs + fuel_left s' \<le> fuel_left s"
proof (induction cs arbitrary: s)
  case (Cons c cs)
  then obtain t where t: "call s c = Inr t" and rest: "run_strict call t cs = Inr s'"
    by (auto simp: bindE_Inr_iff)
  have "length cs + fuel_left s' \<le> fuel_left t"
    using Cons.IH call_inv [OF Cons.prems(1) t] rest by blast
  with call_decreases [OF Cons.prems(1) t] show ?case by simp
qed simp

end

end
