(* ===== verification/Protocol_Values.thy ===== *)
theory Protocol_Values
  imports Go_Prelude
begin

text \<open>
  \<open>internal/protocol/values.go\<close>: the stable vocabularies of the NDJSON protocol. The Go types
  \<open>Stage\<close>, \<open>ProgressStatus\<close>, \<open>StateStatus\<close> and \<open>Capability\<close> are open strings with named
  constants, so a value outside the list can occur and the code checks for it; here they are
  strings and the constants are abbreviations of their literals.
\<close>

section \<open>Stages\<close>

type_synonym Stage = string

abbreviation "StageRuntimeHandshake \<equiv> ''runtime.handshake''"
abbreviation "StageDoctor \<equiv> ''doctor''"
abbreviation "StageBootstrap \<equiv> ''bootstrap''"
abbreviation "StageRepair \<equiv> ''repair''"
abbreviation "StageCleanup \<equiv> ''cleanup''"
abbreviation "StageNetworkProbe \<equiv> ''network.probe''"
abbreviation "StageUVCheck \<equiv> ''uv.check''"
abbreviation "StageUVDownload \<equiv> ''uv.download''"
abbreviation "StageUVVerify \<equiv> ''uv.verify''"
abbreviation "StageWorkspaceCheck \<equiv> ''workspace.check''"
abbreviation "StageWorkspaceClone \<equiv> ''workspace.clone''"
abbreviation "StageWorkspaceVerify \<equiv> ''workspace.verify''"
abbreviation "StageWorkspaceSwap \<equiv> ''workspace.swap''"
abbreviation "StageWorkspaceCleanup \<equiv> ''workspace.cleanup''"
abbreviation "StagePythonCheck \<equiv> ''python.check''"
abbreviation "StagePythonInstall \<equiv> ''python.install''"
abbreviation "StageDependenciesCheck \<equiv> ''dependencies.check''"
abbreviation "StageDependenciesSync \<equiv> ''dependencies.sync''"
abbreviation "StageDependenciesRebuild \<equiv> ''dependencies.rebuild''"
abbreviation "StageBackendSpawn \<equiv> ''backend.spawn''"
abbreviation "StageBackendHealth \<equiv> ''backend.health''"
abbreviation "StageBackendRun \<equiv> ''backend.run''"
abbreviation "StageBackendRestart \<equiv> ''backend.restart''"
abbreviation "StageBackendShutdown \<equiv> ''backend.shutdown''"
abbreviation "StageBackendCleanup \<equiv> ''backend.cleanup''"

definition stages :: "Stage list" where
  "stages = [StageRuntimeHandshake, StageDoctor, StageBootstrap, StageRepair, StageCleanup,
     StageNetworkProbe, StageUVCheck, StageUVDownload, StageUVVerify, StageWorkspaceCheck,
     StageWorkspaceClone, StageWorkspaceVerify, StageWorkspaceSwap, StageWorkspaceCleanup,
     StagePythonCheck, StagePythonInstall, StageDependenciesCheck, StageDependenciesSync,
     StageDependenciesRebuild, StageBackendSpawn, StageBackendHealth, StageBackendRun,
     StageBackendRestart, StageBackendShutdown, StageBackendCleanup]"

definition IsKnownStage :: "Stage \<Rightarrow> bool" where
  "IsKnownStage v = List.member stages v"

section \<open>Progress statuses\<close>

type_synonym ProgressStatus = string

abbreviation "ProgressPending \<equiv> ''pending''"
abbreviation "ProgressRunning \<equiv> ''running''"
abbreviation "ProgressSucceeded \<equiv> ''succeeded''"
abbreviation "ProgressSkipped \<equiv> ''skipped''"
abbreviation "ProgressFailed \<equiv> ''failed''"
abbreviation "ProgressCancelled \<equiv> ''cancelled''"

definition progressStatuses :: "ProgressStatus list" where
  "progressStatuses = [ProgressPending, ProgressRunning, ProgressSucceeded, ProgressSkipped,
     ProgressFailed, ProgressCancelled]"

definition IsKnownProgressStatus :: "ProgressStatus \<Rightarrow> bool" where
  "IsKnownProgressStatus v = List.member progressStatuses v"

section \<open>Lifecycle states\<close>

type_synonym StateStatus = string

abbreviation "StateUninitialized \<equiv> ''uninitialized''"
abbreviation "StatePreparingUV \<equiv> ''preparing_uv''"
abbreviation "StateSyncingRepository \<equiv> ''syncing_repository''"
abbreviation "StatePreparingPython \<equiv> ''preparing_python''"
abbreviation "StateSyncingEnvironment \<equiv> ''syncing_environment''"
abbreviation "StateReadyToStart \<equiv> ''ready_to_start''"
abbreviation "StateStartingBackend \<equiv> ''starting_backend''"
abbreviation "StateRunning \<equiv> ''running''"
abbreviation "StateRestarting \<equiv> ''restarting''"
abbreviation "StateStoppingBackend \<equiv> ''stopping_backend''"
abbreviation "StateEnvironmentBroken \<equiv> ''environment_broken''"
abbreviation "StateBackendFailed \<equiv> ''backend_failed''"
abbreviation "StateStopped \<equiv> ''stopped''"

definition stateStatuses :: "StateStatus list" where
  "stateStatuses = [StateUninitialized, StatePreparingUV, StateSyncingRepository,
     StatePreparingPython, StateSyncingEnvironment, StateReadyToStart, StateStartingBackend,
     StateRunning, StateRestarting, StateStoppingBackend, StateEnvironmentBroken,
     StateBackendFailed, StateStopped]"

definition IsKnownStateStatus :: "StateStatus \<Rightarrow> bool" where
  "IsKnownStateStatus v = List.member stateStatuses v"

section \<open>Capabilities\<close>

type_synonym Capability = string

definition knownCapabilities :: "Capability list" where
  "knownCapabilities = [''stdin.cancel'', ''state.v1'', ''log.stream'', ''stdin.shutdown'',
     ''stdin.status'']"

definition IsKnownCapability :: "Capability \<Rightarrow> bool" where
  "IsKnownCapability v = List.member knownCapabilities v"

section \<open>Membership lemmas\<close>

lemma IsKnownStateStatus_iff: "IsKnownStateStatus v \<longleftrightarrow> v \<in> set stateStatuses"
  by (simp add: IsKnownStateStatus_def)

lemma IsKnownCapability_iff: "IsKnownCapability v \<longleftrightarrow> v \<in> set knownCapabilities"
  by (simp add: IsKnownCapability_def)

lemma IsKnownStage_iff: "IsKnownStage v \<longleftrightarrow> v \<in> set stages"
  by (simp add: IsKnownStage_def)

lemma distinct_vocabularies:
  "distinct stages" "distinct progressStatuses" "distinct stateStatuses"
  "distinct knownCapabilities"
  by code_simp+

end
