(* ===== verification/Lifecycle.thy ===== *)
theory Lifecycle
  imports Protocol_Values
begin

text \<open>
  \<open>internal/protocol/lifecycle.go\<close>: the lifecycle state machine of one operation. The record
  \<open>LifecycleMachine\<close> is the Go struct without its mutex (every method holds it for its whole
  body, so a run is a sequence of calls). A rejected call returns an error and leaves the machine
  as it was. The lemmas show which states the machine can reach, that a terminal state is final,
  that the one automatic restart is spent at most once and before a running backend may fail, and
  that every state that is not terminal still has a way to \<open>stopped\<close>.
\<close>

section \<open>Model\<close>

definition lifecycleTransitions :: "(StateStatus \<times> StateStatus) list" where
  "lifecycleTransitions = [
     (StateUninitialized, StatePreparingUV),
     (StateEnvironmentBroken, StatePreparingUV),
     (StateReadyToStart, StatePreparingUV),
     (StateEnvironmentBroken, StateSyncingEnvironment),
     (StateReadyToStart, StateSyncingEnvironment),
     (StateUninitialized, StateSyncingRepository),
     (StateEnvironmentBroken, StateSyncingRepository),
     (StateReadyToStart, StateSyncingRepository),
     (StatePreparingUV, StateSyncingRepository),
     (StatePreparingUV, StatePreparingPython),
     (StatePreparingUV, StateEnvironmentBroken),
     (StateSyncingRepository, StatePreparingPython),
     (StateSyncingRepository, StateEnvironmentBroken),
     (StatePreparingPython, StateSyncingEnvironment),
     (StatePreparingPython, StateEnvironmentBroken),
     (StateSyncingEnvironment, StateReadyToStart),
     (StateSyncingEnvironment, StateEnvironmentBroken),
     (StateReadyToStart, StateStartingBackend),
     (StateStartingBackend, StateRunning),
     (StateStartingBackend, StateStoppingBackend),
     (StateStartingBackend, StateBackendFailed),
     (StateRunning, StateStoppingBackend),
     (StateRunning, StateRestarting),
     (StateRunning, StateBackendFailed),
     (StateRestarting, StateRunning),
     (StateRestarting, StateStoppingBackend),
     (StateRestarting, StateBackendFailed),
     (StateStoppingBackend, StateStopped),
     (StateStoppingBackend, StateBackendFailed)]"

definition IsKnownLifecycleTransition :: "StateStatus \<Rightarrow> StateStatus \<Rightarrow> bool" where
  "IsKnownLifecycleTransition a b =
     list_ex (\<lambda>t. fst t = a \<and> snd t = b) lifecycleTransitions"

record LifecycleMachine =
  initial :: StateStatus
  current :: StateStatus
  restartUsed :: bool

datatype LifecycleError =
    InvalidInitial StateStatus
  | CannotRollBack StateStatus
  | UnknownState StateStatus StateStatus
  | CurrentIsTerminal StateStatus StateStatus
  | SelfLoop StateStatus
  | EdgeNotAllowed StateStatus StateStatus
  | RestartAlreadyUsed
  | MustRestartFirst

definition NewLifecycleMachine :: "StateStatus \<Rightarrow> LifecycleError + LifecycleMachine" where
  "NewLifecycleMachine s =
     (if s = StateUninitialized \<or> s = StateEnvironmentBroken \<or> s = StateReadyToStart
      then Inr \<lparr>initial = s, current = s, restartUsed = False\<rparr>
      else Inl (InvalidInitial s))"

definition RollbackPreparation :: "LifecycleMachine \<Rightarrow> LifecycleError + LifecycleMachine" where
  "RollbackPreparation m =
     (if current m = StatePreparingUV \<or> current m = StateSyncingRepository
      then Inr (m\<lparr>current := initial m\<rparr>)
      else Inl (CannotRollBack (current m)))"

definition Transition :: "LifecycleMachine \<Rightarrow> StateStatus \<Rightarrow> LifecycleError + LifecycleMachine" where
  "Transition m next =
     (let cur = current m in
      if \<not> IsKnownStateStatus cur \<or> \<not> IsKnownStateStatus next then Inl (UnknownState cur next)
      else if cur = StateBackendFailed \<or> cur = StateStopped then Inl (CurrentIsTerminal cur next)
      else if cur = next then Inl (SelfLoop cur)
      else if \<not> IsKnownLifecycleTransition cur next then Inl (EdgeNotAllowed cur next)
      else if cur = StateRunning \<and> next = StateRestarting then
        (if restartUsed m then Inl RestartAlreadyUsed
         else Inr (m\<lparr>restartUsed := True, current := next\<rparr>))
      else if cur = StateRunning \<and> next = StateBackendFailed \<and> \<not> restartUsed m
        then Inl MustRestartFirst
      else Inr (m\<lparr>current := next\<rparr>))"

text \<open>The calls a client can make, and a run of them. A rejected call changes nothing.\<close>

datatype LifecycleCall = CallTransition StateStatus | CallRollback

fun lifecycle_call :: "LifecycleMachine \<Rightarrow> LifecycleCall \<Rightarrow> LifecycleError + LifecycleMachine" where
  "lifecycle_call m (CallTransition s) = Transition m s"
| "lifecycle_call m CallRollback = RollbackPreparation m"

inductive lifecycle_reachable :: "LifecycleMachine \<Rightarrow> bool" where
  lifecycle_new: "NewLifecycleMachine s = Inr m \<Longrightarrow> lifecycle_reachable m"
| lifecycle_step: "lifecycle_reachable m \<Longrightarrow> lifecycle_call m c = Inr m' \<Longrightarrow> lifecycle_reachable m'"

section \<open>What the machine can reach\<close>

named_theorems lifecycle_unfold \<open>the machine's definitions\<close>

declare lifecycleTransitions_def [lifecycle_unfold] IsKnownLifecycleTransition_def [lifecycle_unfold]
  Transition_def [lifecycle_unfold] RollbackPreparation_def [lifecycle_unfold]
  NewLifecycleMachine_def [lifecycle_unfold] stateStatuses_def [lifecycle_unfold]
  IsKnownStateStatus_def [lifecycle_unfold] Let_def [lifecycle_unfold]

lemma TransitionE:
  assumes "Transition m s = Inr m'"
  obtains "IsKnownStateStatus (current m)" "IsKnownStateStatus s"
    "current m \<noteq> StateBackendFailed" "current m \<noteq> StateStopped"
    "(current m, s) \<in> set lifecycleTransitions"
    "initial m' = initial m" "current m' = s"
    "restartUsed m' = (restartUsed m \<or> current m = StateRunning \<and> s = StateRestarting)"
    "current m = StateRunning \<Longrightarrow> s = StateBackendFailed \<Longrightarrow> restartUsed m"
    "current m = StateRunning \<Longrightarrow> s = StateRestarting \<Longrightarrow> \<not> restartUsed m"
proof -
  have "(current m, s) \<in> set lifecycleTransitions"
    using assms by (auto simp: Transition_def Let_def IsKnownLifecycleTransition_def list_ex_iff
      split: if_splits)
  with assms show thesis
    by (intro that) (auto simp: Transition_def Let_def split: if_splits)
qed

lemma RollbackE:
  assumes "RollbackPreparation m = Inr m'"
  obtains "current m = StatePreparingUV \<or> current m = StateSyncingRepository"
    "m' = m\<lparr>current := initial m\<rparr>"
  using assms by (auto simp: RollbackPreparation_def split: if_splits)

definition stable_states :: "StateStatus list" where
  "stable_states = [StateUninitialized, StateEnvironmentBroken, StateReadyToStart]"

definition terminal_states :: "StateStatus list" where
  "terminal_states = [StateBackendFailed, StateStopped]"

definition after_restart :: "StateStatus list" where
  "after_restart = [StateRunning, StateRestarting, StateStoppingBackend, StateStopped,
     StateBackendFailed]"

text \<open>The invariant: the states after the restart are the only ones that can follow it.\<close>

definition lifecycle_inv :: "LifecycleMachine \<Rightarrow> bool" where
  "lifecycle_inv m \<longleftrightarrow>
     IsKnownStateStatus (current m) \<and> initial m \<in> set stable_states \<and>
     (restartUsed m \<longrightarrow> current m \<in> set after_restart) \<and>
     (current m = StateRestarting \<longrightarrow> restartUsed m)"

lemma lifecycle_inv_new: "NewLifecycleMachine s = Inr m \<Longrightarrow> lifecycle_inv m"
  by (auto simp: lifecycle_unfold lifecycle_inv_def stable_states_def split: if_splits)

lemma stable_states_known: "s \<in> set stable_states \<Longrightarrow> IsKnownStateStatus s"
  by (auto simp: stable_states_def lifecycle_unfold)

lemma edge_after_restart:
  "(a, b) \<in> set lifecycleTransitions \<Longrightarrow>
   a \<in> set after_restart \<Longrightarrow> b \<in> set after_restart"
  by (auto simp: lifecycleTransitions_def after_restart_def)

lemma edge_to_restarting: "(a, StateRestarting) \<in> set lifecycleTransitions \<Longrightarrow> a = StateRunning"
  by (auto simp: lifecycleTransitions_def)

lemma lifecycle_inv_transition:
  assumes inv: "lifecycle_inv m" and t: "Transition m s = Inr m'"
  shows "lifecycle_inv m'"
proof -
  note facts = t [THEN TransitionE]
  have edge: "(current m, s) \<in> set lifecycleTransitions" by (rule facts)
  have m': "current m' = s" "initial m' = initial m"
    "restartUsed m' = (restartUsed m \<or> current m = StateRunning \<and> s = StateRestarting)"
    by (rule facts; assumption)+
  have "IsKnownStateStatus s" by (rule facts)
  moreover have "s \<in> set after_restart" if "restartUsed m'"
  proof (cases "restartUsed m")
    case True
    with inv show ?thesis by (intro edge_after_restart [OF edge]) (simp add: lifecycle_inv_def)
  next
    case False
    with that m'(3) show ?thesis by (auto simp: after_restart_def)
  qed
  moreover have "restartUsed m'" if "s = StateRestarting"
    using edge m'(3) edge_to_restarting that by blast
  ultimately show ?thesis
    using inv m'(1,2) unfolding lifecycle_inv_def by metis
qed

lemma stable_not_restarting: "s \<in> set stable_states \<Longrightarrow> s \<noteq> StateRestarting"
  by (auto simp: stable_states_def)

lemma preparing_not_after_restart:
  "s = StatePreparingUV \<or> s = StateSyncingRepository \<Longrightarrow> s \<notin> set after_restart"
  by (auto simp: after_restart_def)

lemma lifecycle_inv_rollback:
  assumes inv: "lifecycle_inv m" and r: "RollbackPreparation m = Inr m'"
  shows "lifecycle_inv m'"
proof -
  from r have "current m \<notin> set after_restart"
    by (rule RollbackE) (rule preparing_not_after_restart)
  moreover from r have m': "m' = m\<lparr>current := initial m\<rparr>" by (rule RollbackE)
  ultimately have "\<not> restartUsed m" and i: "initial m \<in> set stable_states"
    using inv unfolding lifecycle_inv_def by blast+
  with stable_states_known [OF i] stable_not_restarting [OF i] show ?thesis
    unfolding lifecycle_inv_def m' by simp
qed

fun restarts :: "LifecycleMachine \<Rightarrow> LifecycleCall \<Rightarrow> bool" where
  "restarts m (CallTransition s) = (current m = StateRunning \<and> s = StateRestarting)"
| "restarts m CallRollback = False"

interpretation lifecycle: one_shot_machine lifecycle_call lifecycle_inv restarts restartUsed
proof unfold_locales
  fix m c m'
  assume inv: "lifecycle_inv m" and call: "lifecycle_call m c = Inr m'"
  show "lifecycle_inv m'"
    using inv call by (cases c) (auto intro: lifecycle_inv_transition lifecycle_inv_rollback)
  show "\<not> restartUsed m \<and> restartUsed m'" if "restarts m c"
    using call that by (cases c) (auto elim: TransitionE)
  show "restartUsed m'" if "restartUsed m"
    using call that by (cases c) (auto elim: TransitionE RollbackE)
qed

lemma lifecycle_reachable_inv: "lifecycle_reachable m \<Longrightarrow> lifecycle_inv m"
  by (induction rule: lifecycle_reachable.induct) (auto intro: lifecycle_inv_new lifecycle.call_inv)

section \<open>Terminal states\<close>

lemma terminal_rejects: "current m \<in> set terminal_states \<Longrightarrow> \<exists>e. lifecycle_call m c = Inl e"
  by (cases c) (auto simp: terminal_states_def Transition_def RollbackPreparation_def Let_def)

section \<open>The way to stopped\<close>

fun way_to_stopped :: "StateStatus \<Rightarrow> StateStatus list" where
  "way_to_stopped s =
     (if s = StateStopped \<or> s = StateBackendFailed then []
      else if s = StateStoppingBackend then [StateStopped]
      else if s = StateRunning \<or> s = StateRestarting \<or> s = StateStartingBackend
        then [StateStoppingBackend, StateStopped]
      else if s = StateReadyToStart then [StateStartingBackend, StateStoppingBackend, StateStopped]
      else if s = StateSyncingEnvironment
        then [StateReadyToStart, StateStartingBackend, StateStoppingBackend, StateStopped]
      else if s = StatePreparingPython
        then [StateSyncingEnvironment, StateReadyToStart, StateStartingBackend,
              StateStoppingBackend, StateStopped]
      else if s = StateSyncingRepository \<or> s = StatePreparingUV
        then [StatePreparingPython, StateSyncingEnvironment, StateReadyToStart,
              StateStartingBackend, StateStoppingBackend, StateStopped]
      else [StatePreparingUV, StatePreparingPython, StateSyncingEnvironment, StateReadyToStart,
            StateStartingBackend, StateStoppingBackend, StateStopped])"

text \<open>An edge that neither enters a restart nor fails a running backend has no state guard.\<close>

lemma plain_edge_accepted:
  assumes "(current m, s) \<in> set lifecycleTransitions" "s \<noteq> StateRestarting" "s \<noteq> StateBackendFailed"
  shows "Transition m s = Inr (m\<lparr>current := s\<rparr>)"
proof -
  have ends: "\<forall>t \<in> set lifecycleTransitions. IsKnownStateStatus (fst t) \<and> IsKnownStateStatus (snd t)
      \<and> fst t \<noteq> StateBackendFailed \<and> fst t \<noteq> StateStopped \<and> fst t \<noteq> snd t"
    by code_simp
  have "IsKnownLifecycleTransition (current m) s"
    unfolding IsKnownLifecycleTransition_def list_ex_iff using assms(1) by (intro bexI) auto
  with bspec [OF ends assms(1)] assms(2,3) show ?thesis
    unfolding Transition_def Let_def by simp
qed

fun is_way :: "StateStatus \<Rightarrow> StateStatus list \<Rightarrow> bool" where
  "is_way a [] = (a = StateStopped)"
| "is_way a (b # bs) =
     (IsKnownLifecycleTransition a b \<and> b \<noteq> StateRestarting \<and> b \<noteq> StateBackendFailed \<and> is_way b bs)"

lemma way_to_stopped_is_way:
  "\<forall>s \<in> set stateStatuses. s \<noteq> StateBackendFailed \<longrightarrow> is_way s (way_to_stopped s)"
  by code_simp

lemma is_way_run:
  "is_way (current m) ss \<Longrightarrow>
   run_strict lifecycle_call m (map CallTransition ss) = Inr (m\<lparr>current := StateStopped\<rparr>)"
proof (induction ss arbitrary: m)
  case (Cons b bs)
  then have "(current m, b) \<in> set lifecycleTransitions"
    by (auto simp: IsKnownLifecycleTransition_def list_ex_iff)
  with Cons.prems have "Transition m b = Inr (m\<lparr>current := b\<rparr>)"
    by (intro plain_edge_accepted) auto
  with Cons.IH [of "m\<lparr>current := b\<rparr>"] Cons.prems show ?case by simp
qed simp

section \<open>The backend phase is bounded\<close>

definition phase_fuel :: "StateStatus \<Rightarrow> bool \<Rightarrow> nat" where
  "phase_fuel s u =
     (if s = StateStartingBackend then 5
      else if s = StateRunning then (if u then 2 else 4)
      else if s = StateRestarting then 3
      else if s = StateStoppingBackend then 1
      else 0)"

definition phase_ok :: "StateStatus \<Rightarrow> bool \<Rightarrow> bool" where
  "phase_ok s u \<longleftrightarrow> List.member (StateStartingBackend # after_restart) s \<and>
     (s = StateStartingBackend \<longrightarrow> \<not> u) \<and> (s = StateRestarting \<longrightarrow> u)"

definition backend_fuel :: "LifecycleMachine \<Rightarrow> nat" where
  "backend_fuel m = phase_fuel (current m) (restartUsed m)"

definition backend_inv :: "LifecycleMachine \<Rightarrow> bool" where
  "backend_inv m = phase_ok (current m) (restartUsed m)"

text \<open>The edges of the table, checked one by one for both values of the restart flag.\<close>

lemma phase_edges:
  "\<forall>t \<in> set lifecycleTransitions. \<forall>u \<in> set [True, False].
     phase_ok (fst t) u \<longrightarrow> \<not> (t = (StateRunning, StateRestarting) \<and> u) \<longrightarrow>
     (let u' = u \<or> t = (StateRunning, StateRestarting) in
      phase_ok (snd t) u' \<and> phase_fuel (snd t) u' < phase_fuel (fst t) u)"
  by code_simp

lemma backend_inv_step:
  assumes inv: "backend_inv m" and call: "lifecycle_call m c = Inr m'"
  shows "backend_inv m' \<and> backend_fuel m' < backend_fuel m"
proof (cases c)
  case (CallTransition s)
  with call have t: "Transition m s = Inr m'" by simp
  have edge: "(current m, s) \<in> set lifecycleTransitions" using t by (rule TransitionE)
  note facts = t [THEN TransitionE]
  have m': "current m' = s"
    "restartUsed m' = (restartUsed m \<or> current m = StateRunning \<and> s = StateRestarting)"
    by (rule facts; assumption)+
  have "\<not> (current m = StateRunning \<and> s = StateRestarting \<and> restartUsed m)"
    using t by (rule TransitionE) blast
  with bspec [OF bspec [OF phase_edges edge], of "restartUsed m"] inv show ?thesis
    by (cases "restartUsed m") (auto simp: backend_inv_def backend_fuel_def m' Let_def)
next
  case CallRollback
  with call have "current m = StatePreparingUV \<or> current m = StateSyncingRepository"
    by (auto elim: RollbackE)
  with inv have False
    unfolding backend_inv_def phase_ok_def
    by (auto simp: preparing_not_after_restart)
  then show ?thesis ..
qed

interpretation backend_run: decreasing_machine lifecycle_call backend_inv backend_fuel
  by unfold_locales (auto dest: backend_inv_step)

section \<open>Properties\<close>

text \<open>C24: the automatic restart is spent at most once: whatever calls are made on a new machine,
  and whichever of them are rejected, at most one transition from running to restarting is
  accepted.\<close>

theorem lifecycle_single_restart:
  "NewLifecycleMachine s = Inr m \<Longrightarrow> count_accepted lifecycle_call restarts m cs \<le> 1"
  by (intro lifecycle.spent_at_most_once lifecycle_inv_new)

theorem lifecycle_single_restart_witness:
  "count_accepted lifecycle_call restarts
     \<lparr>initial = StateReadyToStart, current = StateReadyToStart, restartUsed = False\<rparr>
     (map CallTransition [StateStartingBackend, StateRunning, StateRestarting, StateRunning,
        StateRestarting]) \<le> 1"
  by (rule lifecycle_single_restart [of StateReadyToStart]) (simp add: NewLifecycleMachine_def)

text \<open>C25: in every reachable machine the current state is a known one and the initial one is
  stable; a running backend goes to \<open>backend_failed\<close> only when its restart has been used, and a
  machine that has used its restart never goes back to preparing or starting.\<close>

theorem lifecycle_reachable_safe:
  assumes "lifecycle_reachable m"
  shows "IsKnownStateStatus (current m) \<and> initial m \<in> set stable_states \<and>
    (restartUsed m \<longrightarrow> current m \<in> set after_restart) \<and>
    (current m = StateRunning \<and> \<not> restartUsed m \<longrightarrow>
       lifecycle_call m (CallTransition StateBackendFailed) = Inl MustRestartFirst)"
proof -
  have "lifecycle_call m (CallTransition StateBackendFailed) = Inl MustRestartFirst"
    if "current m = StateRunning" "\<not> restartUsed m"
    using that by (simp add: lifecycle_unfold)
  with lifecycle_reachable_inv [OF assms] show ?thesis unfolding lifecycle_inv_def by blast
qed

theorem lifecycle_reachable_safe_witness:
  "IsKnownStateStatus (current \<lparr>initial = StateReadyToStart, current = StateReadyToStart,
     restartUsed = False\<rparr>)"
  by (rule conjunct1 [OF lifecycle_reachable_safe], rule lifecycle_new [of StateReadyToStart])
     (simp add: NewLifecycleMachine_def)

text \<open>\<open>stopped\<close> and \<open>backend_failed\<close> are final: no sequence of calls changes a machine that
  is in one of them.\<close>

theorem lifecycle_terminal_final:
  "current m = StateStopped \<or> current m = StateBackendFailed \<Longrightarrow> run_calls lifecycle_call m cs = m"
proof (induction cs arbitrary: m)
  case (Cons c cs)
  then have "apply_call lifecycle_call m c = m"
    using terminal_rejects [of m c] by (auto simp: apply_call_def terminal_states_def)
  with Cons show ?case by simp
qed simp

theorem lifecycle_terminal_final_witness:
  "run_calls lifecycle_call
     \<lparr>initial = StateReadyToStart, current = StateStopped, restartUsed = True\<rparr>
     [CallTransition StatePreparingUV, CallRollback] =
   \<lparr>initial = StateReadyToStart, current = StateStopped, restartUsed = True\<rparr>"
  by (rule lifecycle_terminal_final) simp

text \<open>no reachable state other than \<open>backend_failed\<close> is stuck: from each of them some sequence
  of transitions, all of them accepted, ends in \<open>stopped\<close>.\<close>

theorem lifecycle_can_stop:
  assumes "lifecycle_reachable m" "current m \<noteq> StateBackendFailed"
  shows "\<exists>ss. run_strict lifecycle_call m (map CallTransition ss) =
    Inr (m\<lparr>current := StateStopped\<rparr>)"
proof -
  from lifecycle_reachable_inv [OF assms(1)] have "current m \<in> set stateStatuses"
    by (simp add: lifecycle_inv_def IsKnownStateStatus_iff)
  with way_to_stopped_is_way assms(2) have "is_way (current m) (way_to_stopped (current m))"
    by blast
  then show ?thesis by (blast intro: is_way_run)
qed

theorem lifecycle_can_stop_witness:
  "\<exists>ss. run_strict lifecycle_call
     \<lparr>initial = StateUninitialized, current = StateUninitialized, restartUsed = False\<rparr>
     (map CallTransition ss) =
   Inr (\<lparr>initial = StateUninitialized, current = StateUninitialized, restartUsed = False\<rparr>
     \<lparr>current := StateStopped\<rparr>)"
  by (rule lifecycle_can_stop, rule lifecycle_new [of StateUninitialized])
     (simp_all add: NewLifecycleMachine_def)

text \<open>once the backend is being started, at most five more transitions are accepted before
  the machine is final: start, run, restart, run, stop.\<close>

theorem lifecycle_backend_phase_bounded:
  assumes "lifecycle_reachable m" "current m = StateStartingBackend"
    and "run_strict lifecycle_call m cs = Inr m'"
  shows "length cs \<le> 5"
proof -
  have "\<not> restartUsed m"
    using lifecycle_reachable_inv [OF assms(1)] assms(2)
    by (auto simp: lifecycle_inv_def after_restart_def)
  then have "backend_inv m" and "backend_fuel m = 5"
    using assms(2) by (simp_all add: backend_inv_def phase_ok_def backend_fuel_def phase_fuel_def)
  with backend_run.strict_run_bounded [OF _ assms(3)] show ?thesis by simp
qed

lemma starting_reachable:
  "lifecycle_reachable
     \<lparr>initial = StateReadyToStart, current = StateStartingBackend, restartUsed = False\<rparr>"
proof -
  let ?m = "\<lparr>initial = StateReadyToStart, current = StateReadyToStart, restartUsed = False\<rparr>"
  have "NewLifecycleMachine StateReadyToStart = Inr ?m"
    by (simp add: NewLifecycleMachine_def)
  moreover have "lifecycle_call ?m (CallTransition StateStartingBackend) =
      Inr \<lparr>initial = StateReadyToStart, current = StateStartingBackend, restartUsed = False\<rparr>"
    by code_simp
  ultimately show ?thesis by (blast intro: lifecycle_new lifecycle_step)
qed

theorem lifecycle_backend_phase_bounded_witness:
  "length (map CallTransition [StateRunning, StateRestarting, StateRunning, StateStoppingBackend,
     StateStopped]) \<le> 5"
proof (rule lifecycle_backend_phase_bounded [OF starting_reachable])
  show "run_strict lifecycle_call
      \<lparr>initial = StateReadyToStart, current = StateStartingBackend, restartUsed = False\<rparr>
      (map CallTransition [StateRunning, StateRestarting, StateRunning, StateStoppingBackend,
        StateStopped]) =
    Inr \<lparr>initial = StateReadyToStart, current = StateStopped, restartUsed = True\<rparr>"
    by code_simp
qed simp

end
