(* ===== verification/Operation_Id.thy ===== *)
theory Operation_Id
  imports Go_Prelude "HOL-Library.Word"
begin

text \<open>
  \<open>internal/protocol/operation_id.go\<close>: operation identifiers are canonical ULIDs, 48 bits of
  milliseconds and 80 bits of entropy written in 26 base-32 digits. The entropy read is an
  argument: \<open>None\<close> where \<open>io.ReadFull\<close> fails, else the bytes it filled in. The lemmas show that
  the digits can be read back, so that an identifier is valid, determines its inputs and sorts by
  time.
\<close>

section \<open>Model\<close>

type_synonym byte = "8 word"

abbreviation operationIDLength :: nat where
  "operationIDLength \<equiv> 26"

definition ulidAlphabet :: string where
  "ulidAlphabet = ''0123456789ABCDEFGHJKMNPQRSTVWXYZ''"

datatype OperationIDError = TimestampOutOfRange | EntropyFailed

text \<open>The loop over \<open>i = 5 .. 0\<close> that writes the milliseconds, most significant byte first.\<close>

fun timestamp_bytes :: "nat \<Rightarrow> int \<Rightarrow> byte list \<Rightarrow> byte list" where
  "timestamp_bytes 0 ms acc = acc"
| "timestamp_bytes (Suc n) ms acc = timestamp_bytes n (ms div 256) (word_of_int ms # acc)"

definition big_endian :: "byte list \<Rightarrow> nat" where
  "big_endian bs = foldl (\<lambda>v b. v * 256 + unat b) 0 bs"

text \<open>The loop over \<open>i = 25 .. 0\<close> that takes base-32 digits off the big integer.\<close>

fun ulid_digits :: "nat \<Rightarrow> nat \<Rightarrow> string \<Rightarrow> string" where
  "ulid_digits 0 v acc = acc"
| "ulid_digits (Suc n) v acc = ulid_digits n (v div 32) (ulidAlphabet ! (v mod 32) # acc)"

definition newOperationID :: "int \<Rightarrow> byte list option \<Rightarrow> OperationIDError + string" where
  "newOperationID ms entropy =
     (if ms < 0 \<or> ms > 2 ^ 48 - 1 then Inl TimestampOutOfRange
      else case entropy of
        None \<Rightarrow> Inl EntropyFailed
      | Some random \<Rightarrow>
          Inr (ulid_digits operationIDLength (big_endian (timestamp_bytes 6 ms [] @ random)) []))"

definition isULIDCharacter :: "char \<Rightarrow> bool" where
  "isULIDCharacter c = List.member ulidAlphabet c"

definition validOperationID :: "string \<Rightarrow> bool" where
  "validOperationID s =
     (if length s \<noteq> operationIDLength \<or> hd s > CHR ''7'' then False
      else list_all isULIDCharacter s)"

section \<open>Reading the digits back\<close>

fun digit_value :: "string \<Rightarrow> char \<Rightarrow> nat" where
  "digit_value [] c = 0"
| "digit_value (a # as) c = (if a = c then 0 else Suc (digit_value as c))"

definition ulid_value :: "string \<Rightarrow> nat" where
  "ulid_value s = foldl (\<lambda>v c. v * 32 + digit_value ulidAlphabet c) 0 s"

lemma ulidAlphabet_length [simp]: "length ulidAlphabet = 32"
  by (simp add: ulidAlphabet_def)

lemma digit_value_nth: "distinct as \<Longrightarrow> i < length as \<Longrightarrow> digit_value as (as ! i) = i"
  by (induction as arbitrary: i) (auto simp: nth_Cons split: nat.splits)

lemma ulidAlphabet_distinct: "distinct ulidAlphabet"
  by code_simp

lemma digit_value_mod [simp]: "digit_value ulidAlphabet (ulidAlphabet ! (v mod 32)) = v mod 32"
  by (rule digit_value_nth [OF ulidAlphabet_distinct]) simp

lemma ulid_digits_acc: "ulid_digits n v acc = ulid_digits n v [] @ acc"
proof (induction n arbitrary: v acc)
  case (Suc n)
  show ?case by (simp add: Suc [of _ "_ # acc"] Suc [of _ "[_]"])
qed simp

lemma ulid_digits_Suc:
  "ulid_digits (Suc n) v [] = ulid_digits n (v div 32) [] @ [ulidAlphabet ! (v mod 32)]"
  by (simp add: ulid_digits_acc [of _ _ "[_]"])

declare ulid_digits.simps(2) [simp del]

lemma length_ulid_digits [simp]: "length (ulid_digits n v []) = n"
  by (induction n arbitrary: v) (simp_all add: ulid_digits_Suc)

lemma ulid_value_digits: "ulid_value (ulid_digits n v []) = v mod 32 ^ n"
proof (induction n arbitrary: v)
  case (Suc n)
  have "ulid_value (ulid_digits (Suc n) v []) = (v div 32) mod 32 ^ n * 32 + v mod 32"
    using Suc by (simp add: ulid_digits_Suc ulid_value_def)
  also have "\<dots> = v mod 32 ^ Suc n"
    by (simp add: mod_mult2_eq)
  finally show ?case .
qed (simp add: ulid_value_def)

lemma ulid_digits_chars: "c \<in> set (ulid_digits n v []) \<Longrightarrow> c \<in> set ulidAlphabet"
  by (induction n arbitrary: v) (auto simp: ulid_digits_Suc)

lemma hd_ulid_digits: "hd (ulid_digits (Suc n) v []) = ulidAlphabet ! (v div 32 ^ n mod 32)"
proof (induction n arbitrary: v)
  case (Suc n)
  have "ulid_digits (Suc n) (v div 32) [] \<noteq> []"
    using length_ulid_digits [of "Suc n" "v div 32"] by (metis length_0_conv nat.distinct(1))
  then have "hd (ulid_digits (Suc (Suc n)) v []) = hd (ulid_digits (Suc n) (v div 32) [])"
    by (subst ulid_digits_Suc) (rule hd_append2)
  with Suc show ?case by (simp add: div_mult2_eq)
qed (simp add: ulid_digits_Suc)

section \<open>The bytes\<close>

lemma foldl_big_endian:
  "foldl (\<lambda>v b. v * 256 + unat (b :: byte)) k bs = k * 256 ^ length bs + big_endian bs"
proof (induction bs arbitrary: k)
  case (Cons b bs)
  show ?case
    unfolding big_endian_def foldl_Cons
    by (subst Cons, subst Cons [of "0 * 256 + unat b"]) (simp add: algebra_simps)
qed (simp add: big_endian_def)

lemma big_endian_append: "big_endian (as @ bs) = big_endian as * 256 ^ length bs + big_endian bs"
  using foldl_big_endian [of "big_endian as" bs] by (simp add: big_endian_def)

lemma big_endian_Cons: "big_endian (b # bs) = unat b * 256 ^ length bs + big_endian bs"
  using big_endian_append [of "[b]" bs] by (simp add: big_endian_def)

lemma big_endian_less: "big_endian bs < 256 ^ length bs"
proof (induction bs)
  case (Cons b bs)
  have "unat b < 2 ^ LENGTH(8)" by (rule unsigned_less)
  then have "(unat b + 1) * 256 ^ length bs \<le> 256 * 256 ^ length bs"
    by (intro mult_right_mono) auto
  with Cons show ?case unfolding big_endian_Cons length_Cons power_Suc add_mult_distrib by linarith
qed (simp add: big_endian_def)

lemma big_endian_inject:
  "length as = length bs \<Longrightarrow> big_endian as = big_endian bs \<Longrightarrow> as = bs"
proof (induction as bs rule: list_induct2)
  case (Cons a as b bs)
  have "(unat a * 256 ^ length bs + big_endian as) div 256 ^ length bs = unat a"
    "(unat b * 256 ^ length bs + big_endian bs) div 256 ^ length bs = unat b"
    using big_endian_less [of as] big_endian_less [of bs] Cons.hyps by simp_all
  with Cons have "unat a = unat b" by (simp add: big_endian_Cons)
  with Cons show ?case by (simp add: big_endian_Cons word_unat_eq_iff)
qed simp

lemma timestamp_bytes_acc: "timestamp_bytes n ms acc = timestamp_bytes n ms [] @ acc"
proof (induction n arbitrary: ms acc)
  case (Suc n)
  show ?case by (simp add: Suc [of _ "_ # acc"] Suc [of _ "[_]"])
qed simp

lemma timestamp_bytes_Suc:
  "timestamp_bytes (Suc n) ms [] = timestamp_bytes n (ms div 256) [] @ [word_of_int ms]"
  by (simp add: timestamp_bytes_acc [of _ _ "[_]"])

lemma length_timestamp_bytes [simp]: "length (timestamp_bytes n ms []) = n"
  by (induction n arbitrary: ms) (simp_all add: timestamp_bytes_Suc del: timestamp_bytes.simps(2))

lemma big_endian_timestamp:
  "0 \<le> ms \<Longrightarrow> ms < 256 ^ n \<Longrightarrow> int (big_endian (timestamp_bytes n ms [])) = ms"
proof (induction n arbitrary: ms)
  case (Suc n)
  then have "int (big_endian (timestamp_bytes n (ms div 256) [])) = ms div 256"
    by (intro Suc.IH) auto
  moreover have "int (unat (word_of_int ms :: byte)) = ms mod 256"
    by (simp add: unsigned_of_int take_bit_eq_mod)
  ultimately show ?case
    by (simp add: timestamp_bytes_Suc big_endian_append big_endian_Cons
        del: timestamp_bytes.simps(2)) (simp add: big_endian_def)
qed (simp add: big_endian_def)

section \<open>Order\<close>

lemma foldl_ulid_value:
  "foldl (\<lambda>v c. v * 32 + digit_value ulidAlphabet c) k s = k * 32 ^ length s + ulid_value s"
proof (induction s arbitrary: k)
  case (Cons c s)
  show ?case
    unfolding ulid_value_def foldl_Cons
    by (subst Cons, subst Cons [of "0 * 32 + _ c"]) (simp add: algebra_simps)
qed (simp add: ulid_value_def)

lemma ulid_value_Cons: "ulid_value (c # s) = digit_value ulidAlphabet c * 32 ^ length s + ulid_value s"
  using foldl_ulid_value [of "digit_value ulidAlphabet c" s] by (simp add: ulid_value_def)

lemma digit_value_less: "c \<in> set as \<Longrightarrow> digit_value as c < length as"
  by (induction as) auto

lemma ulid_value_less: "set s \<subseteq> set ulidAlphabet \<Longrightarrow> ulid_value s < 32 ^ length s"
proof (induction s)
  case (Cons c s)
  have "digit_value ulidAlphabet c < 32"
    using digit_value_less [of c ulidAlphabet] Cons.prems by simp
  then have "(digit_value ulidAlphabet c + 1) * 32 ^ length s \<le> 32 * 32 ^ length s"
    by (intro mult_right_mono) auto
  moreover have "ulid_value s < 32 ^ length s" using Cons by simp
  ultimately show ?case
    unfolding ulid_value_Cons length_Cons power_Suc add_mult_distrib by linarith
qed (simp add: ulid_value_def)

lemma digit_value_mono:
  "c \<in> set ulidAlphabet \<Longrightarrow> d \<in> set ulidAlphabet \<Longrightarrow>
   digit_value ulidAlphabet c < digit_value ulidAlphabet d \<Longrightarrow> c < d"
proof -
  have "\<forall>c \<in> set ulidAlphabet. \<forall>d \<in> set ulidAlphabet.
      digit_value ulidAlphabet c < digit_value ulidAlphabet d \<longrightarrow> c < d"
    by code_simp
  then show "c \<in> set ulidAlphabet \<Longrightarrow> d \<in> set ulidAlphabet \<Longrightarrow>
    digit_value ulidAlphabet c < digit_value ulidAlphabet d \<Longrightarrow> c < d" by blast
qed

text \<open>Identifiers of one length compare as strings the way their values compare.\<close>

lemma ulid_order:
  "length s = length t \<Longrightarrow> set s \<subseteq> set ulidAlphabet \<Longrightarrow> set t \<subseteq> set ulidAlphabet \<Longrightarrow>
   ulid_value s < ulid_value t \<Longrightarrow> ord_class.lexordp s t"
proof (induction s t rule: list_induct2)
  case (Cons c s d t)
  let ?v = "digit_value ulidAlphabet"
  have small: "ulid_value s < 32 ^ length t" "ulid_value t < 32 ^ length t"
    using ulid_value_less [of s] ulid_value_less [of t] Cons by auto
  have vals: "?v c * 32 ^ length t + ulid_value s < ?v d * 32 ^ length t + ulid_value t"
    using Cons by (simp add: ulid_value_Cons)
  consider "?v c < ?v d" | "?v c = ?v d" | "?v d < ?v c" by linarith
  then show ?case
  proof cases
    case 1
    with digit_value_mono [of c d] Cons.prems show ?thesis by auto
  next
    case 2
    then have "c = d"
      using Cons.prems by (metis digit_value_mod in_set_conv_nth list.set_intros(1) mod_less
          subsetD ulidAlphabet_length)
    with 2 vals Cons show ?thesis by auto
  next
    case 3
    then have "(?v d + 1) * 32 ^ length t \<le> ?v c * 32 ^ length t" by (intro mult_right_mono) auto
    with vals small show ?thesis unfolding add_mult_distrib by linarith
  qed
qed simp

section \<open>Properties\<close>

lemma mult_add_unique:
  fixes n :: nat
  assumes "n * m + b = n' * m + b'" "b < m" "b' < m"
  shows "n = n' \<and> b = b'"
proof -
  have "n = (n * m + b) div m" "n' = (n' * m + b') div m" using assms(2,3) by auto
  with assms(1) have "n = n'" by metis
  with assms(1) show ?thesis by simp
qed

lemma newOperationID_Inr:
  assumes "newOperationID ms (Some r) = Inr s" "length r = 10"
  shows "length s = 26 \<and> set s \<subseteq> set ulidAlphabet \<and>
    ulid_value s = nat ms * 256 ^ 10 + big_endian r \<and> 0 \<le> ms \<and> ms < 2 ^ 48"
proof -
  let ?v = "big_endian (timestamp_bytes 6 ms [] @ r)"
  from assms have ms: "0 \<le> ms" "ms < 2 ^ 48" and s: "s = ulid_digits 26 ?v []"
    by (auto simp: newOperationID_def split: if_splits)
  have "int (big_endian (timestamp_bytes 6 ms [])) = ms"
    using ms by (intro big_endian_timestamp) auto
  then have v: "?v = nat ms * 256 ^ 10 + big_endian r"
    using assms(2) by (simp add: big_endian_append nat_eq_iff)
  have "?v < 256 ^ 16"
    using big_endian_less [of "timestamp_bytes 6 ms [] @ r"] assms(2) by simp
  then have "ulid_value s = ?v" using s by (simp add: ulid_value_digits)
  with v s ms ulid_digits_chars show ?thesis by auto
qed

lemma hd_newOperationID:
  assumes "newOperationID ms (Some r) = Inr s" "length r = 10"
  shows "hd s \<le> CHR ''7''"
proof -
  let ?v = "big_endian (timestamp_bytes 6 ms [] @ r)"
  from assms have s: "s = ulid_digits (Suc 25) ?v []"
    by (auto simp: newOperationID_def split: if_splits)
  have "?v < 256 ^ 16"
    using big_endian_less [of "timestamp_bytes 6 ms [] @ r"] assms(2) by simp
  then have top: "?v div 32 ^ 25 < 8" by (simp add: div_less_iff_less_mult)
  have "\<forall>i \<in> set [0..<8]. ulidAlphabet ! i \<le> CHR ''7''" by code_simp
  with top show ?thesis unfolding s hd_ulid_digits by simp
qed

text \<open>every generated operation identifier passes the validity check of the protocol, and
  reading its base-32 digits back gives exactly the 48-bit timestamp followed by the 80 bits of
  entropy; so two equal identifiers have the same timestamp and entropy.\<close>

theorem operation_id_roundtrip:
  assumes "newOperationID ms (Some r) = Inr s" "length r = 10"
  shows "validOperationID s \<and> ulid_value s = nat ms * 256 ^ 10 + big_endian r \<and>
    (\<forall>ms' r'. newOperationID ms' (Some r') = Inr s \<and> length r' = 10 \<longrightarrow> ms' = ms \<and> r' = r)"
proof (intro conjI allI impI)
  note facts = newOperationID_Inr [OF assms]
  show "validOperationID s"
    using facts hd_newOperationID [OF assms]
    by (auto simp: validOperationID_def isULIDCharacter_def list_all_iff)
  show "ulid_value s = nat ms * 256 ^ 10 + big_endian r" using facts by simp
  fix ms' r' assume other: "newOperationID ms' (Some r') = Inr s \<and> length r' = 10"
  then have facts': "ulid_value s = nat ms' * 256 ^ 10 + big_endian r'" "0 \<le> ms'"
    using newOperationID_Inr [of ms' r' s] by auto
  have less: "big_endian r < 256 ^ 10" "big_endian r' < 256 ^ 10"
    using big_endian_less [of r] big_endian_less [of r'] assms other by auto
  have "nat ms = nat ms' \<and> big_endian r = big_endian r'"
    using facts facts' by (intro mult_add_unique [OF _ less]) metis
  with facts facts'(2) big_endian_inject [of r' r] assms other show "ms' = ms" "r' = r"
    by auto
qed

lemma timestamp_bytes_numeral:
  "timestamp_bytes (numeral k) ms acc =
     timestamp_bytes (pred_numeral k) (ms div 256) (word_of_int ms # acc)"
  by (simp only: numeral_eq_Suc [of k] timestamp_bytes.simps)

lemma ulid_digits_numeral:
  "ulid_digits (numeral k) v acc =
     ulid_digits (pred_numeral k) (v div 32) (ulidAlphabet ! (v mod 32) # acc)"
  by (simp only: numeral_eq_Suc [of k] ulid_digits.simps)

lemmas operation_id_eval = newOperationID_def timestamp_bytes_numeral ulid_digits_numeral
  ulid_digits.simps(2) big_endian_def ulidAlphabet_def

theorem operation_id_roundtrip_witness:
  "ulid_value ''01ARZ3NDEK0000000000000007'' = nat 1469922850259 * 256 ^ 10 + 7"
proof -
  have "newOperationID 1469922850259 (Some [0,0,0,0,0,0,0,0,0,7]) = Inr ''01ARZ3NDEK0000000000000007''"
    by (simp add: operation_id_eval)
  from operation_id_roundtrip [OF this] show ?thesis by (simp add: big_endian_def)
qed

text \<open>Identifiers sort by time: an identifier with an earlier millisecond is the smaller
  string, whatever the entropy of the two is.\<close>

theorem operation_id_sorted_by_time:
  assumes "newOperationID ms (Some r) = Inr s" "length r = 10"
    and "newOperationID ms' (Some r') = Inr s'" "length r' = 10" and "ms < ms'"
  shows "ord_class.lexordp s s'"
proof (rule ulid_order)
  note facts = newOperationID_Inr [OF assms(1,2)] newOperationID_Inr [OF assms(3,4)]
  have "big_endian r < 256 ^ 10" using big_endian_less [of r] assms(2) by simp
  moreover have "(nat ms + 1) * 256 ^ 10 \<le> nat ms' * 256 ^ 10"
    using assms(5) facts by (intro mult_right_mono) auto
  ultimately show "ulid_value s < ulid_value s'" using facts by (simp add: algebra_simps)
qed (use newOperationID_Inr [OF assms(1,2)] newOperationID_Inr [OF assms(3,4)] in auto)

theorem operation_id_sorted_by_time_witness:
  "ord_class.lexordp ''01ARZ3NDEK0000000000000007'' ''01ARZ3NDEM0000000000000000''"
  by (rule operation_id_sorted_by_time [of 1469922850259 "[0,0,0,0,0,0,0,0,0,7]" _
        1469922850260 "[0,0,0,0,0,0,0,0,0,0]"])
     (simp_all add: operation_id_eval)

end
