(* ===== verification/Emitter.thy ===== *)
theory Emitter
  imports Protocol_Values Operation_Id
begin

text \<open>
  \<open>internal/protocol/event.go\<close> and \<open>emitter.go\<close>: the events of the NDJSON protocol and the one
  emitter of a process. The record \<open>ProcessOutput\<close> is the Go struct without its mutex, which every
  method holds for its whole body; the field \<open>rendered\<close> stands for what the renderer has written.
  A call takes what its surroundings answer as arguments: the clock's timestamp, the renderer's
  answer (\<open>RenderAnswer\<close>) and, for a warning, the JSON codec of the standard library that makes the
  snapshot. A nil slice or map is \<open>None\<close>. The lemmas show the order of the events, that the result
  is unique and last, what it carries of the warnings, and that a broken output stays broken.
\<close>

section \<open>Events\<close>

datatype json =
    JNull | JBool bool | JNumber string | JString string | JArray "json list"
  | JObject "(string \<times> json) list"

type_synonym EventType = string

abbreviation "TypeHello \<equiv> ''hello''"
abbreviation "TypeProgress \<equiv> ''progress''"
abbreviation "TypeState \<equiv> ''state''"
abbreviation "TypeLog \<equiv> ''log''"
abbreviation "TypeWarning \<equiv> ''warning''"
abbreviation "TypeError \<equiv> ''error''"
abbreviation "TypeResult \<equiv> ''result''"

record Common =
  cProtocol :: int
  cType :: EventType
  cOperationID :: string
  cSequence :: "64 word"
  cTimestamp :: string

record ProgressEvent =
  pStage :: Stage
  pStatus :: ProgressStatus
  pCurrent :: "64 word option"
  pTotal :: "64 word option"
  pPercent :: "string option"
  pItem :: string
  pSource :: string
  pBytesPerSecond :: "64 word option"
  pMessage :: string

text \<open>The business fields that \<open>WarningEvent\<close>, \<open>WarningSummary\<close> and \<open>ErrorEvent\<close> share.\<close>

record WarningSummary =
  wCode :: string
  wStage :: Stage
  wMessage :: string
  wRetryable :: bool
  wRemediation :: "string list option"
  wDetails :: "(string \<times> json) list option"

text \<open>A value of \<open>details\<close>: a JSON value, or one of the three the emitter adds to a result.\<close>

datatype detail =
    DJson json
  | DWarnings "WarningSummary list"
  | DCount "64 word"
  | DTruncated bool

type_synonym details = "(string \<times> detail) list"

record ResultEvent =
  rSuccess :: bool
  rCode :: string
  rStage :: Stage
  rStatus :: string
  rMessage :: string
  rRetryable :: bool
  rRemediation :: "string list option"
  rDetails :: "details option"

record StateEvent =
  sStage :: Stage
  sStatus :: StateStatus
  sMessage :: string
  sDetails :: "(string \<times> json) list option"

record HelloEvent =
  hRuntimeVersion :: string
  hCommand :: string
  hCapabilities :: "Capability list option"

record LogEvent =
  lSource :: string
  lStream :: string
  lMessage :: string

datatype body =
    HelloBody HelloEvent
  | ProgressBody ProgressEvent
  | StateBody StateEvent
  | LogBody LogEvent
  | WarningBody WarningSummary
  | ErrorBody WarningSummary
  | ResultBody ResultEvent

record event =
  common :: Common
  body :: body

abbreviation Version :: int where "Version \<equiv> 1"
abbreviation MaxResultWarningSummaries :: nat where "MaxResultWarningSummaries \<equiv> 256"

section \<open>Normalisation\<close>

fun normalizeContainers ::
  "string list option \<Rightarrow> 'a list option \<Rightarrow> string list option \<times> 'a list option" where
  "normalizeContainers remediation details =
     (Some (case remediation of None \<Rightarrow> [] | Some r \<Rightarrow> r),
      Some (case details of None \<Rightarrow> [] | Some d \<Rightarrow> d))"

definition normalize_warning :: "WarningSummary \<Rightarrow> WarningSummary" where
  "normalize_warning w =
     (case normalizeContainers (wRemediation w) (wDetails w) of
        (r, d) \<Rightarrow> w\<lparr>wRemediation := r, wDetails := d\<rparr>)"

definition normalize_result :: "ResultEvent \<Rightarrow> ResultEvent" where
  "normalize_result e =
     (case normalizeContainers (rRemediation e) (rDetails e) of
        (r, d) \<Rightarrow> e\<lparr>rRemediation := r, rDetails := d\<rparr>)"

definition normalize_state :: "StateEvent \<Rightarrow> StateEvent" where
  "normalize_state e = (case sDetails e of None \<Rightarrow> e\<lparr>sDetails := Some []\<rparr> | Some _ \<Rightarrow> e)"

definition normalize_hello :: "HelloEvent \<Rightarrow> HelloEvent" where
  "normalize_hello e =
     (case hCapabilities e of None \<Rightarrow> e\<lparr>hCapabilities := Some []\<rparr> | Some _ \<Rightarrow> e)"

fun normalize :: "body \<Rightarrow> body" where
  "normalize (HelloBody e) = HelloBody (normalize_hello e)"
| "normalize (ProgressBody e) = ProgressBody e"
| "normalize (StateBody e) = StateBody (normalize_state e)"
| "normalize (LogBody e) = LogBody e"
| "normalize (WarningBody w) = WarningBody (normalize_warning w)"
| "normalize (ErrorBody w) = ErrorBody (normalize_warning w)"
| "normalize (ResultBody e) = ResultBody (normalize_result e)"

section \<open>The process output\<close>

record ProcessOutput =
  rendered :: "event list"
  nextSequence :: "64 word"
  writeErr :: "string option"
  emitterCreated :: bool
  terminal :: bool
  warnings :: "WarningSummary list"
  warningCount :: "64 word"

datatype EmitError =
    ErrResultAlreadyEmitted
  | ErrEventAfterResult
  | ErrOutputWriteFailed string
  | NonStickyRenderError string
  | SnapshotError string
  | EmitterExists
  | NilOption
  | InvalidOperationID string
  | NilClock
  | UnknownCapability string
  | OperationIDFailed OperationIDError

text \<open>What the renderer does with one event.\<close>

datatype RenderAnswer = Rendered | RenderFails string | RenderFailsNonSticky string

definition NewProcessOutputWithRenderer :: ProcessOutput where
  "NewProcessOutputWithRenderer =
     \<lparr>rendered = [], nextSequence = 1, writeErr = None, emitterCreated = False, terminal = False,
      warnings = [], warningCount = 0\<rparr>"

definition rejectLocked :: "ProcessOutput \<Rightarrow> EventType \<Rightarrow> EmitError option" where
  "rejectLocked po eventType =
     (if terminal po then
        (if eventType = TypeResult then Some ErrResultAlreadyEmitted else Some ErrEventAfterResult)
      else map_option ErrOutputWriteFailed (writeErr po))"

definition rememberWriteError :: "string \<Rightarrow> ProcessOutput \<Rightarrow> EmitError \<times> ProcessOutput" where
  "rememberWriteError e po = (ErrOutputWriteFailed e, po\<lparr>writeErr := Some e\<rparr>)"

definition make_event :: "string \<Rightarrow> string \<Rightarrow> EventType \<Rightarrow> body \<Rightarrow> ProcessOutput \<Rightarrow> event" where
  "make_event operationID now eventType b po =
     \<lparr>common = \<lparr>cProtocol = Version, cType = eventType, cOperationID = operationID,
        cSequence = nextSequence po, cTimestamp = now\<rparr>, body = normalize b\<rparr>"

definition emitPreparedLocked ::
  "string \<Rightarrow> string \<Rightarrow> RenderAnswer \<Rightarrow> EventType \<Rightarrow> body \<Rightarrow> ProcessOutput \<Rightarrow>
   EmitError option \<times> ProcessOutput" where
  "emitPreparedLocked operationID now answer eventType b po =
     (let ev = make_event operationID now eventType b po;
          terminalReserved = (eventType = TypeResult);
          reserved = (if terminalReserved then po\<lparr>terminal := True\<rparr> else po);
          rolledBack = (if terminalReserved then reserved\<lparr>terminal := False\<rparr> else reserved)
      in case answer of
           Rendered \<Rightarrow>
             (None, reserved\<lparr>rendered := rendered reserved @ [ev],
                nextSequence := nextSequence reserved + 1\<rparr>)
         | RenderFailsNonSticky e \<Rightarrow> (Some (NonStickyRenderError e), rolledBack)
         | RenderFails e \<Rightarrow> apfst Some (rememberWriteError e rolledBack))"

definition emit ::
  "string \<Rightarrow> string \<Rightarrow> RenderAnswer \<Rightarrow> EventType \<Rightarrow> body \<Rightarrow> ProcessOutput \<Rightarrow>
   EmitError option \<times> ProcessOutput" where
  "emit operationID now answer eventType b po =
     (case rejectLocked po eventType of
        Some e \<Rightarrow> (Some e, po)
      | None \<Rightarrow> emitPreparedLocked operationID now answer eventType b po)"

text \<open>\<open>codec\<close> encodes the business fields as JSON and decodes them again; the code decodes the same
  bytes twice, once for the event and once for the ledger.\<close>

type_synonym codec = "WarningSummary \<Rightarrow> string + WarningSummary"

definition snapshotWarning ::
  "codec \<Rightarrow> WarningSummary \<Rightarrow> EmitError + (WarningSummary \<times> WarningSummary)" where
  "snapshotWarning codec w =
     (case codec w of
        Inl e \<Rightarrow> Inl (SnapshotError e)
      | Inr canonical \<Rightarrow> Inr (canonical, canonical))"

definition EmitWarning ::
  "codec \<Rightarrow> string \<Rightarrow> string \<Rightarrow> RenderAnswer \<Rightarrow> WarningSummary \<Rightarrow> ProcessOutput \<Rightarrow>
   EmitError option \<times> ProcessOutput" where
  "EmitWarning codec operationID now answer w po =
     (case rejectLocked po TypeWarning of
        Some e \<Rightarrow> (Some e, po)
      | None \<Rightarrow>
          (case snapshotWarning codec (normalize_warning w) of
             Inl e \<Rightarrow> (Some e, po)
           | Inr (canonical, ledger) \<Rightarrow>
               (case emitPreparedLocked operationID now answer TypeWarning (WarningBody canonical) po of
                  (Some e, o1) \<Rightarrow> (Some e, o1)
                | (None, o1) \<Rightarrow>
                    (let o2 = o1\<lparr>warningCount := warningCount o1 + 1\<rparr> in
                     (None, if length (warnings o2) < MaxResultWarningSummaries
                            then o2\<lparr>warnings := warnings o2 @ [ledger]\<rparr> else o2)))))"

definition resultDetails :: "ProcessOutput \<Rightarrow> details option \<Rightarrow> details" where
  "resultDetails po details =
     (let copied = filter (\<lambda>(k, v). k \<noteq> ''warnings'' \<and> k \<noteq> ''warningCount'' \<and>
            k \<noteq> ''warningsTruncated'') (case details of None \<Rightarrow> [] | Some d \<Rightarrow> d)
      in if warningCount po = 0 then copied
         else copied @ [(''warnings'', DWarnings (warnings po)),
                (''warningCount'', DCount (warningCount po)),
                (''warningsTruncated'', DTruncated (warningCount po > 256))])"

definition EmitResult ::
  "string \<Rightarrow> string \<Rightarrow> RenderAnswer \<Rightarrow> ResultEvent \<Rightarrow> ProcessOutput \<Rightarrow>
   EmitError option \<times> ProcessOutput" where
  "EmitResult operationID now answer e po =
     (case rejectLocked po TypeResult of
        Some err \<Rightarrow> (Some err, po)
      | None \<Rightarrow>
          emitPreparedLocked operationID now answer TypeResult
            (ResultBody (e\<lparr>rDetails := Some (resultDetails po (rDetails e))\<rparr>)) po)"

section \<open>The emitter\<close>

text \<open>The options of \<open>NewEmitter\<close>; \<open>WithClock True\<close> stands for a nil clock.\<close>

datatype EmitterOption = NoOption | WithOperationID string | WithClock bool

fun applyOptions :: "string \<Rightarrow> EmitterOption list \<Rightarrow> EmitError + string" where
  "applyOptions operationID [] = Inr operationID"
| "applyOptions operationID (NoOption # os) = Inl NilOption"
| "applyOptions operationID (WithOperationID i # os) =
     (if validOperationID i then applyOptions i os else Inl (InvalidOperationID i))"
| "applyOptions operationID (WithClock isNil # os) =
     (if isNil then Inl NilClock else applyOptions operationID os)"

definition unknown_capability :: "Capability list \<Rightarrow> EmitError option" where
  "unknown_capability cs = map_option UnknownCapability (List.find (\<lambda>c. \<not> IsKnownCapability c) cs)"

text \<open>\<open>ms\<close> and \<open>entropy\<close> are what the clock and the random source give to a new identifier. The
  result is the operation identifier of the emitter; an error after the reservation leaves the
  output reserved.\<close>

definition NewEmitter ::
  "string \<Rightarrow> string \<Rightarrow> Capability list \<Rightarrow> EmitterOption list \<Rightarrow> int \<Rightarrow> byte list option \<Rightarrow> string \<Rightarrow>
   RenderAnswer \<Rightarrow> ProcessOutput \<Rightarrow> (EmitError + string) \<times> ProcessOutput" where
  "NewEmitter runtimeVersion cmd capabilities options ms entropy now answer po =
     (case bindE (applyOptions '''' options) (\<lambda>given.
             bindE (checkE (unknown_capability capabilities)) (\<lambda>_.
               if given = '''' then map_sum OperationIDFailed id (newOperationID ms entropy)
               else Inr given)) of
        Inl e \<Rightarrow> (Inl e, po)
      | Inr operationID \<Rightarrow>
          if emitterCreated po then (Inl EmitterExists, po)
          else
            (case emit operationID now answer TypeHello
                    (HelloBody \<lparr>hRuntimeVersion = runtimeVersion, hCommand = cmd,
                       hCapabilities = (if capabilities = [] then None else Some capabilities)\<rparr>)
                    (po\<lparr>emitterCreated := True\<rparr>) of
               (Some e, po1) \<Rightarrow> (Inl e, po1)
             | (None, po1) \<Rightarrow> (Inr operationID, po1)))"

text \<open>The methods of the emitter, with the timestamp and the renderer's answer of the call.\<close>

datatype EmitCall =
    EmitProgress ProgressEvent
  | EmitState StateEvent
  | EmitLog LogEvent
  | CallWarning WarningSummary
  | EmitError WarningSummary
  | CallResult ResultEvent

fun emit_call ::
  "codec \<Rightarrow> string \<Rightarrow> ProcessOutput \<Rightarrow> EmitCall \<times> string \<times> RenderAnswer \<Rightarrow>
   EmitError option \<times> ProcessOutput" where
  "emit_call codec i po (EmitProgress e, now, a) = emit i now a TypeProgress (ProgressBody e) po"
| "emit_call codec i po (EmitState e, now, a) = emit i now a TypeState (StateBody e) po"
| "emit_call codec i po (EmitLog e, now, a) = emit i now a TypeLog (LogBody e) po"
| "emit_call codec i po (CallWarning w, now, a) = EmitWarning codec i now a w po"
| "emit_call codec i po (EmitError w, now, a) = emit i now a TypeError (ErrorBody w) po"
| "emit_call codec i po (CallResult e, now, a) = EmitResult i now a e po"

text \<open>A failed call can still change the output (it records a write error), so as a machine every
  call is accepted and gives the output it leaves.\<close>

definition emitter_call ::
  "codec \<Rightarrow> string \<Rightarrow> ProcessOutput \<Rightarrow> EmitCall \<times> string \<times> RenderAnswer \<Rightarrow>
   EmitError + ProcessOutput" where
  "emitter_call codec i po c = Inr (snd (emit_call codec i po c))"

text \<open>What \<open>encoding/json\<close> is relied on for: a container that is not nil does not become nil.\<close>

definition codec_keeps_containers :: "codec \<Rightarrow> bool" where
  "codec_keeps_containers codec \<longleftrightarrow>
     (\<forall>w c. codec w = Inr c \<longrightarrow> wRemediation w \<noteq> None \<longrightarrow> wDetails w \<noteq> None \<longrightarrow>
        wRemediation c \<noteq> None \<and> wDetails c \<noteq> None)"

section \<open>The invariant\<close>

fun warning_of :: "body \<Rightarrow> WarningSummary option" where
  "warning_of (WarningBody w) = Some w"
| "warning_of _ = None"

definition rendered_warnings :: "event list \<Rightarrow> WarningSummary list" where
  "rendered_warnings evs = List.map_filter (\<lambda>e. warning_of (body e)) evs"

definition is_result :: "event \<Rightarrow> bool" where
  "is_result e \<longleftrightarrow> cType (common e) = TypeResult"

definition numbered :: "event list \<Rightarrow> bool" where
  "numbered evs \<longleftrightarrow>
     map (\<lambda>e. cSequence (common e)) evs = map (\<lambda>k. of_nat (Suc k)) [0..<length evs]"

definition result_last :: "event list \<Rightarrow> bool" where
  "result_last evs \<longleftrightarrow> list_all (\<lambda>e. \<not> is_result e) (butlast evs)"

definition output_inv :: "ProcessOutput \<Rightarrow> bool" where
  "output_inv po \<longleftrightarrow>
     numbered (rendered po) \<and> nextSequence po = of_nat (Suc (length (rendered po))) \<and>
     result_last (rendered po) \<and>
     terminal po = (rendered po \<noteq> [] \<and> is_result (last (rendered po))) \<and>
     warningCount po = of_nat (length (rendered_warnings (rendered po)))"

section \<open>What one call does\<close>

text \<open>
  The abstract view of a call: it is silent (rejected, or failed in the renderer or the codec), or
  it writes one event with the next number. Every method refines it.
\<close>

definition same_log :: "ProcessOutput \<Rightarrow> ProcessOutput \<Rightarrow> bool" where
  "same_log po po' \<longleftrightarrow>
     rendered po' = rendered po \<and> nextSequence po' = nextSequence po \<and> terminal po' = terminal po \<and>
     warnings po' = warnings po \<and> warningCount po' = warningCount po \<and>
     emitterCreated po' = emitterCreated po \<and>
     (writeErr po \<noteq> None \<longrightarrow> writeErr po' = writeErr po)"

definition writes :: "event \<Rightarrow> ProcessOutput \<Rightarrow> ProcessOutput \<Rightarrow> bool" where
  "writes ev po po' \<longleftrightarrow>
     \<not> terminal po \<and> writeErr po = None \<and> writeErr po' = None \<and>
     rendered po' = rendered po @ [ev] \<and> cSequence (common ev) = nextSequence po \<and>
     nextSequence po' = nextSequence po + 1 \<and> terminal po' = is_result ev \<and>
     emitterCreated po' = emitterCreated po \<and>
     warningCount po' = warningCount po + of_nat (length (rendered_warnings [ev]))"

lemma rejectLocked_None: "rejectLocked po t = None \<longleftrightarrow> \<not> terminal po \<and> writeErr po = None"
  by (auto simp: rejectLocked_def)

lemma emitPrepared_failed:
  assumes "emitPreparedLocked i now a t b po = (Some e, po')" "rejectLocked po t = None"
  shows "same_log po po'"
  using assms
  by (auto simp: emitPreparedLocked_def rejectLocked_None same_log_def rememberWriteError_def Let_def
      split: RenderAnswer.splits if_splits)

lemma emitPrepared_written:
  assumes "emitPreparedLocked i now a t b po = (None, po')"
  shows "po' = po\<lparr>terminal := (terminal po \<or> t = TypeResult),
      rendered := rendered po @ [make_event i now t b po], nextSequence := nextSequence po + 1\<rparr>"
proof -
  have "po = po\<lparr>terminal := terminal po\<rparr>" by simp
  with assms show ?thesis
    by (auto simp: emitPreparedLocked_def Let_def rememberWriteError_def
        split: RenderAnswer.splits if_splits)
qed

lemma make_event_sel [simp]:
  "cSequence (common (make_event i now t b po)) = nextSequence po"
  "body (make_event i now t b po) = normalize b"
  "is_result (make_event i now t b po) \<longleftrightarrow> t = TypeResult"
  by (simp_all add: make_event_def is_result_def)

lemma rendered_warnings_simps [simp]:
  "rendered_warnings [] = []"
  "rendered_warnings (evs @ evs') = rendered_warnings evs @ rendered_warnings evs'"
  "rendered_warnings [ev] = (case warning_of (body ev) of None \<Rightarrow> [] | Some w \<Rightarrow> [w])"
  by (simp_all add: rendered_warnings_def List.map_filter_def split: option.splits)

lemma same_log_refl [simp]: "same_log po po"
  by (simp add: same_log_def)

lemma emit_effect:
  assumes "emit i now a t b po = (e, po')" "warning_of b = None"
  shows "same_log po po' \<or>
    (\<exists>ev. writes ev po po' \<and> warnings po' = warnings po \<and> warning_of (body ev) = None)"
proof (cases "rejectLocked po t")
  case None
  have w: "warning_of (normalize b) = None" using assms(2) by (cases b) auto
  show ?thesis
  proof (cases e)
    case (Some err)
    with None assms(1) emitPrepared_failed show ?thesis by (auto simp: emit_def)
  next
    case e: None
    with None assms(1) have "emitPreparedLocked i now a t b po = (None, po')" by (simp add: emit_def)
    from emitPrepared_written [OF this] None w
    have "writes (make_event i now t b po) po po' \<and> warnings po' = warnings po"
      by (simp add: writes_def rejectLocked_None)
    with w show ?thesis by (metis make_event_sel(2))
  qed
qed (use assms in \<open>simp add: emit_def\<close>)

text \<open>The result is written with the details the emitter adds to it.\<close>

lemma EmitResult_emit:
  "EmitResult i now a e po =
     emit i now a TypeResult (ResultBody (e\<lparr>rDetails := Some (resultDetails po (rDetails e))\<rparr>)) po"
  by (simp add: EmitResult_def emit_def)

lemma EmitWarning_effect:
  assumes "EmitWarning codec i now a w po = (e, po')"
  shows "same_log po po' \<or>
    (\<exists>ev canonical. writes ev po po' \<and> codec (normalize_warning w) = Inr canonical \<and>
       body ev = WarningBody (normalize_warning canonical) \<and>
       warnings po' = (if length (warnings po) < MaxResultWarningSummaries
                       then warnings po @ [canonical] else warnings po))"
proof (cases "rejectLocked po TypeWarning")
  case None
  show ?thesis
  proof (cases "codec (normalize_warning w)")
    case (Inl err)
    with None assms show ?thesis by (simp add: EmitWarning_def snapshotWarning_def)
  next
    case (Inr canonical)
    let ?b = "WarningBody canonical"
    obtain e1 po1 where prepared: "emitPreparedLocked i now a TypeWarning ?b po = (e1, po1)"
      by fastforce
    show ?thesis
    proof (cases e1)
      case (Some err)
      with prepared None have "same_log po po1" by (auto intro: emitPrepared_failed)
      with prepared None Inr Some assms show ?thesis
        by (simp add: EmitWarning_def snapshotWarning_def)
    next
      case e1: None
      let ?ev = "make_event i now TypeWarning ?b po"
      have po1: "po1 = po\<lparr>rendered := rendered po @ [?ev], nextSequence := nextSequence po + 1\<rparr>"
        using emitPrepared_written [of i now a TypeWarning ?b po po1] prepared e1 None
        by (simp add: rejectLocked_None)
      have po': "po' = po1\<lparr>warningCount := warningCount po + 1,
          warnings := (if length (warnings po) < MaxResultWarningSummaries
                       then warnings po @ [canonical] else warnings po)\<rparr>"
        using assms None Inr prepared e1
        by (auto simp: EmitWarning_def snapshotWarning_def Let_def po1)
      have "writes ?ev po po'"
        using None by (simp add: writes_def rejectLocked_None po' po1)
      with Inr show ?thesis by (auto simp: po')
    qed
  qed
qed (use assms in \<open>simp add: EmitWarning_def\<close>)

lemma emit_call_effect:
  assumes "emit_call codec i po c = (e, po')"
  shows "same_log po po' \<or> (\<exists>ev. writes ev po po')"
proof -
  obtain k now a where c: "c = (k, now, a)" by (cases c)
  show ?thesis
  proof (cases k)
    case (CallWarning w)
    with EmitWarning_effect [of codec i now a w po e po'] assms c show ?thesis by auto
  qed (use assms c emit_effect in \<open>fastforce simp: EmitResult_emit\<close>)+
qed

text \<open>The ledger: with a codec that keeps containers it holds the first warnings as written.\<close>

definition ledger_inv :: "ProcessOutput \<Rightarrow> bool" where
  "ledger_inv po \<longleftrightarrow>
     warnings po = take MaxResultWarningSummaries (rendered_warnings (rendered po))"

lemma normalize_warning_id: "wRemediation w \<noteq> None \<Longrightarrow> wDetails w \<noteq> None \<Longrightarrow> normalize_warning w = w"
  by (auto simp: normalize_warning_def)

lemma normalize_warning_some:
  "wRemediation (normalize_warning w) \<noteq> None" "wDetails (normalize_warning w) \<noteq> None"
  by (simp_all add: normalize_warning_def)

lemma ledger_step:
  assumes codec: "codec_keeps_containers codec" and inv: "ledger_inv po"
    and call: "emit_call codec i po c = (e, po')"
  shows "ledger_inv po'"
proof -
  obtain k now a where c: "c = (k, now, a)" by (cases c)
  have same: "ledger_inv po'" if "same_log po po'"
    using that inv by (simp add: same_log_def ledger_inv_def)
  have plain: "ledger_inv po'" if "writes ev po po'" "warnings po' = warnings po"
    "warning_of (body ev) = None" for ev
    using that inv by (simp add: writes_def ledger_inv_def)
  show ?thesis
  proof (cases k)
    case (CallWarning w)
    with call c have "EmitWarning codec i now a w po = (e, po')" by simp
    from EmitWarning_effect [OF this] same show ?thesis
    proof (elim disjE exE conjE)
      fix ev canonical
      assume w: "writes ev po po'" and can: "codec (normalize_warning w) = Inr canonical"
        and b: "body ev = WarningBody (normalize_warning canonical)"
        and led: "warnings po' = (if length (warnings po) < MaxResultWarningSummaries
          then warnings po @ [canonical] else warnings po)"
      have "normalize_warning canonical = canonical"
        using codec can normalize_warning_some [of w] normalize_warning_id
        unfolding codec_keeps_containers_def by blast
      with w b led inv show ?thesis by (auto simp: writes_def ledger_inv_def)
    qed
  qed (use call c same plain emit_effect in \<open>fastforce simp: EmitResult_emit\<close>)+
qed

section \<open>Runs\<close>

lemma numbered_snoc:
  "numbered evs \<Longrightarrow> cSequence (common ev) = of_nat (Suc (length evs)) \<Longrightarrow> numbered (evs @ [ev])"
  by (simp add: numbered_def)

lemma result_last_snoc:
  "result_last (evs @ [ev]) \<longleftrightarrow> list_all (\<lambda>e. \<not> is_result e) evs"
  by (simp add: result_last_def)

lemma result_last_all:
  "result_last evs \<Longrightarrow> \<not> (evs \<noteq> [] \<and> is_result (last evs)) \<Longrightarrow> list_all (\<lambda>e. \<not> is_result e) evs"
  by (cases evs rule: rev_cases) (auto simp: result_last_def)

lemma output_inv_same: "output_inv po \<Longrightarrow> same_log po po' \<Longrightarrow> output_inv po'"
  by (simp add: output_inv_def same_log_def)

lemma output_inv_writes:
  assumes inv: "output_inv po" and w: "writes ev po po'"
  shows "output_inv po'"
proof -
  have "list_all (\<lambda>e. \<not> is_result e) (rendered po)"
    using inv w by (intro result_last_all) (auto simp: output_inv_def writes_def)
  then have "result_last (rendered po')" using w by (simp add: writes_def result_last_snoc)
  with inv w numbered_snoc [of "rendered po" ev] show ?thesis
    by (auto simp: output_inv_def writes_def)
qed

fun emits_result ::
  "codec \<Rightarrow> string \<Rightarrow> ProcessOutput \<Rightarrow> EmitCall \<times> string \<times> RenderAnswer \<Rightarrow> bool" where
  "emits_result codec i po (CallResult e, now, a) = (fst (EmitResult i now a e po) = None)"
| "emits_result codec i po _ = False"

lemma EmitResult_accepted:
  assumes "EmitResult i now a e po = (None, po')"
  shows "\<not> terminal po \<and> writeErr po = None \<and>
    rendered po' = rendered po @ [make_event i now TypeResult
      (ResultBody (e\<lparr>rDetails := Some (resultDetails po (rDetails e))\<rparr>)) po] \<and> terminal po'"
proof -
  have r: "rejectLocked po TypeResult = None"
    using assms by (auto simp: EmitResult_def split: option.splits)
  then have "emitPreparedLocked i now a TypeResult
      (ResultBody (e\<lparr>rDetails := Some (resultDetails po (rDetails e))\<rparr>)) po = (None, po')"
    using assms by (simp add: EmitResult_def)
  from emitPrepared_written [OF this] r show ?thesis by (simp add: rejectLocked_None)
qed

interpretation emitter: one_shot_machine "emitter_call codec i" output_inv "emits_result codec i" terminal
  for codec i
proof unfold_locales
  fix po po' :: ProcessOutput and c
  assume inv: "output_inv po" and call: "emitter_call codec i po c = Inr po'"
  obtain e where e: "emit_call codec i po c = (e, po')"
    using call by (cases "emit_call codec i po c") (simp add: emitter_call_def)
  note effect = emit_call_effect [OF e]
  show "output_inv po'"
    using effect inv by (blast intro: output_inv_same output_inv_writes)
  show "terminal po'" if "terminal po"
    using effect that by (auto simp: same_log_def writes_def)
  show "\<not> terminal po \<and> terminal po'" if spends: "emits_result codec i po c"
  proof -
    obtain ev now a where c: "c = (CallResult ev, now, a)"
      using spends by (cases "(codec, i, po, c)" rule: emits_result.cases) auto
    with spends e have "EmitResult i now a ev po = (None, po')" by simp
    from EmitResult_accepted [OF this] show ?thesis by simp
  qed
qed

lemma ledger_run:
  "codec_keeps_containers codec \<Longrightarrow> ledger_inv po \<Longrightarrow>
   ledger_inv (run_calls (emitter_call codec i) po cs)"
proof (induction cs arbitrary: po)
  case (Cons c cs)
  obtain e po' where c: "emit_call codec i po c = (e, po')" by fastforce
  with Cons ledger_step [OF Cons.prems c] show ?case
    by (simp add: apply_call_def emitter_call_def)
qed simp

lemma rendered_grows: "\<exists>evs. rendered (run_calls (emitter_call codec i) po cs) = rendered po @ evs"
proof (induction cs arbitrary: po)
  case (Cons c cs)
  obtain e po' where c: "emit_call codec i po c = (e, po')" by fastforce
  have "\<exists>evs. rendered po' = rendered po @ evs"
    using emit_call_effect [OF c] by (auto simp: same_log_def writes_def)
  with c Cons [of po'] show ?case by (auto simp: apply_call_def emitter_call_def)
qed simp

lemma NewEmitter_created:
  assumes "NewEmitter rv cmd caps opts ms ent now a NewProcessOutputWithRenderer = (Inr i, po)"
  shows "output_inv po \<and> ledger_inv po \<and> map (\<lambda>e. cType (common e)) (rendered po) = [TypeHello]
    \<and> set caps \<subseteq> set knownCapabilities"
proof -
  let ?new = "NewProcessOutputWithRenderer\<lparr>emitterCreated := True\<rparr>"
  let ?hello = "HelloBody \<lparr>hRuntimeVersion = rv, hCommand = cmd,
      hCapabilities = (if caps = [] then None else Some caps)\<rparr>"
  have new: "emit i now a TypeHello ?hello ?new = (None, po)" and
    caps: "unknown_capability caps = None"
    using assms by (auto simp: NewEmitter_def bindE_Inr_iff checkE_Inr_iff
        split: sum.splits if_splits prod.splits option.splits)
  have "emitPreparedLocked i now a TypeHello ?hello ?new = (None, po)"
    using new by (simp add: emit_def rejectLocked_def NewProcessOutputWithRenderer_def)
  note po = emitPrepared_written [OF this]
  have "output_inv po" "ledger_inv po" "map (\<lambda>e. cType (common e)) (rendered po) = [TypeHello]"
    unfolding po output_inv_def ledger_inv_def NewProcessOutputWithRenderer_def
    by (simp_all add: numbered_def result_last_def make_event_def is_result_def)
  moreover have "set caps \<subseteq> set knownCapabilities"
    using caps by (auto simp: unknown_capability_def find_None_iff IsKnownCapability_iff)
  ultimately show ?thesis by blast
qed

section \<open>Properties\<close>


definition example_operation :: string where
  "example_operation = ''01ARZ3NDEK0000000000000007''"

definition example_output :: ProcessOutput where
  "example_output = snd (NewEmitter ''1.0'' ''doctor'' [''stdin.cancel''] [WithOperationID
     example_operation] 0 None ''now'' Rendered NewProcessOutputWithRenderer)"

definition example_warning :: WarningSummary where
  "example_warning = \<lparr>wCode = ''W'', wStage = StageDoctor, wMessage = ''m'', wRetryable = False,
     wRemediation = None, wDetails = None\<rparr>"

definition example_result :: ResultEvent where
  "example_result = \<lparr>rSuccess = True, rCode = '''', rStage = StageDoctor, rStatus = ''succeeded'',
     rMessage = '''', rRetryable = False, rRemediation = None, rDetails = None\<rparr>"

lemma example_created:
  "NewEmitter ''1.0'' ''doctor'' [''stdin.cancel''] [WithOperationID example_operation] 0 None
     ''now'' Rendered NewProcessOutputWithRenderer = (Inr example_operation, example_output)"
  unfolding example_output_def by code_simp


text \<open>C26: an operation has at most one result, and nothing is written after it.\<close>

theorem emitter_single_result:
  assumes "NewEmitter rv cmd caps opts ms ent now a NewProcessOutputWithRenderer = (Inr i, po)"
  shows "count_accepted (emitter_call codec i) (emits_result codec i) po cs \<le> 1 \<and>
    result_last (rendered (run_calls (emitter_call codec i) po cs))"
  using NewEmitter_created [OF assms] emitter.spent_at_most_once [of po codec i cs]
    emitter.run_inv [of po codec i cs] by (auto simp: output_inv_def)

theorem emitter_single_result_witness:
  "count_accepted (emitter_call Inr example_operation) (emits_result Inr example_operation)
     example_output [(CallResult example_result, ''t1'', Rendered),
       (CallResult example_result, ''t2'', Rendered)] \<le> 1"
  by (rule conjunct1 [OF emitter_single_result [OF example_created]])

text \<open>C27: an accepted result carries the warnings of the operation: how many were written, the
  first 256 of them exactly as they were written, and whether that cut any off; with no warning
  the three keys are absent, even when the caller put them in.\<close>

theorem emitter_result_details:
  assumes "NewEmitter rv cmd caps opts ms ent now a NewProcessOutputWithRenderer = (Inr i, po0)"
    and codec: "codec_keeps_containers codec"
    and po: "po = run_calls (emitter_call codec i) po0 cs"
    and res: "EmitResult i now' a' e po = (None, po')"
    and few: "length (rendered_warnings (rendered po)) < 2 ^ 64"
  shows "\<exists>r. body (last (rendered po')) = ResultBody r \<and>
    (let ws = rendered_warnings (rendered po); d = map_of (the (rDetails r)) in
     rDetails r \<noteq> None \<and>
     d ''warnings'' = (if ws = [] then None else Some (DWarnings (take 256 ws))) \<and>
     d ''warningCount'' = (if ws = [] then None else Some (DCount (of_nat (length ws)))) \<and>
     d ''warningsTruncated'' = (if ws = [] then None else Some (DTruncated (length ws > 256))))"
proof -
  let ?ws = "rendered_warnings (rendered po)"
  let ?r = "e\<lparr>rDetails := Some (resultDetails po (rDetails e))\<rparr>"
  note new = NewEmitter_created [OF assms(1)]
  have count: "warningCount po = of_nat (length ?ws)"
    using emitter.run_inv [of po0 codec i cs] new po by (simp add: output_inv_def)
  have ledger: "warnings po = take 256 ?ws"
    using ledger_run [OF codec, of po0 i cs] new po by (simp add: ledger_inv_def)
  have zero: "warningCount po = 0 \<longleftrightarrow> ?ws = []"
    using few unfolding count by (auto simp: word_unat_eq_iff unat_of_nat)
  have more: "warningCount po > 256 \<longleftrightarrow> length ?ws > 256"
    using few unfolding count by (auto simp: word_less_nat_alt unat_of_nat)
  define old where "old = filter (\<lambda>(k, v). k \<noteq> ''warnings'' \<and> k \<noteq> ''warningCount'' \<and>
      k \<noteq> ''warningsTruncated'') (case rDetails e of None \<Rightarrow> [] | Some d \<Rightarrow> d)"
  have old: "map_of old ''warnings'' = None" "map_of old ''warningCount'' = None"
    "map_of old ''warningsTruncated'' = None"
    by (auto simp: old_def map_of_eq_None_iff)
  have "resultDetails po (rDetails e) = (if ?ws = [] then old else old @
      [(''warnings'', DWarnings (take 256 ?ws)), (''warningCount'', DCount (of_nat (length ?ws))),
       (''warningsTruncated'', DTruncated (length ?ws > 256))])"
    unfolding resultDetails_def Let_def zero more by (simp add: ledger count old_def)
  with old have d: "map_of (resultDetails po (rDetails e)) ''warnings'' =
        (if ?ws = [] then None else Some (DWarnings (take 256 ?ws)))"
    "map_of (resultDetails po (rDetails e)) ''warningCount'' =
        (if ?ws = [] then None else Some (DCount (of_nat (length ?ws))))"
    "map_of (resultDetails po (rDetails e)) ''warningsTruncated'' =
        (if ?ws = [] then None else Some (DTruncated (length ?ws > 256)))"
    by (auto simp: map_add_def)
  have "body (last (rendered po')) = ResultBody (normalize_result ?r)"
    using EmitResult_accepted [OF res] by simp
  moreover have "rDetails (normalize_result ?r) = Some (resultDetails po (rDetails e))"
    by (simp add: normalize_result_def)
  ultimately show ?thesis using d by (auto simp: Let_def)
qed

theorem emitter_result_details_witness:
  "\<exists>r. body (last (rendered (snd (EmitResult example_operation ''t2'' Rendered example_result
     (run_calls (emitter_call Inr example_operation) example_output
       [(CallWarning example_warning, ''t1'', Rendered)]))))) = ResultBody r \<and>
     map_of (the (rDetails r)) ''warningCount'' = Some (DCount 1)"
proof -
  let ?po = "run_calls (emitter_call Inr example_operation) example_output
       [(CallWarning example_warning, ''t1'', Rendered)]"
  have ws: "rendered_warnings (rendered ?po) = [normalize_warning example_warning]"
    by code_simp
  have res: "EmitResult example_operation ''t2'' Rendered example_result ?po =
      (None, snd (EmitResult example_operation ''t2'' Rendered example_result ?po))"
    by code_simp
  have codec: "codec_keeps_containers Inr" by (simp add: codec_keeps_containers_def)
  have few: "length (rendered_warnings (rendered ?po)) < 2 ^ 64" unfolding ws by simp
  from emitter_result_details [OF example_created codec refl res few] show ?thesis
    unfolding ws Let_def by auto
qed

text \<open>once the output could not be written, the operation writes nothing more: every later
  call leaves the written events as they are and answers with an error.\<close>

theorem emitter_write_error_sticky:
  assumes "writeErr po = Some err"
  shows "rendered (run_calls (emitter_call codec i) po cs) = rendered po \<and>
    fst (emit_call codec i (run_calls (emitter_call codec i) po cs) c) \<noteq> None"
proof -
  have "rendered (run_calls (emitter_call codec i) po cs) = rendered po \<and>
      writeErr (run_calls (emitter_call codec i) po cs) = Some err"
    using assms
  proof (induction cs arbitrary: po)
    case (Cons c cs)
    obtain e po' where c: "emit_call codec i po c = (e, po')" by fastforce
    have "rendered po' = rendered po \<and> writeErr po' = Some err"
      using emit_call_effect [OF c] Cons.prems by (auto simp: same_log_def writes_def)
    with c Cons.IH [of po'] show ?case by (simp add: apply_call_def emitter_call_def)
  qed simp
  moreover have "fst (emit_call codec i po c) \<noteq> None" if "writeErr po = Some err" for po
    using that by (cases "(codec, i, po, c)" rule: emit_call.cases; cases "terminal po")
      (simp_all add: emit_def EmitWarning_def EmitResult_def rejectLocked_def)
  ultimately show ?thesis by blast
qed

theorem emitter_write_error_sticky_witness:
  "rendered (run_calls (emitter_call Inr example_operation)
     (example_output\<lparr>writeErr := Some ''closed''\<rparr>) [(CallResult example_result, ''t'', Rendered)]) =
   rendered (example_output\<lparr>writeErr := Some ''closed''\<rparr>)"
  by (rule conjunct1 [OF emitter_write_error_sticky]) simp

end
