(* ===== verification/Product_Version.thy ===== *)
theory Product_Version
  imports Go_Prelude
begin

text \<open>
  \<open>internal/version/product.go\<close>: the Git branch a product version is taken from. The lemmas show
  that the parser accepts as alpha versions exactly the strings of the grammar
  \<open>v<n>.<n>.<n>-alpha.<n>\<close> with canonical numbers.
\<close>

section \<open>Model\<close>

text \<open>\<open>for i := range value\<close> visits the first byte of every code point; a byte that is not visited
  follows one that is not an ASCII digit, so testing every byte gives the same answer.\<close>

definition canonicalNumber :: "string \<Rightarrow> bool" where
  "canonicalNumber value =
     (if value = '''' \<or> (length value > 1 \<and> hd value = CHR ''0'') then False
      else list_all is_digit value)"

definition ProductBranch :: "string \<Rightarrow> string" where
  "ProductBranch productVersion =
     (let release = ''release/'' @ productVersion in
      case cut productVersion ''-alpha.'' of
        None \<Rightarrow> release
      | Some (base, run) \<Rightarrow>
          if has_prefix base ''v'' \<and> canonicalNumber run then
            (case split_on (CHR ''.'') (trim_prefix base ''v'') of
               [a, b, c] \<Rightarrow>
                 if canonicalNumber a \<and> canonicalNumber b \<and> canonicalNumber c then ''dev''
                 else release
             | _ \<Rightarrow> release)
          else release)"

section \<open>The grammar of alpha versions\<close>

inductive alpha_version :: "string \<Rightarrow> bool" where
  alpha: "canonicalNumber a \<Longrightarrow> canonicalNumber b \<Longrightarrow> canonicalNumber c \<Longrightarrow> canonicalNumber n \<Longrightarrow>
    alpha_version (''v'' @ a @ ''.'' @ b @ ''.'' @ c @ ''-alpha.'' @ n)"

lemma canonicalNumber_digits: "canonicalNumber a \<Longrightarrow> c \<in> set a \<Longrightarrow> is_digit c"
  by (auto simp: canonicalNumber_def list_all_iff split: if_splits)

lemma canonicalNumber_no: "canonicalNumber a \<Longrightarrow> CHR ''.'' \<notin> set a \<and> CHR ''-'' \<notin> set a"
proof -
  have "\<not> is_digit (CHR ''.'')" "\<not> is_digit (CHR ''-'')" by (simp_all add: is_digit_def)
  then show "canonicalNumber a \<Longrightarrow> CHR ''.'' \<notin> set a \<and> CHR ''-'' \<notin> set a"
    using canonicalNumber_digits by blast
qed

lemma split_on_no: "d \<notin> set a \<Longrightarrow> split_on d a = [a]"
  by (induction a) auto

lemma split_on_append: "d \<notin> set a \<Longrightarrow> split_on d (a @ d # s) = a # split_on d s"
  by (induction a) auto

lemma cut_at_first: "hd sep \<notin> set a \<Longrightarrow> sep \<noteq> [] \<Longrightarrow> cut (a @ sep @ n) sep = Some (a, n)"
proof (induction a)
  case Nil
  then show ?case by (cases sep) (auto simp: has_prefix_def)
next
  case (Cons c cs)
  then show ?case by (cases sep) (auto simp: has_prefix_def)
qed

lemma alpha_version_dev: "alpha_version s \<Longrightarrow> ProductBranch s = ''dev''"
proof (induction rule: alpha_version.induct)
  case (alpha a b c n)
  let ?base = "''v'' @ a @ ''.'' @ b @ ''.'' @ c"
  note no = alpha [THEN canonicalNumber_no]
  have "cut (?base @ ''-alpha.'' @ n) ''-alpha.'' = Some (?base, n)"
    using no by (intro cut_at_first) auto
  moreover have "split_on (CHR ''.'') (a @ ''.'' @ b @ ''.'' @ c) = [a, b, c]"
    using no by (simp add: split_on_append split_on_no)
  moreover have "trim_prefix ?base ''v'' = a @ ''.'' @ b @ ''.'' @ c"
    by (rule trim_prefix_append)
  moreover have "has_prefix ?base ''v''" by (rule has_prefix_append)
  ultimately show ?case using alpha by (simp add: ProductBranch_def)
qed

lemma dev_alpha_version:
  assumes "ProductBranch s = ''dev''"
  shows "alpha_version s"
proof -
  from assms obtain base run a b c where
    cut: "cut s ''-alpha.'' = Some (base, run)" and v: "has_prefix base ''v''"
    and parts: "split_on (CHR ''.'') (trim_prefix base ''v'') = [a, b, c]"
    and nums: "canonicalNumber run" "canonicalNumber a" "canonicalNumber b" "canonicalNumber c"
    by (auto simp: ProductBranch_def Let_def split: option.splits prod.splits if_splits list.splits)
  from v have "base = ''v'' @ trim_prefix base ''v''" by (auto simp: go_defs prefix_def)
  moreover have "trim_prefix base ''v'' = a @ ''.'' @ b @ ''.'' @ c"
    using join_split_on [of "CHR ''.''" "trim_prefix base ''v''"] parts by simp
  ultimately have "s = ''v'' @ a @ ''.'' @ b @ ''.'' @ c @ ''-alpha.'' @ run"
    using cut_Some [OF cut] by simp
  with nums show ?thesis by (simp only: alpha)
qed

text \<open>A product version is taken from the rolling branch \<open>dev\<close> exactly when it has the form
  \<open>v<n>.<n>.<n>-alpha.<n>\<close> with canonical decimal numbers, and from its own release branch in every
  other case.\<close>

theorem product_branch_correct:
  "ProductBranch s = (if alpha_version s then ''dev'' else ''release/'' @ s)"
proof (cases "alpha_version s")
  case False
  then have "ProductBranch s \<noteq> ''dev''" using dev_alpha_version by blast
  with False show ?thesis
    by (auto simp: ProductBranch_def Let_def split: option.splits prod.splits if_splits list.splits)
qed (simp add: alpha_version_dev)

end
