(* ===== verification/Mirror_Source.thy ===== *)
theory Mirror_Source
  imports Go_Prelude
begin

text \<open>
  \<open>internal/mirror/kind.go\<close>, \<open>source.go\<close> and \<open>packageindex.go\<close>: the network sources and the
  catalog that groups them by kind. \<open>net/url\<close> and the Unicode \<open>strings.ToLower\<close> of the standard
  library are given as the record \<open>url_api\<close>; what is relied on is named \<open>url_api_ok\<close>. A nil
  \<open>*Catalog\<close> (or one with a nil map) is \<open>None\<close>. The lemmas show the grammar of the keys and what a
  catalog that was accepted guarantees.
\<close>

section \<open>Kinds and keys\<close>

type_synonym Kind = string

abbreviation "KindGit \<equiv> ''git''"
abbreviation "KindUV \<equiv> ''uv''"
abbreviation "KindPython \<equiv> ''python''"
abbreviation "KindPackageIndex \<equiv> ''package-index''"

definition AllKinds :: "Kind list" where
  "AllKinds = [KindGit, KindUV, KindPython, KindPackageIndex]"

definition Kind_Valid :: "Kind \<Rightarrow> bool" where
  "Kind_Valid k \<longleftrightarrow> k = KindGit \<or> k = KindUV \<or> k = KindPython \<or> k = KindPackageIndex"

lemma Kind_Valid_iff: "Kind_Valid k \<longleftrightarrow> k \<in> set AllKinds"
  by (auto simp: Kind_Valid_def AllKinds_def)

text \<open>The scan of a key: \<open>i\<close> is the index, \<open>n\<close> the length, \<open>prev\<close> whether the previous byte was the
  separator. \<open>validSourceKey\<close> runs it with a hyphen, \<open>FailureKind.Valid\<close> with an underscore.\<close>

fun slug_scan :: "char \<Rightarrow> nat \<Rightarrow> nat \<Rightarrow> bool \<Rightarrow> string \<Rightarrow> bool" where
  "slug_scan sep i n prev [] = True"
| "slug_scan sep i n prev (c # cs) =
     (if is_lower c then slug_scan sep (Suc i) n False cs
      else if is_digit c then (if i = 0 then False else slug_scan sep (Suc i) n False cs)
      else if c = sep then
        (if i = 0 \<or> i = n - 1 \<or> prev then False else slug_scan sep (Suc i) n True cs)
      else False)"

definition validSourceKey :: "string \<Rightarrow> bool" where
  "validSourceKey s = (if s = '''' then False else slug_scan (CHR ''-'') 0 (length s) False s)"

section \<open>Sources\<close>

record URL =
  uScheme :: string
  uOpaque :: string
  uHasUser :: bool
  uHost :: string
  uPath :: string
  uRawPath :: string
  uForceQuery :: bool
  uRawQuery :: string
  uFragment :: string
  uRawFragment :: string

record url_api =
  url_parse :: "string \<Rightarrow> URL option"
  url_string :: "URL \<Rightarrow> string"
  url_hostname :: "URL \<Rightarrow> string"
  to_lower :: "string \<Rightarrow> string"

record Source =
  kind :: Kind
  key :: string
  baseURL :: string
  official :: bool
  simpleBase :: string
  packagesBase :: string

datatype SourceError = InvalidKindOrKey | InvalidURL | URLParseError | URLPolicy
  | RewritePrefixShape | RewritePrefixNotCanonical | SourceChanged

definition ascii_lower :: "string \<Rightarrow> string" where
  "ascii_lower s = map (\<lambda>c. if is_upper c then char_of (of_char c + (32::nat)) else c) s"

definition url_allowed :: "url_api \<Rightarrow> string \<Rightarrow> URL \<Rightarrow> bool" where
  "url_allowed api value u \<longleftrightarrow>
     \<not> (uScheme u = '''' \<or> uOpaque u \<noteq> '''' \<or> ascii_lower (uScheme u) \<noteq> ''https'' \<or>
        url_hostname api u = '''' \<or> uHasUser u \<or> uRawQuery u \<noteq> '''' \<or> uForceQuery u \<or>
        uFragment u \<noteq> '''' \<or> uRawFragment u \<noteq> '''' \<or> contains value ''#'' \<or>
        CHR 0x00 \<in> set (uPath u) \<or> CHR 0x00 \<in> set (uRawPath u))"

definition normalizeSourceURL :: "url_api \<Rightarrow> string \<Rightarrow> SourceError + string" where
  "normalizeSourceURL api value =
     (if value = '''' \<or> CHR 0x00 \<in> set value then Inl InvalidURL
      else case url_parse api value of
        None \<Rightarrow> Inl URLParseError
      | Some u \<Rightarrow>
          if \<not> url_allowed api value u then Inl URLPolicy
          else Inr (url_string api (u\<lparr>uScheme := ''https'', uHost := to_lower api (uHost u)\<rparr>)))"

definition NewSource :: "url_api \<Rightarrow> Kind \<Rightarrow> string \<Rightarrow> string \<Rightarrow> bool \<Rightarrow> SourceError + Source" where
  "NewSource api k s url off =
     (if \<not> Kind_Valid k \<or> \<not> validSourceKey s then Inl InvalidKindOrKey
      else bindE (normalizeSourceURL api url) (\<lambda>normalized.
        Inr \<lparr>kind = k, key = s, baseURL = normalized, official = off, simpleBase = '''',
             packagesBase = ''''\<rparr>))"

text \<open>Package index sources carry two rewrite prefixes.\<close>

definition normalizeRewritePrefixes ::
  "url_api \<Rightarrow> string \<Rightarrow> string \<Rightarrow> SourceError + (string \<times> string)" where
  "normalizeRewritePrefixes api simple packages =
     (if simple = '''' \<or> packages = '''' \<or> has_suffix simple ''/'' \<or> \<not> has_suffix packages ''/''
      then Inl RewritePrefixShape
      else bindE (normalizeSourceURL api simple) (\<lambda>normalizedSimple.
        bindE (normalizeSourceURL api packages) (\<lambda>normalizedPackages.
          if normalizedSimple \<noteq> simple \<or> normalizedPackages \<noteq> packages
          then Inl RewritePrefixNotCanonical
          else Inr (normalizedSimple, normalizedPackages))))"

record PackageIndexSpec =
  specKey :: string
  specBaseURL :: string
  specSimpleBase :: string
  specPackagesBase :: string
  specOfficial :: bool

definition NewPackageIndexSource :: "url_api \<Rightarrow> PackageIndexSpec \<Rightarrow> SourceError + Source" where
  "NewPackageIndexSource api spec =
     bindE (NewSource api KindPackageIndex (specKey spec) (specBaseURL spec) (specOfficial spec))
       (\<lambda>source. bindE (normalizeRewritePrefixes api (specSimpleBase spec) (specPackagesBase spec))
         (\<lambda>(s, p). Inr (source\<lparr>simpleBase := s, packagesBase := p\<rparr>)))"

definition PackageIndexRewrite :: "Source \<Rightarrow> (string \<times> string) option" where
  "PackageIndexRewrite s =
     (if kind s \<noteq> KindPackageIndex \<or> simpleBase s = '''' \<or> packagesBase s = '''' then None
      else Some (simpleBase s, packagesBase s))"

definition rebuildSource :: "url_api \<Rightarrow> Source \<Rightarrow> SourceError + Source" where
  "rebuildSource api s =
     (if simpleBase s \<noteq> '''' \<or> packagesBase s \<noteq> '''' then
        NewPackageIndexSource api \<lparr>specKey = key s, specBaseURL = baseURL s,
          specSimpleBase = simpleBase s, specPackagesBase = packagesBase s,
          specOfficial = official s\<rparr>
      else NewSource api (kind s) (key s) (baseURL s) (official s))"

definition validateSource :: "url_api \<Rightarrow> Source \<Rightarrow> SourceError option" where
  "validateSource api s =
     (case rebuildSource api s of
        Inl e \<Rightarrow> Some e
      | Inr normalized \<Rightarrow> if normalized \<noteq> s then Some SourceChanged else None)"

section \<open>The catalog\<close>

type_synonym Catalog = "Kind \<Rightarrow> Source list"

datatype CatalogError = SourceInvariant | DuplicateSourceKey | OfficialCount

type_synonym catalog_state = "(Kind \<Rightarrow> Source list) \<times> (Kind \<Rightarrow> string set) \<times> (Kind \<Rightarrow> nat)"

fun catalog_loop ::
  "url_api \<Rightarrow> catalog_state \<Rightarrow> Source list \<Rightarrow> CatalogError + catalog_state" where
  "catalog_loop api st [] = Inr st"
| "catalog_loop api (grouped, keys, counts) (s # ss) =
     (if validateSource api s \<noteq> None then Inl SourceInvariant
      else if key s \<in> keys (kind s) then Inl DuplicateSourceKey
      else catalog_loop api
        (grouped(kind s := grouped (kind s) @ [s]),
         keys(kind s := insert (key s) (keys (kind s))),
         (if official s then counts(kind s := Suc (counts (kind s))) else counts)) ss)"

definition NewCatalog :: "url_api \<Rightarrow> Source list \<Rightarrow> CatalogError + Catalog" where
  "NewCatalog api sources =
     bindE (catalog_loop api (\<lambda>_. [], \<lambda>_. {}, \<lambda>_. 0) sources) (\<lambda>(grouped, keys, counts).
       if list_ex (\<lambda>k. counts k \<noteq> 1) AllKinds then Inl OfficialCount else Inr grouped)"

definition Catalog_Source :: "Catalog option \<Rightarrow> Kind \<Rightarrow> string \<Rightarrow> Source option" where
  "Catalog_Source c k s =
     (case c of
        None \<Rightarrow> None
      | Some cat \<Rightarrow>
          if \<not> Kind_Valid k \<or> \<not> validSourceKey s then None
          else List.find (\<lambda>src. key src = s) (cat k))"

definition Catalog_Sources :: "Catalog option \<Rightarrow> Kind \<Rightarrow> Source list" where
  "Catalog_Sources c k =
     (case c of None \<Rightarrow> [] | Some cat \<Rightarrow> if \<not> Kind_Valid k then [] else cat k)"

text \<open>The check of one kind: every source valid and of that kind, no key twice, one official.\<close>

fun kind_loop :: "url_api \<Rightarrow> Kind \<Rightarrow> string set \<Rightarrow> nat \<Rightarrow> Source list \<Rightarrow> nat option" where
  "kind_loop api k keys n [] = Some n"
| "kind_loop api k keys n (s # ss) =
     (if validateSource api s \<noteq> None \<or> kind s \<noteq> k then None
      else if key s \<in> keys then None
      else kind_loop api k (insert (key s) keys) (if official s then Suc n else n) ss)"

definition validateCatalog :: "url_api \<Rightarrow> Catalog option \<Rightarrow> bool" where
  "validateCatalog api c =
     (case c of
        None \<Rightarrow> False
      | Some cat \<Rightarrow>
          list_all (\<lambda>k. cat k \<noteq> [] \<and> kind_loop api k {} 0 (cat k) = Some 1) AllKinds)"

section \<open>The grammar of a key\<close>

definition is_alnum :: "char \<Rightarrow> bool" where
  "is_alnum c \<longleftrightarrow> is_lower c \<or> is_digit c"

lemma slug_scan_tail:
  assumes sep: "\<not> is_alnum sep"
  shows "0 < i \<Longrightarrow> n = i + length cs \<Longrightarrow>
    slug_scan sep i n prev cs \<longleftrightarrow>
      (\<forall>w \<in> set (split_on sep cs). list_all is_alnum w) \<and>
      (\<forall>w \<in> set (tl (split_on sep cs)). w \<noteq> []) \<and>
      (prev \<longrightarrow> cs \<noteq> [] \<longrightarrow> hd (split_on sep cs) \<noteq> [])"
proof (induction cs arbitrary: i prev)
  case (Cons c cs)
  obtain w ws where split: "split_on sep cs = w # ws" by (cases "split_on sep cs") simp_all
  show ?case
  proof (cases "c = sep")
    case True
    have "cs = [] \<Longrightarrow> w = []" using split by simp
    with True sep Cons split show ?thesis by (auto simp: is_alnum_def)
  next
    case False
    with Cons split show ?thesis by (auto simp: is_alnum_def)
  qed
qed simp

definition slug :: "char \<Rightarrow> string \<Rightarrow> bool" where
  "slug sep s \<longleftrightarrow> s \<noteq> [] \<and> is_lower (hd s) \<and>
     (\<forall>w \<in> set (split_on sep s). w \<noteq> [] \<and> list_all is_alnum w)"

lemma slug_scan_iff:
  assumes sep: "\<not> is_alnum sep" and s: "s \<noteq> []"
  shows "slug_scan sep 0 (length s) False s \<longleftrightarrow> slug sep s"
proof -
  obtain c cs where cs: "s = c # cs" using s by (cases s) simp_all
  obtain w ws where split: "split_on sep cs = w # ws" by (cases "split_on sep cs") simp_all
  have nodigit: "is_lower c \<Longrightarrow> c \<noteq> sep" using sep by (auto simp: is_alnum_def)
  have "slug_scan sep 0 (length s) False s \<longleftrightarrow>
      is_lower c \<and> slug_scan sep 1 (length s) False cs"
    by (auto simp: cs)
  also have "\<dots> \<longleftrightarrow> slug sep s"
    using slug_scan_tail [OF sep, of 1 "length s" cs False] split nodigit
    by (auto simp: slug_def cs is_alnum_def)
  finally show ?thesis .
qed

lemma validSourceKey_slug: "validSourceKey s \<longleftrightarrow> slug (CHR ''-'') s"
proof -
  have "\<not> is_alnum (CHR ''-'')" by (simp add: is_alnum_def is_lower_def is_digit_def)
  then show ?thesis
    using slug_scan_iff [of "CHR ''-''" s] by (auto simp: validSourceKey_def slug_def)
qed

section \<open>What an accepted catalog guarantees\<close>

definition officials :: "Source list \<Rightarrow> nat" where
  "officials ss = length (filter official ss)"

definition sources_ok :: "url_api \<Rightarrow> Kind \<Rightarrow> Source list \<Rightarrow> bool" where
  "sources_ok api k ss \<longleftrightarrow>
     (\<forall>s \<in> set ss. validateSource api s = None \<and> kind s = k) \<and> distinct (map key ss)"

lemma kind_loop_iff:
  "kind_loop api k keys n ss = Some m \<longleftrightarrow>
     sources_ok api k ss \<and> key ` set ss \<inter> keys = {} \<and> m = n + officials ss"
  by (induction api k keys n ss rule: kind_loop.induct)
     (auto simp: sources_ok_def officials_def)

lemma validateCatalog_iff:
  "validateCatalog api (Some cat) \<longleftrightarrow>
     (\<forall>k \<in> set AllKinds. cat k \<noteq> [] \<and> sources_ok api k (cat k) \<and> officials (cat k) = 1)"
  by (auto simp: validateCatalog_def list_all_iff kind_loop_iff)

definition catalog_state_ok :: "url_api \<Rightarrow> Source list \<Rightarrow> catalog_state \<Rightarrow> bool" where
  "catalog_state_ok api seen st \<longleftrightarrow>
     (case st of (grouped, keys, counts) \<Rightarrow>
       \<forall>k. grouped k = filter (\<lambda>s. kind s = k) seen \<and> keys k = key ` set (grouped k) \<and>
         counts k = officials (grouped k) \<and> sources_ok api k (grouped k))"

lemma catalog_loop_ok:
  "catalog_state_ok api seen st \<Longrightarrow> catalog_loop api st ss = Inr st' \<Longrightarrow>
   catalog_state_ok api (seen @ ss) st'"
proof (induction api st ss arbitrary: seen rule: catalog_loop.induct)
  case (2 api grouped keys counts s ss)
  let ?st = "(grouped(kind s := grouped (kind s) @ [s]),
      keys(kind s := insert (key s) (keys (kind s))),
      (if official s then counts(kind s := Suc (counts (kind s))) else counts))"
  from "2.prems" have valid: "validateSource api s = None" and fresh: "key s \<notin> keys (kind s)"
    and rest: "catalog_loop api ?st ss = Inr st'"
    by (auto split: if_splits)
  have "catalog_state_ok api (seen @ [s]) ?st"
    unfolding catalog_state_ok_def prod.case
  proof
    fix k
    from "2.prems"(1) have g: "grouped k = filter (\<lambda>s. kind s = k) seen"
      and k: "keys k = key ` set (grouped k)" and c: "counts k = officials (grouped k)"
      and ok: "sources_ok api k (grouped k)"
      unfolding catalog_state_ok_def prod.case by blast+
    show "(grouped(kind s := grouped (kind s) @ [s])) k = filter (\<lambda>s. kind s = k) (seen @ [s]) \<and>
        (keys(kind s := insert (key s) (keys (kind s)))) k =
          key ` set ((grouped(kind s := grouped (kind s) @ [s])) k) \<and>
        (if official s then counts(kind s := Suc (counts (kind s))) else counts) k =
          officials ((grouped(kind s := grouped (kind s) @ [s])) k) \<and>
        sources_ok api k ((grouped(kind s := grouped (kind s) @ [s])) k)"
    proof (cases "k = kind s")
      case True
      with g k c ok valid fresh show ?thesis by (simp add: sources_ok_def officials_def)
    next
      case False
      with g k c ok show ?thesis by auto
    qed
  qed
  with "2.IH" [of "seen @ [s]"] valid fresh rest show ?case by simp
qed simp

lemma NewCatalog_Inr:
  assumes "NewCatalog api sources = Inr cat"
  shows "cat k = filter (\<lambda>s. kind s = k) sources"
    and "validateCatalog api (Some cat)"
proof -
  have "catalog_state_ok api [] (\<lambda>_. [], \<lambda>_. {}, \<lambda>_. 0)"
    by (simp add: catalog_state_ok_def sources_ok_def officials_def)
  from catalog_loop_ok [OF this] assms obtain keys counts where
    ok: "catalog_state_ok api sources (cat, keys, counts)"
    and one: "\<forall>k \<in> set AllKinds. counts k = 1"
    by (fastforce simp: NewCatalog_def bindE_Inr_iff list_ex_iff split: if_splits)
  then show "cat k = filter (\<lambda>s. kind s = k) sources" by (simp add: catalog_state_ok_def)
  show "validateCatalog api (Some cat)"
    unfolding validateCatalog_iff
  proof
    fix k assume "k \<in> set AllKinds"
    with ok one have "officials (cat k) = 1" "sources_ok api k (cat k)"
      unfolding catalog_state_ok_def prod.case by metis+
    moreover from this have "cat k \<noteq> []" by (auto simp: officials_def)
    ultimately show "cat k \<noteq> [] \<and> sources_ok api k (cat k) \<and> officials (cat k) = 1" by simp
  qed
qed

section \<open>Constructors and validation agree\<close>

text \<open>What \<open>net/url\<close> is relied on for: the text of a URL that was normalised is parsed back as that
  URL, which is allowed again and whose host is already in lower case.\<close>

definition url_api_ok :: "url_api \<Rightarrow> bool" where
  "url_api_ok api \<longleftrightarrow>
     (\<forall>value u. url_parse api value = Some u \<longrightarrow> url_allowed api value u \<longrightarrow>
        (let u' = u\<lparr>uScheme := ''https'', uHost := to_lower api (uHost u)\<rparr>;
             text = url_string api u'
         in url_parse api text = Some u' \<and> url_allowed api text u' \<and>
            to_lower api (uHost u') = uHost u' \<and> text \<noteq> '''' \<and> CHR 0x00 \<notin> set text))"

lemma normalize_idempotent:
  assumes "url_api_ok api" "normalizeSourceURL api v = Inr w"
  shows "normalizeSourceURL api w = Inr w"
proof -
  from assms(2) obtain u where u: "url_parse api v = Some u" "url_allowed api v u"
    and w: "w = url_string api (u\<lparr>uScheme := ''https'', uHost := to_lower api (uHost u)\<rparr>)"
    by (auto simp: normalizeSourceURL_def split: if_splits option.splits)
  from assms(1) u show ?thesis
    unfolding url_api_ok_def Let_def w [symmetric] by (simp add: normalizeSourceURL_def w)
qed

lemma NewSource_Inr:
  "NewSource api k s url off = Inr src \<longleftrightarrow>
     Kind_Valid k \<and> validSourceKey s \<and> (\<exists>n. normalizeSourceURL api url = Inr n \<and>
       src = \<lparr>kind = k, key = s, baseURL = n, official = off, simpleBase = '''', packagesBase = ''''\<rparr>)"
  by (auto simp: NewSource_def bindE_Inr_iff)

lemma NewPackageIndexSource_Inr:
  "NewPackageIndexSource api spec = Inr src \<longleftrightarrow>
     (\<exists>s. NewSource api KindPackageIndex (specKey spec) (specBaseURL spec) (specOfficial spec) = Inr s \<and>
       normalizeRewritePrefixes api (specSimpleBase spec) (specPackagesBase spec) =
         Inr (specSimpleBase spec, specPackagesBase spec) \<and>
       src = s\<lparr>simpleBase := specSimpleBase spec, packagesBase := specPackagesBase spec\<rparr>)"
  by (auto simp: NewPackageIndexSource_def bindE_Inr_iff normalizeRewritePrefixes_def split: if_splits)

lemma NewSource_validates:
  assumes ok: "url_api_ok api" and new: "NewSource api k s url off = Inr src"
  shows "validateSource api src = None"
proof -
  from new obtain n where n: "Kind_Valid k" "validSourceKey s" "normalizeSourceURL api url = Inr n"
    and src: "src = \<lparr>kind = k, key = s, baseURL = n, official = off, simpleBase = '''',
      packagesBase = ''''\<rparr>"
    unfolding NewSource_Inr by blast
  have "NewSource api k s n off = Inr src"
    unfolding NewSource_Inr using n src normalize_idempotent [OF ok n(3)] by blast
  then show ?thesis by (simp add: validateSource_def rebuildSource_def src)
qed

lemma NewPackageIndexSource_validates:
  assumes ok: "url_api_ok api" and new: "NewPackageIndexSource api spec = Inr src"
  shows "validateSource api src = None"
proof -
  from new obtain s where s: "NewSource api KindPackageIndex (specKey spec) (specBaseURL spec)
      (specOfficial spec) = Inr s"
    and pre: "normalizeRewritePrefixes api (specSimpleBase spec) (specPackagesBase spec) =
         Inr (specSimpleBase spec, specPackagesBase spec)"
    and src: "src = s\<lparr>simpleBase := specSimpleBase spec, packagesBase := specPackagesBase spec\<rparr>"
    unfolding NewPackageIndexSource_Inr by blast
  from s obtain n where n: "Kind_Valid KindPackageIndex" "validSourceKey (specKey spec)"
      "normalizeSourceURL api (specBaseURL spec) = Inr n"
    and s': "s = \<lparr>kind = KindPackageIndex, key = specKey spec, baseURL = n,
      official = specOfficial spec, simpleBase = '''', packagesBase = ''''\<rparr>"
    unfolding NewSource_Inr by blast
  have again: "NewSource api KindPackageIndex (specKey spec) n (specOfficial spec) = Inr s"
    unfolding NewSource_Inr using n s' normalize_idempotent [OF ok n(3)] by blast
  have shape: "specSimpleBase spec \<noteq> ''''"
    using pre by (auto simp: normalizeRewritePrefixes_def split: if_splits)
  have "rebuildSource api src = Inr src"
    using again pre shape by (simp add: rebuildSource_def src s' NewPackageIndexSource_Inr)
  then show ?thesis by (simp add: validateSource_def)
qed

text \<open>A concrete \<open>url_api\<close> that satisfies the hypothesis: https URLs with a host of letters only.\<close>

definition letters_api :: url_api where
  "letters_api =
     \<lparr>url_parse = (\<lambda>v. let host = drop 8 v in
        if has_prefix v ''https://'' \<and> host \<noteq> [] \<and> list_all is_lower host
        then Some \<lparr>uScheme = ''https'', uOpaque = '''', uHasUser = False, uHost = host, uPath = '''',
          uRawPath = '''', uForceQuery = False, uRawQuery = '''', uFragment = '''', uRawFragment = ''''\<rparr>
        else None),
      url_string = (\<lambda>u. ''https://'' @ uHost u),
      url_hostname = uHost,
      to_lower = id\<rparr>"

lemma letters_api_ok: "url_api_ok letters_api"
  unfolding url_api_ok_def
proof (intro allI impI)
  fix v u assume u: "url_parse letters_api v = Some u"
    and allowed: "url_allowed letters_api v u"
  have v: "v = ''https://'' @ uHost u"
    using u by (auto simp: letters_api_def Let_def has_prefix_def prefix_def split: if_splits)
  have lower: "list_all is_lower (uHost u)"
    using u by (auto simp: letters_api_def Let_def split: if_splits)
  have "\<not> is_lower (CHR 0x00)" by (simp add: is_lower_def)
  with lower have nul: "CHR 0x00 \<notin> set v" unfolding v by (auto simp: list_all_iff)
  have u': "u\<lparr>uScheme := ''https'', uHost := to_lower letters_api (uHost u)\<rparr> = u"
    using u by (auto simp: letters_api_def Let_def split: if_splits)
  have same: "url_string letters_api u = v" by (simp add: letters_api_def v)
  show "let u' = u\<lparr>uScheme := ''https'', uHost := to_lower letters_api (uHost u)\<rparr>;
            text = url_string letters_api u'
        in url_parse letters_api text = Some u' \<and> url_allowed letters_api text u' \<and>
           to_lower letters_api (uHost u') = uHost u' \<and> text \<noteq> '''' \<and> CHR 0x00 \<notin> set text"
    unfolding u' Let_def same using u allowed nul by (simp add: letters_api_def v)
qed

section \<open>Properties\<close>

text \<open>the index-based scan accepts as source keys exactly the words of lower-case letters and
  digits joined by single hyphens that begin with a letter.\<close>

theorem source_key_grammar: "validSourceKey s \<longleftrightarrow> slug (CHR ''-'') s"
  by (rule validSourceKey_slug)

text \<open>a catalog that was built holds for every kind the given sources of that kind in the given
  order, with distinct keys and exactly one official source, and passes the catalog check.\<close>

theorem catalog_built_valid:
  assumes "NewCatalog api sources = Inr cat"
  shows "validateCatalog api (Some cat) \<and> (\<forall>k. cat k = filter (\<lambda>s. kind s = k) sources) \<and>
    (\<forall>k \<in> set AllKinds. distinct (map key (cat k)) \<and> officials (cat k) = 1)"
proof -
  note built = NewCatalog_Inr [OF assms]
  then show ?thesis by (auto simp: validateCatalog_iff sources_ok_def)
qed

definition example_source :: "Kind \<Rightarrow> string \<Rightarrow> bool \<Rightarrow> Source" where
  "example_source k s off =
     \<lparr>kind = k, key = s, baseURL = ''https://'' @ s, official = off, simpleBase = '''',
      packagesBase = ''''\<rparr>"

definition example_sources :: "Source list" where
  "example_sources =
     [example_source KindGit ''mirror'' False, example_source KindGit ''github'' True,
      example_source KindUV ''github'' True, example_source KindPython ''github'' True,
      example_source KindPackageIndex ''pypi'' True]"

definition example_catalog :: Catalog where
  "example_catalog = (\<lambda>k. filter (\<lambda>s. kind s = k) example_sources)"

lemma example_catalog_built: "NewCatalog letters_api example_sources = Inr example_catalog"
proof -
  have "case NewCatalog letters_api example_sources of Inl _ \<Rightarrow> False | Inr _ \<Rightarrow> True"
    by code_simp
  then obtain cat where cat: "NewCatalog letters_api example_sources = Inr cat"
    by (auto split: sum.splits)
  with NewCatalog_Inr(1) [OF cat] have "cat = example_catalog"
    by (auto simp: example_catalog_def)
  with cat show ?thesis by simp
qed

theorem catalog_built_valid_witness: "validateCatalog letters_api (Some example_catalog)"
  by (rule conjunct1 [OF catalog_built_valid [OF example_catalog_built]])

text \<open>A source made by either constructor passes the check that rebuilds it, so the check never
  rejects a source of the program's own.\<close>

theorem constructed_source_validates:
  assumes "url_api_ok api"
    and "NewSource api k s url off = Inr src \<or> NewPackageIndexSource api spec = Inr src"
  shows "validateSource api src = None"
  using assms NewSource_validates NewPackageIndexSource_validates by blast

theorem constructed_source_validates_witness:
  "validateSource letters_api (example_source KindGit ''mirror'' False) = None"
  by (rule constructed_source_validates [OF letters_api_ok,
        where k = KindGit and s = "''mirror''" and url = "''https://mirror''" and off = False])
     (rule disjI1, code_simp)

end
