(* ===== verification/Mirror_Policy.thy ===== *)
theory Mirror_Policy
  imports Mirror_Source "HOL-Library.Multiset"
begin

text \<open>
  \<open>internal/mirror/policy.go\<close>: the user's mirror policy and the plan that fixes the order of the
  sources of one operation. SHA-256, which seals a plan against changes, is the argument \<open>sha\<close>.
  A nil \<open>preferred\<close> map is \<open>None\<close>; a map is an association list. The lemmas show that a plan built
  from a catalog is valid, holds every allowed source once, and in which order.
\<close>

section \<open>Policies\<close>

type_synonym sha256 = "string \<Rightarrow> string"

record PolicySpec =
  specPreferred :: "(Kind \<times> string) list"
  specOffline :: bool
  specMirrorOnly :: bool

record Policy =
  preferred :: "(Kind \<times> string) list option"
  offline :: bool
  mirrorOnly :: bool

datatype PolicyError = OfflineConflict | PreferredSource

definition preferred_ok :: "(Kind \<times> string) list \<Rightarrow> bool" where
  "preferred_ok ps = list_all (\<lambda>(k, s). Kind_Valid k \<and> validSourceKey s) ps"

definition NewPolicy :: "PolicySpec \<Rightarrow> PolicyError + Policy" where
  "NewPolicy spec =
     (if specOffline spec \<and> (specPreferred spec \<noteq> [] \<or> specMirrorOnly spec) then Inl OfflineConflict
      else if \<not> preferred_ok (specPreferred spec) then Inl PreferredSource
      else Inr \<lparr>preferred = Some (specPreferred spec), offline = specOffline spec,
             mirrorOnly = specMirrorOnly spec\<rparr>)"

definition Preferred :: "Policy \<Rightarrow> Kind \<Rightarrow> string option" where
  "Preferred p k = (case preferred p of None \<Rightarrow> None | Some ps \<Rightarrow> map_of ps k)"

definition validPolicy :: "Policy \<Rightarrow> bool" where
  "validPolicy p =
     (case preferred p of
        None \<Rightarrow> False
      | Some ps \<Rightarrow>
          if offline p \<and> (ps \<noteq> [] \<or> mirrorOnly p) then False else preferred_ok ps)"

section \<open>Plans\<close>

record Plan =
  plan_kind :: Kind
  plan_sources :: "Source list"
  plan_offline :: bool
  seal :: string

datatype PlanError = PlanInput | PreferredRejected | NoSource

definition format_bool :: "bool \<Rightarrow> string" where
  "format_bool b = (if b then ''true'' else ''false'')"

definition seal_source :: "Source \<Rightarrow> string" where
  "seal_source s =
     CHR 0x00 # kind s @ CHR 0x00 # key s @ CHR 0x00 # baseURL s @ CHR 0x00 #
     format_bool (official s) @ CHR 0x00 # simpleBase s @ CHR 0x00 # packagesBase s"

definition planSeal :: "sha256 \<Rightarrow> Kind \<Rightarrow> Source list \<Rightarrow> bool \<Rightarrow> string" where
  "planSeal sha k ss off = sha (k @ CHR 0x00 # format_bool off @ concat (map seal_source ss))"

definition make_plan :: "sha256 \<Rightarrow> Kind \<Rightarrow> Source list \<Rightarrow> bool \<Rightarrow> Plan" where
  "make_plan sha k ss off =
     \<lparr>plan_kind = k, plan_sources = ss, plan_offline = off, seal = planSeal sha k ss off\<rparr>"

definition zero_source :: Source where
  "zero_source = \<lparr>kind = '''', key = '''', baseURL = '''', official = False, simpleBase = '''',
     packagesBase = ''''\<rparr>"

text \<open>The three passes: the preferred source, the mirrors, the official source.\<close>

definition ordered_sources :: "Catalog option \<Rightarrow> Policy \<Rightarrow> Kind \<Rightarrow> Source list" where
  "ordered_sources catalog policy k =
     (let cat = (case catalog of None \<Rightarrow> [] | Some c \<Rightarrow> c k);
          pref = Preferred policy k
      in (case pref of
            None \<Rightarrow> []
          | Some s \<Rightarrow> [case Catalog_Source catalog k s of Some src \<Rightarrow> src | None \<Rightarrow> zero_source]) @
         filter (\<lambda>src. \<not> (official src \<or> pref = Some (key src))) cat @
         (if mirrorOnly policy then []
          else filter (\<lambda>src. \<not> (\<not> official src \<or> pref = Some (key src))) cat))"

definition preferred_rejected :: "Catalog option \<Rightarrow> Policy \<Rightarrow> bool" where
  "preferred_rejected catalog policy =
     list_ex (\<lambda>(k, s). case Catalog_Source catalog k s of
         None \<Rightarrow> True
       | Some src \<Rightarrow> mirrorOnly policy \<and> official src)
       (case preferred policy of None \<Rightarrow> [] | Some ps \<Rightarrow> ps)"

definition BuildPlan ::
  "url_api \<Rightarrow> sha256 \<Rightarrow> Catalog option \<Rightarrow> Policy \<Rightarrow> Kind \<Rightarrow> PlanError + Plan" where
  "BuildPlan api sha catalog policy k =
     (if \<not> Kind_Valid k \<or> \<not> validPolicy policy \<or> \<not> validateCatalog api catalog then Inl PlanInput
      else if offline policy then Inr (make_plan sha k [] True)
      else if preferred_rejected catalog policy then Inl PreferredRejected
      else if ordered_sources catalog policy k = [] then Inl NoSource
      else Inr (make_plan sha k (ordered_sources catalog policy k) False))"

text \<open>The loop of \<open>validPlan\<close> over the sources, with the keys seen so far.\<close>

fun plan_loop :: "url_api \<Rightarrow> Kind \<Rightarrow> string set \<Rightarrow> Source list \<Rightarrow> bool" where
  "plan_loop api k keys [] = True"
| "plan_loop api k keys (s # ss) =
     (if kind s \<noteq> k \<or> validateSource api s \<noteq> None then False
      else if key s \<in> keys then False
      else plan_loop api k (insert (key s) keys) ss)"

definition validPlan :: "url_api \<Rightarrow> sha256 \<Rightarrow> Plan \<Rightarrow> bool" where
  "validPlan api sha p =
     (if \<not> Kind_Valid (plan_kind p) \<or>
         seal p \<noteq> planSeal sha (plan_kind p) (plan_sources p) (plan_offline p) then False
      else if plan_offline p then plan_sources p = []
      else if plan_sources p = [] then False
      else plan_loop api (plan_kind p) {} (plan_sources p))"

section \<open>Validity\<close>

lemma plan_loop_iff:
  "plan_loop api k keys ss \<longleftrightarrow> sources_ok api k ss \<and> key ` set ss \<inter> keys = {}"
  by (induction api k keys ss rule: plan_loop.induct) (auto simp: sources_ok_def)

lemma validPlan_online:
  "Kind_Valid k \<Longrightarrow> ss \<noteq> [] \<Longrightarrow> sources_ok api k ss \<Longrightarrow> validPlan api sha (make_plan sha k ss False)"
  by (simp add: validPlan_def make_plan_def plan_loop_iff)

lemma validPlan_onlineD:
  "validPlan api sha p \<Longrightarrow> \<not> plan_offline p \<Longrightarrow>
   Kind_Valid (plan_kind p) \<and> plan_sources p \<noteq> [] \<and> sources_ok api (plan_kind p) (plan_sources p) \<and>
   p = make_plan sha (plan_kind p) (plan_sources p) False"
  by (cases p) (auto simp: validPlan_def make_plan_def plan_loop_iff split: if_splits)

lemma filter_unique_key:
  "distinct (map key ss) \<Longrightarrow> s \<in> set ss \<Longrightarrow> filter (\<lambda>x. key x = key s) ss = [s]"
proof (induction ss)
  case (Cons a ss)
  show ?case
  proof (cases "a = s")
    case True
    with Cons.prems have "\<forall>x \<in> set ss. key x \<noteq> key s" by (auto simp: rev_image_eqI)
    with True show ?thesis by (simp add: filter_empty_conv)
  next
    case False
    with Cons.prems have "s \<in> set ss" "key a \<noteq> key s" by (auto simp: rev_image_eqI)
    with Cons show ?thesis by simp
  qed
qed simp

lemma NewPolicy_valid: "NewPolicy spec = Inr p \<Longrightarrow> validPolicy p"
  by (auto simp: NewPolicy_def validPolicy_def split: if_splits)

text \<open>The sources a policy allows: all of the kind, or only the mirrors.\<close>

definition allowed_sources :: "Catalog \<Rightarrow> Policy \<Rightarrow> Kind \<Rightarrow> Source list" where
  "allowed_sources cat policy k = filter (\<lambda>s. \<not> (mirrorOnly policy \<and> official s)) (cat k)"

lemma preferred_found:
  assumes "\<not> preferred_rejected (Some cat) policy" "Preferred policy k = Some s"
  shows "\<exists>src. Catalog_Source (Some cat) k s = Some src \<and> \<not> (mirrorOnly policy \<and> official src) \<and>
    src \<in> set (cat k) \<and> key src = s"
proof -
  from assms(2) obtain ps where ps: "preferred policy = Some ps" and "map_of ps k = Some s"
    by (auto simp: Preferred_def split: option.splits)
  then have "(k, s) \<in> set ps" by (auto dest: map_of_SomeD)
  with assms(1) ps obtain src where src: "Catalog_Source (Some cat) k s = Some src"
    and "\<not> (mirrorOnly policy \<and> official src)"
    by (fastforce simp: preferred_rejected_def list_ex_iff split: option.splits)
  moreover from src have "src \<in> set (cat k) \<and> key src = s"
    by (auto simp: Catalog_Source_def find_Some_iff split: if_splits)
  ultimately show ?thesis by blast
qed

lemma mset_filter_split3:
  assumes "\<And>x. x \<in> set xs \<Longrightarrow> of_bool (P x) + of_bool (Q x) + of_bool (R x) = (of_bool (S x) :: nat)"
  shows "mset (filter P xs) + mset (filter Q xs) + mset (filter R xs) = mset (filter S xs)"
proof (rule multiset_eqI)
  fix x
  show "count (mset (filter P xs) + mset (filter Q xs) + mset (filter R xs)) x =
      count (mset (filter S xs)) x"
  proof (cases "x \<in> set xs")
    case True
    then show ?thesis using assms [OF True] by (auto simp: of_bool_def split: if_splits)
  next
    case False
    then have "count (mset xs) x = 0" by (simp add: not_in_iff)
    then show ?thesis by simp
  qed
qed

lemma ordered_sources_mset:
  assumes dist: "distinct (map key (cat k))" and ok: "\<not> preferred_rejected (Some cat) policy"
  shows "mset (ordered_sources (Some cat) policy k) = mset (allowed_sources cat policy k)"
proof (cases "Preferred policy k")
  case None
  let ?mirrors = "\<lambda>s. \<not> official s" and ?off = "\<lambda>s. \<not> mirrorOnly policy \<and> official s"
  have "mset (filter ?mirrors (cat k)) + mset (filter ?off (cat k)) +
      mset (filter (\<lambda>_. False) (cat k)) = mset (allowed_sources cat policy k)"
    unfolding allowed_sources_def by (rule mset_filter_split3) auto
  moreover have "ordered_sources (Some cat) policy k =
      filter ?mirrors (cat k) @ filter ?off (cat k)"
    using None by (simp add: ordered_sources_def Let_def)
  ultimately show ?thesis by simp
next
  case (Some s)
  from preferred_found [OF ok Some] obtain src where
    src: "Catalog_Source (Some cat) k s = Some src" "\<not> (mirrorOnly policy \<and> official src)"
      "src \<in> set (cat k)" "key src = s" by blast
  have one: "[src] = filter (\<lambda>x. key x = s) (cat k)"
    using filter_unique_key [OF dist src(3)] src(4) by simp
  let ?mirrors = "\<lambda>x. \<not> (official x \<or> s = key x)"
  let ?off = "\<lambda>x. \<not> mirrorOnly policy \<and> \<not> (\<not> official x \<or> s = key x)"
  have src_only: "x = src" if "x \<in> set (cat k)" "key x = s" for x
  proof -
    have "x \<in> set (filter (\<lambda>x. key x = s) (cat k))" using that by simp
    then show ?thesis unfolding one [symmetric] by simp
  qed
  have "mset (filter (\<lambda>x. key x = s) (cat k)) + mset (filter ?mirrors (cat k)) +
      mset (filter ?off (cat k)) = mset (allowed_sources cat policy k)"
    unfolding allowed_sources_def using src(2) src_only
    by (intro mset_filter_split3) (auto simp: of_bool_def)
  moreover have "ordered_sources (Some cat) policy k =
      filter (\<lambda>x. key x = s) (cat k) @ filter ?mirrors (cat k) @ filter ?off (cat k)"
    unfolding one [symmetric] using Some src(1) by (simp add: ordered_sources_def Let_def)
  ultimately show ?thesis by (simp add: add.assoc)
qed

lemma sources_ok_mset:
  "mset ss = mset ts \<Longrightarrow> sources_ok api k ss \<longleftrightarrow> sources_ok api k ts"
  unfolding sources_ok_def by (metis mset_eq_imp_distinct_iff mset_map set_mset_mset)

lemma sources_ok_filter: "sources_ok api k ss \<Longrightarrow> sources_ok api k (filter P ss)"
  by (auto simp: sources_ok_def distinct_map_filter)

text \<open>Officials come last: an official source that is not the preferred one is followed by none
  that is not.\<close>

definition officials_last :: "string option \<Rightarrow> Source list \<Rightarrow> bool" where
  "officials_last pref ss \<longleftrightarrow>
     sorted (map (\<lambda>s. if pref = Some (key s) then 0 else if official s then 2 else (1 :: nat)) ss)"

lemma ordered_sources_order:
  assumes "\<not> preferred_rejected (Some cat) policy"
  shows "officials_last (Preferred policy k) (ordered_sources (Some cat) policy k)"
proof -
  let ?pref = "Preferred policy k"
  let ?r = "\<lambda>s. if ?pref = Some (key s) then 0 else if official s then 2 else (1 :: nat)"
  have const: "sorted (map ?r xs)" if "\<And>x. x \<in> set xs \<Longrightarrow> ?r x = c" for xs c
  proof -
    have "map ?r xs = map (\<lambda>_. c) xs" using that by (intro map_cong) auto
    then show ?thesis by (simp add: map_replicate_const sorted_replicate)
  qed
  let ?first = "case ?pref of None \<Rightarrow> [] | Some s \<Rightarrow>
      [case Catalog_Source (Some cat) k s of Some src \<Rightarrow> src | None \<Rightarrow> zero_source]"
  let ?mirrors = "filter (\<lambda>src. \<not> (official src \<or> ?pref = Some (key src))) (cat k)"
  let ?offs = "if mirrorOnly policy then []
      else filter (\<lambda>src. \<not> (\<not> official src \<or> ?pref = Some (key src))) (cat k)"
  have first: "?r x = 0" if "x \<in> set ?first" for x
  proof (cases ?pref)
    case (Some s)
    from preferred_found [OF assms Some] that Some show ?thesis by auto
  qed (use that in simp)
  have mirrors: "?r x = 1" if "x \<in> set ?mirrors" for x using that by auto
  have offs: "?r x = 2" if "x \<in> set ?offs" for x using that by (auto split: if_splits)
  have "sorted (map ?r ?first @ map ?r ?mirrors @ map ?r ?offs)"
    unfolding sorted_append
  proof (intro conjI ballI)
    show "sorted (map ?r ?first)" "sorted (map ?r ?mirrors)" "sorted (map ?r ?offs)"
      using const [OF first] const [OF mirrors] const [OF offs] by blast+
    fix a b
    show "a \<le> b" if "a \<in> set (map ?r ?mirrors)" "b \<in> set (map ?r ?offs)"
    proof -
      have "a = 1" using that(1) mirrors by fastforce
      moreover have "b = 2" using that(2) offs by fastforce
      ultimately show ?thesis by simp
    qed
    show "a \<le> b" if "a \<in> set (map ?r ?first)" "b \<in> set (map ?r ?mirrors @ map ?r ?offs)"
    proof -
      have "a = 0" using that(1) first by fastforce
      then show ?thesis by simp
    qed
  qed
  moreover have "ordered_sources (Some cat) policy k = ?first @ ?mirrors @ ?offs"
    by (simp add: ordered_sources_def Let_def)
  ultimately show ?thesis unfolding officials_last_def by simp
qed

lemma BuildPlan_online:
  assumes "BuildPlan api sha (Some cat) policy k = Inr plan" "\<not> offline policy"
  shows "Kind_Valid k" "\<not> preferred_rejected (Some cat) policy" "validPlan api sha plan"
    "plan = make_plan sha k (ordered_sources (Some cat) policy k) False"
    "mset (plan_sources plan) = mset (allowed_sources cat policy k)"
proof -
  let ?ss = "ordered_sources (Some cat) policy k"
  from assms show k: "Kind_Valid k" and ok: "\<not> preferred_rejected (Some cat) policy"
    and plan: "plan = make_plan sha k ?ss False"
    by (auto simp: BuildPlan_def split: if_splits)
  from assms have cat: "validateCatalog api (Some cat)" and ne: "?ss \<noteq> []"
    by (auto simp: BuildPlan_def split: if_splits)
  have kind: "sources_ok api k (cat k)"
    using cat k by (auto simp: validateCatalog_iff Kind_Valid_iff)
  then have m: "mset ?ss = mset (allowed_sources cat policy k)"
    using ok by (intro ordered_sources_mset) (auto simp: sources_ok_def)
  then show "mset (plan_sources plan) = mset (allowed_sources cat policy k)"
    using plan by (simp add: make_plan_def)
  have "sources_ok api k ?ss"
    using sources_ok_mset [OF m] sources_ok_filter [OF kind] by (simp add: allowed_sources_def)
  then show "validPlan api sha plan" using validPlan_online [OF k ne] plan by simp
qed

lemma BuildPlan_valid:
  assumes "BuildPlan api sha catalog policy k = Inr plan" "\<not> plan_offline plan"
  shows "validPlan api sha plan \<and> plan_kind plan = k"
proof -
  have off: "\<not> offline policy" using assms by (auto simp: BuildPlan_def make_plan_def split: if_splits)
  from assms(1) obtain cat where "catalog = Some cat"
    by (auto simp: BuildPlan_def validateCatalog_def split: if_splits option.splits)
  with BuildPlan_online [of api sha cat policy k plan] assms(1) off show ?thesis
    by (simp add: make_plan_def)
qed

section \<open>Properties\<close>

text \<open>C28: a plan built for an online policy is valid and holds every source of the kind that the
  policy allows exactly once; the preferred source, if there is one, is the first, then come the
  mirrors and last the official source.\<close>

theorem build_plan_correct:
  assumes "BuildPlan api sha (Some cat) policy k = Inr plan" "\<not> offline policy"
  shows "validPlan api sha plan \<and> plan_kind plan = k \<and>
    mset (plan_sources plan) = mset (allowed_sources cat policy k) \<and>
    officials_last (Preferred policy k) (plan_sources plan) \<and>
    (\<forall>s. Preferred policy k = Some s \<longrightarrow> key (hd (plan_sources plan)) = s)"
proof -
  note b = BuildPlan_online [OF assms]
  have "key (hd (ordered_sources (Some cat) policy k)) = s" if "Preferred policy k = Some s" for s
    using preferred_found [OF b(2) that] that by (auto simp: ordered_sources_def Let_def)
  moreover have "plan_sources plan = ordered_sources (Some cat) policy k" "plan_kind plan = k"
    unfolding b(4) by (simp_all add: make_plan_def)
  ultimately show ?thesis using b(3,5) ordered_sources_order [OF b(2)] by simp
qed

definition example_policy :: Policy where
  "example_policy = \<lparr>preferred = Some [(KindGit, ''github'')], offline = False, mirrorOnly = False\<rparr>"

definition example_plan :: Plan where
  "example_plan = make_plan id KindGit
     [example_source KindGit ''github'' True, example_source KindGit ''mirror'' False] False"

lemma example_plan_valid: "validPlan letters_api id example_plan"
proof -
  have "plan_loop letters_api KindGit {} (plan_sources example_plan)" by code_simp
  then show ?thesis
    unfolding plan_loop_iff example_plan_def
    by (intro validPlan_online) (auto simp: make_plan_def Kind_Valid_def)
qed

lemma example_catalog_valid: "validateCatalog letters_api (Some example_catalog)"
  by (rule NewCatalog_Inr(2) [OF example_catalog_built])

lemma example_plan_built:
  "BuildPlan letters_api id (Some example_catalog) example_policy KindGit = Inr example_plan"
proof -
  have "\<not> (\<not> Kind_Valid KindGit \<or> \<not> validPolicy example_policy)" by code_simp
  moreover have "\<not> preferred_rejected (Some example_catalog) example_policy" by code_simp
  moreover have "ordered_sources (Some example_catalog) example_policy KindGit =
      plan_sources example_plan" by code_simp
  ultimately show ?thesis
    using example_catalog_valid
    by (simp add: BuildPlan_def example_plan_def make_plan_def example_policy_def)
qed

theorem build_plan_correct_witness:
  "mset (plan_sources example_plan) =
     mset (allowed_sources example_catalog example_policy KindGit)"
  using build_plan_correct [OF example_plan_built] by (simp add: example_policy_def)

text \<open>An offline policy never yields a source to contact, and a policy that excludes the
  official source never yields one.\<close>

theorem build_plan_restrictions:
  assumes "BuildPlan api sha catalog policy k = Inr plan"
  shows "(offline policy \<longrightarrow> plan_sources plan = [] \<and> plan_offline plan) \<and>
    (mirrorOnly policy \<longrightarrow> list_all (\<lambda>s. \<not> official s) (plan_sources plan))"
proof (intro conjI impI)
  show "plan_sources plan = []" "plan_offline plan" if "offline policy"
    using assms that by (auto simp: BuildPlan_def make_plan_def split: if_splits)
  show "list_all (\<lambda>s. \<not> official s) (plan_sources plan)" if mo: "mirrorOnly policy"
  proof (cases "offline policy")
    case True
    with assms show ?thesis by (auto simp: BuildPlan_def make_plan_def split: if_splits)
  next
    case False
    with assms obtain cat where cat: "catalog = Some cat"
      by (auto simp: BuildPlan_def validateCatalog_def split: if_splits option.splits)
    from assms False have "set (plan_sources plan) = set (ordered_sources catalog policy k)"
      and ok: "\<not> preferred_rejected catalog policy"
      by (auto simp: BuildPlan_def make_plan_def split: if_splits)
    with preferred_found [of cat policy k] mo cat show ?thesis
      by (cases "Preferred policy k") (auto simp: list_all_iff ordered_sources_def Let_def)
  qed
qed

theorem build_plan_restrictions_witness:
  "plan_sources (make_plan id KindGit [] True) = []"
proof -
  let ?p = "\<lparr>preferred = Some [], offline = True, mirrorOnly = False\<rparr>"
  have "validPolicy ?p" "Kind_Valid KindGit" by code_simp+
  then have "BuildPlan letters_api id (Some example_catalog) ?p KindGit =
      Inr (make_plan id KindGit [] True)"
    using example_catalog_valid by (simp add: BuildPlan_def)
  from build_plan_restrictions [OF this] show ?thesis by simp
qed

end
