(* ===== verification/Stable_Sort.thy ===== *)
theory Stable_Sort
  imports Main "HOL-Library.Multiset"
begin

text \<open>
  \<open>slices.SortStableFunc\<close> of the Go library, as the stable insertion sort by a comparison function
  that returns a negative, zero or positive number. The locale states what a comparison promises;
  under it the sorted list is the only list that is ordered and keeps the order of equal elements,
  so any stable sorting algorithm gives the same one.
\<close>

fun insort_cmp :: "('a \<Rightarrow> 'a \<Rightarrow> int) \<Rightarrow> 'a \<Rightarrow> 'a list \<Rightarrow> 'a list" where
  "insort_cmp cmp x [] = [x]"
| "insort_cmp cmp x (y # ys) =
     (if cmp y x < 0 then y # insort_cmp cmp x ys else x # y # ys)"

definition sort_stable :: "('a \<Rightarrow> 'a \<Rightarrow> int) \<Rightarrow> 'a list \<Rightarrow> 'a list" where
  "sort_stable cmp xs = foldr (insort_cmp cmp) xs []"

lemma mset_insort_cmp [simp]: "mset (insort_cmp cmp x ys) = add_mset x (mset ys)"
  by (induction ys) auto

lemma mset_sort_stable [simp]: "mset (sort_stable cmp xs) = mset xs"
  by (induction xs) (auto simp: sort_stable_def)

lemma set_sort_stable [simp]: "set (sort_stable cmp xs) = set xs"
  by (metis mset_sort_stable set_mset_mset)

lemma sort_stable_simps [simp]:
  "sort_stable cmp [] = []"
  "sort_stable cmp (x # xs) = insort_cmp cmp x (sort_stable cmp xs)"
  by (simp_all add: sort_stable_def)

abbreviation ordered_by :: "('a \<Rightarrow> 'a \<Rightarrow> int) \<Rightarrow> 'a list \<Rightarrow> bool" where
  "ordered_by cmp \<equiv> sorted_wrt (\<lambda>a b. cmp a b \<le> 0)"

locale comparison =
  fixes cmp :: "'a \<Rightarrow> 'a \<Rightarrow> int"
  assumes cmp_swap: "cmp a b < 0 \<longleftrightarrow> 0 < cmp b a"
    and cmp_trans: "cmp a b \<le> 0 \<Longrightarrow> cmp b c \<le> 0 \<Longrightarrow> cmp a c \<le> 0"
begin

lemma cmp_total: "cmp a b \<le> 0 \<or> cmp b a \<le> 0"
  using cmp_swap [of a b] by linarith

lemma cmp_refl [simp]: "cmp a a = 0"
  using cmp_swap [of a a] by linarith

lemma cmp_zero_sym: "cmp a b = 0 \<longleftrightarrow> cmp b a = 0"
  using cmp_swap [of a b] cmp_swap [of b a] by linarith

lemma cmp_antisym: "cmp a b \<le> 0 \<Longrightarrow> cmp b a \<le> 0 \<Longrightarrow> cmp a b = 0"
  using cmp_swap [of a b] by linarith

lemma cmp_zero_trans: "cmp a b = 0 \<Longrightarrow> cmp b c = 0 \<Longrightarrow> cmp a c = 0"
  using cmp_trans [of a b c] cmp_trans [of c b a] cmp_antisym [of a c] cmp_zero_sym [of a b]
    cmp_zero_sym [of b c] by simp

lemma ordered_insort: "ordered_by cmp ys \<Longrightarrow> ordered_by cmp (insort_cmp cmp x ys)"
proof (induction ys)
  case (Cons y ys)
  show ?case
  proof (cases "cmp y x < 0")
    case True
    have "set (insort_cmp cmp x ys) = insert x (set ys)"
      by (metis mset_insort_cmp set_mset_add_mset_insert set_mset_mset)
    with True Cons show ?thesis by auto
  next
    case False
    then have "cmp x y \<le> 0" using cmp_swap [of y x] by linarith
    with False Cons show ?thesis by (auto intro: cmp_trans)
  qed
qed simp

lemma ordered_sort: "ordered_by cmp (sort_stable cmp xs)"
  by (induction xs) (auto intro: ordered_insort)

lemma filter_insort:
  "ordered_by cmp ys \<Longrightarrow> filter (\<lambda>y. cmp z y = 0) (insort_cmp cmp x ys) =
     (if cmp z x = 0 then x # filter (\<lambda>y. cmp z y = 0) ys else filter (\<lambda>y. cmp z y = 0) ys)"
proof (induction ys)
  case (Cons y ys)
  show ?case
  proof (cases "cmp y x < 0")
    case True
    then have "\<not> (cmp z x = 0 \<and> cmp z y = 0)"
      using cmp_zero_trans [of x z y] cmp_zero_sym [of x z] cmp_zero_sym [of x y] by auto
    with True Cons show ?thesis by auto
  qed simp
qed simp

lemma filter_sort: "filter (\<lambda>y. cmp z y = 0) (sort_stable cmp xs) = filter (\<lambda>y. cmp z y = 0) xs"
  by (induction xs) (auto simp: filter_insort ordered_sort)

lemma ordered_stable_unique:
  "ordered_by cmp xs \<Longrightarrow> ordered_by cmp ys \<Longrightarrow>
   (\<And>z. filter (\<lambda>y. cmp z y = 0) xs = filter (\<lambda>y. cmp z y = 0) ys) \<Longrightarrow> xs = ys"
proof (induction xs arbitrary: ys)
  case Nil
  have "filter (\<lambda>y. cmp z y = 0) ys = []" for z using Nil(3) [of z] by simp
  then have "\<forall>x \<in> set ys. cmp y x \<noteq> 0" for y by (simp add: filter_empty_conv)
  then have "y \<notin> set ys" for y using cmp_refl [of y] by blast
  then show ?case by (cases ys) auto
next
  case (Cons a xs)
  have "filter (\<lambda>y. cmp a y = 0) ys = filter (\<lambda>y. cmp a y = 0) (a # xs)"
    using Cons.prems(3) [of a] by simp
  then have "filter (\<lambda>y. cmp a y = 0) ys \<noteq> []" by simp
  then obtain b bs where ys: "ys = b # bs" by (cases ys) auto
  have "filter (\<lambda>y. cmp b y = 0) (a # xs) \<noteq> []" using Cons.prems(3) [of b] ys by simp
  then obtain a' where a': "a' \<in> set (a # xs)" "cmp b a' = 0"
    unfolding filter_empty_conv by blast
  obtain b' where b': "b' \<in> set (b # bs)" "cmp a b' = 0"
    using \<open>filter (\<lambda>y. cmp a y = 0) ys \<noteq> []\<close> ys by (auto simp: filter_empty_conv split: if_splits)
  have "cmp a a' \<le> 0" using a' Cons.prems(1) by auto
  then have ab: "cmp a b \<le> 0" using a'(2) cmp_zero_sym [of b a'] cmp_trans [of a a' b] by simp
  have "cmp b b' \<le> 0" using b' Cons.prems(2) ys by auto
  then have "cmp b a \<le> 0" using b'(2) cmp_zero_sym [of a b'] cmp_trans [of b b' a] by simp
  with ab have zero: "cmp a b = 0" by (rule cmp_antisym)
  then have "a = b" using Cons.prems(3) [of a] ys by simp
  moreover have "xs = bs"
  proof (rule Cons.IH)
    show "ordered_by cmp xs" "ordered_by cmp bs" using Cons.prems ys by auto
    show "filter (\<lambda>y. cmp z y = 0) xs = filter (\<lambda>y. cmp z y = 0) bs" for z
      using Cons.prems(3) [of z] ys \<open>a = b\<close> by (auto split: if_splits)
  qed
  ultimately show ?case using ys by simp
qed

text \<open>Any list that is ordered and stable with respect to \<open>xs\<close> is the sorted list.\<close>

lemma stable_sort_unique:
  "ordered_by cmp ys \<Longrightarrow> (\<And>z. filter (\<lambda>y. cmp z y = 0) ys = filter (\<lambda>y. cmp z y = 0) xs) \<Longrightarrow>
   ys = sort_stable cmp xs"
  by (rule ordered_stable_unique) (auto simp: ordered_sort filter_sort)

end

end
