(* ===== verification/Mirror_Rank.thy ===== *)
theory Mirror_Rank
  imports Mirror_Policy Stable_Sort "HOL-Library.Product_Lexorder"
begin

text \<open>
  \<open>internal/mirror/rank.go\<close>: the order of the sources of a plan after a probe. \<open>compareRanked\<close> is
  an instance of the comparison interface of \<open>Stable_Sort\<close>; the ranked plan is the stable sort of
  the plan by one key (\<open>rank_of\<close>), which is the specification of the order.
\<close>

section \<open>Groups and probe results\<close>

datatype rankGroup = rankGroupPinned | rankGroupOK | rankGroupFailed

fun group_index :: "rankGroup \<Rightarrow> int" where
  "group_index rankGroupPinned = 0"
| "group_index rankGroupOK = 1"
| "group_index rankGroupFailed = 2"

lemma group_index_inject [simp]: "group_index a = group_index b \<longleftrightarrow> a = b"
  by (cases a; cases b) auto

instantiation rankGroup :: linorder
begin

definition less_eq_rankGroup :: "rankGroup \<Rightarrow> rankGroup \<Rightarrow> bool" where
  "less_eq_rankGroup a b \<longleftrightarrow> group_index a \<le> group_index b"

definition less_rankGroup :: "rankGroup \<Rightarrow> rankGroup \<Rightarrow> bool" where
  "less_rankGroup a b \<longleftrightarrow> group_index a < group_index b"

instance
  by standard (auto simp: less_eq_rankGroup_def less_rankGroup_def)

end

record ProbeResult =
  result_source :: Source
  result_OK :: bool
  TTFB :: int
  BytesPerSecond :: int
  result_Bytes :: int
  AcceptRanges :: bool
  result_Err :: "string option"

definition zero_result :: ProbeResult where
  "zero_result = \<lparr>result_source = zero_source, result_OK = False, TTFB = 0, BytesPerSecond = 0,
     result_Bytes = 0, AcceptRanges = False, result_Err = None\<rparr>"

record rankedSource =
  ranked_source :: Source
  position :: nat
  group :: rankGroup
  ranked_result :: ProbeResult

section \<open>Ranking a plan\<close>

definition compareRanked :: "rankedSource \<Rightarrow> rankedSource \<Rightarrow> int" where
  "compareRanked a b =
     (if group a \<noteq> group b then group_index (group a) - group_index (group b)
      else if group a \<noteq> rankGroupOK then 0
      else if BytesPerSecond (ranked_result a) \<noteq> BytesPerSecond (ranked_result b) then
        (if BytesPerSecond (ranked_result a) > BytesPerSecond (ranked_result b) then -1 else 1)
      else if TTFB (ranked_result a) \<noteq> TTFB (ranked_result b) then
        (if TTFB (ranked_result a) < TTFB (ranked_result b) then -1 else 1)
      else 0)"

datatype RankError = RankPlanInput | DuplicateResult string | ResultNotInPlan | PinnedNotInPlan

text \<open>The loop that collects the results by key; the map is an association list.\<close>

fun results_loop ::
  "Source list \<Rightarrow> (string \<times> ProbeResult) list \<Rightarrow> ProbeResult list \<Rightarrow>
   RankError + (string \<times> ProbeResult) list" where
  "results_loop sources byKey [] = Inr byKey"
| "results_loop sources byKey (r # rs) =
     (if map_of byKey (key (result_source r)) \<noteq> None
      then Inl (DuplicateResult (key (result_source r)))
      else if result_source r \<notin> set sources then Inl ResultNotInPlan
      else results_loop sources ((key (result_source r), r) # byKey) rs)"

definition pinned_missing :: "Source list \<Rightarrow> string \<Rightarrow> bool" where
  "pinned_missing sources pinned \<longleftrightarrow>
     pinned \<noteq> '''' \<and> (\<not> validSourceKey pinned \<or> \<not> list_ex (\<lambda>s. key s = pinned) sources)"

definition rank_entry :: "(string \<times> ProbeResult) list \<Rightarrow> string \<Rightarrow> nat \<Rightarrow> Source \<Rightarrow> rankedSource" where
  "rank_entry byKey pinned i s =
     (let entry = \<lparr>ranked_source = s, position = i, group = rankGroupFailed,
                    ranked_result = zero_result\<rparr>;
          measured = (case map_of byKey (key s) of
              Some r \<Rightarrow> if result_OK r then entry\<lparr>group := rankGroupOK, ranked_result := r\<rparr> else entry
            | None \<Rightarrow> entry)
      in if pinned \<noteq> '''' \<and> key s = pinned then measured\<lparr>group := rankGroupPinned\<rparr> else measured)"

definition rank_entries ::
  "(string \<times> ProbeResult) list \<Rightarrow> string \<Rightarrow> Source list \<Rightarrow> rankedSource list" where
  "rank_entries byKey pinned ss = map2 (rank_entry byKey pinned) [0..<length ss] ss"

definition RankPlan ::
  "url_api \<Rightarrow> sha256 \<Rightarrow> Plan \<Rightarrow> ProbeResult list \<Rightarrow> string \<Rightarrow> RankError + Plan" where
  "RankPlan api sha plan results pinned =
     (if \<not> validPlan api sha plan \<or> plan_offline plan then Inl RankPlanInput
      else bindE (results_loop (plan_sources plan) [] results) (\<lambda>byKey.
        if pinned_missing (plan_sources plan) pinned then Inl PinnedNotInPlan
        else Inr (make_plan sha (plan_kind plan)
          (map ranked_source
             (sort_stable compareRanked (rank_entries byKey pinned (plan_sources plan)))) False)))"

section \<open>The order\<close>

text \<open>What the order is by: the group, and for measured sources the throughput, the largest first,
  then the time to the first byte.\<close>

fun rank_key :: "rankGroup \<Rightarrow> ProbeResult \<Rightarrow> rankGroup \<times> int \<times> int" where
  "rank_key rankGroupOK r = (rankGroupOK, - BytesPerSecond r, TTFB r)"
| "rank_key g r = (g, 0, 0)"

definition entry_key :: "rankedSource \<Rightarrow> rankGroup \<times> int \<times> int" where
  "entry_key e = rank_key (group e) (ranked_result e)"

definition rank_of :: "ProbeResult list \<Rightarrow> string \<Rightarrow> Source \<Rightarrow> rankGroup \<times> int \<times> int" where
  "rank_of results pinned s =
     (if pinned \<noteq> '''' \<and> key s = pinned then (rankGroupPinned, 0, 0)
      else case find (\<lambda>r. key (result_source r) = key s \<and> result_OK r) results of
             Some r \<Rightarrow> (rankGroupOK, - BytesPerSecond r, TTFB r)
           | None \<Rightarrow> (rankGroupFailed, 0, 0))"

lemma compare_key: "compareRanked a b < 0 \<longleftrightarrow> entry_key a < entry_key b"
  by (cases "group a"; cases "group b")
     (auto simp: compareRanked_def entry_key_def less_prod_def less_eq_prod_def less_rankGroup_def
        less_eq_rankGroup_def)

lemma compare_key_pos: "0 < compareRanked a b \<longleftrightarrow> entry_key b < entry_key a"
  by (cases "group a"; cases "group b")
     (auto simp: compareRanked_def entry_key_def less_prod_def less_eq_prod_def less_rankGroup_def
        less_eq_rankGroup_def)

lemma compare_key_le: "compareRanked a b \<le> 0 \<longleftrightarrow> entry_key a \<le> entry_key b"
  using compare_key_pos [of a b] by (simp add: not_less [symmetric])

interpretation ranked: comparison compareRanked
proof
  show "compareRanked a b < 0 \<longleftrightarrow> 0 < compareRanked b a" for a b
    by (simp add: compare_key compare_key_pos)
  show "compareRanked a b \<le> 0 \<Longrightarrow> compareRanked b c \<le> 0 \<Longrightarrow> compareRanked a c \<le> 0" for a b c
    by (auto simp: compare_key_le)
qed

text \<open>A comparison that agrees with a key gives the library's sort by that key.\<close>

lemma insort_cmp_key:
  "(\<And>a b. cmp a b < 0 \<longleftrightarrow> f a < f b) \<Longrightarrow> insort_cmp cmp x ys = insort_key f x ys"
  by (induction ys) (auto simp: not_less)

lemma sort_stable_key:
  "(\<And>a b. cmp a b < 0 \<longleftrightarrow> f a < f b) \<Longrightarrow> sort_stable cmp xs = sort_key f xs"
  by (induction xs) (auto simp: sort_key_def insort_cmp_key)

lemma map_insort_key:
  "\<forall>e \<in> set (x # xs). f e = g (h e) \<Longrightarrow> map h (insort_key f x xs) = insort_key g (h x) (map h xs)"
  by (induction xs) auto

lemma map_sort_key:
  "\<forall>e \<in> set xs. f e = g (h e) \<Longrightarrow> map h (sort_key f xs) = sort_key g (map h xs)"
proof (induction xs)
  case (Cons x xs)
  then have "\<forall>e \<in> set (x # sort_key f xs). f e = g (h e)" by simp
  then have "map h (insort_key f x (sort_key f xs)) = insort_key g (h x) (map h (sort_key f xs))"
    by (rule map_insort_key)
  with Cons show ?case by simp
qed simp

lemma map_rank_entries [simp]: "map ranked_source (rank_entries byKey pinned ss) = ss"
proof -
  have "ranked_source (rank_entry byKey pinned i s) = s" for i s
    by (simp add: rank_entry_def Let_def split: option.split)
  then have "map ranked_source (map2 (rank_entry byKey pinned) [n..<n + length ss] ss) = ss" for n
    by (intro nth_equalityI) auto
  from this [of 0] show ?thesis by (simp add: rank_entries_def)
qed

lemma results_loop_map:
  "results_loop ss byKey rs = Inr byKey' \<Longrightarrow>
   distinct (map (\<lambda>r. key (result_source r)) rs) \<and>
   (\<forall>r \<in> set rs. map_of byKey (key (result_source r)) = None \<and> result_source r \<in> set ss) \<and>
   map_of byKey' k = (case map_of byKey k of Some r \<Rightarrow> Some r
     | None \<Rightarrow> find (\<lambda>r. key (result_source r) = k) rs)"
proof (induction ss byKey rs rule: results_loop.induct)
  case (2 ss byKey r rs)
  let ?k = "key (result_source r)"
  from "2.prems" have fresh: "map_of byKey ?k = None" and src: "result_source r \<in> set ss"
    and rest: "results_loop ss ((?k, r) # byKey) rs = Inr byKey'"
    by (auto split: if_splits)
  note IH = "2.IH" [OF _ _ rest]
  have "distinct (map (\<lambda>r. key (result_source r)) rs)"
    "\<forall>r' \<in> set rs. map_of ((?k, r) # byKey) (key (result_source r')) = None \<and> result_source r' \<in> set ss"
    and m: "map_of byKey' k = (case map_of ((?k, r) # byKey) k of Some r \<Rightarrow> Some r
      | None \<Rightarrow> find (\<lambda>r. key (result_source r) = k) rs)"
    using IH fresh src by auto
  then show ?case using fresh src
    by (cases "k = ?k") (auto split: if_splits option.splits)
qed (simp split: option.split)

lemma find_unique:
  "distinct (map f rs) \<Longrightarrow>
   (case find (\<lambda>r. f r = k) rs of Some r \<Rightarrow> if P r then Some r else None | None \<Rightarrow> None) =
   find (\<lambda>r. f r = k \<and> P r) rs"
proof (induction rs)
  case (Cons r rs)
  show ?case
  proof (cases "f r = k \<and> \<not> P r")
    case True
    then have "find (\<lambda>r. f r = k \<and> P r) rs = None"
      using Cons.prems by (auto simp: find_None_iff image_iff)
    with True show ?thesis by auto
  qed (use Cons in auto)
qed simp

lemma entry_rank:
  assumes "results_loop ss [] results = Inr byKey"
  shows "entry_key (rank_entry byKey pinned i s) = rank_of results pinned s"
proof -
  from results_loop_map [OF assms, of "key s"]
  have m: "map_of byKey (key s) = find (\<lambda>r. key (result_source r) = key s) results"
    and d: "distinct (map (\<lambda>r. key (result_source r)) results)" by auto
  from find_unique [OF d, where k = "key s" and P = result_OK] m
  have f: "find (\<lambda>r. key (result_source r) = key s \<and> result_OK r) results =
      (case map_of byKey (key s) of Some r \<Rightarrow> if result_OK r then Some r else None | None \<Rightarrow> None)"
    by simp
  show ?thesis
    unfolding rank_of_def f
    by (auto simp: rank_entry_def entry_key_def Let_def split: option.split)
qed

lemma ranked_sources:
  assumes "results_loop ss0 [] results = Inr byKey"
  shows "map ranked_source (sort_stable compareRanked (rank_entries byKey pinned ss)) =
    sort_key (rank_of results pinned) ss"
proof -
  have "\<forall>e \<in> set (rank_entries byKey pinned ss). entry_key e = rank_of results pinned (ranked_source e)"
    using entry_rank [OF assms]
    by (auto simp: rank_entries_def set_zip rank_entry_def Let_def split: option.split)
  then have "map ranked_source (sort_key entry_key (rank_entries byKey pinned ss)) =
      sort_key (rank_of results pinned) (map ranked_source (rank_entries byKey pinned ss))"
    by (rule map_sort_key)
  then show ?thesis using sort_stable_key [of compareRanked entry_key] by (simp add: compare_key)
qed

lemma results_loop_Inr_iff:
  "(\<exists>byKey'. results_loop ss byKey rs = Inr byKey') \<longleftrightarrow>
   distinct (map (\<lambda>r. key (result_source r)) rs) \<and>
   (\<forall>r \<in> set rs. map_of byKey (key (result_source r)) = None \<and> result_source r \<in> set ss)"
proof (induction ss byKey rs rule: results_loop.induct)
  case (2 ss byKey r rs)
  then show ?case by (auto simp: image_iff split: if_splits)
qed simp

lemma RankPlan_Inr:
  assumes "RankPlan api sha plan results pinned = Inr ranked"
  shows "validPlan api sha plan" "\<not> plan_offline plan" "\<not> pinned_missing (plan_sources plan) pinned"
    "ranked = make_plan sha (plan_kind plan)
       (sort_key (rank_of results pinned) (plan_sources plan)) False"
  using assms ranked_sources by (auto simp: RankPlan_def bindE_Inr_iff split: if_splits)

lemma ranked_valid:
  assumes "RankPlan api sha plan results pinned = Inr ranked"
  shows "validPlan api sha ranked \<and> plan_kind ranked = plan_kind plan \<and>
    mset (plan_sources ranked) = mset (plan_sources plan)"
proof -
  note r = RankPlan_Inr [OF assms]
  from validPlan_onlineD [OF r(1,2)] have "Kind_Valid (plan_kind plan)" "plan_sources plan \<noteq> []"
    and ok: "sources_ok api (plan_kind plan) (plan_sources plan)" by blast+
  moreover have "sources_ok api (plan_kind plan)
      (sort_key (rank_of results pinned) (plan_sources plan))"
    using ok sources_ok_mset [of "sort_key (rank_of results pinned) (plan_sources plan)"
        "plan_sources plan"] by simp
  moreover have "sort_key (rank_of results pinned) (plan_sources plan) \<noteq> []"
    using \<open>plan_sources plan \<noteq> []\<close> by (metis mset_sort mset_zero_iff)
  ultimately show ?thesis unfolding r(4)
    by (auto simp: make_plan_def intro: validPlan_online [unfolded make_plan_def])
qed

lemma sort_key_least_first:
  assumes "x \<in> set xs" "\<And>y. y \<in> set xs \<Longrightarrow> y \<noteq> x \<Longrightarrow> f x < f y"
  shows "hd (sort_key f xs) = x"
proof (rule ccontr)
  assume neq: "hd (sort_key f xs) \<noteq> x"
  have "x \<in> set (sort_key f xs)" using assms(1) by simp
  then obtain y ys where ys: "sort_key f xs = y # ys" by (cases "sort_key f xs") auto
  have "sorted (map f (sort_key f xs))" by simp
  then have "f y \<le> f x" using ys \<open>x \<in> set (sort_key f xs)\<close> by auto
  moreover have "y \<in> set xs" using ys by (metis list.set_intros(1) set_sort)
  ultimately show False using assms(2) [of y] neq ys by auto
qed

lemma pinned_rank_least:
  "pinned \<noteq> [] \<Longrightarrow> key s = pinned \<Longrightarrow> key t \<noteq> pinned \<Longrightarrow>
   rank_of results pinned s < rank_of results pinned t"
  by (auto simp: rank_of_def less_prod_def less_rankGroup_def split: option.split)

section \<open>Properties\<close>

text \<open>C29: a ranked plan is a valid plan of the same kind whose sources are the stable sort of the
  plan's sources by group (pinned, measured, failed), throughput downwards and time to the first
  byte upwards; an explicit preference is the first source.\<close>

theorem rank_plan_correct:
  assumes "RankPlan api sha plan results pinned = Inr ranked"
  shows "validPlan api sha ranked \<and> plan_kind ranked = plan_kind plan \<and>
    plan_sources ranked = sort_key (rank_of results pinned) (plan_sources plan) \<and>
    (pinned \<noteq> '''' \<longrightarrow> key (hd (plan_sources ranked)) = pinned)"
proof (intro conjI impI)
  note r = RankPlan_Inr [OF assms]
  show order: "plan_sources ranked = sort_key (rank_of results pinned) (plan_sources plan)"
    unfolding r(4) by (simp add: make_plan_def)
  show "validPlan api sha ranked" "plan_kind ranked = plan_kind plan"
    using ranked_valid [OF assms] by auto
  show "key (hd (plan_sources ranked)) = pinned" if "pinned \<noteq> ''''"
  proof -
    from r(3) that obtain s where s: "s \<in> set (plan_sources plan)" "key s = pinned"
      by (auto simp: pinned_missing_def list_ex_iff)
    have "distinct (map key (plan_sources plan))"
      using validPlan_onlineD [OF r(1,2)] by (auto simp: sources_ok_def)
    then have "key y \<noteq> pinned" if "y \<in> set (plan_sources plan)" "y \<noteq> s" for y
      using s that by (auto simp: distinct_map inj_on_def)
    then have "hd (sort_key (rank_of results pinned) (plan_sources plan)) = s"
      using s \<open>pinned \<noteq> ''''\<close> by (intro sort_key_least_first) (auto intro: pinned_rank_least)
    with order s show ?thesis by simp
  qed
qed

text \<open>Ranking succeeds exactly for a valid online plan, results of distinct sources of the
  plan, and a preference that is empty or the key of a source of the plan.\<close>

theorem rank_plan_accepts:
  "(\<exists>ranked. RankPlan api sha plan results pinned = Inr ranked) \<longleftrightarrow>
   validPlan api sha plan \<and> plan_offline plan = False \<and>
   distinct (map (\<lambda>r. key (result_source r)) results) \<and>
   result_source ` set results \<subseteq> set (plan_sources plan) \<and>
   (pinned = '''' \<or> (validSourceKey pinned \<and> pinned \<in> key ` set (plan_sources plan)))"
proof -
  have "(\<exists>byKey. results_loop (plan_sources plan) [] results = Inr byKey) \<longleftrightarrow>
      distinct (map (\<lambda>r. key (result_source r)) results) \<and>
      result_source ` set results \<subseteq> set (plan_sources plan)"
    unfolding results_loop_Inr_iff by auto
  moreover have "\<not> pinned_missing (plan_sources plan) pinned \<longleftrightarrow>
      pinned = '''' \<or> (validSourceKey pinned \<and> pinned \<in> key ` set (plan_sources plan))"
    by (auto simp: pinned_missing_def list_ex_iff)
  ultimately show ?thesis
    unfolding RankPlan_def by (auto simp: bindE_Inr_iff)
qed

definition example_results :: "ProbeResult list" where
  "example_results =
     [zero_result\<lparr>result_source := example_source KindGit ''mirror'' False, result_OK := True,
        TTFB := 20, BytesPerSecond := 900\<rparr>]"


theorem rank_plan_correct_witness:
  "map key (sort_key (rank_of example_results '''') (plan_sources example_plan)) =
     [''mirror'', ''github'']"
proof -
  obtain ranked where r: "RankPlan letters_api id example_plan example_results '''' = Inr ranked"
  proof -
    have "\<exists>byKey. results_loop (plan_sources example_plan) [] example_results = Inr byKey"
      unfolding results_loop_Inr_iff by code_simp
    then show ?thesis using that example_plan_valid
      by (auto simp: RankPlan_def pinned_missing_def example_plan_def make_plan_def)
  qed
  have "map key (plan_sources ranked) = [''mirror'', ''github'']"
    unfolding RankPlan_Inr(4) [OF r] by code_simp
  with rank_plan_correct [OF r] show ?thesis by simp
qed

end
