(* ===== verification/Mirror_Ranker.thy ===== *)
theory Mirror_Ranker
  imports Mirror_Rank
begin

text \<open>
  \<open>internal/mirror/probecache.go\<close> and \<open>ranker.go\<close>: the cache of measured orders and the ranker that
  joins prober, ranking and cache. Receivers and contexts are not nil here. What the clock, the
  prober, the contexts and the callbacks answer are arguments. \<open>Plan\<close> runs in several goroutines:
  it is split between its accesses of the shared state, each of which the code makes under a mutex,
  and a step relation interleaves the callers. The lemmas show
  what a cache hit can be, that one kind is probed by one caller at a time and that every plan
  handed out is a permutation of a catalog plan.
\<close>

section \<open>The probe cache\<close>

abbreviation DefaultProbeCacheTTL :: int where
  "DefaultProbeCacheTTL \<equiv> 30 * 60 * 1000000000"

record cachedRanking =
  cached_seal :: string
  cached_plan :: Plan
  cached_results :: "ProbeResult list"
  storedAt :: int

record ProbeCache =
  ttl :: int
  entries :: "Kind \<Rightarrow> cachedRanking option"

definition Seal :: "Plan \<Rightarrow> string" where
  "Seal p = hex_encode (seal p)"

definition NewProbeCache :: "int \<Rightarrow> ProbeCache" where
  "NewProbeCache t = \<lparr>ttl = (if t \<le> 0 then DefaultProbeCacheTTL else t), entries = Map.empty\<rparr>"

definition effectiveTTL :: "ProbeCache \<Rightarrow> int" where
  "effectiveTTL c = (if ttl c \<le> 0 then DefaultProbeCacheTTL else ttl c)"

definition Lookup ::
  "ProbeCache \<Rightarrow> int \<Rightarrow> Kind \<Rightarrow> string \<Rightarrow> (Plan \<times> ProbeResult list) option \<times> ProbeCache" where
  "Lookup c now k sl =
     (if \<not> Kind_Valid k \<or> sl = '''' then (None, c)
      else case entries c k of
             None \<Rightarrow> (None, c)
           | Some entry \<Rightarrow>
               if cached_seal entry \<noteq> sl then (None, c)
               else if now - storedAt entry \<ge> effectiveTTL c
                 then (None, c\<lparr>entries := (entries c)(k := None)\<rparr>)
               else (Some (cached_plan entry, cached_results entry), c))"

definition Store ::
  "url_api \<Rightarrow> sha256 \<Rightarrow> ProbeCache \<Rightarrow> int \<Rightarrow> Kind \<Rightarrow> string \<Rightarrow> Plan \<times> ProbeResult list \<Rightarrow> ProbeCache" where
  "Store api sha c now k sl pr =
     (if \<not> Kind_Valid k \<or> sl = '''' \<or> \<not> validPlan api sha (fst pr) \<or> plan_kind (fst pr) \<noteq> k then c
      else c\<lparr>entries := (entries c)(k \<mapsto> \<lparr>cached_seal = sl, cached_plan = fst pr,
             cached_results = snd pr, storedAt = now\<rparr>)\<rparr>)"

text \<open>What a client may rely on: a stored value is found under its own kind and seal until it is
  too old, storing does not touch other kinds, and neither operation invents a hit.\<close>

locale ttl_cache =
  fixes lookup :: "'c \<Rightarrow> int \<Rightarrow> 'k \<Rightarrow> 's \<Rightarrow> 'v option \<times> 'c"
    and store :: "'c \<Rightarrow> int \<Rightarrow> 'k \<Rightarrow> 's \<Rightarrow> 'v \<Rightarrow> 'c"
    and accepts :: "'k \<Rightarrow> 's \<Rightarrow> 'v \<Rightarrow> bool"
    and lifetime :: "'c \<Rightarrow> int"
  assumes lookup_stored: "accepts k s v \<Longrightarrow> fst (lookup (store c now k s v) now' k s) =
      (if now' - now < lifetime c then Some v else None)"
    and store_hit: "fst (lookup (store c now k s v) now' k' s') = Some v' \<Longrightarrow>
      (k' = k \<and> s' = s \<and> v' = v \<and> accepts k s v \<and> now' - now < lifetime c) \<or>
      fst (lookup c now' k' s') = Some v'"
    and lookup_hit: "fst (lookup (snd (lookup c now k s)) now' k' s') = Some v \<Longrightarrow>
      fst (lookup c now' k' s') = Some v"
begin

text \<open>Every hit is a good value if every value put in is.\<close>

lemma store_keeps:
  "(\<And>now k s v. fst (lookup c now k s) = Some v \<Longrightarrow> good k s v) \<Longrightarrow> (accepts k s v \<Longrightarrow> good k s v) \<Longrightarrow>
   fst (lookup (store c now k s v) now' k' s') = Some v' \<Longrightarrow> good k' s' v'"
  using store_hit by blast

lemma lookup_keeps:
  "(\<And>now k s v. fst (lookup c now k s) = Some v \<Longrightarrow> good k s v) \<Longrightarrow>
   fst (lookup (snd (lookup c now k s)) now' k' s') = Some v \<Longrightarrow> good k' s' v"
  using lookup_hit by blast

lemma stored_then_found:
  "accepts k s v \<Longrightarrow> now' - now < lifetime c \<Longrightarrow> fst (lookup (store c now k s v) now' k s) = Some v"
  by (simp add: lookup_stored)

end

definition cache_accepts :: "url_api \<Rightarrow> sha256 \<Rightarrow> Kind \<Rightarrow> string \<Rightarrow> Plan \<times> ProbeResult list \<Rightarrow> bool" where
  "cache_accepts api sha k sl pr \<longleftrightarrow>
     Kind_Valid k \<and> sl \<noteq> '''' \<and> validPlan api sha (fst pr) \<and> plan_kind (fst pr) = k"

interpretation probe_cache: ttl_cache Lookup "Store api sha" "cache_accepts api sha" effectiveTTL
  for api sha
proof
  fix c now now' k k' sl sl' v v'
  show "cache_accepts api sha k sl v \<Longrightarrow> fst (Lookup (Store api sha c now k sl v) now' k sl) =
      (if now' - now < effectiveTTL c then Some v else None)"
    by (simp add: Lookup_def Store_def cache_accepts_def effectiveTTL_def)
  show "fst (Lookup (Store api sha c now k sl v) now' k' sl') = Some v' \<Longrightarrow>
      (k' = k \<and> sl' = sl \<and> v' = v \<and> cache_accepts api sha k sl v \<and> now' - now < effectiveTTL c) \<or>
      fst (Lookup c now' k' sl') = Some v'"
    by (cases v; cases v') (auto simp: Lookup_def Store_def cache_accepts_def effectiveTTL_def
        split: if_splits option.splits)
  show "fst (Lookup (snd (Lookup c now k sl)) now' k' sl') = Some v \<Longrightarrow>
      fst (Lookup c now' k' sl') = Some v"
    by (auto simp: Lookup_def effectiveTTL_def split: if_splits option.splits)
qed

section \<open>The ranker\<close>

record ProbeTarget =
  target_kind :: Kind
  target_path :: string
  WindowBytes :: int

type_synonym ProbeReportFunc = "Kind \<Rightarrow> ProbeResult \<Rightarrow> nat \<Rightarrow> nat \<Rightarrow> string option"
type_synonym RankedFunc = "Kind \<Rightarrow> Plan \<Rightarrow> ProbeResult list \<Rightarrow> string option"

record Ranker =
  ranker_catalog :: "Catalog option"
  cache :: ProbeCache
  report :: "ProbeReportFunc option"
  ranked_callback :: "RankedFunc option"
  targets :: "Kind \<Rightarrow> ProbeTarget option"
  ranker_results :: "Kind \<Rightarrow> ProbeResult list option"
  inflight :: "Kind \<Rightarrow> bool"

datatype RankerError =
    InvalidRankerOption
  | RankerContext string
  | RankerPlan PlanError
  | RankerProbe string
  | RankerCallback string

text \<open>The options; the boolean of a prober or logger option tells that its argument is nil.\<close>

datatype RankerOption =
    NilRankerOption
  | WithRankerProber bool
  | WithRankerProbeFunc bool
  | WithRankerCache "ProbeCache option"
  | WithRankerReport "ProbeReportFunc option"
  | WithRankerRanked "RankedFunc option"
  | WithRankerLogger bool

fun apply_ranker_option :: "RankerOption \<Rightarrow> Ranker \<Rightarrow> RankerError + Ranker" where
  "apply_ranker_option (WithRankerProber False) r = Inr r"
| "apply_ranker_option (WithRankerProbeFunc False) r = Inr r"
| "apply_ranker_option (WithRankerCache (Some c)) r = Inr (r\<lparr>cache := c\<rparr>)"
| "apply_ranker_option (WithRankerReport (Some f)) r = Inr (r\<lparr>report := Some f\<rparr>)"
| "apply_ranker_option (WithRankerRanked (Some f)) r = Inr (r\<lparr>ranked_callback := Some f\<rparr>)"
| "apply_ranker_option (WithRankerLogger False) r = Inr r"
| "apply_ranker_option _ r = Inl InvalidRankerOption"

fun apply_ranker_options :: "RankerOption list \<Rightarrow> Ranker \<Rightarrow> RankerError + Ranker" where
  "apply_ranker_options [] r = Inr r"
| "apply_ranker_options (p # ps) r = bindE (apply_ranker_option p r) (apply_ranker_options ps)"

definition NewRanker :: "url_api \<Rightarrow> Catalog option \<Rightarrow> RankerOption list \<Rightarrow> RankerError + Ranker" where
  "NewRanker api catalog options =
     (if \<not> validateCatalog api catalog then Inl InvalidRankerOption
      else apply_ranker_options options
        \<lparr>ranker_catalog = catalog, cache = NewProbeCache DefaultProbeCacheTTL, report = None,
         ranked_callback = None, targets = Map.empty, ranker_results = Map.empty,
         inflight = (\<lambda>_. False)\<rparr>)"

definition SetTarget :: "Kind \<Rightarrow> ProbeTarget \<Rightarrow> Ranker \<Rightarrow> Ranker" where
  "SetTarget k t r =
     (if \<not> Kind_Valid k \<or> target_kind t \<noteq> k then r else r\<lparr>targets := (targets r)(k \<mapsto> t)\<rparr>)"

definition orderResults :: "Plan \<Rightarrow> ProbeResult list \<Rightarrow> ProbeResult list" where
  "orderResults ranked results =
     (let byKey = map (\<lambda>r. (key (result_source r), r)) (rev results)
      in List.map_filter (\<lambda>s. map_of byKey (key s)) (plan_sources ranked))"

text \<open>The callback that \<open>probeAndRank\<close> hands to the prober, over the results the prober reports:
  after the first error of \<open>report\<close> it does nothing.\<close>

fun report_loop ::
  "ProbeReportFunc option \<Rightarrow> Kind \<Rightarrow> nat \<Rightarrow> nat \<Rightarrow> ProbeResult list \<Rightarrow> string option" where
  "report_loop rep k sourceCount completed [] = None"
| "report_loop rep k sourceCount completed (r # rs) =
     (case rep of
        None \<Rightarrow> report_loop rep k sourceCount completed rs
      | Some f \<Rightarrow>
          (case f k r (completed + 1) sourceCount of
             None \<Rightarrow> report_loop rep k sourceCount (completed + 1) rs
           | Some e \<Rightarrow> Some e))"

datatype ProbeFailure = ProbeCanceled | ProbeDeadlineExceeded | ProbeFailed string

record ProbeAnswer =
  reported :: "ProbeResult list"
  outcome :: "ProbeFailure + ProbeResult list"

definition probeAndRank ::
  "url_api \<Rightarrow> sha256 \<Rightarrow> Ranker \<Rightarrow> Plan \<Rightarrow> string \<Rightarrow> ProbeAnswer \<Rightarrow>
   RankerError + (Plan \<times> ProbeResult list)" where
  "probeAndRank api sha r base pinned answer =
     (case report_loop (report r) (plan_kind base) (length (plan_sources base)) 0 (reported answer) of
        Some e \<Rightarrow> Inl (RankerCallback e)
      | None \<Rightarrow>
          (case outcome answer of
             Inl ProbeCanceled \<Rightarrow> Inl (RankerProbe ''canceled'')
           | Inl ProbeDeadlineExceeded \<Rightarrow> Inl (RankerProbe ''deadline exceeded'')
           | Inl (ProbeFailed e) \<Rightarrow> Inr (base, [])
           | Inr results \<Rightarrow>
               (case RankPlan api sha base results pinned of
                  Inl e \<Rightarrow> Inr (base, results)
                | Inr ranked \<Rightarrow> Inr (ranked, orderResults ranked results))))"

section \<open>Planning\<close>

text \<open>Where a caller of \<open>Plan\<close> can be between two accesses of the shared state: finished; the cache
  was missed; waiting for the probe of another caller; probing; about to release the kind.\<close>

datatype PlanPhase =
    PlanDone "RankerError + Plan"
  | PlanMissed Plan string
  | PlanWait Plan
  | PlanProbe Plan ProbeTarget string
  | PlanRelease Kind "RankerError + Plan"

definition plan_begin ::
  "url_api \<Rightarrow> sha256 \<Rightarrow> string option \<Rightarrow> int \<Rightarrow> Policy \<Rightarrow> Kind \<Rightarrow> Ranker \<Rightarrow> PlanPhase \<times> Ranker" where
  "plan_begin api sha ctxErr now policy k r =
     (case ctxErr of
        Some e \<Rightarrow> (PlanDone (Inl (RankerContext e)), r)
      | None \<Rightarrow>
          (case BuildPlan api sha (ranker_catalog r) policy k of
             Inl e \<Rightarrow> (PlanDone (Inl (RankerPlan e)), r)
           | Inr base \<Rightarrow>
               if plan_offline base then (PlanDone (Inr base), r)
               else (case Lookup (cache r) now k (Seal base) of
                       (Some (ranked, _), c) \<Rightarrow> (PlanDone (Inr ranked), r\<lparr>cache := c\<rparr>)
                     | (None, c) \<Rightarrow>
                         (PlanMissed base (case Preferred policy k of None \<Rightarrow> '''' | Some s \<Rightarrow> s),
                          r\<lparr>cache := c\<rparr>))))"

text \<open>Under the mutex of the ranker: no target, another probe is running, or this one starts.\<close>

definition plan_claim :: "Plan \<Rightarrow> string \<Rightarrow> Ranker \<Rightarrow> PlanPhase \<times> Ranker" where
  "plan_claim base pinned r =
     (let k = plan_kind base in
      case targets r k of
        None \<Rightarrow> (PlanDone (Inr base), r)
      | Some t \<Rightarrow>
          if inflight r k then (PlanWait base, r)
          else (PlanProbe base t pinned, r\<lparr>inflight := (inflight r)(k := True)\<rparr>))"

text \<open>After the wait: \<open>ctxErr\<close> when the context ended first.\<close>

definition plan_waited :: "string option \<Rightarrow> int \<Rightarrow> Plan \<Rightarrow> Ranker \<Rightarrow> PlanPhase \<times> Ranker" where
  "plan_waited ctxErr now base r =
     (case ctxErr of
        Some e \<Rightarrow> (PlanDone (Inl (RankerContext e)), r)
      | None \<Rightarrow>
          (case Lookup (cache r) now (plan_kind base) (Seal base) of
             (Some (ranked, _), c) \<Rightarrow> (PlanDone (Inr ranked), r\<lparr>cache := c\<rparr>)
           | (None, c) \<Rightarrow> (PlanDone (Inr base), r\<lparr>cache := c\<rparr>)))"

definition plan_probed ::
  "url_api \<Rightarrow> sha256 \<Rightarrow> int \<Rightarrow> Plan \<Rightarrow> string \<Rightarrow> ProbeAnswer \<Rightarrow> Ranker \<Rightarrow> PlanPhase \<times> Ranker" where
  "plan_probed api sha now base pinned answer r =
     (let k = plan_kind base in
      case probeAndRank api sha r base pinned answer of
        Inl e \<Rightarrow> (PlanRelease k (Inl e), r)
      | Inr (ranked, results) \<Rightarrow>
          (PlanRelease k
             (case ranked_callback r of
                None \<Rightarrow> Inr ranked
              | Some f \<Rightarrow>
                  (case f k ranked results of Some e \<Rightarrow> Inl (RankerCallback e) | None \<Rightarrow> Inr ranked)),
           r\<lparr>ranker_results := (ranker_results r)(k \<mapsto> results),
             cache := Store api sha (cache r) now k (Seal base) (ranked, results)\<rparr>))"

definition plan_release :: "Kind \<Rightarrow> RankerError + Plan \<Rightarrow> Ranker \<Rightarrow> PlanPhase \<times> Ranker" where
  "plan_release k res r = (PlanDone res, r\<lparr>inflight := (inflight r)(k := False)\<rparr>)"

section \<open>Callers in parallel\<close>

text \<open>Each caller with its policy, its kind and where it is.\<close>

record RankerSystem =
  shared :: Ranker
  callers :: "nat \<Rightarrow> (Policy \<times> Kind \<times> PlanPhase) option"

inductive ranker_step :: "url_api \<Rightarrow> sha256 \<Rightarrow> RankerSystem \<Rightarrow> RankerSystem \<Rightarrow> bool"
  for api sha where
  step_begin: "callers s c = None \<Longrightarrow> plan_begin api sha ctxErr now policy k (shared s) = (ph, r) \<Longrightarrow>
    ranker_step api sha s \<lparr>shared = r, callers = (callers s)(c \<mapsto> (policy, k, ph))\<rparr>"
| step_claim: "callers s c = Some (policy, k, PlanMissed base pinned) \<Longrightarrow>
    plan_claim base pinned (shared s) = (ph, r) \<Longrightarrow>
    ranker_step api sha s \<lparr>shared = r, callers = (callers s)(c \<mapsto> (policy, k, ph))\<rparr>"
| step_waited: "callers s c = Some (policy, k, PlanWait base) \<Longrightarrow>
    plan_waited ctxErr now base (shared s) = (ph, r) \<Longrightarrow>
    ranker_step api sha s \<lparr>shared = r, callers = (callers s)(c \<mapsto> (policy, k, ph))\<rparr>"
| step_probed: "callers s c = Some (policy, k, PlanProbe base t pinned) \<Longrightarrow>
    plan_probed api sha now base pinned answer (shared s) = (ph, r) \<Longrightarrow>
    ranker_step api sha s \<lparr>shared = r, callers = (callers s)(c \<mapsto> (policy, k, ph))\<rparr>"
| step_release: "callers s c = Some (policy, k, PlanRelease k' res) \<Longrightarrow>
    plan_release k' res (shared s) = (ph, r) \<Longrightarrow>
    ranker_step api sha s \<lparr>shared = r, callers = (callers s)(c \<mapsto> (policy, k, ph))\<rparr>"
| step_target: "ranker_step api sha s (s\<lparr>shared := SetTarget k t (shared s)\<rparr>)"

inductive ranker_reachable ::
  "url_api \<Rightarrow> sha256 \<Rightarrow> Catalog option \<Rightarrow> RankerOption list \<Rightarrow> RankerSystem \<Rightarrow> bool"
  for api sha catalog options where
  ranker_new: "NewRanker api catalog options = Inr r \<Longrightarrow>
    (\<forall>k. entries (cache r) k = None) \<Longrightarrow>
    ranker_reachable api sha catalog options \<lparr>shared = r, callers = Map.empty\<rparr>"
| ranker_next: "ranker_reachable api sha catalog options s \<Longrightarrow> ranker_step api sha s s' \<Longrightarrow>
    ranker_reachable api sha catalog options s'"

section \<open>Invariants\<close>

definition from_plan ::
  "url_api \<Rightarrow> sha256 \<Rightarrow> Catalog option \<Rightarrow> Kind \<Rightarrow> string \<Rightarrow> Plan \<Rightarrow> bool" where
  "from_plan api sha catalog k sl p \<longleftrightarrow>
     validPlan api sha p \<and> plan_kind p = k \<and>
     (\<exists>policy base. BuildPlan api sha catalog policy k = Inr base \<and> \<not> plan_offline base \<and>
        Seal base = sl \<and> mset (plan_sources p) = mset (plan_sources base))"

definition plan_result_ok ::
  "url_api \<Rightarrow> sha256 \<Rightarrow> Catalog option \<Rightarrow> Policy \<Rightarrow> Kind \<Rightarrow> Plan \<Rightarrow> bool" where
  "plan_result_ok api sha catalog policy k p \<longleftrightarrow>
     (\<exists>base. BuildPlan api sha catalog policy k = Inr base \<and>
        (if plan_offline base then p = base else from_plan api sha catalog k (Seal base) p))"

definition online_base :: "url_api \<Rightarrow> sha256 \<Rightarrow> Catalog option \<Rightarrow> Policy \<Rightarrow> Kind \<Rightarrow> Plan \<Rightarrow> bool" where
  "online_base api sha catalog policy k base \<longleftrightarrow>
     BuildPlan api sha catalog policy k = Inr base \<and> \<not> plan_offline base"

fun phase_ok :: "url_api \<Rightarrow> sha256 \<Rightarrow> Catalog option \<Rightarrow> Policy \<times> Kind \<times> PlanPhase \<Rightarrow> bool" where
  "phase_ok api sha catalog (policy, k, PlanDone res) =
     (\<forall>p. res = Inr p \<longrightarrow> plan_result_ok api sha catalog policy k p)"
| "phase_ok api sha catalog (policy, k, PlanMissed base pinned) = online_base api sha catalog policy k base"
| "phase_ok api sha catalog (policy, k, PlanWait base) = online_base api sha catalog policy k base"
| "phase_ok api sha catalog (policy, k, PlanProbe base t pinned) = online_base api sha catalog policy k base"
| "phase_ok api sha catalog (policy, k, PlanRelease k' res) =
     (k' = k \<and> (\<forall>p. res = Inr p \<longrightarrow> plan_result_ok api sha catalog policy k p))"

definition cache_good :: "url_api \<Rightarrow> sha256 \<Rightarrow> Catalog option \<Rightarrow> ProbeCache \<Rightarrow> bool" where
  "cache_good api sha catalog c \<longleftrightarrow>
     (\<forall>now k sl v. fst (Lookup c now k sl) = Some v \<longrightarrow> from_plan api sha catalog k sl (fst v))"

definition ranker_inv :: "url_api \<Rightarrow> sha256 \<Rightarrow> Catalog option \<Rightarrow> RankerSystem \<Rightarrow> bool" where
  "ranker_inv api sha catalog s \<longleftrightarrow>
     ranker_catalog (shared s) = catalog \<and> cache_good api sha catalog (cache (shared s)) \<and>
     (\<forall>c x. callers s c = Some x \<longrightarrow> phase_ok api sha catalog x)"

lemma online_base_kind: "online_base api sha catalog policy k base \<Longrightarrow> plan_kind base = k"
  using BuildPlan_valid by (auto simp: online_base_def)

lemma base_result_ok:
  "online_base api sha catalog policy k base \<Longrightarrow> plan_result_ok api sha catalog policy k base"
  using BuildPlan_valid by (fastforce simp: online_base_def plan_result_ok_def from_plan_def)

lemma from_plan_result_ok:
  "online_base api sha catalog policy k base \<Longrightarrow> from_plan api sha catalog k (Seal base) p \<Longrightarrow>
   plan_result_ok api sha catalog policy k p"
  by (auto simp: online_base_def plan_result_ok_def)

lemma cache_goodD:
  "cache_good api sha catalog c \<Longrightarrow> fst (Lookup c now k sl) = Some v \<Longrightarrow>
   from_plan api sha catalog k sl (fst v)"
  unfolding cache_good_def by blast

lemma inv_phase: "ranker_inv api sha catalog s \<Longrightarrow> callers s c = Some x \<Longrightarrow> phase_ok api sha catalog x"
  unfolding ranker_inv_def by blast

lemma inv_online:
  "ranker_inv api sha catalog s \<Longrightarrow>
   callers s c = Some (policy, k, PlanMissed base pinned) \<or> callers s c = Some (policy, k, PlanWait base) \<or>
   callers s c = Some (policy, k, PlanProbe base t pinned) \<Longrightarrow>
   online_base api sha catalog policy k base"
  using inv_phase by fastforce

lemma cache_good_lookup:
  assumes "cache_good api sha catalog c" "Lookup c now k sl = (res, c')"
  shows "cache_good api sha catalog c'" "res = Some v \<Longrightarrow> from_plan api sha catalog k sl (fst v)"
proof -
  have "c' = snd (Lookup c now k sl)" using assms(2) by simp
  then show "cache_good api sha catalog c'"
    unfolding cache_good_def
    using probe_cache.lookup_keeps [where good = "\<lambda>k sl v. from_plan api sha catalog k sl (fst v)"]
      cache_goodD [OF assms(1)] by blast
  show "res = Some v \<Longrightarrow> from_plan api sha catalog k sl (fst v)"
    using cache_goodD [OF assms(1)] assms(2) by (metis fst_conv)
qed

lemma cache_good_store:
  assumes "cache_good api sha catalog c"
    and "cache_accepts api sha k sl v \<Longrightarrow> from_plan api sha catalog k sl (fst v)"
  shows "cache_good api sha catalog (Store api sha c now k sl v)"
  unfolding cache_good_def
  using probe_cache.store_keeps [where good = "\<lambda>k sl v. from_plan api sha catalog k sl (fst v)"]
    cache_goodD [OF assms(1)] assms(2) by blast

lemma probeAndRank_Inr:
  assumes "probeAndRank api sha r base pinned answer = Inr (p, rs)" "validPlan api sha base"
  shows "validPlan api sha p \<and> plan_kind p = plan_kind base \<and>
    mset (plan_sources p) = mset (plan_sources base)"
proof (cases "p = base")
  case False
  with assms(1) obtain results where "RankPlan api sha base results pinned = Inr p"
    by (auto simp: probeAndRank_def split: option.splits sum.splits ProbeFailure.splits)
  from ranked_valid [OF this] show ?thesis by simp
qed (use assms in simp)

lemma probed_from_plan:
  assumes "online_base api sha catalog policy k base"
    and "probeAndRank api sha r base pinned answer = Inr (p, rs)"
  shows "from_plan api sha catalog k (Seal base) p"
  using probeAndRank_Inr [OF assms(2)] BuildPlan_valid [of api sha catalog policy k base] assms(1)
  by (auto simp: from_plan_def online_base_def)

section \<open>Every step keeps the invariant\<close>

lemma inv_update:
  assumes "ranker_inv api sha catalog s" "ranker_catalog r = catalog"
    and "cache_good api sha catalog (cache r)" "phase_ok api sha catalog (policy, k, ph)"
  shows "ranker_inv api sha catalog \<lparr>shared = r, callers = (callers s)(c \<mapsto> (policy, k, ph))\<rparr>"
  using assms by (auto simp: ranker_inv_def)

lemma plan_begin_ok:
  assumes "plan_begin api sha ctxErr now policy k r = (ph, r')" "cache_good api sha catalog (cache r)"
    "ranker_catalog r = catalog"
  shows "ranker_catalog r' = catalog \<and> cache_good api sha catalog (cache r') \<and>
    phase_ok api sha catalog (policy, k, ph)"
proof (cases "BuildPlan api sha catalog policy k")
  case (Inr base)
  show ?thesis
  proof (cases "ctxErr = None \<and> \<not> plan_offline base")
    case True
    then have on: "online_base api sha catalog policy k base"
      using Inr by (simp add: online_base_def)
    obtain res c where l: "Lookup (cache r) now k (Seal base) = (res, c)" by fastforce
    note g = cache_good_lookup [OF assms(2) l]
    show ?thesis
      using assms(1,3) True Inr l g on from_plan_result_ok [OF on]
      by (cases res) (auto simp: plan_begin_def)
  qed (use assms Inr in \<open>auto simp: plan_begin_def plan_result_ok_def split: option.splits if_splits\<close>)
qed (use assms in \<open>auto simp: plan_begin_def split: option.splits\<close>)

lemma plan_waited_ok:
  assumes "plan_waited ctxErr now base r = (ph, r')" "cache_good api sha catalog (cache r)"
    "ranker_catalog r = catalog" and on: "online_base api sha catalog policy k base"
  shows "ranker_catalog r' = catalog \<and> cache_good api sha catalog (cache r') \<and>
    phase_ok api sha catalog (policy, k, ph)"
proof -
  obtain res c where l: "Lookup (cache r) now (plan_kind base) (Seal base) = (res, c)" by fastforce
  note g = cache_good_lookup [OF assms(2) l]
  show ?thesis
    using assms(1-3) l g from_plan_result_ok [OF on] base_result_ok [OF on] online_base_kind [OF on]
    by (cases res; cases ctxErr) (auto simp: plan_waited_def)
qed

lemma plan_claim_ok:
  "plan_claim base pinned r = (ph, r') \<Longrightarrow> online_base api sha catalog policy k base \<Longrightarrow>
   ranker_catalog r' = ranker_catalog r \<and> cache r' = cache r \<and> phase_ok api sha catalog (policy, k, ph)"
  by (auto simp: plan_claim_def Let_def base_result_ok split: option.splits if_splits)

lemma plan_probed_ok:
  assumes "plan_probed api sha now base pinned answer r = (ph, r')"
    and c: "cache_good api sha catalog (cache r)" and "ranker_catalog r = catalog"
    and on: "online_base api sha catalog policy k base"
  shows "ranker_catalog r' = catalog \<and> cache_good api sha catalog (cache r') \<and>
    phase_ok api sha catalog (policy, k, ph)"
proof (cases "probeAndRank api sha r base pinned answer")
  case (Inl e)
  with assms show ?thesis using online_base_kind [OF on] by (auto simp: plan_probed_def)
next
  case (Inr pr)
  then obtain p rs where pr: "probeAndRank api sha r base pinned answer = Inr (p, rs)"
    by (cases pr) auto
  note f = probed_from_plan [OF on pr]
  have "cache_good api sha catalog (Store api sha (cache r) now k (Seal base) (p, rs))"
    using c f by (intro cache_good_store) auto
  then show ?thesis
    using assms(1,3) pr from_plan_result_ok [OF on f] online_base_kind [OF on]
    by (auto simp: plan_probed_def Let_def split: option.splits)
qed

lemma ranker_step_inv:
  "ranker_step api sha s s' \<Longrightarrow> ranker_inv api sha catalog s \<Longrightarrow> ranker_inv api sha catalog s'"
proof (induction rule: ranker_step.induct)
  case (step_begin s c ctxErr now policy k ph r)
  then show ?case using plan_begin_ok [OF step_begin(2)] inv_update by (auto simp: ranker_inv_def)
next
  case (step_claim s c policy k base pinned ph r)
  then have "online_base api sha catalog policy k base" by (blast intro: inv_online)
  then show ?case
    using plan_claim_ok [OF step_claim(2)] step_claim(3) by (intro inv_update) (auto simp: ranker_inv_def)
next
  case (step_waited s c policy k base ctxErr now ph r)
  then have "online_base api sha catalog policy k base" by (blast intro: inv_online)
  then show ?case
    using plan_waited_ok [OF step_waited(2)] step_waited(3) by (intro inv_update) (auto simp: ranker_inv_def)
next
  case (step_probed s c policy k base t pinned now answer ph r)
  then have "online_base api sha catalog policy k base" by (blast intro: inv_online)
  then show ?case
    using plan_probed_ok [OF step_probed(2)] step_probed(3) by (intro inv_update) (auto simp: ranker_inv_def)
next
  case (step_release s c policy k k' res ph r)
  then have "phase_ok api sha catalog (policy, k, PlanRelease k' res)" by (blast intro: inv_phase)
  then show ?case
    using step_release by (intro inv_update) (auto simp: ranker_inv_def plan_release_def)
next
  case (step_target s k t)
  then show ?case by (auto simp: ranker_inv_def SetTarget_def)
qed

lemma apply_ranker_options_catalog:
  "apply_ranker_options ps r = Inr r' \<Longrightarrow> ranker_catalog r' = ranker_catalog r \<and> inflight r' = inflight r"
proof (induction ps arbitrary: r)
  case (Cons p ps)
  then obtain r1 where r1: "apply_ranker_option p r = Inr r1" "apply_ranker_options ps r1 = Inr r'"
    by (auto simp: bindE_Inr_iff)
  have "ranker_catalog r1 = ranker_catalog r \<and> inflight r1 = inflight r"
    using r1(1) by (cases "(p, r)" rule: apply_ranker_option.cases) auto
  with Cons.IH [OF r1(2)] show ?case by simp
qed simp

lemma NewRanker_fields:
  "NewRanker api catalog options = Inr r \<Longrightarrow> ranker_catalog r = catalog \<and> inflight r = (\<lambda>_. False)"
  by (auto simp: NewRanker_def split: if_splits dest: apply_ranker_options_catalog)

lemma ranker_reachable_inv:
  "ranker_reachable api sha catalog options s \<Longrightarrow> ranker_inv api sha catalog s"
proof (induction rule: ranker_reachable.induct)
  case (ranker_new r)
  then show ?case by (auto simp: ranker_inv_def cache_good_def Lookup_def dest: NewRanker_fields)
qed (rule ranker_step_inv)

section \<open>One probe at a time\<close>

text \<open>The kind whose probe a caller owns.\<close>

fun owns_probe :: "(Policy \<times> Kind \<times> PlanPhase) option \<Rightarrow> Kind option" where
  "owns_probe (Some (policy, k, PlanProbe base t pinned)) = Some k"
| "owns_probe (Some (policy, k, PlanRelease k' res)) = Some k"
| "owns_probe _ = None"

definition single_probe :: "RankerSystem \<Rightarrow> bool" where
  "single_probe s \<longleftrightarrow>
     (\<forall>k. inflight (shared s) k = (\<exists>c. owns_probe (callers s c) = Some k)) \<and>
     (\<forall>c d k. owns_probe (callers s c) = Some k \<longrightarrow> owns_probe (callers s d) = Some k \<longrightarrow> c = d)"

lemma single_probe_keep:
  assumes "single_probe s" "inflight r = inflight (shared s)"
    and "owns_probe (Some x) = owns_probe (callers s c)"
  shows "single_probe \<lparr>shared = r, callers = (callers s)(c \<mapsto> x)\<rparr>"
proof -
  have "owns_probe (((callers s)(c \<mapsto> x)) d) = owns_probe (callers s d)" for d
    using assms(3) by simp
  with assms(1,2) show ?thesis by (simp add: single_probe_def)
qed

lemma single_probe_claim:
  assumes "single_probe s" "\<not> inflight (shared s) k" "owns_probe (callers s c) = None"
    and "inflight r = (inflight (shared s))(k := True)" "owns_probe (Some x) = Some k"
  shows "single_probe \<lparr>shared = r, callers = (callers s)(c \<mapsto> x)\<rparr>"
proof -
  let ?own = "\<lambda>d. owns_probe (callers s d)"
  have new: "owns_probe (((callers s)(c \<mapsto> x)) d) = (if d = c then Some k else ?own d)" for d
    using assms(5) by simp
  have "inflight (shared s) k' = (\<exists>d. ?own d = Some k')" for k' using assms(1) by (simp add: single_probe_def)
  then have "((inflight (shared s))(k := True)) k' = (\<exists>d. (if d = c then Some k else ?own d) = Some k')" for k'
    using assms(3) by (auto simp: fun_upd_def) (metis option.distinct(1))
  moreover have "d = e" if "(if d = c then Some k else ?own d) = Some k'"
    "(if e = c then Some k else ?own e) = Some k'" for d e k'
    using that assms(1,2) unfolding single_probe_def by (metis option.inject)
  ultimately show ?thesis
    unfolding single_probe_def RankerSystem.simps new assms(4) by blast
qed

lemma single_probe_release:
  assumes "single_probe s" "owns_probe (callers s c) = Some k"
    and "inflight r = (inflight (shared s))(k := False)" "owns_probe (Some x) = None"
  shows "single_probe \<lparr>shared = r, callers = (callers s)(c \<mapsto> x)\<rparr>"
proof -
  let ?own = "\<lambda>d. owns_probe (callers s d)"
  have new: "owns_probe (((callers s)(c \<mapsto> x)) d) = (if d = c then None else ?own d)" for d
    using assms(4) by simp
  have "inflight (shared s) k' = (\<exists>d. ?own d = Some k')" for k' using assms(1) by (simp add: single_probe_def)
  moreover have uniq: "?own d = Some k' \<Longrightarrow> ?own e = Some k' \<Longrightarrow> d = e" for d e k'
    using assms(1) unfolding single_probe_def by blast
  ultimately have "((inflight (shared s))(k := False)) k' =
      (\<exists>d. (if d = c then None else ?own d) = Some k')" for k'
    using assms(2) by (auto simp: fun_upd_def) (metis option.inject)
  moreover have "d = e" if "(if d = c then None else ?own d) = Some k'"
    "(if e = c then None else ?own e) = Some k'" for d e k'
    using that uniq by (metis option.distinct(1))
  ultimately show ?thesis
    unfolding single_probe_def RankerSystem.simps new assms(3) by blast
qed

lemma plan_begin_probe:
  "plan_begin api sha ctxErr now policy k r = (ph, r') \<Longrightarrow>
   inflight r' = inflight r \<and> owns_probe (Some (policy, k, ph)) = None"
  by (auto simp: plan_begin_def split: option.splits sum.splits if_splits prod.splits)

lemma plan_waited_probe:
  "plan_waited ctxErr now base r = (ph, r') \<Longrightarrow>
   inflight r' = inflight r \<and> owns_probe (Some (policy, k, ph)) = None"
  by (auto simp: plan_waited_def split: option.splits prod.splits)

lemma plan_probed_probe:
  "plan_probed api sha now base pinned answer r = (ph, r') \<Longrightarrow>
   inflight r' = inflight r \<and> owns_probe (Some (policy, k, ph)) = Some k"
  by (auto simp: plan_probed_def Let_def split: sum.splits prod.splits)

lemma plan_claim_probe:
  assumes "plan_claim base pinned r = (ph, r')" "plan_kind base = k"
  shows "(inflight r' = inflight r \<and> owns_probe (Some (policy, k, ph)) = None) \<or>
    (\<not> inflight r k \<and> inflight r' = (inflight r)(k := True) \<and> owns_probe (Some (policy, k, ph)) = Some k)"
  using assms by (auto simp: plan_claim_def Let_def split: option.splits if_splits)

lemma single_probe_step:
  "ranker_step api sha s s' \<Longrightarrow> ranker_inv api sha catalog s \<Longrightarrow> single_probe s \<Longrightarrow> single_probe s'"
proof (induction rule: ranker_step.induct)
  case (step_begin s c ctxErr now policy k ph r)
  then show ?case using plan_begin_probe [OF step_begin(2)] by (intro single_probe_keep) auto
next
  case (step_claim s c policy k base pinned ph r)
  then have kind: "plan_kind base = k" by (blast intro: online_base_kind inv_online)
  from plan_claim_probe [OF step_claim(2) kind, of policy] show ?case
  proof
    assume "inflight r = inflight (shared s) \<and> owns_probe (Some (policy, k, ph)) = None"
    with step_claim show ?thesis by (intro single_probe_keep) auto
  next
    assume "\<not> inflight (shared s) k \<and> inflight r = (inflight (shared s))(k := True) \<and>
      owns_probe (Some (policy, k, ph)) = Some k"
    with step_claim show ?thesis by (intro single_probe_claim) auto
  qed
next
  case (step_waited s c policy k base ctxErr now ph r)
  then show ?case using plan_waited_probe [OF step_waited(2)] by (intro single_probe_keep) auto
next
  case (step_probed s c policy k base t pinned now answer ph r)
  then show ?case using plan_probed_probe [OF step_probed(2)] by (intro single_probe_keep) auto
next
  case (step_release s c policy k k' res ph r)
  then have "k' = k" using inv_phase by fastforce
  with step_release show ?case by (intro single_probe_release) (auto simp: plan_release_def)
next
  case (step_target s k t)
  then show ?case by (auto simp: single_probe_def SetTarget_def)
qed

lemma ranker_reachable_single:
  "ranker_reachable api sha catalog options s \<Longrightarrow> single_probe s"
proof (induction rule: ranker_reachable.induct)
  case (ranker_new r)
  then show ?case using NewRanker_fields [of api catalog options r] by (auto simp: single_probe_def)
qed (blast intro: single_probe_step ranker_reachable_inv)

section \<open>Properties\<close>

lemma orderResults_perm:
  assumes "RankPlan api sha base results pinned = Inr p"
  shows "mset (orderResults p results) = mset results \<and>
    map result_source (orderResults p results) =
      filter (\<lambda>s. s \<in> result_source ` set results) (plan_sources p)"
proof -
  let ?m = "map (\<lambda>r. (key (result_source r), r)) (rev results)"
  note r = RankPlan_Inr [OF assms]
  from assms obtain byKey where l: "results_loop (plan_sources base) [] results = Inr byKey"
    by (auto simp: RankPlan_def bindE_Inr_iff split: if_splits)
  have d: "distinct (map (\<lambda>r. key (result_source r)) results)"
    and sub: "result_source ` set results \<subseteq> set (plan_sources base)"
    using results_loop_map [OF l] by auto
  have base: "distinct (map key (plan_sources base))"
    using validPlan_onlineD [OF r(1,2)] by (auto simp: sources_ok_def)
  have m: "mset (plan_sources p) = mset (plan_sources base)" using ranked_valid [OF assms] by simp
  then have dp: "distinct (map key (plan_sources p))"
    and sp: "set (plan_sources p) = set (plan_sources base)"
    using base by (metis mset_eq_imp_distinct_iff mset_map, metis set_mset_mset)
  have dm: "distinct (map fst ?m)" using d by (simp add: comp_def distinct_rev flip: rev_map)
  have look: "map_of ?m (key s) = Some q \<longleftrightarrow> q \<in> set results \<and> result_source q = s"
    if "s \<in> set (plan_sources p)" for s q
  proof -
    have "map_of ?m (key s) = Some q \<longleftrightarrow> (key s, q) \<in> set ?m"
      using dm by (rule map_of_eq_Some_iff)
    also have "\<dots> \<longleftrightarrow> q \<in> set results \<and> key (result_source q) = key s" by (auto simp: image_iff)
    also have "\<dots> \<longleftrightarrow> q \<in> set results \<and> result_source q = s"
      using dp sp sub that by (auto simp: distinct_map inj_on_def)
    finally show ?thesis .
  qed
  have srcs: "map result_source (orderResults p results) =
      filter (\<lambda>s. s \<in> result_source ` set results) (plan_sources p)"
  proof -
    have "map result_source (List.map_filter (\<lambda>s. map_of ?m (key s)) ss) =
        filter (\<lambda>s. s \<in> result_source ` set results) ss" if "set ss \<subseteq> set (plan_sources p)" for ss
      using that
    proof (induction ss)
      case (Cons s ss)
      then have s: "s \<in> set (plan_sources p)" and IH: "map result_source (List.map_filter
          (\<lambda>s. map_of ?m (key s)) ss) = filter (\<lambda>s. s \<in> result_source ` set results) ss" by auto
      show ?case
      proof (cases "map_of ?m (key s)")
        case None
        then have "s \<notin> result_source ` set results" using look [OF s] by auto
        with None IH show ?thesis by (simp add: List.map_filter_simps)
      next
        case (Some q)
        then have "s \<in> result_source ` set results" "result_source q = s" using look [OF s, of q] by auto
        with Some IH show ?thesis by (simp add: List.map_filter_simps)
      qed
    qed (simp add: List.map_filter_simps)
    then show ?thesis by (simp add: orderResults_def)
  qed
  have "distinct (plan_sources p)" using dp by (simp add: distinct_map)
  then have "distinct (map result_source (orderResults p results))"
    unfolding srcs by simp
  then have "distinct (orderResults p results)" by (simp add: distinct_map)
  moreover have "distinct results" using d by (simp add: distinct_map)
  moreover have "set (orderResults p results) = set results"
  proof -
    have "x \<in> set (orderResults p results) \<longleftrightarrow>
        (\<exists>src \<in> set (plan_sources p). map_of ?m (key src) = Some x)" for x
      by (simp add: orderResults_def in_map_filter)
    then have "x \<in> set (orderResults p results) \<longleftrightarrow> x \<in> set results" for x
      using look sub sp by blast
    then show ?thesis by blast
  qed
  ultimately have "mset (orderResults p results) = mset results"
    by (simp add: set_eq_iff_mset_eq_distinct)
  with srcs show ?thesis by simp
qed

text \<open>C15: in every interleaving, a plan that \<open>Plan\<close> returns is the catalog's own plan when that is
  offline, and otherwise a valid plan of the kind whose sources are a permutation of those of a
  catalog plan with the same seal.\<close>

theorem ranker_plan_sound:
  assumes "ranker_reachable api sha catalog options s"
    and "callers s c = Some (policy, k, PlanDone (Inr p))"
  shows "\<exists>base. BuildPlan api sha catalog policy k = Inr base \<and>
    (if plan_offline base then p = base
     else validPlan api sha p \<and> plan_kind p = k \<and>
       (\<exists>policy' base'. BuildPlan api sha catalog policy' k = Inr base' \<and> Seal base' = Seal base \<and>
          mset (plan_sources p) = mset (plan_sources base')))"
proof -
  have "plan_result_ok api sha catalog policy k p"
    using inv_phase [OF ranker_reachable_inv [OF assms(1)] assms(2)] by simp
  then show ?thesis unfolding plan_result_ok_def from_plan_def by (auto split: if_splits)
qed

text \<open>C16: in every interleaving at most one caller probes a kind, and the kind is marked as being
  probed exactly while some caller does.\<close>

theorem ranker_single_probe:
  assumes "ranker_reachable api sha catalog options s"
  shows "inflight (shared s) k = (\<exists>c. owns_probe (callers s c) = Some k) \<and>
    (owns_probe (callers s c) = Some k \<and> owns_probe (callers s d) = Some k \<longrightarrow> c = d)"
  using ranker_reachable_single [OF assms] unfolding single_probe_def by blast

text \<open>After a probe the ranking fails only for a cancelled or expired context or when the report
  callback fails; otherwise the plan is a permutation of the base plan, and the results of a
  successful ranking are all kept, in the order of the ranked sources.\<close>

theorem probe_and_rank_total:
  assumes "validPlan api sha base"
  shows "case probeAndRank api sha r base pinned answer of
      Inl e \<Rightarrow> report_loop (report r) (plan_kind base) (length (plan_sources base)) 0 (reported answer) \<noteq> None
        \<or> outcome answer = Inl ProbeCanceled \<or> outcome answer = Inl ProbeDeadlineExceeded
    | Inr (p, rs) \<Rightarrow> mset (plan_sources p) = mset (plan_sources base) \<and> validPlan api sha p \<and>
        (case outcome answer of
           Inl e \<Rightarrow> p = base \<and> rs = []
         | Inr results \<Rightarrow> mset rs = mset results \<and>
             (case RankPlan api sha base results pinned of
                Inl e \<Rightarrow> p = base \<and> rs = results
              | Inr q \<Rightarrow> p = q \<and> map result_source rs =
                  filter (\<lambda>src. src \<in> result_source ` set results) (plan_sources p)))"
proof (cases "probeAndRank api sha r base pinned answer")
  case (Inl e)
  then show ?thesis
    by (auto simp: probeAndRank_def split: option.splits sum.splits ProbeFailure.splits)
next
  case (Inr x)
  then obtain p rs where pr: "probeAndRank api sha r base pinned answer = Inr (p, rs)"
    by (cases x) auto
  note valid = probeAndRank_Inr [OF pr assms]
  have quiet: "report_loop (report r) (plan_kind base) (length (plan_sources base)) 0
      (reported answer) = None"
    using pr by (auto simp: probeAndRank_def split: option.splits)
  show ?thesis
  proof (cases "outcome answer")
    case (Inl f)
    with pr quiet have "p = base \<and> rs = []" by (cases f) (simp_all add: probeAndRank_def)
    with valid show ?thesis unfolding pr Inl by simp
  next
    case (Inr results)
    show ?thesis
    proof (cases "RankPlan api sha base results pinned")
      case (Inl e)
      with pr quiet \<open>outcome answer = Inr results\<close> have "p = base" "rs = results"
        by (simp_all add: probeAndRank_def)
      with valid Inl show ?thesis unfolding pr \<open>outcome answer = Inr results\<close> by simp
    next
      case (Inr q)
      with pr quiet \<open>outcome answer = Inr results\<close> have q: "p = q" "rs = orderResults q results"
        by (auto simp: probeAndRank_def)
      have "mset rs = mset results" "map result_source rs =
          filter (\<lambda>src. src \<in> result_source ` set results) (plan_sources q)"
        unfolding q(2) using orderResults_perm [OF Inr] by blast+
      with valid Inr show ?thesis unfolding pr \<open>outcome answer = Inr results\<close>
        by (simp add: \<open>p = q\<close> del: image_iff)
    qed
  qed
qed

definition example_target :: ProbeTarget where
  "example_target = \<lparr>target_kind = KindGit, target_path = ''info/refs'', WindowBytes = 0\<rparr>"

definition example_ranker :: Ranker where
  "example_ranker = \<lparr>ranker_catalog = Some example_catalog, cache = NewProbeCache DefaultProbeCacheTTL,
     report = None, ranked_callback = None, targets = Map.empty, ranker_results = Map.empty,
     inflight = (\<lambda>_. False)\<rparr>"

lemma example_ranker_new:
  "NewRanker letters_api (Some example_catalog) [] = Inr example_ranker"
  "entries (cache example_ranker) k = None"
  using example_catalog_valid by (simp_all add: NewRanker_def example_ranker_def NewProbeCache_def)

text \<open>One caller, without and with a target for its kind.\<close>

lemma example_begin:
  assumes "callers s 0 = None" "ranker_catalog (shared s) = Some example_catalog"
    "cache (shared s) = cache example_ranker"
  shows "ranker_step letters_api id s \<lparr>shared = shared s, callers = (callers s)(0 \<mapsto>
    (example_policy, KindGit, PlanMissed example_plan ''github''))\<rparr>"
proof -
  have pref: "Preferred example_policy KindGit = Some ''github''"
    by (simp add: Preferred_def example_policy_def)
  have "Lookup (cache (shared s)) 0 KindGit sl = (None, cache (shared s))" for sl
    using assms(3) example_ranker_new(2) by (simp add: Lookup_def)
  then have "plan_begin letters_api id None 0 example_policy KindGit (shared s) =
      (PlanMissed example_plan ''github'', shared s)"
    using assms(2) example_plan_built pref
    by (simp add: plan_begin_def example_plan_def make_plan_def)
  with assms(1) show ?thesis by (rule ranker_step.step_begin)
qed

lemma example_reachable_done:
  "ranker_reachable letters_api id (Some example_catalog) []
     \<lparr>shared = example_ranker, callers = Map.empty(0 \<mapsto> (example_policy, KindGit, PlanDone (Inr example_plan)))\<rparr>"
proof -
  let ?s0 = "\<lparr>shared = example_ranker, callers = Map.empty\<rparr>"
  let ?s1 = "\<lparr>shared = example_ranker, callers = Map.empty(0 \<mapsto>
      (example_policy, KindGit, PlanMissed example_plan ''github''))\<rparr>"
  have r0: "ranker_reachable letters_api id (Some example_catalog) [] ?s0"
    using example_ranker_new by (auto intro: ranker_reachable.ranker_new)
  have "ranker_step letters_api id ?s0 ?s1"
    using example_begin [of ?s0] by (simp add: example_ranker_def)
  with r0 have r1: "ranker_reachable letters_api id (Some example_catalog) [] ?s1"
    by (rule ranker_reachable.ranker_next)
  have "plan_claim example_plan ''github'' example_ranker = (PlanDone (Inr example_plan), example_ranker)"
    by (simp add: plan_claim_def example_ranker_def)
  then have "ranker_step letters_api id ?s1
      \<lparr>shared = example_ranker, callers = (callers ?s1)(0 \<mapsto>
        (example_policy, KindGit, PlanDone (Inr example_plan)))\<rparr>"
    by (intro ranker_step.step_claim) auto
  with r1 show ?thesis using ranker_reachable.ranker_next by fastforce
qed

theorem ranker_plan_sound_witness:
  "validPlan letters_api id example_plan \<and>
   (\<exists>base. BuildPlan letters_api id (Some example_catalog) example_policy KindGit = Inr base)"
  using ranker_plan_sound [OF example_reachable_done, of 0 example_policy KindGit example_plan]
    example_plan_valid by auto

lemma example_reachable_probe:
  "\<exists>s. ranker_reachable letters_api id (Some example_catalog) [] s \<and>
     callers s 0 = Some (example_policy, KindGit, PlanProbe example_plan example_target ''github'')"
proof -
  let ?r = "SetTarget KindGit example_target example_ranker"
  let ?s0 = "\<lparr>shared = example_ranker, callers = Map.empty\<rparr>"
  let ?s1 = "\<lparr>shared = ?r, callers = Map.empty\<rparr>"
  let ?s2 = "\<lparr>shared = ?r, callers = Map.empty(0 \<mapsto>
      (example_policy, KindGit, PlanMissed example_plan ''github''))\<rparr>"
  let ?R = "ranker_reachable letters_api id (Some example_catalog) []"
  have "?R ?s0" using example_ranker_new by (auto intro: ranker_reachable.ranker_new)
  moreover have "ranker_step letters_api id ?s0 ?s1"
    using ranker_step.step_target [of letters_api id ?s0 KindGit example_target] by simp
  ultimately have "?R ?s1" by (rule ranker_reachable.ranker_next)
  moreover have "ranker_step letters_api id ?s1 ?s2"
    using example_begin [of ?s1] by (simp add: SetTarget_def example_ranker_def)
  ultimately have r2: "?R ?s2" by (rule ranker_reachable.ranker_next)
  have "plan_claim example_plan ''github'' ?r = (PlanProbe example_plan example_target ''github'',
      ?r\<lparr>inflight := (inflight ?r)(KindGit := True)\<rparr>)"
    by (simp add: plan_claim_def SetTarget_def example_ranker_def example_target_def example_plan_def
        make_plan_def Kind_Valid_def Let_def)
  then have "ranker_step letters_api id ?s2
      \<lparr>shared = ?r\<lparr>inflight := (inflight ?r)(KindGit := True)\<rparr>, callers = (callers ?s2)(0 \<mapsto>
        (example_policy, KindGit, PlanProbe example_plan example_target ''github''))\<rparr>"
    by (intro ranker_step.step_claim) auto
  with r2 show ?thesis using ranker_reachable.ranker_next by fastforce
qed

theorem ranker_single_probe_witness:
  "\<exists>s :: RankerSystem. owns_probe (callers s 0) = Some KindGit \<and> inflight (shared s) KindGit"
proof -
  obtain s where s: "ranker_reachable letters_api id (Some example_catalog) [] s"
    "callers s 0 = Some (example_policy, KindGit, PlanProbe example_plan example_target ''github'')"
    using example_reachable_probe by blast
  have "owns_probe (callers s 0) = Some KindGit" using s(2) by simp
  moreover from this have "inflight (shared s) KindGit"
    using ranker_single_probe [OF s(1), of KindGit] by blast
  ultimately show ?thesis by blast
qed

theorem probe_and_rank_total_witness:
  "probeAndRank letters_api id example_ranker example_plan ''''
     \<lparr>reported = [], outcome = Inl (ProbeFailed ''no route'')\<rparr> = Inr (example_plan, [])"
proof -
  let ?a = "\<lparr>reported = [], outcome = Inl (ProbeFailed ''no route'')\<rparr>"
  show ?thesis
    using probe_and_rank_total [OF example_plan_valid, where r = example_ranker and pinned = "''''"
        and answer = ?a]
    by (cases "probeAndRank letters_api id example_ranker example_plan '''' ?a")
       (auto simp: probeAndRank_def)
qed

end
