(* ===== verification/Mirror_Target.thy ===== *)
theory Mirror_Target
  imports Mirror_Policy Product_Version
begin

text \<open>
  \<open>internal/mirror/target.go\<close>: what an operation fetches, sealed by a fingerprint over all fields.
  SHA-256 is the argument \<open>sha\<close>. The lemmas show that a target that \<open>NewTarget\<close> builds validates,
  is in normal form and is determined by its fingerprint as long as SHA-256 does not collide on the
  two texts that were hashed.
\<close>

section \<open>Model\<close>

record TargetSpec =
  ProductVersion :: string
  ReleaseBranch :: string
  UVVersion :: string
  PythonVersion :: string
  LockDigest :: string

record Target =
  productVersion :: string
  releaseBranch :: string
  uvVersion :: string
  pythonVersion :: string
  lockDigest :: string
  fingerprint :: string

datatype TargetError =
    TargetEmpty | TargetVersionField | TargetProductVersion | TargetReleaseBranch | TargetLockDigest
  | TargetInvariant | TargetGit | TargetUV | TargetPython | TargetPackageIndex

definition version_char :: "char \<Rightarrow> bool" where
  "version_char c \<longleftrightarrow> is_lower c \<or> is_upper c \<or> is_digit c \<or> c = CHR ''.'' \<or> c = CHR ''-'' \<or> c = CHR ''_''"

definition validVersionValue :: "string \<Rightarrow> bool" where
  "validVersionValue v =
     (if length v = 0 \<or> length v > 128 \<or> contains v ''..'' \<or> contains v [CHR ''@'', CHR 0x7B] \<or>
         has_suffix v ''.'' \<or> has_suffix v ''.lock'' then False
      else list_all version_char v)"

text \<open>\<open>hex.DecodeString\<close> accepts an even number of digits of either case.\<close>

definition hex_char :: "char \<Rightarrow> bool" where
  "hex_char c \<longleftrightarrow> is_digit c \<or> (CHR ''a'' \<le> c \<and> c \<le> CHR ''f'') \<or> (CHR ''A'' \<le> c \<and> c \<le> CHR ''F'')"

definition hex_decodes :: "string \<Rightarrow> bool" where
  "hex_decodes s \<longleftrightarrow> even (length s) \<and> list_all hex_char s"

definition branch_rejected :: "string \<Rightarrow> bool" where
  "branch_rejected b \<longleftrightarrow>
     (if b \<noteq> '''' then
        (if b \<noteq> ''dev'' \<and> \<not> has_prefix b ''release/'' then True
         else b \<noteq> ''dev'' \<and> (\<not> validVersionValue (trim_prefix b ''release/'') \<or>
            \<not> has_prefix (trim_prefix b ''release/'') ''v''))
      else False)"

definition normalizeTargetSpec :: "TargetSpec \<Rightarrow> TargetError + TargetSpec" where
  "normalizeTargetSpec spec =
     (if ProductVersion spec = '''' \<and> ReleaseBranch spec = '''' \<and> UVVersion spec = '''' \<and>
         PythonVersion spec = '''' \<and> LockDigest spec = '''' then Inl TargetEmpty
      else if list_ex (\<lambda>v. v \<noteq> '''' \<and> \<not> validVersionValue v)
                [ProductVersion spec, UVVersion spec, PythonVersion spec] then Inl TargetVersionField
      else if ProductVersion spec \<noteq> '''' \<and> \<not> has_prefix (ProductVersion spec) ''v''
        then Inl TargetProductVersion
      else if branch_rejected (ReleaseBranch spec) then Inl TargetReleaseBranch
      else if LockDigest spec \<noteq> '''' then
        (if length (LockDigest spec) \<noteq> 64 then Inl TargetLockDigest
         else if \<not> hex_decodes (LockDigest spec) then Inl TargetLockDigest
         else Inr (spec\<lparr>LockDigest := ascii_lower (LockDigest spec)\<rparr>))
      else Inr spec)"

definition canonical_lines :: "TargetSpec \<Rightarrow> string list" where
  "canonical_lines spec =
     [''product-version='' @ ProductVersion spec, ''release-branch='' @ ReleaseBranch spec,
      ''uv-version='' @ UVVersion spec, ''python-version='' @ PythonVersion spec,
      ''lock-digest='' @ LockDigest spec]"

definition canonical_target :: "TargetSpec \<Rightarrow> string" where
  "canonical_target spec = join_with (CHR 0x0A) (canonical_lines spec)"

definition targetFingerprint :: "sha256 \<Rightarrow> TargetSpec \<Rightarrow> string" where
  "targetFingerprint sha spec = hex_encode (sha (canonical_target spec))"

definition NewTarget :: "sha256 \<Rightarrow> TargetSpec \<Rightarrow> TargetError + Target" where
  "NewTarget sha spec =
     bindE (normalizeTargetSpec spec) (\<lambda>n. Inr
       \<lparr>productVersion = ProductVersion n, releaseBranch = ReleaseBranch n, uvVersion = UVVersion n,
        pythonVersion = PythonVersion n, lockDigest = LockDigest n,
        fingerprint = targetFingerprint sha n\<rparr>)"

definition target_spec :: "Target \<Rightarrow> TargetSpec" where
  "target_spec t =
     \<lparr>ProductVersion = productVersion t, ReleaseBranch = releaseBranch t, UVVersion = uvVersion t,
      PythonVersion = pythonVersion t, LockDigest = lockDigest t\<rparr>"

definition validateTarget :: "sha256 \<Rightarrow> Target \<Rightarrow> TargetError option" where
  "validateTarget sha t =
     (case normalizeTargetSpec (target_spec t) of
        Inl e \<Rightarrow> Some TargetInvariant
      | Inr spec \<Rightarrow>
          if productVersion t \<noteq> ProductVersion spec \<or> releaseBranch t \<noteq> ReleaseBranch spec \<or>
             uvVersion t \<noteq> UVVersion spec \<or> pythonVersion t \<noteq> PythonVersion spec \<or>
             lockDigest t \<noteq> LockDigest spec \<or> fingerprint t = '''' \<or>
             fingerprint t \<noteq> targetFingerprint sha spec then Some TargetInvariant
          else None)"

definition ValidateForKind :: "sha256 \<Rightarrow> Target \<Rightarrow> Kind \<Rightarrow> TargetError option" where
  "ValidateForKind sha t k =
     (if \<not> Kind_Valid k \<or> validateTarget sha t \<noteq> None then Some TargetInvariant
      else if k = KindGit then
        (if productVersion t = '''' \<or> releaseBranch t \<noteq> ProductBranch (productVersion t)
         then Some TargetGit else None)
      else if k = KindUV then (if uvVersion t = '''' then Some TargetUV else None)
      else if k = KindPython then (if pythonVersion t = '''' then Some TargetPython else None)
      else if k = KindPackageIndex then (if lockDigest t = '''' then Some TargetPackageIndex else None)
      else None)"

section \<open>Normal form\<close>

lemma lower_hex_byte:
  "hex_char c \<Longrightarrow> hex_char (if is_upper c then char_of (of_char c + (32::nat)) else c) \<and>
     \<not> is_upper (if is_upper c then char_of (of_char c + (32::nat)) else c)"
  using code_of_def [of c] by (auto simp: hex_char_def is_upper_def is_digit_def byte_codes)

lemma ascii_lower_hexs: "list_all hex_char s \<Longrightarrow> list_all (\<lambda>c. hex_char c \<and> \<not> is_upper c) (ascii_lower s)"
  using lower_hex_byte unfolding ascii_lower_def list_all_iff set_map by blast

lemma ascii_lower_id: "list_all (\<lambda>c. hex_char c \<and> \<not> is_upper c) s \<Longrightarrow> ascii_lower s = s"
  by (auto simp: ascii_lower_def list_all_iff intro!: map_idI)

lemma normalize_normal:
  assumes "normalizeTargetSpec spec = Inr n"
  shows "normalizeTargetSpec n = Inr n"
proof (cases "LockDigest spec = ''''")
  case True
  with assms have "n = spec" by (auto simp: normalizeTargetSpec_def split: if_splits)
  with assms show ?thesis by simp
next
  case False
  with assms have n: "n = spec\<lparr>LockDigest := ascii_lower (LockDigest spec)\<rparr>"
    and len: "length (LockDigest spec) = 64" and hexd: "list_all hex_char (LockDigest spec)"
    by (auto simp: normalizeTargetSpec_def hex_decodes_def split: if_splits)
  let ?d = "ascii_lower (LockDigest spec)"
  have d: "length ?d = 64" "list_all (\<lambda>c. hex_char c \<and> \<not> is_upper c) ?d"
    using len ascii_lower_hexs [OF hexd] by (simp_all add: ascii_lower_def)
  then have dd: "?d \<noteq> ''''" "hex_decodes ?d" "ascii_lower ?d = ?d"
    using ascii_lower_id [OF d(2)] by (auto simp: hex_decodes_def list_all_iff)
  from assms False len have "\<not> list_ex (\<lambda>v. v \<noteq> '''' \<and> \<not> validVersionValue v)
      [ProductVersion spec, UVVersion spec, PythonVersion spec]"
    "\<not> (ProductVersion spec \<noteq> '''' \<and> \<not> has_prefix (ProductVersion spec) ''v'')"
    "\<not> branch_rejected (ReleaseBranch spec)"
    by (auto simp: normalizeTargetSpec_def split: if_splits)
  with d(1) dd show ?thesis unfolding n normalizeTargetSpec_def by simp
qed

lemma NewTarget_Inr:
  "NewTarget sha spec = Inr t \<longleftrightarrow>
   normalizeTargetSpec spec = Inr (target_spec t) \<and> fingerprint t = targetFingerprint sha (target_spec t)"
proof -
  have spec: "\<lparr>ProductVersion = ProductVersion a, ReleaseBranch = ReleaseBranch a, UVVersion = UVVersion a,
      PythonVersion = PythonVersion a, LockDigest = LockDigest a\<rparr> = a" for a :: TargetSpec by simp
  show ?thesis
  proof (cases "normalizeTargetSpec spec")
    case (Inr a)
    then show ?thesis
      by (cases t; cases a) (auto simp: NewTarget_def target_spec_def)
  qed (simp add: NewTarget_def)
qed

section \<open>The text that is hashed\<close>

lemma split_join:
  "ws \<noteq> [] \<Longrightarrow> \<forall>w \<in> set ws. d \<notin> set w \<Longrightarrow> split_on d (join_with d ws) = ws"
proof (induction ws)
  case (Cons w ws)
  then show ?case by (cases ws) (auto simp: split_on_no split_on_append)
qed simp

lemma hex_digit_inject: "a < 16 \<Longrightarrow> b < 16 \<Longrightarrow> hex_digit a = hex_digit b \<Longrightarrow> a = b"
proof -
  have "distinct ''0123456789abcdef''" "length ''0123456789abcdef'' = 16" by simp_all
  then show "a < 16 \<Longrightarrow> b < 16 \<Longrightarrow> hex_digit a = hex_digit b \<Longrightarrow> a = b"
    unfolding hex_digit_def by (metis nth_eq_iff_index_eq)
qed

lemma hex_encode_inject: "hex_encode a = hex_encode b \<Longrightarrow> a = b"
proof (induction a arbitrary: b)
  case Nil
  then show ?case by (metis hex_encode_empty)
next
  case (Cons c cs)
  then obtain d ds where b: "b = d # ds" by (cases b) auto
  have lt: "(of_char x :: nat) div 16 < 16" for x
    using nat_of_char_less_256 [of x] by linarith
  from Cons.prems b have "(of_char c :: nat) div 16 = of_char d div 16"
    and "(of_char c :: nat) mod 16 = of_char d mod 16"
    using hex_digit_inject lt by auto
  then have "(of_char c :: nat) = of_char d" by (metis div_mult_mod_eq)
  with Cons b show ?case by simp
qed

lemma version_no_newline: "validVersionValue v \<Longrightarrow> CHR 0x0A \<notin> set v"
proof -
  have "\<not> version_char (CHR 0x0A)" by code_simp
  then show "validVersionValue v \<Longrightarrow> CHR 0x0A \<notin> set v"
    by (auto simp: validVersionValue_def list_all_iff split: if_splits)
qed

lemma branch_no_newline: "\<not> branch_rejected b \<Longrightarrow> CHR 0x0A \<notin> set b"
proof (cases "b = '''' \<or> b = ''dev''")
  case False
  assume "\<not> branch_rejected b"
  with False have "has_prefix b ''release/''" "validVersionValue (trim_prefix b ''release/'')"
    unfolding branch_rejected_def by argo+
  then obtain v where "b = ''release/'' @ v" "validVersionValue v"
    unfolding has_prefix_def prefix_def by (metis trim_prefix_append)
  then show ?thesis using version_no_newline by auto
qed auto

lemma normal_no_newline:
  assumes "normalizeTargetSpec spec = Inr n"
  shows "CHR 0x0A \<notin> set (ProductVersion n) \<and> CHR 0x0A \<notin> set (ReleaseBranch n) \<and>
    CHR 0x0A \<notin> set (UVVersion n) \<and> CHR 0x0A \<notin> set (PythonVersion n) \<and> CHR 0x0A \<notin> set (LockDigest n)"
proof -
  have n: "normalizeTargetSpec n = Inr n" by (rule normalize_normal [OF assms])
  have "\<not> hex_char (CHR 0x0A)" by code_simp
  then have "CHR 0x0A \<notin> set (LockDigest n)"
    using n by (auto simp: normalizeTargetSpec_def hex_decodes_def list_all_iff split: if_splits)
  moreover have "v = '''' \<or> validVersionValue v"
    if "v \<in> {ProductVersion n, UVVersion n, PythonVersion n}" for v
    using n that by (auto simp: normalizeTargetSpec_def split: if_splits)
  then have "CHR 0x0A \<notin> set v" if "v \<in> {ProductVersion n, UVVersion n, PythonVersion n}" for v
    using that version_no_newline [of v] by force
  moreover have "\<not> branch_rejected (ReleaseBranch n)"
    using n by (auto simp: normalizeTargetSpec_def split: if_splits)
  ultimately show ?thesis using branch_no_newline by blast
qed

lemma canonical_lines_split:
  "normalizeTargetSpec spec = Inr n \<Longrightarrow> split_on (CHR 0x0A) (canonical_target n) = canonical_lines n"
  unfolding canonical_target_def using normal_no_newline [of spec n]
  by (intro split_join) (auto simp: canonical_lines_def)

lemma canonical_lines_inject: "canonical_lines m = canonical_lines n \<Longrightarrow> m = n"
  by (cases m; cases n) (simp add: canonical_lines_def)

section \<open>Properties\<close>

text \<open>a target built by \<open>NewTarget\<close> passes its own validation, keeps every field of its
  specification except that the lock digest is in lower case, and has a fingerprint of 64 digits.\<close>

theorem new_target_valid:
  assumes "NewTarget sha spec = Inr t" "\<And>x. length (sha x) = 32"
  shows "validateTarget sha t = None \<and>
    target_spec t = spec\<lparr>LockDigest := ascii_lower (LockDigest spec)\<rparr> \<and>
    length (fingerprint t) = 64 \<and> NewTarget sha (target_spec t) = Inr t"
proof -
  from assms(1) have n: "normalizeTargetSpec spec = Inr (target_spec t)"
    and f: "fingerprint t = targetFingerprint sha (target_spec t)" by (simp_all add: NewTarget_Inr)
  have nn: "normalizeTargetSpec (target_spec t) = Inr (target_spec t)" by (rule normalize_normal [OF n])
  have len: "length (fingerprint t) = 64" unfolding f targetFingerprint_def using assms(2) by simp
  then have "fingerprint t \<noteq> ''''" by auto
  then have "validateTarget sha t = None"
    unfolding validateTarget_def nn using f by (simp add: target_spec_def)
  moreover have "target_spec t = spec\<lparr>LockDigest := ascii_lower (LockDigest spec)\<rparr>"
    using n by (auto simp: normalizeTargetSpec_def ascii_lower_def split: if_splits)
  ultimately show ?thesis using len nn f by (simp add: NewTarget_Inr)
qed

definition example_target_spec :: TargetSpec where
  "example_target_spec =
     \<lparr>ProductVersion = ''v1.2.3-alpha.4'', ReleaseBranch = ''dev'', UVVersion = '''',
      PythonVersion = '''', LockDigest = ''''\<rparr>"

definition example_sha :: sha256 where
  "example_sha s = replicate 32 (if s = [] then CHR ''b'' else CHR ''a'')"

definition example_git_target :: Target where
  "example_git_target =
     \<lparr>productVersion = ''v1.2.3-alpha.4'', releaseBranch = ''dev'', uvVersion = '''',
      pythonVersion = '''', lockDigest = '''',
      fingerprint = targetFingerprint example_sha example_target_spec\<rparr>"

lemma example_target_built: "NewTarget example_sha example_target_spec = Inr example_git_target"
proof -
  have "normalizeTargetSpec example_target_spec = Inr example_target_spec" by code_simp
  then show ?thesis by (simp add: NewTarget_Inr example_git_target_def target_spec_def
      example_target_spec_def)
qed

theorem new_target_valid_witness:
  "validateTarget example_sha example_git_target = None \<and> length (fingerprint example_git_target) = 64"
  using new_target_valid [OF example_target_built] by (simp add: example_sha_def)

text \<open>the fingerprint binds every field: two targets that were built with the same fingerprint
  are equal, if SHA-256 does not collide on their two canonical texts.\<close>

theorem target_fingerprint_binds:
  assumes "NewTarget sha s1 = Inr t1" "NewTarget sha s2 = Inr t2"
    and "sha (canonical_target (target_spec t1)) = sha (canonical_target (target_spec t2)) \<Longrightarrow>
      canonical_target (target_spec t1) = canonical_target (target_spec t2)"
    and "fingerprint t1 = fingerprint t2"
  shows "t1 = t2"
proof -
  have n1: "normalizeTargetSpec s1 = Inr (target_spec t1)" and n2: "normalizeTargetSpec s2 = Inr (target_spec t2)"
    and "hex_encode (sha (canonical_target (target_spec t1))) =
      hex_encode (sha (canonical_target (target_spec t2)))"
    using assms(1,2,4) by (simp_all add: NewTarget_Inr targetFingerprint_def)
  then have "canonical_target (target_spec t1) = canonical_target (target_spec t2)"
    using assms(3) hex_encode_inject by blast
  then have "canonical_lines (target_spec t1) = canonical_lines (target_spec t2)"
    using canonical_lines_split [OF n1] canonical_lines_split [OF n2] by simp
  then have "target_spec t1 = target_spec t2" by (rule canonical_lines_inject)
  with assms(4) show ?thesis by (cases t1; cases t2) (simp add: target_spec_def)
qed

definition example_lock_spec :: "char \<Rightarrow> TargetSpec" where
  "example_lock_spec c =
     \<lparr>ProductVersion = '''', ReleaseBranch = '''', UVVersion = '''', PythonVersion = '''',
      LockDigest = replicate 64 c\<rparr>"

definition example_lock_target :: Target where
  "example_lock_target =
     \<lparr>productVersion = '''', releaseBranch = '''', uvVersion = '''', pythonVersion = '''',
      lockDigest = replicate 64 (CHR ''a''),
      fingerprint = targetFingerprint id (example_lock_spec (CHR ''a''))\<rparr>"

text \<open>The same digest in upper and in lower case.\<close>

lemma example_lock_targets:
  "NewTarget id (example_lock_spec (CHR ''A'')) = Inr example_lock_target"
  "NewTarget id (example_lock_spec (CHR ''a'')) = Inr example_lock_target"
proof -
  have n: "normalizeTargetSpec (example_lock_spec (CHR ''A'')) = Inr (example_lock_spec (CHR ''a''))"
    "normalizeTargetSpec (example_lock_spec (CHR ''a'')) = Inr (example_lock_spec (CHR ''a''))"
    by code_simp+
  show "NewTarget id (example_lock_spec (CHR ''A'')) = Inr example_lock_target"
    "NewTarget id (example_lock_spec (CHR ''a'')) = Inr example_lock_target"
    unfolding NewTarget_Inr n
    by (simp_all add: example_lock_target_def target_spec_def example_lock_spec_def)
qed

theorem target_fingerprint_binds_witness:
  "projr (NewTarget id (example_lock_spec (CHR ''A''))) = projr (NewTarget id (example_lock_spec (CHR ''a'')))"
  using target_fingerprint_binds [OF example_lock_targets]
  unfolding example_lock_targets by simp

text \<open>A value accepted as a version can be used as one component of a path and of a Git reference
  name: it is not empty, has at most 128 bytes, none of them a separator, a control byte or a
  revision operator, it is not \<open>..\<close> and does not end in \<open>.\<close> or \<open>.lock\<close>.\<close>

theorem version_value_safe:
  assumes "validVersionValue v"
  shows "0 < length v \<and> length v \<le> 128 \<and> \<not> contains v ''..'' \<and> \<not> has_suffix v ''.'' \<and>
    \<not> has_suffix v ''.lock'' \<and>
    list_all (\<lambda>c. CHR '' '' < c \<and> c < CHR 0x7F \<and> c \<notin> set ''/:{@}~^?*[<>|'' \<and> c \<noteq> CHR 0x5C) v"
proof -
  have "version_char c \<Longrightarrow>
      CHR '' '' < c \<and> c < CHR 0x7F \<and> c \<notin> set ''/:{@}~^?*[<>|'' \<and> c \<noteq> CHR 0x5C" for c
    by (auto simp: version_char_def is_lower_def is_upper_def is_digit_def byte_codes)
  then have "list_all version_char v \<Longrightarrow>
      list_all (\<lambda>c. CHR '' '' < c \<and> c < CHR 0x7F \<and> c \<notin> set ''/:{@}~^?*[<>|'' \<and> c \<noteq> CHR 0x5C) v"
    unfolding list_all_iff by blast
  with assms show ?thesis unfolding validVersionValue_def by (simp split: if_split_asm)
qed

theorem version_value_safe_witness: "length ''0.12.3'' \<le> 128"
  using version_value_safe [of "''0.12.3''"] by (simp add: validVersionValue_def)

end
