(* ===== verification/Mirror_Rotation.thy ===== *)
theory Mirror_Rotation
  imports Mirror_Target
begin

text \<open>
  \<open>internal/mirror/report.go\<close> and \<open>rotation.go\<close>: the finite attempts over the sources of a plan. What
  the attempt function, the reporter, the clock, the wait and the context answer is the record
  \<open>World\<close>: the attempt and the report carry the number of the try, so each call may answer
  differently. The context may end at every point where the code looks at it. Error values keep
  their kind and their causes; their texts are left out. The lemmas relate the reports of a run to
  a replay of the plan: which source may be tried next, and how often.
\<close>

section \<open>Outcomes and reports\<close>

type_synonym OutcomeKind = string

abbreviation "OutcomeSucceeded \<equiv> ''succeeded''"
abbreviation "OutcomeRetrySameSource \<equiv> ''retry_same_source''"
abbreviation "OutcomeSwitchSource \<equiv> ''switch_source''"
abbreviation "OutcomeIntegrityFailure \<equiv> ''integrity_failure''"
abbreviation "OutcomeTargetFailure \<equiv> ''target_failure''"
abbreviation "OutcomeCancelled \<equiv> ''cancelled''"

definition OutcomeKind_Valid :: "OutcomeKind \<Rightarrow> bool" where
  "OutcomeKind_Valid k \<longleftrightarrow>
     k \<in> set [OutcomeSucceeded, OutcomeRetrySameSource, OutcomeSwitchSource,
       OutcomeIntegrityFailure, OutcomeTargetFailure, OutcomeCancelled]"

text \<open>The same scan as for source keys, with underscores.\<close>

definition FailureKind_Valid :: "string \<Rightarrow> bool" where
  "FailureKind_Valid k =
     (if length k = 0 \<or> length k > 64 then False else slug_scan (CHR ''_'') 0 (length k) False k)"

record Attempt =
  attempt_source :: Source
  attempt_target :: Target
  SourceTry :: int
  GlobalTry :: int

record AttemptOutcome =
  outcome_kind :: OutcomeKind
  outcome_failure :: string
  outcome_commit :: string
  outcome_err :: "string option"

record AttemptReport =
  report_kind :: Kind
  report_key :: string
  report_sourceTry :: int
  report_globalTry :: int
  report_target :: Target
  TargetHash :: string
  StartedAt :: int
  Duration :: int
  Outcome :: OutcomeKind
  report_failure :: string
  report_error :: string
  report_commit :: string

definition attemptErrorText :: "AttemptOutcome \<Rightarrow> string" where
  "attemptErrorText oc =
     (if outcome_err oc = None then ''''
      else if FailureKind_Valid (outcome_failure oc) then ''attempt failed: '' @ outcome_failure oc
      else ''attempt failed'')"

definition buildAttemptReport :: "Attempt \<Rightarrow> int \<Rightarrow> int \<Rightarrow> AttemptOutcome \<Rightarrow> AttemptReport" where
  "buildAttemptReport a started finished oc =
     \<lparr>report_kind = kind (attempt_source a), report_key = key (attempt_source a),
      report_sourceTry = SourceTry a, report_globalTry = GlobalTry a,
      report_target = attempt_target a, TargetHash = fingerprint (attempt_target a),
      StartedAt = started, Duration = (if finished - started < 0 then 0 else finished - started),
      Outcome = outcome_kind oc, report_failure = outcome_failure oc,
      report_error = attemptErrorText oc, report_commit = outcome_commit oc\<rparr>"

definition validGitCommit :: "string \<Rightarrow> bool" where
  "validGitCommit c =
     (if length c \<noteq> 40 then False
      else list_all (\<lambda>x. is_digit x \<or> (CHR ''a'' \<le> x \<and> x \<le> CHR ''f'')) c)"

datatype OutcomeError = BadOutcomeKind | BadSuccess | BadFailure | BadDiagnostic

definition validateAttemptOutcome :: "Kind \<Rightarrow> AttemptOutcome \<Rightarrow> OutcomeError option" where
  "validateAttemptOutcome k oc =
     (if \<not> OutcomeKind_Valid (outcome_kind oc) \<or> outcome_kind oc = OutcomeCancelled
        then Some BadOutcomeKind
      else if outcome_kind oc = OutcomeSucceeded then
        (if outcome_err oc \<noteq> None \<or> outcome_failure oc \<noteq> '''' \<or>
            (k = KindGit \<and> \<not> validGitCommit (outcome_commit oc)) \<or>
            (k \<noteq> KindGit \<and> outcome_commit oc \<noteq> '''') then Some BadSuccess else None)
      else if outcome_err oc = None \<or> outcome_commit oc \<noteq> '''' then Some BadFailure
      else if \<not> FailureKind_Valid (outcome_failure oc) then Some BadDiagnostic
      else None)"

section \<open>Errors\<close>

datatype safeErrorKind =
    safeErrorCancellation | safeErrorAttemptContract | safeErrorReporter | safeErrorWait
  | safeErrorTarget | safeErrorAttempt | safeErrorOption

text \<open>The leaves of the error tree that the code builds with \<open>errors.Join\<close>, which drops nil.\<close>

datatype Cause =
    ContextCause string
  | OutcomeCause OutcomeError
  | CallbackCause string
  | ReporterCause safeErrorKind string
  | WaitCause string
  | TargetChanged

datatype RotationFailure =
    InvalidRotationRequest
  | SafeError safeErrorKind "Cause list"
  | NetworkUnavailable
  | MirrorExhausted "AttemptReport list" "Cause list"
  | IntegrityExhausted "AttemptReport list" "Cause list"

definition causes_of :: "('a \<Rightarrow> Cause) \<Rightarrow> 'a option \<Rightarrow> Cause list" where
  "causes_of f x = (case x of None \<Rightarrow> [] | Some a \<Rightarrow> [f a])"

record RotationResult =
  rotation_source :: Source
  ActualCommit :: string
  Reports :: "AttemptReport list"

definition failedRotationResult :: "AttemptReport list \<Rightarrow> RotationResult" where
  "failedRotationResult rs = \<lparr>rotation_source = zero_source, ActualCommit = '''', Reports = rs\<rparr>"

section \<open>The rotator\<close>

abbreviation defaultMaxSourceAttempts :: int where "defaultMaxSourceAttempts \<equiv> 2"
abbreviation defaultRetryDelay :: int where "defaultRetryDelay \<equiv> 250000000"
abbreviation maxSourceAttemptsLimit :: int where "maxSourceAttemptsLimit \<equiv> 16"

text \<open>\<open>has_reporter\<close> tells whether a reporter is set; clock and wait are never nil in an accepted
  rotator and live in \<open>World\<close>.\<close>

record Rotator =
  has_reporter :: bool
  maxSourceAttempts :: int
  retryDelay :: int

record rotationOptions =
  configured :: Rotator
  clockSet :: bool
  waitSet :: bool
  reporterSet :: bool
  attemptsSet :: bool
  retryDelaySet :: bool

datatype RotationOptionError = NilRotationOption | BadRotationOption | BadFinalValues

text \<open>An option with its argument; the boolean tells that a function or reporter is nil.\<close>

datatype RotationOption =
    NilOptionFunc
  | WithRotatorClock bool
  | WithRotatorWait bool
  | WithAttemptReporter bool
  | WithMaxSourceAttempts int
  | WithRetryDelay int

fun apply_rotation_option :: "RotationOption \<Rightarrow> rotationOptions \<Rightarrow> RotationOptionError + rotationOptions" where
  "apply_rotation_option NilOptionFunc p = Inl NilRotationOption"
| "apply_rotation_option (WithRotatorClock isNil) p =
     (if isNil \<or> clockSet p then Inl BadRotationOption else Inr (p\<lparr>clockSet := True\<rparr>))"
| "apply_rotation_option (WithRotatorWait isNil) p =
     (if isNil \<or> waitSet p then Inl BadRotationOption else Inr (p\<lparr>waitSet := True\<rparr>))"
| "apply_rotation_option (WithAttemptReporter isNil) p =
     (if isNil \<or> reporterSet p then Inl BadRotationOption
      else Inr (p\<lparr>configured := (configured p)\<lparr>has_reporter := True\<rparr>, reporterSet := True\<rparr>))"
| "apply_rotation_option (WithMaxSourceAttempts n) p =
     (if n < 1 \<or> n > maxSourceAttemptsLimit \<or> attemptsSet p then Inl BadRotationOption
      else Inr (p\<lparr>configured := (configured p)\<lparr>maxSourceAttempts := n\<rparr>, attemptsSet := True\<rparr>))"
| "apply_rotation_option (WithRetryDelay d) p =
     (if d \<le> 0 \<or> retryDelaySet p then Inl BadRotationOption
      else Inr (p\<lparr>configured := (configured p)\<lparr>retryDelay := d\<rparr>, retryDelaySet := True\<rparr>))"

fun apply_rotation_options ::
  "RotationOption list \<Rightarrow> rotationOptions \<Rightarrow> RotationOptionError + rotationOptions" where
  "apply_rotation_options [] p = Inr p"
| "apply_rotation_options (a # as) p = bindE (apply_rotation_option a p) (apply_rotation_options as)"

definition validRotator :: "Rotator \<Rightarrow> bool" where
  "validRotator r \<longleftrightarrow>
     maxSourceAttempts r \<ge> 1 \<and> maxSourceAttempts r \<le> maxSourceAttemptsLimit \<and> retryDelay r > 0"

definition NewRotator :: "RotationOption list \<Rightarrow> RotationOptionError + Rotator" where
  "NewRotator options =
     bindE (apply_rotation_options options
        \<lparr>configured = \<lparr>has_reporter = False, maxSourceAttempts = defaultMaxSourceAttempts,
           retryDelay = defaultRetryDelay\<rparr>,
         clockSet = False, waitSet = False, reporterSet = False, attemptsSet = False,
         retryDelaySet = False\<rparr>) (\<lambda>p.
      if \<not> validRotator (configured p) then Inl BadFinalValues else Inr (configured p))"

section \<open>A run\<close>

text \<open>The points of a try where the code looks at the context.\<close>

datatype CtxPoint = AtEntry | BeforeTry | BeforeReport | AfterReport | AfterWait

datatype ReportAnswer = Reported | ReportContextMissing | ReportFails string

record World =
  ctxErr :: "CtxPoint \<Rightarrow> int \<Rightarrow> string option"
  clock :: "bool \<Rightarrow> int \<Rightarrow> int"
  attemptFn :: "Attempt \<Rightarrow> AttemptOutcome"
  reporterFn :: "AttemptReport \<Rightarrow> ReportAnswer"
  waitFn :: "int \<Rightarrow> int \<Rightarrow> string option"

definition reportAttempt :: "Rotator \<Rightarrow> World \<Rightarrow> AttemptReport \<Rightarrow> (safeErrorKind \<times> string) option" where
  "reportAttempt r w rep =
     (if \<not> has_reporter r then None
      else case reporterFn w rep of
             Reported \<Rightarrow> None
           | ReportContextMissing \<Rightarrow> Some (safeErrorAttemptContract, ''context'')
           | ReportFails e \<Rightarrow> Some (safeErrorReporter, e))"

text \<open>The variables of the loop.\<close>

record RotationState =
  reports :: "AttemptReport list"
  causes :: "Cause list"
  blacklisted :: "string set"
  hadIntegrityFailure :: bool
  globalTry :: int

text \<open>How the body of the inner loop ends: \<open>Run\<close> returns, the next try of the source follows, or
  the source is left.\<close>

datatype TryEnd =
    Finish "RotationResult \<times> RotationFailure option"
  | Again RotationState
  | LeaveSource RotationState

definition zero_outcome :: AttemptOutcome where
  "zero_outcome = \<lparr>outcome_kind = '''', outcome_failure = '''', outcome_commit = '''', outcome_err = None\<rparr>"

definition current_attempt :: "Target \<Rightarrow> Source \<Rightarrow> int \<Rightarrow> RotationState \<Rightarrow> Attempt" where
  "current_attempt t s sourceTry st =
     \<lparr>attempt_source = s, attempt_target = t, SourceTry = sourceTry, GlobalTry = globalTry st + 1\<rparr>"

text \<open>The outcome that is reported: a cancelled one when the context has ended, an empty one when
  the attempt broke its contract.\<close>

definition reported_outcome :: "World \<Rightarrow> Kind \<Rightarrow> int \<Rightarrow> AttemptOutcome \<Rightarrow> AttemptOutcome" where
  "reported_outcome w k n oc =
     (let outcomeErr = validateAttemptOutcome k oc;
          legalSuccess = (outcomeErr = None \<and> outcome_kind oc = OutcomeSucceeded);
          rep = (if outcomeErr \<noteq> None then zero_outcome\<lparr>outcome_err := outcome_err oc\<rparr> else oc)
      in if legalSuccess then rep
         else case ctxErr w BeforeReport n of
                None \<Rightarrow> rep
              | Some e \<Rightarrow> zero_outcome\<lparr>outcome_kind := OutcomeCancelled, outcome_err := Some e\<rparr>)"

text \<open>The \<open>switch\<close> over a legal failure.\<close>

definition after_failure ::
  "Rotator \<Rightarrow> World \<Rightarrow> Source \<Rightarrow> int \<Rightarrow> AttemptOutcome \<Rightarrow> RotationState \<Rightarrow> TryEnd" where
  "after_failure r w s sourceTry oc st =
     (if outcome_kind oc = OutcomeRetrySameSource then
        (if sourceTry = maxSourceAttempts r then LeaveSource st
         else
           (let waitErr = waitFn w (globalTry st) (retryDelay r) in
            case ctxErr w AfterWait (globalTry st) of
              Some e \<Rightarrow> Finish (failedRotationResult (reports st), Some (SafeError safeErrorCancellation
                  (ContextCause e # causes st @ causes_of WaitCause waitErr)))
            | None \<Rightarrow>
                (case waitErr of
                   Some e \<Rightarrow> Finish (failedRotationResult (reports st), Some (SafeError safeErrorWait
                       (causes st @ [WaitCause e])))
                 | None \<Rightarrow> Again st)))
      else if outcome_kind oc = OutcomeSwitchSource then LeaveSource st
      else if outcome_kind oc = OutcomeIntegrityFailure then
        LeaveSource (st\<lparr>hadIntegrityFailure := True, blacklisted := insert (key s) (blacklisted st)\<rparr>)
      else if outcome_kind oc = OutcomeTargetFailure then
        Finish (failedRotationResult (reports st), Some (SafeError safeErrorTarget
          (causes_of CallbackCause (outcome_err oc))))
      else Again st)"

definition one_try ::
  "sha256 \<Rightarrow> Rotator \<Rightarrow> World \<Rightarrow> Kind \<Rightarrow> Target \<Rightarrow> Source \<Rightarrow> int \<Rightarrow> RotationState \<Rightarrow> TryEnd" where
  "one_try sha r w k t s sourceTry st =
     (case ctxErr w BeforeTry (globalTry st + 1) of
        Some e \<Rightarrow> Finish (failedRotationResult (reports st),
            Some (SafeError safeErrorCancellation [ContextCause e]))
      | None \<Rightarrow>
          if validateTarget sha t \<noteq> None \<or> fingerprint t = '''' then
            Finish (failedRotationResult (reports st), Some (SafeError safeErrorTarget [TargetChanged]))
          else
            (let n = globalTry st + 1;
                 attempt = current_attempt t s sourceTry st;
                 oc = attemptFn w attempt;
                 outcomeErr = validateAttemptOutcome k oc;
                 callbackErr = causes_of CallbackCause (outcome_err oc);
                 legalSuccess = (outcomeErr = None \<and> outcome_kind oc = OutcomeSucceeded);
                 report = buildAttemptReport attempt (clock w False n) (clock w True n)
                   (reported_outcome w k n oc);
                 st1 = st\<lparr>globalTry := n, reports := reports st @ [report]\<rparr>;
                 reporterErr = reportAttempt r w report;
                 reporterCause = causes_of (\<lambda>(a, b). ReporterCause a b) reporterErr
             in if legalSuccess then
                  Finish (\<lparr>rotation_source = s, ActualCommit = outcome_commit oc, Reports = reports st1\<rparr>,
                    map_option (\<lambda>(a, b). SafeError a [ReporterCause a b]) reporterErr)
                else case ctxErr w AfterReport n of
                  Some e \<Rightarrow> Finish (failedRotationResult (reports st1),
                      Some (SafeError safeErrorCancellation
                        (ContextCause e # causes_of OutcomeCause outcomeErr @ callbackErr @ reporterCause)))
                | None \<Rightarrow>
                    if outcomeErr \<noteq> None then Finish (failedRotationResult (reports st1),
                      Some (SafeError safeErrorAttemptContract
                        (causes_of OutcomeCause outcomeErr @ callbackErr @ reporterCause)))
                    else if reporterErr \<noteq> None then Finish (failedRotationResult (reports st1),
                      Some (SafeError safeErrorReporter (causes st1 @ callbackErr @ reporterCause)))
                    else after_failure r w s sourceTry oc (st1\<lparr>causes := causes st1 @ callbackErr\<rparr>)))"

text \<open>The inner loop over the tries of a source and the outer loop over the sources.\<close>

function try_source ::
  "sha256 \<Rightarrow> Rotator \<Rightarrow> World \<Rightarrow> Kind \<Rightarrow> Target \<Rightarrow> Source \<Rightarrow> int \<Rightarrow> RotationState \<Rightarrow>
   RotationResult \<times> RotationFailure option + RotationState" where
  "try_source sha r w k t s sourceTry st =
     (if sourceTry > maxSourceAttempts r then Inr st
      else case one_try sha r w k t s sourceTry st of
             Finish res \<Rightarrow> Inl res
           | Again st' \<Rightarrow> try_source sha r w k t s (sourceTry + 1) st'
           | LeaveSource st' \<Rightarrow> Inr st')"
  by pat_completeness auto
termination
  by (relation "measure (\<lambda>(sha, r, w, k, t, s, sourceTry, st). nat (maxSourceAttempts r + 1 - sourceTry))")
     auto

declare try_source.simps [simp del]

fun rotate ::
  "sha256 \<Rightarrow> Rotator \<Rightarrow> World \<Rightarrow> Kind \<Rightarrow> Target \<Rightarrow> Source list \<Rightarrow> RotationState \<Rightarrow>
   RotationResult \<times> RotationFailure option + RotationState" where
  "rotate sha r w k t [] st = Inr st"
| "rotate sha r w k t (s # ss) st =
     (if key s \<in> blacklisted st then rotate sha r w k t ss st
      else case try_source sha r w k t s 1 st of
             Inl res \<Rightarrow> Inl res
           | Inr st' \<Rightarrow> rotate sha r w k t ss st')"

definition start_state :: RotationState where
  "start_state = \<lparr>reports = [], causes = [], blacklisted = {}, hadIntegrityFailure = False, globalTry = 0\<rparr>"

definition Run ::
  "url_api \<Rightarrow> sha256 \<Rightarrow> Rotator \<Rightarrow> World \<Rightarrow> Plan \<Rightarrow> Target \<Rightarrow> RotationResult \<times> RotationFailure option" where
  "Run api sha r w plan t =
     (if \<not> validRotator r \<or> \<not> validPlan api sha plan \<or> ValidateForKind sha t (plan_kind plan) \<noteq> None
        then (failedRotationResult [], Some InvalidRotationRequest)
      else case ctxErr w AtEntry 0 of
             Some e \<Rightarrow> (failedRotationResult [], Some (SafeError safeErrorCancellation [ContextCause e]))
           | None \<Rightarrow>
               if plan_offline plan then (failedRotationResult [], Some NetworkUnavailable)
               else (case rotate sha r w (plan_kind plan) t (plan_sources plan) start_state of
                       Inl res \<Rightarrow> res
                     | Inr st \<Rightarrow>
                         (failedRotationResult (reports st),
                          Some (if hadIntegrityFailure st then IntegrityExhausted (reports st) (causes st)
                                else MirrorExhausted (reports st) (causes st)))))"

section \<open>Which report may come next\<close>

text \<open>The specification of a run, on its reports alone: the sources that are left, the first of them
  the current one, and the number of its next try. A report of the current source with that number
  moves on as its outcome says; an outcome that ends the run leaves nothing.\<close>

definition next_try :: "int \<Rightarrow> Source list \<times> int \<Rightarrow> AttemptReport \<Rightarrow> unit + (Source list \<times> int)" where
  "next_try m p rep =
     (case p of
        ([], t) \<Rightarrow> Inl ()
      | (s # ss, t) \<Rightarrow>
          if report_key rep = key s \<and> report_sourceTry rep = t \<and> t \<le> m then
            (if Outcome rep = OutcomeRetrySameSource then
               Inr (if t < m then (s # ss, t + 1) else (ss, 1))
             else if Outcome rep = OutcomeSwitchSource \<or> Outcome rep = OutcomeIntegrityFailure
               then Inr (ss, 1)
             else Inr ([], 1))
          else Inl ())"

definition try_inv :: "int \<Rightarrow> Source list \<times> int \<Rightarrow> bool" where
  "try_inv m p \<longleftrightarrow> 1 \<le> snd p \<and> snd p \<le> m"

definition try_fuel :: "int \<Rightarrow> Source list \<times> int \<Rightarrow> nat" where
  "try_fuel m p = (if fst p = [] then 0 else nat (int (length (fst p)) * m - (snd p - 1)))"

lemma try_fuel_decreases:
  assumes "try_inv m p" "next_try m p rep = Inr q"
  shows "try_fuel m q < try_fuel m p"
proof -
  obtain ss t where p: "p = (ss, t)" by fastforce
  from assms(2) p obtain s ss' where ss: "ss = s # ss'" by (cases ss) (auto simp: next_try_def)
  have t: "1 \<le> t" "t \<le> m" using assms(1) p by (auto simp: try_inv_def)
  have "0 \<le> int (length ss') * m" using t by simp
  then have "nat (int (length ss') * m) < nat ((1 + int (length ss')) * m - (t - 1))"
  proof -
    have "t < 1 + (m + int (length ss') * m)" using t \<open>0 \<le> int (length ss') * m\<close> by linarith
    then show ?thesis using t by (simp add: algebra_simps nat_less_iff)
  qed
  moreover have "0 < nat ((1 + int (length ss')) * m - (t - 1))"
    using calculation by linarith
  ultimately show ?thesis
    using assms(2) p ss t by (auto simp: next_try_def try_fuel_def split: if_splits)
qed

interpretation tries: decreasing_machine "next_try m" "try_inv m" "try_fuel m" for m
proof
  show "try_inv m q" if "try_inv m p" "next_try m p rep = Inr q" for p rep q
    using that by (auto simp: next_try_def try_inv_def split: prod.splits list.splits if_splits)
  show "try_fuel m q < try_fuel m p" if "try_inv m p" "next_try m p rep = Inr q" for p rep q
    using that by (rule try_fuel_decreases)
qed

abbreviation replay :: "int \<Rightarrow> Source list \<Rightarrow> AttemptReport list \<Rightarrow> unit + (Source list \<times> int)" where
  "replay m ss \<equiv> run_strict (next_try m) (ss, 1)"

lemma replay_bound:
  assumes "replay m ss rs = Inr q" "1 \<le> m"
  shows "length rs \<le> length ss * nat m"
proof -
  have "length rs \<le> try_fuel m (ss, 1)"
    using tries.strict_run_bounded [of m "(ss, 1)" rs q] assms by (simp add: try_inv_def)
  also have "\<dots> \<le> length ss * nat m"
    using assms(2) by (simp add: try_fuel_def nat_mult_distrib)
  finally show ?thesis .
qed

definition left_behind :: "AttemptReport \<Rightarrow> bool" where
  "left_behind rep \<longleftrightarrow>
     Outcome rep = OutcomeRetrySameSource \<or> Outcome rep = OutcomeSwitchSource \<or>
     Outcome rep = OutcomeIntegrityFailure"

text \<open>When such reports use up the plan every source was tried.\<close>

lemma next_try_drop:
  assumes "next_try m (s # ss, t) rep = Inr q" "left_behind rep"
  shows "report_key rep = key s \<and> (q = (s # ss, t + 1) \<or> q = (ss, 1))"
  using assms by (auto simp: next_try_def left_behind_def split: if_splits)

lemma replay_covers:
  "run_strict (next_try m) (ss, t) rs = Inr ([], u) \<Longrightarrow> list_all left_behind rs \<Longrightarrow>
   key ` set ss \<subseteq> report_key ` set rs"
proof (induction rs arbitrary: ss t)
  case (Cons rep rs)
  then obtain q where q: "next_try m (ss, t) rep = Inr q" "run_strict (next_try m) q rs = Inr ([], u)"
    by (auto simp: bindE_Inr_iff)
  obtain s ss' where ss: "ss = s # ss'" using q(1) by (cases ss) (auto simp: next_try_def)
  have rep: "report_key rep = key s" and "q = (s # ss', t + 1) \<or> q = (ss', 1)"
    using next_try_drop [OF q(1) [unfolded ss]] Cons.prems(2) by auto
  then have "set ss' \<subseteq> set (fst q)" by auto
  then have "key ` set ss' \<subseteq> key ` set (fst q)" by (rule image_mono)
  also have "\<dots> \<subseteq> report_key ` set rs"
    using Cons.IH [of "fst q" "snd q"] q(2) Cons.prems(2) by simp
  finally show ?case unfolding ss using rep by (simp add: subset_insertI2)
qed simp

section \<open>The loop invariant\<close>

text \<open>The context package: an error of a context stays.\<close>

definition ctx_sticky :: "World \<Rightarrow> bool" where
  "ctx_sticky w \<longleftrightarrow> (\<forall>n. ctxErr w BeforeReport n \<noteq> None \<longrightarrow> ctxErr w AfterReport n \<noteq> None)"

definition numbered_reports :: "Target \<Rightarrow> AttemptReport list \<Rightarrow> bool" where
  "numbered_reports t rs \<longleftrightarrow>
     map report_globalTry rs = map int [1..<Suc (length rs)] \<and> list_all (\<lambda>x. report_target x = t) rs"

definition rotation_inv :: "int \<Rightarrow> Source list \<Rightarrow> Target \<Rightarrow> Source list \<times> int \<Rightarrow> RotationState \<Rightarrow> bool" where
  "rotation_inv m sources t p st \<longleftrightarrow>
     replay m sources (reports st) = Inr p \<and> numbered_reports t (reports st) \<and>
     globalTry st = int (length (reports st)) \<and> list_all left_behind (reports st) \<and>
     hadIntegrityFailure st = list_ex (\<lambda>x. Outcome x = OutcomeIntegrityFailure) (reports st) \<and>
     blacklisted st \<inter> key ` set (fst p) = {}"

definition run_ok :: "int \<Rightarrow> Source list \<Rightarrow> Target \<Rightarrow> AttemptReport list \<Rightarrow> bool" where
  "run_ok m sources t rs \<longleftrightarrow> (\<exists>p. replay m sources rs = Inr p) \<and> numbered_reports t rs"

text \<open>What a return without error means.\<close>

definition success_ok :: "Kind \<Rightarrow> Source list \<Rightarrow> RotationResult \<Rightarrow> bool" where
  "success_ok k sources res \<longleftrightarrow>
     rotation_source res \<in> set sources \<and> Reports res \<noteq> [] \<and>
     list_all left_behind (butlast (Reports res)) \<and>
     report_key (last (Reports res)) = key (rotation_source res) \<and>
     Outcome (last (Reports res)) = OutcomeSucceeded \<and>
     report_commit (last (Reports res)) = ActualCommit res \<and>
     (if k = KindGit then validGitCommit (ActualCommit res) else ActualCommit res = '''')"

definition never_exhausted :: "RotationFailure option \<Rightarrow> bool" where
  "never_exhausted e = (case e of
     Some (MirrorExhausted rs cs) \<Rightarrow> False | Some (IntegrityExhausted rs cs) \<Rightarrow> False | _ \<Rightarrow> True)"

definition finish_ok ::
  "int \<Rightarrow> Kind \<Rightarrow> Source list \<Rightarrow> Target \<Rightarrow> RotationResult \<times> RotationFailure option \<Rightarrow> bool" where
  "finish_ok m k sources t x \<longleftrightarrow>
     run_ok m sources t (Reports (fst x)) \<and> (snd x = None \<longrightarrow> success_ok k sources (fst x)) \<and>
     never_exhausted (snd x)"

lemma replay_snoc:
  "replay m sources rs = Inr p \<Longrightarrow> replay m sources (rs @ [rep]) = next_try m p rep"
  by (cases "next_try m p rep") (simp_all add: run_strict_append)

lemma report_numbers_snoc:
  "numbered_reports t rs \<Longrightarrow> report_globalTry rep = int (length rs) + 1 \<Longrightarrow> report_target rep = t \<Longrightarrow>
   numbered_reports t (rs @ [rep])"
  by (simp add: numbered_reports_def)

lemma next_try_current:
  "report_key rep = key s \<Longrightarrow> report_sourceTry rep = t \<Longrightarrow> t \<le> m \<Longrightarrow>
   \<exists>q. next_try m (s # ss, t) rep = Inr q"
  by (simp add: next_try_def)

text \<open>The report of a try continues the run.\<close>

definition try_report :: "World \<Rightarrow> Kind \<Rightarrow> Target \<Rightarrow> Source \<Rightarrow> int \<Rightarrow> RotationState \<Rightarrow> AttemptReport" where
  "try_report w k t s sourceTry st =
     (let n = globalTry st + 1; a = current_attempt t s sourceTry st in
      buildAttemptReport a (clock w False n) (clock w True n) (reported_outcome w k n (attemptFn w a)))"

lemma try_report_fields [simp]:
  "report_key (try_report w k t s sourceTry st) = key s"
  "report_sourceTry (try_report w k t s sourceTry st) = sourceTry"
  "report_globalTry (try_report w k t s sourceTry st) = globalTry st + 1"
  "report_target (try_report w k t s sourceTry st) = t"
  by (simp_all add: try_report_def Let_def buildAttemptReport_def current_attempt_def)

lemma try_report_outcome:
  "Outcome (try_report w k t s sourceTry st) =
     outcome_kind (reported_outcome w k (globalTry st + 1) (attemptFn w (current_attempt t s sourceTry st)))"
  "report_commit (try_report w k t s sourceTry st) =
     outcome_commit (reported_outcome w k (globalTry st + 1) (attemptFn w (current_attempt t s sourceTry st)))"
  by (simp_all add: try_report_def Let_def buildAttemptReport_def)

lemma try_run_ok:
  assumes "rotation_inv m sources t (s # ss, sourceTry) st" "sourceTry \<le> m"
  shows "run_ok m sources t (reports st @ [try_report w k t s sourceTry st])"
  using assms next_try_current [of "try_report w k t s sourceTry st" s sourceTry m ss]
  by (auto simp: rotation_inv_def run_ok_def replay_snoc intro!: report_numbers_snoc)

lemma inv_run_ok: "rotation_inv m sources t p st \<Longrightarrow> run_ok m sources t (reports st)"
  by (auto simp: rotation_inv_def run_ok_def)

lemma legal_failure_kind:
  assumes "validateAttemptOutcome k oc = None" "outcome_kind oc \<noteq> OutcomeSucceeded"
  shows "outcome_kind oc = OutcomeRetrySameSource \<or> outcome_kind oc = OutcomeSwitchSource \<or>
    outcome_kind oc = OutcomeIntegrityFailure \<or> outcome_kind oc = OutcomeTargetFailure"
proof -
  have "OutcomeKind_Valid (outcome_kind oc)" "outcome_kind oc \<noteq> OutcomeCancelled"
    using assms(1) by (auto simp: validateAttemptOutcome_def split: if_split_asm)
  then show ?thesis using assms(2) unfolding OutcomeKind_Valid_def by simp
qed

lemma legal_success:
  assumes "validateAttemptOutcome k oc = None" "outcome_kind oc = OutcomeSucceeded"
  shows "if k = KindGit then validGitCommit (outcome_commit oc) else outcome_commit oc = ''''"
proof -
  have "\<not> (outcome_err oc \<noteq> None \<or> outcome_failure oc \<noteq> '''' \<or>
      (k = KindGit \<and> \<not> validGitCommit (outcome_commit oc)) \<or> (k \<noteq> KindGit \<and> outcome_commit oc \<noteq> ''''))"
    using assms unfolding validateAttemptOutcome_def by (simp split: if_split_asm)
  then show ?thesis by (cases "k = KindGit") simp_all
qed

text \<open>The three ways a try can end.\<close>

definition try_end_ok ::
  "int \<Rightarrow> Kind \<Rightarrow> Source list \<Rightarrow> Target \<Rightarrow> Source list \<Rightarrow> Source \<Rightarrow> int \<Rightarrow> TryEnd \<Rightarrow> bool" where
  "try_end_ok m k sources t ss s sourceTry x \<longleftrightarrow>
     (case x of
        Finish res \<Rightarrow> finish_ok m k sources t res
      | Again st' \<Rightarrow> sourceTry < m \<and> rotation_inv m sources t (s # ss, sourceTry + 1) st'
      | LeaveSource st' \<Rightarrow> rotation_inv m sources t (ss, 1) st')"

lemma finish_failed:
  "run_ok m sources t rs \<Longrightarrow> never_exhausted (Some e) \<Longrightarrow>
   try_end_ok m k sources t ss s sourceTry (Finish (failedRotationResult rs, Some e))"
  by (simp add: try_end_ok_def finish_ok_def failedRotationResult_def)

lemma after_failure_ok:
  assumes inv: "rotation_inv m sources t (s # ss, sourceTry) st0" and "sourceTry \<le> m"
    and m: "m = maxSourceAttempts r" and fresh: "key s \<notin> key ` set ss"
    and legal: "outcome_kind oc = OutcomeRetrySameSource \<or> outcome_kind oc = OutcomeSwitchSource \<or>
      outcome_kind oc = OutcomeIntegrityFailure \<or> outcome_kind oc = OutcomeTargetFailure"
    and rep: "report_key rep = key s" "report_sourceTry rep = sourceTry"
      "report_globalTry rep = globalTry st0 + 1" "report_target rep = t" "Outcome rep = outcome_kind oc"
    and st: "st = st0\<lparr>globalTry := globalTry st0 + 1, reports := reports st0 @ [rep], causes := cs\<rparr>"
  shows "try_end_ok m k sources t ss s sourceTry (after_failure r w s sourceTry oc st)"
proof -
  have run: "replay m sources (reports st) = next_try m (s # ss, sourceTry) rep"
    using inv by (simp add: st rotation_inv_def replay_snoc)
  have num: "numbered_reports t (reports st)"
    using inv rep(3,4) by (auto simp: st rotation_inv_def intro: report_numbers_snoc)
  have ok: "run_ok m sources t (reports st)"
    using next_try_current [OF rep(1,2) assms(2)] num run by (auto simp: run_ok_def)
  have base: "globalTry st = int (length (reports st))"
    "list_all left_behind (reports st) = left_behind rep"
    "list_ex (\<lambda>x. Outcome x = OutcomeIntegrityFailure) (reports st) =
      (hadIntegrityFailure st \<or> Outcome rep = OutcomeIntegrityFailure)"
    "blacklisted st \<inter> key ` set ss = {}"
    "blacklisted st \<inter> key ` set (s # ss) = {}"
    using inv by (auto simp: st rotation_inv_def)
  note facts = run num base rep(1,2,5) assms(2)
  from legal show ?thesis
  proof (elim disjE)
    assume retry: "outcome_kind oc = OutcomeRetrySameSource"
    show ?thesis
    proof (cases "sourceTry = m")
      case True
      have "after_failure r w s sourceTry oc st = LeaveSource st"
        using retry True m by (simp add: after_failure_def)
      then show ?thesis using facts retry True
        by (simp add: try_end_ok_def rotation_inv_def next_try_def left_behind_def)
    next
      case False
      then have lt: "sourceTry < m" using assms(2) by simp
      have "rotation_inv m sources t (s # ss, sourceTry + 1) st" using facts retry lt
        by (simp add: rotation_inv_def next_try_def left_behind_def)
      then have again: "try_end_ok m k sources t ss s sourceTry (Again st)"
        using lt by (simp add: try_end_ok_def)
      show ?thesis using retry False ok again unfolding m
        by (auto simp: after_failure_def Let_def never_exhausted_def intro!: finish_failed
            split: option.split)
    qed
  next
    assume kind: "outcome_kind oc = OutcomeSwitchSource"
    then have "after_failure r w s sourceTry oc st = LeaveSource st"
      by (simp add: after_failure_def)
    then show ?thesis using facts kind
      by (simp add: try_end_ok_def rotation_inv_def next_try_def left_behind_def)
  next
    assume kind: "outcome_kind oc = OutcomeIntegrityFailure"
    then have "after_failure r w s sourceTry oc st =
        LeaveSource (st\<lparr>hadIntegrityFailure := True, blacklisted := insert (key s) (blacklisted st)\<rparr>)"
      by (simp add: after_failure_def)
    then show ?thesis using facts kind fresh
      by (simp add: try_end_ok_def rotation_inv_def next_try_def left_behind_def)
  next
    assume "outcome_kind oc = OutcomeTargetFailure"
    then show ?thesis
      using finish_failed [OF ok] by (simp add: after_failure_def never_exhausted_def)
  qed
qed

lemma one_try_ok:
  assumes inv: "rotation_inv m sources t (s # ss, sourceTry) st" and le: "sourceTry \<le> m"
    and m: "m = maxSourceAttempts r" and fresh: "key s \<notin> key ` set ss" and mem: "s \<in> set sources"
    and sticky: "ctx_sticky w"
  shows "try_end_ok m k sources t ss s sourceTry (one_try sha r w k t s sourceTry st)"
proof -
  define rep where "rep = try_report w k t s sourceTry st"
  define oc where "oc = attemptFn w (current_attempt t s sourceTry st)"
  have run: "run_ok m sources t (reports st @ [rep])" unfolding rep_def by (rule try_run_ok [OF inv le])
  note failed = finish_failed [OF run] finish_failed [OF inv_run_ok [OF inv]]
  have rep_eq: "buildAttemptReport (current_attempt t s sourceTry st) (clock w False (globalTry st + 1))
      (clock w True (globalTry st + 1)) (reported_outcome w k (globalTry st + 1) oc) = rep"
    by (simp add: rep_def oc_def try_report_def Let_def)
  show ?thesis
  proof (cases "ctxErr w BeforeTry (globalTry st + 1) = None \<and>
      \<not> (validateTarget sha t \<noteq> None \<or> fingerprint t = '''')")
    case False
    then show ?thesis using failed(2)
      by (auto simp: one_try_def never_exhausted_def split: option.split)
  next
    case start: True
    show ?thesis
    proof (cases "validateAttemptOutcome k oc = None \<and> outcome_kind oc = OutcomeSucceeded")
      case True
      then have reported: "reported_outcome w k (globalTry st + 1) oc = oc"
        by (simp add: reported_outcome_def Let_def)
      have fields: "Outcome rep = OutcomeSucceeded" "report_commit rep = outcome_commit oc"
        using True reported unfolding rep_def try_report_outcome oc_def [symmetric] by simp_all
      let ?res = "\<lparr>rotation_source = s, ActualCommit = outcome_commit oc, Reports = reports st @ [rep]\<rparr>"
      have "success_ok k sources ?res"
        using legal_success [of k oc] True fields inv mem
        by (simp add: success_ok_def rotation_inv_def rep_def)
      moreover have "\<exists>e. never_exhausted e \<and> one_try sha r w k t s sourceTry st = Finish (?res, e)"
        using start True rep_eq
        by (auto simp: one_try_def Let_def oc_def [symmetric] never_exhausted_def split: option.split)
      ultimately show ?thesis using run by (auto simp: try_end_ok_def finish_ok_def)
    next
      case bad: False
      show ?thesis
      proof (cases "ctxErr w AfterReport (globalTry st + 1) = None \<and> validateAttemptOutcome k oc = None \<and>
          reportAttempt r w rep = None")
        case False
        then show ?thesis using start bad rep_eq failed(1)
          by (auto simp: one_try_def Let_def oc_def [symmetric] never_exhausted_def split: option.split)
      next
        case True
        then have "ctxErr w BeforeReport (globalTry st + 1) = None"
          using sticky unfolding ctx_sticky_def by blast
        then have "reported_outcome w k (globalTry st + 1) oc = oc"
          using True by (simp add: reported_outcome_def Let_def)
        then have out: "Outcome rep = outcome_kind oc"
          unfolding rep_def try_report_outcome oc_def [symmetric] by simp
        have legal: "outcome_kind oc = OutcomeRetrySameSource \<or> outcome_kind oc = OutcomeSwitchSource \<or>
            outcome_kind oc = OutcomeIntegrityFailure \<or> outcome_kind oc = OutcomeTargetFailure"
        proof (rule legal_failure_kind)
          show "validateAttemptOutcome k oc = None" using True by simp
          with bad show "outcome_kind oc \<noteq> OutcomeSucceeded" by fast
        qed
        have "one_try sha r w k t s sourceTry st = after_failure r w s sourceTry oc
            (st\<lparr>globalTry := globalTry st + 1, reports := reports st @ [rep],
              causes := causes st @ causes_of CallbackCause (outcome_err oc)\<rparr>)"
          using start bad True rep_eq by (simp add: one_try_def Let_def oc_def [symmetric])
        then show ?thesis
          using after_failure_ok [OF inv le m fresh legal _ _ _ _ out refl]
          by (simp add: rep_def)
      qed
    qed
  qed
qed

lemma try_source_ok:
  assumes "rotation_inv m sources t (s # ss, sourceTry) st" "sourceTry \<le> m"
    and "m = maxSourceAttempts r" "key s \<notin> key ` set ss" "s \<in> set sources" "ctx_sticky w"
  shows "case try_source sha r w k t s sourceTry st of
      Inl res \<Rightarrow> finish_ok m k sources t res
    | Inr st' \<Rightarrow> rotation_inv m sources t (ss, 1) st'"
  using assms
proof (induction sha r w k t s sourceTry st rule: try_source.induct)
  case (1 sha r w k t s sourceTry st)
  note one = one_try_ok [OF "1.prems", where k = k and sha = sha]
  have go: "\<not> maxSourceAttempts r < sourceTry" using "1.prems"(2,3) by simp
  show ?case
  proof (cases "one_try sha r w k t s sourceTry st")
    case (Finish res)
    then show ?thesis using one go
      by (subst try_source.simps) (simp add: try_end_ok_def)
  next
    case (Again st')
    then have "sourceTry + 1 \<le> m" "rotation_inv m sources t (s # ss, sourceTry + 1) st'"
      using one by (simp_all add: try_end_ok_def)
    from "1.IH" [OF go Again this(2,1) "1.prems"(3-6)] show ?thesis
      using go Again by (subst try_source.simps) simp
  next
    case (LeaveSource st')
    then show ?thesis using one go
      by (subst try_source.simps) (simp add: try_end_ok_def)
  qed
qed

lemma rotate_ok:
  assumes "rotation_inv m sources t (ss, 1) st" "1 \<le> m" "m = maxSourceAttempts r"
    and "distinct (map key ss)" "set ss \<subseteq> set sources" "ctx_sticky w"
  shows "case rotate sha r w k t ss st of
      Inl res \<Rightarrow> finish_ok m k sources t res
    | Inr st' \<Rightarrow> rotation_inv m sources t ([], 1) st'"
  using assms
proof (induction sha r w k t ss st rule: rotate.induct)
  case (2 sha r w k t s ss st)
  have fresh: "key s \<notin> blacklisted st" using "2.prems"(1) by (auto simp: rotation_inv_def)
  have s: "key s \<notin> key ` set ss" "s \<in> set sources" "distinct (map key ss)" "set ss \<subseteq> set sources"
    using "2.prems"(4,5) by auto
  note tried = try_source_ok [OF "2.prems"(1,2,3) s(1,2) "2.prems"(6), where sha = sha and k = k]
  show ?case
  proof (cases "try_source sha r w k t s 1 st")
    case (Inl res)
    with tried fresh show ?thesis by simp
  next
    case (Inr st')
    with tried have "rotation_inv m sources t (ss, 1) st'" by simp
    from "2.IH"(2) [OF fresh Inr this "2.prems"(2,3) s(3,4) "2.prems"(6)] Inr fresh show ?thesis
      by simp
  qed
qed simp

lemma start_inv: "rotation_inv m sources t (sources, 1) start_state"
  by (simp add: rotation_inv_def start_state_def numbered_reports_def)

text \<open>What every run guarantees; an empty run for the returns before the loop.\<close>

lemma Run_ok:
  assumes "Run api sha r w plan t = (res, err)" "ctx_sticky w"
  shows "run_ok (maxSourceAttempts r) (plan_sources plan) t (Reports res)"
    and "err = None \<Longrightarrow> success_ok (plan_kind plan) (plan_sources plan) res"
    and "err = Some (MirrorExhausted rs cs) \<or> err = Some (IntegrityExhausted rs cs) \<Longrightarrow>
      rs = Reports res \<and> replay (maxSourceAttempts r) (plan_sources plan) rs = Inr ([], 1) \<and>
      list_all left_behind rs \<and>
      (err = Some (IntegrityExhausted rs cs)) = list_ex (\<lambda>x. Outcome x = OutcomeIntegrityFailure) rs"
    and "Reports res \<noteq> [] \<Longrightarrow> 1 \<le> maxSourceAttempts r"
proof -
  let ?m = "maxSourceAttempts r" and ?ss = "plan_sources plan" and ?k = "plan_kind plan"
  let ?C = "run_ok ?m ?ss t (Reports res) \<and> (err = None \<longrightarrow> success_ok ?k ?ss res) \<and>
      (err = Some (MirrorExhausted rs cs) \<or> err = Some (IntegrityExhausted rs cs) \<longrightarrow>
        rs = Reports res \<and> replay ?m ?ss rs = Inr ([], 1) \<and> list_all left_behind rs \<and>
        (err = Some (IntegrityExhausted rs cs)) = list_ex (\<lambda>x. Outcome x = OutcomeIntegrityFailure) rs) \<and>
      (Reports res \<noteq> [] \<longrightarrow> 1 \<le> ?m)"
  have none: "run_ok ?m ?ss t []" by (simp add: run_ok_def numbered_reports_def)
  have ?C
  proof (cases "(\<not> validRotator r \<or> \<not> validPlan api sha plan \<or> ValidateForKind sha t ?k \<noteq> None) \<or>
      ctxErr w AtEntry 0 \<noteq> None \<or> plan_offline plan")
    case True
    then have "Reports res = [] \<and> err \<noteq> None \<and> err \<noteq> Some (MirrorExhausted rs cs) \<and>
        err \<noteq> Some (IntegrityExhausted rs cs)"
      using assms(1) by (auto simp: Run_def failedRotationResult_def split: if_splits option.splits)
    with none show ?thesis by auto
  next
    case False
    then have m: "1 \<le> ?m" and valid: "validPlan api sha plan" "\<not> plan_offline plan"
      by (auto simp: validRotator_def)
    from validPlan_onlineD [OF valid] have d: "distinct (map key ?ss)"
      by (auto simp: sources_ok_def)
    note ok = rotate_ok [OF start_inv [of ?m ?ss t] m refl d subset_refl assms(2), where sha = sha and k = ?k]
    show ?thesis
    proof (cases "rotate sha r w ?k t ?ss start_state")
      case (Inl x)
      then have "x = (res, err)" using assms(1) False by (simp add: Run_def)
      then show ?thesis using ok Inl m by (auto simp: finish_ok_def never_exhausted_def)
    next
      case (Inr st)
      then have "res = failedRotationResult (reports st)"
        "err = Some (if hadIntegrityFailure st then IntegrityExhausted (reports st) (causes st)
           else MirrorExhausted (reports st) (causes st))"
        using assms(1) False by (simp_all add: Run_def)
      then show ?thesis using ok Inr m inv_run_ok [of ?m ?ss t "([], 1)" st]
        by (auto simp: rotation_inv_def failedRotationResult_def split: if_splits)
    qed
  qed
  then show "run_ok ?m ?ss t (Reports res)" "err = None \<Longrightarrow> success_ok ?k ?ss res"
    "err = Some (MirrorExhausted rs cs) \<or> err = Some (IntegrityExhausted rs cs) \<Longrightarrow>
      rs = Reports res \<and> replay ?m ?ss rs = Inr ([], 1) \<and> list_all left_behind rs \<and>
      (err = Some (IntegrityExhausted rs cs)) = list_ex (\<lambda>x. Outcome x = OutcomeIntegrityFailure) rs"
    "Reports res \<noteq> [] \<Longrightarrow> 1 \<le> ?m" by blast+
qed

lemma NewRotator_valid: "NewRotator options = Inr r \<Longrightarrow> validRotator r"
  by (auto simp: NewRotator_def bindE_Inr_iff split: if_splits)

section \<open>Properties\<close>

text \<open>C17: whatever the attempts, the reporter, the wait and the context answer, the reports of a run
  are those of a walk over the sources in the order of the plan: numbered from 1, with the run's
  target, a source is tried again only after a retry outcome and at most \<open>maxSourceAttempts\<close> times,
  the next source follows only after a retry at the limit, a switch or an integrity failure, and
  any other outcome is the last. There are at most sources times attempts of them.\<close>

theorem rotation_walks_the_plan:
  assumes "Run api sha r w plan t = (res, err)" "ctx_sticky w"
  shows "(\<exists>rest. replay (maxSourceAttempts r) (plan_sources plan) (Reports res) = Inr rest) \<and>
    map report_globalTry (Reports res) = map int [1..<Suc (length (Reports res))] \<and>
    list_all (\<lambda>x. report_target x = t) (Reports res) \<and>
    length (Reports res) \<le> length (plan_sources plan) * nat (maxSourceAttempts r)"
proof -
  note ok = Run_ok(1) [OF assms]
  have "length (Reports res) \<le> length (plan_sources plan) * nat (maxSourceAttempts r)"
  proof (cases "Reports res = []")
    case False
    with Run_ok(4) [OF assms] have "1 \<le> maxSourceAttempts r" by simp
    with ok replay_bound show ?thesis by (auto simp: run_ok_def)
  qed simp
  with ok show ?thesis by (auto simp: run_ok_def numbered_reports_def)
qed

text \<open>a run that returns no error returns the source of its last report, whose outcome is a
  success; all reports before it are of sources that were given up or retried; the commit it
  returns is the reported one, well formed for Git and empty for the other kinds.\<close>

theorem rotation_success:
  assumes "Run api sha r w plan t = (res, None)" "ctx_sticky w"
  shows "rotation_source res \<in> set (plan_sources plan) \<and> Reports res \<noteq> [] \<and>
    list_all left_behind (butlast (Reports res)) \<and>
    report_key (last (Reports res)) = key (rotation_source res) \<and>
    Outcome (last (Reports res)) = OutcomeSucceeded \<and>
    report_commit (last (Reports res)) = ActualCommit res \<and>
    (if plan_kind plan = KindGit then validGitCommit (ActualCommit res) else ActualCommit res = '''')"
  using Run_ok(2) [OF assms refl] unfolding success_ok_def .

text \<open>an exhaustion error means that every source of the plan was tried and given up; it is the
  integrity error exactly when some attempt failed its integrity check.\<close>

theorem rotation_exhausted:
  assumes "Run api sha r w plan t = (res, Some e)" "ctx_sticky w"
    and "e = MirrorExhausted rs cs \<or> e = IntegrityExhausted rs cs"
  shows "rs = Reports res \<and> key ` set (plan_sources plan) \<subseteq> report_key ` set rs \<and>
    list_all left_behind rs \<and>
    (e = IntegrityExhausted rs cs) = list_ex (\<lambda>x. Outcome x = OutcomeIntegrityFailure) rs"
proof -
  have "Some e = Some (MirrorExhausted rs cs) \<or> Some e = Some (IntegrityExhausted rs cs)"
    using assms(3) by blast
  note ok = Run_ok(3) [OF assms(1,2) this]
  then have "key ` set (plan_sources plan) \<subseteq> report_key ` set rs"
    using replay_covers [of "maxSourceAttempts r" "plan_sources plan" 1 rs 1] by blast
  with ok show ?thesis by blast
qed

section \<open>Example runs\<close>

definition example_world :: "(Attempt \<Rightarrow> AttemptOutcome) \<Rightarrow> World" where
  "example_world f = \<lparr>ctxErr = (\<lambda>_ _. None), clock = (\<lambda>_ n. n), attemptFn = f,
     reporterFn = (\<lambda>_. Reported), waitFn = (\<lambda>_ _. None)\<rparr>"

definition example_failure :: "OutcomeKind \<Rightarrow> AttemptOutcome" where
  "example_failure k = \<lparr>outcome_kind = k, outcome_failure = ''http_status'', outcome_commit = '''',
     outcome_err = Some ''status 503''\<rparr>"

definition example_success :: AttemptOutcome where
  "example_success = \<lparr>outcome_kind = OutcomeSucceeded, outcome_failure = '''',
     outcome_commit = replicate 40 (CHR ''a''), outcome_err = None\<rparr>"

definition example_rotator :: Rotator where
  "example_rotator = \<lparr>has_reporter = True, maxSourceAttempts = 2, retryDelay = 250000000\<rparr>"

lemma example_rotator_new: "NewRotator [WithAttemptReporter False] = Inr example_rotator"
  by (simp add: NewRotator_def validRotator_def example_rotator_def)

definition example_run_target :: Target where
  "example_run_target =
     \<lparr>productVersion = ''v1.2.3-alpha.4'', releaseBranch = ''dev'', uvVersion = '''',
      pythonVersion = '''', lockDigest = '''',
      fingerprint = targetFingerprint id example_target_spec\<rparr>"

lemma example_run_target_valid:
  "validateTarget id example_run_target = None" "fingerprint example_run_target \<noteq> []"
  "ValidateForKind id example_run_target KindGit = None"
proof -
  have spec: "target_spec example_run_target = example_target_spec"
    by (simp add: target_spec_def example_run_target_def example_target_spec_def)
  have "normalizeTargetSpec example_target_spec = Inr example_target_spec" by code_simp
  moreover have "canonical_target example_target_spec \<noteq> []"
    by (simp add: canonical_target_def canonical_lines_def)
  ultimately show v: "validateTarget id example_run_target = None" "fingerprint example_run_target \<noteq> []"
    unfolding validateTarget_def spec
    by (simp_all add: example_run_target_def example_target_spec_def targetFingerprint_def)
  have "ProductBranch ''v1.2.3-alpha.4'' = ''dev''" by code_simp
  then show "ValidateForKind id example_run_target KindGit = None"
    using v(1) by (simp add: ValidateForKind_def Kind_Valid_def example_run_target_def)
qed

lemma example_outcomes_legal:
  "validateAttemptOutcome KindGit (example_failure OutcomeRetrySameSource) = None"
  "validateAttemptOutcome KindGit (example_failure OutcomeIntegrityFailure) = None"
  "validateAttemptOutcome KindGit example_success = None"
  by code_simp+

text \<open>A source that answers on the second try, and two sources whose data is corrupt.\<close>

definition second_try_world :: World where
  "second_try_world = example_world (\<lambda>a. if SourceTry a = 1 then example_failure OutcomeRetrySameSource
     else example_success)"

definition corrupt_world :: World where
  "corrupt_world = example_world (\<lambda>a. example_failure OutcomeIntegrityFailure)"

lemmas example_run_defs = Run_def one_try_def after_failure_def try_source.simps [of _ _ _ _ _ _ 1]
  try_source.simps [of _ _ _ _ _ _ 2] start_state_def current_attempt_def example_world_def
  reportAttempt_def reported_outcome_def Let_def example_rotator_def

lemma example_plan_fields:
  "plan_kind example_plan = KindGit" "plan_offline example_plan = False"
  "plan_sources example_plan =
     [example_source KindGit ''github'' True, example_source KindGit ''mirror'' False]"
  by (simp_all add: example_plan_def make_plan_def)

lemma example_source_key: "key (example_source k s b) = s"
  by (simp add: example_source_def)

lemma second_try_run:
  "snd (Run letters_api id example_rotator second_try_world example_plan example_run_target) = None"
  using example_plan_valid example_run_target_valid example_outcomes_legal
  by (simp add: example_run_defs second_try_world_def example_plan_fields validRotator_def
      example_failure_def example_success_def)

lemma corrupt_run:
  "\<exists>rs cs. snd (Run letters_api id example_rotator corrupt_world example_plan example_run_target) =
     Some (IntegrityExhausted rs cs)"
  using example_plan_valid example_run_target_valid example_outcomes_legal
  by (simp add: example_run_defs corrupt_world_def example_plan_fields validRotator_def
      example_source_key example_failure_def)

lemma example_worlds_sticky: "ctx_sticky second_try_world" "ctx_sticky corrupt_world"
  by (simp_all add: ctx_sticky_def second_try_world_def corrupt_world_def example_world_def)

theorem rotation_walks_the_plan_witness:
  "length (Reports (fst (Run letters_api id example_rotator corrupt_world example_plan
     example_run_target))) \<le> 4"
  using rotation_walks_the_plan [OF _ example_worlds_sticky(2), of letters_api id example_rotator
      example_plan example_run_target]
  by (cases "Run letters_api id example_rotator corrupt_world example_plan example_run_target")
     (simp add: example_plan_fields example_rotator_def)

theorem rotation_success_witness:
  "validGitCommit (ActualCommit (fst (Run letters_api id example_rotator second_try_world example_plan
     example_run_target)))"
  using rotation_success [OF _ example_worlds_sticky(1), of letters_api id example_rotator
      example_plan example_run_target] second_try_run
  by (cases "Run letters_api id example_rotator second_try_world example_plan example_run_target")
     (simp add: example_plan_fields)

theorem rotation_exhausted_witness:
  "{''github'', ''mirror''} \<subseteq> report_key ` set (Reports (fst (Run letters_api id example_rotator
     corrupt_world example_plan example_run_target)))"
proof -
  let ?run = "Run letters_api id example_rotator corrupt_world example_plan example_run_target"
  obtain rs cs where "?run = (fst ?run, Some (IntegrityExhausted rs cs))"
    using corrupt_run by (metis prod.collapse)
  from rotation_exhausted [OF this example_worlds_sticky(2), of rs cs]
  show ?thesis by (auto simp: example_plan_fields example_source_key)
qed

end
