(* ===== verification/Go_Utf8.thy ===== *)
theory Go_Utf8
  imports Go_Prelude
begin

text \<open>
  The part of Go's \<open>unicode/utf8\<close> and \<open>unicode\<close> packages that the program uses: decoding a string
  into its runes, \<open>utf8.ValidString\<close> and \<open>unicode.IsControl\<close>. Runes and bytes are numbers.
\<close>

definition continuation :: "nat \<Rightarrow> bool" where
  "continuation b \<longleftrightarrow> 0x80 \<le> b \<and> b \<le> 0xBF"

text \<open>The first rune of a non-empty byte list and its width; \<open>None\<close> for an ill-formed sequence:
  overlong forms, surrogates and values above \<open>0x10FFFF\<close> are excluded by the range of the second
  byte.\<close>

definition second_range :: "nat \<Rightarrow> nat \<times> nat" where
  "second_range b0 =
     (if b0 = 0xE0 then (0xA0, 0xBF) else if b0 = 0xED then (0x80, 0x9F)
      else if b0 = 0xF0 then (0x90, 0xBF) else if b0 = 0xF4 then (0x80, 0x8F) else (0x80, 0xBF))"

definition rune_at :: "nat list \<Rightarrow> (nat \<times> nat) option" where
  "rune_at bs =
     (case bs of
        [] \<Rightarrow> None
      | b0 # t \<Rightarrow>
          if b0 < 0x80 then Some (b0, 1)
          else if 0xC2 \<le> b0 \<and> b0 \<le> 0xDF then
            (case t of
               b1 # _ \<Rightarrow> if continuation b1 then Some ((b0 - 0xC0) * 64 + (b1 - 0x80), 2) else None
             | _ \<Rightarrow> None)
          else if 0xE0 \<le> b0 \<and> b0 \<le> 0xEF then
            (case t of
               b1 # b2 # _ \<Rightarrow>
                 if fst (second_range b0) \<le> b1 \<and> b1 \<le> snd (second_range b0) \<and> continuation b2
                 then Some (((b0 - 0xE0) * 64 + (b1 - 0x80)) * 64 + (b2 - 0x80), 3) else None
             | _ \<Rightarrow> None)
          else if 0xF0 \<le> b0 \<and> b0 \<le> 0xF4 then
            (case t of
               b1 # b2 # b3 # _ \<Rightarrow>
                 if fst (second_range b0) \<le> b1 \<and> b1 \<le> snd (second_range b0) \<and>
                    continuation b2 \<and> continuation b3
                 then Some ((((b0 - 0xF0) * 64 + (b1 - 0x80)) * 64 + (b2 - 0x80)) * 64 + (b3 - 0x80), 4)
                 else None
             | _ \<Rightarrow> None)
          else None)"

lemma rune_at_width: "rune_at bs = Some (r, w) \<Longrightarrow> 0 < w \<and> w \<le> length bs"
  by (auto simp: rune_at_def split: list.splits if_splits)

function utf8_runes :: "nat list \<Rightarrow> nat list option" where
  "utf8_runes bs =
     (if bs = [] then Some []
      else case rune_at bs of
             None \<Rightarrow> None
           | Some (r, w) \<Rightarrow> map_option ((#) r) (utf8_runes (drop w bs)))"
  by pat_completeness auto
termination
  by (relation "measure length") (auto dest: rune_at_width)

declare utf8_runes.simps [simp del]

lemma utf8_runes_Nil [simp]: "utf8_runes [] = Some []"
  by (subst utf8_runes.simps) simp

lemma utf8_runes_Cons:
  "utf8_runes (b # bs) = (case rune_at (b # bs) of None \<Rightarrow> None
     | Some (r, w) \<Rightarrow> map_option ((#) r) (utf8_runes (drop w (b # bs))))"
  by (subst utf8_runes.simps) simp

lemma utf8_runes_step:
  assumes "utf8_runes bs = Some rs" "bs \<noteq> []"
  obtains r w rs0 where "rune_at bs = Some (r, w)" "utf8_runes (drop w bs) = Some rs0" "rs = r # rs0"
proof -
  have "(case rune_at bs of None \<Rightarrow> None
      | Some (r, w) \<Rightarrow> map_option ((#) r) (utf8_runes (drop w bs))) = Some rs"
    using assms by (simp add: utf8_runes.simps [of bs])
  then show ?thesis using that by (auto split: option.splits)
qed

definition runes :: "string \<Rightarrow> nat list option" where
  "runes s = utf8_runes (map code_of s)"

definition utf8_valid :: "string \<Rightarrow> bool" where
  "utf8_valid s \<longleftrightarrow> runes s \<noteq> None"

text \<open>\<open>unicode.IsControl\<close>: the category Cc.\<close>

definition is_control :: "nat \<Rightarrow> bool" where
  "is_control r \<longleftrightarrow> r \<le> 0x1F \<or> (0x7F \<le> r \<and> r \<le> 0x9F)"

text \<open>An ASCII string is its own list of runes.\<close>

lemma runes_ascii: "list_all (\<lambda>c. code_of c < 0x80) s \<Longrightarrow> runes s = Some (map code_of s)"
  by (induction s) (auto simp: runes_def utf8_runes_Cons rune_at_def)

text \<open>Every rune of a well-formed string is a scalar value: no surrogate, at most \<open>0x10FFFF\<close>.\<close>

lemma rune_at_scalar:
  "rune_at bs = Some (r, w) \<Longrightarrow> r \<le> 0x10FFFF \<and> \<not> (0xD800 \<le> r \<and> r \<le> 0xDFFF)"
  by (auto simp: rune_at_def continuation_def second_range_def split: list.splits if_splits)

lemma utf8_runes_scalar:
  "utf8_runes bs = Some rs \<Longrightarrow> r \<in> set rs \<Longrightarrow> r \<le> 0x10FFFF \<and> \<not> (0xD800 \<le> r \<and> r \<le> 0xDFFF)"
proof (induction bs arbitrary: rs rule: utf8_runes.induct)
  case (1 bs)
  show ?case
  proof (cases "bs = []")
    case False
    with "1.prems" obtain r0 w rs0 where first: "rune_at bs = Some (r0, w)"
      and rest: "utf8_runes (drop w bs) = Some rs0" and rs: "rs = r0 # rs0"
      by (blast elim: utf8_runes_step)
    from "1.IH" [OF False first refl rest] rune_at_scalar [OF first] "1.prems"(2) rs
    show ?thesis by auto
  qed (use "1.prems" in simp)
qed

end
