(* ===== verification/State_Values.thy ===== *)
theory State_Values
  imports Go_Utf8 Operation_Id Mirror_Rotation
begin

text \<open>
  \<open>internal/state/enums.go\<close> and \<open>validation.go\<close>: the vocabularies of the state files and the
  validation of their fields. The methods of \<open>path/filepath\<close> that the log path check calls are the
  fields of \<open>path_api\<close>; they follow the rules of the platform. The lemmas show that the checks agree
  with those of the packages \<open>protocol\<close> and \<open>mirror\<close>, which test the same things on their own.
\<close>

section \<open>Vocabularies\<close>

type_synonym TransactionKind = string

abbreviation "TransactionBackend \<equiv> ''backend''"
abbreviation "TransactionMutation \<equiv> ''mutation''"
abbreviation "TransactionUpdate \<equiv> ''update''"

definition TransactionKind_Valid :: "TransactionKind \<Rightarrow> bool" where
  "TransactionKind_Valid k \<longleftrightarrow> k = TransactionBackend \<or> k = TransactionMutation \<or> k = TransactionUpdate"

type_synonym BrokenReason = string

abbreviation "ReasonRepositoryChanged \<equiv> ''repository_changed''"
abbreviation "ReasonOperationFailed \<equiv> ''operation_failed''"

definition BrokenReason_Valid :: "BrokenReason \<Rightarrow> bool" where
  "BrokenReason_Valid r \<longleftrightarrow> r = ReasonRepositoryChanged \<or> r = ReasonOperationFailed"

type_synonym WritePhase = string

abbreviation "WritePhaseEncode \<equiv> ''encode''"
abbreviation "WritePhaseRecover \<equiv> ''recover''"
abbreviation "WritePhaseCreate \<equiv> ''create''"
abbreviation "WritePhaseWrite \<equiv> ''write''"
abbreviation "WritePhaseSync \<equiv> ''sync''"
abbreviation "WritePhaseRename \<equiv> ''rename''"
abbreviation "WritePhaseFinalize \<equiv> ''finalize''"
abbreviation "WritePhaseClose \<equiv> ''close''"
abbreviation "WritePhaseRemove \<equiv> ''remove''"

definition write_phases :: "WritePhase list" where
  "write_phases = [WritePhaseEncode, WritePhaseRecover, WritePhaseCreate, WritePhaseWrite,
     WritePhaseSync, WritePhaseRename, WritePhaseFinalize, WritePhaseClose, WritePhaseRemove]"

definition WritePhase_Valid :: "WritePhase \<Rightarrow> bool" where
  "WritePhase_Valid p = List.member write_phases p"

type_synonym MutexKind = string

abbreviation "MutexBackend \<equiv> ''backend''"
abbreviation "MutexMutation \<equiv> ''mutation''"

definition MutexKind_Valid :: "MutexKind \<Rightarrow> bool" where
  "MutexKind_Valid k \<longleftrightarrow> k = MutexBackend \<or> k = MutexMutation"

type_synonym Activity = string

abbreviation "ActivityActive \<equiv> ''active''"
abbreviation "ActivityStale \<equiv> ''stale''"
abbreviation "ActivityInconsistent \<equiv> ''inconsistent''"
abbreviation "ActivityUnknown \<equiv> ''unknown''"

definition Activity_Valid :: "Activity \<Rightarrow> bool" where
  "Activity_Valid a \<longleftrightarrow>
     a = ActivityActive \<or> a = ActivityStale \<or> a = ActivityInconsistent \<or> a = ActivityUnknown"

section \<open>Field validation\<close>

text \<open>\<open>ValidationError\<close> with its field and its cause, \<open>errInvalidValue\<close> or \<open>errMissingField\<close>.\<close>

datatype ValidationError = Invalid string | Missing string

abbreviation maxProductVersionBytes :: nat where "maxProductVersionBytes \<equiv> 128"
abbreviation maxToolVersionBytes :: nat where "maxToolVersionBytes \<equiv> 128"
abbreviation maxLogPathBytes :: nat where "maxLogPathBytes \<equiv> 32767"

definition isASCIIAlphaNumeric :: "char \<Rightarrow> bool" where
  "isASCIIAlphaNumeric c \<longleftrightarrow> is_digit c \<or> is_upper c \<or> is_lower c"

definition validateOperationID :: "string \<Rightarrow> ValidationError option" where
  "validateOperationID v =
     (if length v \<noteq> 26 \<or> hd v > CHR ''7'' then Some (Invalid ''operationId'')
      else if \<not> list_all (\<lambda>c. c \<in> set ulidAlphabet) v then Some (Invalid ''operationId'')
      else None)"

definition version_tail_char :: "char \<Rightarrow> bool" where
  "version_tail_char c \<longleftrightarrow> \<not> (\<not> isASCIIAlphaNumeric c \<and> c \<noteq> CHR ''.'' \<and> c \<noteq> CHR ''-'' \<and> c \<noteq> CHR ''_'')"

definition validateProductVersion :: "string \<Rightarrow> ValidationError option" where
  "validateProductVersion v =
     (if length v < 2 \<or> length v > maxProductVersionBytes \<or> hd v \<noteq> CHR ''v'' then Some (Invalid ''version'')
      else if contains v ''..'' \<or> contains v [CHR ''@'', CHR 0x7B] \<or> has_suffix v ''.'' \<or> has_suffix v ''.lock''
        then Some (Invalid ''version'')
      else if \<not> list_all version_tail_char (tl v) then Some (Invalid ''version'')
      else None)"

definition validateToolVersion :: "string \<Rightarrow> ValidationError option" where
  "validateToolVersion v =
     (if length v = 0 \<or> length v > maxToolVersionBytes \<or> contains v ''..'' \<or> contains v [CHR ''@'', CHR 0x7B] \<or>
         has_suffix v ''.'' \<or> has_suffix v ''.lock'' then Some (Invalid ''toolVersion'')
      else if \<not> list_all version_tail_char v then Some (Invalid ''toolVersion'')
      else None)"

definition validateCommit :: "string \<Rightarrow> ValidationError option" where
  "validateCommit v =
     (if length v \<noteq> 40 then Some (Invalid ''commit'')
      else if \<not> list_all (\<lambda>c. \<not> (\<not> is_digit c \<and> (c < CHR ''a'' \<or> c > CHR ''f''))) v
        then Some (Invalid ''commit'')
      else None)"

text \<open>A \<open>time.Time\<close>: nanoseconds since the first instant of year 1 in UTC, which is the zero time, and
  the offset of its zone in seconds. \<open>MarshalText\<close> fails when the local year has not four digits or
  the offset a day or more.\<close>

record Time =
  instant :: int
  zone_offset :: int

abbreviation first_local_nanosecond :: int where
  "first_local_nanosecond \<equiv> - 31622400000000000"

abbreviation end_local_nanosecond :: int where
  "end_local_nanosecond \<equiv> 315537897600000000000"

definition marshal_time_ok :: "Time \<Rightarrow> bool" where
  "marshal_time_ok t \<longleftrightarrow>
     first_local_nanosecond \<le> instant t + zone_offset t * 1000000000 \<and>
     instant t + zone_offset t * 1000000000 < end_local_nanosecond \<and>
     - 86400 < zone_offset t \<and> zone_offset t < 86400"

definition validateTimestamp :: "string \<Rightarrow> Time \<Rightarrow> ValidationError option" where
  "validateTimestamp field t =
     (if instant t = 0 then Some (Invalid field)
      else if \<not> marshal_time_ok t then Some (Invalid field)
      else None)"

definition containsControl :: "string \<Rightarrow> bool" where
  "containsControl v = (case runes v of None \<Rightarrow> True | Some rs \<Rightarrow> list_ex is_control rs)"

record path_api =
  IsAbs :: "string \<Rightarrow> bool"
  Clean :: "string \<Rightarrow> string"
  Rel :: "string \<Rightarrow> string \<Rightarrow> string option"
  Separator :: char

text \<open>\<open>log_dir\<close> is \<open>RuntimeLogDir\<close> of the layout, \<open>None\<close> a nil layout.\<close>

definition validateRuntimeLogPath :: "path_api \<Rightarrow> string option \<Rightarrow> string \<Rightarrow> ValidationError option" where
  "validateRuntimeLogPath api log_dir v =
     (case log_dir of
        None \<Rightarrow> Some (Invalid ''logPath'')
      | Some d \<Rightarrow>
          if v = '''' \<or> length v > maxLogPathBytes \<or> \<not> utf8_valid v \<or> containsControl v \<or> \<not> IsAbs api v
          then Some (Invalid ''logPath'')
          else (case Rel api d (Clean api v) of
                  None \<Rightarrow> Some (Invalid ''logPath'')
                | Some r \<Rightarrow>
                    if r = ''.'' \<or> r = ''..'' \<or> has_prefix r (''..'' @ [Separator api]) \<or> IsAbs api r
                    then Some (Invalid ''logPath'') else None))"

section \<open>The checks of the packages agree\<close>

lemma version_tail_char_eq: "version_tail_char = version_char"
  by (auto simp: fun_eq_iff version_tail_char_def isASCIIAlphaNumeric_def version_char_def)

lemma validateToolVersion_iff: "validateToolVersion v = None \<longleftrightarrow> validVersionValue v"
  by (simp add: validateToolVersion_def validVersionValue_def version_tail_char_eq)

lemma validateProductVersion_iff:
  "validateProductVersion v = None \<longleftrightarrow> validVersionValue v \<and> has_prefix v ''v'' \<and> 2 \<le> length v"
proof (cases v)
  case (Cons c cs)
  have "version_char (CHR ''v'')" by code_simp
  then have "list_all version_char v \<longleftrightarrow> list_all version_char cs" if "c = CHR ''v''"
    using that Cons by simp
  moreover have "has_prefix v ''v'' \<longleftrightarrow> c = CHR ''v''" using Cons by (auto simp: has_prefix_def)
  ultimately show ?thesis using Cons
    unfolding validateProductVersion_def validVersionValue_def version_tail_char_eq
    by (cases "c = CHR ''v''") (simp_all add: Suc_le_eq)
qed (simp add: validateProductVersion_def validVersionValue_def)

lemma validateCommit_iff: "validateCommit v = None \<longleftrightarrow> validGitCommit v"
proof -
  have "(\<lambda>c. \<not> (\<not> is_digit c \<and> (c < CHR ''a'' \<or> c > CHR ''f''))) =
      (\<lambda>c. is_digit c \<or> (CHR ''a'' \<le> c \<and> c \<le> CHR ''f''))"
    by (auto simp: not_less)
  then show ?thesis by (simp add: validateCommit_def validGitCommit_def)
qed

lemma validateOperationID_iff: "validateOperationID v = None \<longleftrightarrow> validOperationID v"
  by (simp add: validateOperationID_def validOperationID_def isULIDCharacter_def list_all_iff)

text \<open>A control rune below 128 is a byte of the string.\<close>

lemma no_control_bytes:
  assumes "\<not> containsControl v" "c \<in> set v"
  shows "0x20 \<le> code_of c \<and> code_of c \<noteq> 0x7F"
proof -
  obtain rs where rs: "utf8_runes (map code_of v) = Some rs" "\<not> list_ex is_control rs"
    using assms(1) by (auto simp: containsControl_def runes_def split: option.splits)
  have "b < 0x80 \<longrightarrow> b \<in> set rs" if "utf8_runes bs = Some rs" "b \<in> set bs" for b bs rs
    using that
  proof (induction bs arbitrary: rs rule: utf8_runes.induct)
    case (1 bs)
    have ne: "bs \<noteq> []" using "1.prems"(2) by auto
    with "1.prems"(1) obtain r w rs0 where first: "rune_at bs = Some (r, w)"
      and rest: "utf8_runes (drop w bs) = Some rs0" and rs: "rs = r # rs0"
      by (blast elim: utf8_runes_step)
    have split: "b \<in> set (take w bs) \<or> b \<in> set (drop w bs)"
      using "1.prems"(2) by (metis Un_iff append_take_drop_id set_append)
    show ?case
    proof (cases "b \<in> set (drop w bs)")
      case True
      from "1.IH" [OF ne first refl rest True] rs show ?thesis by simp
    next
      case False
      with split have "b \<in> set (take w bs)" by simp
      then show ?thesis using first rs
        by (auto simp: rune_at_def continuation_def second_range_def split: list.splits if_splits)
    qed
  qed
  from this [OF rs(1), of "code_of c"] assms(2) rs(2) show ?thesis
    by (fastforce simp: is_control_def list_ex_iff)
qed

section \<open>Properties\<close>

text \<open>The checks of operation identifiers, commits and versions in the state package accept
  exactly the values that the packages \<open>protocol\<close> and \<open>mirror\<close> accept; a product version is a tool
  version that begins with \<open>v\<close> and has another byte.\<close>

theorem state_checks_agree:
  "(validateOperationID s = None \<longleftrightarrow> validOperationID s) \<and>
   (validateCommit s = None \<longleftrightarrow> validGitCommit s) \<and>
   (validateToolVersion s = None \<longleftrightarrow> validVersionValue s) \<and>
   (validateProductVersion s = None \<longleftrightarrow>
      validateToolVersion s = None \<and> has_prefix s ''v'' \<and> 2 \<le> length s)"
  using validateOperationID_iff validateCommit_iff validateToolVersion_iff validateProductVersion_iff
  by blast

text \<open>An accepted log path is not empty, at most 32767 bytes of well-formed UTF-8 without any
  control byte, absolute, and its clean form relative to the log directory does not lead out of it.\<close>

theorem log_path_safe:
  assumes "validateRuntimeLogPath api log_dir v = None"
  shows "\<exists>d r. log_dir = Some d \<and> Rel api d (Clean api v) = Some r \<and> IsAbs api v \<and>
    0 < length v \<and> length v \<le> 32767 \<and> utf8_valid v \<and>
    list_all (\<lambda>c. 0x20 \<le> code_of c \<and> code_of c \<noteq> 0x7F) v \<and>
    r \<notin> set [''.'', ''..''] \<and> \<not> has_prefix r (''..'' @ [Separator api]) \<and> \<not> IsAbs api r"
proof -
  from assms obtain d r where d: "log_dir = Some d" "Rel api d (Clean api v) = Some r"
    and v: "v \<noteq> ''''" "length v \<le> maxLogPathBytes" "utf8_valid v" "\<not> containsControl v" "IsAbs api v"
    and r: "r \<noteq> ''.''" "r \<noteq> ''..''" "\<not> has_prefix r (''..'' @ [Separator api])" "\<not> IsAbs api r"
    by (auto simp: validateRuntimeLogPath_def split: option.splits if_splits)
  have "list_all (\<lambda>c. 0x20 \<le> code_of c \<and> code_of c \<noteq> 0x7F) v"
    using no_control_bytes [OF v(4)] by (simp add: list_all_iff)
  with d v r show ?thesis by auto
qed

definition example_paths :: path_api where
  "example_paths = \<lparr>IsAbs = (\<lambda>p. has_prefix p ''/''), Clean = (\<lambda>p. p),
     Rel = (\<lambda>d p. if has_prefix p (d @ ''/'') then Some (drop (length d + 1) p) else None),
     Separator = CHR ''/''\<rparr>"

lemma example_log_path:
  "validateRuntimeLogPath example_paths (Some ''/logs'') ''/logs/op.log'' = None"
proof -
  have "list_all (\<lambda>c. code_of c < 0x80) ''/logs/op.log''" by (simp add: byte_codes)
  from runes_ascii [OF this] show ?thesis
    by (simp add: validateRuntimeLogPath_def example_paths_def utf8_valid_def containsControl_def
        is_control_def go_defs byte_codes)
qed

theorem log_path_safe_witness: "utf8_valid ''/logs/op.log''"
  using log_path_safe [OF example_log_path] by blast

end
