(* ===== verification/State_Transaction.thy ===== *)
theory State_Transaction
  imports State_Values Protocol_Values
begin

text \<open>
  \<open>internal/state/transaction.go\<close>: the state of a transaction file and the rules for its fields.
  Where the code iterates over a map of the two commits, the order of the iteration, which decides
  which of two bad fields is reported, is the argument \<open>baseFirst\<close>. The lemmas show which kinds,
  commands and stages go together.
\<close>

section \<open>Model\<close>

abbreviation SchemaVersion :: int where "SchemaVersion \<equiv> 1"

record TransactionState =
  schemaVersion :: int
  operationId :: string
  tx_command :: string
  pid :: "32 word"
  startedAt :: Time
  targetVersion :: string
  tx_stage :: Stage
  targetCommit :: string
  baseCommit :: string

record TransactionInput =
  in_targetCommit :: string
  in_baseCommit :: string
  in_operationId :: string
  in_command :: string
  in_pid :: "32 word"
  in_targetVersion :: string
  in_stage :: Stage

definition mutation_commands :: "string list" where
  "mutation_commands = [''bootstrap'', ''workspace sync'', ''environment ensure'', ''environment repair'',
     ''dependencies sync'', ''dependencies rebuild'', ''repair'', ''cleanup'']"

definition transactionCommandAllowed :: "TransactionKind \<Rightarrow> string \<Rightarrow> bool" where
  "transactionCommandAllowed k c =
     (if k = TransactionBackend then c = ''backend supervise''
      else if k = TransactionMutation then List.member mutation_commands c
      else if k = TransactionUpdate then c = ''bootstrap'' \<or> c = ''workspace sync'' \<or> c = ''workspace stage''
      else False)"

definition uvStage :: "Stage \<Rightarrow> bool" where
  "uvStage s = List.member [StageUVCheck, StageUVDownload, StageUVVerify] s"

definition workspaceMutationStage :: "Stage \<Rightarrow> bool" where
  "workspaceMutationStage s =
     List.member [StageWorkspaceClone, StageWorkspaceVerify, StageWorkspaceSwap, StageWorkspaceCleanup] s"

definition workspaceStage :: "Stage \<Rightarrow> bool" where
  "workspaceStage s \<longleftrightarrow> s = StageWorkspaceCheck \<or> workspaceMutationStage s"

definition pythonStage :: "Stage \<Rightarrow> bool" where
  "pythonStage s \<longleftrightarrow> s = StagePythonCheck \<or> s = StagePythonInstall"

definition dependencyStage :: "Stage \<Rightarrow> bool" where
  "dependencyStage s =
     List.member [StageDependenciesCheck, StageDependenciesSync, StageDependenciesRebuild] s"

definition backendStage :: "Stage \<Rightarrow> bool" where
  "backendStage s = List.member [StageBackendSpawn, StageBackendHealth, StageBackendRun,
     StageBackendRestart, StageBackendShutdown, StageBackendCleanup] s"

definition mutationCommandStageAllowed :: "string \<Rightarrow> Stage \<Rightarrow> bool" where
  "mutationCommandStageAllowed c s =
     (if c = ''bootstrap'' then
        s = StageBootstrap \<or> uvStage s \<or> workspaceStage s \<or> pythonStage s \<or> dependencyStage s
      else if c = ''workspace sync'' then workspaceStage s
      else if c = ''environment ensure'' then uvStage s
      else if c = ''environment repair'' then uvStage s \<or> pythonStage s
      else if c = ''dependencies sync'' then s = StageDependenciesCheck \<or> s = StageDependenciesSync
      else if c = ''dependencies rebuild'' then dependencyStage s
      else if c = ''repair'' then s = StageRepair \<or> uvStage s \<or> pythonStage s \<or> dependencyStage s
      else if c = ''cleanup'' then s = StageCleanup \<or> s = StageWorkspaceCleanup
      else False)"

definition transactionStageAllowed :: "TransactionKind \<Rightarrow> string \<Rightarrow> Stage \<Rightarrow> bool" where
  "transactionStageAllowed k c s =
     (if k = TransactionBackend then backendStage s
      else if k = TransactionUpdate then workspaceMutationStage s \<and> s \<noteq> StageWorkspaceCheck
      else if k = TransactionMutation then mutationCommandStageAllowed c s
      else False)"

definition transactionTargetRequired :: "TransactionKind \<Rightarrow> string \<Rightarrow> bool" where
  "transactionTargetRequired k c \<longleftrightarrow>
     k = TransactionUpdate \<or> (k = TransactionMutation \<and> (c = ''bootstrap'' \<or> c = ''workspace sync''))"

text \<open>The loop over the map of commits.\<close>

fun commits_loop :: "TransactionKind \<Rightarrow> (string \<times> string) list \<Rightarrow> ValidationError option" where
  "commits_loop k [] = None"
| "commits_loop k ((field, commit) # fs) =
     (if commit \<noteq> '''' \<and> (k \<noteq> TransactionUpdate \<or> validateCommit commit \<noteq> None)
      then Some (Invalid field) else commits_loop k fs)"

definition commit_fields :: "bool \<Rightarrow> TransactionState \<Rightarrow> (string \<times> string) list" where
  "commit_fields baseFirst v =
     (if baseFirst then rev else id)
       [(''targetCommit'', targetCommit v), (''baseCommit'', baseCommit v)]"

definition validateStageCommand :: "TransactionState \<Rightarrow> ValidationError option" where
  "validateStageCommand v =
     (if tx_command v = ''workspace stage'' then
        (if baseCommit v = '''' then Some (Invalid ''baseCommit'')
         else if tx_stage v \<noteq> StageWorkspaceClone \<and> targetCommit v = '''' then Some (Invalid ''targetCommit'')
         else None)
      else None)"

definition ValidateTransaction ::
  "bool \<Rightarrow> TransactionKind \<Rightarrow> TransactionState \<Rightarrow> ValidationError option" where
  "ValidateTransaction baseFirst k v =
     (if \<not> TransactionKind_Valid k then Some (Invalid ''kind'')
      else if schemaVersion v \<noteq> SchemaVersion then Some (Invalid ''schemaVersion'')
      else if validateOperationID (operationId v) \<noteq> None then Some (Invalid ''operationId'')
      else if \<not> transactionCommandAllowed k (tx_command v) then Some (Invalid ''command'')
      else if pid v = 0 then Some (Invalid ''pid'')
      else case validateTimestamp ''startedAt'' (startedAt v) of
             Some e \<Rightarrow> Some e
           | None \<Rightarrow>
               if \<not> IsKnownStage (tx_stage v) \<or> \<not> transactionStageAllowed k (tx_command v) (tx_stage v)
                 then Some (Invalid ''stage'')
               else if targetVersion v \<noteq> '''' \<and> validateProductVersion (targetVersion v) \<noteq> None
                 then Some (Invalid ''targetVersion'')
               else if transactionTargetRequired k (tx_command v) \<and> targetVersion v = ''''
                 then Some (Invalid ''targetVersion'')
               else case commits_loop k (commit_fields baseFirst v) of
                      Some e \<Rightarrow> Some e
                    | None \<Rightarrow> validateStageCommand v)"

text \<open>\<open>NewTransaction\<close> takes the store's clock as the sampled instant; \<open>UTC().Round(0)\<close> drops the zone
  and the monotonic reading.\<close>

definition sampleTime :: "string \<Rightarrow> int \<Rightarrow> ValidationError + Time" where
  "sampleTime field now =
     (let t = \<lparr>instant = now, zone_offset = 0\<rparr> in
      case validateTimestamp field t of Some e \<Rightarrow> Inl e | None \<Rightarrow> Inr t)"

definition NewTransaction ::
  "bool \<Rightarrow> int \<Rightarrow> TransactionKind \<Rightarrow> TransactionInput \<Rightarrow> ValidationError + TransactionState" where
  "NewTransaction baseFirst now k i =
     bindE (sampleTime ''startedAt'' now) (\<lambda>t.
       let v = \<lparr>schemaVersion = SchemaVersion, operationId = in_operationId i, tx_command = in_command i,
             pid = in_pid i, startedAt = t, targetVersion = in_targetVersion i, tx_stage = in_stage i,
             targetCommit = in_targetCommit i, baseCommit = in_baseCommit i\<rparr>
       in case ValidateTransaction baseFirst k v of Some e \<Rightarrow> Inl e | None \<Rightarrow> Inr v)"

section \<open>What an accepted transaction is\<close>

lemma commits_loop_None:
  "commits_loop k fs = None \<longleftrightarrow>
   (\<forall>p \<in> set fs. snd p \<noteq> '''' \<longrightarrow> k = TransactionUpdate \<and> validateCommit (snd p) = None)"
  by (induction k fs rule: commits_loop.induct) auto

lemma commit_fields_set:
  "snd ` set (commit_fields baseFirst v) = {targetCommit v, baseCommit v}"
  by (auto simp: commit_fields_def)

lemma commits_ok:
  "commits_loop k (commit_fields baseFirst v) = None \<longleftrightarrow>
   (\<forall>c \<in> {targetCommit v, baseCommit v}. c \<noteq> '''' \<longrightarrow> k = TransactionUpdate \<and> validateCommit c = None)"
  unfolding commits_loop_None commit_fields_set [of baseFirst, symmetric] ball_simps by (rule refl)

lemma ValidateTransaction_None:
  "ValidateTransaction baseFirst k v = None \<longleftrightarrow>
   TransactionKind_Valid k \<and> schemaVersion v = SchemaVersion \<and> validateOperationID (operationId v) = None \<and>
   transactionCommandAllowed k (tx_command v) \<and> pid v \<noteq> 0 \<and>
   validateTimestamp ''startedAt'' (startedAt v) = None \<and> IsKnownStage (tx_stage v) \<and>
   transactionStageAllowed k (tx_command v) (tx_stage v) \<and>
   (targetVersion v \<noteq> '''' \<longrightarrow> validateProductVersion (targetVersion v) = None) \<and>
   (transactionTargetRequired k (tx_command v) \<longrightarrow> targetVersion v \<noteq> '''') \<and>
   commits_loop k (commit_fields baseFirst v) = None \<and> validateStageCommand v = None"
  unfolding ValidateTransaction_def check_chain
  by (simp only: de_Morgan_conj de_Morgan_disj not_not imp_conv_disj conj_assoc)

text \<open>Acceptance does not depend on the order of the map.\<close>

lemma ValidateTransaction_order:
  "ValidateTransaction b k v = None \<longleftrightarrow> ValidateTransaction b' k v = None"
  unfolding ValidateTransaction_None commits_ok by (rule refl)

lemma stage_in_stages:
  "list_all IsKnownStage ([StageUVCheck, StageUVDownload, StageUVVerify] @
     [StageWorkspaceClone, StageWorkspaceVerify, StageWorkspaceSwap, StageWorkspaceCleanup] @
     [StageDependenciesCheck, StageDependenciesSync, StageDependenciesRebuild] @
     [StageBackendSpawn, StageBackendHealth, StageBackendRun, StageBackendRestart,
      StageBackendShutdown, StageBackendCleanup])"
  by code_simp

text \<open>The table of the stages that each command may be in, listed.\<close>

definition command_stages :: "TransactionKind \<Rightarrow> string \<Rightarrow> Stage list" where
  "command_stages k c = filter (transactionStageAllowed k c) stages"

definition kind_commands :: "(TransactionKind \<times> string) list" where
  "kind_commands =
     (TransactionBackend, ''backend supervise'') # map (Pair TransactionMutation) mutation_commands @
     map (Pair TransactionUpdate) [''bootstrap'', ''workspace sync'', ''workspace stage'']"

lemma kind_commands_iff:
  "transactionCommandAllowed k c \<longleftrightarrow> (k, c) \<in> set kind_commands"
  unfolding transactionCommandAllowed_def kind_commands_def by (auto simp: List.member_iff)

lemma every_command_has_stage: "list_all (\<lambda>(k, c). command_stages k c \<noteq> []) kind_commands"
  by code_simp

lemma backend_stages_apart:
  "list_all (\<lambda>s. backendStage s \<longrightarrow> \<not> workspaceMutationStage s \<and>
     list_all (\<lambda>c. \<not> mutationCommandStageAllowed c s) mutation_commands) stages"
  by code_simp

section \<open>Properties\<close>

text \<open>an accepted transaction belongs to a known kind with one of its commands, is in a known stage
  that this command may be in, has a process, a canonical operation identifier and a well-formed
  target version where one is required; commits occur only in update transactions and are well
  formed; a staged workspace has its base commit, and its target commit once it is cloned.\<close>

theorem accepted_transaction:
  assumes "ValidateTransaction baseFirst k v = None"
  shows "(k, tx_command v) \<in> set kind_commands \<and> tx_stage v \<in> set (command_stages k (tx_command v)) \<and>
    validOperationID (operationId v) \<and> pid v \<noteq> 0 \<and> marshal_time_ok (startedAt v) \<and>
    (targetVersion v = '''' \<or> (validVersionValue (targetVersion v) \<and> has_prefix (targetVersion v) ''v'')) \<and>
    (k = TransactionUpdate \<longrightarrow> targetVersion v \<noteq> '''') \<and>
    (\<forall>c \<in> {targetCommit v, baseCommit v}. c \<noteq> '''' \<longrightarrow> k = TransactionUpdate \<and> validGitCommit c) \<and>
    (tx_command v = ''workspace stage'' \<longrightarrow> baseCommit v \<noteq> '''' \<and>
       (tx_stage v = StageWorkspaceClone \<or> targetCommit v \<noteq> ''''))"
proof -
  note v = assms [unfolded ValidateTransaction_None]
  have "tx_stage v \<in> set (command_stages k (tx_command v))"
    using v unfolding command_stages_def IsKnownStage_def by (simp add: List.member_iff)
  moreover have "marshal_time_ok (startedAt v)"
    using v by (auto simp: validateTimestamp_def split: if_splits)
  moreover have "\<forall>c \<in> {targetCommit v, baseCommit v}. c \<noteq> '''' \<longrightarrow> k = TransactionUpdate \<and> validGitCommit c"
    using v commits_ok [of k baseFirst v] unfolding validateCommit_iff by blast
  moreover have "tx_command v = ''workspace stage'' \<longrightarrow> baseCommit v \<noteq> '''' \<and>
       (tx_stage v = StageWorkspaceClone \<or> targetCommit v \<noteq> '''')"
    using v by (auto simp: validateStageCommand_def split: if_splits)
  ultimately show ?thesis
    using v kind_commands_iff validateOperationID_iff validateProductVersion_iff
    by (auto simp: transactionTargetRequired_def)
qed

text \<open>Every command of every kind has a stage it may be in, and a value that the backend kind
  accepts is accepted by no other kind.\<close>

theorem transaction_kinds_apart:
  "list_all (\<lambda>(k, c). command_stages k c \<noteq> []) kind_commands \<and>
   (ValidateTransaction b TransactionBackend v = None \<longrightarrow>
      ValidateTransaction b' TransactionMutation v \<noteq> None \<and>
      ValidateTransaction b' TransactionUpdate v \<noteq> None)"
proof (intro conjI impI every_command_has_stage)
  assume v: "ValidateTransaction b TransactionBackend v = None"
  then have c: "tx_command v = ''backend supervise''"
    by (simp add: ValidateTransaction_None transactionCommandAllowed_def)
  have "\<not> transactionCommandAllowed TransactionMutation ''backend supervise''"
    "\<not> transactionCommandAllowed TransactionUpdate ''backend supervise''" by code_simp+
  with c show "ValidateTransaction b' TransactionMutation v \<noteq> None"
    "ValidateTransaction b' TransactionUpdate v \<noteq> None"
    by (simp_all add: ValidateTransaction_None)
qed

text \<open>\<open>NewTransaction\<close> only returns values that validate, with the fields of its input, the current
  schema and the sampled time in UTC.\<close>

theorem new_transaction_valid:
  assumes "NewTransaction baseFirst now k i = Inr v"
  shows "ValidateTransaction b k v = None \<and> schemaVersion v = 1 \<and>
    startedAt v = \<lparr>instant = now, zone_offset = 0\<rparr> \<and> now \<noteq> 0 \<and>
    operationId v = in_operationId i \<and> tx_command v = in_command i \<and> pid v = in_pid i \<and>
    targetVersion v = in_targetVersion i \<and> tx_stage v = in_stage i \<and>
    targetCommit v = in_targetCommit i \<and> baseCommit v = in_baseCommit i"
proof -
  from assms obtain t where t: "sampleTime ''startedAt'' now = Inr t"
    and v: "ValidateTransaction baseFirst k v = None"
    and fields: "v = \<lparr>schemaVersion = SchemaVersion, operationId = in_operationId i, tx_command = in_command i,
             pid = in_pid i, startedAt = t, targetVersion = in_targetVersion i, tx_stage = in_stage i,
             targetCommit = in_targetCommit i, baseCommit = in_baseCommit i\<rparr>"
    by (auto simp: NewTransaction_def bindE_Inr_iff Let_def split: option.splits)
  have "t = \<lparr>instant = now, zone_offset = 0\<rparr>" "now \<noteq> 0"
    using t by (auto simp: sampleTime_def Let_def validateTimestamp_def split: if_splits)
  moreover have "ValidateTransaction b k v = None" using v ValidateTransaction_order by blast
  ultimately show ?thesis unfolding fields by simp
qed

definition example_input :: TransactionInput where
  "example_input = \<lparr>in_targetCommit = '''', in_baseCommit = replicate 40 (CHR ''b''),
     in_operationId = ''01ARZ3NDEKTSV4RRFFQ69G5FAV'', in_command = ''workspace stage'', in_pid = 4242,
     in_targetVersion = ''v1.2.3'', in_stage = StageWorkspaceClone\<rparr>"

definition example_transaction :: TransactionState where
  "example_transaction = \<lparr>schemaVersion = 1, operationId = ''01ARZ3NDEKTSV4RRFFQ69G5FAV'',
     tx_command = ''workspace stage'', pid = 4242, startedAt = \<lparr>instant = 63900000000, zone_offset = 0\<rparr>,
     targetVersion = ''v1.2.3'', tx_stage = StageWorkspaceClone, targetCommit = '''',
     baseCommit = replicate 40 (CHR ''b'')\<rparr>"

lemma example_transaction_valid: "ValidateTransaction False TransactionUpdate example_transaction = None"
proof -
  have "validateOperationID ''01ARZ3NDEKTSV4RRFFQ69G5FAV'' = None" by code_simp
  moreover have "validateCommit (replicate 40 (CHR ''b'')) = None" by code_simp
  moreover have "validateProductVersion ''v1.2.3'' = None" by code_simp
  moreover have "IsKnownStage StageWorkspaceClone" by code_simp
  moreover have "workspaceMutationStage StageWorkspaceClone" by code_simp
  ultimately show ?thesis unfolding ValidateTransaction_None commits_ok
    by (simp add: example_transaction_def TransactionKind_Valid_def transactionCommandAllowed_def
        validateTimestamp_def marshal_time_ok_def transactionStageAllowed_def validateStageCommand_def)
qed

lemma example_transaction_new:
  "NewTransaction False 63900000000 TransactionUpdate example_input = Inr example_transaction"
proof -
  have "sampleTime ''startedAt'' 63900000000 = Inr \<lparr>instant = 63900000000, zone_offset = 0\<rparr>"
    by (simp add: sampleTime_def validateTimestamp_def marshal_time_ok_def)
  then show ?thesis using example_transaction_valid
    by (simp add: NewTransaction_def example_transaction_def example_input_def Let_def)
qed

theorem accepted_transaction_witness:
  "StageWorkspaceClone \<in> set (command_stages TransactionUpdate ''workspace stage'')"
  using accepted_transaction [OF example_transaction_valid] by (simp add: example_transaction_def)

theorem new_transaction_valid_witness:
  "ValidateTransaction True TransactionUpdate example_transaction = None"
  using new_transaction_valid [OF example_transaction_new] by blast

definition example_backend_transaction :: TransactionState where
  "example_backend_transaction = example_transaction\<lparr>tx_command := ''backend supervise'',
     tx_stage := StageBackendRun, baseCommit := '''', targetVersion := ''''\<rparr>"

theorem transaction_kinds_apart_witness:
  "ValidateTransaction False TransactionUpdate example_backend_transaction \<noteq> None"
proof -
  have "validateOperationID ''01ARZ3NDEKTSV4RRFFQ69G5FAV'' = None" by code_simp
  moreover have "IsKnownStage StageBackendRun" by code_simp
  moreover have "backendStage StageBackendRun" by code_simp
  ultimately have "ValidateTransaction False TransactionBackend example_backend_transaction = None"
    unfolding ValidateTransaction_None commits_ok
    by (simp add: example_backend_transaction_def example_transaction_def TransactionKind_Valid_def
        transactionCommandAllowed_def validateTimestamp_def marshal_time_ok_def
        transactionStageAllowed_def validateStageCommand_def transactionTargetRequired_def)
  with transaction_kinds_apart [of False example_backend_transaction False] show ?thesis by blast
qed

end
