(* ===== verification/State_Environment.thy ===== *)
theory State_Environment
  imports State_Transaction
begin

text \<open>
  \<open>internal/state/environment.go\<close>: the persistent state of the main environment, ready or broken, and
  the rules for it. The lemmas show that the constructors only give valid states and what a valid
  state says: ready means a complete last success and nothing broken, broken names a stage, a reason
  and an exit code that belong together.
\<close>

section \<open>Model\<close>

record Revision =
  rev_version :: string
  rev_commit :: string

record BrokenEnvironment =
  be_targetVersion :: string
  be_branch :: string
  be_commit :: string
  be_pythonVersion :: string
  be_uvVersion :: string
  be_reason :: BrokenReason
  be_stage :: Stage
  be_exitCode :: int
  be_logPath :: string

record EnvironmentState =
  env_schemaVersion :: int
  env_status :: StateStatus
  env_updatedAt :: Time
  env_lastSuccessful :: Revision
  env_broken :: "BrokenEnvironment option"

definition validateRevision :: "Revision \<Rightarrow> ValidationError option" where
  "validateRevision r =
     (if (rev_version r = '''') \<noteq> (rev_commit r = '''') then Some (Invalid ''lastSuccessful'')
      else if rev_version r = '''' then None
      else if validateProductVersion (rev_version r) \<noteq> None then Some (Invalid ''lastSuccessful'')
      else if validateCommit (rev_commit r) \<noteq> None then Some (Invalid ''lastSuccessful'')
      else None)"

definition operationFailedStages :: "Stage list" where
  "operationFailedStages = [StageWorkspaceCleanup, StageUVCheck, StageUVDownload, StageUVVerify,
     StagePythonCheck, StagePythonInstall, StageDependenciesCheck, StageDependenciesSync,
     StageDependenciesRebuild]"

definition operationFailedStage :: "Stage \<Rightarrow> bool" where
  "operationFailedStage s = List.member operationFailedStages s"

definition toolsRequiredStages :: "Stage list" where
  "toolsRequiredStages = [StagePythonInstall, StageDependenciesCheck, StageDependenciesSync,
     StageDependenciesRebuild]"

definition operationFailedToolsRequired :: "Stage \<Rightarrow> bool" where
  "operationFailedToolsRequired s = List.member toolsRequiredStages s"

text \<open>The \<open>switch\<close> over the reason.\<close>

definition validateReason :: "BrokenEnvironment \<Rightarrow> ValidationError option" where
  "validateReason b =
     (if be_reason b = ReasonRepositoryChanged then
        (if be_stage b \<noteq> StageWorkspaceSwap \<and> be_stage b \<noteq> StageWorkspaceVerify then Some (Invalid ''stage'')
         else if be_exitCode b \<noteq> 0 then Some (Invalid ''exitCode'')
         else None)
      else if be_reason b = ReasonOperationFailed then
        (if \<not> operationFailedStage (be_stage b) then Some (Invalid ''stage'')
         else if be_exitCode b \<le> 0 then Some (Invalid ''exitCode'')
         else if operationFailedToolsRequired (be_stage b) \<and> (be_pythonVersion b = '''' \<or> be_uvVersion b = '''')
           then Some (Invalid ''toolVersion'')
         else None)
      else Some (Invalid ''reason''))"

definition validateBrokenEnvironment ::
  "path_api \<Rightarrow> string option \<Rightarrow> BrokenEnvironment \<Rightarrow> ValidationError option" where
  "validateBrokenEnvironment api log_dir b =
     (if be_targetVersion b = '''' then Some (Invalid ''targetVersion'')
      else if validateProductVersion (be_targetVersion b) \<noteq> None then Some (Invalid ''targetVersion'')
      else if (be_branch b \<noteq> ProductBranch (be_targetVersion b) \<and>
               be_branch b \<noteq> ''release/'' @ be_targetVersion b) \<or> containsControl (be_branch b)
        then Some (Invalid ''branch'')
      else if validateCommit (be_commit b) \<noteq> None then Some (Invalid ''commit'')
      else if be_pythonVersion b \<noteq> '''' \<and> validateToolVersion (be_pythonVersion b) \<noteq> None
        then Some (Invalid ''pythonVersion'')
      else if be_uvVersion b \<noteq> '''' \<and> validateToolVersion (be_uvVersion b) \<noteq> None
        then Some (Invalid ''uvVersion'')
      else if \<not> BrokenReason_Valid (be_reason b) then Some (Invalid ''reason'')
      else if \<not> IsKnownStage (be_stage b) then Some (Invalid ''stage'')
      else case validateRuntimeLogPath api log_dir (be_logPath b) of
             None \<Rightarrow> validateReason b
           | Some e \<Rightarrow> Some e)"

definition validateEnvironment ::
  "path_api \<Rightarrow> string option \<Rightarrow> EnvironmentState \<Rightarrow> ValidationError option" where
  "validateEnvironment api log_dir v =
     (if env_schemaVersion v \<noteq> SchemaVersion then Some (Invalid ''schemaVersion'')
      else if env_status v \<noteq> StateReadyToStart \<and> env_status v \<noteq> StateEnvironmentBroken
        then Some (Invalid ''status'')
      else case validateTimestamp ''updatedAt'' (env_updatedAt v) of
             Some e \<Rightarrow> Some e
           | None \<Rightarrow>
               (case validateRevision (env_lastSuccessful v) of
                  Some e \<Rightarrow> Some e
                | None \<Rightarrow>
                    if env_status v = StateReadyToStart then
                      (if rev_version (env_lastSuccessful v) = '''' \<or> rev_commit (env_lastSuccessful v) = ''''
                         then Some (Invalid ''lastSuccessful'')
                       else if env_broken v \<noteq> None then Some (Invalid ''broken'')
                       else None)
                    else if env_status v = StateEnvironmentBroken then
                      (case env_broken v of
                         None \<Rightarrow> Some (Invalid ''broken'')
                       | Some b \<Rightarrow> validateBrokenEnvironment api log_dir b)
                    else Some (Invalid ''status'')))"

definition checked_environment ::
  "path_api \<Rightarrow> string option \<Rightarrow> EnvironmentState \<Rightarrow> ValidationError + EnvironmentState" where
  "checked_environment api log_dir v =
     (case validateEnvironment api log_dir v of Some e \<Rightarrow> Inl e | None \<Rightarrow> Inr v)"

definition NewReadyEnvironment ::
  "path_api \<Rightarrow> string option \<Rightarrow> int \<Rightarrow> string \<Rightarrow> string \<Rightarrow> ValidationError + EnvironmentState" where
  "NewReadyEnvironment api log_dir now ver commit =
     bindE (sampleTime ''updatedAt'' now) (\<lambda>t. checked_environment api log_dir
       \<lparr>env_schemaVersion = SchemaVersion, env_status = StateReadyToStart, env_updatedAt = t,
        env_lastSuccessful = \<lparr>rev_version = ver, rev_commit = commit\<rparr>, env_broken = None\<rparr>)"

definition NewBrokenEnvironment ::
  "path_api \<Rightarrow> string option \<Rightarrow> int \<Rightarrow> Revision \<Rightarrow> BrokenEnvironment \<Rightarrow> ValidationError + EnvironmentState" where
  "NewBrokenEnvironment api log_dir now lastSuccessful broken =
     bindE (sampleTime ''updatedAt'' now) (\<lambda>t. checked_environment api log_dir
       \<lparr>env_schemaVersion = SchemaVersion, env_status = StateEnvironmentBroken, env_updatedAt = t,
        env_lastSuccessful = lastSuccessful, env_broken = Some broken\<rparr>)"

section \<open>Accepted values\<close>

lemma validateRevision_None:
  "validateRevision r = None \<longleftrightarrow>
   (rev_version r = '''' \<and> rev_commit r = '''') \<or>
   (validateProductVersion (rev_version r) = None \<and> validateCommit (rev_commit r) = None)"
proof -
  have "validateProductVersion '''' \<noteq> None" "validateCommit '''' \<noteq> None"
    by (simp_all add: validateProductVersion_def validateCommit_def)
  then show ?thesis unfolding validateRevision_def
    by (cases "rev_version r = ''''"; cases "rev_commit r = ''''") simp_all
qed

lemma validateBrokenEnvironment_None:
  "validateBrokenEnvironment api log_dir b = None \<longleftrightarrow>
   be_targetVersion b \<noteq> '''' \<and> validateProductVersion (be_targetVersion b) = None \<and>
   (be_branch b = ProductBranch (be_targetVersion b) \<or> be_branch b = ''release/'' @ be_targetVersion b) \<and>
   \<not> containsControl (be_branch b) \<and> validateCommit (be_commit b) = None \<and>
   (be_pythonVersion b = '''' \<or> validateToolVersion (be_pythonVersion b) = None) \<and>
   (be_uvVersion b = '''' \<or> validateToolVersion (be_uvVersion b) = None) \<and>
   BrokenReason_Valid (be_reason b) \<and> IsKnownStage (be_stage b) \<and>
   validateRuntimeLogPath api log_dir (be_logPath b) = None \<and> validateReason b = None"
  unfolding validateBrokenEnvironment_def check_chain
  by (simp only: de_Morgan_conj de_Morgan_disj not_not conj_assoc)

lemma validateEnvironment_ready:
  assumes "validateEnvironment api log_dir v = None" "env_status v = StateReadyToStart"
  shows "env_broken v = None \<and> validateProductVersion (rev_version (env_lastSuccessful v)) = None \<and>
    validateCommit (rev_commit (env_lastSuccessful v)) = None"
proof -
  have "validateRevision (env_lastSuccessful v) = None" "rev_version (env_lastSuccessful v) \<noteq> ''''"
    "env_broken v = None"
    using assms by (auto simp: validateEnvironment_def split: option.splits if_splits)
  then show ?thesis unfolding validateRevision_None by blast
qed

lemma validateEnvironment_broken:
  assumes "validateEnvironment api log_dir v = None" "env_status v \<noteq> StateReadyToStart"
  shows "env_status v = StateEnvironmentBroken \<and> validateRevision (env_lastSuccessful v) = None \<and>
    (\<exists>b. env_broken v = Some b \<and> validateBrokenEnvironment api log_dir b = None)"
  using assms by (auto simp: validateEnvironment_def split: option.splits if_splits)

lemma checked_environment_Inr:
  "checked_environment api log_dir v = Inr w \<longleftrightarrow> w = v \<and> validateEnvironment api log_dir v = None"
  by (auto simp: checked_environment_def split: option.splits)

lemma failed_stage_known: "list_all IsKnownStage operationFailedStages"
  by code_simp

lemma tools_stage_failed: "list_all operationFailedStage toolsRequiredStages"
  by code_simp

section \<open>Properties\<close>

text \<open>A valid environment is ready exactly when nothing is broken, and then its last success has a
  well-formed version and commit; otherwise it is broken, its branch follows from its target version,
  a repository change has exit code 0 in the swap or verify stage, and a failed operation has a
  positive exit code in one of the failing stages, with both tool versions where they are needed.\<close>

theorem environment_says:
  assumes "validateEnvironment api log_dir v = None"
  shows "(env_status v = StateReadyToStart) = (env_broken v = None) \<and>
    (env_status v = StateReadyToStart \<or> env_status v = StateEnvironmentBroken) \<and>
    (env_status v = StateReadyToStart \<longrightarrow>
       validGitCommit (rev_commit (env_lastSuccessful v)) \<and>
       validVersionValue (rev_version (env_lastSuccessful v))) \<and>
    (\<forall>b. env_broken v = Some b \<longrightarrow>
       be_branch b \<in> {ProductBranch (be_targetVersion b), ''release/'' @ be_targetVersion b} \<and>
       validGitCommit (be_commit b) \<and>
       (be_reason b = ReasonRepositoryChanged \<and> be_exitCode b = 0 \<and>
          be_stage b \<in> {StageWorkspaceSwap, StageWorkspaceVerify} \<or>
        be_reason b = ReasonOperationFailed \<and> 0 < be_exitCode b \<and> be_stage b \<in> set operationFailedStages \<and>
          (be_stage b \<in> set toolsRequiredStages \<longrightarrow>
             validVersionValue (be_pythonVersion b) \<and> validVersionValue (be_uvVersion b))))"
proof (cases "env_status v = StateReadyToStart")
  case True
  from validateEnvironment_ready [OF assms True] True show ?thesis
    by (simp add: validateCommit_iff validateProductVersion_iff)
next
  case False
  from validateEnvironment_broken [OF assms False] obtain b where
    st: "env_status v = StateEnvironmentBroken" and b: "env_broken v = Some b"
    and ok: "validateBrokenEnvironment api log_dir b = None" by blast
  note ok = ok [unfolded validateBrokenEnvironment_None]
  have "be_reason b = ReasonRepositoryChanged \<and> be_exitCode b = 0 \<and>
          be_stage b \<in> {StageWorkspaceSwap, StageWorkspaceVerify} \<or>
        be_reason b = ReasonOperationFailed \<and> 0 < be_exitCode b \<and> operationFailedStage (be_stage b) \<and>
          (operationFailedToolsRequired (be_stage b) \<longrightarrow>
             be_pythonVersion b \<noteq> '''' \<and> be_uvVersion b \<noteq> '''')"
    using ok unfolding validateReason_def by (simp split: if_split_asm)
  then have "be_reason b = ReasonRepositoryChanged \<and> be_exitCode b = 0 \<and>
          be_stage b \<in> {StageWorkspaceSwap, StageWorkspaceVerify} \<or>
        be_reason b = ReasonOperationFailed \<and> 0 < be_exitCode b \<and> be_stage b \<in> set operationFailedStages \<and>
          (be_stage b \<in> set toolsRequiredStages \<longrightarrow>
             validVersionValue (be_pythonVersion b) \<and> validVersionValue (be_uvVersion b))"
    using ok unfolding operationFailedStage_def operationFailedToolsRequired_def List.member_iff
      validateToolVersion_iff by blast
  with st b ok False show ?thesis unfolding validateCommit_iff by (simp only: option.inject) blast
qed

text \<open>The constructors return valid states only, of their status, with the current schema and the
  sampled time; a broken state keeps the last successful revision it was given.\<close>

theorem new_environment_valid:
  "(NewReadyEnvironment api log_dir now ver commit = Inr v \<longrightarrow>
      validateEnvironment api log_dir v = None \<and> env_status v = StateReadyToStart \<and>
      env_lastSuccessful v = \<lparr>rev_version = ver, rev_commit = commit\<rparr> \<and> env_broken v = None \<and>
      instant (env_updatedAt v) = now) \<and>
   (NewBrokenEnvironment api log_dir now lastSuccessful broken = Inr w \<longrightarrow>
      validateEnvironment api log_dir w = None \<and> env_status w = StateEnvironmentBroken \<and>
      env_lastSuccessful w = lastSuccessful \<and> env_broken w = Some broken \<and>
      instant (env_updatedAt w) = now)"
proof -
  have "sampleTime f now = Inr t \<Longrightarrow> instant t = now" for f t
    by (auto simp: sampleTime_def Let_def split: option.splits)
  then show ?thesis
    unfolding NewReadyEnvironment_def NewBrokenEnvironment_def
    by (auto simp: bindE_Inr_iff checked_environment_Inr)
qed

definition example_ready :: EnvironmentState where
  "example_ready = \<lparr>env_schemaVersion = 1, env_status = StateReadyToStart,
     env_updatedAt = \<lparr>instant = 63900000000, zone_offset = 0\<rparr>,
     env_lastSuccessful = \<lparr>rev_version = ''v1.2.3'', rev_commit = replicate 40 (CHR ''b'')\<rparr>,
     env_broken = None\<rparr>"

lemma example_ready_valid: "validateEnvironment example_paths (Some ''/logs'') example_ready = None"
proof -
  have "validateProductVersion ''v1.2.3'' = None" "validateCommit (replicate 40 (CHR ''b'')) = None"
    by code_simp+
  then have "validateRevision \<lparr>rev_version = ''v1.2.3'', rev_commit = replicate 40 (CHR ''b'')\<rparr> = None"
    unfolding validateRevision_None by simp
  then show ?thesis
    by (simp add: validateEnvironment_def example_ready_def validateTimestamp_def marshal_time_ok_def)
qed

theorem environment_says_witness: "validGitCommit (rev_commit (env_lastSuccessful example_ready))"
  using environment_says [OF example_ready_valid] by (simp add: example_ready_def)

theorem new_environment_valid_witness:
  "validateEnvironment example_paths (Some ''/logs'') example_ready = None \<and>
   instant (env_updatedAt example_ready) = 63900000000"
proof -
  have "sampleTime ''updatedAt'' 63900000000 = Inr \<lparr>instant = 63900000000, zone_offset = 0\<rparr>"
    by (simp add: sampleTime_def validateTimestamp_def marshal_time_ok_def)
  then have "NewReadyEnvironment example_paths (Some ''/logs'') 63900000000 ''v1.2.3''
      (replicate 40 (CHR ''b'')) = Inr example_ready"
    using example_ready_valid
    by (simp add: NewReadyEnvironment_def checked_environment_def example_ready_def)
  with new_environment_valid show ?thesis by blast
qed

end
