(* ===== verification/State_Codec.thy ===== *)
theory State_Codec
  imports State_Environment
begin

text \<open>
  \<open>internal/state/codec.go\<close>: reading the bytes of a state file. \<open>encoding/json\<close> is the record
  \<open>json_api\<close>: the tokens of its decoder and its decoding of values. The scan for duplicate keys works on
  the tokens; the code recurses through the nesting, the model does so with fuel, and the lemmas show
  that fuel of twice the number of tokens and one is never used up. The main result is that the scan accepts
  exactly the token sequences of an object in which no key occurs twice at any depth.
\<close>

section \<open>Tokens\<close>

datatype json_token = TDelim char | TStr string | TNum string | TBool bool | TNull

text \<open>What the next call of \<open>Token\<close> gives; the end of the list is \<open>io.EOF\<close>. The boolean of an error is
  what \<open>More\<close> says before it: whether the next byte is neither a closing delimiter nor missing.\<close>

datatype token_event = Tok json_token | TokError bool

datatype ScanError = InvalidJSON | DuplicateField | MissingField | FileTooLarge

abbreviation "OBRACE \<equiv> CHR 0x7B"
abbreviation "CBRACE \<equiv> CHR 0x7D"
abbreviation "OBRACKET \<equiv> CHR 0x5B"
abbreviation "CBRACKET \<equiv> CHR 0x5D"

fun more :: "token_event list \<Rightarrow> bool" where
  "more [] = False"
| "more (TokError b # es) = b"
| "more (Tok (TDelim c) # es) = (c \<noteq> CBRACKET \<and> c \<noteq> CBRACE)"
| "more (Tok t # es) = True"

text \<open>\<open>strconv.ParseInt\<close> with base 10 and 64 bits.\<close>

fun digits_value :: "nat \<Rightarrow> string \<Rightarrow> nat option" where
  "digits_value n [] = Some n"
| "digits_value n (c # cs) =
     (if is_digit c then digits_value (10 * n + (code_of c - 48)) cs else None)"

definition parse_int :: "string \<Rightarrow> int option" where
  "parse_int s =
     (let neg = has_prefix s ''-'';
          ds = (if has_prefix s ''-'' \<or> has_prefix s ''+'' then tl s else s)
      in if ds = '''' then None
         else case digits_value 0 ds of
                None \<Rightarrow> None
              | Some n \<Rightarrow>
                  if neg then (if int n \<le> 2 ^ 63 then Some (- int n) else None)
                  else if int n < 2 ^ 63 then Some (int n) else None)"

section \<open>The scan\<close>

text \<open>\<open>scan_object\<close> is the loop of \<open>scanJSONObject\<close> with its variables \<open>seen\<close>, \<open>schemaVersion\<close> and
  \<open>schemaPresent\<close>; \<open>None\<close> is the lack of fuel.\<close>

definition capture_schema :: "bool \<Rightarrow> string \<Rightarrow> json_token \<Rightarrow> int \<times> bool \<Rightarrow> ScanError + (int \<times> bool)" where
  "capture_schema capture k v schema =
     (if capture \<and> k = ''schemaVersion'' then
        (case v of
           TNum s \<Rightarrow> (case parse_int s of None \<Rightarrow> Inl InvalidJSON | Some i \<Rightarrow> Inr (i, True))
         | _ \<Rightarrow> Inl InvalidJSON)
      else Inr schema)"

fun scan_value :: "nat \<Rightarrow> json_token \<Rightarrow> token_event list \<Rightarrow> (ScanError + token_event list) option"
  and scan_items :: "nat \<Rightarrow> token_event list \<Rightarrow> (ScanError + token_event list) option"
  and scan_object ::
    "nat \<Rightarrow> bool \<Rightarrow> string list \<Rightarrow> int \<times> bool \<Rightarrow> token_event list \<Rightarrow>
     (ScanError + (int \<times> bool) \<times> token_event list) option" where
  "scan_value 0 t es = None"
| "scan_value (Suc n) t es =
     (case t of
        TDelim c \<Rightarrow>
          if c = OBRACE then
            (case scan_object n False [] (0, False) es of
               None \<Rightarrow> None
             | Some (Inl e) \<Rightarrow> Some (Inl e)
             | Some (Inr (_, es')) \<Rightarrow> Some (Inr es'))
          else if c = OBRACKET then scan_items n es
          else Some (Inl InvalidJSON)
      | _ \<Rightarrow> Some (Inr es))"
| "scan_items 0 es = None"
| "scan_items (Suc n) es =
     (if more es then
        (case es of
           Tok item # es' \<Rightarrow>
             (case scan_value n item es' of
                None \<Rightarrow> None
              | Some (Inl e) \<Rightarrow> Some (Inl e)
              | Some (Inr es'') \<Rightarrow> scan_items n es'')
         | _ \<Rightarrow> Some (Inl InvalidJSON))
      else
        (case es of
           Tok (TDelim c) # es' \<Rightarrow> if c = CBRACKET then Some (Inr es') else Some (Inl InvalidJSON)
         | _ \<Rightarrow> Some (Inl InvalidJSON)))"
| "scan_object 0 capture seen schema es = None"
| "scan_object (Suc n) capture seen schema es =
     (if more es then
        (case es of
           Tok (TStr k) # es' \<Rightarrow>
             if k \<in> set seen then Some (Inl DuplicateField)
             else (case es' of
                     Tok v # es'' \<Rightarrow>
                       (case capture_schema capture k v schema of
                          Inl e \<Rightarrow> Some (Inl e)
                        | Inr schema' \<Rightarrow>
                            (case scan_value n v es'' of
                               None \<Rightarrow> None
                             | Some (Inl e) \<Rightarrow> Some (Inl e)
                             | Some (Inr es3) \<Rightarrow> scan_object n capture (k # seen) schema' es3))
                   | _ \<Rightarrow> Some (Inl InvalidJSON))
         | _ \<Rightarrow> Some (Inl InvalidJSON))
      else
        (case es of
           Tok (TDelim c) # es' \<Rightarrow> if c = CBRACE then Some (Inr (schema, es')) else Some (Inl InvalidJSON)
         | _ \<Rightarrow> Some (Inl InvalidJSON)))"

text \<open>A nested value costs one token and two calls; the fuel is enough (\<open>scan_enough\<close> below).\<close>

definition scanJSONObject ::
  "bool \<Rightarrow> token_event list \<Rightarrow> ScanError + (int \<times> bool) \<times> token_event list" where
  "scanJSONObject capture es = the (scan_object (Suc (2 * length es)) capture [] (0, False) es)"

section \<open>Enough fuel\<close>

lemma scan_rest:
  "scan_value n t es = Some (Inr es') \<Longrightarrow> length es' \<le> length es"
  "scan_items n es = Some (Inr es') \<Longrightarrow> length es' < length es"
  "scan_object n capture seen schema es = Some (Inr (s, es')) \<Longrightarrow> length es' < length es"
proof (induction n t es and n es and n capture seen schema es arbitrary: es' and es' and s es'
    rule: scan_value_scan_items_scan_object.induct)
  case (2 n t es)
  then show ?case by (force split: json_token.splits if_splits option.splits sum.splits)
next
  case (4 n es)
  then show ?case
    by (force split: if_splits option.splits sum.splits list.splits token_event.splits json_token.splits)
next
  case (6 n capture seen schema es)
  then show ?case
    by (force split: if_splits option.splits sum.splits list.splits token_event.splits json_token.splits)
qed simp_all

lemma scan_enough:
  "2 * length es + 1 < n \<Longrightarrow> scan_value n t es \<noteq> None"
  "2 * length es < n \<Longrightarrow> scan_items n es \<noteq> None"
  "2 * length es < n \<Longrightarrow> scan_object n capture seen schema es \<noteq> None"
proof (induction n t es and n es and n capture seen schema es
    rule: scan_value_scan_items_scan_object.induct)
  case (2 n t es)
  show ?case
  proof (cases t)
    case (TDelim c)
    show ?thesis
    proof (cases "c = OBRACE")
      case True
      have "scan_object n False [] (0, False) es \<noteq> None"
        using "2.IH"(1) [OF TDelim True] "2.prems" by simp
      with TDelim True show ?thesis by (simp split: option.split sum.split)
    next
      case False
      then show ?thesis using "2.IH"(2) [OF TDelim False] "2.prems" TDelim
        by (cases "c = OBRACKET") simp_all
    qed
  qed simp_all
next
  case (4 n es)
  show ?case
  proof (cases "more es \<and> (\<exists>item es'. es = Tok item # es')")
    case True
    then obtain item es' where es: "es = Tok item # es'" and m: "more es" by blast
    have v: "scan_value n item es' \<noteq> None" using "4.IH"(1) [OF m es refl] "4.prems" es by simp
    show ?thesis
    proof (cases "scan_value n item es'")
      case (Some r)
      show ?thesis
      proof (cases r)
        case (Inr es'')
        with Some have s: "scan_value n item es' = Some (Inr es'')" by simp
        have "length es'' \<le> length es'" by (rule scan_rest(1) [OF s])
        then have "scan_items n es'' \<noteq> None"
          using "4.IH"(2) [OF m es refl s refl] "4.prems" es by simp
        with s m es show ?thesis by simp
      qed (use Some m es in simp)
    qed (use v in simp)
  next
    case False
    then show ?thesis by (cases es rule: more.cases) auto
  qed
next
  case (6 n capture seen schema es)
  show ?case
  proof (cases "more es \<and> (\<exists>k v es''. es = Tok (TStr k) # Tok v # es'')")
    case True
    then obtain k v es'' where es: "es = Tok (TStr k) # Tok v # es''" and m: "more es" by blast
    show ?thesis
    proof (cases "k \<in> set seen \<or> (\<exists>e. capture_schema capture k v schema = Inl e)")
      case False
      then obtain schema' where new: "k \<notin> set seen" and cap: "capture_schema capture k v schema = Inr schema'"
        by (cases "capture_schema capture k v schema") auto
      have v: "scan_value n v es'' \<noteq> None"
        using "6.IH"(1) [OF m es refl refl new refl refl cap] "6.prems" es by simp
      show ?thesis
      proof (cases "scan_value n v es''")
        case (Some r)
        show ?thesis
        proof (cases r)
          case (Inr es3)
          with Some have s: "scan_value n v es'' = Some (Inr es3)" by simp
          have "length es3 \<le> length es''" by (rule scan_rest(1) [OF s])
          then have "scan_object n capture (k # seen) schema' es3 \<noteq> None"
            using "6.IH"(2) [OF m es refl refl new refl refl cap s refl] "6.prems" es by simp
          with s m es new cap show ?thesis by simp
        qed (use Some m es new cap in simp)
      qed (use v in simp)
    qed (use m es in auto)
  next
    case False
    then show ?thesis
      by (auto split: list.splits token_event.splits json_token.splits)
  qed
qed simp_all

section \<open>The accepted token sequences\<close>

text \<open>A JSON value as a tree, its tokens, and the absence of duplicate keys at every depth.\<close>

datatype jtree = JAtom json_token | JArr "jtree list" | JObj "(string \<times> jtree) list"

fun flat :: "jtree \<Rightarrow> json_token list" where
  "flat (JAtom t) = [t]"
| "flat (JArr xs) = TDelim OBRACKET # concat (map flat xs) @ [TDelim CBRACKET]"
| "flat (JObj ms) = TDelim OBRACE # concat (map (\<lambda>(k, v). TStr k # flat v) ms) @ [TDelim CBRACE]"

definition members :: "(string \<times> jtree) list \<Rightarrow> json_token list" where
  "members ms = concat (map (\<lambda>(k, v). TStr k # flat v) ms)"

lemma members_simps [simp]:
  "members [] = []"
  "members ((k, v) # ms) = TStr k # flat v @ members ms"
  by (simp_all add: members_def)

lemma flat_JObj: "flat (JObj ms) = TDelim OBRACE # members ms @ [TDelim CBRACE]"
  by (simp add: members_def)

declare flat.simps(3) [simp del] flat_JObj [simp]

fun is_delim :: "json_token \<Rightarrow> bool" where
  "is_delim (TDelim c) = True"
| "is_delim _ = False"

fun wf_tree :: "jtree \<Rightarrow> bool" where
  "wf_tree (JAtom t) = (\<not> is_delim t)"
| "wf_tree (JArr xs) = (\<forall>x \<in> set xs. wf_tree x)"
| "wf_tree (JObj ms) = (distinct (map fst ms) \<and> (\<forall>m \<in> set ms. wf_tree (snd m)))"

lemma flat_head:
  "wf_tree t \<Longrightarrow> \<exists>h ts. flat t = h # ts \<and> (\<forall>es. more (Tok h # es))"
proof (cases t)
  case (JAtom a)
  then show "wf_tree t \<Longrightarrow> ?thesis" by (cases a) auto
qed auto

text \<open>The schema version that the members give.\<close>

fun schema_of :: "bool \<Rightarrow> int \<times> bool \<Rightarrow> (string \<times> jtree) list \<Rightarrow> ScanError + (int \<times> bool)" where
  "schema_of capture schema [] = Inr schema"
| "schema_of capture schema ((k, v) # ms) =
     bindE (capture_schema capture k (hd (flat v)) schema) (\<lambda>s. schema_of capture s ms)"

lemma scan_sound:
  "scan_value n t es = Some (Inr rest) \<Longrightarrow>
   \<exists>tree. wf_tree tree \<and> Tok t # es = map Tok (flat tree) @ rest"
  "scan_items n es = Some (Inr rest) \<Longrightarrow>
   \<exists>xs. (\<forall>x \<in> set xs. wf_tree x) \<and> es = map Tok (concat (map flat xs) @ [TDelim CBRACKET]) @ rest"
  "scan_object n capture seen schema es = Some (Inr (s, rest)) \<Longrightarrow>
   \<exists>ms. wf_tree (JObj ms) \<and> fst ` set ms \<inter> set seen = {} \<and> schema_of capture schema ms = Inr s \<and>
     es = map Tok (members ms @ [TDelim CBRACE]) @ rest"
proof (induction n t es and n es and n capture seen schema es arbitrary: rest and rest and s rest
    rule: scan_value_scan_items_scan_object.induct)
  case (2 n t es)
  show ?case
  proof (cases "is_delim t")
    case False
    then have "rest = es" using "2.prems" by (cases t) auto
    with False show ?thesis by (intro exI [of _ "JAtom t"]) auto
  next
    case True
    then obtain c where t: "t = TDelim c" by (cases t) auto
    show ?thesis
    proof (cases "c = OBRACE")
      case True
      then obtain s where "scan_object n False [] (0, False) es = Some (Inr (s, rest))"
        using "2.prems" t by (auto split: option.splits sum.splits)
      from "2.IH"(1) [OF t True this] obtain ms where "wf_tree (JObj ms)"
        "es = map Tok (members ms @ [TDelim CBRACE]) @ rest" by blast
      with t True show ?thesis by (intro exI [of _ "JObj ms"]) auto
    next
      case False
      then have c: "c = OBRACKET" and "scan_items n es = Some (Inr rest)"
        using "2.prems" t by (auto split: if_splits)
      from "2.IH"(2) [OF t False this] obtain xs where "\<forall>x \<in> set xs. wf_tree x"
        "es = map Tok (concat (map flat xs) @ [TDelim CBRACKET]) @ rest" by blast
      with t c show ?thesis by (intro exI [of _ "JArr xs"]) auto
    qed
  qed
next
  case (4 n es)
  show ?case
  proof (cases "more es")
    case True
    then obtain item es' where es: "es = Tok item # es'"
      using "4.prems" by (cases es rule: more.cases) auto
    obtain es'' where v: "scan_value n item es' = Some (Inr es'')" and i: "scan_items n es'' = Some (Inr rest)"
      using "4.prems" True es by (auto split: option.splits sum.splits)
    from "4.IH"(1) [OF True es refl v] obtain tree where tree: "wf_tree tree"
      "Tok item # es' = map Tok (flat tree) @ es''" by blast
    from "4.IH"(2) [OF True es refl v refl i] obtain xs where "\<forall>x \<in> set xs. wf_tree x"
      "es'' = map Tok (concat (map flat xs) @ [TDelim CBRACKET]) @ rest" by blast
    with tree es show ?thesis by (intro exI [of _ "tree # xs"]) auto
  next
    case False
    then have "es = Tok (TDelim CBRACKET) # rest"
      using "4.prems" by (auto split: list.splits token_event.splits json_token.splits if_splits)
    then show ?thesis by (intro exI [of _ "[]"]) auto
  qed
next
  case (6 n capture seen schema es)
  show ?case
  proof (cases "more es")
    case True
    then obtain k v es'' where es: "es = Tok (TStr k) # Tok v # es''"
      using "6.prems"
      by (auto split: list.splits token_event.splits json_token.splits if_splits)
    obtain schema' es3 where new: "k \<notin> set seen" and cap: "capture_schema capture k v schema = Inr schema'"
      and val: "scan_value n v es'' = Some (Inr es3)"
      and obj: "scan_object n capture (k # seen) schema' es3 = Some (Inr (s, rest))"
      using "6.prems" True es by (auto split: option.splits sum.splits if_splits)
    from "6.IH"(1) [OF True es refl refl new refl refl cap val] obtain tree where tree: "wf_tree tree"
      "Tok v # es'' = map Tok (flat tree) @ es3" by blast
    from "6.IH"(2) [OF True es refl refl new refl refl cap val refl obj] obtain ms where ms: "wf_tree (JObj ms)"
      "fst ` set ms \<inter> set (k # seen) = {}" "schema_of capture schema' ms = Inr s"
      "es3 = map Tok (members ms @ [TDelim CBRACE]) @ rest" by blast
    from flat_head [OF tree(1)] obtain h ts where h: "flat tree = h # ts" by blast
    with tree(2) have "h = v" by simp
    then have "schema_of capture schema ((k, tree) # ms) = Inr s" using cap ms(3) h by simp
    moreover have "wf_tree (JObj ((k, tree) # ms))" "fst ` set ((k, tree) # ms) \<inter> set seen = {}"
      using tree(1) ms(1,2) new by auto
    moreover have "es = map Tok (members ((k, tree) # ms) @ [TDelim CBRACE]) @ rest"
      using es tree(2) ms(4) by simp
    ultimately show ?thesis by blast
  next
    case False
    then have "es = Tok (TDelim CBRACE) # rest" "s = schema"
      using "6.prems" by (auto split: list.splits token_event.splits json_token.splits if_splits)
    then show ?thesis by (intro exI [of _ "[]"]) auto
  qed
qed simp_all

lemma scan_value_atom: "\<not> is_delim t \<Longrightarrow> scan_value (Suc n) t es = Some (Inr es)"
  by (cases t) auto

lemma scan_items_complete:
  assumes "\<And>x n h es rest. x \<in> set xs \<Longrightarrow> 2 * length es + 1 < n \<Longrightarrow>
      Tok h # es = map Tok (flat x) @ rest \<Longrightarrow> scan_value n h es = Some (Inr rest)"
    and "\<forall>x \<in> set xs. wf_tree x"
    and "2 * length es < n" "es = map Tok (concat (map flat xs) @ [TDelim CBRACKET]) @ rest"
  shows "scan_items n es = Some (Inr rest)"
  using assms
proof (induction xs arbitrary: n es)
  case Nil
  then obtain n' where "n = Suc n'" by (cases n) auto
  with Nil show ?case by simp
next
  case (Cons x xs)
  obtain n' where n: "n = Suc n'" using Cons.prems(3) by (cases n) auto
  obtain h ts where h: "flat x = h # ts" and m: "\<And>es. more (Tok h # es)"
    using flat_head [of x] Cons.prems(2) by auto
  let ?rest = "map Tok (concat (map flat xs) @ [TDelim CBRACKET]) @ rest"
  have es: "es = Tok h # map Tok ts @ ?rest" using Cons.prems(4) h by simp
  have v: "scan_value n' h (map Tok ts @ ?rest) = Some (Inr ?rest)"
    using Cons.prems(3) n es h by (intro Cons.prems(1) [of x]) auto
  have "scan_items n' ?rest = Some (Inr rest)"
  proof (rule Cons.IH)
    show "scan_value i g fs = Some (Inr r)"
      if "y \<in> set xs" "2 * length fs + 1 < i" "Tok g # fs = map Tok (flat y) @ r" for y i g fs r
      by (rule Cons.prems(1) [of y]) (use that in auto)
    show "2 * length ?rest < n'" using Cons.prems(3) unfolding n es by simp
  qed (use Cons.prems(2) in auto)
  with v m show ?case unfolding n es by simp
qed

lemma scan_object_complete:
  assumes "\<And>m n h es rest. m \<in> set ms \<Longrightarrow> 2 * length es + 1 < n \<Longrightarrow>
      Tok h # es = map Tok (flat (snd m)) @ rest \<Longrightarrow> scan_value n h es = Some (Inr rest)"
    and "wf_tree (JObj ms)" "fst ` set ms \<inter> set seen = {}" "schema_of capture schema ms = Inr s"
    and "2 * length es < n" "es = map Tok (members ms @ [TDelim CBRACE]) @ rest"
  shows "scan_object n capture seen schema es = Some (Inr (s, rest))"
  using assms
proof (induction ms arbitrary: n seen schema es)
  case Nil
  then obtain n' where "n = Suc n'" by (cases n) auto
  with Nil show ?case by simp
next
  case (Cons m ms)
  obtain k x where m: "m = (k, x)" by fastforce
  obtain n' where n: "n = Suc n'" using Cons.prems(5) by (cases n) auto
  obtain h ts where h: "flat x = h # ts"
    using flat_head [of x] Cons.prems(2) m by auto
  obtain schema' where cap: "capture_schema capture k h schema = Inr schema'"
    and more: "schema_of capture schema' ms = Inr s"
    using Cons.prems(4) m h by (auto simp: bindE_Inr_iff)
  let ?rest = "map Tok (members ms @ [TDelim CBRACE]) @ rest"
  have es: "es = Tok (TStr k) # Tok h # map Tok ts @ ?rest" using Cons.prems(6) m h by simp
  have v: "scan_value n' h (map Tok ts @ ?rest) = Some (Inr ?rest)"
    using Cons.prems(5) n es h m by (intro Cons.prems(1) [of m]) auto
  have "scan_object n' capture (k # seen) schema' ?rest = Some (Inr (s, rest))"
  proof (rule Cons.IH)
    show "2 * length ?rest < n'" using Cons.prems(5) unfolding n es by simp
    show "fst ` set ms \<inter> set (k # seen) = {}" using Cons.prems(2,3) m by auto
    show "scan_value i g fs = Some (Inr r)"
      if "y \<in> set ms" "2 * length fs + 1 < i" "Tok g # fs = map Tok (flat (snd y)) @ r" for y i g fs r
      by (rule Cons.prems(1) [of y]) (use that in auto)
  qed (use Cons.prems(2) more in auto)
  moreover have "k \<notin> set seen" using Cons.prems(3) m by auto
  ultimately show ?case using v cap unfolding n es by simp
qed

lemma scan_value_complete:
  "wf_tree t \<Longrightarrow> 2 * length es + 1 < n \<Longrightarrow> Tok h # es = map Tok (flat t) @ rest \<Longrightarrow>
   scan_value n h es = Some (Inr rest)"
proof (induction t arbitrary: n h es rest)
  case (JAtom a)
  then obtain n' where "n = Suc n'" by (cases n) auto
  with JAtom show ?case by (auto simp: scan_value_atom simp del: scan_value.simps)
next
  case (JArr xs)
  obtain n' where n: "n = Suc n'" using JArr.prems(2) by (cases n) auto
  have "h = TDelim OBRACKET" and es: "es = map Tok (concat (map flat xs) @ [TDelim CBRACKET]) @ rest"
    using JArr.prems(3) by auto
  moreover have "scan_items n' es = Some (Inr rest)"
    by (rule scan_items_complete [of xs]) (use JArr n es in auto)
  ultimately show ?case using n by simp
next
  case (JObj ms)
  obtain n' where n: "n = Suc n'" using JObj.prems(2) by (cases n) auto
  have h: "h = TDelim OBRACE" and es: "es = map Tok (members ms @ [TDelim CBRACE]) @ rest"
    using JObj.prems(3) by auto
  have plain: "schema_of False schema ms = Inr schema" for schema
    by (induction ms) (auto simp: capture_schema_def)
  have "scan_object n' False [] (0, False) es = Some (Inr ((0, False), rest))"
  proof (rule scan_object_complete [of ms])
    show "scan_value n h es = Some (Inr rest)"
      if "m \<in> set ms" "2 * length es + 1 < n" "Tok h # es = map Tok (flat (snd m)) @ rest" for m n h es rest
      using JObj.IH [of m "snd m"] JObj.prems(1) that by (cases m) auto
    show "2 * length es < n'" using JObj.prems(2) n by simp
  qed (use JObj.prems(1) es plain in auto)
  with h n show ?case by simp
qed

lemma scanJSONObject_Inr:
  "scanJSONObject capture es = Inr (s, rest) \<longleftrightarrow>
   (\<exists>ms. wf_tree (JObj ms) \<and> schema_of capture (0, False) ms = Inr s \<and>
      es = map Tok (members ms @ [TDelim CBRACE]) @ rest)"
proof
  let ?scan = "scan_object (Suc (2 * length es)) capture [] (0, False) es"
  assume "scanJSONObject capture es = Inr (s, rest)"
  moreover have "?scan \<noteq> None" by (rule scan_enough(3)) simp
  ultimately have "?scan = Some (Inr (s, rest))" by (auto simp: scanJSONObject_def)
  from scan_sound(3) [OF this] show "\<exists>ms. wf_tree (JObj ms) \<and> schema_of capture (0, False) ms = Inr s \<and>
      es = map Tok (members ms @ [TDelim CBRACE]) @ rest" by blast
next
  assume "\<exists>ms. wf_tree (JObj ms) \<and> schema_of capture (0, False) ms = Inr s \<and>
      es = map Tok (members ms @ [TDelim CBRACE]) @ rest"
  then obtain ms where ms: "wf_tree (JObj ms)" "schema_of capture (0, False) ms = Inr s"
    "es = map Tok (members ms @ [TDelim CBRACE]) @ rest" by blast
  have "scan_object (Suc (2 * length es)) capture [] (0, False) es = Some (Inr (s, rest))"
    by (rule scan_object_complete [of ms]) (use ms scan_value_complete in auto)
  then show "scanJSONObject capture es = Inr (s, rest)" by (simp add: scanJSONObject_def)
qed

section \<open>State files\<close>

abbreviation maxStateFileBytes :: nat where "maxStateFileBytes \<equiv> 262144"

type_synonym json_object = "(string \<times> string) list"

record transactionWire =
  tw_targetCommit :: string
  tw_baseCommit :: string
  tw_schemaVersion :: "int option"
  tw_operationId :: "string option"
  tw_command :: "string option"
  tw_pid :: "32 word option"
  tw_startedAt :: "Time option"
  tw_targetVersion :: "string option"
  tw_stage :: "Stage option"

record revisionWire =
  rw_version :: "string option"
  rw_commit :: "string option"

record environmentWire =
  ew_schemaVersion :: "int option"
  ew_status :: "StateStatus option"
  ew_updatedAt :: "Time option"
  ew_lastSuccessful :: "revisionWire option"
  ew_broken :: "string option"

record brokenEnvironmentWire =
  bw_targetVersion :: "string option"
  bw_branch :: "string option"
  bw_commit :: "string option"
  bw_pythonVersion :: "string option"
  bw_uvVersion :: "string option"
  bw_reason :: "BrokenReason option"
  bw_stage :: "Stage option"
  bw_exitCode :: "int option"
  bw_logPath :: "string option"

text \<open>\<open>encoding/json\<close>: the tokens of a text, the keys and raw values of an object, strict decoding of one
  value with what follows it, and whether only white space is left.\<close>

record json_api =
  json_tokens :: "string \<Rightarrow> token_event list"
  json_object :: "string \<Rightarrow> json_object option"
  json_transaction :: "string \<Rightarrow> (transactionWire \<times> string) option"
  json_environment :: "string \<Rightarrow> (environmentWire \<times> string) option"
  json_broken :: "string \<Rightarrow> (brokenEnvironmentWire \<times> string) option"
  json_at_end :: "string \<Rightarrow> bool"

definition inspectStateJSON :: "json_api \<Rightarrow> string \<Rightarrow> ScanError + int" where
  "inspectStateJSON json payload =
     (if length payload = 0 \<or> length payload > maxStateFileBytes then
        (if length payload > maxStateFileBytes then Inl FileTooLarge else Inl InvalidJSON)
      else if \<not> utf8_valid payload \<or> has_prefix payload [CHR 0xEF, CHR 0xBB, CHR 0xBF] then Inl InvalidJSON
      else if last payload \<noteq> CHR 0x0A then Inl InvalidJSON
      else if butlast payload = [] \<or> last (butlast payload) \<noteq> CBRACE then Inl InvalidJSON
      else case json_tokens json (butlast payload) of
             Tok (TDelim c) # es \<Rightarrow>
               if c \<noteq> OBRACE then Inl InvalidJSON
               else bindE (scanJSONObject True es) (\<lambda>(schema, rest).
                      if rest \<noteq> [] then Inl InvalidJSON
                      else if \<not> snd schema then Inl MissingField
                      else Inr (fst schema))
           | _ \<Rightarrow> Inl InvalidJSON)"

datatype StateError =
    ValidationFailed ValidationError
  | CorruptScan string ScanError
  | CorruptValue string ValidationError
  | UnsupportedSchema string int

definition checkSchema :: "json_api \<Rightarrow> string \<Rightarrow> string \<Rightarrow> StateError option" where
  "checkSchema json file payload =
     (case inspectStateJSON json payload of
        Inl e \<Rightarrow> Some (CorruptScan file e)
      | Inr v \<Rightarrow> if v \<noteq> SchemaVersion then Some (UnsupportedSchema file v) else None)"

text \<open>The allowed keys, \<open>Leaf\<close> for a nil shape.\<close>

datatype jsonShape = Leaf | Nested "(string \<times> jsonShape) list"

definition transactionJSONShape :: "(string \<times> jsonShape) list" where
  "transactionJSONShape = map (\<lambda>k. (k, Leaf)) [''targetCommit'', ''baseCommit'', ''schemaVersion'',
     ''operationId'', ''command'', ''pid'', ''startedAt'', ''targetVersion'', ''stage'']"

definition environmentJSONShape :: "(string \<times> jsonShape) list" where
  "environmentJSONShape =
     map (\<lambda>k. (k, Leaf)) [''schemaVersion'', ''status'', ''updatedAt''] @
     [(''lastSuccessful'', Nested (map (\<lambda>k. (k, Leaf)) [''version'', ''commit''])),
      (''broken'', Nested (map (\<lambda>k. (k, Leaf)) [''targetVersion'', ''branch'', ''commit'',
         ''pythonVersion'', ''uvVersion'', ''reason'', ''stage'', ''exitCode'', ''logPath'']))]"


lemma shape_smaller: "map_of shape k = Some (Nested sub) \<Longrightarrow> size_list (size_prod (\<lambda>_. 0) size) sub <
    size_list (size_prod (\<lambda>_. 0) size) shape"
  by (induction shape) (auto split: if_splits)

function validateExactJSONKeys :: "json_api \<Rightarrow> string \<Rightarrow> (string \<times> jsonShape) list \<Rightarrow> bool" where
  "validateExactJSONKeys json payload shape =
     (case json_object json payload of
        None \<Rightarrow> False
      | Some obj \<Rightarrow>
          list_all (\<lambda>(k, raw).
            case map_of shape k of
              None \<Rightarrow> False
            | Some Leaf \<Rightarrow> True
            | Some (Nested sub) \<Rightarrow> trim_space raw = ''null'' \<or> validateExactJSONKeys json raw sub) obj)"
  by pat_completeness auto
termination
  by (relation "measure (\<lambda>(json, payload, shape). size_list (size_prod (\<lambda>_. 0) size) shape)")
     (auto dest: shape_smaller)

declare validateExactJSONKeys.simps [simp del]

definition decodeStrict :: "json_api \<Rightarrow> (string \<Rightarrow> ('w \<times> string) option) \<Rightarrow> string \<Rightarrow> 'w option" where
  "decodeStrict json dec payload =
     (case dec payload of
        None \<Rightarrow> None
      | Some (w, rest) \<Rightarrow> if json_at_end json rest then Some w else None)"

text \<open>A required field of a wire value.\<close>

definition need :: "string \<Rightarrow> 'a option \<Rightarrow> ('a \<Rightarrow> ValidationError + 'b) \<Rightarrow> ValidationError + 'b" where
  "need field x f = (case x of None \<Rightarrow> Inl (Missing field) | Some a \<Rightarrow> f a)"

definition wire_transaction :: "transactionWire \<Rightarrow> ValidationError + TransactionState" where
  "wire_transaction w =
     need ''schemaVersion'' (tw_schemaVersion w) (\<lambda>sv.
     need ''operationId'' (tw_operationId w) (\<lambda>op.
     need ''command'' (tw_command w) (\<lambda>c.
     need ''pid'' (tw_pid w) (\<lambda>p.
     need ''startedAt'' (tw_startedAt w) (\<lambda>t.
     need ''targetVersion'' (tw_targetVersion w) (\<lambda>tv.
     need ''stage'' (tw_stage w) (\<lambda>s. Inr
       \<lparr>schemaVersion = sv, operationId = op, tx_command = c, pid = p, startedAt = t, targetVersion = tv,
        tx_stage = s, targetCommit = tw_targetCommit w, baseCommit = tw_baseCommit w\<rparr>)))))))"

definition wire_revision :: "revisionWire \<Rightarrow> ValidationError + Revision" where
  "wire_revision w =
     need ''lastSuccessful.version'' (rw_version w) (\<lambda>v.
     need ''lastSuccessful.commit'' (rw_commit w) (\<lambda>c. Inr \<lparr>rev_version = v, rev_commit = c\<rparr>))"

text \<open>\<open>Inl None\<close> is \<open>errInvalidJSON\<close>.\<close>

definition decodeBrokenWire ::
  "json_api \<Rightarrow> string \<Rightarrow> ValidationError option + BrokenEnvironment option" where
  "decodeBrokenWire json payload =
     (if trim_space payload = ''null'' then Inr None
      else case decodeStrict json (json_broken json) payload of
             None \<Rightarrow> Inl None
           | Some w \<Rightarrow> map_sum Some Some (
               need ''targetVersion'' (bw_targetVersion w) (\<lambda>tv.
               need ''branch'' (bw_branch w) (\<lambda>br.
               need ''commit'' (bw_commit w) (\<lambda>c.
               need ''pythonVersion'' (bw_pythonVersion w) (\<lambda>py.
               need ''uvVersion'' (bw_uvVersion w) (\<lambda>uv.
               need ''reason'' (bw_reason w) (\<lambda>r.
               need ''stage'' (bw_stage w) (\<lambda>s.
               need ''exitCode'' (bw_exitCode w) (\<lambda>x.
               need ''logPath'' (bw_logPath w) (\<lambda>lp. Inr
                 \<lparr>be_targetVersion = tv, be_branch = br, be_commit = c, be_pythonVersion = py,
                  be_uvVersion = uv, be_reason = r, be_stage = s, be_exitCode = x,
                  be_logPath = lp\<rparr>)))))))))))"

definition wire_environment ::
  "json_api \<Rightarrow> environmentWire \<Rightarrow> ValidationError option + EnvironmentState" where
  "wire_environment json w =
     bindE (map_sum Some id (
       need ''schemaVersion'' (ew_schemaVersion w) (\<lambda>sv.
       need ''status'' (ew_status w) (\<lambda>st.
       need ''updatedAt'' (ew_updatedAt w) (\<lambda>t.
       need ''lastSuccessful'' (ew_lastSuccessful w) (\<lambda>ls.
       need ''broken'' (ew_broken w) (\<lambda>raw.
       bindE (wire_revision ls) (\<lambda>r. Inr (sv, st, t, r, raw))))))))
     ) (\<lambda>(sv, st, t, r, raw).
       bindE (decodeBrokenWire json raw) (\<lambda>b. Inr
         \<lparr>env_schemaVersion = sv, env_status = st, env_updatedAt = t, env_lastSuccessful = r,
          env_broken = b\<rparr>))"

definition corrupt_wire :: "string \<Rightarrow> ValidationError option \<Rightarrow> StateError" where
  "corrupt_wire file e = (case e of None \<Rightarrow> CorruptScan file InvalidJSON | Some v \<Rightarrow> CorruptValue file v)"

definition decodeTransaction ::
  "json_api \<Rightarrow> bool \<Rightarrow> string \<Rightarrow> TransactionKind \<Rightarrow> string \<Rightarrow> StateError + TransactionState" where
  "decodeTransaction json baseFirst file k payload =
     bindE (checkE (checkSchema json file payload)) (\<lambda>_.
       if \<not> validateExactJSONKeys json payload transactionJSONShape then Inl (CorruptScan file InvalidJSON)
       else case decodeStrict json (json_transaction json) payload of
              None \<Rightarrow> Inl (CorruptScan file InvalidJSON)
            | Some w \<Rightarrow>
                (case wire_transaction w of
                   Inl e \<Rightarrow> Inl (CorruptValue file e)
                 | Inr v \<Rightarrow>
                     (case ValidateTransaction baseFirst k v of
                        Some e \<Rightarrow> Inl (CorruptValue file e)
                      | None \<Rightarrow> Inr v)))"

definition decodeEnvironment ::
  "json_api \<Rightarrow> path_api \<Rightarrow> string option \<Rightarrow> string \<Rightarrow> string \<Rightarrow> StateError + EnvironmentState" where
  "decodeEnvironment json api log_dir file payload =
     bindE (checkE (checkSchema json file payload)) (\<lambda>_.
       if \<not> validateExactJSONKeys json payload environmentJSONShape then Inl (CorruptScan file InvalidJSON)
       else case decodeStrict json (json_environment json) payload of
              None \<Rightarrow> Inl (CorruptScan file InvalidJSON)
            | Some w \<Rightarrow>
                (case wire_environment json w of
                   Inl e \<Rightarrow> Inl (corrupt_wire file e)
                 | Inr v \<Rightarrow>
                     (case validateEnvironment api log_dir v of
                        Some e \<Rightarrow> Inl (CorruptValue file e)
                      | None \<Rightarrow> Inr v)))"

section \<open>Properties\<close>

lemma flat_object_tokens:
  "toks = map Tok (flat (JObj ms)) \<longleftrightarrow>
   (\<exists>es. toks = Tok (TDelim OBRACE) # es \<and> es = map Tok (members ms @ [TDelim CBRACE]) @ [])"
  by simp

lemma scan_whole:
  "(case toks of
      Tok (TDelim c) # es \<Rightarrow>
        if c \<noteq> OBRACE then Inl InvalidJSON
        else bindE (scanJSONObject True es) (\<lambda>(schema, rest).
               if rest \<noteq> [] then Inl InvalidJSON
               else if \<not> snd schema then Inl MissingField
               else Inr (fst schema))
    | _ \<Rightarrow> Inl InvalidJSON) = Inr v \<longleftrightarrow>
   (\<exists>ms. toks = map Tok (flat (JObj ms)) \<and> wf_tree (JObj ms) \<and>
      schema_of True (0, False) ms = Inr (v, True))" (is "?lhs \<longleftrightarrow> ?rhs")
proof
  assume l: ?lhs
  then obtain es where toks: "toks = Tok (TDelim OBRACE) # es"
    and "bindE (scanJSONObject True es) (\<lambda>(schema, rest). if rest \<noteq> [] then Inl InvalidJSON
        else if \<not> snd schema then Inl MissingField else Inr (fst schema)) = Inr v"
    by (auto split: list.splits token_event.splits json_token.splits if_splits)
  then have "scanJSONObject True es = Inr ((v, True), [])"
    by (auto simp: bindE_Inr_iff split: if_splits)
  then show ?rhs unfolding scanJSONObject_Inr flat_object_tokens using toks by blast
next
  assume ?rhs
  then obtain ms where ms: "toks = map Tok (flat (JObj ms))" "wf_tree (JObj ms)"
    "schema_of True (0, False) ms = Inr (v, True)" by blast
  then have "scanJSONObject True (map Tok (members ms @ [TDelim CBRACE]) @ []) = Inr ((v, True), [])"
    unfolding scanJSONObject_Inr by blast
  then show ?lhs using ms(1) by simp
qed

lemma inspect_Inr:
  "inspectStateJSON json payload = Inr v \<longleftrightarrow>
   0 < length payload \<and> length payload \<le> maxStateFileBytes \<and> utf8_valid payload \<and>
   \<not> has_prefix payload [CHR 0xEF, CHR 0xBB, CHR 0xBF] \<and> last payload = CHR 0x0A \<and>
   butlast payload \<noteq> [] \<and> last (butlast payload) = CBRACE \<and>
   (\<exists>ms. json_tokens json (butlast payload) = map Tok (flat (JObj ms)) \<and> wf_tree (JObj ms) \<and>
      schema_of True (0, False) ms = Inr (v, True))"
proof -
  have if_Inr: "(if b then Inl e else x) = Inr v \<longleftrightarrow> \<not> b \<and> x = Inr v" for b e and x :: "ScanError + int"
    by simp
  have if_Inl: "(if b then if c then Inl e else Inl e' else x) = Inr v \<longleftrightarrow> \<not> b \<and> x = Inr v"
    for b c e e' and x :: "ScanError + int" by simp
  show ?thesis unfolding inspectStateJSON_def if_Inl if_Inr scan_whole by (simp add: not_less)
qed

text \<open>C30: the inspection of a state file accepts exactly the files of at most 256 KiB of well-formed
  UTF-8 without byte order mark that end in a closing brace and one line feed and hold one object in
  which no key occurs twice at any depth and whose \<open>schemaVersion\<close> is an integer, which it returns.\<close>

theorem state_json_accepted:
  "inspectStateJSON json payload = Inr v \<longleftrightarrow>
   0 < length payload \<and> length payload \<le> 262144 \<and> utf8_valid payload \<and>
   \<not> has_prefix payload [CHR 0xEF, CHR 0xBB, CHR 0xBF] \<and> last payload = CHR 0x0A \<and>
   butlast payload \<noteq> [] \<and> last (butlast payload) = CBRACE \<and>
   (\<exists>ms. json_tokens json (butlast payload) = map Tok (flat (JObj ms)) \<and> wf_tree (JObj ms) \<and>
      schema_of True (0, False) ms = Inr (v, True))"
  by (rule inspect_Inr)

text \<open>a decoded transaction or environment passes the validation of its kind and comes from a file
  that the inspection accepts with schema version 1.\<close>

theorem decoded_state_valid:
  "(decodeTransaction json baseFirst file k payload = Inr tx \<longrightarrow>
      ValidateTransaction b k tx = None \<and> inspectStateJSON json payload = Inr 1) \<and>
   (decodeEnvironment json api log_dir file payload = Inr env \<longrightarrow>
      validateEnvironment api log_dir env = None \<and> inspectStateJSON json payload = Inr 1)"
proof -
  have schema: "checkSchema json file payload = None \<longleftrightarrow> inspectStateJSON json payload = Inr 1"
    by (auto simp: checkSchema_def split: sum.splits)
  have "ValidateTransaction baseFirst k tx = None \<and> checkSchema json file payload = None"
    if "decodeTransaction json baseFirst file k payload = Inr tx"
    using that
    by (auto simp: decodeTransaction_def bindE_Inr_iff checkE_Inr_iff split: if_splits option.splits sum.splits)
  moreover have "validateEnvironment api log_dir env = None \<and> checkSchema json file payload = None"
    if "decodeEnvironment json api log_dir file payload = Inr env"
    using that
    by (auto simp: decodeEnvironment_def bindE_Inr_iff checkE_Inr_iff split: if_splits option.splits sum.splits)
  ultimately show ?thesis using ValidateTransaction_order schema by blast
qed

text \<open>A file of another schema version is reported as unsupported with that version, whatever its
  other fields are.\<close>

theorem unsupported_schema_reported:
  assumes "inspectStateJSON json payload = Inr v" "v \<noteq> 1"
  shows "decodeTransaction json baseFirst file k payload = Inl (UnsupportedSchema file v) \<and>
    decodeEnvironment json api log_dir file payload = Inl (UnsupportedSchema file v)"
  using assms by (simp add: decodeTransaction_def decodeEnvironment_def checkSchema_def)

definition example_json :: "string \<Rightarrow> json_api" where
  "example_json ver =
     \<lparr>json_tokens = (\<lambda>_. map Tok (flat (JObj [(''schemaVersion'', JAtom (TNum ver))]))),
      json_object = (\<lambda>_. Some [(''schemaVersion'', ver)]),
      json_transaction = (\<lambda>_. Some (\<lparr>tw_targetCommit = '''', tw_baseCommit = replicate 40 (CHR ''b''),
        tw_schemaVersion = Some 1, tw_operationId = Some ''01ARZ3NDEKTSV4RRFFQ69G5FAV'',
        tw_command = Some ''workspace stage'', tw_pid = Some 4242,
        tw_startedAt = Some \<lparr>instant = 63900000000, zone_offset = 0\<rparr>, tw_targetVersion = Some ''v1.2.3'',
        tw_stage = Some StageWorkspaceClone\<rparr>, '''')),
      json_environment = (\<lambda>_. None), json_broken = (\<lambda>_. None), json_at_end = (\<lambda>s. s = '''')\<rparr>"

definition example_payload :: string where
  "example_payload = [OBRACE, CBRACE, CHR 0x0A]"

lemma example_inspected: "parse_int ver = Some i \<Longrightarrow> inspectStateJSON (example_json ver) example_payload = Inr i"
proof -
  assume v: "parse_int ver = Some i"
  have "list_all (\<lambda>c. code_of c < 0x80) example_payload" by (simp add: example_payload_def byte_codes)
  from runes_ascii [OF this] have "utf8_valid example_payload" by (simp add: utf8_valid_def)
  moreover have "schema_of True (0, False) [(''schemaVersion'', JAtom (TNum ver))] = Inr (i, True)"
    using v by (simp add: capture_schema_def)
  moreover have "json_tokens (example_json ver) (butlast example_payload) =
      map Tok (flat (JObj [(''schemaVersion'', JAtom (TNum ver))]))"
    by (simp add: example_json_def)
  moreover have "wf_tree (JObj [(''schemaVersion'', JAtom (TNum ver))])" by simp
  ultimately have "\<exists>ms. json_tokens (example_json ver) (butlast example_payload) =
      map Tok (flat (JObj ms)) \<and> wf_tree (JObj ms) \<and> schema_of True (0, False) ms = Inr (i, True)" by blast
  with \<open>utf8_valid example_payload\<close> show ?thesis
    unfolding inspect_Inr by (simp add: example_payload_def go_defs)
qed

lemma example_decoded:
  "decodeTransaction (example_json ''1'') False ''update'' TransactionUpdate example_payload =
     Inr example_transaction"
proof -
  have "parse_int ''1'' = Some 1" by code_simp
  note i = example_inspected [OF this]
  have "validateExactJSONKeys (example_json ''1'') example_payload transactionJSONShape"
    by (simp add: validateExactJSONKeys.simps example_json_def transactionJSONShape_def)
  then show ?thesis
    using i example_transaction_valid
    by (simp add: decodeTransaction_def checkSchema_def decodeStrict_def wire_transaction_def need_def
        example_json_def example_transaction_def)
qed

theorem decoded_state_valid_witness:
  "decodeTransaction (example_json ''1'') False ''update'' TransactionUpdate example_payload =
     Inr example_transaction \<and>
   ValidateTransaction True TransactionUpdate example_transaction = None"
  using example_decoded decoded_state_valid by blast

theorem unsupported_schema_reported_witness:
  "decodeTransaction (example_json ''2'') False ''backend'' TransactionBackend example_payload =
     Inl (UnsupportedSchema ''backend'' 2)"
proof -
  have "parse_int ''2'' = Some 2" by code_simp
  from unsupported_schema_reported [OF example_inspected [OF this]] show ?thesis by simp
qed

end
