(* ===== verification/State_Inspect.thy ===== *)
theory State_Inspect
  imports State_Codec
begin

text \<open>
  \<open>internal/state/inspect.go\<close>: what a transaction file means, given the named mutex and the process it
  names. The probes are functions, \<open>None\<close> for a nil interface; \<open>ctx\<close> gives what the context says at the
  three points where the code asks it. The lemmas show that only a transaction whose mutex is free
  and whose process is gone, both without any doubt, is called stale.
\<close>

record MutexProbeResult =
  Held :: bool
  Recovered :: bool

type_synonym MutexProbe = "MutexKind \<Rightarrow> MutexProbeResult \<times> string option"
type_synonym PIDProbe = "32 word \<Rightarrow> bool \<times> string option"

datatype InspectError = InspectInvalid ValidationError | InspectContext string | InspectProbe string

record Inspection =
  Activity :: Activity
  MutexHeld :: bool
  MutexRecovered :: bool
  PIDChecked :: bool
  PIDAlive :: bool
  ProbeError :: "InspectError option"

definition transactionMutexKind :: "TransactionKind \<Rightarrow> ValidationError + MutexKind" where
  "transactionMutexKind k =
     (if k = TransactionBackend then Inr MutexBackend
      else if k = TransactionMutation \<or> k = TransactionUpdate then Inr MutexMutation
      else Inl (Invalid ''kind''))"

definition unknown_inspection :: Inspection where
  "unknown_inspection = \<lparr>Activity = ActivityUnknown, MutexHeld = False, MutexRecovered = False,
     PIDChecked = False, PIDAlive = False, ProbeError = None\<rparr>"

definition failed :: "InspectError \<Rightarrow> Inspection \<Rightarrow> Inspection" where
  "failed e i = i\<lparr>ProbeError := Some e\<rparr>"

text \<open>The part after the mutex was found free.\<close>

definition inspect_process :: "(nat \<Rightarrow> string option) \<Rightarrow> PIDProbe \<Rightarrow> 32 word \<Rightarrow> Inspection \<Rightarrow> Inspection" where
  "inspect_process ctx pidProbe p i0 =
     (let i1 = i0\<lparr>PIDChecked := True\<rparr>; (alive, err) = pidProbe p;
          i2 = i1\<lparr>PIDAlive := alive \<and> err = None\<rparr>
      in case err of
           Some e \<Rightarrow> failed (InspectProbe e) i2
         | None \<Rightarrow>
             (case ctx 2 of
                Some e \<Rightarrow> (failed (InspectContext e) i2)\<lparr>PIDAlive := False\<rparr>
              | None \<Rightarrow>
                  if alive then i2\<lparr>Activity := ActivityInconsistent\<rparr>
                  else i2\<lparr>Activity := ActivityStale\<rparr>))"

definition InspectTransaction ::
  "bool \<Rightarrow> (nat \<Rightarrow> string option) \<Rightarrow> TransactionKind \<Rightarrow> TransactionState \<Rightarrow> PIDProbe option \<Rightarrow>
   MutexProbe option \<Rightarrow> Inspection" where
  "InspectTransaction baseFirst ctx k v pidProbe mutexProbe =
     (let i = unknown_inspection in
      if \<not> TransactionKind_Valid k then failed (InspectInvalid (Invalid ''kind'')) i
      else case ValidateTransaction baseFirst k v of
             Some e \<Rightarrow> failed (InspectInvalid e) i
           | None \<Rightarrow>
       (case pidProbe of
          None \<Rightarrow> failed (InspectInvalid (Invalid ''pidProbe'')) i
        | Some pp \<Rightarrow>
       (case mutexProbe of
          None \<Rightarrow> failed (InspectInvalid (Invalid ''mutexProbe'')) i
        | Some mp \<Rightarrow>
       (case ctx 0 of
          Some e \<Rightarrow> failed (InspectContext e) i
        | None \<Rightarrow>
       (case transactionMutexKind k of
          Inl e \<Rightarrow> failed (InspectInvalid e) i
        | Inr mk \<Rightarrow>
       (let (res, err) = mp mk;
            i1 = i\<lparr>MutexHeld := Held res, MutexRecovered := Recovered res\<rparr>
        in case err of
             Some e \<Rightarrow> failed (InspectProbe e) i1
           | None \<Rightarrow>
               if Held res then i1\<lparr>Activity := ActivityActive\<rparr>
               else (case ctx 1 of
                       Some e \<Rightarrow> failed (InspectContext e) i1
                     | None \<Rightarrow> inspect_process ctx pp (pid v) i1)))))))"

definition CanAutoClean :: "Inspection \<Rightarrow> bool" where
  "CanAutoClean i \<longleftrightarrow> Activity i = ActivityStale"

section \<open>Facts\<close>

lemma mutex_kind_valid:
  "TransactionKind_Valid k \<Longrightarrow>
   \<exists>mk. transactionMutexKind k = Inr mk \<and> MutexKind_Valid mk \<and> (mk = MutexBackend) = (k = TransactionBackend)"
  by (auto simp: TransactionKind_Valid_def transactionMutexKind_def MutexKind_Valid_def)

lemma failed_activity [simp]: "Activity (failed e i) = Activity i"
  by (simp add: failed_def)

lemma inspect_process_stale:
  "Activity i \<noteq> ActivityStale \<Longrightarrow> Activity (inspect_process ctx pp p i) = ActivityStale \<longleftrightarrow>
     pp p = (False, None) \<and> ctx 2 = None"
  by (auto simp: inspect_process_def Let_def split: prod.splits option.splits)

lemma inspect_process_checked:
  "PIDChecked (inspect_process ctx pp p i) \<and> MutexHeld (inspect_process ctx pp p i) = MutexHeld i"
  by (auto simp: inspect_process_def Let_def failed_def split: prod.splits option.splits)

lemma inspect_process_inconsistent:
  "Activity i = ActivityUnknown \<Longrightarrow> Activity (inspect_process ctx pp p i) = ActivityInconsistent \<longleftrightarrow>
     pp p = (True, None) \<and> ctx 2 = None"
  by (auto simp: inspect_process_def Let_def split: prod.splits option.splits)

text \<open>The inspection as one case distinction.\<close>

lemma InspectTransaction_cases:
  assumes "InspectTransaction baseFirst ctx k v pidProbe mutexProbe = i"
  obtains (unknown) "Activity i = ActivityUnknown" "\<not> PIDChecked i"
      "\<not> (ValidateTransaction baseFirst k v = None \<and> pidProbe \<noteq> None \<and> ctx 0 = None \<and> ctx 1 = None \<and>
         (\<exists>mp mk r. mutexProbe = Some mp \<and> transactionMutexKind k = Inr mk \<and> mp mk = (r, None) \<and> \<not> Held r))"
    | (active) mp mk r where "Activity i = ActivityActive" "\<not> PIDChecked i" "MutexHeld i"
      "mutexProbe = Some mp" "transactionMutexKind k = Inr mk" "mp mk = (r, None)" "Held r"
    | (process) pp mp mk r i1 where "i = inspect_process ctx pp (pid v) i1" "Activity i1 = ActivityUnknown"
      "\<not> MutexHeld i1" "ValidateTransaction baseFirst k v = None" "pidProbe = Some pp" "ctx 0 = None" "ctx 1 = None"
      "mutexProbe = Some mp" "transactionMutexKind k = Inr mk" "mp mk = (r, None)" "\<not> Held r"
proof (cases "ValidateTransaction baseFirst k v = None \<and> pidProbe \<noteq> None \<and> mutexProbe \<noteq> None \<and> ctx 0 = None")
  case False
  have "Activity i = ActivityUnknown \<and> \<not> PIDChecked i"
    using assms False
    by (auto simp: InspectTransaction_def Let_def failed_def unknown_inspection_def split: if_splits option.splits)
  with False show ?thesis by (intro unknown) auto
next
  case True
  then obtain pp mp where p: "pidProbe = Some pp" "mutexProbe = Some mp" by auto
  have kind: "TransactionKind_Valid k" using True ValidateTransaction_None by blast
  then obtain mk where mk: "transactionMutexKind k = Inr mk" using mutex_kind_valid by blast
  obtain r err where r: "mp mk = (r, err)" by fastforce
  let ?i1 = "unknown_inspection\<lparr>MutexHeld := Held r, MutexRecovered := Recovered r\<rparr>"
  have i: "i = (case err of
             Some e \<Rightarrow> failed (InspectProbe e) ?i1
           | None \<Rightarrow>
               if Held r then ?i1\<lparr>Activity := ActivityActive\<rparr>
               else (case ctx 1 of
                       Some e \<Rightarrow> failed (InspectContext e) ?i1
                     | None \<Rightarrow> inspect_process ctx pp (pid v) ?i1))"
    using assms True p mk kind r by (simp add: InspectTransaction_def Let_def)
  show ?thesis
  proof (cases "err = None \<and> (Held r \<or> ctx 1 = None)")
    case False
    then have "Activity i = ActivityUnknown \<and> \<not> PIDChecked i"
      unfolding i by (auto simp: failed_def unknown_inspection_def split: option.splits)
    with False r p mk show ?thesis by (intro unknown) auto
  next
    case ok: True
    show ?thesis
    proof (cases "Held r")
      case True
      with ok i have "i = ?i1\<lparr>Activity := ActivityActive\<rparr>" by auto
      with True r p mk ok show ?thesis
        by (intro active [of mp mk r]) (auto simp: unknown_inspection_def)
    next
      case False
      with ok i have "i = inspect_process ctx pp (pid v) ?i1" by auto
      with False r p mk ok \<open>_ \<and> pidProbe \<noteq> None \<and> _\<close> show ?thesis
        by (intro process [of pp ?i1 mp mk r]) (auto simp: unknown_inspection_def)
    qed
  qed
qed

section \<open>Properties\<close>

lemma stale_iff:
  assumes i: "InspectTransaction baseFirst ctx k v pidProbe mutexProbe = i"
  shows "Activity i = ActivityStale \<longleftrightarrow>
    ValidateTransaction baseFirst k v = None \<and> ctx 0 = None \<and> ctx 1 = None \<and> ctx 2 = None \<and>
    (\<exists>pp mp mk r. pidProbe = Some pp \<and> mutexProbe = Some mp \<and> transactionMutexKind k = Inr mk \<and>
       mp mk = (r, None) \<and> Held r = False \<and> pp (pid v) = (False, None))"
  using i
proof (cases rule: InspectTransaction_cases)
  case unknown
  then show ?thesis by auto
next
  case (active mp mk r)
  then show ?thesis by auto
next
  case (process pp mp mk r i1)
  then show ?thesis by (auto simp: inspect_process_stale)
qed

text \<open>C31: a transaction may be cleaned up automatically exactly when it is valid for its kind, both
  probes exist, the context lives at every step, the mutex of the kind is free and the process is
  gone, each probe without error.\<close>

theorem auto_clean_only_stale:
  "CanAutoClean (InspectTransaction baseFirst ctx k v pidProbe mutexProbe) \<longleftrightarrow>
   ValidateTransaction baseFirst k v = None \<and> ctx 0 = None \<and> ctx 1 = None \<and> ctx 2 = None \<and>
   (\<exists>pp mp mk r. pidProbe = Some pp \<and> mutexProbe = Some mp \<and> transactionMutexKind k = Inr mk \<and>
      mp mk = (r, None) \<and> Held r = False \<and> pp (pid v) = (False, None))"
  unfolding CanAutoClean_def by (rule stale_iff [OF refl])

text \<open>The classification is one of the four activities and fails closed: it is unknown exactly when
  it carries an error, and a transaction whose mutex is held is never decided by its process.\<close>

theorem inspection_fails_closed:
  "Activity_Valid (Activity (InspectTransaction baseFirst ctx k v pidProbe mutexProbe)) \<and>
   (Activity (InspectTransaction baseFirst ctx k v pidProbe mutexProbe) = ActivityUnknown) =
     (ProbeError (InspectTransaction baseFirst ctx k v pidProbe mutexProbe) \<noteq> None) \<and>
   \<not> (MutexHeld (InspectTransaction baseFirst ctx k v pidProbe mutexProbe) \<and>
      PIDChecked (InspectTransaction baseFirst ctx k v pidProbe mutexProbe))"
  unfolding InspectTransaction_def inspect_process_def Let_def Activity_Valid_def
  by (simp add: failed_def unknown_inspection_def split: option.split prod.split sum.split)

end
