(* ===== verification/State_Store.thy ===== *)
theory State_Store
  imports State_Inspect
begin

text \<open>
  \<open>internal/state/store.go\<close>, \<open>options.go\<close>, \<open>read.go\<close>, \<open>write.go\<close> and the mappings of \<open>files.go\<close>: the store of the
  three transaction files and the environment file. The state files themselves (Win32 calls) are the
  record \<open>state_files\<close> of functions on a world of the client's choice; \<open>json\<close> and the two marshal
  functions are \<open>encoding/json\<close>. The methods run under the mutex of the store, so a history is a list of
  calls; \<open>ctx\<close> gives what the context says at each point where a method asks it. The lemmas show when
  a call may touch a file, that no applied mutation goes unreported, and that a closed store is inert.
\<close>

section \<open>The state files\<close>

text \<open>An error as far as \<open>errors.Is\<close> and \<open>errors.As\<close> look into it.\<close>

datatype fs_error = FsError
  (err_text: string)
  (is_tooLarge: bool)
  (is_notFound: bool)
  (is_identityChanged: bool)
  (is_ctxEnded: bool)
  (as_stateWrite: "(string \<times> fs_error option \<times> bool \<times> bool \<times> fs_error option) option")
  (as_stateRemove: "(fs_error option \<times> fs_error option) option")

type_synonym StateFileKind = string

record FileSnapshot =
  snap_kind :: StateFileKind
  snap_bytes :: string
  snap_token :: nat

record writeResult =
  mutationApplied :: bool
  recoveryRequired :: bool

record 'w state_files =
  sf_open :: "'w \<Rightarrow> fs_error option \<times> 'w"
  sf_read :: "'w \<Rightarrow> StateFileKind \<Rightarrow> fs_error + FileSnapshot option"
  sf_write :: "'w \<Rightarrow> StateFileKind \<Rightarrow> string \<Rightarrow> (writeResult \<times> fs_error option) \<times> 'w"
  sf_remove :: "'w \<Rightarrow> FileSnapshot \<Rightarrow> (writeResult \<times> fs_error option) \<times> 'w"
  sf_close :: "'w \<Rightarrow> fs_error option \<times> 'w"

text \<open>The result of a write is completed from the error (\<open>normalizeFilesystemWriteResult\<close>).\<close>

definition normalizeWriteResult :: "writeResult \<Rightarrow> fs_error option \<Rightarrow> writeResult" where
  "normalizeWriteResult r err =
     (case err of
        None \<Rightarrow> r
      | Some e \<Rightarrow>
          (case as_stateWrite e of
             None \<Rightarrow> r
           | Some (phase, cause, applied, recovery, cleanup) \<Rightarrow>
               \<lparr>mutationApplied = mutationApplied r \<or> applied,
                recoveryRequired = recoveryRequired r \<or> recovery\<rparr>))"

text \<open>The phases of the file system package have the names of those of the state package.\<close>

definition fs_phases :: "WritePhase list" where
  "fs_phases = [WritePhaseRecover, WritePhaseCreate, WritePhaseWrite, WritePhaseSync, WritePhaseRename,
     WritePhaseFinalize, WritePhaseClose]"

definition filesystemStateWritePhase :: "string \<Rightarrow> WritePhase \<times> bool" where
  "filesystemStateWritePhase p = (if List.member fs_phases p then (p, True) else (WritePhaseWrite, False))"

section \<open>Errors of the store\<close>

datatype WriteCause =
    CauseFs fs_error
  | CauseMarshal string
  | CauseTooLarge
  | CauseInvalidJSON
  | CauseNotApplied
  | CauseChanged fs_error
  | CauseRecoveryRequired

record WriteError =
  we_file :: string
  we_phase :: WritePhase
  we_mutationApplied :: bool
  we_recoveryRequired :: bool
  we_cause :: WriteCause
  we_cleanup :: "fs_error option"

datatype StoreError =
    StoreClosed
  | StoreContext string
  | StoreContextAndClose string "fs_error option"
  | StoreState StateError
  | NotFoundError string string
  | ReadError string "fs_error option"
  | StoreWrite WriteError
  | TransactionChanged "fs_error option"
  | StoreRaw fs_error

definition classifyWriteResult :: "string \<Rightarrow> writeResult \<Rightarrow> fs_error option \<Rightarrow> StoreError option" where
  "classifyWriteResult file r err =
     (case err of
        None \<Rightarrow>
          if mutationApplied r \<and> \<not> recoveryRequired r then None
          else Some (StoreWrite \<lparr>we_file = file, we_phase = WritePhaseWrite,
                 we_mutationApplied = mutationApplied r, we_recoveryRequired = recoveryRequired r,
                 we_cause = CauseNotApplied, we_cleanup = None\<rparr>)
      | Some e \<Rightarrow>
          (case as_stateWrite e of
             Some (fsPhase, fsCause, applied, recovery, cleanup) \<Rightarrow>
               (let (phase, known) = filesystemStateWritePhase fsPhase;
                    bad = (\<not> known \<or> fsCause = None)
                in Some (StoreWrite \<lparr>we_file = file,
                     we_phase = (if bad then WritePhaseWrite else phase),
                     we_mutationApplied = mutationApplied r \<or> applied,
                     we_recoveryRequired = recoveryRequired r \<or> recovery,
                     we_cause = CauseFs (if bad then e else the fsCause), we_cleanup = cleanup\<rparr>))
           | None \<Rightarrow>
               if \<not> mutationApplied r \<and> \<not> recoveryRequired r \<and> is_ctxEnded e then Some (StoreRaw e)
               else Some (StoreWrite \<lparr>we_file = file, we_phase = WritePhaseWrite,
                      we_mutationApplied = mutationApplied r, we_recoveryRequired = recoveryRequired r,
                      we_cause = CauseFs e, we_cleanup = None\<rparr>)))"

definition classifyRemoveResult :: "string \<Rightarrow> writeResult \<Rightarrow> fs_error option \<Rightarrow> StoreError option" where
  "classifyRemoveResult file r err =
     (case err of
        None \<Rightarrow>
          if \<not> recoveryRequired r then None
          else Some (StoreWrite \<lparr>we_file = file, we_phase = WritePhaseRemove,
                 we_mutationApplied = mutationApplied r, we_recoveryRequired = True,
                 we_cause = CauseRecoveryRequired, we_cleanup = None\<rparr>)
      | Some e \<Rightarrow>
          if \<not> mutationApplied r \<and> \<not> recoveryRequired r \<and> is_identityChanged e
            then Some (TransactionChanged (Some e))
          else if \<not> mutationApplied r \<and> \<not> recoveryRequired r \<and> is_ctxEnded e then Some (StoreRaw e)
          else (let (cause, cleanup) =
                    (case as_stateRemove e of
                       None \<Rightarrow> (e, None)
                     | Some (c, cl) \<Rightarrow> (case c of None \<Rightarrow> e | Some x \<Rightarrow> x, cl))
                in Some (StoreWrite \<lparr>we_file = file, we_phase = WritePhaseRemove,
                     we_mutationApplied = mutationApplied r, we_recoveryRequired = recoveryRequired r,
                     we_cause = (if is_identityChanged cause then CauseChanged cause else CauseFs cause),
                     we_cleanup = cleanup\<rparr>)))"

definition classifyReadError :: "string \<Rightarrow> string \<Rightarrow> fs_error \<Rightarrow> StoreError" where
  "classifyReadError file path e =
     (if is_tooLarge e then StoreState (CorruptScan file FileTooLarge)
      else if is_notFound e then NotFoundError file path
      else ReadError file (Some e))"

section \<open>The store\<close>

record Layout =
  BackendStateFile :: string
  MutationStateFile :: string
  UpdateStateFile :: string
  EnvironmentStateFile :: string
  RuntimeLogDir :: string

abbreviation "StateEnvironment \<equiv> ''environment''"

record 'w StateStore =
  layout :: Layout
  world :: 'w
  owner :: nat
  closed :: bool
  closeErr :: "fs_error option"

text \<open>The fixed parts of a store: its files, \<open>encoding/json\<close> and \<open>path/filepath\<close>.\<close>

record 'w store_api =
  files :: "'w state_files"
  json :: json_api
  paths :: path_api
  marshal_transaction :: "TransactionState \<Rightarrow> string + string"
  marshal_environment :: "EnvironmentState \<Rightarrow> string + string"

record TransactionSnapshot =
  ts_owner :: "nat option"
  ts_kind :: TransactionKind
  ts_state :: TransactionState
  ts_snapshot :: "FileSnapshot option"

text \<open>A file kind, the logical name and the path of a transaction; the file kinds have the names of the
  transaction kinds.\<close>

definition transactionFile :: "Layout \<Rightarrow> TransactionKind \<Rightarrow> ValidationError + StateFileKind \<times> string \<times> string" where
  "transactionFile l k =
     (if k = TransactionBackend then Inr (''backend'', k, BackendStateFile l)
      else if k = TransactionMutation then Inr (''mutation'', k, MutationStateFile l)
      else if k = TransactionUpdate then Inr (''update'', k, UpdateStateFile l)
      else Inl (Invalid ''kind''))"

datatype StoreOption = NilStoreOption | WithStoreClock bool

text \<open>Whether the options are accepted; the flag tells that a clock is set.\<close>

fun apply_store_options :: "bool \<Rightarrow> StoreOption list \<Rightarrow> ValidationError option" where
  "apply_store_options isSet [] = None"
| "apply_store_options isSet (NilStoreOption # ps) = Some (Invalid ''option'')"
| "apply_store_options isSet (WithStoreClock isNil # ps) =
     (if isNil \<or> isSet then Some (Invalid ''clock'') else apply_store_options True ps)"

text \<open>When the context ends while the files are opened they are closed again, and both errors are
  joined. The result carries the world in which the call leaves its files; \<open>own\<close> is the identity of
  the new store.\<close>

definition NewStore ::
  "'w store_api \<Rightarrow> (nat \<Rightarrow> string option) \<Rightarrow> Layout option \<Rightarrow> StoreOption list \<Rightarrow> nat \<Rightarrow> 'w \<Rightarrow>
   (StoreError + 'w StateStore) \<times> 'w" where
  "NewStore api ctx lay options own w =
     (case lay of
        None \<Rightarrow> (Inl (StoreState (ValidationFailed (Invalid ''layout''))), w)
      | Some l \<Rightarrow>
          (case apply_store_options False options of
             Some e \<Rightarrow> (Inl (StoreState (ValidationFailed e)), w)
           | None \<Rightarrow>
               (case ctx 0 of
                  Some e \<Rightarrow> (Inl (StoreContext e), w)
                | None \<Rightarrow>
                    (case sf_open (files api) w of
                       (Some e, w1) \<Rightarrow> (Inl (StoreRaw e), w1)
                     | (None, w1) \<Rightarrow>
                         (case ctx 1 of
                            Some e \<Rightarrow>
                              (let (cerr, w2) = sf_close (files api) w1
                               in (Inl (StoreContextAndClose e cerr), w2))
                          | None \<Rightarrow> (Inr \<lparr>layout = l, world = w1, owner = own, closed = False,
                              closeErr = None\<rparr>, w1))))))"

text \<open>The common start of every method: the context, the closed flag, the context again.\<close>

definition store_ready :: "(nat \<Rightarrow> string option) \<Rightarrow> 'w StateStore \<Rightarrow> StoreError option" where
  "store_ready ctx s =
     (case ctx 0 of
        Some e \<Rightarrow> Some (StoreContext e)
      | None \<Rightarrow> if closed s then Some StoreClosed else map_option StoreContext (ctx 1))"

definition encodeState :: "json_api \<Rightarrow> string \<Rightarrow> string + string \<Rightarrow> WriteError + string" where
  "encodeState js file marshalled =
     (let fail = (\<lambda>c. Inl \<lparr>we_file = file, we_phase = WritePhaseEncode, we_mutationApplied = False,
            we_recoveryRequired = False, we_cause = c, we_cleanup = None\<rparr>)
      in case marshalled of
           Inl e \<Rightarrow> fail (CauseMarshal e)
         | Inr encoded \<Rightarrow>
             if length encoded \<ge> maxStateFileBytes then fail CauseTooLarge
             else (let payload = encoded @ [CHR 0x0A] in
                   if inspectStateJSON js payload \<noteq> Inr SchemaVersion then fail CauseInvalidJSON
                   else Inr payload))"

text \<open>The last part of both writes: encode, ask the context, write and classify.\<close>

definition publish ::
  "'w store_api \<Rightarrow> (nat \<Rightarrow> string option) \<Rightarrow> StateFileKind \<Rightarrow> string \<Rightarrow> string + string \<Rightarrow> 'w StateStore \<Rightarrow>
   StoreError option \<times> 'w StateStore" where
  "publish api ctx fileKind file marshalled s =
     (case encodeState (json api) file marshalled of
        Inl e \<Rightarrow> (Some (StoreWrite e), s)
      | Inr payload \<Rightarrow>
          (case ctx 2 of
             Some e \<Rightarrow> (Some (StoreContext e), s)
           | None \<Rightarrow>
               (let ((r, err), w) = sf_write (files api) (world s) fileKind payload
                in (classifyWriteResult file (normalizeWriteResult r err) err, s\<lparr>world := w\<rparr>))))"

definition WriteTransaction ::
  "'w store_api \<Rightarrow> bool \<Rightarrow> (nat \<Rightarrow> string option) \<Rightarrow> TransactionKind \<Rightarrow> TransactionState \<Rightarrow> 'w StateStore \<Rightarrow>
   StoreError option \<times> 'w StateStore" where
  "WriteTransaction api baseFirst ctx k v s =
     (case store_ready ctx s of
        Some e \<Rightarrow> (Some e, s)
      | None \<Rightarrow>
          (case ValidateTransaction baseFirst k v of
             Some e \<Rightarrow> (Some (StoreState (ValidationFailed e)), s)
           | None \<Rightarrow>
               (case transactionFile (layout s) k of
                  Inl e \<Rightarrow> (Some (StoreState (ValidationFailed e)), s)
                | Inr (fileKind, file, path) \<Rightarrow>
                    publish api ctx fileKind file (marshal_transaction api v) s)))"

definition WriteEnvironment ::
  "'w store_api \<Rightarrow> (nat \<Rightarrow> string option) \<Rightarrow> EnvironmentState \<Rightarrow> 'w StateStore \<Rightarrow> StoreError option \<times> 'w StateStore" where
  "WriteEnvironment api ctx v s =
     (case store_ready ctx s of
        Some e \<Rightarrow> (Some e, s)
      | None \<Rightarrow>
          (case validateEnvironment (paths api) (Some (RuntimeLogDir (layout s))) v of
             Some e \<Rightarrow> (Some (StoreState (ValidationFailed e)), s)
           | None \<Rightarrow> publish api ctx StateEnvironment ''environment'' (marshal_environment api v) s))"

text \<open>The common part of both reads: read, ask the context, check the kind of the snapshot.\<close>

definition read_file ::
  "'w store_api \<Rightarrow> (nat \<Rightarrow> string option) \<Rightarrow> StateFileKind \<Rightarrow> string \<Rightarrow> string \<Rightarrow> 'w StateStore \<Rightarrow>
   StoreError + FileSnapshot" where
  "read_file api ctx fileKind file path s =
     (case sf_read (files api) (world s) fileKind of
        Inl e \<Rightarrow> Inl (classifyReadError file path e)
      | Inr snap \<Rightarrow>
          (case ctx 2 of
             Some e \<Rightarrow> Inl (StoreContext e)
           | None \<Rightarrow>
               (case snap of
                  None \<Rightarrow> Inl (ReadError file None)
                | Some sn \<Rightarrow> if snap_kind sn \<noteq> fileKind then Inl (ReadError file None) else Inr sn)))"

definition ReadTransaction ::
  "'w store_api \<Rightarrow> bool \<Rightarrow> (nat \<Rightarrow> string option) \<Rightarrow> TransactionKind \<Rightarrow> 'w StateStore \<Rightarrow>
   StoreError + TransactionSnapshot" where
  "ReadTransaction api baseFirst ctx k s =
     (case store_ready ctx s of
        Some e \<Rightarrow> Inl e
      | None \<Rightarrow>
          if \<not> TransactionKind_Valid k then Inl (StoreState (ValidationFailed (Invalid ''kind'')))
          else (case transactionFile (layout s) k of
                  Inl e \<Rightarrow> Inl (StoreState (ValidationFailed e))
                | Inr (fileKind, file, path) \<Rightarrow>
                    bindE (read_file api ctx fileKind file path s) (\<lambda>snap.
                      case decodeTransaction (json api) baseFirst file k (snap_bytes snap) of
                        Inl e \<Rightarrow> Inl (StoreState e)
                      | Inr v \<Rightarrow> Inr \<lparr>ts_owner = Some (owner s), ts_kind = k, ts_state = v,
                          ts_snapshot = Some snap\<rparr>)))"

definition ReadEnvironment ::
  "'w store_api \<Rightarrow> (nat \<Rightarrow> string option) \<Rightarrow> 'w StateStore \<Rightarrow> StoreError + EnvironmentState" where
  "ReadEnvironment api ctx s =
     (case store_ready ctx s of
        Some e \<Rightarrow> Inl e
      | None \<Rightarrow>
          bindE (read_file api ctx StateEnvironment ''environment'' (EnvironmentStateFile (layout s)) s) (\<lambda>snap.
            case decodeEnvironment (json api) (paths api) (Some (RuntimeLogDir (layout s))) ''environment''
                   (snap_bytes snap) of
              Inl e \<Rightarrow> Inl (StoreState e)
            | Inr v \<Rightarrow> Inr v))"

definition RemoveTransaction ::
  "'w store_api \<Rightarrow> (nat \<Rightarrow> string option) \<Rightarrow> TransactionSnapshot \<Rightarrow> 'w StateStore \<Rightarrow> StoreError option \<times> 'w StateStore" where
  "RemoveTransaction api ctx snap s =
     (case store_ready ctx s of
        Some e \<Rightarrow> (Some e, s)
      | None \<Rightarrow>
          if ts_owner snap = None \<or> ts_owner snap \<noteq> Some (owner s) \<or> ts_snapshot snap = None \<or>
             \<not> TransactionKind_Valid (ts_kind snap)
          then (Some (StoreState (ValidationFailed (Invalid ''snapshot''))), s)
          else (case transactionFile (layout s) (ts_kind snap) of
                  Inl e \<Rightarrow> (Some (StoreState (ValidationFailed e)), s)
                | Inr (fileKind, file, path) \<Rightarrow>
                    if snap_kind (the (ts_snapshot snap)) \<noteq> fileKind
                    then (Some (StoreState (ValidationFailed (Invalid ''snapshot''))), s)
                    else (case ctx 2 of
                            Some e \<Rightarrow> (Some (StoreContext e), s)
                          | None \<Rightarrow>
                              (let ((r, err), w) = sf_remove (files api) (world s) (the (ts_snapshot snap))
                               in (classifyRemoveResult file r err, s\<lparr>world := w\<rparr>)))))"

definition sameTransactionState :: "TransactionState \<Rightarrow> TransactionState \<Rightarrow> bool" where
  "sameTransactionState a b \<longleftrightarrow>
     schemaVersion a = schemaVersion b \<and> operationId a = operationId b \<and> tx_command a = tx_command b \<and>
     pid a = pid b \<and> instant (startedAt a) = instant (startedAt b) \<and> targetVersion a = targetVersion b \<and>
     targetCommit a = targetCommit b \<and> baseCommit a = baseCommit b \<and> tx_stage a = tx_stage b"

text \<open>\<open>ctxRead\<close> and \<open>ctxRemove\<close> are the answers of the context in the two methods it calls; between them
  the mutex is free, so another call may run: \<open>between\<close> is what it does to the store.\<close>

definition RemoveOwnedTransaction ::
  "'w store_api \<Rightarrow> bool \<Rightarrow> (nat \<Rightarrow> string option) \<Rightarrow> (nat \<Rightarrow> string option) \<Rightarrow> ('w StateStore \<Rightarrow> 'w StateStore) \<Rightarrow>
   TransactionKind \<Rightarrow> TransactionState \<Rightarrow> 'w StateStore \<Rightarrow> StoreError option \<times> 'w StateStore" where
  "RemoveOwnedTransaction api baseFirst ctxRead ctxRemove between k expected s =
     (case ValidateTransaction baseFirst k expected of
        Some e \<Rightarrow> (Some (StoreState (ValidationFailed e)), s)
      | None \<Rightarrow>
          (case ReadTransaction api baseFirst ctxRead k s of
             Inl e \<Rightarrow> (Some e, s)
           | Inr snap \<Rightarrow>
               if \<not> sameTransactionState (ts_state snap) expected then (Some (TransactionChanged None), s)
               else RemoveTransaction api ctxRemove snap (between s)))"

definition Close :: "'w store_api \<Rightarrow> 'w StateStore \<Rightarrow> fs_error option \<times> 'w StateStore" where
  "Close api s =
     (if closed s then (closeErr s, s)
      else (let (err, w) = sf_close (files api) (world s)
            in (err, s\<lparr>closed := True, closeErr := err, world := w\<rparr>)))"

section \<open>Histories of a store\<close>

text \<open>A call of a store with its arguments; the reads are left out, they have no effect on it.\<close>

datatype StoreCall =
    CallWriteTransaction bool "nat \<Rightarrow> string option" TransactionKind TransactionState
  | CallWriteEnvironment "nat \<Rightarrow> string option" EnvironmentState
  | CallRemove "nat \<Rightarrow> string option" TransactionSnapshot
  | CallClose

definition store_call :: "'w store_api \<Rightarrow> 'w StateStore \<Rightarrow> StoreCall \<Rightarrow> unit + 'w StateStore" where
  "store_call api s c =
     Inr (case c of
            CallWriteTransaction b ctx k v \<Rightarrow> snd (WriteTransaction api b ctx k v s)
          | CallWriteEnvironment ctx v \<Rightarrow> snd (WriteEnvironment api ctx v s)
          | CallRemove ctx snap \<Rightarrow> snd (RemoveTransaction api ctx snap s)
          | CallClose \<Rightarrow> snd (Close api s))"

section \<open>Facts\<close>

lemma store_ready_None: "store_ready ctx s = None \<longleftrightarrow> ctx 0 = None \<and> \<not> closed s \<and> ctx 1 = None"
  by (simp add: store_ready_def split: option.splits)

lemma encodeState_Inr:
  "encodeState js file marshalled = Inr payload \<longleftrightarrow>
     (\<exists>encoded. marshalled = Inr encoded \<and> payload = encoded @ [CHR 0x0A] \<and>
        length payload \<le> maxStateFileBytes \<and> inspectStateJSON js payload = Inr SchemaVersion)"
  by (auto simp: encodeState_def Let_def split: sum.splits if_splits)

lemma encodeState_Inl:
  "encodeState js file marshalled = Inl e \<Longrightarrow> we_phase e = WritePhaseEncode \<and> \<not> we_mutationApplied e \<and>
     \<not> we_recoveryRequired e \<and> we_file e = file"
  by (auto simp: encodeState_def Let_def split: sum.splits if_splits)

text \<open>The flags an error of a store carries; only a \<open>WriteError\<close> has them.\<close>

fun reports_applied :: "StoreError option \<Rightarrow> bool" where
  "reports_applied (Some (StoreWrite e)) = we_mutationApplied e"
| "reports_applied _ = False"

fun reports_recovery :: "StoreError option \<Rightarrow> bool" where
  "reports_recovery (Some (StoreWrite e)) = we_recoveryRequired e"
| "reports_recovery _ = False"

lemma write_classified:
  "classifyWriteResult file r err = None \<longleftrightarrow> err = None \<and> mutationApplied r \<and> \<not> recoveryRequired r"
  "classifyWriteResult file r err \<noteq> None \<Longrightarrow> mutationApplied r \<Longrightarrow> reports_applied (classifyWriteResult file r err)"
  "recoveryRequired r \<Longrightarrow> reports_recovery (classifyWriteResult file r err)"
  by (auto simp: classifyWriteResult_def Let_def split: option.splits prod.splits if_splits)

lemma remove_classified:
  "classifyRemoveResult file r err = None \<longleftrightarrow> err = None \<and> \<not> recoveryRequired r"
  "classifyRemoveResult file r err \<noteq> None \<Longrightarrow> reports_applied (classifyRemoveResult file r err) = mutationApplied r"
  "reports_recovery (classifyRemoveResult file r err) = recoveryRequired r"
  by (auto simp: classifyRemoveResult_def Let_def split: option.splits prod.splits)

text \<open>A published payload, as the file system gets it.\<close>

definition published ::
  "'w store_api \<Rightarrow> (nat \<Rightarrow> string option) \<Rightarrow> StateFileKind \<Rightarrow> string + string \<Rightarrow> 'w StateStore \<Rightarrow> string \<Rightarrow> bool" where
  "published api ctx fileKind marshalled s payload \<longleftrightarrow>
     \<not> closed s \<and> ctx 0 = None \<and> ctx 1 = None \<and> ctx 2 = None \<and>
     (\<exists>encoded. marshalled = Inr encoded \<and> payload = encoded @ [CHR 0x0A]) \<and>
     length payload \<le> maxStateFileBytes \<and> inspectStateJSON (json api) payload = Inr SchemaVersion"

lemma publish_cases:
  assumes "store_ready ctx s = None"
  obtains (unpublished) e where "publish api ctx fileKind file m s = (Some e, s)"
      "\<not> reports_applied (Some e)" "\<not> reports_recovery (Some e)"
    | (written) payload r err w where "published api ctx fileKind m s payload"
      "sf_write (files api) (world s) fileKind payload = ((r, err), w)"
      "publish api ctx fileKind file m s =
         (classifyWriteResult file (normalizeWriteResult r err) err, s\<lparr>world := w\<rparr>)"
proof (cases "encodeState (json api) file m")
  case (Inl e)
  with encodeState_Inl [OF Inl] show ?thesis by (intro unpublished) (auto simp: publish_def)
next
  case enc: (Inr payload)
  show ?thesis
  proof (cases "ctx 2")
    case None
    obtain r err w where w: "sf_write (files api) (world s) fileKind payload = ((r, err), w)"
      by (metis prod.exhaust)
    from enc None assms have "published api ctx fileKind m s payload"
      by (auto simp: published_def encodeState_Inr store_ready_None)
    with enc None w show ?thesis by (intro written [of payload r err w]) (simp_all add: publish_def)
  next
    case (Some e)
    with enc show ?thesis by (intro unpublished) (auto simp: publish_def)
  qed
qed

text \<open>The outcome of a write: not attempted, or attempted with the payload and classified.\<close>

definition attempted ::
  "'w store_api \<Rightarrow> StateFileKind \<Rightarrow> string \<Rightarrow> string \<Rightarrow> 'w StateStore \<Rightarrow> StoreError option \<times> 'w StateStore \<Rightarrow>
   writeResult \<Rightarrow> fs_error option \<Rightarrow> bool" where
  "attempted api fileKind file payload s out r err \<longleftrightarrow>
     (\<exists>w. sf_write (files api) (world s) fileKind payload = ((r, err), w) \<and>
        out = (classifyWriteResult file (normalizeWriteResult r err) err, s\<lparr>world := w\<rparr>))"

lemma WriteTransaction_cases:
  obtains (skipped) e where "WriteTransaction api b ctx k v s = (Some e, s)"
      "\<not> reports_applied (Some e)" "\<not> reports_recovery (Some e)"
    | (written) fileKind fl path payload r err where "transactionFile (layout s) k = Inr (fileKind, fl, path)"
      "ValidateTransaction b k v = None" "published api ctx fileKind (marshal_transaction api v) s payload"
      "attempted api fileKind fl payload s (WriteTransaction api b ctx k v s) r err"
proof (cases "\<exists>f. store_ready ctx s = None \<and> ValidateTransaction b k v = None \<and> transactionFile (layout s) k = Inr f")
  case False
  then have "\<exists>e. WriteTransaction api b ctx k v s = (Some e, s) \<and> \<not> reports_applied (Some e) \<and> \<not> reports_recovery (Some e)"
    by (auto simp: WriteTransaction_def store_ready_def split: option.splits sum.splits if_splits)
  with skipped show ?thesis by blast
next
  case True
  then obtain fileKind fl path where ok: "store_ready ctx s = None" "ValidateTransaction b k v = None"
    and f: "transactionFile (layout s) k = Inr (fileKind, fl, path)"
    by auto
  then have out: "WriteTransaction api b ctx k v s = publish api ctx fileKind fl (marshal_transaction api v) s"
    by (simp add: WriteTransaction_def)
  show ?thesis
  proof (cases rule: publish_cases [OF ok(1), of api fileKind fl "marshal_transaction api v"])
    case (1 e)
    with skipped out show ?thesis by auto
  next
    case (2 payload r err w)
    with ok f out show ?thesis by (intro written [of fileKind fl path payload r err]) (auto simp: attempted_def)
  qed
qed

lemma WriteEnvironment_cases:
  obtains (skipped) e where "WriteEnvironment api ctx v s = (Some e, s)"
      "\<not> reports_applied (Some e)" "\<not> reports_recovery (Some e)"
    | (written) payload r err where
      "validateEnvironment (paths api) (Some (RuntimeLogDir (layout s))) v = None"
      "published api ctx StateEnvironment (marshal_environment api v) s payload"
      "attempted api StateEnvironment ''environment'' payload s (WriteEnvironment api ctx v s) r err"
proof (cases "store_ready ctx s = None \<and> validateEnvironment (paths api) (Some (RuntimeLogDir (layout s))) v = None")
  case False
  then have "\<exists>e. WriteEnvironment api ctx v s = (Some e, s) \<and> \<not> reports_applied (Some e) \<and> \<not> reports_recovery (Some e)"
    by (auto simp: WriteEnvironment_def store_ready_def split: option.splits)
  with skipped show ?thesis by blast
next
  case True
  then have out: "WriteEnvironment api ctx v s =
      publish api ctx StateEnvironment ''environment'' (marshal_environment api v) s"
    by (simp add: WriteEnvironment_def)
  from True have "store_ready ctx s = None" by simp
  note attempt = written
  from \<open>store_ready ctx s = None\<close> show ?thesis
  proof (cases rule: publish_cases [of _ _ api StateEnvironment "''environment''" "marshal_environment api v"])
    case (unpublished e)
    with skipped out show ?thesis by auto
  next
    case (written payload r err w)
    with True out show ?thesis by (intro attempt [of payload r err]) (auto simp: attempted_def)
  qed
qed

lemma attempted_truth:
  assumes "attempted api fileKind file payload s out r err"
  shows "fst out = None \<Longrightarrow> err = None \<and> mutationApplied r \<and> \<not> recoveryRequired r"
    and "fst out \<noteq> None \<Longrightarrow> mutationApplied r \<Longrightarrow> reports_applied (fst out)"
    and "recoveryRequired r \<Longrightarrow> reports_recovery (fst out)"
proof -
  obtain w where out: "out = (classifyWriteResult file (normalizeWriteResult r err) err, s\<lparr>world := w\<rparr>)"
    using assms by (auto simp: attempted_def)
  show "fst out = None \<Longrightarrow> err = None \<and> mutationApplied r \<and> \<not> recoveryRequired r"
    by (auto simp: out write_classified normalizeWriteResult_def)
  show "fst out \<noteq> None \<Longrightarrow> mutationApplied r \<Longrightarrow> reports_applied (fst out)"
    unfolding out fst_conv by (rule write_classified(2)) (auto simp: normalizeWriteResult_def split: option.splits)
  show "recoveryRequired r \<Longrightarrow> reports_recovery (fst out)"
    unfolding out fst_conv by (rule write_classified(3)) (auto simp: normalizeWriteResult_def split: option.splits)
qed

interpretation store_life: one_shot_machine "store_call api" "\<lambda>_. True" "\<lambda>s c. c = CallClose \<and> \<not> closed s" closed
  by unfold_locales
     (auto simp: store_call_def Close_def WriteTransaction_def WriteEnvironment_def RemoveTransaction_def
        publish_def Let_def split: StoreCall.splits option.splits sum.splits prod.splits)

lemma closed_call: "closed s \<Longrightarrow> store_call api s c = Inr s"
  by (cases c)
     (auto simp: store_call_def Close_def WriteTransaction_def WriteEnvironment_def RemoveTransaction_def
        store_ready_def split: option.splits)

lemma closed_run: "closed s \<Longrightarrow> run_calls (store_call api) s cs = s"
  by (induction cs) (auto simp: apply_call_def closed_call)

lemma RemoveTransaction_cases:
  obtains (skipped) e where "RemoveTransaction api ctx snap s = (Some e, s)"
      "\<not> reports_applied (Some e)" "\<not> reports_recovery (Some e)"
    | (removed) fileKind fl path sn r err w where "store_ready ctx s = None" "ts_owner snap = Some (owner s)"
      "transactionFile (layout s) (ts_kind snap) = Inr (fileKind, fl, path)" "ts_snapshot snap = Some sn"
      "snap_kind sn = fileKind" "sf_remove (files api) (world s) sn = ((r, err), w)"
      "RemoveTransaction api ctx snap s = (classifyRemoveResult fl r err, s\<lparr>world := w\<rparr>)"
proof (cases "\<exists>fileKind fl path sn. store_ready ctx s = None \<and> ts_owner snap = Some (owner s) \<and>
      TransactionKind_Valid (ts_kind snap) \<and> ctx 2 = None \<and>
      transactionFile (layout s) (ts_kind snap) = Inr (fileKind, fl, path) \<and> ts_snapshot snap = Some sn \<and>
      snap_kind sn = fileKind")
  case False
  then have "\<exists>e. RemoveTransaction api ctx snap s = (Some e, s) \<and> \<not> reports_applied (Some e) \<and> \<not> reports_recovery (Some e)"
    by (auto simp: RemoveTransaction_def store_ready_def split: option.splits sum.splits if_splits)
  with skipped show ?thesis by blast
next
  case True
  then obtain fileKind fl path sn where ok: "store_ready ctx s = None" "ts_owner snap = Some (owner s)"
      "TransactionKind_Valid (ts_kind snap)" "ctx 2 = None"
      "transactionFile (layout s) (ts_kind snap) = Inr (fileKind, fl, path)" "ts_snapshot snap = Some sn"
      "snap_kind sn = fileKind"
    by blast
  obtain r err w where w: "sf_remove (files api) (world s) sn = ((r, err), w)"
    by (metis prod.exhaust)
  with ok have "RemoveTransaction api ctx snap s = (classifyRemoveResult fl r err, s\<lparr>world := w\<rparr>)"
    by (simp add: RemoveTransaction_def)
  with ok w show ?thesis by (intro removed) auto
qed

lemma read_file_Inr:
  "read_file api ctx fileKind fl path s = Inr sn \<longleftrightarrow>
     sf_read (files api) (world s) fileKind = Inr (Some sn) \<and> ctx 2 = None \<and> snap_kind sn = fileKind"
  by (auto simp: read_file_def split: sum.splits option.splits)

lemma ReadTransaction_Inr:
  assumes "ReadTransaction api b ctx k s = Inr snap"
  obtains fileKind fl path sn where "transactionFile (layout s) k = Inr (fileKind, fl, path)"
    "sf_read (files api) (world s) fileKind = Inr (Some sn)" "snap_kind sn = fileKind"
    "decodeTransaction (json api) b fl k (snap_bytes sn) = Inr (ts_state snap)"
    "ts_kind snap = k" "ts_snapshot snap = Some sn" "ts_owner snap = Some (owner s)" "\<not> closed s"
proof -
  have ready: "store_ready ctx s = None" and kind: "TransactionKind_Valid k"
    using assms by (auto simp: ReadTransaction_def split: option.splits if_splits)
  obtain fileKind fl path where f: "transactionFile (layout s) k = Inr (fileKind, fl, path)"
    using assms ready kind by (auto simp: ReadTransaction_def split: sum.splits)
  obtain sn where sn: "read_file api ctx fileKind fl path s = Inr sn"
    and dec: "(case decodeTransaction (json api) b fl k (snap_bytes sn) of Inl e \<Rightarrow> Inl (StoreState e)
      | Inr v \<Rightarrow> Inr \<lparr>ts_owner = Some (owner s), ts_kind = k, ts_state = v, ts_snapshot = Some sn\<rparr>) = Inr snap"
    using assms ready kind f by (auto simp: ReadTransaction_def bindE_Inr_iff)
  from dec obtain v where "decodeTransaction (json api) b fl k (snap_bytes sn) = Inr v"
    "snap = \<lparr>ts_owner = Some (owner s), ts_kind = k, ts_state = v, ts_snapshot = Some sn\<rparr>"
    by (auto split: sum.splits)
  with sn f ready show ?thesis by (intro that [of fileKind fl path sn]) (auto simp: read_file_Inr store_ready_None)
qed

section \<open>Properties\<close>

text \<open>What a write may answer: it was not attempted and carries no flag, or the answer of the file
  system is reported in full.\<close>

definition reported_truthfully :: "'w store_api \<Rightarrow> 'w StateStore \<Rightarrow> StoreError option \<times> 'w StateStore \<Rightarrow> bool" where
  "reported_truthfully api s out \<longleftrightarrow>
     (\<exists>e. out = (Some e, s) \<and> \<not> reports_applied (Some e) \<and> \<not> reports_recovery (Some e)) \<or>
     (\<exists>fileKind payload r err w. sf_write (files api) (world s) fileKind payload = ((r, err), w) \<and>
        snd out = s\<lparr>world := w\<rparr> \<and>
        (fst out = None \<longleftrightarrow> err = None \<and> mutationApplied r \<and> \<not> recoveryRequired r) \<and>
        (fst out \<noteq> None \<and> mutationApplied r \<longrightarrow> reports_applied (fst out)) \<and>
        (recoveryRequired r \<longrightarrow> reports_recovery (fst out)))"

lemma attempted_reported:
  "attempted api fileKind fl payload s out r err \<Longrightarrow> reported_truthfully api s out"
  using attempted_truth [of api fileKind fl payload s out r err]
  unfolding reported_truthfully_def
  by (intro disjI2 exI [of _ fileKind] exI [of _ payload] exI [of _ r] exI [of _ err])
     (auto simp: attempted_def write_classified normalizeWriteResult_def)

lemma skipped_reported:
  "out = (Some e, s) \<Longrightarrow> \<not> reports_applied (Some e) \<Longrightarrow> \<not> reports_recovery (Some e) \<Longrightarrow>
   reported_truthfully api s out"
  by (auto simp: reported_truthfully_def)

text \<open>A write reaches the file system only from an open store with a living context, for a value that
  is valid for its file, as bytes that end in a newline, are at most the size limit and have a JSON
  shape with the schema version of the store; whatever it returns, only the world has changed.\<close>

theorem store_write_guarded:
  "((\<exists>e. WriteTransaction api b ctx k v s = (Some e, s)) \<or>
    (\<exists>fileKind fl path payload r err. transactionFile (layout s) k = Inr (fileKind, fl, path) \<and>
       ValidateTransaction b k v = None \<and> published api ctx fileKind (marshal_transaction api v) s payload \<and>
       attempted api fileKind fl payload s (WriteTransaction api b ctx k v s) r err)) \<and>
   ((\<exists>e. WriteEnvironment api ctx x s = (Some e, s)) \<or>
    (\<exists>payload r err. validateEnvironment (paths api) (Some (RuntimeLogDir (layout s))) x = None \<and>
       published api ctx StateEnvironment (marshal_environment api x) s payload \<and>
       attempted api StateEnvironment ''environment'' payload s (WriteEnvironment api ctx x s) r err))"
proof (rule conjI, goal_cases)
  case 1
  show ?case by (cases rule: WriteTransaction_cases [of api b ctx k v s]) blast+
next
  case 2
  show ?case by (cases rule: WriteEnvironment_cases [of api ctx x s]) blast+
qed

text \<open>a write returns no error exactly when it was attempted and the file system applied it without
  error and without a need for recovery; an applied mutation or a required recovery is in the error
  otherwise, and a write that was not attempted claims neither.\<close>

theorem store_write_reported:
  "reported_truthfully api s (WriteTransaction api b ctx k v s) \<and>
   reported_truthfully api s (WriteEnvironment api ctx x s)"
proof
  show "reported_truthfully api s (WriteTransaction api b ctx k v s)"
    by (cases rule: WriteTransaction_cases [of api b ctx k v s])
       (rule skipped_reported attempted_reported; assumption)+
  show "reported_truthfully api s (WriteEnvironment api ctx x s)"
    by (cases rule: WriteEnvironment_cases [of api ctx x s])
       (rule skipped_reported attempted_reported; assumption)+
qed

text \<open>C32: an owned removal that changes more than the other calls did removes exactly the file it read:
  its decoded state is that of the caller, and the token it was read with goes to the file system,
  whatever happened between the read and the removal.\<close>

theorem owned_removal_safe:
  assumes "RemoveOwnedTransaction api b ctxRead ctxRemove between k expected s = (out, s')"
    and "s' \<noteq> s" "s' \<noteq> between s"
  shows "\<exists>fileKind fl path sn v r err. transactionFile (layout s) k = Inr (fileKind, fl, path) \<and>
    sf_read (files api) (world s) fileKind = Inr (Some sn) \<and>
    decodeTransaction (json api) b fl k (snap_bytes sn) = Inr v \<and> sameTransactionState v expected \<and>
    sf_remove (files api) (world (between s)) sn = ((r, err), world s') \<and>
    (out = None \<longleftrightarrow> err = None \<and> \<not> recoveryRequired r) \<and>
    reports_recovery out = recoveryRequired r"
proof -
  from assms obtain snap where read: "ReadTransaction api b ctxRead k s = Inr snap"
    and same: "sameTransactionState (ts_state snap) expected"
    and rm: "RemoveTransaction api ctxRemove snap (between s) = (out, s')"
    by (auto simp: RemoveOwnedTransaction_def split: option.splits sum.splits if_splits)
  from rm show ?thesis
  proof (cases rule: RemoveTransaction_cases [of api ctxRemove snap "between s"])
    case (skipped e)
    with rm assms(3) show ?thesis by simp
  next
    case (removed fk0 fl0 path0 sn r err w)
    from read removed same rm show ?thesis
      by (elim ReadTransaction_Inr) (auto simp: remove_classified)
  qed
qed

text \<open>A store of one file: the removal takes it away.\<close>

definition example_store_api :: "bool store_api" where
  "example_store_api = \<lparr>files = \<lparr>sf_open = \<lambda>w. (None, w),
      sf_read = \<lambda>w fk. Inr (if w then Some \<lparr>snap_kind = fk, snap_bytes = example_payload, snap_token = 7\<rparr> else None),
      sf_write = \<lambda>w fk p. ((\<lparr>mutationApplied = True, recoveryRequired = False\<rparr>, None), True),
      sf_remove = \<lambda>w sn. ((\<lparr>mutationApplied = True, recoveryRequired = False\<rparr>, None), False),
      sf_close = \<lambda>w. (None, w)\<rparr>,
    json = example_json ''1'', paths = example_paths, marshal_transaction = \<lambda>v. Inr '''',
    marshal_environment = \<lambda>v. Inr ''''\<rparr>"

definition example_store :: "bool StateStore" where
  "example_store = \<lparr>layout = \<lparr>BackendStateFile = '''', MutationStateFile = '''', UpdateStateFile = '''',
      EnvironmentStateFile = '''', RuntimeLogDir = ''''\<rparr>, world = True, owner = 1, closed = False, closeErr = None\<rparr>"

theorem owned_removal_safe_witness:
  "RemoveOwnedTransaction example_store_api False (\<lambda>_. None) (\<lambda>_. None) id TransactionUpdate
     example_transaction example_store = (None, example_store\<lparr>world := False\<rparr>) \<and>
   (\<exists>fileKind sn. sf_read (files example_store_api) True fileKind = Inr (Some sn) \<and>
      sf_remove (files example_store_api) True sn =
        ((\<lparr>mutationApplied = True, recoveryRequired = False\<rparr>, None), False))"
proof -
  have kind: "TransactionKind_Valid TransactionUpdate"
    "transactionFile (layout example_store) TransactionUpdate = Inr (''update'', ''update'', '''')"
    by (simp_all add: TransactionKind_Valid_def transactionFile_def example_store_def)
  have read: "ReadTransaction example_store_api False (\<lambda>_. None) TransactionUpdate example_store =
      Inr \<lparr>ts_owner = Some 1, ts_kind = TransactionUpdate, ts_state = example_transaction,
        ts_snapshot = Some \<lparr>snap_kind = ''update'', snap_bytes = example_payload, snap_token = 7\<rparr>\<rparr>"
    using kind example_decoded
    by (simp add: ReadTransaction_def store_ready_def read_file_def example_store_api_def example_store_def)
  have out: "RemoveOwnedTransaction example_store_api False (\<lambda>_. None) (\<lambda>_. None) id TransactionUpdate
     example_transaction example_store = (None, example_store\<lparr>world := False\<rparr>)"
    using kind example_transaction_valid
    by (simp add: RemoveOwnedTransaction_def read sameTransactionState_def RemoveTransaction_def
        store_ready_def classifyRemoveResult_def) (simp add: example_store_api_def example_store_def)
  have changed: "example_store\<lparr>world := False\<rparr> \<noteq> example_store" "example_store\<lparr>world := False\<rparr> \<noteq> id example_store"
    by (simp_all add: example_store_def)
  from owned_removal_safe [OF out changed] out show ?thesis
    by (auto simp: example_store_api_def example_store_def)
qed

text \<open>however a store is used, its files are closed at most once; after \<open>Close\<close> no call changes
  anything, and another \<open>Close\<close> returns the result of the first.\<close>

theorem closed_store_final:
  "count_accepted (store_call api) (\<lambda>s c. c = CallClose \<and> \<not> closed s) s cs \<le> 1 \<and>
   run_calls (store_call api) (snd (Close api s)) cs = snd (Close api s) \<and>
   Close api (snd (Close api s)) = Close api s"
proof (intro conjI)
  show "count_accepted (store_call api) (\<lambda>s c. c = CallClose \<and> \<not> closed s) s cs \<le> 1"
    by (rule store_life.spent_at_most_once) simp
  have closed: "closed (snd (Close api s))" by (simp add: Close_def split: prod.splits)
  then show "run_calls (store_call api) (snd (Close api s)) cs = snd (Close api s)"
    by (rule closed_run)
  show "Close api (snd (Close api s)) = Close api s"
    by (auto simp: Close_def split: prod.splits)
qed

end
