(* ===== verification/Protocol_Errors.thy ===== *)
theory Protocol_Errors
  imports Emitter
begin

text \<open>
  \<open>internal/protocol/errors.go\<close>: the stable table of error codes with their exit code,
       whether a retry
  may help and the remediations, and the constructors of error, warning and result events that copy
  a row of the table. Codes and remediations are open strings in Go, so they are strings here.
\<close>

section \<open>Codes, exit codes and remediations\<close>

type_synonym Code = string
type_synonym ExitCode = int
type_synonym Remediation = string

abbreviation "CodeOK \<equiv> ''OK''"
abbreviation "CodeInvalidArgument \<equiv> ''INVALID_ARGUMENT''"
abbreviation "CodeInvalidControlCommand \<equiv> ''INVALID_CONTROL_COMMAND''"
abbreviation "CodeInvalidVersion \<equiv> ''INVALID_VERSION''"
abbreviation "CodeUnsupportedMode \<equiv> ''UNSUPPORTED_MODE''"
abbreviation "CodeProtocolMismatch \<equiv> ''PROTOCOL_MISMATCH''"
abbreviation "CodeOperationCancelled \<equiv> ''OPERATION_CANCELLED''"
abbreviation "CodeOutputWriteFailed \<equiv> ''OUTPUT_WRITE_FAILED''"
abbreviation "CodeInternalError \<equiv> ''INTERNAL_ERROR''"
abbreviation "CodePathOutsideManagedRoot \<equiv> ''PATH_OUTSIDE_MANAGED_ROOT''"
abbreviation "CodeUnsafeReparsePoint \<equiv> ''UNSAFE_REPARSE_POINT''"
abbreviation "CodeDirectoryOccupied \<equiv> ''DIRECTORY_OCCUPIED''"
abbreviation "CodeMutationInProgress \<equiv> ''MUTATION_IN_PROGRESS''"
abbreviation "CodeBackendAlreadyRunning \<equiv> ''BACKEND_ALREADY_RUNNING''"
abbreviation "CodeBackendStillRunning \<equiv> ''BACKEND_STILL_RUNNING''"
abbreviation "CodeMutexOperationFailed \<equiv> ''MUTEX_OPERATION_FAILED''"
abbreviation "CodeStateWriteFailed \<equiv> ''STATE_WRITE_FAILED''"
abbreviation "CodeUpdateStateAmbiguous \<equiv> ''UPDATE_STATE_AMBIGUOUS''"
abbreviation "CodeNetworkUnavailable \<equiv> ''NETWORK_UNAVAILABLE''"
abbreviation "CodeMirrorExhausted \<equiv> ''MIRROR_EXHAUSTED''"
abbreviation "CodeGitBranchNotFound \<equiv> ''GIT_BRANCH_NOT_FOUND''"
abbreviation "CodeGitRemoteResolveFailed \<equiv> ''GIT_REMOTE_RESOLVE_FAILED''"
abbreviation "CodeGitCloneFailed \<equiv> ''GIT_CLONE_FAILED''"
abbreviation "CodeGitRepositoryInvalid \<equiv> ''GIT_REPOSITORY_INVALID''"
abbreviation "CodeGitVersionMismatch \<equiv> ''GIT_VERSION_MISMATCH''"
abbreviation "CodeGitRepoSwapFailed \<equiv> ''GIT_REPO_SWAP_FAILED''"
abbreviation "CodeGitRepoCleanupFailed \<equiv> ''GIT_REPO_CLEANUP_FAILED''"
abbreviation "CodeUVDownloadFailed \<equiv> ''UV_DOWNLOAD_FAILED''"
abbreviation "CodeUVChecksumMismatch \<equiv> ''UV_CHECKSUM_MISMATCH''"
abbreviation "CodeUVVersionMismatch \<equiv> ''UV_VERSION_MISMATCH''"
abbreviation "CodeUVExecFailed \<equiv> ''UV_EXEC_FAILED''"
abbreviation "CodePythonVersionFileMissing \<equiv> ''PYTHON_VERSION_FILE_MISSING''"
abbreviation "CodePythonVersionInvalid \<equiv> ''PYTHON_VERSION_INVALID''"
abbreviation "CodePythonVersionUnsupported \<equiv> ''PYTHON_VERSION_UNSUPPORTED''"
abbreviation "CodePythonVersionIncompatible \<equiv> ''PYTHON_VERSION_INCOMPATIBLE''"
abbreviation "CodePythonInstallFailed \<equiv> ''PYTHON_INSTALL_FAILED''"
abbreviation "CodePythonVersionMismatch \<equiv> ''PYTHON_VERSION_MISMATCH''"
abbreviation "CodeLockfileMissing \<equiv> ''LOCKFILE_MISSING''"
abbreviation "CodeLockfileOutdated \<equiv> ''LOCKFILE_OUTDATED''"
abbreviation "CodeLockfileInvalid \<equiv> ''LOCKFILE_INVALID''"
abbreviation "CodeLockfileCheckFailed \<equiv> ''LOCKFILE_CHECK_FAILED''"
abbreviation "CodeWorkspaceRestoreFailed \<equiv> ''WORKSPACE_RESTORE_FAILED''"
abbreviation "CodeDependencySyncFailed \<equiv> ''DEPENDENCY_SYNC_FAILED''"
abbreviation "CodeEnvironmentBroken \<equiv> ''ENVIRONMENT_BROKEN''"
abbreviation "CodeEnvironmentRebuildFailed \<equiv> ''ENVIRONMENT_REBUILD_FAILED''"
abbreviation "CodeBackendEntryNotFound \<equiv> ''BACKEND_ENTRY_NOT_FOUND''"
abbreviation "CodeBackendSpawnFailed \<equiv> ''BACKEND_SPAWN_FAILED''"
abbreviation "CodeBackendExitedBeforeReady \<equiv> ''BACKEND_EXITED_BEFORE_READY''"
abbreviation "CodeBackendHealthTimeout \<equiv> ''BACKEND_HEALTH_TIMEOUT''"
abbreviation "CodeBackendHealthInvalid \<equiv> ''BACKEND_HEALTH_INVALID''"
abbreviation "CodeBackendIdentityMismatch \<equiv> ''BACKEND_IDENTITY_MISMATCH''"
abbreviation "CodeBackendExitedUnexpectedly \<equiv> ''BACKEND_EXITED_UNEXPECTEDLY''"
abbreviation "CodeBackendRestartFailed \<equiv> ''BACKEND_RESTART_FAILED''"
abbreviation "CodeBackendShutdownFailed \<equiv> ''BACKEND_SHUTDOWN_FAILED''"
abbreviation "CodeBackendForceTerminated \<equiv> ''BACKEND_FORCE_TERMINATED''"
abbreviation "CodeBackendOrphansReaped \<equiv> ''BACKEND_ORPHANS_REAPED''"

abbreviation "ExitCodeSuccess \<equiv> 0 :: int"
abbreviation "ExitCodeInvalidArgument \<equiv> 2 :: int"
abbreviation "ExitCodeProtocolMismatch \<equiv> 10 :: int"
abbreviation "ExitCodePreconditionFailed \<equiv> 20 :: int"
abbreviation "ExitCodeNetworkFailure \<equiv> 30 :: int"
abbreviation "ExitCodeGitFailure \<equiv> 40 :: int"
abbreviation "ExitCodeEnvironmentFailure \<equiv> 50 :: int"
abbreviation "ExitCodeBackendFailure \<equiv> 60 :: int"
abbreviation "ExitCodeOperationConflict \<equiv> 70 :: int"
abbreviation "ExitCodeOperationCancelled \<equiv> 130 :: int"

abbreviation "RemediationRetry \<equiv> ''retry''"
abbreviation "RemediationRetrySync \<equiv> ''retry-sync''"
abbreviation "RemediationRetryOtherMirror \<equiv> ''retry-other-mirror''"
abbreviation "RemediationRebuildEnvironment \<equiv> ''rebuild-environment''"
abbreviation "RemediationStopBackend \<equiv> ''stop-backend''"
abbreviation "RemediationRestartBackend \<equiv> ''restart-backend''"
abbreviation "RemediationSelectVersion \<equiv> ''select-version''"
abbreviation "RemediationUpdateDesktop \<equiv> ''update-desktop''"
abbreviation "RemediationRunDoctor \<equiv> ''run-doctor''"
abbreviation "RemediationCleanup \<equiv> ''cleanup''"
abbreviation "RemediationOpenLog \<equiv> ''open-log''"
abbreviation "RemediationContactSupport \<equiv> ''contact-support''"

record ErrorDefinition =
  def_Code :: Code
  def_ExitCode :: ExitCode
  def_Retryable :: bool
  def_Remediation :: "Remediation list"

definition row :: "Code \<Rightarrow> ExitCode \<Rightarrow> bool \<Rightarrow> Remediation list \<Rightarrow> ErrorDefinition" where
  "row c e r rs = \<lparr>def_Code = c, def_ExitCode = e, def_Retryable = r, def_Remediation = rs\<rparr>"

definition errorDefinitions :: "ErrorDefinition list" where
  "errorDefinitions = [
     row CodeInvalidArgument ExitCodeInvalidArgument False [RemediationRunDoctor],
     row CodeInvalidControlCommand ExitCodeSuccess False [RemediationUpdateDesktop],
     row CodeInvalidVersion ExitCodeInvalidArgument False [RemediationSelectVersion],
     row CodeUnsupportedMode ExitCodeInvalidArgument False [RemediationUpdateDesktop],
     row CodeProtocolMismatch ExitCodeProtocolMismatch False [RemediationUpdateDesktop],
     row CodeOperationCancelled ExitCodeOperationCancelled True [RemediationRetry],
     row CodeOutputWriteFailed ExitCodePreconditionFailed False [RemediationOpenLog,
       RemediationContactSupport],
     row CodeInternalError ExitCodePreconditionFailed False [RemediationOpenLog, RemediationContactSupport],
     row CodePathOutsideManagedRoot ExitCodeOperationConflict False [RemediationRunDoctor],
     row CodeUnsafeReparsePoint ExitCodeOperationConflict False [RemediationContactSupport],
     row CodeDirectoryOccupied ExitCodeOperationConflict True [RemediationRetry],
     row CodeMutationInProgress ExitCodeOperationConflict True [RemediationRetry],
     row CodeBackendAlreadyRunning ExitCodeOperationConflict False [],
     row CodeBackendStillRunning ExitCodeOperationConflict True [RemediationStopBackend],
     row CodeMutexOperationFailed ExitCodeOperationConflict True [RemediationRetry, RemediationRunDoctor],
     row CodeStateWriteFailed ExitCodeOperationConflict True [RemediationRetry, RemediationRunDoctor],
     row CodeUpdateStateAmbiguous ExitCodeOperationConflict False [RemediationRunDoctor,
       RemediationContactSupport],
     row CodeNetworkUnavailable ExitCodeNetworkFailure True [RemediationRetry, RemediationRunDoctor],
     row CodeMirrorExhausted ExitCodeNetworkFailure True [RemediationRetryOtherMirror],
     row CodeGitBranchNotFound ExitCodeGitFailure False [RemediationSelectVersion],
     row CodeGitRemoteResolveFailed ExitCodeNetworkFailure True [RemediationRetryOtherMirror],
     row CodeGitCloneFailed ExitCodeNetworkFailure True [RemediationRetryOtherMirror],
     row CodeGitRepositoryInvalid ExitCodeGitFailure True [RemediationRetrySync],
     row CodeGitVersionMismatch ExitCodeGitFailure False [RemediationContactSupport],
     row CodeGitRepoSwapFailed ExitCodeGitFailure True [RemediationRetry, RemediationRunDoctor],
     row CodeGitRepoCleanupFailed ExitCodeGitFailure True [RemediationCleanup, RemediationOpenLog],
     row CodeUVDownloadFailed ExitCodeNetworkFailure True [RemediationRetryOtherMirror],
     row CodeUVChecksumMismatch ExitCodeGitFailure True [RemediationRetryOtherMirror,
       RemediationContactSupport],
     row CodeUVVersionMismatch ExitCodePreconditionFailed False [RemediationUpdateDesktop],
     row CodeUVExecFailed ExitCodeEnvironmentFailure True [RemediationRunDoctor, RemediationOpenLog],
     row CodePythonVersionFileMissing ExitCodePreconditionFailed False [RemediationContactSupport],
     row CodePythonVersionInvalid ExitCodePreconditionFailed False [RemediationContactSupport],
     row CodePythonVersionUnsupported ExitCodePreconditionFailed False [RemediationUpdateDesktop],
     row CodePythonVersionIncompatible ExitCodePreconditionFailed False [RemediationContactSupport],
     row CodePythonInstallFailed ExitCodeEnvironmentFailure True [RemediationRetryOtherMirror,
       RemediationOpenLog],
     row CodePythonVersionMismatch ExitCodeEnvironmentFailure True [RemediationRebuildEnvironment],
     row CodeLockfileMissing ExitCodePreconditionFailed False [RemediationContactSupport],
     row CodeLockfileOutdated ExitCodePreconditionFailed False [RemediationContactSupport],
     row CodeLockfileInvalid ExitCodePreconditionFailed False [RemediationContactSupport],
     row CodeLockfileCheckFailed ExitCodeEnvironmentFailure True [RemediationRetrySync, RemediationOpenLog],
     row CodeWorkspaceRestoreFailed ExitCodeGitFailure True [RemediationRetrySync, RemediationOpenLog],
     row CodeDependencySyncFailed ExitCodeEnvironmentFailure True [RemediationRetrySync,
       RemediationRebuildEnvironment, RemediationOpenLog],
     row CodeEnvironmentBroken ExitCodeEnvironmentFailure True [RemediationRetrySync,
       RemediationRebuildEnvironment],
     row CodeEnvironmentRebuildFailed ExitCodeEnvironmentFailure True [RemediationRunDoctor,
       RemediationOpenLog],
     row CodeBackendEntryNotFound ExitCodePreconditionFailed False [RemediationRetrySync,
       RemediationContactSupport],
     row CodeBackendSpawnFailed ExitCodeBackendFailure True [RemediationRunDoctor, RemediationOpenLog],
     row CodeBackendExitedBeforeReady ExitCodeBackendFailure True [RemediationRestartBackend,
       RemediationRebuildEnvironment, RemediationOpenLog],
     row CodeBackendHealthTimeout ExitCodeBackendFailure True [RemediationRestartBackend,
       RemediationOpenLog],
     row CodeBackendHealthInvalid ExitCodeBackendFailure True [RemediationRestartBackend,
       RemediationOpenLog],
     row CodeBackendIdentityMismatch ExitCodeBackendFailure False [RemediationRetrySync,
       RemediationContactSupport],
     row CodeBackendExitedUnexpectedly ExitCodeBackendFailure True [RemediationRestartBackend,
       RemediationOpenLog],
     row CodeBackendRestartFailed ExitCodeBackendFailure True [RemediationRestartBackend,
       RemediationRebuildEnvironment],
     row CodeBackendShutdownFailed ExitCodeBackendFailure True [RemediationRetry, RemediationOpenLog],
     row CodeBackendForceTerminated ExitCodeSuccess False [RemediationOpenLog],
     row CodeBackendOrphansReaped ExitCodeSuccess False [RemediationOpenLog]]"

definition remediations :: "Remediation list" where
  "remediations = [RemediationRetry, RemediationRetrySync, RemediationRetryOtherMirror,
       RemediationRebuildEnvironment, RemediationStopBackend, RemediationRestartBackend,
       RemediationSelectVersion, RemediationUpdateDesktop, RemediationRunDoctor, RemediationCleanup,
       RemediationOpenLog, RemediationContactSupport]"

section \<open>Lookup\<close>

text \<open>The index is built in the order of the table: a later row of the same code would win.\<close>

definition buildErrorDefinitionIndex :: "ErrorDefinition list \<Rightarrow> Code \<Rightarrow> ErrorDefinition option" where
  "buildErrorDefinitionIndex ds = fold (\<lambda>d index. index(def_Code d \<mapsto> d)) ds Map.empty"

definition LookupErrorDefinition :: "Code \<Rightarrow> ErrorDefinition option" where
  "LookupErrorDefinition c = buildErrorDefinitionIndex errorDefinitions c"

definition IsKnownCode :: "Code \<Rightarrow> bool" where
  "IsKnownCode c \<longleftrightarrow> c = CodeOK \<or> LookupErrorDefinition c \<noteq> None"

definition IsKnownRemediation :: "Remediation \<Rightarrow> bool" where
  "IsKnownRemediation r = List.member remediations r"

section \<open>Events\<close>

type_synonym json_object = "(string \<times> json) list"

datatype EventError = UnknownCode Code | WarningOnly Code

definition NewErrorEvent ::
  "Code \<Rightarrow> Stage \<Rightarrow> string \<Rightarrow> json_object option \<Rightarrow> EventError + WarningSummary" where
  "NewErrorEvent c stage message details =
     (case LookupErrorDefinition c of
        None \<Rightarrow> Inl (UnknownCode c)
      | Some d \<Rightarrow>
          if def_ExitCode d = ExitCodeSuccess then Inl (WarningOnly c)
          else Inr \<lparr>wCode = c, wStage = stage, wMessage = message, wRetryable = def_Retryable d,
                 wRemediation = Some (def_Remediation d), wDetails = details\<rparr>)"

definition NewWarningEvent ::
  "Code \<Rightarrow> Stage \<Rightarrow> string \<Rightarrow> json_object option \<Rightarrow> EventError + WarningSummary" where
  "NewWarningEvent c stage message details =
     (case LookupErrorDefinition c of
        None \<Rightarrow> Inl (UnknownCode c)
      | Some d \<Rightarrow>
          Inr \<lparr>wCode = c, wStage = stage, wMessage = message, wRetryable = def_Retryable d,
             wRemediation = Some (def_Remediation d), wDetails = details\<rparr>)"

definition NewFailureResult ::
  "WarningSummary \<Rightarrow> string \<Rightarrow> string \<Rightarrow> details option \<Rightarrow> ResultEvent" where
  "NewFailureResult primary status message details =
     \<lparr>rSuccess = False, rCode = wCode primary, rStage = wStage primary, rStatus = status,
      rMessage = message, rRetryable = wRetryable primary,
      rRemediation =
        (case wRemediation primary of None \<Rightarrow> None | Some [] \<Rightarrow> None | Some rs \<Rightarrow> Some rs),
      rDetails = details\<rparr>"

definition NewSuccessResult ::
  "Stage \<Rightarrow> string \<Rightarrow> string \<Rightarrow> details option \<Rightarrow> ResultEvent" where
  "NewSuccessResult stage status message details =
     \<lparr>rSuccess = True, rCode = CodeOK, rStage = stage, rStatus = status, rMessage = message,
      rRetryable = False, rRemediation = Some [], rDetails = details\<rparr>"

section \<open>Facts\<close>

lemma index_fold:
  "distinct (map def_Code ds) \<Longrightarrow>
   fold (\<lambda>d index. index(def_Code d \<mapsto> d)) ds m c =
     (case find (\<lambda>d. def_Code d = c) ds of None \<Rightarrow> m c | Some d \<Rightarrow> Some d)"
proof (induction ds arbitrary: m)
  case (Cons d ds)
  moreover have "find (\<lambda>x. def_Code x = def_Code d) ds = None"
    using Cons.prems by (auto simp: find_None_iff) (metis image_eqI)
  ultimately show ?case by (auto split: option.splits)
qed simp

lemma table_codes_distinct: "distinct (map def_Code errorDefinitions)"
  by code_simp

lemma lookup_find: "LookupErrorDefinition c = find (\<lambda>d. def_Code d = c) errorDefinitions"
  unfolding LookupErrorDefinition_def buildErrorDefinitionIndex_def index_fold [OF table_codes_distinct]
  by (simp split: option.split)

lemma lookup_Some: "LookupErrorDefinition c = Some d \<longleftrightarrow> d \<in> set errorDefinitions \<and> def_Code d = c"
proof
  assume "LookupErrorDefinition c = Some d"
  then show "d \<in> set errorDefinitions \<and> def_Code d = c"
    unfolding lookup_find by (auto simp: find_Some_iff)
next
  assume d: "d \<in> set errorDefinitions \<and> def_Code d = c"
  then obtain d' where d': "LookupErrorDefinition c = Some d'"
    unfolding lookup_find by (cases "find (\<lambda>d. def_Code d = c) errorDefinitions") (auto simp: find_None_iff)
  then have "d' \<in> set errorDefinitions" "def_Code d' = c"
    unfolding lookup_find by (auto simp: find_Some_iff)
  with d table_codes_distinct have "d' = d" by (auto simp: distinct_map inj_on_def)
  with d' show "LookupErrorDefinition c = Some d" by simp
qed

text \<open>What every row satisfies, evaluated over the table.\<close>

definition row_ok :: "ErrorDefinition \<Rightarrow> bool" where
  "row_ok d \<longleftrightarrow>
     List.member [0, 2, 10, 20, 30, 40, 50, 60, 70, 130] (def_ExitCode d) \<and>
     list_all IsKnownRemediation (def_Remediation d) \<and> distinct (def_Remediation d) \<and>
     (if def_Retryable d then def_Remediation d \<noteq> [] \<and> def_ExitCode d \<noteq> 0 else True) \<and>
     def_Code d \<noteq> CodeOK \<and>
     (def_ExitCode d = ExitCodeSuccess) =
       List.member [CodeInvalidControlCommand, CodeBackendForceTerminated, CodeBackendOrphansReaped] (def_Code d)"

lemma rows_ok: "list_all row_ok errorDefinitions"
  by code_simp

lemma row_lookup: "LookupErrorDefinition c = Some d \<Longrightarrow> row_ok d"
  using rows_ok by (auto simp: lookup_Some list_all_iff)

section \<open>Properties\<close>

text \<open>an error event is made exactly for a code of the table that is not one of the three
  warning-only codes; it carries the row of its code, its remediations are known and distinct, a
  retryable one has a remediation, and a failure result repeats code, stage, retry and remediations.\<close>

theorem error_events_faithful:
  assumes "NewErrorEvent c stage message details = Inr e"
  shows "\<exists>d. LookupErrorDefinition c = Some d \<and> def_ExitCode d \<noteq> ExitCodeSuccess \<and>
      \<not> List.member [CodeInvalidControlCommand, CodeBackendForceTerminated, CodeBackendOrphansReaped] c \<and>
      wCode e = c \<and> wRetryable e = def_Retryable d \<and> wRemediation e = Some (def_Remediation d) \<and>
      list_all IsKnownRemediation (def_Remediation d) \<and>
      normalize_result (NewFailureResult e status text details') =
        \<lparr>rSuccess = False, rCode = c, rStage = stage, rStatus = status, rMessage = text,
         rRetryable = def_Retryable d, rRemediation = Some (def_Remediation d),
         rDetails = Some (case details' of None \<Rightarrow> [] | Some ds \<Rightarrow> ds)\<rparr>"
proof -
  from assms obtain d where d: "LookupErrorDefinition c = Some d" "def_ExitCode d \<noteq> ExitCodeSuccess"
    and e: "e = \<lparr>wCode = c, wStage = stage, wMessage = message, wRetryable = def_Retryable d,
             wRemediation = Some (def_Remediation d), wDetails = details\<rparr>"
    by (auto simp: NewErrorEvent_def split: option.splits if_splits)
  have ok: "row_ok d" "def_Code d = c" using row_lookup [OF d(1)] d(1) by (auto simp: lookup_Some)
  then have "\<not> List.member [CodeInvalidControlCommand, CodeBackendForceTerminated, CodeBackendOrphansReaped] c"
    and "list_all IsKnownRemediation (def_Remediation d)"
    using d(2) unfolding row_ok_def by simp_all
  with d show ?thesis
    by (intro exI [of _ d]) (auto simp: e NewFailureResult_def normalize_result_def split: list.splits)
qed

theorem error_events_faithful_witness:
  "\<exists>e d. NewErrorEvent CodeEnvironmentBroken StageUVCheck ''m'' None = Inr e \<and>
     LookupErrorDefinition CodeEnvironmentBroken = Some d \<and> wRemediation e = Some (def_Remediation d)"
proof -
  have "isl (NewErrorEvent CodeEnvironmentBroken StageUVCheck ''m'' None) = False"
    by code_simp
  then obtain e where "NewErrorEvent CodeEnvironmentBroken StageUVCheck ''m'' None = Inr e"
    by (cases "NewErrorEvent CodeEnvironmentBroken StageUVCheck ''m'' None") auto
  from error_events_faithful [OF this] this show ?thesis by blast
qed

end
