(* ===== verification/Protocol_Control.thy ===== *)
theory Protocol_Control
  imports Protocol_Errors Go_Utf8
begin

text \<open>
  \<open>internal/protocol/control.go\<close>: the reader of the control commands on stdin. The input is the
  sequence of bytes that is still to come; \<open>bufio.Reader.ReadSlice\<close> of the standard library is
  \<open>ReadSlice\<close> on it. Read errors, the handler, the warning emitter, the context and calls of
  \<open>StopAccepting\<close> from other goroutines are the record \<open>control_env\<close>, whose answers depend on how
  far the reader has come. The lemmas show what a line is, that the ring of the last 1024 command
  identifiers is a window of the commands, and what a run may act on.
\<close>

section \<open>Commands\<close>

type_synonym ControlKind = string

abbreviation "ControlCancel \<equiv> ''cancel''"
abbreviation "ControlShutdown \<equiv> ''shutdown''"
abbreviation "ControlStatus \<equiv> ''status''"

abbreviation maxControlPayloadBytes :: nat where "maxControlPayloadBytes \<equiv> 4096"
abbreviation controlReaderBufferSize :: nat where "controlReaderBufferSize \<equiv> 4098"

definition controlLedgerCapacity :: nat where
  "controlLedgerCapacity = 1024"

record ControlCommand =
  cc_protocol :: int
  cc_command :: ControlKind
  cc_commandId :: string

definition isKnownControlKind :: "ControlKind \<Rightarrow> bool" where
  "isKnownControlKind c \<longleftrightarrow> List.member [ControlCancel, ControlShutdown, ControlStatus] c"

definition isControlField :: "string \<Rightarrow> bool" where
  "isControlField f \<longleftrightarrow> List.member [''protocol'', ''command'', ''commandId''] f"

section \<open>Physical lines\<close>

datatype SliceEnd = SliceLine | SliceFull | SliceEOF

abbreviation "LF \<equiv> CHR 0x0A"
abbreviation "CR \<equiv> CHR 0x0D"

text \<open>\<open>ReadSlice('\n')\<close> with a buffer of \<open>controlReaderBufferSize\<close> bytes: the fragment, how it ends, the
  rest of the input.\<close>

definition ReadSlice :: "string \<Rightarrow> string \<times> SliceEnd \<times> string" where
  "ReadSlice input =
     (let n = length (takeWhile (\<lambda>c. c \<noteq> LF) input) in
      if n < length input \<and> n < controlReaderBufferSize then (take (n + 1) input, SliceLine, drop (n + 1) input)
      else if controlReaderBufferSize \<le> length input
        then (take controlReaderBufferSize input, SliceFull, drop controlReaderBufferSize input)
      else (input, SliceEOF, []))"

text \<open>A read error, the end of the input, or a line: its bytes (\<open>None\<close> when they were dropped), their
  number, whether it is too long and whether the input ended with it.\<close>

datatype PhysicalLine =
    ReadFault string
  | NoLine
  | PhysicalLine "string option" nat bool bool

definition strip_cr :: "string \<Rightarrow> string" where
  "strip_cr line = (if line \<noteq> [] \<and> last line = CR then butlast line else line)"

lemma ReadSlice_full:
  "ReadSlice input = (fragment, SliceFull, rest) \<Longrightarrow> length rest < length input"
  by (auto simp: ReadSlice_def Let_def split: if_splits)

text \<open>\<open>faults n\<close> is the error that the \<open>n\<close>-th call of \<open>ReadSlice\<close> meets in the underlying reader.\<close>

function drainOverlongLine ::
  "(nat \<Rightarrow> string option) \<Rightarrow> nat \<Rightarrow> nat \<Rightarrow> char \<Rightarrow> string \<Rightarrow> PhysicalLine \<times> nat \<times> string" where
  "drainOverlongLine faults n totalBytes previousByte input =
     (case faults n of
        Some e \<Rightarrow> (ReadFault e, n + 1, input)
      | None \<Rightarrow>
          (case ReadSlice input of
             (fragment, SliceLine, rest) \<Rightarrow>
               (let payload = totalBytes + length fragment - 1;
                    byteBeforeLF = (if length fragment \<ge> 2 then fragment ! (length fragment - 2) else previousByte)
                in (PhysicalLine None (if byteBeforeLF = CR then payload - 1 else payload) True False, n + 1, rest))
           | (fragment, SliceEOF, rest) \<Rightarrow>
               (PhysicalLine None (totalBytes + length fragment) True True, n + 1, rest)
           | (fragment, SliceFull, rest) \<Rightarrow>
               drainOverlongLine faults (n + 1) (totalBytes + length fragment)
                 (if fragment \<noteq> [] then last fragment else previousByte) rest))"
  by pat_completeness auto
termination
  by (relation "measure (\<lambda>(faults, n, t, p, input). length input)") (auto dest: ReadSlice_full [OF sym])

declare drainOverlongLine.simps [simp del]

definition readPhysicalLine :: "(nat \<Rightarrow> string option) \<Rightarrow> nat \<Rightarrow> string \<Rightarrow> PhysicalLine \<times> nat \<times> string" where
  "readPhysicalLine faults n input =
     (case faults n of
        Some e \<Rightarrow> (ReadFault e, n + 1, input)
      | None \<Rightarrow>
          (case ReadSlice input of
             (fragment, SliceLine, rest) \<Rightarrow>
               (let line = strip_cr (butlast fragment)
                in (PhysicalLine (Some line) (length line) (length line > maxControlPayloadBytes) False, n + 1, rest))
           | (fragment, SliceEOF, rest) \<Rightarrow>
               (if fragment = [] then (NoLine, n + 1, rest)
                else (PhysicalLine (Some fragment) (length fragment)
                        (length fragment > maxControlPayloadBytes) True, n + 1, rest))
           | (fragment, SliceFull, rest) \<Rightarrow>
               drainOverlongLine faults (n + 1) (length fragment) (last fragment) rest))"

section \<open>Parsing a command\<close>

text \<open>What \<open>encoding/json\<close> answers: validity, the members of an object one by one, and integers and
  strings as values. A member is a string key with its raw value (\<open>None\<close>: \<open>Decode\<close> fails), or
  something else at the place of a key.\<close>

datatype member = BadKey | Member string "string option"

record object_scan =
  obj_opens :: bool
  obj_members :: "member list"
  obj_closes :: bool
  obj_ends :: bool

record control_json =
  json_valid :: "string \<Rightarrow> bool"
  json_scan :: "string \<Rightarrow> object_scan"
  json_int :: "string \<Rightarrow> int option"
  json_string :: "string \<Rightarrow> string option"

definition reason_only :: "string \<Rightarrow> nat \<Rightarrow> json_object" where
  "reason_only r n = [(''reason'', JString r), (''lineBytes'', JNumber (decimal n))]"

definition reason_field :: "string \<Rightarrow> string \<Rightarrow> json_object" where
  "reason_field r f = [(''reason'', JString r), (''field'', JString f)]"

definition invalidJSONDetails :: "nat \<Rightarrow> json_object" where
  "invalidJSONDetails n = reason_only ''invalid_json'' n"

definition invalidFieldDetails :: "string \<Rightarrow> json_object" where
  "invalidFieldDetails f = reason_field ''invalid_field'' f"

definition isJSONNull :: "string \<Rightarrow> bool" where
  "isJSONNull v \<longleftrightarrow> trim_space v = ''null''"

definition WithControlCommandID :: "json_object \<Rightarrow> string \<Rightarrow> json_object" where
  "WithControlCommandID d i = filter (\<lambda>(k, v). k \<noteq> ''controlCommandId'') d @ [(''controlCommandId'', JString i)]"

fun member_loop ::
  "nat \<Rightarrow> (string \<times> string) list \<Rightarrow> member list \<Rightarrow> json_object + (string \<times> string) list" where
  "member_loop lineBytes fs [] = Inr fs"
| "member_loop lineBytes fs (BadKey # ms) = Inl (invalidJSONDetails lineBytes)"
| "member_loop lineBytes fs (Member f raw # ms) =
     (if map_of fs f \<noteq> None then Inl (reason_field ''duplicate_field'' f)
      else if \<not> isControlField f then Inl (reason_field ''unknown_field'' f)
      else case raw of
             None \<Rightarrow> Inl (invalidJSONDetails lineBytes)
           | Some v \<Rightarrow> member_loop lineBytes ((f, v) # fs) ms)"

definition decodeControlFields :: "control_json \<Rightarrow> string \<Rightarrow> json_object + (string \<times> string) list" where
  "decodeControlFields js line =
     (let scan = json_scan js line in
      if \<not> obj_opens scan then Inl (invalidJSONDetails (length line))
      else bindE (member_loop (length line) [] (obj_members scan)) (\<lambda>fs.
        if \<not> obj_closes scan then Inl (invalidJSONDetails (length line))
        else if \<not> obj_ends scan then Inl (invalidJSONDetails (length line))
        else Inr fs))"

text \<open>A field of the command: not null and of its type.\<close>

definition field_value :: "(string \<times> string) list \<Rightarrow> string \<Rightarrow> (string \<Rightarrow> 'a option) \<Rightarrow> json_object + 'a" where
  "field_value fs f parse =
     (case map_of fs f of
        None \<Rightarrow> Inl (invalidFieldDetails f)
      | Some raw \<Rightarrow>
          if isJSONNull raw then Inl (invalidFieldDetails f)
          else case parse raw of None \<Rightarrow> Inl (invalidFieldDetails f) | Some v \<Rightarrow> Inr v)"

definition parseControlCommand :: "control_json \<Rightarrow> string \<Rightarrow> json_object + ControlCommand" where
  "parseControlCommand js line =
     (if line = [] then Inl (reason_only ''empty_line'' 0)
      else if \<not> utf8_valid line then Inl (reason_only ''invalid_utf8'' (length line))
      else if \<not> json_valid js line then Inl (reason_only ''invalid_json'' (length line))
      else bindE (decodeControlFields js line) (\<lambda>fs.
        case find (\<lambda>f. map_of fs f = None) [''protocol'', ''command'', ''commandId''] of
          Some f \<Rightarrow> Inl (reason_field ''missing_field'' f)
        | None \<Rightarrow>
        bindE (field_value fs ''protocol'' (json_int js)) (\<lambda>p.
        bindE (field_value fs ''command'' (json_string js)) (\<lambda>c.
        bindE (field_value fs ''commandId'' (json_string js)) (\<lambda>i.
          if p \<noteq> Version then
            Inl [(''reason'', JString ''unsupported_protocol''), (''expectedProtocol'', JNumber (decimal_int Version)),
                 (''receivedProtocol'', JNumber (decimal_int p))]
          else if \<not> validOperationID i then Inl (reason_field ''invalid_command_id'' ''commandId'')
          else if \<not> isKnownControlKind c then
            Inl (WithControlCommandID [(''reason'', JString ''unsupported_command''), (''command'', JString c)] i)
          else Inr \<lparr>cc_protocol = p, cc_command = c, cc_commandId = i\<rparr>)))))"

section \<open>The reader\<close>

datatype ControlDisposition =
    ControlDispositionUnknown
  | ControlAccepted
  | ControlNotApplicable
  | OtherDisposition nat

text \<open>The answer of \<open>PrepareControl\<close>; the boolean tells that the action is not nil.\<close>

datatype PrepareAnswer = PrepareFails string | Prepared ControlDisposition bool


text \<open>The answers of the surroundings. The first argument of the handler's functions counts the lines
  handled so far. \<open>stops n late\<close> tells that \<open>StopAccepting\<close> has been called by the time the loop
  looks at the flag before (\<open>late = False\<close>) or after its \<open>n\<close>-th read, \<open>ctx_ended\<close> likewise for the
  context. \<open>stop_policy\<close> is \<open>None\<close> for a handler without \<open>StopAfterShutdown\<close>.\<close>

record control_env =
  faults :: "nat \<Rightarrow> string option"
  stops :: "nat \<Rightarrow> bool \<Rightarrow> bool"
  ctx_ended :: "nat \<Rightarrow> bool \<Rightarrow> string option"
  prepare :: "nat \<Rightarrow> ControlCommand \<Rightarrow> PrepareAnswer"
  stop_policy :: "(nat \<Rightarrow> ControlCommand \<Rightarrow> bool) option"
  run_action :: "nat \<Rightarrow> ControlCommand \<Rightarrow> string option"
  current_stage :: "nat \<Rightarrow> Stage"
  emit_warning :: "nat \<Rightarrow> WarningSummary \<Rightarrow> string option"

datatype ControlError =
    AlreadyStarted
  | ControlContext string
  | ReadFailed string
  | PrepareFailed string
  | NilAction
  | NonNilAction
  | BadDisposition ControlDisposition
  | ActionFailed string
  | UnknownStage Stage
  | WarningNotBuilt
  | WarningFailed string

record ControlReader =
  cr_started :: bool
  cr_stopped :: bool
  cr_inputClosed :: bool
  cr_allowed :: "ControlKind list"
  cr_seen :: "string \<Rightarrow> ControlKind option"
  cr_order :: "string list"
  cr_next :: nat
  cr_size :: nat

datatype NewReaderError = NoAllowedCommand | UnknownAllowed ControlKind | DuplicateAllowed ControlKind

fun allowed_loop :: "ControlKind list \<Rightarrow> ControlKind list \<Rightarrow> NewReaderError + ControlKind list" where
  "allowed_loop acc [] = Inr acc"
| "allowed_loop acc (c # cs) =
     (if \<not> isKnownControlKind c then Inl (UnknownAllowed c)
      else if c \<in> set acc then Inl (DuplicateAllowed c)
      else allowed_loop (acc @ [c]) cs)"

definition NewControlReader :: "ControlKind list \<Rightarrow> NewReaderError + ControlReader" where
  "NewControlReader allowed =
     (if allowed = [] then Inl NoAllowedCommand
      else bindE (allowed_loop [] allowed) (\<lambda>as.
        Inr \<lparr>cr_started = False, cr_stopped = False, cr_inputClosed = False, cr_allowed = as,
          cr_seen = Map.empty, cr_order = replicate controlLedgerCapacity '''', cr_next = 0, cr_size = 0\<rparr>))"

text \<open>What the reader did, in order; only for the statements below.\<close>

datatype ControlEvent = Remembered ControlCommand | Acted nat ControlCommand | Warned json_object

definition remember :: "ControlCommand \<Rightarrow> ControlReader \<Rightarrow> ControlReader" where
  "remember c r =
     (let r1 = (if cr_size r = controlLedgerCapacity
                then r\<lparr>cr_seen := (cr_seen r)(cr_order r ! cr_next r := None)\<rparr>
                else r\<lparr>cr_size := cr_size r + 1\<rparr>)
      in r1\<lparr>cr_order := (cr_order r1)[cr_next r1 := cc_commandId c],
            cr_next := (cr_next r1 + 1) mod controlLedgerCapacity,
            cr_seen := (cr_seen r1)(cc_commandId c \<mapsto> cc_command c)\<rparr>)"

text \<open>The warning's text is Chinese; here are its bytes in UTF-8.\<close>

definition invalidControlMessage :: string where
  "invalidControlMessage =
     [CHR 0xE5, CHR 0xB7, CHR 0xB2, CHR 0xE5, CHR 0xBF, CHR 0xBD, CHR 0xE7, CHR 0x95, CHR 0xA5,
      CHR 0xE6, CHR 0x97, CHR 0xA0, CHR 0xE6, CHR 0x95, CHR 0x88, CHR 0xE7, CHR 0x9A, CHR 0x84] @ '' stdin '' @
     [CHR 0xE6, CHR 0x8E, CHR 0xA7, CHR 0xE5, CHR 0x88, CHR 0xB6, CHR 0xE5, CHR 0x91, CHR 0xBD,
      CHR 0xE4, CHR 0xBB, CHR 0xA4]"

definition emitInvalidControl ::
  "control_env \<Rightarrow> nat \<Rightarrow> json_object \<Rightarrow> ControlError option \<times> ControlEvent list" where
  "emitInvalidControl env n d =
     (let stage = current_stage env n in
      if \<not> IsKnownStage stage then (Some (UnknownStage stage), [])
      else case NewWarningEvent CodeInvalidControlCommand stage invalidControlMessage (Some d) of
             Inl _ \<Rightarrow> (Some WarningNotBuilt, [])
           | Inr w \<Rightarrow>
               (case emit_warning env n w of
                  Some e \<Rightarrow> (Some (WarningFailed e), [])
                | None \<Rightarrow> (None, [Warned d])))"

definition emitCommandNotApplicable ::
  "control_env \<Rightarrow> nat \<Rightarrow> ControlCommand \<Rightarrow> ControlError option \<times> ControlEvent list" where
  "emitCommandNotApplicable env n c =
     emitInvalidControl env n (WithControlCommandID
       [(''reason'', JString ''command_not_applicable''), (''command'', JString (cc_command c))] (cc_commandId c))"

definition dispatch ::
  "control_env \<Rightarrow> nat \<Rightarrow> ControlCommand \<Rightarrow> ControlReader \<Rightarrow>
   (ControlError option \<times> ControlEvent list) \<times> ControlReader" where
  "dispatch env n c r =
     (case cr_seen r (cc_commandId c) of
        Some original \<Rightarrow>
          (if original = cc_command c then (None, [])
           else emitInvalidControl env n (WithControlCommandID
                  [(''reason'', JString ''command_id_reused''), (''command'', JString (cc_command c)),
                   (''originalCommand'', JString original)] (cc_commandId c)), r)
      | None \<Rightarrow>
          (let r1 = remember c r; seen = (\<lambda>(e, es). (e, Remembered c # es)) in
           if cc_command c \<notin> set (cr_allowed r1) then (seen (emitCommandNotApplicable env n c), r1)
           else case prepare env n c of
                  PrepareFails e \<Rightarrow> (seen (Some (PrepareFailed e), []), r1)
                | Prepared disposition hasAction \<Rightarrow>
                    if disposition = ControlAccepted then
                      (if \<not> hasAction then (seen (Some NilAction, []), r1)
                       else
                         (let stopAfterShutdown =
                                (if cc_command c = ControlShutdown then
                                   (case stop_policy env of None \<Rightarrow> True | Some p \<Rightarrow> p n c)
                                 else True);
                              r2 = (if cc_command c = ControlShutdown \<and> stopAfterShutdown
                                    then r1\<lparr>cr_stopped := True\<rparr> else r1)
                          in (seen (map_option ActionFailed (run_action env n c), [Acted n c]), r2)))
                    else if disposition = ControlNotApplicable then
                      (if hasAction then (seen (Some NonNilAction, []), r1)
                       else (seen (emitCommandNotApplicable env n c), r1))
                    else (seen (Some (BadDisposition disposition), []), r1)))"

text \<open>One line that was read: a warning for a bad one, the command of a good one.\<close>

definition handle_line ::
  "control_env \<Rightarrow> control_json \<Rightarrow> nat \<Rightarrow> string option \<Rightarrow> nat \<Rightarrow> bool \<Rightarrow> ControlReader \<Rightarrow>
   (ControlError option \<times> ControlEvent list) \<times> ControlReader" where
  "handle_line env js n line lineBytes tooLong r =
     (if tooLong then (emitInvalidControl env n (reason_only ''line_too_long'' lineBytes), r)
      else case parseControlCommand js (case line of None \<Rightarrow> [] | Some l \<Rightarrow> l) of
             Inl invalid \<Rightarrow> (emitInvalidControl env n invalid, r)
           | Inr command \<Rightarrow> dispatch env n command r)"

definition stop_flag :: "control_env \<Rightarrow> nat \<Rightarrow> bool \<Rightarrow> ControlReader \<Rightarrow> ControlReader" where
  "stop_flag env n late r = (if stops env n late then r\<lparr>cr_stopped := True\<rparr> else r)"

lemma drain_shorter:
  "drainOverlongLine fs n t p input = (PhysicalLine l b lg e, n', rest) \<Longrightarrow> \<not> e \<Longrightarrow> length rest < length input"
proof (induction fs n t p input rule: drainOverlongLine.induct)
  case (1 fs n t p input)
  obtain fragment slice rest0 where s: "ReadSlice input = (fragment, slice, rest0)" by (metis prod.exhaust)
  with "1.prems" show ?case
  proof (cases slice)
    case SliceFull
    with "1.prems" s have "length rest < length rest0"
      by (intro "1.IH" [OF _ s [symmetric] refl]) (auto simp: drainOverlongLine.simps [of _ _ _ _ input] split: option.splits)
    with ReadSlice_full s SliceFull show ?thesis by fastforce
  qed (auto simp: drainOverlongLine.simps [of _ _ _ _ input] ReadSlice_def Let_def split: option.splits if_splits)
qed

lemma line_shorter:
  "readPhysicalLine fs n input = (PhysicalLine l b lg e, n', rest) \<Longrightarrow> \<not> e \<Longrightarrow> length rest < length input"
proof -
  assume a: "readPhysicalLine fs n input = (PhysicalLine l b lg e, n', rest)" and e: "\<not> e"
  obtain fragment slice rest0 where s: "ReadSlice input = (fragment, slice, rest0)" by (metis prod.exhaust)
  show ?thesis
  proof (cases slice)
    case SliceFull
    with a s have "drainOverlongLine fs (n + 1) (length fragment) (last fragment) rest0 = (PhysicalLine l b lg e, n', rest)"
      by (auto simp: readPhysicalLine_def split: option.splits)
    from drain_shorter [OF this e] ReadSlice_full s SliceFull show ?thesis by fastforce
  qed (use a e s in \<open>auto simp: readPhysicalLine_def ReadSlice_def Let_def split: option.splits if_splits\<close>)
qed

text \<open>The loop of \<open>Run\<close>: \<open>n\<close> counts the lines, \<open>k\<close> the calls of \<open>ReadSlice\<close>.\<close>

function run_loop ::
  "control_env \<Rightarrow> control_json \<Rightarrow> nat \<Rightarrow> nat \<Rightarrow> string \<Rightarrow> ControlReader \<Rightarrow>
   (ControlError option \<times> ControlEvent list) \<times> ControlReader" where
  "run_loop env js n k input r0 =
     (let r = stop_flag env n False r0 in
      if cr_stopped r then ((None, []), r)
      else case ctx_ended env n False of
        Some e \<Rightarrow> ((Some (ControlContext e), []), r)
      | None \<Rightarrow>
          (case readPhysicalLine (faults env) k input of
             (got, k', rest) \<Rightarrow>
               (let r1 = stop_flag env n True r in
                if cr_stopped r1 then ((None, []), r1)
                else case ctx_ended env n True of
                  Some e \<Rightarrow> ((Some (ControlContext e), []), r1)
                | None \<Rightarrow>
                    (case got of
                       ReadFault e \<Rightarrow> ((Some (ReadFailed e), []), r1)
                     | NoLine \<Rightarrow> ((None, []), r1\<lparr>cr_inputClosed := True\<rparr>)
                     | PhysicalLine line lineBytes tooLong reachedEOF \<Rightarrow>
                         (case handle_line env js n line lineBytes tooLong r1 of
                            ((Some e, es), r2) \<Rightarrow> ((Some e, es), r2)
                          | ((None, es), r2) \<Rightarrow>
                              if reachedEOF then ((None, es), r2\<lparr>cr_inputClosed := True\<rparr>)
                              else (case run_loop env js (n + 1) k' rest r2 of
                                      ((e, es'), r3) \<Rightarrow> ((e, es @ es'), r3)))))))"
  by pat_completeness auto
termination
  by (relation "measure (\<lambda>(env, js, n, k, input, r). length input)") (auto dest: line_shorter [OF sym])

declare run_loop.simps [simp del]

definition control_Run ::
  "control_env \<Rightarrow> control_json \<Rightarrow> string \<Rightarrow> ControlReader \<Rightarrow>
   (ControlError option \<times> ControlEvent list) \<times> ControlReader" where
  "control_Run env js input r =
     (if cr_started r then ((Some AlreadyStarted, []), r)
      else run_loop env js 0 0 input (r\<lparr>cr_started := True\<rparr>))"

section \<open>What a line is\<close>

text \<open>The specification of a line: the input up to the first line feed without one carriage return
  before it, or the whole rest at the end of the input.\<close>

definition spec_line :: "string \<Rightarrow> (string \<times> bool \<times> string) option" where
  "spec_line input =
     (let pre = takeWhile (\<lambda>c. c \<noteq> LF) input in
      if input = [] then None
      else if pre = input then Some (input, True, [])
      else Some (strip_cr pre, False, drop (length pre + 1) input))"

definition reads_line :: "string \<Rightarrow> PhysicalLine \<times> nat \<times> string \<Rightarrow> bool" where
  "reads_line input out \<longleftrightarrow>
     (case spec_line input of
        None \<Rightarrow> fst out = NoLine \<and> snd (snd out) = []
      | Some (line, eof, rest) \<Rightarrow>
          snd (snd out) = rest \<and>
          fst out = PhysicalLine
            (case fst out of PhysicalLine p _ _ _ \<Rightarrow> p | _ \<Rightarrow> None) (length line)
            (length line > maxControlPayloadBytes) eof \<and>
          (length line \<le> maxControlPayloadBytes \<longrightarrow> (case fst out of PhysicalLine p _ _ _ \<Rightarrow> p = Some line | _ \<Rightarrow> False)))"

lemma before_LF: "LF \<notin> set pre \<Longrightarrow> takeWhile (\<lambda>c. c \<noteq> LF) (pre @ LF # post) = pre"
  by (induction pre) auto

lemma no_LF: "LF \<notin> set input \<Longrightarrow> takeWhile (\<lambda>c. c \<noteq> LF) input = input"
  by (induction input) auto

lemma ReadSlice_cases:
  obtains (line) pre post where "input = pre @ LF # post" "LF \<notin> set pre" "length pre < controlReaderBufferSize"
      "ReadSlice input = (pre @ [LF], SliceLine, post)"
    | (full) pre post where "input = pre @ post" "LF \<notin> set pre" "length pre = controlReaderBufferSize"
      "ReadSlice input = (pre, SliceFull, post)"
    | (eof) "LF \<notin> set input" "length input < controlReaderBufferSize" "ReadSlice input = (input, SliceEOF, [])"
proof (cases "LF \<in> set input")
  case True
  then obtain pre post where i: "input = pre @ LF # post" "LF \<notin> set pre"
    by (meson split_list_first)
  note w = before_LF [OF i(2), of post]
  show ?thesis
  proof (cases "length pre < controlReaderBufferSize")
    case True
    with i w show ?thesis by (intro line [of pre post]) (simp_all add: ReadSlice_def Let_def)
  next
    case False
    let ?a = "take controlReaderBufferSize pre" and ?b = "drop controlReaderBufferSize pre @ LF # post"
    have "ReadSlice input = (?a, SliceFull, ?b)" using False i w by (simp add: ReadSlice_def Let_def)
    with False i show ?thesis by (intro full [of ?a ?b]) (auto dest: in_set_takeD)
  qed
next
  case False
  note w = no_LF [OF False]
  show ?thesis
  proof (cases "length input < controlReaderBufferSize")
    case True
    have "ReadSlice input = (input, SliceEOF, [])" using True by (simp add: ReadSlice_def Let_def w)
    with False True show ?thesis by (intro eof)
  next
    case long: False
    let ?a = "take controlReaderBufferSize input" and ?b = "drop controlReaderBufferSize input"
    have "ReadSlice input = (?a, SliceFull, ?b)" using long by (simp add: ReadSlice_def Let_def w)
    with False long show ?thesis by (intro full [of ?a ?b]) (auto dest: in_set_takeD)
  qed
qed

lemma spec_line_LF:
  "LF \<notin> set pre \<Longrightarrow> spec_line (pre @ LF # post) = Some (strip_cr pre, False, post)"
  using before_LF [of pre post] by (simp add: spec_line_def Let_def)

lemma spec_line_rest: "LF \<notin> set input \<Longrightarrow> input \<noteq> [] \<Longrightarrow> spec_line input = Some (input, True, [])"
  by (simp add: spec_line_def Let_def no_LF)

lemma length_strip_cr: "length (strip_cr line) = (if line \<noteq> [] \<and> last line = CR then length line - 1 else length line)"
  by (simp add: strip_cr_def)

text \<open>A line that overflowed the buffer: \<open>done\<close> is what was dropped of it before.\<close>

lemma drain_line:
  assumes "LF \<notin> set before" "controlReaderBufferSize \<le> length before" "\<And>i. fs i = None"
  shows "\<exists>k line eof rest. spec_line (before @ input) = Some (line, eof, rest) \<and>
     drainOverlongLine fs n (length before) (last before) input = (PhysicalLine None (length line) True eof, k, rest) \<and>
     length line > maxControlPayloadBytes"
  using assms
proof (induction input arbitrary: before n rule: length_induct)
  case (1 input)
  have ne: "before \<noteq> []" using "1.prems"(2) by auto
  show ?case
  proof (cases rule: ReadSlice_cases [of input])
    case (line pre post)
    have spec: "spec_line (before @ input) = Some (strip_cr (before @ pre), False, post)"
      using spec_line_LF [of "before @ pre" post] "1.prems"(1) line by simp
    have "(if length pre \<ge> 1 then (pre @ [LF]) ! (length pre - 1) else last before) = last (before @ pre)"
      using ne by (cases pre rule: rev_cases) (auto simp: nth_append)
    then have "drainOverlongLine fs n (length before) (last before) input =
        (PhysicalLine None (length (strip_cr (before @ pre))) True False, n + 1, post)"
      using line "1.prems"(3) ne
      by (subst drainOverlongLine.simps) (auto simp: Let_def length_strip_cr split: if_splits)
    moreover have "length (strip_cr (before @ pre)) > maxControlPayloadBytes"
      using "1.prems"(2) by (auto simp: length_strip_cr)
    ultimately show ?thesis using spec by blast
  next
    case (full pre post)
    have "length post < length input" using full by auto
    moreover have "LF \<notin> set (before @ pre)" "controlReaderBufferSize \<le> length (before @ pre)" "last (before @ pre) = last pre"
      using full "1.prems" by (auto simp: last_append)
    ultimately obtain k line eof rest where "spec_line ((before @ pre) @ post) = Some (line, eof, rest)"
      "drainOverlongLine fs (n + 1) (length (before @ pre)) (last pre) post = (PhysicalLine None (length line) True eof, k, rest)"
      "length line > maxControlPayloadBytes"
      using "1.IH" [rule_format, of post "before @ pre" "n + 1"] "1.prems"(3) by metis
    moreover have "drainOverlongLine fs n (length before) (last before) input =
        drainOverlongLine fs (n + 1) (length (before @ pre)) (last pre) post"
      using full "1.prems"(3) by (subst drainOverlongLine.simps) auto
    moreover have "before @ input = (before @ pre) @ post" using full by simp
    ultimately show ?thesis by metis
  next
    case eof
    then have "drainOverlongLine fs n (length before) (last before) input =
        (PhysicalLine None (length (before @ input)) True True, n + 1, [])"
      using "1.prems"(3) by (simp add: drainOverlongLine.simps [of _ _ _ _ input])
    moreover have "spec_line (before @ input) = Some (before @ input, True, [])"
      using eof "1.prems"(1) ne by (intro spec_line_rest) auto
    moreover have "length (before @ input) > maxControlPayloadBytes" using "1.prems"(2) by simp
    ultimately show ?thesis by blast
  qed
qed

section \<open>The ledger\<close>

text \<open>The abstract ledger: the last commands, the newest at the end. The ring refines it.\<close>

definition push_command :: "ControlCommand \<Rightarrow> ControlCommand list \<Rightarrow> ControlCommand list" where
  "push_command c L = (if length L = controlLedgerCapacity then tl L else L) @ [c]"

definition seen_of :: "ControlCommand list \<Rightarrow> string \<Rightarrow> ControlKind option" where
  "seen_of L = map_of (map (\<lambda>c. (cc_commandId c, cc_command c)) L)"

definition ledger :: "ControlReader \<Rightarrow> ControlCommand list \<Rightarrow> bool" where
  "ledger r L \<longleftrightarrow>
     length L \<le> controlLedgerCapacity \<and> distinct (map cc_commandId L) \<and> cr_size r = length L \<and>
     cr_seen r = seen_of L \<and> length (cr_order r) = controlLedgerCapacity \<and> cr_next r < controlLedgerCapacity \<and>
     (\<forall>i < length L. cr_order r ! ((cr_next r + (controlLedgerCapacity - length L) + i) mod controlLedgerCapacity) =
        cc_commandId (L ! i))"

lemma capacity_pos [simp]:
  "0 < controlLedgerCapacity" "controlLedgerCapacity \<noteq> 0" "Suc 0 - controlLedgerCapacity = 0"
  by (simp_all add: controlLedgerCapacity_def)

lemma seen_of_None: "seen_of L i = None \<longleftrightarrow> i \<notin> cc_commandId ` set L"
  by (auto simp: seen_of_def map_of_eq_None_iff image_iff)

lemma seen_of_snoc: "i = cc_commandId c \<Longrightarrow> i \<notin> cc_commandId ` set L \<Longrightarrow> seen_of (L @ [c]) = (seen_of L)(i \<mapsto> cc_command c)"
  by (induction L) (auto simp: seen_of_def fun_upd_twist)

lemma seen_of_tl:
  "distinct (map cc_commandId L) \<Longrightarrow> L \<noteq> [] \<Longrightarrow> seen_of (tl L) = (seen_of L)(cc_commandId (hd L) := None)"
  by (cases L) (auto simp: seen_of_def fun_eq_iff map_of_eq_None_iff)

lemma ring_other: "0 < d \<Longrightarrow> d < n \<Longrightarrow> a < n \<Longrightarrow> (a + d) mod n \<noteq> (a :: nat)"
  by (cases "a + d < n") (auto simp: mod_if)

lemma ring_next: "((a + 1) mod n + b) mod n = (a + (1 + b)) mod (n :: nat)"
  by (simp add: mod_simps add.commute add.left_commute)

lemma remember_fields:
  "cr_allowed (remember c r) = cr_allowed r \<and> cr_stopped (remember c r) = cr_stopped r"
  by (simp add: remember_def Let_def)

lemma set_tl_subset: "set (tl L) \<subseteq> set L"
  by (cases L) auto

lemma remember_refines:
  assumes l: "ledger r L" and new: "cr_seen r (cc_commandId c) = None"
  shows "ledger (remember c r) (push_command c L)"
proof -
  let ?C = controlLedgerCapacity and ?r = "remember c r" and ?L = "push_command c L"
  define K where "K = (if length L = ?C then tl L else L)"
  note l = l [unfolded ledger_def]
  have K: "length ?L = length K + 1" "length K < ?C" "distinct (map cc_commandId K)" "set K \<subseteq> set L"
    using l set_tl_subset [of L] by (auto simp: push_command_def K_def distinct_tl map_tl)
  have notin: "cc_commandId c \<notin> cc_commandId ` set L" using new l by (simp add: seen_of_None)
  have oldest: "cr_order r ! cr_next r = cc_commandId (hd L)" if "length L = ?C"
  proof -
    have "L \<noteq> []" using that by auto
    moreover have "cr_order r ! ((cr_next r + (?C - length L) + 0) mod ?C) = cc_commandId (L ! 0)"
      using l that capacity_pos by metis
    ultimately show ?thesis using l that by (simp add: hd_conv_nth)
  qed
  have order: "cr_order ?r = (cr_order r)[cr_next r := cc_commandId c]" "cr_next ?r = (cr_next r + 1) mod ?C"
    by (simp_all add: remember_def Let_def)
  have "cr_size ?r = length ?L" using l K by (auto simp: remember_def Let_def push_command_def K_def)
  moreover have "cr_seen ?r = seen_of ?L"
  proof -
    have "cr_seen ?r = (seen_of K)(cc_commandId c \<mapsto> cc_command c)"
    proof (cases "length L = ?C")
      case True
      then have "L \<noteq> []" by auto
      with True oldest [OF True] l seen_of_tl [of L] show ?thesis by (simp add: remember_def Let_def K_def)
    qed (use l in \<open>simp add: remember_def Let_def K_def\<close>)
    moreover have "cc_commandId c \<notin> cc_commandId ` set K" using notin K(4) by blast
    ultimately show ?thesis unfolding push_command_def K_def by (simp add: seen_of_snoc)
  qed
  moreover have "cr_order ?r ! ((cr_next ?r + (?C - length ?L) + i) mod ?C) = cc_commandId (?L ! i)"
    if i: "i < length ?L" for i
  proof -
    let ?d = "?C - length K + i"
    have pos: "(cr_next ?r + (?C - length ?L) + i) mod ?C = (cr_next r + ?d) mod ?C"
    proof -
      have "1 + (?C - length ?L + i) = ?d" using K(1,2) by linarith
      then show ?thesis unfolding order(2) add.assoc ring_next by (simp only: add.assoc)
    qed
    show ?thesis
    proof (cases "i < length K")
      case True
      have other: "(cr_next r + ?d) mod ?C \<noteq> cr_next r"
        by (rule ring_other) (use True K(2) l in auto)
      have "cr_order r ! ((cr_next r + ?d) mod ?C) = cc_commandId (K ! i)"
      proof (cases "length L = ?C")
        case full: True
        then have "Suc i < length L" "K ! i = L ! Suc i" "?d = 1 + i" using True by (auto simp: nth_tl K_def)
        moreover have "cr_order r ! ((cr_next r + (?C - length L) + Suc i) mod ?C) = cc_commandId (L ! Suc i)"
          using l \<open>Suc i < length L\<close> by blast
        ultimately show ?thesis using full by simp
      next
        case False
        then have KL: "K = L" by (simp add: K_def)
        have "cr_order r ! ((cr_next r + (?C - length L) + i) mod ?C) = cc_commandId (L ! i)"
          using l True unfolding KL by blast
        then show ?thesis unfolding KL add.assoc .
      qed
      moreover have "?L ! i = K ! i" using True by (simp add: push_command_def K_def nth_append)
      ultimately show ?thesis using other unfolding pos order(1) by simp
    next
      case False
      with i K(1) have "i = length K" by simp
      then have "?d = ?C" "?L ! i = c" using K(2) by (simp_all add: push_command_def K_def)
      then show ?thesis unfolding pos order(1) using l by simp
    qed
  qed
  ultimately show ?thesis
    using K notin l order unfolding ledger_def by (auto simp: push_command_def K_def)
qed

lemma ledger_flags [simp]:
  "ledger (r\<lparr>cr_stopped := b\<rparr>) L = ledger r L" "ledger (r\<lparr>cr_inputClosed := b\<rparr>) L = ledger r L"
  "ledger (r\<lparr>cr_started := b\<rparr>) L = ledger r L"
  by (simp_all add: ledger_def)

section \<open>What a run does\<close>

fun remembered :: "ControlEvent list \<Rightarrow> ControlCommand list" where
  "remembered [] = []"
| "remembered (Remembered c # es) = c # remembered es"
| "remembered (Acted n c # es) = remembered es"
| "remembered (Warned d # es) = remembered es"

lemma remembered_append [simp]: "remembered (es @ es') = remembered es @ remembered es'"
  by (induction es rule: remembered.induct) simp_all

text \<open>Every command of a list is new with respect to the window before it.\<close>

fun fresh_ok :: "ControlCommand list \<Rightarrow> ControlCommand list \<Rightarrow> bool" where
  "fresh_ok L [] = True"
| "fresh_ok L (c # cs) \<longleftrightarrow> cc_commandId c \<notin> cc_commandId ` set L \<and> fresh_ok (push_command c L) cs"

lemma fresh_ok_append: "fresh_ok L (xs @ ys) \<longleftrightarrow> fresh_ok L xs \<and> fresh_ok (fold push_command xs L) ys"
  by (induction xs arbitrary: L) auto

lemma window: "fold push_command cs [] = drop (length cs - controlLedgerCapacity) cs"
proof (induction cs rule: rev_induct)
  case (snoc c cs)
  show ?case
  proof (cases "length cs < controlLedgerCapacity")
    case False
    then have "tl (drop (length cs - controlLedgerCapacity) cs) = drop (Suc (length cs) - controlLedgerCapacity) cs"
      by (simp add: Suc_diff_le tl_drop drop_Suc)
    with False snoc show ?thesis by (simp add: push_command_def Suc_diff_le)
  qed (use snoc in \<open>simp add: push_command_def\<close>)
qed simp

lemma fresh_distinct:
  assumes "fresh_ok [] cs" "i < j" "j < length cs" "j - i \<le> controlLedgerCapacity"
  shows "cc_commandId (cs ! i) \<noteq> cc_commandId (cs ! j)"
proof -
  have "cs = take j cs @ cs ! j # drop (Suc j) cs" using assms(3) by (simp add: id_take_nth_drop)
  with assms(1) have "fresh_ok (fold push_command (take j cs) []) (cs ! j # drop (Suc j) cs)"
    by (metis fresh_ok_append)
  then have "cc_commandId (cs ! j) \<notin> cc_commandId ` set (drop (j - controlLedgerCapacity) (take j cs))"
    using assms(3) by (simp add: window)
  moreover have "cs ! i \<in> set (drop (j - controlLedgerCapacity) (take j cs))"
    unfolding in_set_conv_nth
    by (intro exI [of _ "i - (j - controlLedgerCapacity)"]) (use assms in auto)
  ultimately show ?thesis by (metis image_eqI)
qed

text \<open>An accepted shutdown that stops the reader.\<close>

definition stops_reader :: "control_env \<Rightarrow> nat \<Rightarrow> ControlCommand \<Rightarrow> bool" where
  "stops_reader env n c \<longleftrightarrow>
     cc_command c = ControlShutdown \<and> (case stop_policy env of None \<Rightarrow> True | Some p \<Rightarrow> p n c)"

definition may_act :: "control_env \<Rightarrow> ControlKind list \<Rightarrow> nat \<Rightarrow> ControlCommand \<Rightarrow> bool" where
  "may_act env allowed n c \<longleftrightarrow>
     cc_protocol c = Version \<and> validOperationID (cc_commandId c) \<and> isKnownControlKind (cc_command c) \<and>
     cc_command c \<in> set allowed \<and> prepare env n c = Prepared ControlAccepted True"

definition acts_ok :: "control_env \<Rightarrow> ControlKind list \<Rightarrow> ControlEvent list \<Rightarrow> bool" where
  "acts_ok env allowed es \<longleftrightarrow>
     (\<forall>xs n c ys. es = xs @ Acted n c # ys \<longrightarrow>
        may_act env allowed n c \<and> xs \<noteq> [] \<and> last xs = Remembered c \<and> (stops_reader env n c \<longrightarrow> ys = []))"

lemma acts_ok_short:
  "acts_ok env allowed []" "acts_ok env allowed [Warned d]" "acts_ok env allowed [Remembered c]"
  "acts_ok env allowed [Remembered c, Warned d]"
  "acts_ok env allowed [Remembered c, Acted n c] = may_act env allowed n c"
  by (auto simp: acts_ok_def append_eq_Cons_conv Cons_eq_append_conv)

lemma acts_ok_append:
  assumes "acts_ok env allowed es" "acts_ok env allowed es'"
    and "\<And>n c. Acted n c \<in> set es \<Longrightarrow> stops_reader env n c \<Longrightarrow> es' = []"
  shows "acts_ok env allowed (es @ es')"
  unfolding acts_ok_def
proof (intro allI impI)
  fix xs n c ys
  assume "es @ es' = xs @ Acted n c # ys"
  then consider us where "es = xs @ us" "us @ es' = Acted n c # ys" | us where "xs = es @ us" "es' = us @ Acted n c # ys"
    by (auto simp: append_eq_append_conv2)
  then show "may_act env allowed n c \<and> xs \<noteq> [] \<and> last xs = Remembered c \<and> (stops_reader env n c \<longrightarrow> ys = [])"
  proof cases
    case (1 us)
    show ?thesis
    proof (cases us)
      case Nil
      with 1 assms(2) show ?thesis unfolding acts_ok_def by (metis append_Nil)
    next
      case (Cons u vs)
      with 1 have "es = xs @ Acted n c # vs" "ys = vs @ es'" by auto
      with assms(1,3) show ?thesis unfolding acts_ok_def by (metis append_Nil2 in_set_conv_decomp append_Nil)
    qed
  next
    case (2 us)
    with assms(2) have "may_act env allowed n c" "us \<noteq> []" "last us = Remembered c" "stops_reader env n c \<longrightarrow> ys = []"
      unfolding acts_ok_def by blast+
    with 2 show ?thesis by simp
  qed
qed

lemma emitInvalid_events: "emitInvalidControl env n d = (e, es) \<Longrightarrow> es = [] \<or> es = [Warned d]"
  by (auto simp: emitInvalidControl_def Let_def split: if_splits sum.splits option.splits)

lemma parse_Inr:
  "parseControlCommand js line = Inr c \<Longrightarrow>
   cc_protocol c = Version \<and> validOperationID (cc_commandId c) \<and> isKnownControlKind (cc_command c)"
  by (auto simp: parseControlCommand_def bindE_Inr_iff split: if_splits option.splits)

text \<open>A line does nothing to the ledger, or it remembers one new command.\<close>

definition line_ok :: "control_env \<Rightarrow> nat \<Rightarrow> ControlReader \<Rightarrow> ControlEvent list \<Rightarrow> ControlReader \<Rightarrow> bool" where
  "line_ok env n r es r' \<longleftrightarrow>
     acts_ok env (cr_allowed r) es \<and> cr_allowed r' = cr_allowed r \<and>
     (\<forall>m c. Acted m c \<in> set es \<and> stops_reader env m c \<longrightarrow> cr_stopped r') \<and>
     (remembered es = [] \<and> r' = r \<or>
      (\<exists>c. remembered es = [c] \<and> cr_seen r (cc_commandId c) = None \<and>
         (r' = remember c r \<or> r' = (remember c r)\<lparr>cr_stopped := True\<rparr>)))"

lemma dispatch_ok:
  assumes "dispatch env n c r = ((e, es), r')"
    and c: "cc_protocol c = Version" "validOperationID (cc_commandId c)" "isKnownControlKind (cc_command c)"
  shows "line_ok env n r es r'"
proof (cases "cr_seen r (cc_commandId c)")
  case (Some original)
  with assms(1) have "r' = r" "es = [] \<or> (\<exists>d. es = [Warned d])"
    by (auto simp: dispatch_def dest: emitInvalid_events split: if_splits)
  then show ?thesis by (auto simp: line_ok_def acts_ok_short)
next
  case None
  have nw: "es' = [] \<or> (\<exists>d. es' = [Warned d])" if "emitCommandNotApplicable env n c = (e', es')" for e' es'
    using that unfolding emitCommandNotApplicable_def by (blast dest: emitInvalid_events)
  consider (quiet) "r' = remember c r" "es = [Remembered c] \<or> (\<exists>d. es = [Remembered c, Warned d])"
    | (act) "es = [Remembered c, Acted n c]" "may_act env (cr_allowed r) n c"
      "r' = (if stops_reader env n c then (remember c r)\<lparr>cr_stopped := True\<rparr> else remember c r)"
  proof (cases "cc_command c \<in> set (cr_allowed r) \<and> prepare env n c = Prepared ControlAccepted True")
    case True
    with assms None have "es = [Remembered c, Acted n c]" "may_act env (cr_allowed r) n c"
      "r' = (if stops_reader env n c then (remember c r)\<lparr>cr_stopped := True\<rparr> else remember c r)"
      by (auto simp: dispatch_def Let_def remember_fields may_act_def stops_reader_def split: if_splits option.splits)
    then show ?thesis by (rule act)
  next
    case False
    with assms(1) None have "r' = remember c r" "es = [Remembered c] \<or> (\<exists>d. es = [Remembered c, Warned d])"
      by (auto simp: dispatch_def Let_def remember_fields dest!: nw
          split: if_splits PrepareAnswer.splits ControlDisposition.splits prod.splits)
    then show ?thesis by (rule quiet)
  qed
  then show ?thesis
    by cases (use None in \<open>auto simp: line_ok_def acts_ok_short remember_fields\<close>)
qed

lemma handle_line_ok:
  assumes "handle_line env js n line lineBytes tooLong r = ((e, es), r')"
  shows "line_ok env n r es r'"
proof (cases "\<exists>c. \<not> tooLong \<and> parseControlCommand js (case line of None \<Rightarrow> [] | Some l \<Rightarrow> l) = Inr c")
  case True
  then obtain c where "parseControlCommand js (case line of None \<Rightarrow> [] | Some l \<Rightarrow> l) = Inr c" "\<not> tooLong" by blast
  with assms parse_Inr [OF this(1)] show ?thesis by (auto simp: handle_line_def intro: dispatch_ok)
next
  case False
  with assms have "r' = r" "es = [] \<or> (\<exists>d. es = [Warned d])"
    by (auto simp: handle_line_def dest: emitInvalid_events split: if_splits sum.splits)
  then show ?thesis by (auto simp: line_ok_def acts_ok_short)
qed

lemma line_ok_ledger:
  assumes "line_ok env n r es r'" "ledger r L"
  shows "ledger r' (fold push_command (remembered es) L) \<and> fresh_ok L (remembered es)"
proof -
  from assms(1) consider "remembered es = []" "r' = r"
    | c where "remembered es = [c]" "cr_seen r (cc_commandId c) = None"
        "r' = remember c r \<or> r' = (remember c r)\<lparr>cr_stopped := True\<rparr>"
    unfolding line_ok_def by blast
  then show ?thesis
  proof cases
    case (2 c)
    have "ledger r' (push_command c L)"
      using remember_refines [OF assms(2) 2(2)] 2(3) by auto
    moreover have "cc_commandId c \<notin> cc_commandId ` set L"
      using assms(2) 2(2) by (auto simp: ledger_def seen_of_None image_iff)
    ultimately show ?thesis using 2(1) by simp
  qed (use assms(2) in simp)
qed

lemma stop_flag_fields [simp]:
  "cr_allowed (stop_flag env n b r) = cr_allowed r" "ledger (stop_flag env n b r) L = ledger r L"
  "cr_stopped r \<Longrightarrow> stop_flag env n b r = r"
  by (simp_all add: stop_flag_def ledger_def)

text \<open>One turn of the loop: it ends, or it handles a line and goes on.\<close>

lemma run_loop_cases:
  assumes "run_loop env js n k input r0 = ((e, es), r')"
  obtains (quiet) "es = []" "cr_allowed r' = cr_allowed r0" "\<And>L. ledger r' L = ledger r0 L"
      "e = None \<Longrightarrow> cr_stopped r' \<or> cr_inputClosed r'"
    | (last) r2 r1 where "\<not> cr_stopped r0" "line_ok env n r1 es r2" "cr_allowed r1 = cr_allowed r0"
      "\<And>L. ledger r1 L = ledger r0 L" "r' = r2 \<or> r' = r2\<lparr>cr_inputClosed := True\<rparr>"
      "e = None \<Longrightarrow> cr_inputClosed r'"
    | (more) es1 es2 r2 r1 k' rest where "\<not> cr_stopped r0" "line_ok env n r1 es1 r2"
      "cr_allowed r1 = cr_allowed r0" "\<And>L. ledger r1 L = ledger r0 L" "es = es1 @ es2"
      "run_loop env js (n + 1) k' rest r2 = ((e, es2), r')" "length rest < length input"
proof -
  let ?r = "stop_flag env n False r0" let ?r1 = "stop_flag env n True ?r"
  have fields: "cr_allowed ?r1 = cr_allowed r0" "\<And>L. ledger ?r1 L = ledger r0 L" by simp_all
  obtain got k' rest where got: "readPhysicalLine (faults env) k input = (got, k', rest)" by (metis prod.exhaust)
  note run = assms [unfolded run_loop.simps [of env js n k input r0] Let_def got prod.case]
  show ?thesis
  proof (cases "cr_stopped ?r \<or> ctx_ended env n False \<noteq> None \<or> cr_stopped ?r1 \<or> ctx_ended env n True \<noteq> None")
    case True
    with run show ?thesis by (intro quiet) (auto split: if_splits option.splits)
  next
    case go: False
    then have ns: "\<not> cr_stopped r0" by (auto simp: stop_flag_def split: if_splits)
    show ?thesis
    proof (cases got)
      case (PhysicalLine line lineBytes tooLong reachedEOF)
      obtain e1 es1 r2 where h: "handle_line env js n line lineBytes tooLong ?r1 = ((e1, es1), r2)"
        by (metis prod.exhaust)
      note ok = handle_line_ok [OF h]
      show ?thesis
      proof (cases "e1 = None \<and> \<not> reachedEOF")
        case True
        obtain e2 es2 r3 where rec: "run_loop env js (n + 1) k' rest r2 = ((e2, es2), r3)" by (metis prod.exhaust)
        with True run go PhysicalLine h have "es = es1 @ es2" "e = e2" "r' = r3" by auto
        moreover have "length rest < length input" using line_shorter got PhysicalLine True by blast
        ultimately show ?thesis using rec ns ok fields by (intro more [of ?r1 es1 r2 es2 k' rest]) auto
      next
        case False
        with run go PhysicalLine h have "es = es1" "r' = r2 \<or> r' = r2\<lparr>cr_inputClosed := True\<rparr>"
          "e = None \<Longrightarrow> cr_inputClosed r'"
          by (auto split: option.splits if_splits)
        with ns ok fields show ?thesis by (intro last [of ?r1 r2]) auto
      qed
    qed (use run go in \<open>auto intro!: quiet\<close>)
  qed
qed

lemma run_loop_stopped: "cr_stopped r0 \<Longrightarrow> run_loop env js n k input r0 = ((None, []), r0)"
  by (simp add: run_loop.simps [of env js n k input r0] Let_def)

lemma run_loop_ok:
  "run_loop env js n k input r0 = ((e, es), r') \<Longrightarrow> ledger r0 L \<Longrightarrow>
   ledger r' (fold push_command (remembered es) L) \<and> fresh_ok L (remembered es) \<and>
   acts_ok env (cr_allowed r0) es \<and> (e = None \<longrightarrow> cr_stopped r' \<or> cr_inputClosed r')"
proof (induction "length input" arbitrary: n k input r0 es r' L rule: less_induct)
  case less
  from less.prems(1) show ?case
  proof (cases rule: run_loop_cases)
    case quiet
    with less.prems(2) show ?thesis by (simp add: acts_ok_short)
  next
    case (last r2 r1)
    then have "ledger r' M = ledger r2 M" for M by (auto simp: ledger_def)
    with line_ok_ledger [OF last(2), of L] last less.prems(2) show ?thesis by (auto simp: line_ok_def)
  next
    case (more es1 es2 r2 r1 k' rest)
    let ?L = "fold push_command (remembered es1) L"
    have one: "ledger r2 ?L" "fresh_ok L (remembered es1)"
      using line_ok_ledger [OF more(2)] more(4) less.prems(2) by auto
    note rest = less.hyps [OF more(7) more(6) one(1)]
    have "es2 = []" if "Acted m c \<in> set es1" "stops_reader env m c" for m c
      using more(2,6) that run_loop_stopped [of r2 env js "n + 1" k' rest] by (auto simp: line_ok_def)
    moreover have "cr_allowed r2 = cr_allowed r0" "acts_ok env (cr_allowed r0) es1"
      using more(2,3) by (auto simp: line_ok_def)
    ultimately have "acts_ok env (cr_allowed r0) (es1 @ es2)"
      using rest by (intro acts_ok_append) auto
    with rest one more(5) show ?thesis by (simp add: fresh_ok_append)
  qed
qed

lemma allowed_loop_Inr: "allowed_loop acc cs = Inr as \<Longrightarrow> as = acc @ cs"
  by (induction cs arbitrary: acc) (simp_all split: if_splits, fastforce)

lemma new_reader_ledger:
  "NewControlReader allowed = Inr r \<Longrightarrow>
   ledger r [] \<and> cr_allowed r = allowed \<and> \<not> cr_started r \<and> \<not> cr_stopped r \<and> \<not> cr_inputClosed r"
  by (auto simp: NewControlReader_def bindE_Inr_iff ledger_def seen_of_def dest: allowed_loop_Inr split: if_splits)

lemma control_Run_new:
  assumes "NewControlReader allowed = Inr r" "control_Run env js input r = ((e, es), r')"
  shows "ledger r' (fold push_command (remembered es) []) \<and> fresh_ok [] (remembered es) \<and>
    acts_ok env allowed es \<and> (e = None \<longrightarrow> cr_stopped r' \<or> cr_inputClosed r')"
  using new_reader_ledger [OF assms(1)] assms(2)
    run_loop_ok [of env js 0 0 input "r\<lparr>cr_started := True\<rparr>" e es r' "[]"]
  by (simp add: control_Run_def)

section \<open>Properties\<close>

text \<open>C33: without read errors a physical line is the input up to the first line feed without one carriage
  return before it, or the rest of the input; it is too long exactly when it has more than 4096 bytes,
  its length is exact even when its bytes are dropped, and a line that is not too long is complete.\<close>

theorem physical_line_correct: "reads_line input (readPhysicalLine (\<lambda>_. None) n input)"
proof (cases rule: ReadSlice_cases [of input])
  case (line pre post)
  then have "spec_line input = Some (strip_cr pre, False, post)" by (simp add: spec_line_LF)
  with line show ?thesis by (simp add: reads_line_def readPhysicalLine_def Let_def)
next
  case (full pre post)
  have "pre \<noteq> []" "controlReaderBufferSize \<le> length pre" using full(3) by auto
  then obtain k line eof rest where "spec_line (pre @ post) = Some (line, eof, rest)"
    "drainOverlongLine (\<lambda>_. None) (n + 1) (length pre) (last pre) post = (PhysicalLine None (length line) True eof, k, rest)"
    "length line > maxControlPayloadBytes"
    using drain_line [OF full(2), of "\<lambda>_. None" post "n + 1"] by blast
  with full show ?thesis by (simp add: reads_line_def readPhysicalLine_def)
next
  case eof
  then show ?thesis
    by (cases "input = []") (simp_all add: reads_line_def readPhysicalLine_def spec_line_rest, simp add: spec_line_def)
qed

text \<open>C13: the ring of identifiers refines a window of the last 1024 new commands: after every run of a new
  reader its map is that of the window, and no identifier is taken as new again while fewer than 1024
  other commands came after it.\<close>

theorem control_ledger_window:
  assumes "NewControlReader allowed = Inr r" "control_Run env js input r = ((e, es), r')"
  shows "ledger r' (drop (length (remembered es) - 1024) (remembered es)) \<and>
    (\<forall>i j. i < j \<and> j < length (remembered es) \<and> j - i \<le> 1024 \<longrightarrow>
       cc_commandId (remembered es ! i) \<noteq> cc_commandId (remembered es ! j))"
proof -
  have capacity: "controlLedgerCapacity = 1024" by (simp add: controlLedgerCapacity_def)
  note run = control_Run_new [OF assms, unfolded window capacity]
  with fresh_distinct [unfolded capacity] show ?thesis by blast
qed


text \<open>A run over two lines, a shutdown and a line that is never handled.\<close>

definition example_env :: control_env where
  "example_env = \<lparr>faults = (\<lambda>_. None), stops = (\<lambda>_ _. False), ctx_ended = (\<lambda>_ _. None),
     prepare = (\<lambda>_ _. Prepared ControlAccepted True), stop_policy = None, run_action = (\<lambda>_ _. None),
     current_stage = (\<lambda>_. StageBackendRun), emit_warning = (\<lambda>_ _. None)\<rparr>"

definition example_id :: string where
  "example_id = ''01ARZ3NDEKTSV4RRFFQ69G5FAV''"

definition example_control_json :: control_json where
  "example_control_json = \<lparr>json_valid = (\<lambda>_. True),
     json_scan = (\<lambda>_. \<lparr>obj_opens = True, obj_members = [Member ''protocol'' (Some ''1''),
        Member ''command'' (Some ''s''), Member ''commandId'' (Some ''i'')], obj_closes = True, obj_ends = True\<rparr>),
     json_int = (\<lambda>_. Some 1), json_string = (\<lambda>s. Some (if s = ''s'' then ControlShutdown else example_id))\<rparr>"

definition example_reader :: ControlReader where
  "example_reader = \<lparr>cr_started = False, cr_stopped = False, cr_inputClosed = False,
     cr_allowed = [ControlShutdown], cr_seen = Map.empty,
     cr_order = replicate controlLedgerCapacity '''', cr_next = 0, cr_size = 0\<rparr>"

definition example_command :: ControlCommand where
  "example_command = \<lparr>cc_protocol = 1, cc_command = ControlShutdown, cc_commandId = example_id\<rparr>"

lemma example_reader_new: "NewControlReader [ControlShutdown] = Inr example_reader"
  by (simp add: NewControlReader_def isKnownControlKind_def example_reader_def)

lemma example_parsed: "parseControlCommand example_control_json ''x'' = Inr example_command"
proof -
  have "utf8_valid ''x''" "validOperationID example_id" "\<not> isJSONNull ''1''" "\<not> isJSONNull ''s''" "\<not> isJSONNull ''i''"
    by code_simp+
  then show ?thesis
    by (simp add: parseControlCommand_def decodeControlFields_def example_control_json_def Let_def field_value_def
        isControlField_def isKnownControlKind_def example_command_def List.member_iff)
qed

lemma example_run:
  "control_Run example_env example_control_json ''x\<newline>y'' example_reader =
     ((None, [Remembered example_command, Acted 0 example_command]),
      (remember example_command (example_reader\<lparr>cr_started := True\<rparr>))\<lparr>cr_stopped := True\<rparr>)"
proof -
  let ?r = "example_reader\<lparr>cr_started := True\<rparr>"
  let ?r' = "(remember example_command ?r)\<lparr>cr_stopped := True\<rparr>"
  have read: "readPhysicalLine (\<lambda>_. None) 0 ''x\<newline>y'' = (PhysicalLine (Some ''x'') 1 False False, 1, ''y'')"
    by code_simp
  have "dispatch example_env 0 example_command ?r = ((None, [Remembered example_command, Acted 0 example_command]), ?r')"
    by (simp add: dispatch_def example_env_def example_reader_def example_command_def remember_fields)
  then have "handle_line example_env example_control_json 0 (Some ''x'') 1 False ?r =
      ((None, [Remembered example_command, Acted 0 example_command]), ?r')"
    by (simp add: handle_line_def example_parsed)
  moreover have "stop_flag example_env n b ?r = ?r" "\<not> cr_stopped ?r" "faults example_env = (\<lambda>_. None)"
    "ctx_ended example_env n b = None" for n b
    by (simp_all add: stop_flag_def example_env_def example_reader_def)
  ultimately have "run_loop example_env example_control_json 0 0 ''x\<newline>y'' ?r =
      ((None, [Remembered example_command, Acted 0 example_command]), ?r')"
    using run_loop_stopped [of ?r' example_env example_control_json 1 1 "''y''"]
    by (simp add: run_loop.simps [of _ _ _ _ "''x\<newline>y''"] read)
  then show ?thesis by (simp add: control_Run_def example_reader_def)
qed

theorem control_ledger_window_witness:
  "ledger ((remember example_command (example_reader\<lparr>cr_started := True\<rparr>))\<lparr>cr_stopped := True\<rparr>) [example_command]"
  using control_ledger_window [OF example_reader_new example_run] by simp


end
