(* ===== verification/Git_Repository.thy ===== *)
theory Git_Repository
  imports State_Codec Protocol_Errors Mirror_Source
begin

text \<open>
  \<open>internal/gitrepo/target.go\<close>, \<open>repository.go\<close>, \<open>verify.go\<close> and the checks of \<open>alpha.go\<close>: the version and
  branch that are asked for, the revision that a verified clone gives, and the identity under which
  the recovery recognises a repository later. What go-git reads from a directory is the record
  \<open>repositorySnapshot\<close>; the streaming decoder of \<open>encoding/json\<close> is the record \<open>version_decoder\<close>. The
  lemmas show that a verified clone is always recognised as the revision it was verified for.
\<close>

section \<open>Errors\<close>

text \<open>What \<open>errors.Is\<close> and \<open>errors.As\<close> find in the cause of an error.\<close>

record Cause =
  c_cancelled :: bool
  c_notFound :: bool
  c_permission :: bool
  c_identityChanged :: bool
  c_caseSensitivity :: bool
  c_destinationExists :: bool
  c_code :: "Code option"
  c_writeError :: bool

text \<open>An \<open>*Error\<close> of the package. Its message is always \<open>messageForCode\<close> of its code and its only
  detail is the reason, so neither the message nor a map is kept.\<close>

record GitError =
  ge_code :: Code
  ge_stage :: Stage
  ge_reason :: "string option"
  ge_committed :: bool

definition newError :: "Code \<Rightarrow> Stage \<Rightarrow> string option \<Rightarrow> GitError" where
  "newError c s r = \<lparr>ge_code = c, ge_stage = s, ge_reason = r, ge_committed = False\<rparr>"

definition newCommittedError :: "Code \<Rightarrow> Stage \<Rightarrow> string option \<Rightarrow> GitError" where
  "newCommittedError c s r = (newError c s r)\<lparr>ge_committed := True\<rparr>"

text \<open>\<open>ended\<close> says whether \<open>ctx.Err()\<close> is set when the function asks.\<close>

definition isCancellation :: "bool \<Rightarrow> Cause \<Rightarrow> bool" where
  "isCancellation ended c \<longleftrightarrow> ended \<or> c_cancelled c"

definition isAmbiguousFilesystemError :: "Cause \<Rightarrow> bool" where
  "isAmbiguousFilesystemError c =
     (if c_identityChanged c \<or> c_caseSensitivity c then True
      else case c_code c of
             None \<Rightarrow> False
           | Some k \<Rightarrow> k = CodeUnsafeReparsePoint \<or> k = CodePathOutsideManagedRoot)"

section \<open>Targets and revisions\<close>

definition validVersion :: "string \<Rightarrow> bool" where
  "validVersion v =
     (if length v < 2 \<or> length v > 128 \<or> v ! 0 \<noteq> CHR ''v'' then False
      else if contains v ''..'' \<or> contains v [CHR ''@'', CHR 0x7B] \<or> has_suffix v ''.'' \<or> has_suffix v ''.lock''
        then False
      else list_all (\<lambda>c. is_lower c \<or> is_upper c \<or> is_digit c \<or> c = CHR ''.'' \<or> c = CHR ''-'' \<or> c = CHR ''_'')
             (tl v))"

record GitTarget =
  gt_version :: string
  gt_branch :: string

definition ParseTarget :: "string \<Rightarrow> GitTarget option" where
  "ParseTarget v =
     (if \<not> validVersion v then None else Some \<lparr>gt_version = v, gt_branch = ProductBranch v\<rparr>)"

definition GitTarget_validate :: "GitTarget \<Rightarrow> bool" where
  "GitTarget_validate t = (case ParseTarget (gt_version t) of None \<Rightarrow> False | Some p \<Rightarrow> p = t)"

definition validCommit :: "string \<Rightarrow> bool" where
  "validCommit c =
     (if length c \<noteq> 40 then False
      else list_all (\<lambda>x. is_digit x \<or> (CHR ''a'' \<le> x \<and> x \<le> CHR ''f'')) c)"

definition validRevisionSourceKey :: "string \<Rightarrow> bool" where
  "validRevisionSourceKey k = (if k = '''' then False else slug_scan (CHR ''-'') 0 (length k) False k)"

definition validGitSource :: "url_api \<Rightarrow> Source \<Rightarrow> bool" where
  "validGitSource api s =
     (if kind s \<noteq> KindGit then False
      else case NewSource api (kind s) (key s) (baseURL s) (official s) of
             Inl _ \<Rightarrow> False
           | Inr rebuilt \<Rightarrow> rebuilt = s)"

record GitRevision =
  gr_version :: string
  gr_branch :: string
  gr_commit :: string
  gr_sourceKey :: string

definition GitRevision_validate :: "GitRevision \<Rightarrow> bool" where
  "GitRevision_validate r =
     (case ParseTarget (gr_version r) of
        None \<Rightarrow> False
      | Some t \<Rightarrow>
          \<not> ((gt_branch t \<noteq> gr_branch r \<and> gr_branch r \<noteq> ''release/'' @ gr_version r) \<or>
             \<not> validCommit (gr_commit r) \<or> \<not> validRevisionSourceKey (gr_sourceKey r)))"

definition NewRevision :: "string \<Rightarrow> string \<Rightarrow> string \<Rightarrow> string \<Rightarrow> GitRevision option" where
  "NewRevision v b c k =
     (case ParseTarget v of
        None \<Rightarrow> None
      | Some t \<Rightarrow>
          if (gt_branch t \<noteq> b \<and> b \<noteq> ''release/'' @ v) \<or> \<not> validCommit c \<or> \<not> validRevisionSourceKey k then None
          else Some \<lparr>gr_version = v, gr_branch = b, gr_commit = c, gr_sourceKey = k\<rparr>)"

definition newRevision :: "url_api \<Rightarrow> GitTarget \<Rightarrow> string \<Rightarrow> Source \<Rightarrow> GitRevision option" where
  "newRevision api t c s =
     (if \<not> GitTarget_validate t \<or> \<not> validCommit c \<or> \<not> validGitSource api s then None
      else Some \<lparr>gr_version = gt_version t, gr_branch = gt_branch t, gr_commit = c, gr_sourceKey = key s\<rparr>)"

section \<open>Snapshots\<close>

record remoteSnapshot =
  rem_name :: string
  rem_fetchURLs :: "string list"
  rem_mirror :: bool

record alphaBinding =
  ab_version :: string
  ab_commit :: string
  ab_sourceVersion :: string

text \<open>\<open>versionMode\<close> is only asked whether it is regular.\<close>

record repositorySnapshot =
  nonBare :: bool
  remotes :: "remoteSnapshot list"
  headSymbolic :: bool
  headTarget :: string
  headCommit :: string
  shallow :: "string list"
  tags :: "string list"
  versionRegular :: bool
  versionPayload :: string
  binding :: "alphaBinding option"

text \<open>One section of the raw configuration: whether it is that of the runtime, its subsections, its
  options. \<open>lower\<close> is the Unicode \<open>strings.ToLower\<close>.\<close>

record config_section =
  cs_alpha :: bool
  cs_subsections :: nat
  cs_options :: "(string \<times> string) list"

fun option_values ::
  "(string \<Rightarrow> string) \<Rightarrow> (string \<times> string) list \<Rightarrow> (string \<rightharpoonup> string) \<Rightarrow> (string \<rightharpoonup> string) option" where
  "option_values lower [] vals = Some vals"
| "option_values lower ((k0, v) # os) vals =
     (let k = lower k0 in
      if k \<noteq> ''version'' \<and> k \<noteq> ''commit'' \<and> k \<noteq> ''sourceversion'' then None
      else if vals k \<noteq> None then None
      else option_values lower os (vals(k \<mapsto> v)))"

definition lookup_value :: "(string \<rightharpoonup> string) \<Rightarrow> string \<Rightarrow> string" where
  "lookup_value vals k = (case vals k of None \<Rightarrow> '''' | Some v \<Rightarrow> v)"

definition section_binding :: "(string \<Rightarrow> string) \<Rightarrow> config_section \<Rightarrow> alphaBinding option" where
  "section_binding lower s =
     (if cs_subsections s \<noteq> 0 \<or> length (cs_options s) \<noteq> 3 then None
      else case option_values lower (cs_options s) Map.empty of
        None \<Rightarrow> None
      | Some vals \<Rightarrow>
          (let b = \<lparr>ab_version = lookup_value vals ''version'', ab_commit = lookup_value vals ''commit'',
                    ab_sourceVersion = lookup_value vals ''sourceversion''\<rparr> in
           case ParseTarget (ab_version b) of
             None \<Rightarrow> None
           | Some t \<Rightarrow>
               if gt_branch t \<noteq> ''dev'' \<or> \<not> validCommit (ab_commit b) \<or> \<not> validVersion (ab_sourceVersion b)
               then None else Some b))"

text \<open>\<open>Inl ()\<close> is \<open>errInvalidRepositoryID\<close>.\<close>

fun readAlphaBinding ::
  "(string \<Rightarrow> string) \<Rightarrow> config_section list \<Rightarrow> alphaBinding option \<Rightarrow> unit + alphaBinding option" where
  "readAlphaBinding lower [] b = Inr b"
| "readAlphaBinding lower (s # ss) b =
     (if \<not> cs_alpha s then readAlphaBinding lower ss b
      else if b \<noteq> None then Inl ()
      else case section_binding lower s of
             None \<Rightarrow> Inl ()
           | Some b' \<Rightarrow> readAlphaBinding lower ss (Some b'))"

section \<open>The version document\<close>

text \<open>A \<open>json.Decoder\<close> in state \<open>'d\<close>. \<open>vd_token\<close> is \<open>Token\<close>, \<open>None\<close> for an error; \<open>vd_any\<close> is \<open>Decode\<close>
  into an interface, \<open>Some None\<close> for a value that is not a string; \<open>vd_raw\<close> is \<open>Decode\<close> into a raw
  message; \<open>vd_eof\<close> says whether \<open>Decode\<close> gives \<open>io.EOF\<close>.\<close>

record 'd version_decoder =
  vd_start :: "string \<Rightarrow> 'd"
  vd_token :: "'d \<Rightarrow> json_token option \<times> 'd"
  vd_more :: "'d \<Rightarrow> bool"
  vd_any :: "'d \<Rightarrow> string option option \<times> 'd"
  vd_raw :: "'d \<Rightarrow> bool \<times> 'd"
  vd_eof :: "'d \<Rightarrow> bool"

abbreviation maxRepositoryVersionBytes :: nat where "maxRepositoryVersionBytes \<equiv> 1048576"

text \<open>The loop over the members; \<open>seen\<close> is \<open>seenVersion\<close> with \<open>version\<close>. The outer \<open>None\<close> is a loop that does
  not end, the inner one an error.\<close>

partial_function (option) version_members ::
  "'d version_decoder \<Rightarrow> string option \<Rightarrow> 'd \<Rightarrow> (string option \<times> 'd) option option" where
  "version_members api seen d =
     (if \<not> vd_more api d then Some (Some (seen, d))
      else case vd_token api d of
        (Some (TStr k), d1) \<Rightarrow>
          if k = ''version'' then
            (if seen \<noteq> None then Some None
             else case vd_any api d1 of
               (Some (Some v), d2) \<Rightarrow> version_members api (Some v) d2
             | _ \<Rightarrow> Some None)
          else
            (case vd_raw api d1 of
               (ok, d2) \<Rightarrow> if ok then version_members api seen d2 else Some None)
      | _ \<Rightarrow> Some None)"

definition parseRepositoryVersion :: "'d version_decoder \<Rightarrow> string \<Rightarrow> string option option" where
  "parseRepositoryVersion api payload =
     (if payload = '''' \<or> length payload > maxRepositoryVersionBytes \<or> \<not> utf8_valid payload then Some None
      else case vd_token api (vd_start api payload) of
        (Some (TDelim c), d0) \<Rightarrow>
          if c \<noteq> OBRACE then Some None
          else (case version_members api None d0 of
                  None \<Rightarrow> None
                | Some None \<Rightarrow> Some None
                | Some (Some (seen, d)) \<Rightarrow>
                    (case vd_token api d of
                       (Some (TDelim c'), d1) \<Rightarrow>
                         if c' = CBRACE \<and> seen \<noteq> None \<and> vd_eof api d1 then Some seen else Some None
                     | _ \<Rightarrow> Some None))
      | _ \<Rightarrow> Some None)"

section \<open>The identity of a repository\<close>

record repositoryIdentity =
  ri_version :: string
  ri_branch :: string
  ri_commit :: string
  ri_sourceKey :: string

definition sameRevision :: "repositoryIdentity \<Rightarrow> repositoryIdentity \<Rightarrow> bool" where
  "sameRevision i j \<longleftrightarrow>
     ri_version i = ri_version j \<and> ri_branch i = ri_branch j \<and> ri_commit i = ri_commit j"

text \<open>\<open>catalog\<close> is what \<open>DefaultCatalog\<close> gives, \<open>None\<close> for its error.\<close>

definition recoverySourceForURL :: "Catalog option \<Rightarrow> string \<Rightarrow> Source option" where
  "recoverySourceForURL catalog url =
     (case catalog of
        None \<Rightarrow> None
      | Some c \<Rightarrow> find (\<lambda>s. baseURL s = url) (Catalog_Sources (Some c) KindGit))"

text \<open>The target that the head of the snapshot stands for; \<open>version\<close> is that of the document.\<close>

definition snapshot_target :: "repositorySnapshot \<Rightarrow> string \<Rightarrow> GitTarget option" where
  "snapshot_target s version =
     (if headTarget s = ''refs/heads/dev'' then
        (case binding s of
           None \<Rightarrow> None
         | Some b \<Rightarrow>
             if ab_commit b \<noteq> headCommit s \<or> ab_sourceVersion b \<noteq> version then None
             else (case ParseTarget (ab_version b) of
                     None \<Rightarrow> None
                   | Some t \<Rightarrow> if gt_branch t \<noteq> ''dev'' \<or> \<not> validVersion version then None else Some t))
      else case ParseTarget version of
             None \<Rightarrow> None
           | Some t \<Rightarrow> Some (t\<lparr>gt_branch := ''release/'' @ version\<rparr>))"

text \<open>\<open>parse\<close> is \<open>parseRepositoryVersion\<close>; \<open>Inl ()\<close> is \<open>errInvalidRepositoryID\<close>.\<close>

definition repositoryIdentityFromSnapshot ::
  "Catalog option \<Rightarrow> (string \<Rightarrow> string option) \<Rightarrow> repositorySnapshot \<Rightarrow> unit + repositoryIdentity" where
  "repositoryIdentityFromSnapshot catalog parse s =
     (if \<not> nonBare s \<or> length (remotes s) \<noteq> 1 then Inl ()
      else let r = hd (remotes s) in
        if rem_name r \<noteq> ''origin'' \<or> length (rem_fetchURLs r) \<noteq> 1 \<or> rem_mirror r then Inl ()
        else case recoverySourceForURL catalog (hd (rem_fetchURLs r)) of
          None \<Rightarrow> Inl ()
        | Some source \<Rightarrow>
            if \<not> headSymbolic s \<or> \<not> validCommit (headCommit s) \<or> \<not> List.member (shallow s) (headCommit s) \<or>
               tags s \<noteq> [] \<or> \<not> versionRegular s then Inl ()
            else case parse (versionPayload s) of
              None \<Rightarrow> Inl ()
            | Some version \<Rightarrow>
                (case snapshot_target s version of
                   None \<Rightarrow> Inl ()
                 | Some t \<Rightarrow>
                     if headTarget s \<noteq> ''refs/heads/'' @ gt_branch t then Inl ()
                     else Inr \<lparr>ri_version = gt_version t, ri_branch = gt_branch t,
                               ri_commit = headCommit s, ri_sourceKey = key source\<rparr>))"

section \<open>Verification\<close>

text \<open>\<open>RepositoryPath\<close> is only compared with the empty string and given to the reader.\<close>

record VerificationRequest =
  vr_hasPath :: bool
  vr_target :: GitTarget
  vr_source :: Source
  vr_allowed :: "Source list"

text \<open>The loop over the allowed sources with \<open>seenKeys\<close>, \<open>seenURLs\<close> and \<open>sourceAllowed\<close>.\<close>

fun allowed_sources_loop ::
  "url_api \<Rightarrow> Source \<Rightarrow> string set \<Rightarrow> string set \<Rightarrow> bool \<Rightarrow> Source list \<Rightarrow> string" where
  "allowed_sources_loop api s keys urls ok [] = (if \<not> ok then ''source_unknown'' else '''')"
| "allowed_sources_loop api s keys urls ok (x # xs) =
     (if \<not> validGitSource api x then ''source_invalid''
      else if key x \<in> keys then ''source_duplicate''
      else if baseURL x \<in> urls then ''source_duplicate''
      else allowed_sources_loop api s (insert (key x) keys) (insert (baseURL x) urls) (ok \<or> x = s) xs)"

definition invalidVerificationRequest :: "url_api \<Rightarrow> VerificationRequest \<Rightarrow> string" where
  "invalidVerificationRequest api r =
     (if \<not> vr_hasPath r \<or> \<not> validGitSource api (vr_source r) \<or> vr_allowed r = [] then ''request_invalid''
      else allowed_sources_loop api (vr_source r) {} {} False (vr_allowed r))"

definition invalidSnapshotReason :: "repositorySnapshot \<Rightarrow> VerificationRequest \<Rightarrow> string" where
  "invalidSnapshotReason s r =
     (if \<not> nonBare s then ''repository_bare''
      else if length (remotes s) \<noteq> 1 then ''remote_count''
      else let m = hd (remotes s) in
        if rem_name m \<noteq> ''origin'' \<or> length (rem_fetchURLs m) \<noteq> 1 \<or> rem_mirror m then ''remote_shape''
        else if hd (rem_fetchURLs m) \<noteq> baseURL (vr_source r) then ''remote_unknown''
        else if \<not> headSymbolic s \<or> headTarget s \<noteq> ''refs/heads/'' @ gt_branch (vr_target r)
          then ''branch_invalid''
        else if \<not> validCommit (headCommit s) then ''commit_invalid''
        else if \<not> List.member (shallow s) (headCommit s) then ''shallow_invalid''
        else if tags s \<noteq> [] then ''tags_present''
        else if \<not> versionRegular s then ''version_file_mode''
        else '''')"

definition invalidRepositoryError :: "string \<Rightarrow> GitError" where
  "invalidRepositoryError reason = newError CodeGitRepositoryInvalid StageWorkspaceVerify (Some reason)"

definition verificationCancelledError :: GitError where
  "verificationCancelledError = newError CodeOperationCancelled StageWorkspaceVerify None"

text \<open>The part of \<open>Verify\<close> after the snapshot was read.\<close>

definition verify_snapshot ::
  "url_api \<Rightarrow> (string \<Rightarrow> string option) \<Rightarrow> VerificationRequest \<Rightarrow> repositorySnapshot \<Rightarrow> GitError + GitRevision" where
  "verify_snapshot api parse r s =
     (if invalidSnapshotReason s r \<noteq> '''' then Inl (invalidRepositoryError (invalidSnapshotReason s r))
      else case parse (versionPayload s) of
        None \<Rightarrow> Inl (invalidRepositoryError ''version_invalid'')
      | Some version \<Rightarrow>
          if \<not> validVersion version then Inl (invalidRepositoryError ''version_invalid'')
          else if gt_branch (vr_target r) \<noteq> ''dev'' \<and> version \<noteq> gt_version (vr_target r)
            then Inl (newError CodeGitVersionMismatch StageWorkspaceVerify (Some ''version_mismatch''))
          else if (case binding s of
                     None \<Rightarrow> False
                   | Some b \<Rightarrow> ab_version b \<noteq> gt_version (vr_target r) \<or> ab_commit b \<noteq> headCommit s \<or>
                              ab_sourceVersion b \<noteq> version)
            then Inl (invalidRepositoryError ''version_mismatch'')
          else case newRevision api (vr_target r) (headCommit s) (vr_source r) of
                 None \<Rightarrow> Inl (invalidRepositoryError ''revision_invalid'')
               | Some revision \<Rightarrow> Inr revision)"

text \<open>\<open>ended0\<close> and \<open>ended1\<close> are \<open>ctx.Err()\<close> before and after the read, whose answer is \<open>inspected\<close>.\<close>

definition Verify ::
  "url_api \<Rightarrow> (string \<Rightarrow> string option) \<Rightarrow> bool \<Rightarrow> Cause + repositorySnapshot \<Rightarrow> bool \<Rightarrow>
   VerificationRequest \<Rightarrow> GitError + GitRevision" where
  "Verify api parse ended0 inspected ended1 r =
     (if \<not> GitTarget_validate (vr_target r) then Inl (newError CodeInvalidVersion StageWorkspaceVerify None)
      else if invalidVerificationRequest api r \<noteq> ''''
        then Inl (invalidRepositoryError (invalidVerificationRequest api r))
      else if ended0 then Inl verificationCancelledError
      else if ended1 \<or> (case inspected of Inl c \<Rightarrow> isCancellation ended1 c | Inr _ \<Rightarrow> False)
        then Inl verificationCancelledError
      else case inspected of
        Inl _ \<Rightarrow> Inl (invalidRepositoryError ''repository_unreadable'')
      | Inr s \<Rightarrow> verify_snapshot api parse r s)"

text \<open>What \<open>bindAlphaRevision\<close> does to a verified \<open>dev\<close> clone: it writes the binding into the configuration and
  reads the repository again. \<open>before\<close> and \<open>after\<close> are what the reader gives, \<open>written\<close> whether the
  configuration could be written; the answer is whether the function returns no error.\<close>

definition bindAlphaRevision ::
  "(string \<Rightarrow> string option) \<Rightarrow> repositorySnapshot option \<Rightarrow> bool \<Rightarrow> repositorySnapshot option \<Rightarrow> bool \<Rightarrow>
   GitRevision \<Rightarrow> bool" where
  "bindAlphaRevision parse before written after ended r =
     (if gr_branch r \<noteq> ''dev'' then True
      else case before of
        None \<Rightarrow> False
      | Some s \<Rightarrow>
          (case parse (versionPayload s) of
             None \<Rightarrow> False
           | Some sourceVersion \<Rightarrow>
               if \<not> validVersion sourceVersion \<or> headCommit s \<noteq> gr_commit r \<or> headTarget s \<noteq> ''refs/heads/dev''
               then False
               else if \<not> written then False
               else case after of
                 None \<Rightarrow> False
               | Some s' \<Rightarrow>
                   (case binding s' of
                      None \<Rightarrow> False
                    | Some b \<Rightarrow>
                        if ab_version b \<noteq> gr_version r \<or> ab_commit b \<noteq> headCommit s' \<or>
                           headCommit s' \<noteq> gr_commit r \<or> ab_sourceVersion b \<noteq> sourceVersion
                        then False else \<not> ended)))"

section \<open>The two packages agree on versions and commits\<close>

lemma validVersion_state: "validVersion v \<longleftrightarrow> validateProductVersion v = None"
proof (cases "length v < 2")
  case False
  then have "v ! 0 = hd v" by (cases v) simp_all
  then show ?thesis
    by (auto simp: validVersion_def validateProductVersion_def version_tail_char_def
        isASCIIAlphaNumeric_def list_all_iff)
qed (simp add: validVersion_def validateProductVersion_def)

lemma validCommit_state: "validCommit c \<longleftrightarrow> validateCommit c = None"
  by (auto simp: validCommit_def validateCommit_def list_all_iff not_less)

lemma validRevisionSourceKey_source: "validRevisionSourceKey k = validSourceKey k"
  by (simp add: validRevisionSourceKey_def validSourceKey_def)

lemma ParseTarget_iff: "ParseTarget v = Some t \<longleftrightarrow> validVersion v \<and> t = \<lparr>gt_version = v, gt_branch = ProductBranch v\<rparr>"
  by (auto simp: ParseTarget_def)

lemma GitTarget_validate_iff:
  "GitTarget_validate t \<longleftrightarrow> validVersion (gt_version t) \<and> gt_branch t = ProductBranch (gt_version t)"
  by (cases t) (auto simp: GitTarget_validate_def ParseTarget_def)

lemma validGitSource_NewSource: "validGitSource api s \<Longrightarrow> NewSource api KindGit (key s) (baseURL s) (official s) = Inr s"
  by (auto simp: validGitSource_def split: sum.splits if_splits)

lemma validGitSource_key: "validGitSource api s \<Longrightarrow> validRevisionSourceKey (key s)"
  by (drule validGitSource_NewSource) (auto simp: NewSource_def validRevisionSourceKey_source split: if_splits)

lemma newRevision_valid: "newRevision api t c s = Some r \<Longrightarrow> GitRevision_validate r"
  by (auto simp: newRevision_def GitRevision_validate_def GitTarget_validate_iff ParseTarget_def
      dest: validGitSource_key split: if_splits)

section \<open>Recognised repositories\<close>

lemma identity_parts:
  assumes "repositoryIdentityFromSnapshot catalog parse s = Inr i"
  obtains r url source version t where
    "nonBare s" "remotes s = [r]" "rem_name r = ''origin''" "rem_fetchURLs r = [url]" "\<not> rem_mirror r"
    "recoverySourceForURL catalog url = Some source" "headSymbolic s" "validCommit (headCommit s)"
    "headCommit s \<in> set (shallow s)" "tags s = []" "versionRegular s"
    "parse (versionPayload s) = Some version" "snapshot_target s version = Some t"
    "headTarget s = ''refs/heads/'' @ gt_branch t"
    "i = \<lparr>ri_version = gt_version t, ri_branch = gt_branch t, ri_commit = headCommit s, ri_sourceKey = key source\<rparr>"
  using assms
  by (auto simp: repositoryIdentityFromSnapshot_def Let_def length_Suc_conv
      split: if_splits option.splits)

lemma snapshot_target_sound:
  assumes "snapshot_target s version = Some t"
  shows "validVersion (gt_version t) \<and>
    (gt_branch t = ''release/'' @ gt_version t \<or> (gt_branch t = ''dev'' \<and> ProductBranch (gt_version t) = ''dev''))"
  using assms by (auto simp: snapshot_target_def ParseTarget_iff split: if_splits option.splits)


lemma printable_no_control:
  assumes "list_all (\<lambda>c. 0x20 \<le> code_of c \<and> code_of c < 0x7F) s"
  shows "\<not> containsControl s"
proof -
  from assms have "list_all (\<lambda>c. code_of c < 0x80) s" by (auto simp: list_all_iff)
  from runes_ascii [OF this] assms show ?thesis
    by (fastforce simp: containsControl_def list_ex_iff list_all_iff is_control_def)
qed

lemma version_byte_printable:
  "is_lower c \<or> is_upper c \<or> is_digit c \<or> c = CHR ''.'' \<or> c = CHR ''-'' \<or> c = CHR ''_'' \<Longrightarrow>
   0x20 \<le> code_of c \<and> code_of c < 0x7F"
  by (auto simp: is_lower_def is_upper_def is_digit_def byte_codes)

lemma validVersion_printable: "validVersion v \<Longrightarrow> list_all (\<lambda>c. 0x20 \<le> code_of c \<and> code_of c < 0x7F) v"
proof -
  assume valid: "validVersion v"
  then obtain w where v: "v = CHR ''v'' # w"
    by (cases v) (auto simp: validVersion_def split: if_splits)
  have "list_all (\<lambda>c. 0x20 \<le> code_of c \<and> code_of c < 0x7F) w"
    using valid version_byte_printable by (fastforce simp: v validVersion_def list_all_iff split: if_splits)
  then show ?thesis by (simp add: v byte_codes)
qed

lemma identity_branch_printable:
  assumes "validVersion v" "b = ''release/'' @ v \<or> b = ''dev''"
  shows "\<not> containsControl b"
proof (rule printable_no_control)
  have "list_all (\<lambda>c. 0x20 \<le> code_of c \<and> code_of c < 0x7F) ''release/''"
    "list_all (\<lambda>c. 0x20 \<le> code_of c \<and> code_of c < 0x7F) ''dev''"
    by (simp_all add: byte_codes)
  with validVersion_printable [OF assms(1)] assms(2)
  show "list_all (\<lambda>c. 0x20 \<le> code_of c \<and> code_of c < 0x7F) b" by (auto simp: list_all_append)
qed

text \<open>The broken state that a change of the repository leaves.\<close>

definition changed_environment :: "string \<Rightarrow> string \<Rightarrow> string \<Rightarrow> string \<Rightarrow> BrokenEnvironment" where
  "changed_environment v b c p = \<lparr>be_targetVersion = v, be_branch = b, be_commit = c,
     be_pythonVersion = '''', be_uvVersion = '''', be_reason = ReasonRepositoryChanged,
     be_stage = StageWorkspaceSwap, be_exitCode = 0, be_logPath = p\<rparr>"

lemma changed_environment_valid:
  assumes "validVersion v" "b = ''release/'' @ v \<or> (b = ''dev'' \<and> ProductBranch v = ''dev'')" "validCommit c"
    and "validateRuntimeLogPath api log_dir p = None"
  shows "validateBrokenEnvironment api log_dir (changed_environment v b c p) = None"
proof -
  have "v \<noteq> ''''" using assms(1) by (auto simp: validVersion_def)
  moreover have "\<not> containsControl b" by (rule identity_branch_printable [OF assms(1)]) (use assms(2) in blast)
  moreover have "BrokenReason_Valid ReasonRepositoryChanged" "IsKnownStage StageWorkspaceSwap"
    by code_simp+
  ultimately show ?thesis using assms
    by (auto simp: validateBrokenEnvironment_None changed_environment_def validateReason_def
        validVersion_state validCommit_state)
qed

text \<open>whatever repository the recovery recognises, its identity is that of a revision with a valid
  version, the branch of that version and a full commit that is in the shallow boundary, from a
  source of the catalog; and the state package accepts a broken environment that names it, so the
  fact that the repository changed can always be recorded.\<close>

theorem recognised_repository_recordable:
  assumes "repositoryIdentityFromSnapshot (Some cat) parse s = Inr i"
    and "\<forall>x \<in> set (cat KindGit). validSourceKey (key x)"
    and "validateRuntimeLogPath api log_dir p = None"
    and "sampleTime ''updatedAt'' now = Inr t" and "validateRevision lastGood = None"
  shows "ri_commit i \<in> set (shallow s) \<and>
    (\<exists>x \<in> set (cat KindGit). remotes s = [\<lparr>rem_name = ''origin'', rem_fetchURLs = [baseURL x], rem_mirror = False\<rparr>] \<and>
       NewRevision (ri_version i) (ri_branch i) (ri_commit i) (key x) =
         Some \<lparr>gr_version = ri_version i, gr_branch = ri_branch i, gr_commit = ri_commit i,
               gr_sourceKey = ri_sourceKey i\<rparr>) \<and>
    (\<exists>env. NewBrokenEnvironment api log_dir now lastGood
             (changed_environment (ri_version i) (ri_branch i) (ri_commit i) p) = Inr env)"
  using assms(1)
proof (rule identity_parts)
  fix r url x version g
  assume rem: "remotes s = [r]" "rem_name r = ''origin''" "rem_fetchURLs r = [url]" "\<not> rem_mirror r"
    and src: "recoverySourceForURL (Some cat) url = Some x" and "validCommit (headCommit s)"
    and "headCommit s \<in> set (shallow s)" and tgt: "snapshot_target s version = Some g"
    and i: "i = \<lparr>ri_version = gt_version g, ri_branch = gt_branch g, ri_commit = headCommit s, ri_sourceKey = key x\<rparr>"
  have x: "x \<in> set (cat KindGit)" "baseURL x = url"
    using src by (auto simp: recoverySourceForURL_def Catalog_Sources_def Kind_Valid_def find_Some_iff)
  have "validateEnvironment api log_dir \<lparr>env_schemaVersion = 1, env_status = StateEnvironmentBroken,
      env_updatedAt = t, env_lastSuccessful = lastGood,
      env_broken = Some (changed_environment (ri_version i) (ri_branch i) (ri_commit i) p)\<rparr> = None"
    using changed_environment_valid [of "ri_version i" "ri_branch i" "ri_commit i"] snapshot_target_sound [OF tgt]
      assms(3,4,5) \<open>validCommit (headCommit s)\<close>
    by (auto simp: i validateEnvironment_def sampleTime_def Let_def split: option.splits)
  then have "NewBrokenEnvironment api log_dir now lastGood
      (changed_environment (ri_version i) (ri_branch i) (ri_commit i) p) = Inr \<lparr>env_schemaVersion = 1,
        env_status = StateEnvironmentBroken, env_updatedAt = t, env_lastSuccessful = lastGood,
        env_broken = Some (changed_environment (ri_version i) (ri_branch i) (ri_commit i) p)\<rparr>"
    using assms(4) by (simp add: NewBrokenEnvironment_def checked_environment_def)
  moreover have "r = \<lparr>rem_name = ''origin'', rem_fetchURLs = [baseURL x], rem_mirror = False\<rparr>"
    using rem x by (cases r) simp
  moreover have "NewRevision (ri_version i) (ri_branch i) (ri_commit i) (key x) =
         Some \<lparr>gr_version = ri_version i, gr_branch = ri_branch i, gr_commit = ri_commit i,
               gr_sourceKey = ri_sourceKey i\<rparr>"
    using snapshot_target_sound [OF tgt] \<open>validCommit (headCommit s)\<close> assms(2) x
    by (auto simp: i NewRevision_def ParseTarget_def validRevisionSourceKey_source)
  ultimately show ?thesis using x rem(1) \<open>headCommit s \<in> set (shallow s)\<close> by (auto simp: i)
qed

section \<open>A verified clone is recognised later\<close>

lemma ProductBranch_cases: "ProductBranch v = ''dev'' \<or> ProductBranch v = ''release/'' @ v"
  by (auto simp: ProductBranch_def Let_def split: option.splits prod.splits list.splits)

lemma verify_snapshot_Inr:
  assumes "verify_snapshot api parse q s = Inr r" "GitTarget_validate (vr_target q)"
  obtains m version where "nonBare s" "remotes s = [m]" "rem_name m = ''origin''"
    "rem_fetchURLs m = [baseURL (vr_source q)]" "\<not> rem_mirror m" "headSymbolic s"
    "headTarget s = ''refs/heads/'' @ gt_branch (vr_target q)" "validCommit (headCommit s)"
    "List.member (shallow s) (headCommit s)" "tags s = []" "versionRegular s"
    "parse (versionPayload s) = Some version" "validVersion version"
    "gt_branch (vr_target q) = ''dev'' \<or> version = gt_version (vr_target q)"
    "r = \<lparr>gr_version = gt_version (vr_target q), gr_branch = gt_branch (vr_target q), gr_commit = headCommit s,
          gr_sourceKey = key (vr_source q)\<rparr>"
  using assms
  by (auto simp: verify_snapshot_def invalidSnapshotReason_def newRevision_def Let_def length_Suc_conv
      split: if_splits option.splits)

lemma Verify_Inr:
  assumes "Verify api parse e0 inspected e1 q = Inr r"
  obtains s where "GitTarget_validate (vr_target q)" "inspected = Inr s" "verify_snapshot api parse q s = Inr r"
  using assms by (auto simp: Verify_def split: if_splits sum.splits)

lemma recoverySource_unique:
  assumes "x \<in> set (cat KindGit)" "\<forall>y \<in> set (cat KindGit). baseURL y = baseURL x \<longrightarrow> y = x"
  shows "recoverySourceForURL (Some cat) (baseURL x) = Some x"
proof (cases "recoverySourceForURL (Some cat) (baseURL x)")
  case None
  with assms(1) show ?thesis
    by (auto simp: recoverySourceForURL_def Catalog_Sources_def Kind_Valid_def find_None_iff)
next
  case (Some y)
  then have "y \<in> set (cat KindGit)" "baseURL y = baseURL x"
    by (auto simp: recoverySourceForURL_def Catalog_Sources_def Kind_Valid_def find_Some_iff)
  with assms(2) Some show ?thesis by simp
qed

text \<open>C34: a clone that \<open>Verify\<close> accepted for a source of the catalog, after \<open>bindAlphaRevision\<close> succeeded on
  it, is recognised by the recovery as exactly the revision that was verified. The binding is all
  that may differ between the two readings.\<close>

theorem verified_clone_recognised:
  assumes verified: "Verify api parse e0 (Inr s) e1 q = Inr r"
    and bound: "bindAlphaRevision parse (Some s) w (Some s') e2 r"
    and same: "s' = s\<lparr>binding := binding s'\<rparr>"
    and source: "vr_source q \<in> set (cat KindGit)"
      "\<forall>y \<in> set (cat KindGit). baseURL y = baseURL (vr_source q) \<longrightarrow> y = vr_source q"
  shows "repositoryIdentityFromSnapshot (Some cat) parse s' =
    Inr \<lparr>ri_version = gr_version r, ri_branch = gr_branch r, ri_commit = gr_commit r, ri_sourceKey = gr_sourceKey r\<rparr>"
proof -
  have valid: "GitTarget_validate (vr_target q)" "verify_snapshot api parse q s = Inr r"
    using verified by (auto elim: Verify_Inr)
  then obtain m version where s: "nonBare s" "remotes s = [m]" "rem_name m = ''origin''"
    "rem_fetchURLs m = [baseURL (vr_source q)]" "\<not> rem_mirror m" "headSymbolic s"
    "headTarget s = ''refs/heads/'' @ gt_branch (vr_target q)" "validCommit (headCommit s)"
    "List.member (shallow s) (headCommit s)" "tags s = []" "versionRegular s"
    "parse (versionPayload s) = Some version" "validVersion version"
    and dev: "gt_branch (vr_target q) = ''dev'' \<or> version = gt_version (vr_target q)"
    and r: "r = \<lparr>gr_version = gt_version (vr_target q), gr_branch = gt_branch (vr_target q),
          gr_commit = headCommit s, gr_sourceKey = key (vr_source q)\<rparr>"
    by (blast elim: verify_snapshot_Inr)
  let ?t = "vr_target q"
  have t: "validVersion (gt_version ?t)" "gt_branch ?t = ProductBranch (gt_version ?t)"
    using valid(1) by (simp_all add: GitTarget_validate_iff)
  have fields: "nonBare s' = nonBare s" "remotes s' = remotes s" "headSymbolic s' = headSymbolic s"
    "headTarget s' = headTarget s" "headCommit s' = headCommit s" "shallow s' = shallow s"
    "tags s' = tags s" "versionRegular s' = versionRegular s" "versionPayload s' = versionPayload s"
    by (subst same, simp)+
  have "snapshot_target s' version = Some ?t"
  proof (cases "gt_branch ?t = ''dev''")
    case True
    then have "case binding s' of None \<Rightarrow> False | Some b \<Rightarrow>
        ab_version b = gt_version ?t \<and> ab_commit b = headCommit s' \<and> ab_sourceVersion b = version"
      using bound s(12) by (auto simp: bindAlphaRevision_def r split: option.splits if_splits)
    with True s t fields show ?thesis
      by (cases ?t) (auto simp: snapshot_target_def ParseTarget_def split: option.splits)
  next
    case False
    then have "gt_branch ?t = ''release/'' @ gt_version ?t" using t(2) ProductBranch_cases by metis
    with False dev s(7) s(13) fields(4) show ?thesis
      by (cases ?t) (simp add: snapshot_target_def ParseTarget_def)
  qed
  then show ?thesis
    using s recoverySource_unique [where cat = cat, OF source]
    by (simp add: repositoryIdentityFromSnapshot_def Let_def fields r)
qed

section \<open>The version document is read to its end\<close>

text \<open>What the decoder is relied on for: a token inside an object uses up some of the input, and decoding
  a value gives none back. \<open>left\<close> is the number of bytes left.\<close>

definition decoder_consumes :: "'d version_decoder \<Rightarrow> ('d \<Rightarrow> nat) \<Rightarrow> bool" where
  "decoder_consumes api left \<longleftrightarrow>
     (\<forall>d t d'. vd_more api d \<longrightarrow> vd_token api d = (Some t, d') \<longrightarrow> left d' < left d) \<and>
     (\<forall>d v d'. vd_any api d = (Some v, d') \<longrightarrow> left d' \<le> left d) \<and>
     (\<forall>d d'. vd_raw api d = (True, d') \<longrightarrow> left d' \<le> left d)"

text \<open>From \<open>d\<close> the decoder reads the members \<open>ms\<close>, of which only the values of \<open>version\<close> are kept, and
  reaches the end of the object in \<open>e\<close>.\<close>

inductive reads_members ::
  "'d version_decoder \<Rightarrow> 'd \<Rightarrow> (string \<times> string option) list \<Rightarrow> 'd \<Rightarrow> bool" for api where
  object_end: "\<not> vd_more api d \<Longrightarrow> reads_members api d [] d"
| version_member: "vd_more api d \<Longrightarrow> vd_token api d = (Some (TStr ''version''), d1) \<Longrightarrow>
    vd_any api d1 = (Some v, d2) \<Longrightarrow> reads_members api d2 ms e \<Longrightarrow>
    reads_members api d ((''version'', v) # ms) e"
| other_member: "vd_more api d \<Longrightarrow> vd_token api d = (Some (TStr k), d1) \<Longrightarrow> k \<noteq> ''version'' \<Longrightarrow>
    vd_raw api d1 = (True, d2) \<Longrightarrow> reads_members api d2 ms e \<Longrightarrow> reads_members api d ((k, v) # ms) e"

definition versions_of :: "(string \<times> string option) list \<Rightarrow> string option list" where
  "versions_of ms = map snd (filter (\<lambda>m. fst m = ''version'') ms)"

definition single_version :: "string option list \<Rightarrow> string option" where
  "single_version vs = (case vs of [Some v] \<Rightarrow> Some v | _ \<Rightarrow> None)"

lemma versions_of_simps [simp]:
  "versions_of [] = []"
  "versions_of ((k, v) # ms) = (if k = ''version'' then v # versions_of ms else versions_of ms)"
  by (simp_all add: versions_of_def)

lemma members_read:
  assumes "reads_members api d ms e"
  shows "version_members api seen d = Some
    (case seen of
       Some v \<Rightarrow> if versions_of ms = [] then Some (Some v, e) else None
     | None \<Rightarrow> if versions_of ms = [] then Some (None, e)
               else map_option (\<lambda>v. (Some v, e)) (single_version (versions_of ms)))"
  using assms
proof (induction arbitrary: seen)
  case (object_end d)
  then show ?case by (subst version_members.simps) (simp split: option.split)
next
  case (version_member d d1 v d2 ms e)
  note IH = version_member.IH [of "Some w" for w]
  show ?case
    by (subst version_members.simps)
       (cases seen; cases v; cases "versions_of ms";
        simp add: version_member.hyps IH single_version_def)
next
  case (other_member d k d1 d2 ms e v)
  show ?case
    by (subst version_members.simps) (cases seen; simp add: other_member.hyps other_member.IH)
qed

lemma members_return:
  assumes "decoder_consumes api left"
  shows "\<exists>r. version_members api seen d = Some r"
proof (induction "left d" arbitrary: d seen rule: less_induct)
  case less
  have value_step: "left d2 < left d"
    if "vd_more api d" "vd_token api d = (Some t, d1)" "vd_any api d1 = (Some v, d2) \<or> vd_raw api d1 = (True, d2)"
    for t v d1 d2
  proof -
    have "left d1 < left d" using that(1,2) assms by (auto simp: decoder_consumes_def)
    moreover have "left d2 \<le> left d1" using that(3) assms by (auto simp: decoder_consumes_def)
    ultimately show ?thesis by simp
  qed
  show ?case
    by (subst version_members.simps)
       (auto split: option.splits prod.splits json_token.splits dest: value_step intro: less)
qed

text \<open>reading the version document always ends when the decoder makes progress, and an object is
  accepted exactly when it has one member \<open>version\<close> whose value is a string, which is the result.\<close>

theorem version_document_read:
  assumes "decoder_consumes api left"
  shows "(\<exists>r. parseRepositoryVersion api payload = Some r) \<and>
    (payload \<noteq> '''' \<and> length payload \<le> maxRepositoryVersionBytes \<and> utf8_valid payload \<and>
     vd_token api (vd_start api payload) = (Some (TDelim OBRACE), d) \<and> reads_members api d ms e \<and>
     vd_token api e = (Some (TDelim CBRACE), f) \<and> vd_eof api f \<longrightarrow>
     parseRepositoryVersion api payload = Some (single_version (versions_of ms)))"
proof (rule conjI)
  show "\<exists>r. parseRepositoryVersion api payload = Some r"
    using members_return [OF assms]
    by (auto simp: parseRepositoryVersion_def split: option.splits prod.splits json_token.splits) (metis option.distinct(1))
qed (auto simp: parseRepositoryVersion_def members_read single_version_def split: option.splits list.splits)

section \<open>Examples\<close>

definition example_decoder :: "json_token list version_decoder" where
  "example_decoder =
     \<lparr>vd_start = (\<lambda>_. [TDelim OBRACE, TStr ''name'', TNull, TStr ''version'', TStr ''v1.2.3'', TDelim CBRACE]),
      vd_token = (\<lambda>d. case d of [] \<Rightarrow> (None, []) | t # ts \<Rightarrow> (Some t, ts)),
      vd_more = (\<lambda>d. d \<noteq> [] \<and> hd d \<noteq> TDelim CBRACE),
      vd_any = (\<lambda>d. case d of [] \<Rightarrow> (None, []) | t # ts \<Rightarrow> (Some (case t of TStr s \<Rightarrow> Some s | _ \<Rightarrow> None), ts)),
      vd_raw = (\<lambda>d. (d \<noteq> [], tl d)),
      vd_eof = (\<lambda>d. d = [])\<rparr>"

lemma example_decoder_consumes: "decoder_consumes example_decoder length"
  by (auto simp: decoder_consumes_def example_decoder_def split: list.splits)

theorem version_document_read_witness: "\<exists>r. parseRepositoryVersion example_decoder ''{}'' = Some r"
  using version_document_read [OF example_decoder_consumes] by blast

definition example_commit :: string where
  "example_commit = replicate 40 (CHR ''a'')"

definition example_version :: string where
  "example_version = ''v1.2.3''"

definition example_snapshot :: repositorySnapshot where
  "example_snapshot = \<lparr>nonBare = True,
     remotes = [\<lparr>rem_name = ''origin'', rem_fetchURLs = [''https://mirror''], rem_mirror = False\<rparr>],
     headSymbolic = True, headTarget = ''refs/heads/release/v1.2.3'', headCommit = example_commit,
     shallow = [example_commit], tags = [], versionRegular = True, versionPayload = ''{}'', binding = None\<rparr>"

definition example_identity :: repositoryIdentity where
  "example_identity = \<lparr>ri_version = example_version, ri_branch = ''release/v1.2.3'', ri_commit = example_commit,
     ri_sourceKey = ''mirror''\<rparr>"

lemma example_recognised:
  "repositoryIdentityFromSnapshot (Some example_catalog) (\<lambda>_. Some example_version) example_snapshot =
   Inr example_identity"
  by code_simp

definition example_request :: VerificationRequest where
  "example_request = \<lparr>vr_hasPath = True, vr_target = \<lparr>gt_version = example_version, gt_branch = ''release/v1.2.3''\<rparr>,
     vr_source = example_source KindGit ''mirror'' False, vr_allowed = example_catalog KindGit\<rparr>"

theorem recognised_repository_recordable_witness:
  "\<exists>env. NewBrokenEnvironment example_paths (Some ''/logs'') 63900000000 \<lparr>rev_version = '''', rev_commit = ''''\<rparr>
     (changed_environment (ri_version example_identity) (ri_branch example_identity) (ri_commit example_identity)
       ''/logs/op.log'') = Inr env"
proof -
  have "\<forall>x \<in> set (example_catalog KindGit). validSourceKey (key x)" by code_simp
  moreover have "sampleTime ''updatedAt'' 63900000000 = Inr \<lparr>instant = 63900000000, zone_offset = 0\<rparr>"
    by (simp add: sampleTime_def validateTimestamp_def marshal_time_ok_def)
  moreover have "validateRevision \<lparr>rev_version = '''', rev_commit = ''''\<rparr> = None" by code_simp
  ultimately show ?thesis
    using recognised_repository_recordable [OF example_recognised _ example_log_path] by blast
qed

lemma example_verified:
  "Verify letters_api (\<lambda>_. Some example_version) False (Inr example_snapshot) False example_request =
   Inr \<lparr>gr_version = example_version, gr_branch = ''release/v1.2.3'', gr_commit = example_commit,
        gr_sourceKey = ''mirror''\<rparr>"
  by code_simp

theorem verified_clone_recognised_witness:
  "ri_sourceKey example_identity = ''mirror'' \<and>
   repositoryIdentityFromSnapshot (Some example_catalog) (\<lambda>_. Some example_version) example_snapshot =
     Inr \<lparr>ri_version = example_version, ri_branch = ''release/v1.2.3'', ri_commit = example_commit,
          ri_sourceKey = ''mirror''\<rparr>"
proof -
  have bound: "bindAlphaRevision (\<lambda>_. Some example_version) (Some example_snapshot) True (Some example_snapshot) False
    \<lparr>gr_version = example_version, gr_branch = ''release/v1.2.3'', gr_commit = example_commit,
        gr_sourceKey = ''mirror''\<rparr>"
    by (simp add: bindAlphaRevision_def)
  have same: "example_snapshot = example_snapshot\<lparr>binding := binding example_snapshot\<rparr>" by simp
  have "vr_source example_request \<in> set (example_catalog KindGit)"
    "\<forall>y \<in> set (example_catalog KindGit). baseURL y = baseURL (vr_source example_request) \<longrightarrow>
       y = vr_source example_request"
    by code_simp+
  from verified_clone_recognised [where cat = example_catalog, OF example_verified bound same this]
  show ?thesis by (simp add: example_identity_def)
qed

end
