(* ===== verification/Git_Swap.thy ===== *)
theory Git_Swap
  imports Git_Repository
begin

text \<open>
  \<open>internal/gitrepo/swap.go\<close>: the replacement of the managed repository by a verified clone in two
  renames under the update transaction. The outside world is the type \<open>'w\<close>: the record \<open>git_ops\<close> has
  the directory operations of \<open>internal/filesystem\<close>, the transaction and environment files of the
  store, the context and the stage reporter. A directory identity is a number. A nil context, swapper
  or dependency, which the code answers with an internal error, does not occur here.
\<close>

section \<open>The world of the swap and the recovery\<close>

type_synonym path = string

abbreviation "RenameRepositoryToRetired \<equiv> ''repository_to_retired''"
abbreviation "RenameUpdateToRepository \<equiv> ''update_to_repository''"
abbreviation "RenameRepositoryRollback \<equiv> ''repository_rollback''"
abbreviation "DeleteRepositoryUpdate \<equiv> ''repository_update''"
abbreviation "DeleteRepositoryRetired \<equiv> ''repository_retired''"

record RenameRequest =
  rr_kind :: string
  rr_source :: path
  rr_destination :: path
  rr_operationId :: string
  rr_expected :: "nat option"

record DeleteRequest =
  dr_kind :: string
  dr_target :: path
  dr_operationId :: string
  dr_expected :: "nat option"

record DeleteResult =
  removed :: bool
  partial :: bool
  auditCompleted :: bool

text \<open>\<open>go_ended\<close> is \<open>ctx.Err()\<close> of the caller's context, \<open>go_cleanup_ended\<close> that of the context with a
  timeout of its own that the steps after a commit use. \<open>go_inspect\<close> is \<open>InspectManagedDirectory\<close>: \<open>Inr None\<close> when there is no directory, \<open>Inr (Some i)\<close> for a
  directory with the identity \<open>i\<close>, which may be missing. \<open>go_pin\<close> is \<open>PinManagedDirectory\<close> with the identity
  of its lease, \<open>go_close\<close> the closing of that lease. \<open>go_read\<close> is \<open>repositoryReader.Inspect\<close>. \<open>go_write_mutation\<close> is
  \<open>advanceMutation\<close>; \<open>go_announce\<close> is the transition of the lifecycle machine with the state event that tells it.\<close>

record 'w git_ops =
  go_ended :: "'w \<Rightarrow> bool"
  go_cleanup_ended :: "'w \<Rightarrow> bool"
  go_report :: "'w \<Rightarrow> Stage \<Rightarrow> 'w"
  go_inspect :: "'w \<Rightarrow> path \<Rightarrow> Cause + nat option option"
  go_pin :: "'w \<Rightarrow> path \<Rightarrow> Cause + nat option"
  go_close :: "'w \<Rightarrow> path \<Rightarrow> Cause option"
  go_read :: "'w \<Rightarrow> path \<Rightarrow> Cause + repositorySnapshot"
  go_rename :: "'w \<Rightarrow> RenameRequest \<Rightarrow> (bool \<times> Cause option) \<times> 'w"
  go_remove :: "'w \<Rightarrow> DeleteRequest \<Rightarrow> (DeleteResult \<times> Cause option) \<times> 'w"
  go_write_tx :: "'w \<Rightarrow> TransactionState \<Rightarrow> Cause option \<times> 'w"
  go_read_tx :: "'w \<Rightarrow> Cause + TransactionState"
  go_remove_tx :: "'w \<Rightarrow> TransactionState \<Rightarrow> Cause option \<times> 'w"
  go_read_env :: "'w \<Rightarrow> Cause + EnvironmentState"
  go_new_broken :: "'w \<Rightarrow> State_Environment.Revision \<Rightarrow> BrokenEnvironment \<Rightarrow> Cause + EnvironmentState"
  go_write_env :: "'w \<Rightarrow> EnvironmentState \<Rightarrow> Cause option \<times> 'w"
  go_write_mutation :: "'w \<Rightarrow> Stage \<Rightarrow> Cause option \<times> 'w"
  go_announce :: "'w \<Rightarrow> GitError option option \<times> 'w"

text \<open>The paths of the layout; \<open>None\<close> is an error of \<open>RepoUpdateDir\<close> or \<open>RepoPreviousDir\<close>.\<close>

record git_layout =
  RepoDir :: path
  RepoUpdateDir :: "string \<Rightarrow> path option"
  RepoPreviousDir :: "string \<Rightarrow> path option"

section \<open>Errors of the swap\<close>

definition swapFailureError :: "Stage \<Rightarrow> GitError" where
  "swapFailureError s = newError CodeGitRepoSwapFailed s None"

definition swapInternalError :: GitError where
  "swapInternalError = newError CodeInternalError StageWorkspaceSwap None"

definition swapCancelledError :: GitError where
  "swapCancelledError = newError CodeOperationCancelled StageWorkspaceSwap None"

definition swapAmbiguous :: "string \<Rightarrow> GitError" where
  "swapAmbiguous reason = newError CodeUpdateStateAmbiguous StageWorkspaceSwap (Some reason)"

definition mapRenameFailure :: "bool \<Rightarrow> Cause \<Rightarrow> bool \<Rightarrow> bool \<Rightarrow> GitError" where
  "mapRenameFailure ended c applied committed =
     (if committed then newCommittedError CodeGitRepoSwapFailed StageWorkspaceSwap None
      else if applied then
        (if isAmbiguousFilesystemError c then swapAmbiguous ''directory_identity_changed''
         else swapFailureError StageWorkspaceSwap)
      else if isCancellation ended c then newError CodeOperationCancelled StageWorkspaceSwap None
      else if isAmbiguousFilesystemError c then swapAmbiguous ''directory_identity_changed''
      else if c_code c = Some CodeDirectoryOccupied \<or> c_destinationExists c
        then newError CodeDirectoryOccupied StageWorkspaceSwap None
      else swapFailureError StageWorkspaceSwap)"

definition mapTransactionWriteFailure :: "bool \<Rightarrow> Stage \<Rightarrow> Cause \<Rightarrow> GitError" where
  "mapTransactionWriteFailure ended s c =
     (if \<not> c_writeError c \<and> isCancellation ended c then newError CodeOperationCancelled s None
      else newError CodeStateWriteFailed s None)"

definition mapCommittedTransactionWriteFailure :: "Stage \<Rightarrow> GitError" where
  "mapCommittedTransactionWriteFailure s = newCommittedError CodeStateWriteFailed s None"

definition mapCommittedCleanupFailure :: GitError where
  "mapCommittedCleanupFailure = newCommittedError CodeGitRepoCleanupFailed StageWorkspaceCleanup None"

text \<open>The error of the callback, as far as \<open>errors.As\<close> finds an \<open>*Error\<close> in it.\<close>

definition mapCommittedEnvironmentFailure :: "GitError option \<Rightarrow> GitError" where
  "mapCommittedEnvironmentFailure cause =
     (case cause of
        Some e \<Rightarrow> newCommittedError (ge_code e) (ge_stage e) (ge_reason e)
      | None \<Rightarrow> newCommittedError CodeStateWriteFailed StageWorkspaceSwap None)"

section \<open>The swap\<close>

record SwapRequest =
  sw_transaction :: TransactionState
  sw_revision :: GitRevision
  sw_activeIdentity :: "nat option"
  sw_updateIdentity :: "nat option"

record SwapResult =
  sr_revision :: "GitRevision option"
  sr_mutationApplied :: bool
  sr_repositoryActivated :: bool
  sr_cleanupCompleted :: bool

type_synonym 'w commit_env = "'w \<Rightarrow> GitRevision \<Rightarrow> GitError option option \<times> 'w"

type_synonym 'w swap_outcome = "(SwapResult \<times> GitError option) \<times> 'w"

definition no_swap :: SwapResult where
  "no_swap = \<lparr>sr_revision = None, sr_mutationApplied = False, sr_repositoryActivated = False,
     sr_cleanupCompleted = False\<rparr>"

text \<open>Whether the request is accepted. The callback is an option, \<open>None\<close> for nil.\<close>

definition validateSwapRequest :: "'w commit_env option \<Rightarrow> SwapRequest \<Rightarrow> bool" where
  "validateSwapRequest commitEnv q =
     (if ValidateTransaction True TransactionUpdate (sw_transaction q) \<noteq> None then False
      else \<not> (tx_stage (sw_transaction q) \<noteq> StageWorkspaceVerify \<or> \<not> GitRevision_validate (sw_revision q) \<or>
              targetVersion (sw_transaction q) \<noteq> gr_version (sw_revision q) \<or> commitEnv = None))"

text \<open>After both renames: the transaction moves to the cleanup stage, the callback records the change, the
  old repository is removed. The context of these steps is not the caller's.\<close>

definition swap_commit ::
  "'w git_ops \<Rightarrow> 'w commit_env \<Rightarrow> path \<Rightarrow> SwapRequest \<Rightarrow> bool \<Rightarrow> SwapResult \<Rightarrow> 'w \<Rightarrow> 'w swap_outcome" where
  "swap_commit ops commitEnv previousPath q repositoryExists result w0 =
     (let w1 = go_report ops w0 StageWorkspaceCleanup;
          (txErr, w2) = go_write_tx ops w1 ((sw_transaction q)\<lparr>tx_stage := StageWorkspaceCleanup\<rparr>) in
      if txErr \<noteq> None then ((result, Some (mapCommittedTransactionWriteFailure StageWorkspaceCleanup)), w2)
      else let (envErr, w3) = commitEnv w2 (sw_revision q) in
        case envErr of
          Some e \<Rightarrow> ((result, Some (mapCommittedEnvironmentFailure e)), w3)
        | None \<Rightarrow>
            let w4 = go_report ops w3 StageWorkspaceCleanup in
            if repositoryExists then
              (let ((deleted, err), w5) = go_remove ops w4
                     \<lparr>dr_kind = DeleteRepositoryRetired, dr_target = previousPath,
                      dr_operationId = operationId (sw_transaction q), dr_expected = sw_activeIdentity q\<rparr> in
               if err \<noteq> None \<or> partial deleted \<or> \<not> auditCompleted deleted
               then ((result, Some mapCommittedCleanupFailure), w5)
               else ((result\<lparr>sr_cleanupCompleted := True\<rparr>, None), w5))
            else ((result\<lparr>sr_cleanupCompleted := True\<rparr>, None), w4))"

text \<open>The rename of the update onto the place of the repository.\<close>

definition swap_activate ::
  "git_layout \<Rightarrow> 'w git_ops \<Rightarrow> 'w commit_env \<Rightarrow> path \<Rightarrow> path \<Rightarrow> SwapRequest \<Rightarrow> bool \<Rightarrow> SwapResult \<Rightarrow> 'w \<Rightarrow>
   'w swap_outcome" where
  "swap_activate layout ops commitEnv previousPath updatePath q repositoryExists result w0 =
     (let ((applied, err), w1) = go_rename ops w0
            \<lparr>rr_kind = RenameUpdateToRepository, rr_source = updatePath, rr_destination = RepoDir layout,
             rr_operationId = operationId (sw_transaction q), rr_expected = sw_updateIdentity q\<rparr>;
          result1 = result\<lparr>sr_mutationApplied := sr_mutationApplied result \<or> applied,
                           sr_repositoryActivated := applied\<rparr> in
      case err of
        Some c \<Rightarrow> ((result1, Some (mapRenameFailure (go_ended ops w1) c applied applied)), w1)
      | None \<Rightarrow>
          if \<not> applied then ((result1, Some (swapFailureError StageWorkspaceSwap)), w1)
          else swap_commit ops commitEnv previousPath q repositoryExists result1 w1)"

text \<open>The checks of the two places and the rename of the old repository, if there is one.\<close>

definition swap_retire ::
  "git_layout \<Rightarrow> 'w git_ops \<Rightarrow> 'w commit_env \<Rightarrow> path \<Rightarrow> path \<Rightarrow> SwapRequest \<Rightarrow> SwapResult \<Rightarrow> 'w \<Rightarrow>
   'w swap_outcome" where
  "swap_retire layout ops commitEnv previousPath updatePath q result w =
     (case go_inspect ops w previousPath of
        Inl c \<Rightarrow> ((result, Some (if isCancellation (go_ended ops w) c then swapCancelledError
                                 else swapAmbiguous ''previous_unreadable'')), w)
      | Inr (Some _) \<Rightarrow> ((result, Some (swapAmbiguous ''previous_exists'')), w)
      | Inr None \<Rightarrow>
          (case go_inspect ops w (RepoDir layout) of
             Inl c \<Rightarrow>
               ((result, Some (if isCancellation (go_ended ops w) c then swapCancelledError
                               else if isAmbiguousFilesystemError c
                                 then swapAmbiguous ''repository_identity_unavailable''
                               else swapFailureError StageWorkspaceSwap)), w)
           | Inr None \<Rightarrow> swap_activate layout ops commitEnv previousPath updatePath q False result w
           | Inr (Some identity) \<Rightarrow>
               if identity = None \<or> sw_activeIdentity q = None
               then ((result, Some (swapAmbiguous ''repository_identity_unavailable'')), w)
               else let ((applied, err), w1) = go_rename ops w
                          \<lparr>rr_kind = RenameRepositoryToRetired, rr_source = RepoDir layout,
                           rr_destination = previousPath, rr_operationId = operationId (sw_transaction q),
                           rr_expected = sw_activeIdentity q\<rparr>;
                        result1 = result\<lparr>sr_mutationApplied := applied\<rparr> in
                 case err of
                   Some c \<Rightarrow> ((result1, Some (mapRenameFailure (go_ended ops w1) c applied False)), w1)
                 | None \<Rightarrow>
                     if \<not> applied then ((result1, Some (swapFailureError StageWorkspaceSwap)), w1)
                     else swap_activate layout ops commitEnv previousPath updatePath q True result1 w1))"

definition Swap ::
  "git_layout \<Rightarrow> 'w git_ops \<Rightarrow> 'w commit_env option \<Rightarrow> 'w \<Rightarrow> SwapRequest \<Rightarrow> 'w swap_outcome" where
  "Swap layout ops commitEnv w q =
     (if \<not> validateSwapRequest commitEnv q then ((no_swap, Some swapInternalError), w)
      else let w1 = go_report ops w StageWorkspaceSwap in
        if go_ended ops w1 then ((no_swap, Some swapCancelledError), w1)
        else if sw_updateIdentity q = None
          then ((no_swap, Some (swapAmbiguous ''directory_identity_unavailable'')), w1)
        else case (RepoPreviousDir layout (operationId (sw_transaction q)),
                   RepoUpdateDir layout (operationId (sw_transaction q))) of
          (Some previousPath, Some updatePath) \<Rightarrow>
            (let result = no_swap\<lparr>sr_revision := Some (sw_revision q)\<rparr>;
                 (txErr, w2) = go_write_tx ops w1 ((sw_transaction q)\<lparr>tx_stage := StageWorkspaceSwap\<rparr>) in
             case txErr of
               Some c \<Rightarrow> ((result, Some (mapTransactionWriteFailure (go_ended ops w2) StageWorkspaceSwap c)), w2)
             | None \<Rightarrow> swap_retire layout ops (the commitEnv) previousPath updatePath q result w2)
        | _ \<Rightarrow> ((no_swap, Some swapInternalError), w1))"

section \<open>The callback of the service\<close>

text \<open>The closure \<open>CommitEnvironment\<close> of \<open>Service.Sync\<close>; \<open>lastSuccessful\<close> is that of the environment it read.\<close>

definition commit_environment ::
  "'w git_ops \<Rightarrow> State_Environment.Revision \<Rightarrow> string \<Rightarrow> 'w commit_env" where
  "commit_environment ops lastSuccessful log w0 revision =
     (let (err, w1) = go_write_mutation ops (go_report ops w0 StageWorkspaceCleanup) StageWorkspaceCleanup in
      if err \<noteq> None then (Some (Some (newCommittedError CodeStateWriteFailed StageWorkspaceCleanup None)), w1)
      else let w2 = go_report ops w1 StageWorkspaceSwap in
        case go_new_broken ops w2 lastSuccessful
               (changed_environment (gr_version revision) (gr_branch revision) (gr_commit revision) log) of
          Inl _ \<Rightarrow> (Some (Some (newCommittedError CodeStateWriteFailed StageWorkspaceSwap None)), w2)
        | Inr env \<Rightarrow>
            (let (err, w3) = go_write_env ops w2 env in
             if err \<noteq> None then (Some (Some (newCommittedError CodeStateWriteFailed StageWorkspaceSwap None)), w3)
             else let (announced, w4) = go_announce ops w3 in
               (map_option (\<lambda>e. Some (case e of
                    Some g \<Rightarrow> newCommittedError (ge_code g) (ge_stage g) (ge_reason g)
                  | None \<Rightarrow> newCommittedError CodeInternalError StageWorkspaceSwap None)) announced, w4)))"

end
