(* ===== verification/Git_Recovery.thy ===== *)
theory Git_Recovery
  imports Git_Swap
begin

text \<open>
  \<open>internal/gitrepo/recovery.go\<close>: what the next start of the program does with an interrupted update. It
  reads the update transaction, classifies the three directories by the identity of the repositories
  in them, and completes the update, rolls it back or refuses to touch anything. An error that
  joins two errors of the package is the first of them, as \<open>errors.As\<close> finds it.
\<close>

section \<open>Paths and their classification\<close>

datatype recoveryPathKind = recoveryPathMissing | recoveryPathIncomplete | recoveryPathValid

record recoveryPath =
  rp_kind :: recoveryPathKind
  rp_identity :: repositoryIdentity
  rp_directory :: "nat option"

record recoveryPathPolicy =
  allowUnreadable :: bool
  allowInvalidIdentity :: bool

record RecoveryRequest =
  discardStaged :: bool
  logPath :: string

record RecoveryResult =
  recovered :: bool
  rec_mutationApplied :: bool
  environmentWritten :: bool
  transactionRemoved :: bool
  rec_identity :: repositoryIdentity

definition no_identity :: repositoryIdentity where
  "no_identity = \<lparr>ri_version = '''', ri_branch = '''', ri_commit = '''', ri_sourceKey = ''''\<rparr>"

definition no_recovery :: RecoveryResult where
  "no_recovery = \<lparr>recovered = False, rec_mutationApplied = False, environmentWritten = False,
     transactionRemoved = False, rec_identity = no_identity\<rparr>"

definition recoveryResultWithIdentity :: "repositoryIdentity \<Rightarrow> bool \<Rightarrow> RecoveryResult" where
  "recoveryResultWithIdentity i applied =
     no_recovery\<lparr>rec_mutationApplied := applied, rec_identity := i\<rparr>"

definition path_exists :: "recoveryPath \<Rightarrow> bool" where
  "path_exists p \<longleftrightarrow> rp_kind p \<noteq> recoveryPathMissing"

definition path_isTarget :: "recoveryPath \<Rightarrow> string \<Rightarrow> bool" where
  "path_isTarget p v \<longleftrightarrow> rp_kind p = recoveryPathValid \<and> ri_version (rp_identity p) = v"

text \<open>The causes made here: \<open>errRecoveryIdentityUnknown\<close> and the like have nothing that is asked for.\<close>

definition plain_cause :: Cause where
  "plain_cause = \<lparr>c_cancelled = False, c_notFound = False, c_permission = False, c_identityChanged = False,
     c_caseSensitivity = False, c_destinationExists = False, c_code = None, c_writeError = False\<rparr>"

definition cause_join :: "Cause \<Rightarrow> Cause option \<Rightarrow> Cause" where
  "cause_join c d =
     (case d of
        None \<Rightarrow> c
      | Some e \<Rightarrow>
          \<lparr>c_cancelled = c_cancelled c \<or> c_cancelled e, c_notFound = c_notFound c \<or> c_notFound e,
           c_permission = c_permission c \<or> c_permission e,
           c_identityChanged = c_identityChanged c \<or> c_identityChanged e,
           c_caseSensitivity = c_caseSensitivity c \<or> c_caseSensitivity e,
           c_destinationExists = c_destinationExists c \<or> c_destinationExists e,
           c_code = (case c_code c of None \<Rightarrow> c_code e | Some k \<Rightarrow> Some k),
           c_writeError = c_writeError c \<or> c_writeError e\<rparr>)"

definition classifyPath ::
  "(repositorySnapshot \<Rightarrow> unit + repositoryIdentity) \<Rightarrow> 'w git_ops \<Rightarrow> 'w \<Rightarrow> path \<Rightarrow> recoveryPathPolicy \<Rightarrow>
   Cause + recoveryPath" where
  "classifyPath identityOf ops w p policy =
     (if go_ended ops w then Inl (plain_cause\<lparr>c_cancelled := True\<rparr>)
      else case go_inspect ops w p of
        Inl c \<Rightarrow> Inl c
      | Inr None \<Rightarrow> Inr \<lparr>rp_kind = recoveryPathMissing, rp_identity = no_identity, rp_directory = None\<rparr>
      | Inr (Some None) \<Rightarrow> Inl plain_cause
      | Inr (Some (Some inspected)) \<Rightarrow>
          (case go_pin ops w p of
             Inl c \<Rightarrow> Inl c
           | Inr None \<Rightarrow> Inl (cause_join plain_cause (go_close ops w p))
           | Inr (Some pinned) \<Rightarrow>
               if inspected \<noteq> pinned
               then Inl (cause_join (plain_cause\<lparr>c_identityChanged := True\<rparr>) (go_close ops w p))
               else case (go_read ops w p, go_close ops w p) of
                 (Inl c, Some e) \<Rightarrow> Inl (cause_join c (Some e))
               | (Inr s, Some e) \<Rightarrow> Inl e
               | (Inl c, None) \<Rightarrow>
                   if allowUnreadable policy \<and> \<not> isCancellation (go_ended ops w) c \<and> \<not> c_permission c
                   then Inr \<lparr>rp_kind = recoveryPathIncomplete, rp_identity = no_identity,
                             rp_directory = Some pinned\<rparr>
                   else Inl c
               | (Inr s, None) \<Rightarrow>
                   (case identityOf s of
                      Inl _ \<Rightarrow>
                        if allowInvalidIdentity policy
                        then Inr \<lparr>rp_kind = recoveryPathIncomplete, rp_identity = no_identity,
                                  rp_directory = Some pinned\<rparr>
                        else Inl plain_cause
                    | Inr i \<Rightarrow> Inr \<lparr>rp_kind = recoveryPathValid, rp_identity = i, rp_directory = Some pinned\<rparr>)))"

section \<open>Errors of the recovery\<close>

definition recoveryAmbiguousErrorWithCommitted :: "Stage \<Rightarrow> string \<Rightarrow> bool \<Rightarrow> GitError" where
  "recoveryAmbiguousErrorWithCommitted s reason committed =
     (if committed then newCommittedError else newError) CodeUpdateStateAmbiguous s (Some reason)"

definition recoveryAmbiguousError :: "Stage \<Rightarrow> string \<Rightarrow> GitError" where
  "recoveryAmbiguousError s reason = recoveryAmbiguousErrorWithCommitted s reason False"

definition recoveryCancelledError :: "Stage \<Rightarrow> GitError" where
  "recoveryCancelledError s = newError CodeOperationCancelled s None"

definition recoveryInternalError :: GitError where
  "recoveryInternalError = newError CodeInternalError StageWorkspaceCleanup None"

definition classificationError :: "bool \<Rightarrow> Stage \<Rightarrow> string \<Rightarrow> Cause \<Rightarrow> GitError" where
  "classificationError ended s reason c =
     (if isCancellation ended c then recoveryCancelledError s else recoveryAmbiguousError s reason)"

section \<open>The steps\<close>

type_synonym 'w recovery_outcome = "(RecoveryResult \<times> GitError option) \<times> 'w"

definition finishRecovery ::
  "'w git_ops \<Rightarrow> TransactionState \<Rightarrow> RecoveryResult \<Rightarrow> bool \<Rightarrow> 'w \<Rightarrow> 'w recovery_outcome" where
  "finishRecovery ops tx result committed w0 =
     (let (err, w) = go_remove_tx ops (go_report ops w0 StageWorkspaceCleanup) tx in
      case err of
        Some c \<Rightarrow>
          ((result, Some (if committed then mapCommittedTransactionWriteFailure StageWorkspaceCleanup
                          else mapTransactionWriteFailure (go_ended ops w) StageWorkspaceCleanup c)), w)
      | None \<Rightarrow> ((result\<lparr>recovered := True, transactionRemoved := True\<rparr>, None), w))"

definition removeRecoveryTree ::
  "'w git_ops \<Rightarrow> string \<Rightarrow> path \<Rightarrow> string \<Rightarrow> nat option \<Rightarrow> RecoveryResult \<Rightarrow> bool \<Rightarrow> 'w \<Rightarrow> 'w recovery_outcome" where
  "removeRecoveryTree ops k target opId expected result committed w0 =
     (let ((deleted, err), w) = go_remove ops (go_report ops w0 StageWorkspaceCleanup)
            \<lparr>dr_kind = k, dr_target = target, dr_operationId = opId, dr_expected = expected\<rparr>;
          result1 = result\<lparr>rec_mutationApplied :=
                      rec_mutationApplied result \<or> removed deleted \<or> partial deleted\<rparr> in
      case err of
        Some c \<Rightarrow>
          ((result1, Some (if committed then mapCommittedCleanupFailure
                           else if isAmbiguousFilesystemError c
                             then recoveryAmbiguousError StageWorkspaceCleanup ''directory_identity_changed''
                           else if isCancellation (go_ended ops w) c
                             then recoveryCancelledError StageWorkspaceCleanup
                           else newError CodeGitRepoCleanupFailed StageWorkspaceCleanup None)), w)
      | None \<Rightarrow>
          if partial deleted \<or> \<not> auditCompleted deleted
          then ((result1, Some (if committed then mapCommittedCleanupFailure
                                else newError CodeGitRepoCleanupFailed StageWorkspaceCleanup None)), w)
          else ((result1, None), w))"

definition renameRecoveryRepository ::
  "'w git_ops \<Rightarrow> string \<Rightarrow> path \<Rightarrow> path \<Rightarrow> string \<Rightarrow> nat option \<Rightarrow> RecoveryResult \<Rightarrow> 'w \<Rightarrow> 'w recovery_outcome" where
  "renameRecoveryRepository ops k source destination opId expected result w0 =
     (let ((applied, err), w) = go_rename ops (go_report ops w0 StageWorkspaceSwap)
            \<lparr>rr_kind = k, rr_source = source, rr_destination = destination, rr_operationId = opId,
             rr_expected = expected\<rparr>;
          result1 = result\<lparr>rec_mutationApplied := rec_mutationApplied result \<or> applied\<rparr> in
      case err of
        Some c \<Rightarrow>
          ((result1, Some (if isAmbiguousFilesystemError c \<and> \<not> applied
                           then recoveryAmbiguousError StageWorkspaceSwap ''directory_identity_changed''
                           else mapRenameFailure (go_ended ops w) c applied
                                  (k = RenameUpdateToRepository \<and> applied))), w)
      | None \<Rightarrow>
          if \<not> applied then ((result1, Some (swapFailureError StageWorkspaceSwap)), w)
          else ((result1, None), w))"

text \<open>Whether the environment already says that the repository changed to this revision.\<close>

definition already_recorded :: "EnvironmentState \<Rightarrow> repositoryIdentity \<Rightarrow> bool" where
  "already_recorded env i \<longleftrightarrow>
     env_status env = StateEnvironmentBroken \<and>
     (case env_broken env of
        None \<Rightarrow> False
      | Some b \<Rightarrow> be_reason b = ReasonRepositoryChanged \<and> be_targetVersion b = ri_version i \<and>
                 be_branch b = ri_branch i \<and> be_commit b = ri_commit i)"

text \<open>The plan is the environment to write, or \<open>None\<close> when there is nothing to write.\<close>

definition prepareEnvironment ::
  "'w git_ops \<Rightarrow> RecoveryRequest \<Rightarrow> repositoryIdentity \<Rightarrow> bool \<Rightarrow> 'w \<Rightarrow>
   (GitError + EnvironmentState option) \<times> 'w" where
  "prepareEnvironment ops q i committed w0 =
     (let w = go_report ops w0 StageWorkspaceSwap;
          ended = (if committed then go_cleanup_ended ops w else go_ended ops w);
          write = (\<lambda>lastSuccessful.
            if logPath q = '''' then
              Inl (if committed then newCommittedError CodeInternalError StageWorkspaceSwap None
                   else recoveryInternalError)
            else case go_new_broken ops w lastSuccessful
                   (changed_environment (ri_version i) (ri_branch i) (ri_commit i) (logPath q)) of
              Inl _ \<Rightarrow> Inl ((if committed then newCommittedError else newError)
                              CodeStateWriteFailed StageWorkspaceSwap None)
            | Inr env \<Rightarrow> Inr (Some env)) in
      case go_read_env ops w of
        Inl c \<Rightarrow>
          if c_notFound c then (write \<lparr>rev_version = '''', rev_commit = ''''\<rparr>, w)
          else if isCancellation ended c then
            (Inl (if committed then newCommittedError CodeStateWriteFailed StageWorkspaceSwap None
                  else recoveryCancelledError StageWorkspaceSwap), w)
          else (Inl (recoveryAmbiguousErrorWithCommitted StageWorkspaceSwap ''environment_unreadable'' committed), w)
      | Inr env \<Rightarrow>
          if already_recorded env i then (Inr None, w) else (write (env_lastSuccessful env), w))"

definition applyEnvironment ::
  "'w git_ops \<Rightarrow> EnvironmentState option \<Rightarrow> RecoveryResult \<Rightarrow> 'w \<Rightarrow> 'w recovery_outcome" where
  "applyEnvironment ops plan result w0 =
     (case plan of
        None \<Rightarrow> ((result, None), w0)
      | Some env \<Rightarrow>
          (let (err, w) = go_write_env ops (go_report ops w0 StageWorkspaceSwap) env in
           if err \<noteq> None then ((result, Some (mapCommittedTransactionWriteFailure StageWorkspaceSwap)), w)
           else ((result\<lparr>environmentWritten := True\<rparr>, None), w)))"

text \<open>The early return of a step that failed.\<close>

definition and_then ::
  "'w recovery_outcome \<Rightarrow> (RecoveryResult \<Rightarrow> 'w \<Rightarrow> 'w recovery_outcome) \<Rightarrow> 'w recovery_outcome" where
  "and_then m f = (case m of ((result, Some e), w) \<Rightarrow> ((result, Some e), w) | ((result, None), w) \<Rightarrow> f result w)"

lemma and_then_simps [simp]:
  "and_then ((r, Some e), w) f = ((r, Some e), w)"
  "and_then ((r, None), w) f = f r w"
  by (simp_all add: and_then_def)

section \<open>Recover\<close>

text \<open>The loop of \<open>hasMultipleTargetRevisions\<close>; \<open>first\<close> is the identity found so far.\<close>

fun multiple_revisions :: "string \<Rightarrow> repositoryIdentity option \<Rightarrow> recoveryPath list \<Rightarrow> bool" where
  "multiple_revisions v first [] = False"
| "multiple_revisions v first (p # ps) =
     (if \<not> path_isTarget p v then multiple_revisions v first ps
      else case first of
        None \<Rightarrow> multiple_revisions v (Some (rp_identity p)) ps
      | Some i \<Rightarrow> if \<not> sameRevision i (rp_identity p) then True else multiple_revisions v first ps)"

definition hasMultipleTargetRevisions :: "string \<Rightarrow> recoveryPath list \<Rightarrow> bool" where
  "hasMultipleTargetRevisions v ps = multiple_revisions v None ps"

record recoveryPaths =
  p_repository :: path
  p_update :: path
  p_previous :: path

definition recoveryPathsFor :: "git_layout \<Rightarrow> string \<Rightarrow> recoveryPaths option" where
  "recoveryPathsFor layout opId =
     (case (RepoUpdateDir layout opId, RepoPreviousDir layout opId) of
        (Some u, Some p) \<Rightarrow> Some \<lparr>p_repository = RepoDir layout, p_update = u, p_previous = p\<rparr>
      | _ \<Rightarrow> None)"

definition refuse :: "TransactionState \<Rightarrow> string \<Rightarrow> 'w \<Rightarrow> 'w recovery_outcome" where
  "refuse tx reason w = ((no_recovery, Some (recoveryAmbiguousError (tx_stage tx) reason)), w)"

definition recoverBeforeSwap ::
  "'w git_ops \<Rightarrow> TransactionState \<Rightarrow> recoveryPaths \<Rightarrow> recoveryPath \<Rightarrow> recoveryPath \<Rightarrow> recoveryPath \<Rightarrow> 'w \<Rightarrow>
   'w recovery_outcome" where
  "recoverBeforeSwap ops tx paths repository update previous w =
     (if rp_kind repository = recoveryPathMissing \<and> path_isTarget update (targetVersion tx)
        then refuse tx ''pre_swap_repository_missing'' w
      else if targetCommit tx = '''' \<and> path_isTarget repository (targetVersion tx) \<and>
              path_isTarget update (targetVersion tx) \<and>
              \<not> sameRevision (rp_identity repository) (rp_identity update)
        then refuse tx ''multiple_target_commits'' w
      else if rp_kind previous \<noteq> recoveryPathMissing \<or>
              (rp_kind repository \<noteq> recoveryPathMissing \<and> rp_kind repository \<noteq> recoveryPathIncomplete \<and>
               rp_kind repository \<noteq> recoveryPathValid) \<or>
              (rp_kind update = recoveryPathValid \<and> \<not> path_isTarget update (targetVersion tx)) \<or>
              (rp_kind update = recoveryPathIncomplete \<and> tx_stage tx \<noteq> StageWorkspaceClone)
        then refuse tx ''pre_swap_identity'' w
      else and_then
        (if path_exists update
         then removeRecoveryTree ops DeleteRepositoryUpdate (p_update paths) (operationId tx)
                (rp_directory update) no_recovery False w
         else ((no_recovery, None), w))
        (\<lambda>result. finishRecovery ops tx result False))"

text \<open>The repository is the target: record the change, then remove the old repository.\<close>

definition completeActiveTarget ::
  "'w git_ops \<Rightarrow> RecoveryRequest \<Rightarrow> TransactionState \<Rightarrow> recoveryPaths \<Rightarrow> repositoryIdentity \<Rightarrow> recoveryPath \<Rightarrow> 'w \<Rightarrow>
   'w recovery_outcome" where
  "completeActiveTarget ops q tx paths i previous w0 =
     (let (plan, w) = prepareEnvironment ops q i True w0 in
      case plan of
        Inl e \<Rightarrow> ((no_recovery, Some e), w)
      | Inr env \<Rightarrow>
          and_then (applyEnvironment ops env (recoveryResultWithIdentity i True) w) (\<lambda>result w1.
          and_then
            (if path_exists previous
             then removeRecoveryTree ops DeleteRepositoryRetired (p_previous paths) (operationId tx)
                    (rp_directory previous) result True w1
             else ((result, None), w1))
            (\<lambda>result1. finishRecovery ops tx result1 True)))"

text \<open>The rollback of a swap between its two renames; \<open>withUpdate\<close> says whether the update is still there.\<close>

definition rollback_previous ::
  "'w git_ops \<Rightarrow> TransactionState \<Rightarrow> recoveryPaths \<Rightarrow> recoveryPath \<Rightarrow> recoveryPath \<Rightarrow> bool \<Rightarrow> 'w \<Rightarrow>
   'w recovery_outcome" where
  "rollback_previous ops tx paths update previous withUpdate w =
     and_then (renameRecoveryRepository ops RenameRepositoryRollback (p_previous paths) (p_repository paths)
                 (operationId tx) (rp_directory previous) no_recovery w) (\<lambda>result w1.
     and_then
       (if withUpdate
        then removeRecoveryTree ops DeleteRepositoryUpdate (p_update paths) (operationId tx)
               (rp_directory update) result True w1
        else ((result, None), w1))
       (\<lambda>result1. finishRecovery ops tx result1 True))"

text \<open>The first installation: there is no old repository, so the update is activated.\<close>

definition activate_update ::
  "'w git_ops \<Rightarrow> RecoveryRequest \<Rightarrow> TransactionState \<Rightarrow> recoveryPaths \<Rightarrow> recoveryPath \<Rightarrow> 'w \<Rightarrow> 'w recovery_outcome" where
  "activate_update ops q tx paths update w0 =
     (let (plan, w) = prepareEnvironment ops q (rp_identity update) False w0 in
      case plan of
        Inl e \<Rightarrow> ((no_recovery, Some e), w)
      | Inr env \<Rightarrow>
          (let ((result, renameErr), w1) = renameRecoveryRepository ops RenameUpdateToRepository
                 (p_update paths) (p_repository paths) (operationId tx) (rp_directory update)
                 (recoveryResultWithIdentity (rp_identity update) False) w in
           case renameErr of
             Some e \<Rightarrow>
               if \<not> rec_mutationApplied result then ((result, Some e), w1)
               else (let ((result1, _), w2) = applyEnvironment ops env result w1 in ((result1, Some e), w2))
           | None \<Rightarrow>
               and_then (applyEnvironment ops env result w1)
                 (\<lambda>result1. finishRecovery ops tx result1 True)))"

definition isRecoveryTarget :: "TransactionState \<Rightarrow> recoveryPath \<Rightarrow> bool" where
  "isRecoveryTarget tx p \<longleftrightarrow>
     path_isTarget p (targetVersion tx) \<and>
     (targetCommit tx = '''' \<or> ri_commit (rp_identity p) = targetCommit tx)"

definition recoverSwap ::
  "'w git_ops \<Rightarrow> RecoveryRequest \<Rightarrow> TransactionState \<Rightarrow> recoveryPaths \<Rightarrow> recoveryPath \<Rightarrow> recoveryPath \<Rightarrow>
   recoveryPath \<Rightarrow> 'w \<Rightarrow> 'w recovery_outcome" where
  "recoverSwap ops q tx paths repository update previous w =
     (let completeIncompletePrevious =
            (tx_stage tx = StageWorkspaceCleanup \<and> targetCommit tx \<noteq> '''' \<and> isRecoveryTarget tx repository \<and>
             rp_kind update = recoveryPathMissing \<and> rp_kind previous = recoveryPathIncomplete) in
      if rp_kind update = recoveryPathIncomplete then refuse tx ''swap_incomplete'' w
      else if targetCommit tx = '''' \<and>
              hasMultipleTargetRevisions (targetVersion tx) [repository, update, previous]
        then refuse tx ''multiple_target_candidates'' w
      else if rp_kind previous = recoveryPathIncomplete \<and> \<not> completeIncompletePrevious
        then refuse tx ''swap_incomplete'' w
      else if isRecoveryTarget tx repository then
        (if rp_kind update \<noteq> recoveryPathMissing \<or>
            (rp_kind previous \<noteq> recoveryPathMissing \<and> rp_kind previous \<noteq> recoveryPathValid \<and>
             \<not> completeIncompletePrevious)
         then refuse tx ''active_target_shape'' w
         else completeActiveTarget ops q tx paths (rp_identity repository) previous w)
      else if rp_kind repository = recoveryPathValid \<or> rp_kind repository = recoveryPathIncomplete then
        (if isRecoveryTarget tx update \<and> rp_kind previous = recoveryPathMissing
         then and_then (removeRecoveryTree ops DeleteRepositoryUpdate (p_update paths) (operationId tx)
                          (rp_directory update) no_recovery False w)
                (\<lambda>result. finishRecovery ops tx result False)
         else refuse tx ''swap_shape'' w)
      else if isRecoveryTarget tx update \<and> rp_kind previous = recoveryPathValid
        then rollback_previous ops tx paths update previous True w
      else if isRecoveryTarget tx update \<and> rp_kind previous = recoveryPathMissing
        then activate_update ops q tx paths update w
      else if rp_kind update = recoveryPathMissing \<and> rp_kind previous = recoveryPathValid
        then rollback_previous ops tx paths update previous False w
      else refuse tx ''swap_shape'' w)"

text \<open>A prepared update of \<open>workspace stage\<close> that is to be discarded.\<close>

definition discard_staged ::
  "(repositorySnapshot \<Rightarrow> unit + repositoryIdentity) \<Rightarrow> 'w git_ops \<Rightarrow> TransactionState \<Rightarrow> recoveryPaths \<Rightarrow> 'w \<Rightarrow>
   'w recovery_outcome" where
  "discard_staged identityOf ops tx paths w =
     (case classifyPath identityOf ops w (p_update paths)
             \<lparr>allowUnreadable = (tx_stage tx = StageWorkspaceClone), allowInvalidIdentity = False\<rparr> of
        Inl c \<Rightarrow> ((no_recovery, Some (classificationError (go_ended ops w) (tx_stage tx) ''staged_update_unknown'' c)), w)
      | Inr update \<Rightarrow>
          and_then
            (if path_exists update then
               (if rp_kind update = recoveryPathValid \<and> \<not> path_isTarget update (targetVersion tx)
                then refuse tx ''staged_update_identity'' w
                else removeRecoveryTree ops DeleteRepositoryUpdate (p_update paths) (operationId tx)
                       (rp_directory update) no_recovery False w)
             else ((no_recovery, None), w))
            (\<lambda>result. finishRecovery ops tx result False))"

text \<open>The check of the commits, which the code makes twice in a row with the same operands.\<close>

definition commit_mismatch :: "TransactionState \<Rightarrow> recoveryPath \<Rightarrow> recoveryPath \<Rightarrow> recoveryPath \<Rightarrow> bool" where
  "commit_mismatch tx repository update previous \<longleftrightarrow>
     targetCommit tx \<noteq> '''' \<and>
     ((rp_kind update = recoveryPathValid \<and> ri_commit (rp_identity update) \<noteq> targetCommit tx) \<or>
      (rp_kind previous = recoveryPathValid \<and> ri_commit (rp_identity previous) \<noteq> baseCommit tx) \<or>
      (rp_kind repository = recoveryPathValid \<and> ri_commit (rp_identity repository) \<noteq> targetCommit tx \<and>
       ri_commit (rp_identity repository) \<noteq> baseCommit tx))"

text \<open>The part of \<open>Recover\<close> that follows the classification of the directories.\<close>

definition recover_classified ::
  "'w git_ops \<Rightarrow> RecoveryRequest \<Rightarrow> TransactionState \<Rightarrow> recoveryPaths \<Rightarrow> recoveryPath \<Rightarrow> recoveryPath \<Rightarrow>
   recoveryPath \<Rightarrow> 'w \<Rightarrow> 'w recovery_outcome" where
  "recover_classified ops q tx paths repository update previous w =
     (if commit_mismatch tx repository update previous then refuse tx ''transaction_commit_mismatch'' w
      else if tx_stage tx = StageWorkspaceClone \<or> tx_stage tx = StageWorkspaceVerify
        then recoverBeforeSwap ops tx paths repository update previous w
      else if tx_stage tx = StageWorkspaceSwap \<or> tx_stage tx = StageWorkspaceCleanup
        then recoverSwap ops q tx paths repository update previous w
      else refuse tx ''stage_invalid'' w)"

definition recover_directories ::
  "(repositorySnapshot \<Rightarrow> unit + repositoryIdentity) \<Rightarrow> 'w git_ops \<Rightarrow> RecoveryRequest \<Rightarrow> TransactionState \<Rightarrow>
   recoveryPaths \<Rightarrow> 'w \<Rightarrow> 'w recovery_outcome" where
  "recover_directories identityOf ops q tx paths w =
     (let stage = tx_stage tx;
          ended = go_ended ops w;
          damagedRepository = (stage = StageWorkspaceClone \<or> stage = StageWorkspaceVerify \<or> stage = StageWorkspaceSwap);
          incompletePrevious = (stage = StageWorkspaceCleanup) in
      case classifyPath identityOf ops w (p_repository paths)
             \<lparr>allowUnreadable = damagedRepository, allowInvalidIdentity = (stage = StageWorkspaceSwap)\<rparr> of
        Inl c \<Rightarrow> ((no_recovery, Some (classificationError ended stage ''repository_unknown'' c)), w)
      | Inr repository \<Rightarrow>
          (case classifyPath identityOf ops w (p_update paths)
                  \<lparr>allowUnreadable = (stage = StageWorkspaceClone), allowInvalidIdentity = False\<rparr> of
             Inl c \<Rightarrow> ((no_recovery, Some (classificationError ended stage ''update_unknown'' c)), w)
           | Inr update \<Rightarrow>
               (case classifyPath identityOf ops w (p_previous paths)
                       \<lparr>allowUnreadable = incompletePrevious, allowInvalidIdentity = incompletePrevious\<rparr> of
                  Inl c \<Rightarrow> ((no_recovery, Some (classificationError ended stage ''previous_unknown'' c)), w)
                | Inr previous \<Rightarrow> recover_classified ops q tx paths repository update previous w)))"

definition Recover ::
  "(repositorySnapshot \<Rightarrow> unit + repositoryIdentity) \<Rightarrow> git_layout \<Rightarrow> 'w git_ops \<Rightarrow> 'w \<Rightarrow> RecoveryRequest \<Rightarrow>
   'w recovery_outcome" where
  "Recover identityOf layout ops w0 q =
     (let w = go_report ops w0 StageWorkspaceCleanup in
      case go_read_tx ops w of
        Inl c \<Rightarrow>
          if c_notFound c then ((no_recovery, None), w)
          else if isCancellation (go_ended ops w) c
            then ((no_recovery, Some (recoveryCancelledError StageWorkspaceCleanup)), w)
          else ((no_recovery, Some (recoveryAmbiguousError StageWorkspaceCleanup ''transaction_unreadable'')), w)
      | Inr tx \<Rightarrow>
          if ValidateTransaction True TransactionUpdate tx \<noteq> None
            then ((no_recovery, Some (recoveryAmbiguousError StageWorkspaceCleanup ''transaction_invalid'')), w)
          else if tx_command tx = ''workspace stage'' \<and> tx_stage tx = StageWorkspaceVerify \<and> \<not> discardStaged q
            then ((no_recovery, None), w)
          else case recoveryPathsFor layout (operationId tx) of
            None \<Rightarrow> ((no_recovery, Some recoveryInternalError), w)
          | Some paths \<Rightarrow>
              if tx_command tx = ''workspace stage'' \<and>
                 (tx_stage tx = StageWorkspaceClone \<or> tx_stage tx = StageWorkspaceVerify)
              then discard_staged identityOf ops tx paths w
              else recover_directories identityOf ops q tx paths w)"

end
