(* ===== verification/Git_Crash.thy ===== *)
theory Git_Crash
  imports Git_Recovery
begin

text \<open>
  A disk with three directories, the update transaction and the environment, on which the swap and the
  recovery run under arbitrary faults. Every disk between two operations is kept, so that a crash is
  the choice of one of them. The theorems show that a crash anywhere in a swap is recovered, that the
  recovery of an activated update can itself crash, that a refusal touches nothing, and which
  interrupted rollback is refused for ever.
\<close>

section \<open>The disk\<close>

datatype content = Readable repositorySnapshot | Unreadable

record directory =
  d_token :: nat
  d_content :: content

record disk =
  dirs :: "path \<Rightarrow> directory option"
  tx_file :: "TransactionState option"
  env_file :: "EnvironmentState option"

text \<open>What an unfinished removal may have done to a repository: nothing that is read, the shallow boundary
  gone, or the repository unreadable.\<close>

datatype damage = Harmless | LoseShallow | Wreck

fun damaged :: "damage \<Rightarrow> content \<Rightarrow> content" where
  "damaged Harmless c = c"
| "damaged LoseShallow (Readable s) = Readable (s\<lparr>shallow := []\<rparr>)"
| "damaged LoseShallow Unreadable = Unreadable"
| "damaged Wreck c = Unreadable"

text \<open>How one operation goes wrong: reads before it fail with \<open>f_read\<close>; it may not be applied, or be applied
  and report an error; a removal goes through \<open>f_damage\<close> and may stop there; afterwards the context may
  have ended. Without faults left every operation works.\<close>

record fault =
  f_read :: "Cause option"
  f_applied :: bool
  f_cause :: "Cause option"
  f_damage :: "damage list"
  f_partial :: bool
  f_audit :: bool
  f_cancel :: bool
  f_announce :: "GitError option option"

definition no_fault :: fault where
  "no_fault = \<lparr>f_read = None, f_applied = True, f_cause = None, f_damage = [Wreck], f_partial = False,
     f_audit = True, f_cancel = False, f_announce = None\<rparr>"

record machine =
  m_disk :: disk
  m_past :: "disk list"
  m_faults :: "fault list"
  m_ended :: bool

definition next_fault :: "machine \<Rightarrow> fault \<times> machine" where
  "next_fault m =
     (case m_faults m of
        [] \<Rightarrow> (no_fault, m)
      | f # fs \<Rightarrow> (f, m\<lparr>m_faults := fs, m_ended := m_ended m \<or> f_cancel f\<rparr>))"

definition put :: "disk \<Rightarrow> machine \<Rightarrow> machine" where
  "put d m = m\<lparr>m_disk := d, m_past := m_disk m # m_past m\<rparr>"

definition read_fault :: "machine \<Rightarrow> Cause option" where
  "read_fault m = (case m_faults m of [] \<Rightarrow> None | f # fs \<Rightarrow> f_read f)"

definition cause_of :: "fault \<Rightarrow> Cause" where
  "cause_of f = (case f_cause f of None \<Rightarrow> plain_cause | Some c \<Rightarrow> c)"

definition set_dir :: "path \<Rightarrow> directory option \<Rightarrow> disk \<Rightarrow> disk" where
  "set_dir p x d = d\<lparr>dirs := (dirs d)(p := x)\<rparr>"

definition disk_rename :: "machine \<Rightarrow> RenameRequest \<Rightarrow> (bool \<times> Cause option) \<times> machine" where
  "disk_rename m q =
     (let (f, m1) = next_fault m; d = m_disk m in
      case dirs d (rr_source q) of
        None \<Rightarrow> ((False, Some plain_cause), m1)
      | Some x \<Rightarrow>
          if rr_expected q \<noteq> Some (d_token x)
            then ((False, Some (plain_cause\<lparr>c_identityChanged := True\<rparr>)), m1)
          else if dirs d (rr_destination q) \<noteq> None
            then ((False, Some (plain_cause\<lparr>c_destinationExists := True\<rparr>)), m1)
          else if f_applied f
            then ((True, f_cause f), put (set_dir (rr_destination q) (Some x) (set_dir (rr_source q) None d)) m1)
          else ((False, f_cause f), m1))"

fun wreck :: "path \<Rightarrow> damage list \<Rightarrow> machine \<Rightarrow> machine" where
  "wreck p [] m = m"
| "wreck p (x # xs) m =
     wreck p xs (case dirs (m_disk m) p of
       None \<Rightarrow> m
     | Some y \<Rightarrow> put (set_dir p (Some (y\<lparr>d_content := damaged x (d_content y)\<rparr>)) (m_disk m)) m)"

definition disk_remove :: "machine \<Rightarrow> DeleteRequest \<Rightarrow> (DeleteResult \<times> Cause option) \<times> machine" where
  "disk_remove m q =
     (let (f, m1) = next_fault m in
      case dirs (m_disk m) (dr_target q) of
        None \<Rightarrow> ((\<lparr>removed = False, partial = False, auditCompleted = f_audit f\<rparr>, f_cause f), m1)
      | Some x \<Rightarrow>
          if dr_expected q \<noteq> Some (d_token x)
            then ((\<lparr>removed = False, partial = False, auditCompleted = False\<rparr>,
                   Some (plain_cause\<lparr>c_identityChanged := True\<rparr>)), m1)
          else if \<not> f_applied f
            then ((\<lparr>removed = False, partial = False, auditCompleted = f_audit f\<rparr>, Some (cause_of f)), m1)
          else let m2 = wreck (dr_target q) (f_damage f) m1 in
            if f_partial f
            then ((\<lparr>removed = True, partial = True, auditCompleted = f_audit f\<rparr>, Some (cause_of f)), m2)
            else ((\<lparr>removed = True, partial = False, auditCompleted = f_audit f\<rparr>, f_cause f),
                  put (set_dir (dr_target q) None (m_disk m2)) m2))"

text \<open>The writing of a state file: \<open>g\<close> is what it does to the disk.\<close>

definition disk_write :: "(disk \<Rightarrow> disk) \<Rightarrow> machine \<Rightarrow> Cause option \<times> machine" where
  "disk_write g m =
     (let (f, m1) = next_fault m in
      if f_applied f then (f_cause f, put (g (m_disk m)) m1) else (Some (cause_of f), m1))"

definition disk_read :: "(disk \<Rightarrow> 'a option) \<Rightarrow> machine \<Rightarrow> Cause + 'a" where
  "disk_read g m =
     (case read_fault m of
        Some c \<Rightarrow> Inl c
      | None \<Rightarrow> (case g (m_disk m) of
          None \<Rightarrow> Inl (plain_cause\<lparr>c_notFound := True\<rparr>)
        | Some x \<Rightarrow> Inr x))"

definition disk_ops ::
  "(State_Environment.Revision \<Rightarrow> BrokenEnvironment \<Rightarrow> Cause + EnvironmentState) \<Rightarrow> machine git_ops" where
  "disk_ops newBroken =
     \<lparr>go_ended = m_ended, go_cleanup_ended = (\<lambda>m. False), go_report = (\<lambda>m s. m),
      go_inspect = (\<lambda>m p. case read_fault m of
          Some c \<Rightarrow> Inl c | None \<Rightarrow> Inr (map_option (\<lambda>x. Some (d_token x)) (dirs (m_disk m) p))),
      go_pin = (\<lambda>m p. case read_fault m of
          Some c \<Rightarrow> Inl c | None \<Rightarrow> Inr (map_option d_token (dirs (m_disk m) p))),
      go_close = (\<lambda>m p. None),
      go_read = (\<lambda>m p. case dirs (m_disk m) p of
          None \<Rightarrow> Inl plain_cause
        | Some x \<Rightarrow> (case d_content x of Unreadable \<Rightarrow> Inl plain_cause | Readable s \<Rightarrow> Inr s)),
      go_rename = disk_rename, go_remove = disk_remove,
      go_write_tx = (\<lambda>m t. disk_write (\<lambda>d. d\<lparr>tx_file := Some t\<rparr>) m),
      go_read_tx = disk_read tx_file,
      go_remove_tx = (\<lambda>m t. if tx_file (m_disk m) \<noteq> Some t then (Some plain_cause, snd (next_fault m))
                            else disk_write (\<lambda>d. d\<lparr>tx_file := None\<rparr>) m),
      go_read_env = disk_read env_file,
      go_new_broken = (\<lambda>m. newBroken),
      go_write_env = (\<lambda>m e. disk_write (\<lambda>d. d\<lparr>env_file := Some e\<rparr>) m),
      go_write_mutation = (\<lambda>m s. disk_write id m),
      go_announce = (\<lambda>m. let (f, m1) = next_fault m in (f_announce f, m1))\<rparr>"

lemma disk_ops_sel [simp]:
  "go_ended (disk_ops b) = m_ended" "go_cleanup_ended (disk_ops b) m = False" "go_report (disk_ops b) m s = m"
  "go_close (disk_ops b) m p = None" "go_rename (disk_ops b) = disk_rename" "go_remove (disk_ops b) = disk_remove"
  "go_write_tx (disk_ops b) m t = disk_write (\<lambda>d. d\<lparr>tx_file := Some t\<rparr>) m"
  "go_read_tx (disk_ops b) = disk_read tx_file" "go_read_env (disk_ops b) = disk_read env_file"
  "go_new_broken (disk_ops b) m = b"
  "go_write_env (disk_ops b) m e = disk_write (\<lambda>d. d\<lparr>env_file := Some e\<rparr>) m"
  "go_write_mutation (disk_ops b) m st = disk_write id m"
  "go_remove_tx (disk_ops b) m t = (if tx_file (m_disk m) \<noteq> Some t then (Some plain_cause, snd (next_fault m))
     else disk_write (\<lambda>d. d\<lparr>tx_file := None\<rparr>) m)"
  by (simp_all add: disk_ops_def)

lemma disk_ops_reads:
  "go_inspect (disk_ops b) m p = (case read_fault m of Some c \<Rightarrow> Inl c
     | None \<Rightarrow> Inr (map_option (\<lambda>x. Some (d_token x)) (dirs (m_disk m) p)))"
  "go_pin (disk_ops b) m p = (case read_fault m of Some c \<Rightarrow> Inl c
     | None \<Rightarrow> Inr (map_option d_token (dirs (m_disk m) p)))"
  "go_read (disk_ops b) m p = (case dirs (m_disk m) p of None \<Rightarrow> Inl plain_cause
     | Some x \<Rightarrow> (case d_content x of Unreadable \<Rightarrow> Inl plain_cause | Readable s \<Rightarrow> Inr s))"
  by (simp_all add: disk_ops_def)

section \<open>What the operations leave behind\<close>

text \<open>\<open>seen Q m\<close>: the present disk and every earlier one satisfy \<open>Q\<close>.\<close>

definition seen :: "(disk \<Rightarrow> bool) \<Rightarrow> machine \<Rightarrow> bool" where
  "seen Q m \<longleftrightarrow> Q (m_disk m) \<and> (\<forall>d \<in> set (m_past m). Q d)"

lemma seen_now: "seen Q m \<Longrightarrow> Q (m_disk m)"
  by (simp add: seen_def)

lemma seen_put [simp]: "seen Q (put d m) \<longleftrightarrow> Q d \<and> seen Q m"
  by (auto simp: seen_def put_def)

lemma put_sel [simp]: "m_disk (put d m) = d" "m_faults (put d m) = m_faults m" "m_ended (put d m) = m_ended m"
  by (simp_all add: put_def)

lemma next_fault_sel [simp]:
  "m_disk (snd (next_fault m)) = m_disk m" "seen Q (snd (next_fault m)) = seen Q m"
  by (auto simp: next_fault_def seen_def split: list.split)

lemma next_fault_step: "next_fault m = (f, m1) \<Longrightarrow> m_disk m1 = m_disk m \<and> seen Q m1 = seen Q m"
  using next_fault_sel [where m = m] by simp

lemma set_dir_sel [simp]:
  "dirs (set_dir p x d) = (dirs d)(p := x)" "tx_file (set_dir p x d) = tx_file d"
  "env_file (set_dir p x d) = env_file d"
  by (simp_all add: set_dir_def)

lemma rename_step:
  assumes "disk_rename m q = ((applied, e), m1)"
  obtains (moved) x where "applied" "dirs (m_disk m) (rr_source q) = Some x" "rr_expected q = Some (d_token x)"
      "dirs (m_disk m) (rr_destination q) = None"
      "m_disk m1 = set_dir (rr_destination q) (Some x) (set_dir (rr_source q) None (m_disk m))"
      "\<And>Q. seen Q m1 = (Q (m_disk m1) \<and> seen Q m)"
    | (nothing) "\<not> applied" "m_disk m1 = m_disk m" "\<And>Q. seen Q m1 = seen Q m"
  using assms next_fault_step
  by (auto simp: disk_rename_def Let_def split: prod.splits option.splits if_splits)

lemma write_step:
  assumes "disk_write g m = (e, m1)"
  obtains (written) "m_disk m1 = g (m_disk m)" "\<And>Q. seen Q m1 = (Q (g (m_disk m)) \<and> seen Q m)"
    | (nothing) "e \<noteq> None" "m_disk m1 = m_disk m" "\<And>Q. seen Q m1 = seen Q m"
  using assms next_fault_step
  by (auto simp: disk_write_def Let_def split: prod.splits if_splits)

lemma wreck_seen:
  assumes "dirs (m_disk m) p = Some x" "seen Q m"
    and "\<And>c. \<exists>xs. c = fold damaged xs (d_content x) \<Longrightarrow> Q (set_dir p (Some (x\<lparr>d_content := c\<rparr>)) (m_disk m))"
  shows "seen Q (wreck p ds m) \<and>
    m_disk (wreck p ds m) = set_dir p (Some (x\<lparr>d_content := fold damaged ds (d_content x)\<rparr>)) (m_disk m)"
  using assms
proof (induction ds arbitrary: m x)
  case Nil
  then show ?case by (simp add: set_dir_def fun_upd_idem)
next
  case (Cons y ys)
  let ?m = "put (set_dir p (Some (x\<lparr>d_content := damaged y (d_content x)\<rparr>)) (m_disk m)) m"
  let ?x = "x\<lparr>d_content := damaged y (d_content x)\<rparr>"
  have "\<exists>xs. damaged y (d_content x) = fold damaged xs (d_content x)" by (rule exI [of _ "[y]"]) simp
  from Cons.prems(3) [OF this] have "seen Q ?m" using Cons.prems(2) by simp
  moreover have "Q (set_dir p (Some (?x\<lparr>d_content := c\<rparr>)) (m_disk ?m))"
    if "\<exists>xs. c = fold damaged xs (d_content ?x)" for c
  proof -
    from that obtain xs where "c = fold damaged (y # xs) (d_content x)" by auto
    then have "\<exists>xs. c = fold damaged xs (d_content x)" by blast
    from Cons.prems(3) [OF this] show ?thesis by (simp add: set_dir_def)
  qed
  ultimately show ?case
    using Cons.IH [of ?m ?x] Cons.prems(1) by (simp add: set_dir_def)
qed

lemma remove_step:
  assumes "disk_remove m q = ((r, e), m1)" "seen Q m"
    and "\<And>x c. dirs (m_disk m) (dr_target q) = Some x \<Longrightarrow> \<exists>xs. c = fold damaged xs (d_content x) \<Longrightarrow>
      Q (set_dir (dr_target q) (Some (x\<lparr>d_content := c\<rparr>)) (m_disk m))"
    and "Q (set_dir (dr_target q) None (m_disk m))"
  shows "seen Q m1 \<and> (e = None \<and> \<not> partial r \<longrightarrow> m_disk m1 = set_dir (dr_target q) None (m_disk m))"
proof -
  obtain f m2 where f: "next_fault m = (f, m2)" by fastforce
  note m2 = next_fault_step [OF f]
  show ?thesis
  proof (cases "dirs (m_disk m) (dr_target q)")
    case None
    then have "set_dir (dr_target q) None (m_disk m) = m_disk m" by (simp add: set_dir_def fun_upd_idem)
    with assms(1,2) f m2 None show ?thesis by (auto simp: disk_remove_def)
  next
    case (Some x)
    have "seen Q (wreck (dr_target q) ds m2) \<and> m_disk (wreck (dr_target q) ds m2) =
        set_dir (dr_target q) (Some (x\<lparr>d_content := fold damaged ds (d_content x)\<rparr>)) (m_disk m)" for ds
      using wreck_seen [of m2 "dr_target q" x Q ds] Some assms(2,3) m2 by auto
    with assms(1,2,4) f m2 Some show ?thesis
      by (auto simp: disk_remove_def Let_def set_dir_def split: if_splits)
  qed
qed

section \<open>The disks of a swap\<close>

text \<open>One swap: the layout, the transaction as it is before the swap, the old repository (none at the first
  installation), the verified update with its identity, and the environment file at the start.\<close>

record swap_case =
  sc_layout :: git_layout
  sc_tx :: TransactionState
  sc_old :: "directory option"
  sc_new :: directory
  sc_id :: repositoryIdentity
  sc_env :: "EnvironmentState option"

definition repo_path :: "swap_case \<Rightarrow> path" where
  "repo_path c = RepoDir (sc_layout c)"

definition update_path :: "swap_case \<Rightarrow> path" where
  "update_path c = the (RepoUpdateDir (sc_layout c) (operationId (sc_tx c)))"

definition previous_path :: "swap_case \<Rightarrow> path" where
  "previous_path c = the (RepoPreviousDir (sc_layout c) (operationId (sc_tx c)))"

definition paths_apart :: "swap_case \<Rightarrow> bool" where
  "paths_apart c \<longleftrightarrow>
     RepoUpdateDir (sc_layout c) (operationId (sc_tx c)) \<noteq> None \<and>
     RepoPreviousDir (sc_layout c) (operationId (sc_tx c)) \<noteq> None \<and>
     distinct [repo_path c, update_path c, previous_path c]"

definition tx_at :: "swap_case \<Rightarrow> Stage \<Rightarrow> TransactionState" where
  "tx_at c st = (sc_tx c)\<lparr>tx_stage := st\<rparr>"

definition shape :: "swap_case \<Rightarrow> disk \<Rightarrow> directory option \<times> directory option \<times> directory option" where
  "shape c d = (dirs d (repo_path c), dirs d (update_path c), dirs d (previous_path c))"

definition recorded :: "swap_case \<Rightarrow> disk \<Rightarrow> bool" where
  "recorded c d \<longleftrightarrow> (\<exists>e. env_file d = Some e \<and> already_recorded e (sc_id c))"

definition before :: "swap_case \<Rightarrow> Stage \<Rightarrow> disk \<Rightarrow> bool" where
  "before c st d \<longleftrightarrow> shape c d = (sc_old c, Some (sc_new c), None) \<and> tx_file d = Some (tx_at c st) \<and>
     env_file d = sc_env c"

definition between :: "swap_case \<Rightarrow> disk \<Rightarrow> bool" where
  "between c d \<longleftrightarrow> shape c d = (None, Some (sc_new c), sc_old c) \<and> tx_file d = Some (tx_at c StageWorkspaceSwap) \<and>
     env_file d = sc_env c"

definition activated :: "swap_case \<Rightarrow> Stage \<Rightarrow> disk \<Rightarrow> bool" where
  "activated c st d \<longleftrightarrow> shape c d = (Some (sc_new c), None, sc_old c) \<and> tx_file d = Some (tx_at c st) \<and>
     (env_file d = sc_env c \<or> recorded c d)"

definition remains :: "swap_case \<Rightarrow> directory option \<Rightarrow> bool" where
  "remains c x \<longleftrightarrow> (case x of None \<Rightarrow> True
     | Some y \<Rightarrow> \<exists>z xs. sc_old c = Some z \<and> y = z\<lparr>d_content := fold damaged xs (d_content z)\<rparr>)"

definition cleaning :: "swap_case \<Rightarrow> disk \<Rightarrow> bool" where
  "cleaning c d \<longleftrightarrow> (\<exists>x. shape c d = (Some (sc_new c), None, x) \<and> remains c x) \<and>
     tx_file d = Some (tx_at c StageWorkspaceCleanup) \<and> recorded c d"

definition swap_disk :: "swap_case \<Rightarrow> disk \<Rightarrow> bool" where
  "swap_disk c d \<longleftrightarrow> before c StageWorkspaceVerify d \<or> before c StageWorkspaceSwap d \<or> between c d \<or>
     activated c StageWorkspaceSwap d \<or> activated c StageWorkspaceCleanup d \<or> cleaning c d"

lemma remains_None [simp]: "remains c None"
  by (simp add: remains_def)

lemma fold_damaged_nil: "\<exists>xs. x = x\<lparr>d_content := fold damaged xs (d_content x)\<rparr>" for x :: directory
  by (rule exI [of _ "[]"]) simp

lemma remains_old [simp]: "remains c (sc_old c)"
  by (cases "sc_old c") (simp_all add: remains_def fold_damaged_nil)

text \<open>The environments that are written name the new revision.\<close>

definition records :: "(State_Environment.Revision \<Rightarrow> BrokenEnvironment \<Rightarrow> Cause + EnvironmentState) \<Rightarrow> bool" where
  "records mk \<longleftrightarrow> (\<forall>l b e. mk l b = Inr e \<longrightarrow> env_status e = StateEnvironmentBroken \<and> env_broken e = Some b)"

lemma records_already:
  assumes "records mk" "mk l (changed_environment (ri_version i) (ri_branch i) (ri_commit i) lp) = Inr e"
  shows "already_recorded e i"
proof -
  have "env_status e = StateEnvironmentBroken"
    "env_broken e = Some (changed_environment (ri_version i) (ri_branch i) (ri_commit i) lp)"
    using assms unfolding records_def by blast+
  then show ?thesis by (simp add: already_recorded_def changed_environment_def)
qed

lemma commit_environment_seen:
  assumes "records mk" "activated c StageWorkspaceCleanup (m_disk m)" "seen (swap_disk c) m"
    and "gr_version r = ri_version (sc_id c)" "gr_branch r = ri_branch (sc_id c)" "gr_commit r = ri_commit (sc_id c)"
    and "commit_environment (disk_ops mk) lg lp m r = (e, m1)"
  shows "seen (swap_disk c) m1 \<and> activated c StageWorkspaceCleanup (m_disk m1) \<and> (e = None \<longrightarrow> recorded c (m_disk m1))"
proof -
  obtain e2 m2 where m2: "disk_write id m = (e2, m2)" by fastforce
  then have s2: "seen (swap_disk c) m2 \<and> m_disk m2 = m_disk m"
    by (rule write_step) (use assms(3) seen_now in auto)
  show ?thesis
  proof (cases "e2 = None")
    case True
    show ?thesis
    proof (cases "mk lg (changed_environment (gr_version r) (gr_branch r) (gr_commit r) lp)")
      case (Inr env)
      then have env: "already_recorded env (sc_id c)" using assms(1,4,5,6) by (metis records_already)
      obtain e3 m3 where m3: "disk_write (\<lambda>d. d\<lparr>env_file := Some env\<rparr>) m2 = (e3, m3)" by fastforce
      have rec: "activated c StageWorkspaceCleanup (m_disk m2\<lparr>env_file := Some env\<rparr>) \<and>
          recorded c (m_disk m2\<lparr>env_file := Some env\<rparr>)"
        using assms(2) s2 env by (auto simp: activated_def recorded_def shape_def)
      from m3 have s3: "seen (swap_disk c) m3 \<and> activated c StageWorkspaceCleanup (m_disk m3) \<and>
          (e3 = None \<longrightarrow> recorded c (m_disk m3))"
        by (rule write_step) (use assms(2) s2 rec in \<open>auto simp: swap_disk_def\<close>)
      obtain f m4 where m4: "next_fault m3 = (f, m4)" by fastforce
      show ?thesis using assms(7) m2 True Inr m3 m4 s3 next_fault_step [OF m4] s2 assms(2)
        by (auto simp: commit_environment_def Let_def disk_ops_def split: if_splits option.splits)
    qed (use assms(2,7) m2 True s2 in \<open>auto simp: commit_environment_def Let_def\<close>)
  qed (use assms(2,7) m2 s2 in \<open>auto simp: commit_environment_def Let_def\<close>)
qed

section \<open>A swap under faults\<close>

text \<open>The request fits the case.\<close>

definition swap_fits :: "swap_case \<Rightarrow> SwapRequest \<Rightarrow> bool" where
  "swap_fits c q \<longleftrightarrow> paths_apart c \<and> sw_transaction q = sc_tx c \<and> tx_stage (sc_tx c) = StageWorkspaceVerify \<and>
     sw_activeIdentity q = map_option d_token (sc_old c) \<and> sw_updateIdentity q = Some (d_token (sc_new c)) \<and>
     gr_version (sw_revision q) = ri_version (sc_id c) \<and> gr_branch (sw_revision q) = ri_branch (sc_id c) \<and>
     gr_commit (sw_revision q) = ri_commit (sc_id c)"

lemma paths_apartD:
  assumes "paths_apart c"
  shows "repo_path c \<noteq> update_path c" "repo_path c \<noteq> previous_path c" "update_path c \<noteq> previous_path c"
    "update_path c \<noteq> repo_path c" "previous_path c \<noteq> repo_path c" "previous_path c \<noteq> update_path c"
    "RepoUpdateDir (sc_layout c) (operationId (sc_tx c)) = Some (update_path c)"
    "RepoPreviousDir (sc_layout c) (operationId (sc_tx c)) = Some (previous_path c)"
  using assms by (auto simp: paths_apart_def update_path_def previous_path_def)

lemma shape_set_dir:
  assumes "paths_apart c" "shape c d = (x, y, z)"
  shows "shape c (set_dir (repo_path c) v d) = (v, y, z)" "shape c (set_dir (update_path c) v d) = (x, v, z)"
    "shape c (set_dir (previous_path c) v d) = (x, y, v)"
  using assms paths_apartD [OF assms(1)] by (auto simp: shape_def)

lemma shape_files [simp]:
  "shape c (d\<lparr>tx_file := t\<rparr>) = shape c d" "shape c (d\<lparr>env_file := e\<rparr>) = shape c d"
  by (simp_all add: shape_def)

lemma recorded_files [simp]:
  "recorded c (d\<lparr>tx_file := t\<rparr>) = recorded c d" "recorded c (set_dir p x d) = recorded c d"
  by (simp_all add: recorded_def)

lemma swap_commit_seen:
  assumes "records mk" "swap_fits c q" "activated c StageWorkspaceSwap (m_disk m)" "seen (swap_disk c) m"
    and "swap_commit (disk_ops mk) (commit_environment (disk_ops mk) lg lp) (previous_path c) q (sc_old c \<noteq> None) r m =
      ((r', e), m')"
  shows "seen (swap_disk c) m' \<and> (e = None \<longrightarrow> cleaning c (m_disk m') \<and> dirs (m_disk m') (previous_path c) = None)"
proof -
  note fits = assms(2) [unfolded swap_fits_def]
  obtain e1 m1 where m1: "disk_write (\<lambda>d. d\<lparr>tx_file := Some (tx_at c StageWorkspaceCleanup)\<rparr>) m = (e1, m1)"
    by fastforce
  have act: "activated c StageWorkspaceCleanup (m_disk m\<lparr>tx_file := Some (tx_at c StageWorkspaceCleanup)\<rparr>)"
    using assms(3) by (simp add: activated_def)
  from m1 have s1: "seen (swap_disk c) m1 \<and> (e1 = None \<longrightarrow> activated c StageWorkspaceCleanup (m_disk m1))"
    by (rule write_step) (use assms(4) act in \<open>auto simp: swap_disk_def\<close>)
  have tx: "(sw_transaction q)\<lparr>tx_stage := StageWorkspaceCleanup\<rparr> = tx_at c StageWorkspaceCleanup"
    using fits by (simp add: tx_at_def)
  show ?thesis
  proof (cases e1)
    case (Some x)
    then show ?thesis using assms(5) m1 s1 tx by (auto simp: swap_commit_def Let_def)
  next
    case None
    obtain e2 m2 where m2: "commit_environment (disk_ops mk) lg lp m1 (sw_revision q) = (e2, m2)" by fastforce
    have s2: "seen (swap_disk c) m2 \<and> activated c StageWorkspaceCleanup (m_disk m2) \<and>
        (e2 = None \<longrightarrow> recorded c (m_disk m2))"
      using commit_environment_seen [OF assms(1) _ _ _ _ _ m2] s1 None fits by blast
    show ?thesis
    proof (cases e2)
      case (Some x)
      then show ?thesis using assms(5) m1 m2 s2 None tx by (auto simp: swap_commit_def Let_def)
    next
      case committed: None
      have clean: "cleaning c (set_dir (previous_path c) x (m_disk m2))" if "remains c x" for x
        using s2 committed fits that by (auto simp: cleaning_def activated_def shape_set_dir)
      show ?thesis
      proof (cases "sc_old c")
        case None
        then have "cleaning c (m_disk m2) \<and> dirs (m_disk m2) (previous_path c) = None"
          using s2 committed by (auto simp: cleaning_def activated_def shape_def)
        then show ?thesis using assms(5) m1 m2 s2 \<open>e1 = None\<close> tx committed None
          by (auto simp: swap_commit_def Let_def)
      next
        case (Some old)
        let ?d = "\<lparr>dr_kind = DeleteRepositoryRetired, dr_target = previous_path c,
                      dr_operationId = operationId (sw_transaction q), dr_expected = sw_activeIdentity q\<rparr>"
        obtain x e3 m3 where m3: "disk_remove m2 ?d = ((x, e3), m3)" by (metis prod.exhaust)
        have "dirs (m_disk m2) (previous_path c) = Some old"
          using s2 Some by (simp add: activated_def shape_def)
        then have "swap_disk c (set_dir (previous_path c) (Some (y\<lparr>d_content := z\<rparr>)) (m_disk m2))"
          if "dirs (m_disk m2) (previous_path c) = Some y" "\<exists>xs. z = fold damaged xs (d_content y)" for y z
          using clean [of "Some (y\<lparr>d_content := z\<rparr>)"] that Some by (auto simp: swap_disk_def remains_def)
        moreover have "swap_disk c (set_dir (previous_path c) None (m_disk m2))"
          using clean [of None] by (simp add: swap_disk_def)
        ultimately have "seen (swap_disk c) m3 \<and>
            (e3 = None \<and> \<not> partial x \<longrightarrow> m_disk m3 = set_dir (previous_path c) None (m_disk m2))"
          using remove_step [OF m3, of "swap_disk c"] s2 by simp
        then show ?thesis using assms(5) m1 m2 m3 \<open>e1 = None\<close> tx committed Some clean [of None]
          by (auto simp: swap_commit_def Let_def split: if_splits)
      qed
    qed
  qed
qed

lemma swap_activate_seen:
  assumes "records mk" "swap_fits c q" "seen (swap_disk c) m"
    and "between c (m_disk m) \<or> (sc_old c = None \<and> before c StageWorkspaceSwap (m_disk m))"
    and "swap_activate (sc_layout c) (disk_ops mk) (commit_environment (disk_ops mk) lg lp) (previous_path c)
      (update_path c) q (sc_old c \<noteq> None) r m = ((r', e), m')"
  shows "seen (swap_disk c) m' \<and> (e = None \<longrightarrow> cleaning c (m_disk m') \<and> dirs (m_disk m') (previous_path c) = None)"
proof -
  note fits = assms(2) [unfolded swap_fits_def]
  let ?q = "\<lparr>rr_kind = RenameUpdateToRepository, rr_source = update_path c, rr_destination = RepoDir (sc_layout c),
             rr_operationId = operationId (sw_transaction q), rr_expected = sw_updateIdentity q\<rparr>"
  obtain ok e1 m1 where m1: "disk_rename m ?q = ((ok, e1), m1)" by (metis prod.exhaust)
  have sh: "shape c (m_disk m) = (None, Some (sc_new c), sc_old c)"
    "tx_file (m_disk m) = Some (tx_at c StageWorkspaceSwap)" "env_file (m_disk m) = sc_env c"
    using assms(4) by (auto simp: between_def before_def)
  have "seen (swap_disk c) m1 \<and> (ok \<longrightarrow> activated c StageWorkspaceSwap (m_disk m1))"
  proof (rule rename_step [OF m1])
    fix x
    assume mv: "dirs (m_disk m) (rr_source ?q) = Some x"
      "m_disk m1 = set_dir (rr_destination ?q) (Some x) (set_dir (rr_source ?q) None (m_disk m))"
      and past: "\<And>Q. seen Q m1 = (Q (m_disk m1) \<and> seen Q m)"
    have "x = sc_new c" using mv(1) sh(1) by (simp add: shape_def)
    then have "activated c StageWorkspaceSwap (m_disk m1)"
      using mv(2) sh fits by (simp add: activated_def shape_set_dir repo_path_def [symmetric])
    then show ?thesis using past assms(3) by (simp add: swap_disk_def)
  qed (use assms(3) in auto)
  then show ?thesis
    using assms(5) m1 swap_commit_seen [OF assms(1,2), of m1 lg lp]
    by (auto simp: swap_activate_def Let_def split: option.splits if_splits)
qed

lemma swap_retire_seen:
  assumes "records mk" "swap_fits c q" "seen (swap_disk c) m" "before c StageWorkspaceSwap (m_disk m)"
    and "swap_retire (sc_layout c) (disk_ops mk) (commit_environment (disk_ops mk) lg lp) (previous_path c)
      (update_path c) q r m = ((r', e), m')"
  shows "seen (swap_disk c) m' \<and> (e = None \<longrightarrow> cleaning c (m_disk m') \<and> dirs (m_disk m') (previous_path c) = None)"
proof -
  note fits = assms(2) [unfolded swap_fits_def]
  have sh: "dirs (m_disk m) (RepoDir (sc_layout c)) = sc_old c" "dirs (m_disk m) (previous_path c) = None"
    "tx_file (m_disk m) = Some (tx_at c StageWorkspaceSwap)" "env_file (m_disk m) = sc_env c"
    "shape c (m_disk m) = (sc_old c, Some (sc_new c), None)"
    using assms(4) by (auto simp: before_def shape_def repo_path_def)
  show ?thesis
  proof (cases "sc_old c")
    case None
    with assms sh swap_activate_seen [OF assms(1,2,3), of lg lp r r' e m'] show ?thesis
      by (auto simp: swap_retire_def disk_ops_reads split: option.splits)
  next
    case (Some old)
    let ?q = "\<lparr>rr_kind = RenameRepositoryToRetired, rr_source = RepoDir (sc_layout c),
       rr_destination = previous_path c, rr_operationId = operationId (sw_transaction q),
       rr_expected = sw_activeIdentity q\<rparr>"
    obtain ok e1 m1 where m1: "disk_rename m ?q = ((ok, e1), m1)" by (metis prod.exhaust)
    have "seen (swap_disk c) m1 \<and> (ok \<longrightarrow> between c (m_disk m1))"
    proof (rule rename_step [OF m1])
      fix x
      assume mv: "dirs (m_disk m) (rr_source ?q) = Some x"
        "m_disk m1 = set_dir (rr_destination ?q) (Some x) (set_dir (rr_source ?q) None (m_disk m))"
        and past: "\<And>Q. seen Q m1 = (Q (m_disk m1) \<and> seen Q m)"
      have "Some x = sc_old c" using mv(1) sh(1) by simp
      then have "between c (m_disk m1)"
        using mv(2) sh fits by (simp add: between_def shape_set_dir repo_path_def [symmetric])
      then show ?thesis using past assms(3) by (simp add: swap_disk_def)
    qed (use assms(3) in auto)
    then show ?thesis
      using assms(3,5) m1 sh Some swap_activate_seen [OF assms(1,2), of m1 lg lp]
      by (auto simp: swap_retire_def Let_def disk_ops_reads split: option.splits if_splits)
  qed
qed

lemma Swap_seen:
  assumes "records mk" "swap_fits c q" "seen (swap_disk c) m" "before c StageWorkspaceVerify (m_disk m)"
    and "Swap (sc_layout c) (disk_ops mk) (Some (commit_environment (disk_ops mk) lg lp)) m q = ((r', e), m')"
  shows "seen (swap_disk c) m' \<and> (e = None \<longrightarrow> cleaning c (m_disk m') \<and> dirs (m_disk m') (previous_path c) = None)"
proof -
  note fits = assms(2) [unfolded swap_fits_def]
  have tx: "(sw_transaction q)\<lparr>tx_stage := StageWorkspaceSwap\<rparr> = tx_at c StageWorkspaceSwap"
    using fits by (simp add: tx_at_def)
  obtain e1 m1 where m1: "disk_write (\<lambda>d. d\<lparr>tx_file := Some (tx_at c StageWorkspaceSwap)\<rparr>) m = (e1, m1)"
    by fastforce
  have started: "before c StageWorkspaceSwap (m_disk m\<lparr>tx_file := Some (tx_at c StageWorkspaceSwap)\<rparr>)"
    using assms(4) by (simp add: before_def)
  from m1 have s1: "seen (swap_disk c) m1 \<and> (e1 = None \<longrightarrow> before c StageWorkspaceSwap (m_disk m1))"
    by (rule write_step) (use assms(3) started in \<open>auto simp: swap_disk_def\<close>)
  note paths = paths_apartD(7,8) [OF conjunct1 [OF fits]]
  have answer: "(if \<not> validateSwapRequest (Some (commit_environment (disk_ops mk) lg lp)) q \<or> m_ended m
      then e \<noteq> None \<and> m' = m
      else case e1 of
        Some x \<Rightarrow> e \<noteq> None \<and> m' = m1
      | None \<Rightarrow> swap_retire (sc_layout c) (disk_ops mk) (commit_environment (disk_ops mk) lg lp) (previous_path c)
          (update_path c) q (no_swap\<lparr>sr_revision := Some (sw_revision q)\<rparr>) m1 = ((r', e), m'))"
    using assms(5) m1 tx fits paths by (auto simp: Swap_def Let_def split: if_splits option.splits)
  show ?thesis
  proof (cases "\<not> validateSwapRequest (Some (commit_environment (disk_ops mk) lg lp)) q \<or> m_ended m")
    case True
    with answer assms(3) show ?thesis by auto
  next
    case False
    show ?thesis
    proof (cases e1)
      case None
      with answer False have run: "swap_retire (sc_layout c) (disk_ops mk) (commit_environment (disk_ops mk) lg lp)
          (previous_path c) (update_path c) q (no_swap\<lparr>sr_revision := Some (sw_revision q)\<rparr>) m1 = ((r', e), m')"
        by simp
      from None s1 swap_retire_seen [OF assms(1,2) _ _ run] show ?thesis by simp
    next
      case (Some x)
      with answer False s1 show ?thesis by auto
    qed
  qed
qed

section \<open>The recovery without faults\<close>

definition clean :: "machine \<Rightarrow> bool" where
  "clean m \<longleftrightarrow> m_faults m = [] \<and> \<not> m_ended m"

lemma clean_put [simp]: "clean (put d m) = clean m"
  by (simp add: clean_def)

lemma clean_next: "clean m \<Longrightarrow> next_fault m = (no_fault, m)"
  by (simp add: clean_def next_fault_def)

lemma clean_read: "clean m \<Longrightarrow> read_fault m = None"
  by (simp add: clean_def read_fault_def)

lemma no_fault_sel [simp]:
  "f_applied no_fault" "f_cause no_fault = None" "f_damage no_fault = [Wreck]" "\<not> f_partial no_fault" "f_audit no_fault"
  by (simp_all add: no_fault_def)

lemma write_clean: "clean m \<Longrightarrow> disk_write g m = (None, put (g (m_disk m)) m)"
  by (simp add: disk_write_def clean_next)

lemma rename_clean:
  assumes "clean m" "dirs (m_disk m) (rr_source q) = Some x" "rr_expected q = Some (d_token x)"
    "dirs (m_disk m) (rr_destination q) = None"
  shows "disk_rename m q =
    ((True, None), put (set_dir (rr_destination q) (Some x) (set_dir (rr_source q) None (m_disk m))) m)"
  using assms by (simp add: disk_rename_def clean_next)

lemma remove_clean:
  assumes "clean m" "dirs (m_disk m) (dr_target q) = Some x" "dr_expected q = Some (d_token x)"
  shows "\<exists>m1. disk_remove m q = ((\<lparr>removed = True, partial = False, auditCompleted = True\<rparr>, None), m1) \<and>
    clean m1 \<and> m_disk m1 = set_dir (dr_target q) None (m_disk m)"
  using assms by (simp add: disk_remove_def clean_next set_dir_def)

lemma classify_clean:
  assumes "clean m"
  shows "classifyPath identityOf (disk_ops mk) m p policy =
    (case dirs (m_disk m) p of
       None \<Rightarrow> Inr \<lparr>rp_kind = recoveryPathMissing, rp_identity = no_identity, rp_directory = None\<rparr>
     | Some x \<Rightarrow>
         (let incomplete = Inr \<lparr>rp_kind = recoveryPathIncomplete, rp_identity = no_identity,
                               rp_directory = Some (d_token x)\<rparr> in
          case d_content x of
            Unreadable \<Rightarrow> if allowUnreadable policy then incomplete else Inl plain_cause
          | Readable s \<Rightarrow>
              (case identityOf s of
                 Inl _ \<Rightarrow> if allowInvalidIdentity policy then incomplete else Inl plain_cause
               | Inr i \<Rightarrow> Inr \<lparr>rp_kind = recoveryPathValid, rp_identity = i, rp_directory = Some (d_token x)\<rparr>)))"
  using assms
  by (auto simp: classifyPath_def disk_ops_reads clean_read clean_def isCancellation_def plain_cause_def Let_def
      split: option.splits content.splits sum.splits)

definition holds :: "(repositorySnapshot \<Rightarrow> unit + repositoryIdentity) \<Rightarrow> directory \<Rightarrow> repositoryIdentity \<Rightarrow> bool" where
  "holds identityOf x i \<longleftrightarrow> (\<exists>s. d_content x = Readable s \<and> identityOf s = Inr i)"

text \<open>The case fits its transaction, and the old repository, if there is one, is the base.\<close>

definition case_ok :: "(repositorySnapshot \<Rightarrow> unit + repositoryIdentity) \<Rightarrow> swap_case \<Rightarrow> bool" where
  "case_ok identityOf c \<longleftrightarrow> paths_apart c \<and>
     ValidateTransaction True TransactionUpdate (sc_tx c) = None \<and> tx_stage (sc_tx c) = StageWorkspaceVerify \<and>
     tx_command (sc_tx c) \<noteq> ''workspace stage'' \<and>
     targetVersion (sc_tx c) = ri_version (sc_id c) \<and> targetCommit (sc_tx c) = ri_commit (sc_id c) \<and>
     targetCommit (sc_tx c) \<noteq> '''' \<and> targetCommit (sc_tx c) \<noteq> baseCommit (sc_tx c) \<and>
     holds identityOf (sc_new c) (sc_id c) \<and>
     (\<forall>x. sc_old c = Some x \<longrightarrow> (\<exists>i. holds identityOf x i \<and> ri_commit i = baseCommit (sc_tx c)))"

definition can_record ::
  "(State_Environment.Revision \<Rightarrow> BrokenEnvironment \<Rightarrow> Cause + EnvironmentState) \<Rightarrow> swap_case \<Rightarrow> string \<Rightarrow> bool" where
  "can_record mk c lp \<longleftrightarrow> lp \<noteq> '''' \<and> records mk \<and>
     (\<forall>l. l = \<lparr>rev_version = '''', rev_commit = ''''\<rparr> \<or> (\<exists>e. sc_env c = Some e \<and> l = env_lastSuccessful e) \<longrightarrow>
        (\<exists>e. mk l (changed_environment (ri_version (sc_id c)) (ri_branch (sc_id c)) (ri_commit (sc_id c)) lp) = Inr e))"

definition settled :: "swap_case \<Rightarrow> bool \<Rightarrow> disk \<Rightarrow> bool" where
  "settled c new d \<longleftrightarrow> tx_file d = None \<and>
     shape c d = (if new then Some (sc_new c) else sc_old c, None, None) \<and>
     (if new then recorded c d else env_file d = sc_env c)"

lemma update_stage_valid:
  assumes "ValidateTransaction True TransactionUpdate tx = None" "tx_command tx \<noteq> ''workspace stage''"
    and "st \<in> {StageWorkspaceVerify, StageWorkspaceSwap, StageWorkspaceCleanup}"
  shows "ValidateTransaction True TransactionUpdate (tx\<lparr>tx_stage := st\<rparr>) = None"
proof -
  have "IsKnownStage st \<and> transactionStageAllowed TransactionUpdate (tx_command tx) st"
    using assms(3) by (auto simp: IsKnownStage_def stages_def transactionStageAllowed_def workspaceMutationStage_def)
  moreover have "commit_fields True (tx\<lparr>tx_stage := st\<rparr>) = commit_fields True tx"
    by (simp add: commit_fields_def)
  ultimately show ?thesis
    using assms(1,2) unfolding ValidateTransaction_def check_chain
    by (simp add: validateStageCommand_def)
qed

lemma finish_clean:
  assumes "clean m" "tx_file (m_disk m) = Some tx"
  shows "finishRecovery (disk_ops mk) tx r committed m =
    ((r\<lparr>recovered := True, transactionRemoved := True\<rparr>, None), put ((m_disk m)\<lparr>tx_file := None\<rparr>) m)"
  using assms by (simp add: finishRecovery_def write_clean)

lemma removeTree_clean:
  assumes "clean m" "dirs (m_disk m) p = Some x"
  shows "\<exists>r1 m1. removeRecoveryTree (disk_ops mk) k p opId (Some (d_token x)) r committed m = ((r1, None), m1) \<and>
    clean m1 \<and> m_disk m1 = set_dir p None (m_disk m)"
proof -
  let ?q = "\<lparr>dr_kind = k, dr_target = p, dr_operationId = opId, dr_expected = Some (d_token x)\<rparr>"
  obtain m1 where "disk_remove m ?q = ((\<lparr>removed = True, partial = False, auditCompleted = True\<rparr>, None), m1)"
    "clean m1" "m_disk m1 = set_dir p None (m_disk m)"
    using remove_clean [of m ?q x] assms by auto
  then show ?thesis by (simp add: removeRecoveryTree_def)
qed

lemma renameRecovery_clean:
  assumes "clean m" "dirs (m_disk m) s = Some x" "dirs (m_disk m) t = None"
  shows "renameRecoveryRepository (disk_ops mk) k s t opId (Some (d_token x)) r m =
    ((r\<lparr>rec_mutationApplied := True\<rparr>, None), put (set_dir t (Some x) (set_dir s None (m_disk m))) m)"
  using assms by (simp add: renameRecoveryRepository_def rename_clean)

lemma prepare_clean:
  assumes "clean m" "can_record mk c (logPath q)" "env_file (m_disk m) = sc_env c \<or> recorded c (m_disk m)"
  shows "\<exists>plan. prepareEnvironment (disk_ops mk) q (sc_id c) committed m = (Inr plan, m) \<and>
    (plan = None \<longrightarrow> recorded c (m_disk m)) \<and> (\<forall>e. plan = Some e \<longrightarrow> already_recorded e (sc_id c))"
proof (cases "env_file (m_disk m)")
  case None
  then have "sc_env c = None" using assms(3) by (auto simp: recorded_def)
  with assms None show ?thesis
    by (auto simp: prepareEnvironment_def disk_read_def clean_read can_record_def Let_def plain_cause_def
        dest: records_already split: sum.splits)
next
  case (Some e)
  show ?thesis
  proof (cases "already_recorded e (sc_id c)")
    case True
    with Some assms(1) show ?thesis
      by (simp add: prepareEnvironment_def disk_read_def clean_read recorded_def Let_def)
  next
    case False
    then have "sc_env c = Some e" using Some assms(3) by (auto simp: recorded_def)
    then obtain e' where "mk (env_lastSuccessful e) (changed_environment (ri_version (sc_id c)) (ri_branch (sc_id c))
        (ri_commit (sc_id c)) (logPath q)) = Inr e'" "records mk" "logPath q \<noteq> ''''"
      using assms(2) by (auto simp: can_record_def)
    with Some False assms(1) show ?thesis
      by (auto simp: prepareEnvironment_def disk_read_def clean_read Let_def dest: records_already)
  qed
qed

lemma apply_clean:
  assumes "clean m" "plan = None \<longrightarrow> recorded c (m_disk m)" "\<forall>e. plan = Some e \<longrightarrow> already_recorded e (sc_id c)"
  shows "\<exists>r1 m1. applyEnvironment (disk_ops mk) plan r m = ((r1, None), m1) \<and> clean m1 \<and>
    recorded c (m_disk m1) \<and> dirs (m_disk m1) = dirs (m_disk m) \<and> tx_file (m_disk m1) = tx_file (m_disk m)"
  using assms by (cases plan) (auto simp: applyEnvironment_def write_clean recorded_def)

lemma settled_finish:
  "\<lbrakk>shape c d = (if new then Some (sc_new c) else sc_old c, None, None);
    if new then recorded c d else env_file d = sc_env c\<rbrakk> \<Longrightarrow> settled c new (d\<lparr>tx_file := None\<rparr>)"
  by (simp add: settled_def)

text \<open>The parameters of the recovery of a case.\<close>

definition case_paths :: "swap_case \<Rightarrow> recoveryPaths" where
  "case_paths c = \<lparr>p_repository = repo_path c, p_update = update_path c, p_previous = previous_path c\<rparr>"

lemma complete_clean:
  assumes "clean m" "can_record mk c (logPath q)" "paths_apart c"
    and "shape c (m_disk m) = (Some (sc_new c), None, x)" "tx_file (m_disk m) = Some tx"
    and "env_file (m_disk m) = sc_env c \<or> recorded c (m_disk m)"
    and "rp_directory previous = map_option d_token x" "path_exists previous = (x \<noteq> None)"
  shows "\<exists>r m1. completeActiveTarget (disk_ops mk) q tx (case_paths c) (sc_id c) previous m = ((r, None), m1) \<and>
    recovered r \<and> settled c True (m_disk m1)"
proof -
  obtain plan where plan: "prepareEnvironment (disk_ops mk) q (sc_id c) True m = (Inr plan, m)"
    "plan = None \<longrightarrow> recorded c (m_disk m)" "\<forall>e. plan = Some e \<longrightarrow> already_recorded e (sc_id c)"
    using prepare_clean [OF assms(1,2,6)] by blast
  obtain r1 m1 where m1: "applyEnvironment (disk_ops mk) plan (recoveryResultWithIdentity (sc_id c) True) m =
      ((r1, None), m1)" "clean m1" "recorded c (m_disk m1)" "dirs (m_disk m1) = dirs (m_disk m)"
    "tx_file (m_disk m1) = tx_file (m_disk m)"
    using apply_clean [OF assms(1) plan(2,3)] by blast
  show ?thesis
  proof (cases x)
    case None
    then show ?thesis
      using assms plan(1) m1
      by (auto simp: completeActiveTarget_def finish_clean shape_def intro!: settled_finish)
  next
    case (Some y)
    then have "dirs (m_disk m1) (previous_path c) = Some y" using assms(4) m1(4) by (simp add: shape_def)
    from removeTree_clean [OF m1(2) this] obtain r2 m2 where
      "removeRecoveryTree (disk_ops mk) DeleteRepositoryRetired (previous_path c) (operationId tx)
         (Some (d_token y)) r1 True m1 = ((r2, None), m2)"
      "clean m2" "m_disk m2 = set_dir (previous_path c) None (m_disk m1)"
      by blast
    moreover have "shape c (set_dir (previous_path c) None (m_disk m1)) = (Some (sc_new c), None, None)"
      using assms(3,4) m1(4) by (auto simp: shape_def paths_apartD)
    ultimately show ?thesis
      using assms plan(1) m1 Some
      by (auto simp: completeActiveTarget_def finish_clean case_paths_def intro!: settled_finish)
  qed
qed

lemma discard_clean:
  assumes "clean m" "paths_apart c" "before c st (m_disk m)" "tx_file (m_disk m) = Some tx"
    and "rp_directory update = Some (d_token (sc_new c))"
  shows "\<exists>r m1. and_then (removeRecoveryTree (disk_ops mk) DeleteRepositoryUpdate (p_update (case_paths c)) opId
      (rp_directory update) r0 committed m) (\<lambda>result. finishRecovery (disk_ops mk) tx result committed) = ((r, None), m1) \<and>
    recovered r \<and> settled c False (m_disk m1)"
proof -
  have "dirs (m_disk m) (update_path c) = Some (sc_new c)" using assms(3) by (simp add: before_def shape_def)
  from removeTree_clean [OF assms(1) this] obtain r1 m1 where
    "removeRecoveryTree (disk_ops mk) DeleteRepositoryUpdate (update_path c) opId (Some (d_token (sc_new c))) r0
       committed m = ((r1, None), m1)" "clean m1" "m_disk m1 = set_dir (update_path c) None (m_disk m)"
    by blast
  moreover have "shape c (set_dir (update_path c) None (m_disk m)) = (sc_old c, None, None)"
    using assms(2,3) by (simp add: before_def shape_set_dir)
  ultimately show ?thesis using assms(3,4,5)
    by (auto simp: case_paths_def finish_clean before_def intro!: settled_finish)
qed

lemma rollback_clean:
  assumes "clean m" "paths_apart c" "between c (m_disk m)" "sc_old c = Some x" "tx_file (m_disk m) = Some tx"
    and "rp_directory previous = Some (d_token x)" "rp_directory update = Some (d_token (sc_new c))"
  shows "\<exists>r m1. rollback_previous (disk_ops mk) tx (case_paths c) update previous True m = ((r, None), m1) \<and>
    recovered r \<and> settled c False (m_disk m1)"
proof -
  have sh: "shape c (m_disk m) = (None, Some (sc_new c), Some x)"
    "env_file (m_disk m) = sc_env c" using assms(3,4) by (simp_all add: between_def)
  let ?d = "set_dir (repo_path c) (Some x) (set_dir (previous_path c) None (m_disk m))"
  have ren: "renameRecoveryRepository (disk_ops mk) k (previous_path c) (repo_path c) opId (Some (d_token x)) r m =
      ((r\<lparr>rec_mutationApplied := True\<rparr>, None), put ?d m)" for k opId r
    using renameRecovery_clean [OF assms(1)] sh(1) by (simp add: shape_def)
  have shd: "shape c ?d = (Some x, Some (sc_new c), None)"
    using shape_set_dir(1) [OF assms(2) shape_set_dir(3) [OF assms(2) sh(1)]] by simp
  have upd: "dirs (m_disk (put ?d m)) (update_path c) = Some (sc_new c)"
    using shd by (simp add: shape_def)
  have cl: "clean (put ?d m)" using assms(1) by simp
  from removeTree_clean [OF cl upd] obtain r1 m1 where
    "removeRecoveryTree (disk_ops mk) DeleteRepositoryUpdate (update_path c) (operationId tx)
       (Some (d_token (sc_new c))) (no_recovery\<lparr>rec_mutationApplied := True\<rparr>) True (put ?d m) = ((r1, None), m1)"
    "clean m1" "m_disk m1 = set_dir (update_path c) None ?d"
    unfolding put_sel by blast
  moreover have "shape c (set_dir (update_path c) None ?d) = (sc_old c, None, None)"
    using shape_set_dir(2) [OF assms(2) shd] assms(4) by simp
  ultimately show ?thesis using assms(5,6,7) sh(2) ren
    by (auto simp: rollback_previous_def case_paths_def finish_clean intro!: settled_finish)
qed

lemma activate_clean:
  assumes "clean m" "paths_apart c" "can_record mk c (logPath q)" "sc_old c = None"
    and "before c StageWorkspaceSwap (m_disk m) \<or> between c (m_disk m)" "tx_file (m_disk m) = Some tx"
    and "rp_directory update = Some (d_token (sc_new c))" "rp_identity update = sc_id c"
  shows "\<exists>r m1. activate_update (disk_ops mk) q tx (case_paths c) update m = ((r, None), m1) \<and>
    recovered r \<and> settled c True (m_disk m1)"
proof -
  have sh: "shape c (m_disk m) = (None, Some (sc_new c), None)" "env_file (m_disk m) = sc_env c"
    using assms(4,5) by (auto simp: between_def before_def)
  obtain plan where plan: "prepareEnvironment (disk_ops mk) q (sc_id c) False m = (Inr plan, m)"
    "plan = None \<longrightarrow> recorded c (m_disk m)" "\<forall>e. plan = Some e \<longrightarrow> already_recorded e (sc_id c)"
    using prepare_clean [OF assms(1,3)] sh(2) by blast
  let ?d = "set_dir (repo_path c) (Some (sc_new c)) (set_dir (update_path c) None (m_disk m))"
  have ren: "renameRecoveryRepository (disk_ops mk) k (update_path c) (repo_path c) opId (Some (d_token (sc_new c))) r m =
      ((r\<lparr>rec_mutationApplied := True\<rparr>, None), put ?d m)" for k opId r
    using renameRecovery_clean [OF assms(1)] sh(1) by (simp add: shape_def)
  have shd: "shape c ?d = (Some (sc_new c), None, None)"
    using shape_set_dir(1) [OF assms(2) shape_set_dir(2) [OF assms(2) sh(1)]] by simp
  have "clean (put ?d m)" "plan = None \<longrightarrow> recorded c (m_disk (put ?d m))" using assms(1) plan(2) by simp_all
  from apply_clean [OF this plan(3)] obtain r1 m1 where
    "applyEnvironment (disk_ops mk) plan ((recoveryResultWithIdentity (sc_id c) False)\<lparr>rec_mutationApplied := True\<rparr>)
       (put ?d m) = ((r1, None), m1)" "clean m1" "recorded c (m_disk m1)" "dirs (m_disk m1) = dirs ?d"
    "tx_file (m_disk m1) = tx_file ?d" by (metis put_sel(1))
  moreover have "shape c (m_disk m1) = (Some (sc_new c), None, None)"
    using shd \<open>dirs (m_disk m1) = dirs ?d\<close> by (simp add: shape_def)
  ultimately show ?thesis using assms(6,7,8) plan(1) ren
    by (auto simp: activate_update_def case_paths_def finish_clean intro!: settled_finish)
qed

lemma tx_at_sel [simp]:
  "tx_stage (tx_at c st) = st" "tx_command (tx_at c st) = tx_command (sc_tx c)"
  "operationId (tx_at c st) = operationId (sc_tx c)" "targetVersion (tx_at c st) = targetVersion (sc_tx c)"
  "targetCommit (tx_at c st) = targetCommit (sc_tx c)" "baseCommit (tx_at c st) = baseCommit (sc_tx c)"
  by (simp_all add: tx_at_def)

lemma recover_start:
  assumes "clean m" "case_ok identityOf c" "tx_file (m_disk m) = Some (tx_at c st)"
    and "st \<in> {StageWorkspaceVerify, StageWorkspaceSwap, StageWorkspaceCleanup}"
  shows "Recover identityOf (sc_layout c) (disk_ops mk) m q =
    recover_directories identityOf (disk_ops mk) q (tx_at c st) (case_paths c) m"
proof -
  have "ValidateTransaction True TransactionUpdate (tx_at c st) = None" "tx_command (sc_tx c) \<noteq> ''workspace stage''"
    using assms(2,4) update_stage_valid by (auto simp: case_ok_def tx_at_def)
  moreover have "recoveryPathsFor (sc_layout c) (operationId (sc_tx c)) = Some (case_paths c)"
    using assms(2) paths_apartD(7,8) [of c] by (simp add: case_ok_def recoveryPathsFor_def case_paths_def repo_path_def)
  ultimately show ?thesis
    using assms(1,3) by (simp add: Recover_def disk_read_def clean_read)
qed

definition valid_path :: "repositoryIdentity \<Rightarrow> directory \<Rightarrow> recoveryPath" where
  "valid_path i x = \<lparr>rp_kind = recoveryPathValid, rp_identity = i, rp_directory = Some (d_token x)\<rparr>"

definition missing_path :: recoveryPath where
  "missing_path = \<lparr>rp_kind = recoveryPathMissing, rp_identity = no_identity, rp_directory = None\<rparr>"

definition incomplete_path :: "directory \<Rightarrow> recoveryPath" where
  "incomplete_path x = \<lparr>rp_kind = recoveryPathIncomplete, rp_identity = no_identity, rp_directory = Some (d_token x)\<rparr>"

lemma path_simps [simp]:
  "rp_kind (valid_path i x) = recoveryPathValid" "rp_identity (valid_path i x) = i"
  "rp_directory (valid_path i x) = Some (d_token x)" "rp_kind missing_path = recoveryPathMissing"
  "rp_directory missing_path = None" "rp_kind (incomplete_path x) = recoveryPathIncomplete"
  "rp_directory (incomplete_path x) = Some (d_token x)" "path_exists (valid_path i x)" "\<not> path_exists missing_path"
  "path_exists (incomplete_path x)" "path_isTarget (valid_path i x) v = (ri_version i = v)"
  "\<not> path_isTarget missing_path v" "\<not> path_isTarget (incomplete_path x) v"
  by (simp_all add: valid_path_def missing_path_def incomplete_path_def path_exists_def path_isTarget_def)

lemma classify_missing:
  "clean m \<Longrightarrow> dirs (m_disk m) p = None \<Longrightarrow> classifyPath identityOf (disk_ops mk) m p policy = Inr missing_path"
  by (simp add: classify_clean missing_path_def)

lemma classify_valid:
  "\<lbrakk>clean m; dirs (m_disk m) p = Some x; holds identityOf x i\<rbrakk> \<Longrightarrow>
   classifyPath identityOf (disk_ops mk) m p policy = Inr (valid_path i x)"
  by (auto simp: classify_clean valid_path_def holds_def)

lemma classify_lenient:
  assumes "clean m" "dirs (m_disk m) p = Some x" "allowUnreadable policy" "allowInvalidIdentity policy"
  shows "\<exists>y. classifyPath identityOf (disk_ops mk) m p policy = Inr y \<and>
    (y = incomplete_path x \<or> (\<exists>i. holds identityOf x i \<and> y = valid_path i x))"
  using assms by (auto simp: classify_clean Let_def valid_path_def incomplete_path_def holds_def split: content.splits sum.splits)

lemmas classified_defs = recover_classified_def commit_mismatch_def recoverBeforeSwap_def recoverSwap_def
  isRecoveryTarget_def Let_def

lemma case_ids:
  assumes "case_ok identityOf c"
  shows "ri_version (sc_id c) = targetVersion (sc_tx c)" "ri_commit (sc_id c) = targetCommit (sc_tx c)"
    "targetCommit (sc_tx c) \<noteq> ''''" "targetCommit (sc_tx c) \<noteq> baseCommit (sc_tx c)"
    "baseCommit (sc_tx c) \<noteq> targetCommit (sc_tx c)"
  using assms by (auto simp: case_ok_def)

lemma recover_before:
  assumes "clean m" "case_ok identityOf c" "before c st (m_disk m)" "sc_old c = Some x"
    and "st = StageWorkspaceVerify \<or> st = StageWorkspaceSwap"
  shows "\<exists>r m1. Recover identityOf (sc_layout c) (disk_ops mk) m q = ((r, None), m1) \<and> recovered r \<and>
    settled c False (m_disk m1)"
proof -
  obtain i where new: "holds identityOf (sc_new c) (sc_id c)"
    and old: "holds identityOf x i" "ri_commit i = baseCommit (sc_tx c)"
    using assms(2,4) unfolding case_ok_def by blast
  note ids = case_ids [OF assms(2)]
  have d: "dirs (m_disk m) (repo_path c) = Some x" "dirs (m_disk m) (update_path c) = Some (sc_new c)"
    "dirs (m_disk m) (previous_path c) = None" and tx: "tx_file (m_disk m) = Some (tx_at c st)"
    using assms(3,4) by (simp_all add: before_def shape_def)
  have "Recover identityOf (sc_layout c) (disk_ops mk) m q =
    recover_classified (disk_ops mk) q (tx_at c st) (case_paths c) (valid_path i x) (valid_path (sc_id c) (sc_new c))
      missing_path m"
    using recover_start [OF assms(1,2) tx] assms(5)
      classify_valid [OF assms(1) d(1) old(1)] classify_valid [OF assms(1) d(2) new] classify_missing [OF assms(1) d(3)]
    by (auto simp: recover_directories_def case_paths_def)
  also have "\<dots> = and_then (removeRecoveryTree (disk_ops mk) DeleteRepositoryUpdate (p_update (case_paths c))
      (operationId (sc_tx c)) (rp_directory (valid_path (sc_id c) (sc_new c))) no_recovery False m)
      (\<lambda>result. finishRecovery (disk_ops mk) (tx_at c st) result False)"
    using assms(5) by (rule disjE) (simp_all add: classified_defs ids old(2))
  finally show ?thesis using discard_clean [OF assms(1) _ assms(3) tx, of "valid_path (sc_id c) (sc_new c)"] assms(2)
    by (simp add: case_ok_def)
qed

lemma recover_between:
  assumes "clean m" "case_ok identityOf c" "between c (m_disk m)" "sc_old c = Some x"
  shows "\<exists>r m1. Recover identityOf (sc_layout c) (disk_ops mk) m q = ((r, None), m1) \<and> recovered r \<and>
    settled c False (m_disk m1)"
proof -
  obtain i where new: "holds identityOf (sc_new c) (sc_id c)"
    and old: "holds identityOf x i" "ri_commit i = baseCommit (sc_tx c)"
    using assms(2,4) unfolding case_ok_def by blast
  note ids = case_ids [OF assms(2)]
  have d: "dirs (m_disk m) (repo_path c) = None" "dirs (m_disk m) (update_path c) = Some (sc_new c)"
    "dirs (m_disk m) (previous_path c) = Some x" and tx: "tx_file (m_disk m) = Some (tx_at c StageWorkspaceSwap)"
    using assms(3,4) by (simp_all add: between_def shape_def)
  have "Recover identityOf (sc_layout c) (disk_ops mk) m q =
    recover_classified (disk_ops mk) q (tx_at c StageWorkspaceSwap) (case_paths c) missing_path
      (valid_path (sc_id c) (sc_new c)) (valid_path i x) m"
    using recover_start [OF assms(1,2) tx]
      classify_missing [OF assms(1) d(1)] classify_valid [OF assms(1) d(2) new] classify_valid [OF assms(1) d(3) old(1)]
    by (simp add: recover_directories_def case_paths_def)
  also have "\<dots> = rollback_previous (disk_ops mk) (tx_at c StageWorkspaceSwap) (case_paths c)
      (valid_path (sc_id c) (sc_new c)) (valid_path i x) True m"
    by (simp add: classified_defs ids old(2))
  finally show ?thesis
    using rollback_clean [OF assms(1) _ assms(3,4) tx, of "valid_path i x" "valid_path (sc_id c) (sc_new c)"] assms(2)
    by (simp add: case_ok_def)
qed

lemma recover_first:
  assumes "clean m" "case_ok identityOf c" "sc_old c = None" "can_record mk c (logPath q)"
    and "before c StageWorkspaceSwap (m_disk m) \<or> between c (m_disk m)"
  shows "\<exists>r m1. Recover identityOf (sc_layout c) (disk_ops mk) m q = ((r, None), m1) \<and> recovered r \<and>
    settled c True (m_disk m1)"
proof -
  have new: "holds identityOf (sc_new c) (sc_id c)" using assms(2) unfolding case_ok_def by blast
  note ids = case_ids [OF assms(2)]
  have d: "dirs (m_disk m) (repo_path c) = None" "dirs (m_disk m) (update_path c) = Some (sc_new c)"
    "dirs (m_disk m) (previous_path c) = None" and tx: "tx_file (m_disk m) = Some (tx_at c StageWorkspaceSwap)"
    using assms(3,5) by (auto simp: between_def before_def shape_def)
  have "Recover identityOf (sc_layout c) (disk_ops mk) m q =
    recover_classified (disk_ops mk) q (tx_at c StageWorkspaceSwap) (case_paths c) missing_path
      (valid_path (sc_id c) (sc_new c)) missing_path m"
    using recover_start [OF assms(1,2) tx] classify_missing [OF assms(1) d(1)]
      classify_valid [OF assms(1) d(2) new] classify_missing [OF assms(1) d(3)]
    by (simp add: recover_directories_def case_paths_def)
  also have "\<dots> = activate_update (disk_ops mk) q (tx_at c StageWorkspaceSwap) (case_paths c)
      (valid_path (sc_id c) (sc_new c)) m"
    by (simp add: classified_defs ids)
  finally show ?thesis
    using activate_clean [OF assms(1) _ assms(4,3,5) tx, of "valid_path (sc_id c) (sc_new c)"] assms(2)
    by (simp add: case_ok_def)
qed

text \<open>A repository without its shallow boundary is not recognised.\<close>

definition shallow_needed :: "(repositorySnapshot \<Rightarrow> unit + repositoryIdentity) \<Rightarrow> bool" where
  "shallow_needed identityOf \<longleftrightarrow> (\<forall>s i. identityOf (s\<lparr>shallow := []\<rparr>) \<noteq> Inr i)"

lemma identity_needs_shallow: "shallow_needed (repositoryIdentityFromSnapshot catalog parse)"
  by (auto simp: shallow_needed_def elim: identity_parts)

lemma fold_damaged_cases:
  "fold damaged xs c = c \<or> fold damaged xs c = Unreadable \<or> (\<exists>s. fold damaged xs c = Readable (s\<lparr>shallow := []\<rparr>))"
proof (induction xs rule: rev_induct)
  case (snoc y ys)
  then show ?case by (cases y; cases "fold damaged ys c") auto
qed simp

lemma remains_identity:
  assumes "shallow_needed identityOf" "case_ok identityOf c" "remains c (Some y)" "holds identityOf y i"
  shows "ri_commit i = baseCommit (sc_tx c)"
proof -
  obtain z xs where z: "sc_old c = Some z" and y: "y = z\<lparr>d_content := fold damaged xs (d_content z)\<rparr>"
    using assms(3) by (auto simp: remains_def)
  obtain j where j: "holds identityOf z j" "ri_commit j = baseCommit (sc_tx c)"
    using assms(2) z by (auto simp: case_ok_def)
  have "d_content y = fold damaged xs (d_content z)" by (simp add: y)
  then have "d_content y = d_content z"
    using fold_damaged_cases [of xs "d_content z"] assms(1,4) by (auto simp: holds_def shallow_needed_def)
  with j assms(4) show ?thesis by (auto simp: holds_def)
qed

lemma recover_active:
  assumes "clean m" "case_ok identityOf c" "can_record mk c (logPath q)" "shallow_needed identityOf"
    and "activated c StageWorkspaceSwap (m_disk m) \<or> activated c StageWorkspaceCleanup (m_disk m) \<or> cleaning c (m_disk m)"
  shows "\<exists>r m1. Recover identityOf (sc_layout c) (disk_ops mk) m q = ((r, None), m1) \<and> recovered r \<and>
    settled c True (m_disk m1)"
proof -
  have new: "holds identityOf (sc_new c) (sc_id c)" and old: "\<And>x. sc_old c = Some x \<Longrightarrow>
      \<exists>i. holds identityOf x i \<and> ri_commit i = baseCommit (sc_tx c)"
    using assms(2) unfolding case_ok_def by blast+
  note ids = case_ids [OF assms(2)]
  obtain x st where sh: "shape c (m_disk m) = (Some (sc_new c), None, x)" and tx: "tx_file (m_disk m) = Some (tx_at c st)"
    and st: "st = StageWorkspaceSwap \<and> x = sc_old c \<or> st = StageWorkspaceCleanup \<and> remains c x"
    and env: "env_file (m_disk m) = sc_env c \<or> recorded c (m_disk m)"
    using assms(5) by (auto simp: activated_def cleaning_def)
  have d: "dirs (m_disk m) (repo_path c) = Some (sc_new c)" "dirs (m_disk m) (update_path c) = None"
    "dirs (m_disk m) (previous_path c) = x" using sh by (simp_all add: shape_def)
  have "\<exists>previous. classifyPath identityOf (disk_ops mk) m (previous_path c)
          \<lparr>allowUnreadable = (st = StageWorkspaceCleanup), allowInvalidIdentity = (st = StageWorkspaceCleanup)\<rparr> =
        Inr previous \<and>
      (x = None \<and> previous = missing_path \<or>
       (\<exists>y i. x = Some y \<and> previous = valid_path i y \<and> ri_commit i = baseCommit (sc_tx c)) \<or>
       (\<exists>y. x = Some y \<and> previous = incomplete_path y \<and> st = StageWorkspaceCleanup))"
  proof (cases x)
    case None
    with classify_missing [OF assms(1)] d(3) show ?thesis by blast
  next
    case (Some y)
    show ?thesis
    proof (cases "st = StageWorkspaceCleanup")
      case True
      with st Some have rem: "remains c (Some y)" by auto
      obtain z where z: "classifyPath identityOf (disk_ops mk) m (previous_path c)
          \<lparr>allowUnreadable = (st = StageWorkspaceCleanup), allowInvalidIdentity = (st = StageWorkspaceCleanup)\<rparr> =
        Inr z" "z = incomplete_path y \<or> (\<exists>i. holds identityOf y i \<and> z = valid_path i y)"
        using classify_lenient [OF assms(1) d(3) [unfolded Some], of "\<lparr>allowUnreadable = (st = StageWorkspaceCleanup),
          allowInvalidIdentity = (st = StageWorkspaceCleanup)\<rparr>" identityOf mk] True
        by auto
      from z(2) Some True remains_identity [OF assms(4,2) rem]
      have "(\<exists>y i. x = Some y \<and> z = valid_path i y \<and> ri_commit i = baseCommit (sc_tx c)) \<or>
       (\<exists>y. x = Some y \<and> z = incomplete_path y \<and> st = StageWorkspaceCleanup)" by blast
      with z(1) show ?thesis by blast
    next
      case False
      with st Some old [of y] obtain i where "holds identityOf y i" "ri_commit i = baseCommit (sc_tx c)" by auto
      with classify_valid [OF assms(1) d(3) [unfolded Some]] Some show ?thesis by blast
    qed
  qed
  then obtain previous where cls: "classifyPath identityOf (disk_ops mk) m (previous_path c)
          \<lparr>allowUnreadable = (st = StageWorkspaceCleanup), allowInvalidIdentity = (st = StageWorkspaceCleanup)\<rparr> =
        Inr previous"
    and prev: "x = None \<and> previous = missing_path \<or>
       (\<exists>y i. x = Some y \<and> previous = valid_path i y \<and> ri_commit i = baseCommit (sc_tx c)) \<or>
       (\<exists>y. x = Some y \<and> previous = incomplete_path y \<and> st = StageWorkspaceCleanup)" by blast
  have "Recover identityOf (sc_layout c) (disk_ops mk) m q =
    recover_classified (disk_ops mk) q (tx_at c st) (case_paths c) (valid_path (sc_id c) (sc_new c)) missing_path
      previous m"
    using recover_start [OF assms(1,2) tx] st classify_valid [OF assms(1) d(1) new]
      classify_missing [OF assms(1) d(2)] cls
    by (auto simp: recover_directories_def case_paths_def)
  also have "\<dots> = completeActiveTarget (disk_ops mk) q (tx_at c st) (case_paths c) (sc_id c) previous m"
    using prev st by (elim disjE conjE exE) (simp_all add: classified_defs ids)
  finally show ?thesis
    using complete_clean [OF assms(1,3) _ sh tx env, of previous] prev assms(2) by (auto simp: case_ok_def)
qed

section \<open>Properties\<close>

text \<open>The constructor of the store as the recovery sees it, and what it needs to succeed.\<close>

definition new_broken ::
  "path_api \<Rightarrow> string option \<Rightarrow> int \<Rightarrow> State_Environment.Revision \<Rightarrow> BrokenEnvironment \<Rightarrow> Cause + EnvironmentState" where
  "new_broken api log_dir now l b =
     (case NewBrokenEnvironment api log_dir now l b of Inl _ \<Rightarrow> Inl plain_cause | Inr e \<Rightarrow> Inr e)"

definition environment_writable :: "path_api \<Rightarrow> string option \<Rightarrow> int \<Rightarrow> string \<Rightarrow> swap_case \<Rightarrow> bool" where
  "environment_writable api log_dir now lp c \<longleftrightarrow>
     validateRuntimeLogPath api log_dir lp = None \<and> validateTimestamp ''updatedAt'' \<lparr>instant = now, zone_offset = 0\<rparr> = None \<and>
     (\<forall>e. sc_env c = Some e \<longrightarrow> validateEnvironment api log_dir e = None)"

lemma new_broken_Inr:
  assumes "new_broken api log_dir now l b = Inr e"
  shows "env_status e = StateEnvironmentBroken \<and> env_broken e = Some b"
  using assms by (auto simp: new_broken_def NewBrokenEnvironment_def bindE_Inr_iff checked_environment_Inr split: sum.splits)

lemma valid_last_successful: "validateEnvironment api log_dir e = None \<Longrightarrow> validateRevision (env_lastSuccessful e) = None"
  by (auto simp: validateEnvironment_def split: option.splits if_splits)

lemma recognised_id_valid:
  assumes "holds (repositoryIdentityFromSnapshot catalog parse) x i"
  shows "validVersion (ri_version i)"
    "ri_branch i = ''release/'' @ ri_version i \<or> (ri_branch i = ''dev'' \<and> ProductBranch (ri_version i) = ''dev'')"
    "validCommit (ri_commit i)"
  using assms snapshot_target_sound by (auto simp: holds_def elim!: identity_parts) fastforce+

lemma environment_writable_can_record:
  assumes "environment_writable api log_dir now lp c"
    and "holds (repositoryIdentityFromSnapshot catalog parse) (sc_new c) (sc_id c)"
  shows "can_record (new_broken api log_dir now) c lp"
proof -
  have lp: "validateRuntimeLogPath api log_dir lp = None" and now: "sampleTime ''updatedAt'' now = Inr \<lparr>instant = now, zone_offset = 0\<rparr>"
    using assms(1) by (auto simp: environment_writable_def sampleTime_def Let_def)
  have "\<exists>e. new_broken api log_dir now l (changed_environment (ri_version (sc_id c)) (ri_branch (sc_id c))
      (ri_commit (sc_id c)) lp) = Inr e" if "validateRevision l = None" for l
    using changed_environment_valid [OF recognised_id_valid [OF assms(2)] lp] now that assms(1)
    by (simp add: new_broken_def NewBrokenEnvironment_def checked_environment_def validateEnvironment_def
        environment_writable_def)
  moreover have "lp \<noteq> ''''" using lp by (auto simp: validateRuntimeLogPath_def split: option.splits)
  moreover have "validateRevision \<lparr>rev_version = '''', rev_commit = ''''\<rparr> = None" by (simp add: validateRevision_def)
  ultimately show ?thesis
    using assms(1) valid_last_successful new_broken_Inr
    unfolding can_record_def records_def environment_writable_def by blast
qed

text \<open>A machine that starts after a crash, with nothing going wrong.\<close>

definition restarted :: "disk \<Rightarrow> machine" where
  "restarted d = \<lparr>m_disk = d, m_past = [], m_faults = [], m_ended = False\<rparr>"


section \<open>The recovery under faults\<close>

lemma classify_Inr:
  assumes "classifyPath identityOf (disk_ops mk) m p policy = Inr y"
  shows "dirs (m_disk m) p = None \<and> y = missing_path \<or>
    (\<exists>x. dirs (m_disk m) p = Some x \<and>
       (y = incomplete_path x \<and> (allowUnreadable policy \<or> allowInvalidIdentity policy) \<or>
        (\<exists>i. holds identityOf x i \<and> y = valid_path i x)))"
  using assms
  by (auto simp: classifyPath_def disk_ops_reads holds_def missing_path_def incomplete_path_def valid_path_def
      split: option.splits content.splits sum.splits if_splits)

text \<open>The disks that a recovery in the cleanup stage passes through.\<close>

definition finishing :: "swap_case \<Rightarrow> disk \<Rightarrow> bool" where
  "finishing c d \<longleftrightarrow> activated c StageWorkspaceCleanup d \<or> cleaning c d \<or> settled c True d"

lemma prepare_seen:
  assumes "records mk" "prepareEnvironment (disk_ops mk) q (sc_id c) committed m = (plan, m1)"
  shows "m1 = m \<and> (\<forall>e. plan = Inr (Some e) \<longrightarrow> already_recorded e (sc_id c)) \<and>
    (plan = Inr None \<longrightarrow> recorded c (m_disk m))"
  using assms records_already [OF assms(1)]
  by (auto simp: prepareEnvironment_def Let_def disk_read_def recorded_def split: sum.splits if_splits option.splits)

lemma apply_seen:
  assumes "applyEnvironment (disk_ops mk) plan r m = ((r1, e1), m1)" "seen (finishing c) m"
    and "activated c StageWorkspaceCleanup (m_disk m) \<or> cleaning c (m_disk m)"
    and "plan = None \<longrightarrow> recorded c (m_disk m)" "\<forall>e. plan = Some e \<longrightarrow> already_recorded e (sc_id c)"
  shows "seen (finishing c) m1 \<and> (e1 = None \<longrightarrow> cleaning c (m_disk m1) \<and> dirs (m_disk m1) = dirs (m_disk m))"
proof (cases plan)
  case None
  then show ?thesis using assms by (auto simp: applyEnvironment_def activated_def cleaning_def)
next
  case (Some e)
  obtain e2 m2 where m2: "disk_write (\<lambda>d. d\<lparr>env_file := Some e\<rparr>) m = (e2, m2)" by fastforce
  have rec: "cleaning c ((m_disk m)\<lparr>env_file := Some e\<rparr>)"
    using assms(3,5) Some by (auto simp: activated_def cleaning_def recorded_def)
  from m2 have "seen (finishing c) m2 \<and> (e2 = None \<longrightarrow> cleaning c (m_disk m2) \<and> dirs (m_disk m2) = dirs (m_disk m))"
    by (rule write_step) (use assms(2) rec in \<open>auto simp: finishing_def\<close>)
  then show ?thesis using assms(1) Some m2 by (auto simp: applyEnvironment_def split: if_splits)
qed

lemma finish_seen:
  assumes "finishRecovery (disk_ops mk) (tx_at c StageWorkspaceCleanup) r committed m = ((r1, e1), m1)"
    and "seen (finishing c) m" "cleaning c (m_disk m)" "dirs (m_disk m) (previous_path c) = None"
  shows "seen (finishing c) m1"
proof -
  have settled: "settled c True ((m_disk m)\<lparr>tx_file := None\<rparr>)" and tx: "tx_file (m_disk m) = Some (tx_at c StageWorkspaceCleanup)"
    using assms(3,4) by (auto simp: cleaning_def settled_def shape_def)
  obtain e2 m2 where m2: "disk_write (\<lambda>d. d\<lparr>tx_file := None\<rparr>) m = (e2, m2)" by fastforce
  then have "seen (finishing c) m2"
    by (rule write_step) (use assms(2) settled in \<open>auto simp: finishing_def\<close>)
  then show ?thesis using assms(1) tx m2 by (auto simp: finishRecovery_def split: option.splits)
qed

lemma removePrevious_seen:
  assumes "removeRecoveryTree (disk_ops mk) k (previous_path c) opId ex r committed m = ((r1, e1), m1)"
    and "paths_apart c" "seen (finishing c) m" "cleaning c (m_disk m)"
  shows "seen (finishing c) m1 \<and> (e1 = None \<longrightarrow> cleaning c (m_disk m1) \<and> dirs (m_disk m1) (previous_path c) = None)"
proof -
  let ?q = "\<lparr>dr_kind = k, dr_target = previous_path c, dr_operationId = opId, dr_expected = ex\<rparr>"
  obtain del e2 m2 where m2: "disk_remove m ?q = ((del, e2), m2)" by (metis prod.exhaust)
  obtain x where sh: "shape c (m_disk m) = (Some (sc_new c), None, x)" "remains c x"
    using assms(4) by (auto simp: cleaning_def)
  have clean: "cleaning c (set_dir (previous_path c) y (m_disk m))" if "remains c y" for y
    using that assms(4) shape_set_dir(3) [OF assms(2) sh(1)] by (auto simp: cleaning_def)
  have "remains c (Some (y\<lparr>d_content := z\<rparr>))"
    if "dirs (m_disk m) (previous_path c) = Some y" "\<exists>xs. z = fold damaged xs (d_content y)" for y z
  proof -
    note damage = that(2)
    have "remains c (Some y)" using that(1) sh by (simp add: shape_def)
    then obtain w xs where w: "sc_old c = Some w" "y = w\<lparr>d_content := fold damaged xs (d_content w)\<rparr>"
      unfolding remains_def option.case by blast
    obtain ys where "z = fold damaged ys (d_content y)" using damage by blast
    then have "y\<lparr>d_content := z\<rparr> = w\<lparr>d_content := fold damaged (xs @ ys) (d_content w)\<rparr>" by (simp add: w(2))
    with w(1) show ?thesis unfolding remains_def option.case by blast
  qed
  then have "seen (finishing c) m2 \<and> (e2 = None \<and> \<not> partial del \<longrightarrow> m_disk m2 = set_dir (previous_path c) None (m_disk m))"
    using remove_step [OF m2 assms(3)] clean by (auto simp: finishing_def)
  then show ?thesis using assms(1) m2 clean [of None]
    by (auto simp: removeRecoveryTree_def Let_def split: option.splits if_splits)
qed

lemma complete_seen:
  assumes "records mk" "paths_apart c" "seen (finishing c) m"
    and "activated c StageWorkspaceCleanup (m_disk m) \<or> cleaning c (m_disk m)"
    and "path_exists previous = (dirs (m_disk m) (previous_path c) \<noteq> None)"
    and "completeActiveTarget (disk_ops mk) q (tx_at c StageWorkspaceCleanup) (case_paths c) (sc_id c) previous m =
      ((r, e), m')"
  shows "seen (finishing c) m'"
proof -
  obtain plan m0 where plan: "prepareEnvironment (disk_ops mk) q (sc_id c) True m = (plan, m0)" by fastforce
  note prep = prepare_seen [OF assms(1) plan]
  show ?thesis
  proof (cases plan)
    case (Inl x)
    with assms(3,6) plan prep show ?thesis by (auto simp: completeActiveTarget_def)
  next
    case (Inr env)
    obtain r1 e1 m1 where ap: "applyEnvironment (disk_ops mk) env (recoveryResultWithIdentity (sc_id c) True) m =
        ((r1, e1), m1)" by (metis prod.exhaust)
    have s1: "seen (finishing c) m1" "e1 = None \<longrightarrow> cleaning c (m_disk m1) \<and> dirs (m_disk m1) = dirs (m_disk m)"
      using apply_seen [OF ap assms(3,4)] prep Inr by auto
    show ?thesis
    proof (cases "e1 = None \<and> path_exists previous")
      case False
      with assms(5,6) plan prep Inr ap s1 finish_seen [OF _ s1(1)] show ?thesis
        by (cases e1) (auto simp: completeActiveTarget_def)
    next
      case True
      obtain r2 e2 m2 where rm: "removeRecoveryTree (disk_ops mk) DeleteRepositoryRetired (previous_path c)
          (operationId (sc_tx c)) (rp_directory previous) r1 True m1 = ((r2, e2), m2)" by (metis prod.exhaust)
      have s2: "seen (finishing c) m2"
        "e2 = None \<longrightarrow> cleaning c (m_disk m2) \<and> dirs (m_disk m2) (previous_path c) = None"
        using removePrevious_seen [OF rm assms(2) s1(1)] s1(2) True by auto
      with assms(6) plan prep Inr ap rm True finish_seen [OF _ s2(1)] show ?thesis
        by (cases e2) (auto simp: completeActiveTarget_def case_paths_def)
    qed
  qed
qed

lemma recover_directories_outcome:
  assumes "recover_directories identityOf ops q tx paths w = ((r, e), w')"
  obtains (refused) "w' = w" "e \<noteq> None"
    | (classified) a b p where
      "classifyPath identityOf ops w (p_repository paths)
         \<lparr>allowUnreadable = (tx_stage tx = StageWorkspaceClone \<or> tx_stage tx = StageWorkspaceVerify \<or> tx_stage tx = StageWorkspaceSwap),
          allowInvalidIdentity = (tx_stage tx = StageWorkspaceSwap)\<rparr> = Inr a"
      "classifyPath identityOf ops w (p_update paths)
         \<lparr>allowUnreadable = (tx_stage tx = StageWorkspaceClone), allowInvalidIdentity = False\<rparr> = Inr b"
      "classifyPath identityOf ops w (p_previous paths)
         \<lparr>allowUnreadable = (tx_stage tx = StageWorkspaceCleanup), allowInvalidIdentity = (tx_stage tx = StageWorkspaceCleanup)\<rparr> = Inr p"
      "recover_classified ops q tx paths a b p w = ((r, e), w')"
  using assms by (auto simp: recover_directories_def Let_def split: sum.splits)

lemma recover_finishing:
  assumes "case_ok identityOf c" "records mk" "shallow_needed identityOf" "seen (finishing c) m"
    and "Recover identityOf (sc_layout c) (disk_ops mk) m q = ((r, e), m')"
  shows "seen (finishing c) m'"
proof (cases "settled c True (m_disk m)")
  case True
  then have "m' = m" using assms(5)
    by (auto simp: Recover_def disk_read_def settled_def plain_cause_def split: option.splits sum.splits if_splits)
  with assms(4) show ?thesis by simp
next
  case False
  then have phase: "activated c StageWorkspaceCleanup (m_disk m) \<or> cleaning c (m_disk m)"
    using assms(4) by (auto simp: seen_def finishing_def)
  have apart: "paths_apart c" and new: "holds identityOf (sc_new c) (sc_id c)" using assms(1) by (auto simp: case_ok_def)
  note ids = case_ids [OF assms(1)]
  obtain x where tx: "tx_file (m_disk m) = Some (tx_at c StageWorkspaceCleanup)"
    and sh: "shape c (m_disk m) = (Some (sc_new c), None, x)" and rem: "remains c x"
    using phase by (auto simp: activated_def cleaning_def)
  have d: "dirs (m_disk m) (repo_path c) = Some (sc_new c)" "dirs (m_disk m) (update_path c) = None"
    "dirs (m_disk m) (previous_path c) = x" using sh by (simp_all add: shape_def)
  have "ValidateTransaction True TransactionUpdate (tx_at c StageWorkspaceCleanup) = None"
    "tx_command (sc_tx c) \<noteq> ''workspace stage''"
    using assms(1) update_stage_valid by (auto simp: case_ok_def tx_at_def)
  moreover have "recoveryPathsFor (sc_layout c) (operationId (sc_tx c)) = Some (case_paths c)"
    using apart paths_apartD(7,8) [of c] by (simp add: recoveryPathsFor_def case_paths_def repo_path_def)
  ultimately consider "m' = m" | "recover_directories identityOf (disk_ops mk) q (tx_at c StageWorkspaceCleanup)
      (case_paths c) m = ((r, e), m')"
    using assms(5) tx by (auto simp: Recover_def disk_read_def split: option.splits if_splits)
  then show ?thesis
  proof cases
    case 2
    from 2 show ?thesis
    proof (cases rule: recover_directories_outcome)
      case refused
      with assms(4) show ?thesis by simp
    next
      case (classified a b p)
      note cls = classified(1-3) [unfolded tx_at_sel case_paths_def, simplified]
      have a: "a = valid_path (sc_id c) (sc_new c)"
        using classify_Inr [OF cls(1)] d(1) new by (auto simp: holds_def)
      have b: "b = missing_path" using classify_Inr [OF cls(2)] d(2) by auto
      have p: "x = None \<and> p = missing_path \<or> (\<exists>y. x = Some y \<and> (p = incomplete_path y \<or>
          (\<exists>i. ri_commit i = baseCommit (sc_tx c) \<and> p = valid_path i y)))"
      proof (cases x)
        case None
        with classify_Inr [OF cls(3)] d(3) show ?thesis by auto
      next
        case (Some y)
        have "\<And>i. holds identityOf y i \<Longrightarrow> ri_commit i = baseCommit (sc_tx c)"
          using remains_identity [OF assms(3,1)] rem Some by blast
        moreover have "p = incomplete_path y \<or> (\<exists>i. holds identityOf y i \<and> p = valid_path i y)"
          using classify_Inr [OF cls(3)] d(3) Some by auto
        ultimately show ?thesis using Some by blast
      qed
      have "completeActiveTarget (disk_ops mk) q (tx_at c StageWorkspaceCleanup) (case_paths c) (sc_id c) p m =
          ((r, e), m')"
        using p classified(4) unfolding a b by (elim disjE conjE exE) (simp_all add: classified_defs ids)
      moreover have "path_exists p = (dirs (m_disk m) (previous_path c) \<noteq> None)" using p d(3) by auto
      ultimately show ?thesis using complete_seen [OF assms(2) apart assms(4) phase] by blast
    qed
  qed (use assms(4) in simp)
qed

text \<open>The disks that crashed recoveries can lead to: each starts from a disk where an earlier one was cut off,
  meets its own faults and may find its context already ended.\<close>

inductive recovery_reach ::
  "(repositorySnapshot \<Rightarrow> unit + repositoryIdentity) \<Rightarrow> git_layout \<Rightarrow> machine git_ops \<Rightarrow> disk \<Rightarrow> disk \<Rightarrow> bool"
  for identityOf layout ops d where
  crash_start: "recovery_reach identityOf layout ops d d"
| crash_again: "recovery_reach identityOf layout ops d d1 \<Longrightarrow>
    Recover identityOf layout ops \<lparr>m_disk = d1, m_past = [], m_faults = fs, m_ended = b\<rparr> q = (res, m') \<Longrightarrow>
    d2 \<in> set (m_disk m' # m_past m') \<Longrightarrow> recovery_reach identityOf layout ops d d2"

lemma reach_finishing:
  assumes "recovery_reach identityOf (sc_layout c) (disk_ops mk) d d'"
    and "case_ok identityOf c" "records mk" "shallow_needed identityOf" "finishing c d"
  shows "finishing c d'"
  using assms(1)
proof (induction rule: recovery_reach.induct)
  case (crash_again d1 fs b q res m' d2)
  obtain r e where res: "res = (r, e)" by fastforce
  have "seen (finishing c) \<lparr>m_disk = d1, m_past = [], m_faults = fs, m_ended = b\<rparr>"
    using crash_again.IH by (simp add: seen_def)
  then have "seen (finishing c) m'"
    using recover_finishing [OF assms(2-4)] crash_again.hyps(2) res by blast
  with crash_again.hyps(3) show ?case by (auto simp: seen_def)
qed (rule assms(5))

text \<open>C6: from the moment the cleanup stage is written, recoveries may be cut off any number of times under any
  faults: the new repository stays in place, the transaction only goes after the change was recorded,
  and the first recovery without faults leaves the new repository, no temporary directory and an
  environment that is broken because of it.\<close>

theorem committed_update_survives:
  assumes "case_ok (repositoryIdentityFromSnapshot catalog parse) c"
    and "environment_writable api log_dir now (logPath rq) c"
    and "activated c StageWorkspaceCleanup d \<or> cleaning c d"
    and "recovery_reach (repositoryIdentityFromSnapshot catalog parse) (sc_layout c)
      (disk_ops (new_broken api log_dir now)) d d'"
  shows "dirs d' (repo_path c) = Some (sc_new c) \<and> (tx_file d' = None \<longrightarrow> recorded c d') \<and>
    (\<exists>r m''. Recover (repositoryIdentityFromSnapshot catalog parse) (sc_layout c)
      (disk_ops (new_broken api log_dir now)) (restarted d') rq = ((r, None), m'') \<and> settled c True (m_disk m''))"
proof -
  let ?I = "repositoryIdentityFromSnapshot catalog parse"
  have "holds ?I (sc_new c) (sc_id c)" using assms(1) by (simp add: case_ok_def)
  note rec = environment_writable_can_record [OF assms(2) this]
  then have "records (new_broken api log_dir now)" by (simp add: can_record_def)
  from reach_finishing [OF assms(4,1) this identity_needs_shallow] assms(3) have d': "finishing c d'"
    by (auto simp: finishing_def)
  have cl: "clean (restarted d')" and dd: "m_disk (restarted d') = d'" by (simp_all add: restarted_def clean_def)
  show ?thesis
  proof (cases "settled c True d'")
    case True
    then have "Recover ?I (sc_layout c) (disk_ops (new_broken api log_dir now)) (restarted d') rq =
        ((no_recovery, None), restarted d')"
      by (simp add: Recover_def disk_read_def clean_read [OF cl] dd settled_def)
    with True show ?thesis by (auto simp: settled_def shape_def dd)
  next
    case False
    then have phase: "activated c StageWorkspaceCleanup d' \<or> cleaning c d'" using d' by (auto simp: finishing_def)
    then have "dirs d' (repo_path c) = Some (sc_new c)" "tx_file d' \<noteq> None"
      by (auto simp: activated_def cleaning_def shape_def)
    with phase recover_active [OF cl assms(1) rec identity_needs_shallow] show ?thesis unfolding dd by blast
  qed
qed

section \<open>A refusal touches nothing\<close>

text \<open>An error that says that the scene cannot be judged, other than for a directory that was exchanged while
  it was handled.\<close>

definition refusal :: "GitError \<Rightarrow> bool" where
  "refusal e \<longleftrightarrow> ge_code e = CodeUpdateStateAmbiguous \<and> ge_reason e \<noteq> Some ''directory_identity_changed''"

lemma no_refusal [simp]:
  "\<not> refusal (mapTransactionWriteFailure b s c)" "\<not> refusal (mapCommittedTransactionWriteFailure s)"
  "\<not> refusal mapCommittedCleanupFailure" "\<not> refusal (swapFailureError s)" "\<not> refusal (mapRenameFailure b c x y)"
  "\<not> refusal (recoveryCancelledError s)" "\<not> refusal recoveryInternalError"
  "\<not> refusal (recoveryAmbiguousError s ''directory_identity_changed'')"
  "\<not> refusal (newError CodeGitRepoCleanupFailed s reason)"
  by (simp_all add: refusal_def newError_def newCommittedError_def mapTransactionWriteFailure_def
      mapCommittedTransactionWriteFailure_def mapCommittedCleanupFailure_def swapFailureError_def
      mapRenameFailure_def swapAmbiguous_def recoveryCancelledError_def recoveryInternalError_def
      recoveryAmbiguousError_def recoveryAmbiguousErrorWithCommitted_def)

lemma finish_no_refusal: "finishRecovery ops tx r b w = ((r1, Some e), w1) \<Longrightarrow> \<not> refusal e"
  by (cases b) (auto simp: finishRecovery_def split: prod.splits option.splits)

lemma remove_no_refusal: "removeRecoveryTree ops k p i x r b w = ((r1, Some e), w1) \<Longrightarrow> \<not> refusal e"
  by (cases b) (auto simp: removeRecoveryTree_def Let_def split: prod.splits option.splits if_splits)

lemma rename_no_refusal: "renameRecoveryRepository ops k s t i x r w = ((r1, Some e), w1) \<Longrightarrow> \<not> refusal e"
  by (auto simp: renameRecoveryRepository_def Let_def split: prod.splits option.splits if_splits)

lemma apply_no_refusal: "applyEnvironment ops plan r w = ((r1, Some e), w1) \<Longrightarrow> \<not> refusal e"
  by (auto simp: applyEnvironment_def split: prod.splits option.splits if_splits)

text \<open>An outcome that is no refusal, and how such outcomes are built.\<close>

definition calm :: "'w recovery_outcome \<Rightarrow> bool" where
  "calm m \<longleftrightarrow> (\<forall>r e w. m = ((r, Some e), w) \<longrightarrow> \<not> refusal e)"

named_theorems calm_intros \<open>outcomes without a refusal\<close>

lemma calm_steps [calm_intros]:
  "calm (finishRecovery ops tx r b w)" "calm (removeRecoveryTree ops k p i x r b w)"
  "calm (renameRecoveryRepository ops k s t i x r w)" "calm (applyEnvironment ops plan r w)" "calm ((r, None), w)"
  unfolding calm_def using finish_no_refusal remove_no_refusal rename_no_refusal apply_no_refusal by fastforce+

lemma calm_and_then [calm_intros]: "calm m \<Longrightarrow> (\<And>r w. calm (f r w)) \<Longrightarrow> calm (and_then m f)"
  by (auto simp: calm_def and_then_def split: prod.splits option.splits)

lemma calm_if [calm_intros]: "calm m \<Longrightarrow> calm n \<Longrightarrow> calm (if b then m else n)"
  by simp

lemma calm_rollback [calm_intros]: "calm (rollback_previous ops tx paths u p b w)"
  unfolding rollback_previous_def by (intro calm_intros)

lemma prepare_reports: "snd (prepareEnvironment ops q i b w) = go_report ops w StageWorkspaceSwap"
  by (simp add: prepareEnvironment_def Let_def split: sum.split)

text \<open>An outcome that is calm or refuses with only the stages \<open>ss\<close> reported.\<close>

definition inert :: "'w git_ops \<Rightarrow> 'w \<Rightarrow> 'w recovery_outcome \<Rightarrow> bool" where
  "inert ops w m \<longleftrightarrow> calm m \<or> (\<exists>e ss. m = ((no_recovery, Some e), foldl (go_report ops) w ss))"

named_theorems inert_intros \<open>outcomes whose refusals touch nothing\<close>

lemma inert_calm [inert_intros]: "calm m \<Longrightarrow> inert ops w m"
  by (simp add: inert_def)

lemma inert_error [inert_intros]: "inert ops w ((no_recovery, Some e), w)"
  by (auto simp: inert_def intro: exI [of _ "[]"])

lemma inert_refuse [inert_intros]: "inert ops w (refuse tx reason w)"
  by (simp add: refuse_def inert_error)

lemma inert_reported: "inert ops (go_report ops w s) m \<Longrightarrow> inert ops w m"
  unfolding inert_def by (metis foldl_Cons)

lemma inert_if [inert_intros]: "inert ops w m \<Longrightarrow> inert ops w n \<Longrightarrow> inert ops w (if b then m else n)"
  by simp

lemma inert_complete [inert_intros]: "inert ops w (completeActiveTarget ops q tx paths i p w)"
proof -
  obtain plan w0 where plan: "prepareEnvironment ops q i True w = (plan, w0)" by fastforce
  then have w0: "w0 = go_report ops w StageWorkspaceSwap" using prepare_reports by (metis snd_conv)
  show ?thesis
    by (rule inert_reported [where s = StageWorkspaceSwap], cases plan)
       (simp_all add: completeActiveTarget_def plan [unfolded w0] inert_error, intro inert_calm calm_intros)
qed

lemma inert_activate [inert_intros]: "inert ops w (activate_update ops q tx paths u w)"
proof -
  obtain plan w0 where plan: "prepareEnvironment ops q (rp_identity u) False w = (plan, w0)" by fastforce
  then have w0: "w0 = go_report ops w StageWorkspaceSwap" using prepare_reports by (metis snd_conv)
  show ?thesis
  proof (cases plan)
    case (Inl e)
    show ?thesis
      by (rule inert_reported [where s = StageWorkspaceSwap])
         (simp add: activate_update_def plan [unfolded w0] Inl inert_error)
  next
    case (Inr env)
    obtain r1 e1 w2 where ren: "renameRecoveryRepository ops RenameUpdateToRepository (p_update paths)
        (p_repository paths) (operationId tx) (rp_directory u) (recoveryResultWithIdentity (rp_identity u) False) w0 =
        ((r1, e1), w2)" by (metis prod.exhaust)
    have "calm (activate_update ops q tx paths u w)"
    proof (cases e1)
      case None
      then have "activate_update ops q tx paths u w =
          and_then (applyEnvironment ops env r1 w2) (\<lambda>result1. finishRecovery ops tx result1 True)"
        using plan Inr ren by (simp add: activate_update_def)
      then show ?thesis by (simp only:) (intro calm_intros)
    next
      case (Some x)
      have x: "\<not> refusal x" by (rule rename_no_refusal [OF ren [unfolded Some]])
      have "activate_update ops q tx paths u w =
          (if \<not> rec_mutationApplied r1 then ((r1, Some x), w2)
           else (let ((result1, _), w3) = applyEnvironment ops env r1 w2 in ((result1, Some x), w3)))"
        using plan Inr ren Some by (simp add: activate_update_def)
      then show ?thesis using x
        by (simp add: calm_def split: prod.split)
    qed
    then show ?thesis by (rule inert_calm)
  qed
qed

lemma inert_recoverSwap [inert_intros]: "inert ops w (recoverSwap ops q tx paths r u p w)"
  unfolding recoverSwap_def Let_def by (intro inert_intros calm_intros)

lemma inert_before [inert_intros]: "inert ops w (recoverBeforeSwap ops tx paths r u p w)"
  unfolding recoverBeforeSwap_def by (intro inert_intros calm_intros)

lemma inert_classified [inert_intros]: "inert ops w (recover_classified ops q tx paths r u p w)"
  unfolding recover_classified_def by (intro inert_intros)

lemma inert_directories [inert_intros]: "inert ops w (recover_directories identityOf ops q tx paths w)"
  unfolding recover_directories_def Let_def
  by (simp add: inert_error inert_classified split: sum.split)

lemma inert_staged [inert_intros]: "inert ops w (discard_staged identityOf ops tx paths w)"
  unfolding discard_staged_def
  by (simp add: inert_error refuse_def split: sum.split) (intro impI allI conjI inert_intros calm_intros)

text \<open>C7: whatever the world does, a recovery that answers \<open>UPDATE_STATE_AMBIGUOUS\<close>, other than for a directory
  that was exchanged under its hands, has called no operation that changes anything: it reports no
  result and only stages were announced.\<close>

theorem recovery_refusal_inert:
  assumes "Recover identityOf layout ops w q = ((r, Some e), w')"
    and "ge_code e = CodeUpdateStateAmbiguous" "ge_reason e \<noteq> Some ''directory_identity_changed''"
  shows "r = no_recovery \<and> (\<exists>ss. w' = foldl (go_report ops) w ss)"
proof -
  have "inert ops (go_report ops w StageWorkspaceCleanup) (Recover identityOf layout ops w q)"
    unfolding Recover_def Let_def
    by (simp add: inert_error inert_directories inert_staged inert_calm calm_steps split: sum.split option.split)
  then have "inert ops w (Recover identityOf layout ops w q)" by (rule inert_reported)
  with assms show ?thesis by (auto simp: inert_def calm_def refusal_def)
qed

section \<open>A rollback that is cut off\<close>

lemma classify_holds:
  assumes "classifyPath identityOf (disk_ops mk) m p policy = Inr y" "dirs (m_disk m) p = Some x" "holds identityOf x i"
  shows "y = valid_path i x"
  using assms
  by (auto simp: classifyPath_def disk_ops_reads holds_def valid_path_def
      split: option.splits content.splits sum.splits if_splits)

definition honest :: "fault list \<Rightarrow> bool" where
  "honest fs \<longleftrightarrow> (\<forall>f \<in> set fs. \<forall>c. f_read f = Some c \<longrightarrow> \<not> c_notFound c)"

lemma recover_stuck:
  assumes "case_ok identityOf c" "sc_old c = Some x" "shape c d = (Some x, None, None)"
    and "tx_file d = Some (tx_at c StageWorkspaceSwap)" "honest fs"
    and "Recover identityOf (sc_layout c) (disk_ops mk) \<lparr>m_disk = d, m_past = [], m_faults = fs, m_ended = b\<rparr> q =
      ((r, e), m')"
  shows "e \<noteq> None \<and> m_disk m' = d"
proof -
  let ?m = "\<lparr>m_disk = d, m_past = [], m_faults = fs, m_ended = b\<rparr>"
  obtain i where old: "holds identityOf x i" "ri_commit i = baseCommit (sc_tx c)"
    using assms(1,2) unfolding case_ok_def by blast
  note ids = case_ids [OF assms(1)]
  have d: "dirs d (repo_path c) = Some x" "dirs d (update_path c) = None" "dirs d (previous_path c) = None"
    using assms(3) by (simp_all add: shape_def)
  have "ValidateTransaction True TransactionUpdate (tx_at c StageWorkspaceSwap) = None"
    "tx_command (sc_tx c) \<noteq> ''workspace stage''"
    using assms(1) update_stage_valid by (auto simp: case_ok_def tx_at_def)
  moreover have "recoveryPathsFor (sc_layout c) (operationId (sc_tx c)) = Some (case_paths c)"
    using assms(1) paths_apartD(7,8) [of c] by (simp add: case_ok_def recoveryPathsFor_def case_paths_def repo_path_def)
  moreover have "\<not> c_notFound z" if "read_fault ?m = Some z" for z
    using that assms(5) by (cases fs) (auto simp: read_fault_def honest_def)
  ultimately consider "m' = ?m \<and> e \<noteq> None" | "recover_directories identityOf (disk_ops mk) q (tx_at c StageWorkspaceSwap)
      (case_paths c) ?m = ((r, e), m')"
    using assms(4,6) by (auto simp: Recover_def disk_read_def Let_def split: option.splits if_splits)
  then show ?thesis
  proof cases
    case 2
    then show ?thesis
    proof (cases rule: recover_directories_outcome)
      case (classified a u p)
      note cls = classified(1-3) [unfolded tx_at_sel case_paths_def, simplified]
      have "a = valid_path i x" using classify_holds [OF cls(1) _ old(1)] d(1) by simp
      moreover have "u = missing_path" using classify_Inr [OF cls(2)] d(2) by auto
      moreover have "p = missing_path" using classify_Inr [OF cls(3)] d(3) by auto
      ultimately show ?thesis using classified(4) by (auto simp: classified_defs ids old(2) refuse_def)
    qed auto
  qed auto
qed

lemma discard_leaves_transaction:
  assumes "clean m" "case_ok identityOf c" "before c StageWorkspaceSwap (m_disk m)" "sc_old c = Some x"
  shows "\<exists>res m1 d. Recover identityOf (sc_layout c) (disk_ops mk) m q = (res, m1) \<and> d \<in> set (m_past m1) \<and>
    shape c d = (Some x, None, None) \<and> tx_file d = Some (tx_at c StageWorkspaceSwap)"
proof -
  obtain i where new: "holds identityOf (sc_new c) (sc_id c)"
    and old: "holds identityOf x i" "ri_commit i = baseCommit (sc_tx c)"
    using assms(2,4) unfolding case_ok_def by blast
  note ids = case_ids [OF assms(2)]
  have sh: "shape c (m_disk m) = (Some x, Some (sc_new c), None)" and apart: "paths_apart c"
    using assms(2,3,4) by (simp_all add: before_def case_ok_def)
  have d: "dirs (m_disk m) (repo_path c) = Some x" "dirs (m_disk m) (update_path c) = Some (sc_new c)"
    "dirs (m_disk m) (previous_path c) = None" and tx: "tx_file (m_disk m) = Some (tx_at c StageWorkspaceSwap)"
    using assms(3,4) by (simp_all add: before_def shape_def)
  have run: "Recover identityOf (sc_layout c) (disk_ops mk) m q =
    and_then (removeRecoveryTree (disk_ops mk) DeleteRepositoryUpdate (update_path c) (operationId (sc_tx c))
      (Some (d_token (sc_new c))) no_recovery False m)
      (\<lambda>result. finishRecovery (disk_ops mk) (tx_at c StageWorkspaceSwap) result False)"
    using recover_start [OF assms(1,2) tx]
      classify_valid [OF assms(1) d(1) old(1)] classify_valid [OF assms(1) d(2) new] classify_missing [OF assms(1) d(3)]
    by (simp add: recover_directories_def case_paths_def classified_defs ids old(2))
  obtain r1 m1 where rm: "removeRecoveryTree (disk_ops mk) DeleteRepositoryUpdate (update_path c)
      (operationId (sc_tx c)) (Some (d_token (sc_new c))) no_recovery False m = ((r1, None), m1)"
    and m1: "clean m1" "m_disk m1 = set_dir (update_path c) None (m_disk m)"
    using removeTree_clean [OF assms(1) d(2)] by blast
  have "finishRecovery (disk_ops mk) (tx_at c StageWorkspaceSwap) r1 False m1 =
      ((r1\<lparr>recovered := True, transactionRemoved := True\<rparr>, None), put ((m_disk m1)\<lparr>tx_file := None\<rparr>) m1)"
    using finish_clean [OF m1(1)] m1(2) tx by simp
  moreover have "m_disk m1 \<in> set (m_past (put ((m_disk m1)\<lparr>tx_file := None\<rparr>) m1))" by (simp add: put_def)
  ultimately show ?thesis
    unfolding run rm and_then_simps using shape_set_dir(2) [OF apart sh] tx m1(2) by auto
qed

text \<open>C8: a recovery that undoes a swap before its first rename is not restartable. Cut off between the
  deletion of the update and the removal of the transaction, it leaves the intact old repository
  and a transaction in the swap stage, and every later recovery fails on that without changing
  anything, whatever its request and however the file system behaves.\<close>

theorem interrupted_discard_refused_forever:
  assumes "case_ok identityOf c" "sc_old c = Some x" "before c StageWorkspaceSwap d"
  shows "\<exists>res m' d1. Recover identityOf (sc_layout c) (disk_ops mk) (restarted d) q = (res, m') \<and>
    d1 \<in> set (m_past m') \<and> shape c d1 = (Some x, None, None) \<and>
    (\<forall>fs b q2 r2 e2 m2. honest fs \<longrightarrow>
       Recover identityOf (sc_layout c) (disk_ops mk) \<lparr>m_disk = d1, m_past = [], m_faults = fs, m_ended = b\<rparr> q2 =
         ((r2, e2), m2) \<longrightarrow> e2 \<noteq> None \<and> m_disk m2 = d1)"
proof -
  have "clean (restarted d)" "before c StageWorkspaceSwap (m_disk (restarted d))"
    using assms(3) by (simp_all add: restarted_def clean_def)
  from discard_leaves_transaction [OF this(1) assms(1) this(2) assms(2)] show ?thesis
    using recover_stuck [OF assms(1,2)] by meson
qed

section \<open>An example\<close>

definition example_sync :: TransactionState where
  "example_sync = example_transaction\<lparr>tx_command := ''workspace sync'', tx_stage := StageWorkspaceVerify,
     targetCommit := example_commit\<rparr>"

definition example_old_snapshot :: repositorySnapshot where
  "example_old_snapshot = example_snapshot\<lparr>headCommit := replicate 40 (CHR ''b''), shallow := [replicate 40 (CHR ''b'')]\<rparr>"

definition example_case :: swap_case where
  "example_case = \<lparr>sc_layout = \<lparr>RepoDir = ''repo'', RepoUpdateDir = (\<lambda>op. Some (''update-'' @ op)),
       RepoPreviousDir = (\<lambda>op. Some (''previous-'' @ op))\<rparr>,
     sc_tx = example_sync, sc_old = Some \<lparr>d_token = 1, d_content = Readable example_old_snapshot\<rparr>,
     sc_new = \<lparr>d_token = 2, d_content = Readable example_snapshot\<rparr>, sc_id = example_identity, sc_env = None\<rparr>"

abbreviation "example_ident \<equiv>
  repositoryIdentityFromSnapshot (Some example_catalog) (\<lambda>_. Some example_version)"

lemma example_sync_valid: "ValidateTransaction True TransactionUpdate example_sync = None"
proof -
  have "validateOperationID ''01ARZ3NDEKTSV4RRFFQ69G5FAV'' = None" by code_simp
  moreover have "validateCommit (replicate 40 (CHR ''b'')) = None" "validateCommit example_commit = None" by code_simp+
  moreover have "validateProductVersion ''v1.2.3'' = None" by code_simp
  moreover have "IsKnownStage StageWorkspaceVerify" by code_simp
  moreover have "workspaceMutationStage StageWorkspaceVerify" by code_simp
  ultimately show ?thesis unfolding ValidateTransaction_None commits_ok
    by (simp add: example_sync_def example_transaction_def TransactionKind_Valid_def transactionCommandAllowed_def
        validateTimestamp_def marshal_time_ok_def transactionStageAllowed_def validateStageCommand_def)
qed

lemma example_case_sel [simp]:
  "sc_tx example_case = example_sync" "sc_old example_case = Some \<lparr>d_token = 1, d_content = Readable example_old_snapshot\<rparr>"
  "sc_new example_case = \<lparr>d_token = 2, d_content = Readable example_snapshot\<rparr>"
  "sc_id example_case = example_identity" "sc_env example_case = None"
  by (simp_all add: example_case_def)

lemma example_case_ok: "case_ok example_ident example_case"
proof -
  have "example_ident example_old_snapshot = Inr (example_identity\<lparr>ri_commit := replicate 40 (CHR ''b'')\<rparr>)"
    by code_simp
  moreover have "targetCommit example_sync = ri_commit example_identity" "baseCommit example_sync = replicate 40 (CHR ''b'')"
    "targetVersion example_sync = ri_version example_identity" "tx_stage example_sync = StageWorkspaceVerify"
    "tx_command example_sync = ''workspace sync''" "targetCommit example_sync \<noteq> ''''"
    "targetCommit example_sync \<noteq> baseCommit example_sync"
    by (simp_all add: example_sync_def example_identity_def example_transaction_def example_commit_def example_version_def
        numeral_nat replicate_Suc)
  moreover have "paths_apart example_case"
    by (simp add: paths_apart_def repo_path_def update_path_def previous_path_def example_case_def)
  ultimately show ?thesis
    using example_sync_valid example_recognised by (simp add: case_ok_def holds_def)
qed

lemma example_writable: "environment_writable example_paths (Some ''/logs'') 63900000000 ''/logs/op.log'' example_case"
  by (simp add: environment_writable_def example_log_path validateTimestamp_def marshal_time_ok_def)

definition example_disk :: "Stage \<Rightarrow> disk" where
  "example_disk st = \<lparr>dirs = [repo_path example_case \<mapsto> \<lparr>d_token = 1, d_content = Readable example_old_snapshot\<rparr>,
       update_path example_case \<mapsto> \<lparr>d_token = 2, d_content = Readable example_snapshot\<rparr>],
     tx_file = Some (tx_at example_case st), env_file = None\<rparr>"

lemma example_before: "before example_case st (example_disk st)"
proof -
  have "paths_apart example_case" using example_case_ok by (simp add: case_ok_def)
  note paths_apartD [OF this]
  then show ?thesis by (simp add: before_def shape_def example_disk_def)
qed

definition example_swap :: SwapRequest where
  "example_swap = \<lparr>sw_transaction = example_sync, sw_revision = \<lparr>gr_version = example_version,
       gr_branch = ''release/v1.2.3'', gr_commit = example_commit, gr_sourceKey = ''mirror''\<rparr>,
     sw_activeIdentity = Some 1, sw_updateIdentity = Some 2\<rparr>"

lemma example_fits: "swap_fits example_case example_swap"
  using example_case_ok by (simp add: swap_fits_def example_swap_def case_ok_def example_identity_def)

definition example_recovery :: RecoveryRequest where
  "example_recovery = \<lparr>discardStaged = False, logPath = ''/logs/op.log''\<rparr>"

definition example_ops :: "machine git_ops" where
  "example_ops = disk_ops (new_broken example_paths (Some ''/logs'') 63900000000)"


definition example_committed :: disk where
  "example_committed = \<lparr>dirs = [repo_path example_case \<mapsto> \<lparr>d_token = 2, d_content = Readable example_snapshot\<rparr>,
       previous_path example_case \<mapsto> \<lparr>d_token = 1, d_content = Readable example_old_snapshot\<rparr>],
     tx_file = Some (tx_at example_case StageWorkspaceCleanup), env_file = None\<rparr>"

theorem committed_update_survives_witness:
  "dirs example_committed (repo_path example_case) = Some \<lparr>d_token = 2, d_content = Readable example_snapshot\<rparr>"
proof -
  have "paths_apart example_case" using example_case_ok by (simp add: case_ok_def)
  note paths_apartD [OF this]
  then have "activated example_case StageWorkspaceCleanup example_committed"
    by (simp add: activated_def shape_def example_committed_def)
  moreover have "environment_writable example_paths (Some ''/logs'') 63900000000 (logPath example_recovery) example_case"
    by (simp add: example_recovery_def example_writable)
  ultimately show ?thesis
    using committed_update_survives [OF example_case_ok _ _ recovery_reach.crash_start] by simp
qed

theorem interrupted_discard_refused_forever_witness:
  "\<exists>d1. tx_file d1 \<noteq> None \<and> (\<forall>r2 e2 m2.
     Recover example_ident (sc_layout example_case) example_ops (restarted d1) example_recovery = ((r2, e2), m2) \<longrightarrow>
       e2 \<noteq> None \<and> m_disk m2 = d1)"
proof -
  have honest: "honest []" by (simp add: honest_def)
  from interrupted_discard_refused_forever [OF example_case_ok example_case_sel(2) example_before, of
      "new_broken example_paths (Some ''/logs'') 63900000000" example_recovery]
  obtain d1 where stuck: "\<forall>fs b q2 r2 e2 m2. honest fs \<longrightarrow>
       Recover example_ident (sc_layout example_case) example_ops \<lparr>m_disk = d1, m_past = [], m_faults = fs, m_ended = b\<rparr> q2 =
         ((r2, e2), m2) \<longrightarrow> e2 \<noteq> None \<and> m_disk m2 = d1" unfolding example_ops_def by blast
  obtain r2 e2 m2 where run: "Recover example_ident (sc_layout example_case) example_ops (restarted d1) example_recovery =
      ((r2, e2), m2)" by (metis prod.exhaust)
  with stuck honest have "e2 \<noteq> None" unfolding restarted_def by blast
  have "tx_file d1 \<noteq> None"
  proof
    assume "tx_file d1 = None"
    with run have "e2 = None" by (auto simp: Recover_def disk_read_def restarted_def read_fault_def example_ops_def plain_cause_def)
    with \<open>e2 \<noteq> None\<close> show False by simp
  qed
  with stuck honest show ?thesis unfolding restarted_def by blast
qed

definition example_unreadable :: machine where
  "example_unreadable = (restarted example_committed)\<lparr>m_faults := [no_fault\<lparr>f_read := Some plain_cause\<rparr>]\<rparr>"

theorem recovery_refusal_inert_witness:
  "\<exists>ss. example_unreadable = foldl (go_report example_ops) example_unreadable ss"
proof -
  have "Recover example_ident (sc_layout example_case) example_ops example_unreadable example_recovery =
      ((no_recovery, Some (recoveryAmbiguousError StageWorkspaceCleanup ''transaction_unreadable'')), example_unreadable)"
    by (simp add: Recover_def example_ops_def disk_read_def example_unreadable_def read_fault_def restarted_def
        plain_cause_def isCancellation_def)
  from recovery_refusal_inert [OF this] show ?thesis
    by (simp add: recoveryAmbiguousError_def recoveryAmbiguousErrorWithCommitted_def newError_def)
qed

end
