(* ===== verification/Backend_Error.thy ===== *)
theory Backend_Error
  imports Protocol_Control State_Environment
begin

text \<open>
  \<open>internal/backend/errors.go\<close> and the functions on errors of \<open>control.go\<close> and \<open>supervisor.go\<close>.
  A Go error is a tree: a node says what the error offers (its code, its stage, its details, whether
  the supervision was committed), its children are what it wraps. A node that \<open>errors.Join\<close> makes may
  have any number of children, every other node at most one. A nil error is \<open>None\<close>. Messages are
  left out. The lemmas show that a code is found wherever it is in a tree, which error decides about
  the commitment, and that filtering the expected cancellations leaves none behind.
\<close>

section \<open>Errors\<close>

type_synonym backend_details = "string \<rightharpoonup> json"

text \<open>The handles of one attempt to run the backend: process, transaction, logger and gate.\<close>

record controlAttempt =
  at_process :: "nat option"
  at_tx :: nat
  at_logger :: nat
  at_gate :: nat

text \<open>Errors without structure that the code compares with.\<close>

datatype sentinel =
    ContextCanceled | DeadlineExceeded | ErrControlStopped | ErrControlMailboxClosed
  | ErrTransactionNotFound | ErrEntryNotFound | ErrEntryUnsafe | ErrPermission | PlainError string
  | ErrExternalPathUnsafe | ErrExternalPathNotOrdinary
  | DevelopmentPathMissing | DevelopmentPathUnsafe | DevelopmentPathType

text \<open>\<open>ExternalError\<close> is an error of another package: the code it offers, if it offers one, the stage
  and details if it offers these too, and the answer of its method \<open>Committed\<close>, if it has one.\<close>

datatype error_kind =
    BackendError Code Stage backend_details bool
  | ExternalError "Code option" "(Stage \<times> backend_details) option" "bool option"
  | PIDProbeError string
  | JoinedError
  | Sentinel sentinel

datatype go_error = GoError (error_kind: error_kind) (wrapped: "go_error list")

definition sentinel :: "sentinel \<Rightarrow> go_error" where
  "sentinel s = GoError (Sentinel s) []"

text \<open>\<open>errors.Join\<close> drops the nil errors and is nil when nothing is left.\<close>

definition Join :: "go_error option list \<Rightarrow> go_error option" where
  "Join es = (let kept = List.map_filter (\<lambda>e. e) es in
     if kept = [] then None else Some (GoError JoinedError kept))"

definition newBackendError :: "Code \<Rightarrow> Stage \<Rightarrow> backend_details \<Rightarrow> go_error option \<Rightarrow> go_error" where
  "newBackendError code stage details cause = GoError (BackendError code stage details False) (case cause of None \<Rightarrow> [] | Some c \<Rightarrow> [c])"

definition newCommittedBackendError :: "Code \<Rightarrow> Stage \<Rightarrow> backend_details \<Rightarrow> go_error option \<Rightarrow> go_error" where
  "newCommittedBackendError code stage details cause =
     GoError (BackendError code stage details True) (case cause of None \<Rightarrow> [] | Some c \<Rightarrow> [c])"

text \<open>\<open>errors.As\<close>: the first error, in the order of a traversal from the root, that offers something.\<close>

fun errors_as :: "(error_kind \<Rightarrow> 'b option) \<Rightarrow> go_error \<Rightarrow> 'b option"
  and first_as :: "(error_kind \<Rightarrow> 'b option) \<Rightarrow> go_error list \<Rightarrow> 'b option" where
  "errors_as f (GoError k es) = (case f k of Some x \<Rightarrow> Some x | None \<Rightarrow> first_as f es)"
| "first_as f [] = None"
| "first_as f (e # es) = (case errors_as f e of Some x \<Rightarrow> Some x | None \<Rightarrow> first_as f es)"

fun is_sentinel :: "sentinel \<Rightarrow> error_kind \<Rightarrow> bool" where
  "is_sentinel s (Sentinel s') \<longleftrightarrow> s' = s"
| "is_sentinel s _ \<longleftrightarrow> False"

definition errors_Is :: "sentinel \<Rightarrow> go_error \<Rightarrow> bool" where
  "errors_Is s e \<longleftrightarrow> errors_as (\<lambda>k. if is_sentinel s k then Some () else None) e \<noteq> None"

section \<open>What an error offers\<close>

fun code_only :: "error_kind \<Rightarrow> Code option" where
  "code_only (BackendError c _ _ _) = Some c"
| "code_only (ExternalError c _ _) = c"
| "code_only _ = None"

fun coded :: "error_kind \<Rightarrow> (Code \<times> Stage \<times> backend_details) option" where
  "coded (BackendError c s d _) = Some (c, s, d)"
| "coded (ExternalError (Some c) (Some (s, d)) _) = Some (c, s, d)"
| "coded _ = None"

text \<open>An error with details may offer them without the rest.\<close>

fun detailed :: "error_kind \<Rightarrow> backend_details option" where
  "detailed (BackendError _ _ d _) = Some d"
| "detailed (ExternalError _ (Some (_, d)) _) = Some d"
| "detailed _ = None"

fun committed_of :: "error_kind \<Rightarrow> bool option" where
  "committed_of (BackendError _ _ _ b) = Some b"
| "committed_of (ExternalError _ _ b) = b"
| "committed_of _ = None"

fun typed :: "error_kind \<Rightarrow> (Code \<times> Stage \<times> backend_details \<times> bool) option" where
  "typed (BackendError c s d b) = Some (c, s, d, b)"
| "typed _ = None"

definition mapDependencyError :: "Stage \<Rightarrow> Code \<Rightarrow> go_error option \<Rightarrow> go_error option" where
  "mapDependencyError stage fallback err =
     (case err of
        None \<Rightarrow> None
      | Some e \<Rightarrow>
          (case errors_as coded e of
             Some (c, s, d) \<Rightarrow> Some (newBackendError c s d (Some e))
           | None \<Rightarrow>
               (case errors_as code_only e of
                  Some c \<Rightarrow> Some (newBackendError c stage Map.empty (Some e))
                | None \<Rightarrow> Some (newBackendError fallback stage Map.empty (Some e)))))"

text \<open>\<open>collectControlDetails\<close> walks the whole tree and keeps, for a key, the first value it meets: at
  each error the details of the first one from there on, then those of its children.\<close>

fun collectControlDetails :: "go_error \<Rightarrow> backend_details \<Rightarrow> backend_details"
  and collect_children :: "go_error list \<Rightarrow> backend_details \<Rightarrow> backend_details" where
  "collectControlDetails (GoError k es) details =
     collect_children es
       (case errors_as detailed (GoError k es) of None \<Rightarrow> details | Some d \<Rightarrow> d ++ details)"
| "collect_children [] details = details"
| "collect_children (e # es) details = collect_children es (collectControlDetails e details)"

definition nestedControlDetails :: "go_error \<Rightarrow> backend_details" where
  "nestedControlDetails e = collectControlDetails e Map.empty"

text \<open>The facts of the first run of the backend are kept under other names where the second has its
  own.\<close>

definition keep_previous :: "string \<Rightarrow> string \<Rightarrow> backend_details \<Rightarrow> backend_details \<Rightarrow> backend_details" where
  "keep_previous k k' child details =
     (case details k of
        Some v \<Rightarrow> if child k \<noteq> None then (details(k' \<mapsto> v))(k := None) else details
      | None \<Rightarrow> details)"

definition restartFailureDetails :: "backend_details \<Rightarrow> go_error \<Rightarrow> backend_details" where
  "restartFailureDetails previous err =
     (let child = nestedControlDetails err in
      keep_previous ''exitCode'' ''previousExitCode'' child
        (keep_previous ''logPath'' ''previousLogPath'' child
          (keep_previous ''pid'' ''previousPid'' child previous)) ++ child)"

definition backendErrorCommitted :: "go_error option \<Rightarrow> bool" where
  "backendErrorCommitted err = (case err of None \<Rightarrow> False | Some e \<Rightarrow> errors_as committed_of e = Some True)"

fun hasCode :: "Code \<Rightarrow> go_error \<Rightarrow> bool"
  and hasCode_children :: "Code \<Rightarrow> go_error list \<Rightarrow> bool" where
  "hasCode want (GoError k es) \<longleftrightarrow>
     errors_as code_only (GoError k es) = Some want \<or> hasCode_children want es"
| "hasCode_children want [] \<longleftrightarrow> False"
| "hasCode_children want (e # es) \<longleftrightarrow> hasCode want e \<or> hasCode_children want es"

definition backendErrorHasCode :: "go_error option \<Rightarrow> Code \<Rightarrow> bool" where
  "backendErrorHasCode err want = (case err of None \<Rightarrow> False | Some e \<Rightarrow> hasCode want e)"

definition markCommitted :: "go_error option \<Rightarrow> go_error option" where
  "markCommitted err =
     (case err of
        None \<Rightarrow> None
      | Some e \<Rightarrow>
          (case errors_as typed e of
             None \<Rightarrow> Some e
           | Some (c, s, d, True) \<Rightarrow> Some e
           | Some (c, s, d, False) \<Rightarrow> Some (GoError (BackendError c s d True) [e])))"

text \<open>\<open>preferCancellation\<close> with the answer of the context.\<close>

definition preferCancellation :: "go_error option \<Rightarrow> go_error option \<Rightarrow> go_error option" where
  "preferCancellation ended err =
     (if err = None then None else if ended = None then err else Join [ended, err])"

definition mapCleanupProcessError :: "string \<Rightarrow> go_error option \<Rightarrow> go_error option" where
  "mapCleanupProcessError operation err =
     (case err of
        None \<Rightarrow> None
      | Some e \<Rightarrow>
          let details = [''operation'' \<mapsto> JString operation] in
          (case errors_as typed e of
             Some (c, s, d, _) \<Rightarrow> Some (newCommittedBackendError c s (details ++ d) err)
           | None \<Rightarrow>
               (case errors_as coded e of
                  Some (c, s, d) \<Rightarrow> Some (newCommittedBackendError c s (details ++ d) err)
                | None \<Rightarrow>
                    (case errors_as code_only e of
                       Some c \<Rightarrow> Some (newCommittedBackendError c StageBackendCleanup details err)
                     | None \<Rightarrow> Some (newCommittedBackendError CodeBackendShutdownFailed StageBackendCleanup details err)))))"

definition mapStateCleanupError :: "go_error option \<Rightarrow> go_error option" where
  "mapStateCleanupError err =
     (if err = None then None
      else Some (newCommittedBackendError CodeStateWriteFailed StageBackendCleanup Map.empty err))"

definition mapMutexCleanupError :: "go_error option \<Rightarrow> go_error option" where
  "mapMutexCleanupError err =
     (if err = None then None
      else markCommitted (mapDependencyError StageBackendCleanup CodeMutexOperationFailed err))"

definition mapLoggerCleanupError :: "go_error option \<Rightarrow> go_error option" where
  "mapLoggerCleanupError err =
     (if err = None then None
      else Some (newCommittedBackendError CodeInternalError StageBackendCleanup
                   [''sink'' \<mapsto> JString ''runtime_log''] err))"

text \<open>\<open>withoutExpectedCancellation\<close>: a joined error loses the children that are cancellations; any other
  error is dropped whole when a cancellation is anywhere in it. An expired deadline is kept when
  \<open>keepDeadline\<close> says so.\<close>

definition is_joined :: "error_kind \<Rightarrow> bool" where
  "is_joined k = (case k of JoinedError \<Rightarrow> True | _ \<Rightarrow> False)"

fun withoutExpectedCancellation :: "bool \<Rightarrow> go_error \<Rightarrow> go_error option"
  and filter_children :: "bool \<Rightarrow> go_error list \<Rightarrow> go_error list" where
  "withoutExpectedCancellation keepDeadline (GoError k es) =
     (if is_joined k then Join (map Some (filter_children keepDeadline es))
      else if errors_Is ContextCanceled (GoError k es) \<or>
              errors_Is DeadlineExceeded (GoError k es) \<and> \<not> keepDeadline then None
      else Some (GoError k es))"
| "filter_children keepDeadline [] = []"
| "filter_children keepDeadline (e # es) =
     (case withoutExpectedCancellation keepDeadline e of
        None \<Rightarrow> filter_children keepDeadline es
      | Some e' \<Rightarrow> e' # filter_children keepDeadline es)"

definition without_cancellation :: "go_error option \<Rightarrow> bool \<Rightarrow> go_error option" where
  "without_cancellation err keepDeadline =
     (case err of None \<Rightarrow> None | Some e \<Rightarrow> withoutExpectedCancellation keepDeadline e)"


section \<open>Lemmas\<close>

text \<open>The errors of a tree in the order in which \<open>errors.As\<close> meets them.\<close>

fun nodes :: "go_error \<Rightarrow> error_kind list"
  and nodes_list :: "go_error list \<Rightarrow> error_kind list" where
  "nodes (GoError k es) = k # nodes_list es"
| "nodes_list [] = []"
| "nodes_list (e # es) = nodes e @ nodes_list es"

fun first_some :: "('a \<Rightarrow> 'b option) \<Rightarrow> 'a list \<Rightarrow> 'b option" where
  "first_some f [] = None"
| "first_some f (x # xs) = (case f x of Some y \<Rightarrow> Some y | None \<Rightarrow> first_some f xs)"

lemma first_some_append:
  "first_some f (xs @ ys) = (case first_some f xs of Some y \<Rightarrow> Some y | None \<Rightarrow> first_some f ys)"
  by (induction xs) (auto split: option.splits)

lemma first_some_None: "first_some f xs = None \<longleftrightarrow> (\<forall>x \<in> set xs. f x = None)"
  by (induction xs) (auto split: option.splits)

lemma first_some_in: "first_some f xs = Some y \<Longrightarrow> \<exists>x \<in> set xs. f x = Some y"
  by (induction xs) (auto split: option.splits)

lemma errors_as_nodes: "errors_as f e = first_some f (nodes e)"
  and first_as_nodes: "first_as f es = first_some f (nodes_list es)"
  by (induction f e and f es rule: errors_as_first_as.induct)
     (auto simp: first_some_append split: option.splits)

lemma is_sentinel_iff: "is_sentinel s k \<longleftrightarrow> k = Sentinel s"
  by (cases k) auto

lemma errors_Is_nodes: "errors_Is s e \<longleftrightarrow> Sentinel s \<in> set (nodes e)"
  unfolding errors_Is_def errors_as_nodes
  by (auto simp: first_some_None is_sentinel_iff split: if_splits)

lemma nodes_list_conv: "nodes_list es = concat (map nodes es)"
  by (induction es) auto

lemma Join_None [simp]: "Join es = None \<longleftrightarrow> (\<forall>e \<in> set es. e = None)"
  by (auto simp: Join_def Let_def List.map_filter_def filter_empty_conv)

lemma Join_Some: "Join es = Some e \<Longrightarrow>
    error_kind e = JoinedError \<and> wrapped e = List.map_filter (\<lambda>e. e) es"
  by (auto simp: Join_def Let_def split: if_splits)

lemma map_filter_some [simp]: "List.map_filter (\<lambda>e. e) (map Some xs) = xs"
  by (induction xs) (simp_all add: List.map_filter_simps)

text \<open>The codes anywhere in an error.\<close>

definition codes_in :: "go_error option \<Rightarrow> Code set" where
  "codes_in err = (case err of None \<Rightarrow> {} | Some e \<Rightarrow> {c. \<exists>k \<in> set (nodes e). code_only k = Some c})"

lemma hasCode_nodes: "hasCode want e \<longleftrightarrow> (\<exists>k \<in> set (nodes e). code_only k = Some want)"
  and hasCode_children_nodes: "hasCode_children want es \<longleftrightarrow> (\<exists>k \<in> set (nodes_list es). code_only k = Some want)"
proof (induction want e and want es rule: hasCode_hasCode_children.induct)
  case (1 want k es)
  have "errors_as code_only (GoError k es) = Some want \<Longrightarrow>
      \<exists>n \<in> set (nodes (GoError k es)). code_only n = Some want"
    unfolding errors_as_nodes by (rule first_some_in)
  then show ?case using 1 by auto
qed auto

lemma codes_in_Join: "codes_in (Join es) = (\<Union>e \<in> set es. codes_in e)"
proof -
  have "codes_in (Join es) = {c. \<exists>e \<in> set (List.map_filter (\<lambda>e. e) es). \<exists>k \<in> set (nodes e). code_only k = Some c}"
    by (cases "List.map_filter (\<lambda>e. e) es") (auto simp: Join_def codes_in_def Let_def nodes_list_conv)
  then show ?thesis
    by (fastforce simp: codes_in_def in_map_filter split: option.splits)
qed

lemma hasCode_codes: "backendErrorHasCode err c \<longleftrightarrow> c \<in> codes_in err"
  by (cases err) (auto simp: backendErrorHasCode_def codes_in_def hasCode_nodes)

lemma codes_in_new [simp]:
  "codes_in (Some (newBackendError c s d cause)) = insert c (codes_in cause)"
  "codes_in (Some (newCommittedBackendError c s d cause)) = insert c (codes_in cause)"
  by (auto simp: codes_in_def newBackendError_def newCommittedBackendError_def split: option.splits)

lemma newCommittedBackendError_committed [simp]: "backendErrorCommitted (Some (newCommittedBackendError c s d cause))"
  by (simp add: backendErrorCommitted_def newCommittedBackendError_def)

text \<open>Marking an error whose commitment is decided by errors of this package.\<close>

lemma markCommitted_committed:
  assumes "errors_as typed e = Some (c, s, d, b)" and "b \<longrightarrow> errors_as committed_of e = Some True"
  shows "backendErrorCommitted (markCommitted (Some e))"
  using assms by (cases b) (auto simp: markCommitted_def backendErrorCommitted_def)

lemma filter_no_cancel:
  "withoutExpectedCancellation kd e = Some e' \<Longrightarrow> Sentinel ContextCanceled \<notin> set (nodes e')"
  "x \<in> set (filter_children kd es) \<Longrightarrow> Sentinel ContextCanceled \<notin> set (nodes x)"
proof (induction kd e and kd es arbitrary: e' and x rule: withoutExpectedCancellation_filter_children.induct)
  case (1 kd k es)
  show ?case
  proof (cases "is_joined k")
    case True
    then have "error_kind e' = JoinedError" "wrapped e' = filter_children kd es"
      using 1 Join_Some by fastforce+
    then obtain "e' = GoError JoinedError (filter_children kd es)" by (cases e') auto
    then show ?thesis using 1(1)[OF True] by (auto simp: nodes_list_conv)
  next
    case False
    then show ?thesis using 1(2) by (auto simp: errors_Is_nodes split: if_splits)
  qed
qed (auto split: option.splits)

end
