(* ===== verification/Process_Stream.thy ===== *)
theory Process_Stream
  imports Go_Utf8
begin

text \<open>
  \<open>internal/process/managed.go\<close> (the values it exchanges) and \<open>stream.go\<close>: the output of the backend
  process, cut into records.
\<close>

record StreamRecord =
  sr_Stream :: string
  sr_LineID :: nat
  sr_Fragment :: string
  sr_EndOfLine :: bool
  sr_Event :: string
  sr_Truncated :: bool
  sr_OriginalBytes :: int

text \<open>A process of a job.\<close>

record ProcessInfo =
  pi_PID :: nat
  pi_ParentPID :: nat
  pi_Executable :: string

end
