(* ===== verification/Backend_Gate.thy ===== *)
theory Backend_Gate
  imports Backend_Error Process_Stream
begin

text \<open>
  The log output of a supervised backend, from \<open>internal/backend/supervisor.go\<close>: \<open>streamGate\<close> keeps the
  log events back until the supervisor has announced the start, and latches the first fault;
  \<open>streamSink\<close> takes the records that the process package reads from stdout and stderr. The methods
  run under the mutex of the gate, so a run is a list of calls. The runtime log and the event emitter
  are arguments over a world of their own; \<open>written\<close> records the events the emitter has taken. The
  lemmas show that the events are written in their order, none before the gate is open and none lost
  without a fault, that the buffer is bounded, and that the first fault stays.
\<close>

section \<open>The gate\<close>

definition maxPendingLogEvents :: nat where
  "maxPendingLogEvents = 256"

definition maxPendingLogBytes :: nat where
  "maxPendingLogBytes = 4 * 2 ^ 20"

record streamGate =
  sg_open :: bool
  sg_fault :: "go_error option"
  sg_stage :: Stage
  sg_pending :: "LogEvent list"
  sg_pendingBytes :: nat

definition new_gate :: "Stage \<Rightarrow> streamGate" where
  "new_gate stage = \<lparr>sg_open = False, sg_fault = None, sg_stage = stage, sg_pending = [], sg_pendingBytes = 0\<rparr>"

definition gate_SetStage :: "Stage \<Rightarrow> streamGate \<Rightarrow> streamGate" where
  "gate_SetStage stage g = g\<lparr>sg_stage := stage\<rparr>"

text \<open>The channel of \<open>Faulted\<close> is closed exactly when there is a fault.\<close>

definition Faulted :: "streamGate \<Rightarrow> bool" where
  "Faulted g \<longleftrightarrow> sg_fault g \<noteq> None"

definition setFaultLocked :: "go_error option \<Rightarrow> streamGate \<Rightarrow> streamGate" where
  "setFaultLocked err g = (if err = None \<or> sg_fault g \<noteq> None then g else g\<lparr>sg_fault := err\<rparr>)"

text \<open>The surroundings: what the emitter and the runtime log answer, and the events written so far.\<close>

record 'w log_ops =
  EmitLog :: "LogEvent \<Rightarrow> 'w \<Rightarrow> go_error option \<times> 'w"
  RecordLog :: "StreamRecord \<Rightarrow> 'w \<Rightarrow> go_error option \<times> 'w"
  LogCtxErr :: "'w \<Rightarrow> go_error option \<times> 'w"

record 'w log_system =
  ls_gate :: streamGate
  ls_world :: 'w
  ls_written :: "LogEvent list"

definition write_event :: "'w log_ops \<Rightarrow> LogEvent \<Rightarrow> 'w log_system \<Rightarrow> go_error option \<times> 'w log_system" where
  "write_event ops ev s =
     (let (err, w) = EmitLog ops ev (ls_world s) in
      (err, s\<lparr>ls_world := w, ls_written := (if err = None then ls_written s @ [ev] else ls_written s)\<rparr>))"

definition output_fault :: "Stage \<Rightarrow> string option \<Rightarrow> go_error option \<Rightarrow> go_error" where
  "output_fault stage reason cause =
     newBackendError CodeOutputWriteFailed stage
       ((case reason of None \<Rightarrow> Map.empty | Some r \<Rightarrow> [''reason'' \<mapsto> JString r])
          (''sink'' \<mapsto> JString ''protocol_output'')) cause"

definition gate_Emit :: "'w log_ops \<Rightarrow> LogEvent \<Rightarrow> 'w log_system \<Rightarrow> go_error option \<times> 'w log_system" where
  "gate_Emit ops ev s =
     (let g = ls_gate s in
      if sg_fault g \<noteq> None then (sg_fault g, s)
      else if \<not> sg_open g then
        if maxPendingLogEvents \<le> length (sg_pending g) \<or>
           maxPendingLogBytes < sg_pendingBytes g + length (lMessage ev)
        then let g' = setFaultLocked (Some (output_fault (sg_stage g) (Some ''pending_log_overflow'') None)) g
             in (sg_fault g', s\<lparr>ls_gate := g'\<rparr>)
        else (None, s\<lparr>ls_gate := g\<lparr>sg_pending := sg_pending g @ [ev],
                         sg_pendingBytes := sg_pendingBytes g + length (lMessage ev)\<rparr>\<rparr>)
      else
        let (err, s') = write_event ops ev s in
        case err of
          Some e \<Rightarrow>
            let g' = setFaultLocked (Some (output_fault (sg_stage g) None (Some e))) g
            in (sg_fault g', s'\<lparr>ls_gate := g'\<rparr>)
        | None \<Rightarrow> (None, s'))"

fun flush_gate :: "'w log_ops \<Rightarrow> LogEvent list \<Rightarrow> 'w log_system \<Rightarrow> go_error option \<times> 'w log_system" where
  "flush_gate ops [] s = (None, s)"
| "flush_gate ops (ev # evs) s =
     (let (err, s') = write_event ops ev s in
      if err = None then flush_gate ops evs s' else (err, s'))"

definition gate_Open :: "'w log_ops \<Rightarrow> 'w log_system \<Rightarrow> go_error option \<times> 'w log_system" where
  "gate_Open ops s =
     (let g = ls_gate s in
      if sg_fault g \<noteq> None then (sg_fault g, s)
      else
        let (err, s') = flush_gate ops (sg_pending g) s in
        case err of
          Some e \<Rightarrow>
            let g' = setFaultLocked (Some (output_fault (sg_stage g) None (Some e))) g
            in (sg_fault g', s'\<lparr>ls_gate := g'\<rparr>)
        | None \<Rightarrow> (None, s'\<lparr>ls_gate := g\<lparr>sg_pending := [], sg_pendingBytes := 0, sg_open := True\<rparr>\<rparr>))"

section \<open>The sink\<close>

definition log_event :: "StreamRecord \<Rightarrow> LogEvent" where
  "log_event r = \<lparr>lSource = ''backend'', lStream = sr_Stream r, lMessage = sr_Event r\<rparr>"

text \<open>\<open>errors.Is(err, ctxErr)\<close> for the error of an ended context, which is one of two.\<close>

definition is_ctx_error :: "go_error \<Rightarrow> go_error \<Rightarrow> bool" where
  "is_ctx_error err ended \<longleftrightarrow>
     (case error_kind ended of Sentinel k \<Rightarrow> errors_Is k err | _ \<Rightarrow> False)"

definition streamSink :: "'w log_ops \<Rightarrow> StreamRecord \<Rightarrow> 'w log_system \<Rightarrow> go_error option \<times> 'w log_system" where
  "streamSink ops r s =
     (let (err, w) = RecordLog ops r (ls_world s); s1 = s\<lparr>ls_world := w\<rparr> in
      case err of
        Some e \<Rightarrow>
          let (ended, w2) = LogCtxErr ops (ls_world s1); s2 = s1\<lparr>ls_world := w2\<rparr> in
          if ended \<noteq> None \<and> is_ctx_error e (the ended) then (ended, s2)
          else
            let fault = newBackendError CodeInternalError (sg_stage (ls_gate s2)) [''sink'' \<mapsto> JString ''runtime_log''] (Some e)
            in (None, s2\<lparr>ls_gate := setFaultLocked (Some fault) (ls_gate s2)\<rparr>)
      | None \<Rightarrow>
          if sr_Event r = '''' \<and> \<not> sr_EndOfLine r then (None, s1)
          else (None, snd (gate_Emit ops (log_event r) s1)))"


section \<open>Runs\<close>

text \<open>The calls of the process package and of the supervisor.\<close>

datatype gate_call = SinkRecord StreamRecord | OpenGate | SetGateStage Stage

text \<open>A record without an event counts when it ends a line.\<close>

definition reported :: "StreamRecord \<Rightarrow> bool" where
  "reported r \<longleftrightarrow> sr_Event r \<noteq> '''' \<or> sr_EndOfLine r"

text \<open>A run, with the events of the records that the sink has taken without an error.\<close>

fun gate_run :: "'w log_ops \<Rightarrow> gate_call list \<Rightarrow> LogEvent list \<times> 'w log_system \<Rightarrow> LogEvent list \<times> 'w log_system" where
  "gate_run ops [] (given, s) = (given, s)"
| "gate_run ops (SinkRecord r # cs) (given, s) =
     (let (err, s') = streamSink ops r s in
      gate_run ops cs (if err = None \<and> reported r then given @ [log_event r] else given, s'))"
| "gate_run ops (OpenGate # cs) (given, s) = gate_run ops cs (given, snd (gate_Open ops s))"
| "gate_run ops (SetGateStage st # cs) (given, s) =
     gate_run ops cs (given, s\<lparr>ls_gate := gate_SetStage st (ls_gate s)\<rparr>)"

definition gate_start :: "Stage \<Rightarrow> 'w \<Rightarrow> 'w log_system" where
  "gate_start stage w = \<lparr>ls_gate = new_gate stage, ls_world = w, ls_written = []\<rparr>"


text \<open>The gate against the events given so far, as long as there is no fault.\<close>

definition gate_tracks :: "LogEvent list \<Rightarrow> 'w log_system \<Rightarrow> bool" where
  "gate_tracks given s \<longleftrightarrow>
     (let g = ls_gate s in
      prefix (ls_written s) given \<and>
      length (sg_pending g) \<le> maxPendingLogEvents \<and>
      sg_pendingBytes g = sum_list (map (length \<circ> lMessage) (sg_pending g)) \<and>
      sg_pendingBytes g \<le> maxPendingLogBytes \<and>
      (sg_fault g = None \<longrightarrow>
         given = ls_written s @ sg_pending g \<and>
         (if sg_open g then sg_pending g = [] else ls_written s = [])))"

lemma write_event_sel:
  "write_event ops ev s = (err, s') \<Longrightarrow>
     ls_gate s' = ls_gate s \<and> ls_written s' = (if err = None then ls_written s @ [ev] else ls_written s)"
  by (auto simp: write_event_def Let_def split: prod.splits)

lemma flush_gate_sel:
  "flush_gate ops evs s = (err, s') \<Longrightarrow>
     ls_gate s' = ls_gate s \<and> prefix (ls_written s') (ls_written s @ evs) \<and>
     (err = None \<longrightarrow> ls_written s' = ls_written s @ evs)"
proof (induction evs arbitrary: s)
  case (Cons ev evs)
  obtain e1 s1 where w: "write_event ops ev s = (e1, s1)" by fastforce
  note sel = write_event_sel[OF w]
  show ?case
  proof (cases e1)
    case None
    with Cons.prems w have "flush_gate ops evs s1 = (err, s')" by simp
    from Cons.IH[OF this] sel None show ?thesis by simp
  next
    case (Some e)
    with Cons.prems w have "err = Some e" "s' = s1" by simp_all
    with sel Some show ?thesis by simp
  qed
qed simp

lemma setFaultLocked_sel [simp]:
  "sg_pending (setFaultLocked e g) = sg_pending g"
  "sg_pendingBytes (setFaultLocked e g) = sg_pendingBytes g"
  "sg_open (setFaultLocked e g) = sg_open g"
  "sg_fault (setFaultLocked (Some x) g) \<noteq> None"
  by (auto simp: setFaultLocked_def)

lemma setFaultLocked_Some [simp]: "sg_fault (setFaultLocked (Some x) g) = None \<longleftrightarrow> False"
  by (auto simp: setFaultLocked_def)

lemma prefix_more: "prefix xs ys \<Longrightarrow> prefix xs (ys @ zs)"
  by (auto simp: prefix_def)

lemma gate_Emit_tracks:
  assumes "gate_tracks given s"
  shows "gate_tracks (given @ [ev]) (snd (gate_Emit ops ev s))"
proof -
  obtain err s' where w: "write_event ops ev s = (err, s')" by fastforce
  note sel = write_event_sel[OF w]
  let ?g = "ls_gate s"
  consider (fault) "sg_fault ?g \<noteq> None"
    | (full) "sg_fault ?g = None" "\<not> sg_open ?g"
        "maxPendingLogEvents \<le> length (sg_pending ?g) \<or> maxPendingLogBytes < sg_pendingBytes ?g + length (lMessage ev)"
    | (keep) "sg_fault ?g = None" "\<not> sg_open ?g"
        "\<not> (maxPendingLogEvents \<le> length (sg_pending ?g) \<or> maxPendingLogBytes < sg_pendingBytes ?g + length (lMessage ev))"
    | (fails) e where "sg_fault ?g = None" "sg_open ?g" "err = Some e"
    | (writes) "sg_fault ?g = None" "sg_open ?g" "err = None"
    by (cases err) auto
  then show ?thesis
  proof cases
    case fault
    then show ?thesis using assms by (auto simp: gate_Emit_def gate_tracks_def Let_def prefix_more)
  next
    case full
    then show ?thesis using assms by (auto simp: gate_Emit_def gate_tracks_def Let_def prefix_more)
  next
    case keep
    then show ?thesis using assms by (auto simp: gate_Emit_def gate_tracks_def Let_def prefix_more)
  next
    case fails
    then show ?thesis using assms w sel by (auto simp: gate_Emit_def gate_tracks_def Let_def prefix_more)
  next
    case writes
    then show ?thesis using assms w sel by (auto simp: gate_Emit_def gate_tracks_def Let_def)
  qed
qed

lemma gate_Open_tracks:
  assumes "gate_tracks given s"
  shows "gate_tracks given (snd (gate_Open ops s))"
proof -
  obtain err s' where f: "flush_gate ops (sg_pending (ls_gate s)) s = (err, s')" by fastforce
  note sel = flush_gate_sel[OF f]
  consider "sg_fault (ls_gate s) \<noteq> None" | e where "sg_fault (ls_gate s) = None" "err = Some e"
    | "sg_fault (ls_gate s) = None" "err = None" by (cases err) auto
  then show ?thesis
  proof cases
    case 1
    then show ?thesis using assms by (simp add: gate_Open_def Let_def)
  next
    case 2
    then show ?thesis using assms f sel by (auto simp: gate_Open_def gate_tracks_def Let_def)
  next
    case 3
    then show ?thesis using assms f sel by (auto simp: gate_Open_def gate_tracks_def Let_def)
  qed
qed


lemma tracks_world: "gate_tracks given (s\<lparr>ls_world := w\<rparr>) = gate_tracks given s"
  by (simp add: gate_tracks_def)

lemma tracks_fault:
  "gate_tracks given s \<Longrightarrow> gate_tracks (given @ evs) (s\<lparr>ls_gate := setFaultLocked (Some e) (ls_gate s)\<rparr>)"
  by (auto simp: gate_tracks_def Let_def prefix_more)

text \<open>The first fault stays: no operation replaces it.\<close>

definition keeps_fault :: "'w log_system \<Rightarrow> 'w log_system \<Rightarrow> bool" where
  "keeps_fault s s' \<longleftrightarrow> (\<forall>e. sg_fault (ls_gate s) = Some e \<longrightarrow>
     sg_fault (ls_gate s') = Some e \<and> ls_written s' = ls_written s)"

lemma keeps_fault_refl [simp]: "keeps_fault s s"
  by (simp add: keeps_fault_def)

lemma setFaultLocked_keeps: "sg_fault g = Some e \<Longrightarrow> setFaultLocked x g = g"
  by (simp add: setFaultLocked_def)

lemma gate_Emit_keeps: "keeps_fault s (snd (gate_Emit ops ev s))"
  by (auto simp: keeps_fault_def gate_Emit_def Let_def)

lemma gate_Open_keeps: "keeps_fault s (snd (gate_Open ops s))"
  by (auto simp: keeps_fault_def gate_Open_def Let_def)

lemma streamSink_cases:
  assumes "streamSink ops r s = (err, s')"
  obtains (ended) w where "err \<noteq> None" "s' = s\<lparr>ls_world := w\<rparr>"
  | (log_fault) w e where "err = None" "s' = s\<lparr>ls_world := w, ls_gate := setFaultLocked (Some e) (ls_gate s)\<rparr>"
  | (silent) w where "err = None" "s' = s\<lparr>ls_world := w\<rparr>" "\<not> reported r"
  | (emitted) w where "err = None" "s' = snd (gate_Emit ops (log_event r) (s\<lparr>ls_world := w\<rparr>))" "reported r"
proof -
  obtain e1 w1 where rec: "RecordLog ops r (ls_world s) = (e1, w1)" by fastforce
  obtain e2 w2 where ctx: "LogCtxErr ops w1 = (e2, w2)" by fastforce
  show thesis
  proof (cases e1)
    case None
    then show thesis using assms rec silent[of w1] emitted[of w1]
      by (auto simp: streamSink_def reported_def Let_def split: if_splits)
  next
    case (Some e)
    then show thesis using assms rec ctx ended[where w = w2] log_fault[where w = w2]
      by (auto simp: streamSink_def Let_def split: if_splits)
  qed
qed

lemma streamSink_tracks:
  assumes "gate_tracks given s" and "streamSink ops r s = (err, s')"
  shows "gate_tracks (if err = None \<and> reported r then given @ [log_event r] else given) s'"
  using assms(2)
proof (cases rule: streamSink_cases)
  case (log_fault w e)
  have "gate_tracks given (s\<lparr>ls_world := w\<rparr>)" using assms(1) by (simp add: tracks_world)
  from tracks_fault[OF this, of "[log_event r]" e] tracks_fault[OF this, of "[]" e]
  show ?thesis using log_fault by simp
next
  case (emitted w)
  have "gate_tracks given (s\<lparr>ls_world := w\<rparr>)" using assms(1) by (simp add: tracks_world)
  from gate_Emit_tracks[OF this] show ?thesis using emitted by simp
qed (use assms(1) in \<open>auto simp: tracks_world\<close>)

lemma streamSink_keeps:
  assumes "streamSink ops r s = (err, s')"
  shows "keeps_fault s s'"
  using assms
proof (cases rule: streamSink_cases)
  case (emitted w)
  have "keeps_fault (s\<lparr>ls_world := w\<rparr>) s'" using emitted gate_Emit_keeps by simp
  then show ?thesis by (simp add: keeps_fault_def)
qed (auto simp: keeps_fault_def setFaultLocked_keeps)

lemma gate_run_invariant:
  "gate_tracks given s \<Longrightarrow> gate_run ops cs (given, s) = (given', s') \<Longrightarrow>
     gate_tracks given' s' \<and> keeps_fault s s'"
proof (induction ops cs "(given, s)" arbitrary: given s rule: gate_run.induct)
  case (1 ops given s)
  then show ?case by simp
next
  case (2 ops r cs given s)
  obtain err s1 where sink: "streamSink ops r s = (err, s1)" by fastforce
  let ?given = "if err = None \<and> reported r then given @ [log_event r] else given"
  have "gate_run ops cs (?given, s1) = (given', s')" using 2(3) sink by simp
  with 2(1)[OF sink[symmetric] refl] streamSink_tracks[OF 2(2) sink]
  have "gate_tracks given' s' \<and> keeps_fault s1 s'" by blast
  with streamSink_keeps[OF sink] show ?case by (auto simp: keeps_fault_def)
next
  case (3 ops cs given s)
  have "gate_run ops cs (given, snd (gate_Open ops s)) = (given', s')" using 3(3) by simp
  with 3(1)[OF gate_Open_tracks[OF 3(2)]]
  have "gate_tracks given' s' \<and> keeps_fault (snd (gate_Open ops s)) s'" by blast
  with gate_Open_keeps show ?case unfolding keeps_fault_def by metis
next
  case (4 ops st cs given s)
  have "gate_tracks given (s\<lparr>ls_gate := gate_SetStage st (ls_gate s)\<rparr>)"
    using 4(2) by (simp add: gate_tracks_def gate_SetStage_def Let_def)
  moreover have "gate_run ops cs (given, s\<lparr>ls_gate := gate_SetStage st (ls_gate s)\<rparr>) = (given', s')"
    using 4(3) by simp
  ultimately have "gate_tracks given' s' \<and> keeps_fault (s\<lparr>ls_gate := gate_SetStage st (ls_gate s)\<rparr>) s'"
    using 4(1) by blast
  then show ?case by (simp add: keeps_fault_def gate_SetStage_def)
qed

section \<open>Properties\<close>

text \<open>C37: In every run of the log gate, whatever the emitter and the runtime log answer, the events
  written are the first of the events taken, in their order. Without a fault nothing is lost: before
  the gate is open nothing is written and everything waits, afterwards everything is written. At most
  256 events of together at most 4 MiB wait. After the first fault nothing more is written and that
  fault is the one reported.\<close>

theorem gate_in_order:
  assumes "gate_run ops cs ([], gate_start stage w) = (given, s)"
  shows "prefix (ls_written s) given \<and>
         (sg_fault (ls_gate s) = None \<longrightarrow> given = ls_written s @ sg_pending (ls_gate s) \<and>
            (if sg_open (ls_gate s) then sg_pending (ls_gate s) = [] else ls_written s = [])) \<and>
         length (sg_pending (ls_gate s)) \<le> 256 \<and>
         sum_list (map (length \<circ> lMessage) (sg_pending (ls_gate s))) \<le> 4 * 2 ^ 20 \<and>
         (\<forall>e cs'. sg_fault (ls_gate s) = Some e \<longrightarrow>
            sg_fault (ls_gate (snd (gate_run ops cs' (given, s)))) = Some e \<and>
            ls_written (snd (gate_run ops cs' (given, s))) = ls_written s)"
proof -
  have "gate_tracks [] (gate_start stage w)"
    by (simp add: gate_tracks_def gate_start_def new_gate_def maxPendingLogBytes_def)
  note inv = conjunct1[OF gate_run_invariant[OF this assms]]
  have "sg_fault (ls_gate (snd (gate_run ops cs' (given, s)))) = Some e \<and>
      ls_written (snd (gate_run ops cs' (given, s))) = ls_written s"
    if "sg_fault (ls_gate s) = Some e" for e cs'
    using gate_run_invariant[OF inv prod.collapse[symmetric], of ops cs'] that by (simp add: keeps_fault_def)
  then show ?thesis
    using inv by (simp add: gate_tracks_def Let_def maxPendingLogEvents_def maxPendingLogBytes_def)
qed

definition example_log_ops :: "nat log_ops" where
  "example_log_ops = \<lparr>EmitLog = (\<lambda>_ n. (if n < 2 then None else Some (sentinel (PlainError ''pipe'')), n + 1)),
     RecordLog = (\<lambda>_ n. (None, n)), LogCtxErr = (\<lambda>n. (None, n))\<rparr>"

definition example_line :: "string \<Rightarrow> StreamRecord" where
  "example_line t = \<lparr>sr_Stream = ''stdout'', sr_LineID = 1, sr_Fragment = t, sr_EndOfLine = True,
     sr_Event = t, sr_Truncated = False, sr_OriginalBytes = 1\<rparr>"

definition example_gate_calls :: "gate_call list" where
  "example_gate_calls = [SinkRecord (example_line ''a''), OpenGate, SinkRecord (example_line ''b''),
     SinkRecord (example_line ''c''), SinkRecord (example_line ''d'')]"

lemma example_gate_written:
  "map lMessage (ls_written (snd (gate_run example_log_ops
     example_gate_calls ([], gate_start StageBackendSpawn 0)))) = [''a'', ''b'']"
  by (simp add: example_gate_calls_def example_log_ops_def example_line_def streamSink_def gate_start_def new_gate_def
      gate_Emit_def gate_Open_def maxPendingLogEvents_def maxPendingLogBytes_def write_event_def
      log_event_def reported_def setFaultLocked_def output_fault_def)

theorem gate_in_order_witness:
  "map lMessage (ls_written (snd (gate_run example_log_ops example_gate_calls
     ([], gate_start StageBackendSpawn 0)))) = [''a'', ''b''] \<and>
   prefix (ls_written (snd (gate_run example_log_ops example_gate_calls ([], gate_start StageBackendSpawn 0))))
     (fst (gate_run example_log_ops example_gate_calls ([], gate_start StageBackendSpawn 0)))"
  using conjunct1[OF gate_in_order[of example_log_ops example_gate_calls StageBackendSpawn 0, OF prod.collapse[symmetric]]]
    example_gate_written by (auto simp only:)

end
