(* ===== verification/Backend_Monad.thy ===== *)
theory Backend_Monad
  imports Backend_Error
begin

text \<open>
  The programs of the supervisor: state transformers that may still be waiting. A program of type
  \<open>'s \<Rightarrow> 'a option \<times> 's\<close> ends with a value, or with \<open>None\<close> when the events it was given ran out
  while it waited for one; what it has done until then is in the state. \<open>wp m Q W s\<close> says that \<open>m\<close>
  started in \<open>s\<close> ends with a value and a state that satisfy \<open>Q\<close>, or waits in a state that satisfies
  \<open>W\<close>; the rules in \<open>wp\<close> compute it from the program.
\<close>

named_theorems wp \<open>weakest preconditions of programs, as introduction rules\<close>

definition ret :: "'a \<Rightarrow> 's \<Rightarrow> 'a option \<times> 's" where
  "ret a s = (Some a, s)"

definition waiting :: "'s \<Rightarrow> 'a option \<times> 's" where
  "waiting s = (None, s)"

definition seq :: "('s \<Rightarrow> 'a option \<times> 's) \<Rightarrow> ('a \<Rightarrow> 's \<Rightarrow> 'b option \<times> 's) \<Rightarrow> 's \<Rightarrow> 'b option \<times> 's" where
  "seq m f s = (case m s of (None, s') \<Rightarrow> (None, s') | (Some a, s') \<Rightarrow> f a s')"

definition upd :: "('s \<Rightarrow> 's) \<Rightarrow> 's \<Rightarrow> unit option \<times> 's" where
  "upd f s = (Some (), f s)"

definition get :: "('s \<Rightarrow> 'a) \<Rightarrow> 's \<Rightarrow> 'a option \<times> 's" where
  "get f s = (Some (f s), s)"

definition wp :: "('s \<Rightarrow> 'a option \<times> 's) \<Rightarrow> ('a \<Rightarrow> 's \<Rightarrow> bool) \<Rightarrow> ('s \<Rightarrow> bool) \<Rightarrow> 's \<Rightarrow> bool" where
  "wp m Q W s = (case m s of (None, s') \<Rightarrow> W s' | (Some a, s') \<Rightarrow> Q a s')"

lemma wp_ret [wp]: "Q a s \<Longrightarrow> wp (ret a) Q W s"
  by (simp add: wp_def ret_def)

lemma wp_waiting [wp]: "W s \<Longrightarrow> wp waiting Q W s"
  by (simp add: wp_def waiting_def)

lemma wp_seq_iff: "wp (seq m f) Q W s \<longleftrightarrow> wp m (\<lambda>a. wp (f a) Q W) W s"
  by (auto simp: wp_def seq_def split: prod.splits option.splits)

lemma wp_seq [wp]: "wp m (\<lambda>a. wp (f a) Q W) W s \<Longrightarrow> wp (seq m f) Q W s"
  by (simp add: wp_seq_iff)

lemma wp_upd [wp]: "Q () (f s) \<Longrightarrow> wp (upd f) Q W s"
  by (simp add: wp_def upd_def)

lemma wp_get [wp]: "Q (f s) s \<Longrightarrow> wp (get f) Q W s"
  by (simp add: wp_def get_def)

lemma wp_if [wp]:
  "(b \<Longrightarrow> wp m Q W s) \<Longrightarrow> (\<not> b \<Longrightarrow> wp k Q W s) \<Longrightarrow> wp (if b then m else k) Q W s"
  by simp

lemma wp_case_option [wp]:
  "(x = None \<Longrightarrow> wp m Q W s) \<Longrightarrow> (\<And>a. x = Some a \<Longrightarrow> wp (f a) Q W s) \<Longrightarrow>
     wp (case x of None \<Rightarrow> m | Some a \<Rightarrow> f a) Q W s"
  by (cases x) auto

lemma wp_case_sum [wp]:
  "(\<And>a. x = Inl a \<Longrightarrow> wp (g a) Q W s) \<Longrightarrow> (\<And>a. x = Inr a \<Longrightarrow> wp (f a) Q W s) \<Longrightarrow>
     wp (case x of Inl a \<Rightarrow> g a | Inr a \<Rightarrow> f a) Q W s"
  by (cases x) auto

lemma wp_case_prod [wp]:
  "(\<And>a b. x = (a, b) \<Longrightarrow> wp (f a b) Q W s) \<Longrightarrow> wp (case x of (a, b) \<Rightarrow> f a b) Q W s"
  by (cases x) auto

lemma wp_let [wp]: "(\<And>y. y = x \<Longrightarrow> wp (f y) Q W s) \<Longrightarrow> wp (let y = x in f y) Q W s"
  by simp

lemma wp_weaken:
  "wp m Q' W' s \<Longrightarrow> (\<And>a s'. Q' a s' \<Longrightarrow> Q a s') \<Longrightarrow> (\<And>s'. W' s' \<Longrightarrow> W s') \<Longrightarrow> wp m Q W s"
  by (auto simp: wp_def split: prod.splits option.splits)

lemma wp_conj:
  "wp m Q W s \<Longrightarrow> wp m Q' W' s \<Longrightarrow> wp m (\<lambda>a s. Q a s \<and> Q' a s) (\<lambda>s. W s \<and> W' s) s"
  by (auto simp: wp_def split: prod.splits option.splits)

text \<open>From a weakest precondition to a run.\<close>

lemma wp_ended: "wp m Q W s \<Longrightarrow> m s = (Some a, s') \<Longrightarrow> Q a s'"
  by (simp add: wp_def)

lemma wp_waits: "wp m Q W s \<Longrightarrow> m s = (None, s') \<Longrightarrow> W s'"
  by (simp add: wp_def)

lemma wp_always: "wp m (\<lambda>_. I) I s \<Longrightarrow> m s = (r, s') \<Longrightarrow> I s'"
  by (cases r) (simp_all add: wp_def)

end
