(* ===== verification/Control_Mailbox.thy ===== *)
theory Control_Mailbox
  imports Backend_Error
begin

text \<open>
  The first part of \<open>internal/backend/control.go\<close>: the bounded mailbox between the reader of control
  commands and the supervisor, and the goroutine that forwards its commands. A method that waits is
  one function for each pass under the mutex. The channel \<open>wake\<close>, which a change closes and replaces,
  is the number of its generation: whoever waits on an older one is woken. \<open>stopCh\<close> and \<open>closeCh\<close> are
  closed exactly when the mailbox is stopped and closed, which the code does under the same mutex.
  The relation \<open>mailbox_step\<close> interleaves any number of producers, the forwarder, the supervisor that
  takes its results, and the other methods. The lemmas show that no command is lost, repeated or
  reordered, that the queue is bounded, that the latched terminal command is the first accepted one,
  and that nobody waits who could go on.
\<close>

section \<open>The mailbox\<close>

definition defaultControlMailboxCapacity :: nat where
  "defaultControlMailboxCapacity = 64"

record ControlMailbox =
  mb_queue :: "ControlCommand list"
  mb_capacity :: nat
  mb_wake :: nat
  mb_fullWaiters :: bool
  mb_stopped :: bool
  mb_closed :: bool
  mb_readerErr :: "go_error option"
  mb_readerReported :: bool
  mb_terminal :: "ControlCommand option"

definition NewControlMailbox :: "int \<Rightarrow> ControlMailbox" where
  "NewControlMailbox capacity =
     \<lparr>mb_queue = [], mb_capacity = (if capacity \<le> 0 then defaultControlMailboxCapacity else nat capacity),
      mb_wake = 0, mb_fullWaiters = False, mb_stopped = False, mb_closed = False, mb_readerErr = None,
      mb_readerReported = False, mb_terminal = None\<rparr>"

definition is_terminal :: "ControlCommand \<Rightarrow> bool" where
  "is_terminal c \<longleftrightarrow> cc_command c = ControlCancel \<or> cc_command c = ControlShutdown"

definition signal :: "ControlMailbox \<Rightarrow> ControlMailbox" where
  "signal m = m\<lparr>mb_wake := mb_wake m + 1\<rparr>"

text \<open>The checks before the first pass: the receiver and the context are not nil.\<close>

definition mailbox_entry :: "bool \<Rightarrow> bool \<Rightarrow> go_error option" where
  "mailbox_entry nilMailbox nilContext =
     (if nilMailbox then Some (sentinel ErrControlMailboxClosed)
      else if nilContext then Some (sentinel (PlainError ''backend control context is nil''))
      else None)"

datatype submit_answer = Submitted | SubmitRefused go_error | SubmitWaits nat

definition Submit :: "go_error option \<Rightarrow> ControlCommand \<Rightarrow> ControlMailbox \<Rightarrow> submit_answer \<times> ControlMailbox" where
  "Submit ended c m =
     (if mb_closed m then (SubmitRefused (sentinel ErrControlMailboxClosed), m)
      else if mb_stopped m then (SubmitRefused (sentinel ErrControlStopped), m)
      else case ended of Some e \<Rightarrow> (SubmitRefused e, m)
      | None \<Rightarrow>
          if length (mb_queue m) < mb_capacity m then
            let first = is_terminal c \<and> mb_terminal m = None;
                m1 = m\<lparr>mb_queue := mb_queue m @ [c],
                       mb_terminal := (if first then Some c else mb_terminal m)\<rparr>;
                m2 = (if cc_command c = ControlShutdown \<and> first \<and> \<not> mb_stopped m
                      then m1\<lparr>mb_stopped := True\<rparr> else m1)
            in (Submitted, signal m2)
          else (SubmitWaits (mb_wake m), m\<lparr>mb_fullWaiters := True\<rparr>))"

datatype receive_answer = Received ControlCommand | ReceiveFails go_error | ReceiveWaits nat

definition Receive :: "ControlMailbox \<Rightarrow> receive_answer \<times> ControlMailbox" where
  "Receive m =
     (case mb_queue m of
        c # cs \<Rightarrow>
          (Received c,
           signal (m\<lparr>mb_queue := cs,
                     mb_terminal := (if is_terminal c \<and> mb_terminal m = None then Some c
                                     else mb_terminal m)\<rparr>))
      | [] \<Rightarrow>
          (case mb_readerErr m of
             Some e \<Rightarrow>
               if \<not> mb_readerReported m then (ReceiveFails e, m\<lparr>mb_readerReported := True\<rparr>)
               else if mb_stopped m then (ReceiveFails (sentinel ErrControlStopped), m)
               else if mb_closed m then (ReceiveFails (sentinel ErrControlMailboxClosed), m)
               else (ReceiveWaits (mb_wake m), m)
           | None \<Rightarrow>
               if mb_stopped m then (ReceiveFails (sentinel ErrControlStopped), m)
               else if mb_closed m then (ReceiveFails (sentinel ErrControlMailboxClosed), m)
               else (ReceiveWaits (mb_wake m), m)))"

definition SetReaderError :: "go_error option \<Rightarrow> ControlMailbox \<Rightarrow> ControlMailbox" where
  "SetReaderError err m =
     (if err = None then m
      else if mb_readerErr m = None then signal (m\<lparr>mb_readerErr := err\<rparr>) else m)"

definition InfrastructureError :: "ControlMailbox \<Rightarrow> go_error option" where
  "InfrastructureError m = mb_readerErr m"

definition mailbox_StopAccepting :: "ControlMailbox \<Rightarrow> ControlMailbox" where
  "mailbox_StopAccepting m = (if \<not> mb_stopped m then signal (m\<lparr>mb_stopped := True\<rparr>) else m)"

definition mailbox_Close :: "ControlMailbox \<Rightarrow> ControlMailbox" where
  "mailbox_Close m =
     (if \<not> mb_closed m then signal (m\<lparr>mb_closed := True, mb_stopped := True\<rparr>) else m)"

definition TerminalCommand :: "ControlMailbox \<Rightarrow> ControlCommand option" where
  "TerminalCommand m = mb_terminal m"

section \<open>The forwarder and its surroundings\<close>

datatype controlResult = ResultCommand ControlCommand | ResultError go_error

text \<open>What a producer is doing: nothing, inside \<open>Submit\<close> before a pass, or waiting with the generation it
  has read. What the forwarder is doing: before \<open>Receive\<close>, waiting in it, holding a result that the
  channel of capacity one has not taken yet, or done.\<close>

datatype producer = Idle | Submitting ControlCommand | Blocked ControlCommand nat

datatype forwarder = Receiving | Waiting nat | Holding controlResult | Finished

record mailbox_system =
  ms_mailbox :: ControlMailbox
  ms_producers :: "nat \<Rightarrow> producer"
  ms_forwarder :: forwarder
  ms_results :: "controlResult list"
  ms_accepted :: "ControlCommand list"
  ms_taken :: "controlResult list"

text \<open>The forwarder of \<open>startControlForwarder\<close> after an answer of \<open>Receive\<close>. A command goes to the
  channel; an error ends the forwarder after it is sent, except the end of the forwarder's own
  context when the reader has not failed.\<close>

definition forward :: "receive_answer \<Rightarrow> forwarder" where
  "forward a =
     (case a of
        Received c \<Rightarrow> Holding (ResultCommand c)
      | ReceiveFails e \<Rightarrow> Holding (ResultError e)
      | ReceiveWaits g \<Rightarrow> Waiting g)"

definition forward_cancelled :: "go_error \<Rightarrow> ControlMailbox \<Rightarrow> forwarder" where
  "forward_cancelled e m =
     (if (errors_Is ContextCanceled e \<or> errors_Is DeadlineExceeded e) \<and> InfrastructureError m = None
      then Finished else Holding (ResultError e))"

inductive mailbox_step :: "mailbox_system \<Rightarrow> mailbox_system \<Rightarrow> bool" where
  enter: "ms_producers s i = Idle \<Longrightarrow> mailbox_entry False nilContext = None \<Longrightarrow>
    mailbox_step s (s\<lparr>ms_producers := (ms_producers s)(i := Submitting c)\<rparr>)"
| submitted: "ms_producers s i = Submitting c \<Longrightarrow> Submit ended c (ms_mailbox s) = (Submitted, m) \<Longrightarrow>
    mailbox_step s (s\<lparr>ms_producers := (ms_producers s)(i := Idle), ms_mailbox := m,
                      ms_accepted := ms_accepted s @ [c]\<rparr>)"
| refused: "ms_producers s i = Submitting c \<Longrightarrow>
    Submit ended c (ms_mailbox s) = (SubmitRefused e, m) \<Longrightarrow>
    mailbox_step s (s\<lparr>ms_producers := (ms_producers s)(i := Idle), ms_mailbox := m\<rparr>)"
| blocked: "ms_producers s i = Submitting c \<Longrightarrow>
    Submit ended c (ms_mailbox s) = (SubmitWaits g, m) \<Longrightarrow>
    mailbox_step s (s\<lparr>ms_producers := (ms_producers s)(i := Blocked c g), ms_mailbox := m\<rparr>)"
| woken: "ms_producers s i = Blocked c g \<Longrightarrow> g < mb_wake (ms_mailbox s) \<Longrightarrow>
    mailbox_step s (s\<lparr>ms_producers := (ms_producers s)(i := Submitting c)\<rparr>)"
| given_up: "ms_producers s i = Blocked c g \<Longrightarrow>
    mailbox_step s (s\<lparr>ms_producers := (ms_producers s)(i := Idle)\<rparr>)"
| receive: "ms_forwarder s = Receiving \<Longrightarrow> Receive (ms_mailbox s) = (a, m) \<Longrightarrow>
    mailbox_step s (s\<lparr>ms_forwarder := forward a, ms_mailbox := m\<rparr>)"
| receive_again: "ms_forwarder s = Waiting g \<Longrightarrow>
    g < mb_wake (ms_mailbox s) \<or> mb_closed (ms_mailbox s) \<Longrightarrow>
    mailbox_step s (s\<lparr>ms_forwarder := Receiving\<rparr>)"
| receive_cancelled: "ms_forwarder s = Waiting g \<Longrightarrow>
    mailbox_step s (s\<lparr>ms_forwarder := forward_cancelled e (ms_mailbox s)\<rparr>)"
| hand_over: "ms_forwarder s = Holding r \<Longrightarrow> ms_results s = [] \<Longrightarrow>
    mailbox_step s (s\<lparr>ms_results := [r],
      ms_forwarder := (case r of ResultCommand _ \<Rightarrow> Receiving | ResultError _ \<Rightarrow> Finished)\<rparr>)"
| abandon: "ms_forwarder s = Holding r \<Longrightarrow> mailbox_step s (s\<lparr>ms_forwarder := Finished\<rparr>)"
| take: "ms_results s = [r] \<Longrightarrow>
    mailbox_step s (s\<lparr>ms_results := [], ms_taken := ms_taken s @ [r]\<rparr>)"
| reader_error: "mailbox_step s (s\<lparr>ms_mailbox := SetReaderError err (ms_mailbox s)\<rparr>)"
| stop: "mailbox_step s (s\<lparr>ms_mailbox := mailbox_StopAccepting (ms_mailbox s)\<rparr>)"
| close: "mailbox_step s (s\<lparr>ms_mailbox := mailbox_Close (ms_mailbox s)\<rparr>)"

definition mailbox_start :: "int \<Rightarrow> mailbox_system" where
  "mailbox_start capacity =
     \<lparr>ms_mailbox = NewControlMailbox capacity, ms_producers = (\<lambda>_. Idle), ms_forwarder = Receiving,
      ms_results = [], ms_accepted = [], ms_taken = []\<rparr>"

inductive mailbox_reachable :: "int \<Rightarrow> mailbox_system \<Rightarrow> bool" for capacity where
  started: "mailbox_reachable capacity (mailbox_start capacity)"
| next_step: "mailbox_reachable capacity s \<Longrightarrow> mailbox_step s s' \<Longrightarrow> mailbox_reachable capacity s'"


section \<open>Invariants\<close>

definition commands :: "controlResult list \<Rightarrow> ControlCommand list" where
  "commands rs = List.map_filter (\<lambda>r. case r of ResultCommand c \<Rightarrow> Some c | ResultError _ \<Rightarrow> None) rs"

definition held :: "forwarder \<Rightarrow> controlResult list" where
  "held f = (case f of Holding r \<Rightarrow> [r] | _ \<Rightarrow> [])"

lemma commands_simps [simp]:
  "commands [] = []"
  "commands (ResultCommand c # rs) = c # commands rs"
  "commands (ResultError e # rs) = commands rs"
  "commands (rs @ rs') = commands rs @ commands rs'"
  by (simp_all add: commands_def List.map_filter_simps List.map_filter_def)

lemma held_simps [simp]:
  "held Receiving = []" "held (Waiting g) = []" "held (Holding r) = [r]" "held Finished = []"
  by (simp_all add: held_def)

lemma signal_sel [simp]:
  "mb_queue (signal m) = mb_queue m" "mb_capacity (signal m) = mb_capacity m"
  "mb_wake (signal m) = mb_wake m + 1" "mb_stopped (signal m) = mb_stopped m"
  "mb_closed (signal m) = mb_closed m" "mb_readerErr (signal m) = mb_readerErr m"
  "mb_readerReported (signal m) = mb_readerReported m" "mb_terminal (signal m) = mb_terminal m"
  by (simp_all add: signal_def)

lemma new_mailbox_sel [simp]:
  "mb_queue (NewControlMailbox n) = []" "mb_wake (NewControlMailbox n) = 0"
  "mb_stopped (NewControlMailbox n) = False" "mb_closed (NewControlMailbox n) = False"
  "mb_readerErr (NewControlMailbox n) = None" "mb_terminal (NewControlMailbox n) = None"
  "0 < mb_capacity (NewControlMailbox n)"
  by (simp_all add: NewControlMailbox_def defaultControlMailboxCapacity_def)

text \<open>What a pass of \<open>Submit\<close> and \<open>Receive\<close> does, by its answer.\<close>

lemma Submit_submitted:
  assumes "Submit ended c m = (Submitted, m')"
  shows "\<not> mb_stopped m" "\<not> mb_closed m" "length (mb_queue m) < mb_capacity m"
    "mb_queue m' = mb_queue m @ [c]" "mb_capacity m' = mb_capacity m" "mb_wake m' = mb_wake m + 1"
    "mb_closed m' = mb_closed m" "mb_readerErr m' = mb_readerErr m"
    "mb_terminal m' = (if mb_terminal m = None \<and> is_terminal c then Some c else mb_terminal m)"
  using assms by (auto simp: Submit_def Let_def split: if_splits option.splits)

lemma Submit_not_submitted:
  assumes "Submit ended c m = (a, m')" and "a \<noteq> Submitted"
  shows "m' = m \<or> m' = m\<lparr>mb_fullWaiters := True\<rparr>"
  using assms by (auto simp: Submit_def Let_def split: if_splits option.splits)

lemma Submit_waits:
  assumes "Submit ended c m = (SubmitWaits g, m')"
  shows "g = mb_wake m" "\<not> mb_stopped m" "\<not> mb_closed m" "mb_capacity m \<le> length (mb_queue m)"
    "m' = m\<lparr>mb_fullWaiters := True\<rparr>"
  using assms by (auto simp: Submit_def Let_def split: if_splits option.splits)

lemma Receive_received:
  assumes "Receive m = (Received c, m')"
  shows "mb_queue m = c # mb_queue m'" "mb_capacity m' = mb_capacity m" "mb_wake m' = mb_wake m + 1"
    "mb_closed m' = mb_closed m" "mb_stopped m' = mb_stopped m" "mb_readerErr m' = mb_readerErr m"
    "mb_readerReported m' = mb_readerReported m"
    "mb_terminal m' = (if mb_terminal m = None \<and> is_terminal c then Some c else mb_terminal m)"
  using assms by (auto simp: Receive_def split: if_splits option.splits list.splits)

lemma Receive_fails:
  assumes "Receive m = (ReceiveFails e, m')"
  shows "mb_queue m = []" "m' = m \<or> m' = m\<lparr>mb_readerReported := True\<rparr>"
  using assms by (auto simp: Receive_def split: if_splits option.splits list.splits)

lemma Receive_waits:
  assumes "Receive m = (ReceiveWaits g, m')"
  shows "m' = m" "g = mb_wake m" "mb_queue m = []" "\<not> mb_stopped m"
    "mb_readerErr m = None \<or> mb_readerReported m"
  using assms by (auto simp: Receive_def split: if_splits option.splits list.splits)

text \<open>Where every accepted command is; the latched command; who may wait.\<close>

definition placed :: "mailbox_system \<Rightarrow> bool" where
  "placed s \<longleftrightarrow> (\<exists>lost. ms_accepted s =
       commands (ms_taken s @ ms_results s @ held (ms_forwarder s)) @ lost @ mb_queue (ms_mailbox s) \<and>
     (ms_forwarder s \<noteq> Finished \<longrightarrow> lost = []))"

definition latched :: "mailbox_system \<Rightarrow> bool" where
  "latched s \<longleftrightarrow>
     TerminalCommand (ms_mailbox s) = find is_terminal (ms_accepted s) \<and>
     (mb_closed (ms_mailbox s) \<longrightarrow> mb_stopped (ms_mailbox s))"

definition bounded :: "mailbox_system \<Rightarrow> bool" where
  "bounded s \<longleftrightarrow>
     0 < mb_capacity (ms_mailbox s) \<and>
     length (mb_queue (ms_mailbox s)) \<le> mb_capacity (ms_mailbox s) \<and> length (ms_results s) \<le> 1"

text \<open>Waiting on generation \<open>g\<close> when \<open>w\<close> is the current one: either the wait is over, or the mailbox
  gives no reason to go on.\<close>

definition waits_for :: "nat \<Rightarrow> bool \<Rightarrow> nat \<Rightarrow> bool" where
  "waits_for w stuck g \<longleftrightarrow> g \<le> w \<and> (g = w \<longrightarrow> stuck)"

definition receiver_stuck :: "ControlMailbox \<Rightarrow> bool" where
  "receiver_stuck m \<longleftrightarrow>
     mb_queue m = [] \<and> \<not> mb_stopped m \<and> (mb_readerErr m = None \<or> mb_readerReported m)"

definition producer_stuck :: "ControlMailbox \<Rightarrow> bool" where
  "producer_stuck m \<longleftrightarrow>
     mb_capacity m \<le> length (mb_queue m) \<and> \<not> mb_stopped m \<and> \<not> mb_closed m"

definition receiver_waits :: "mailbox_system \<Rightarrow> bool" where
  "receiver_waits s \<longleftrightarrow>
     (\<forall>g. ms_forwarder s = Waiting g \<longrightarrow>
        waits_for (mb_wake (ms_mailbox s)) (receiver_stuck (ms_mailbox s)) g)"

definition producers_wait :: "mailbox_system \<Rightarrow> bool" where
  "producers_wait s \<longleftrightarrow>
     (\<forall>i c g. ms_producers s i = Blocked c g \<longrightarrow>
        waits_for (mb_wake (ms_mailbox s)) (producer_stuck (ms_mailbox s)) g)"

lemma waits_for_next [simp]: "waits_for w P g \<Longrightarrow> waits_for (Suc w) Q g"
  by (simp add: waits_for_def)

lemma waits_for_now [simp]: "waits_for w P w = P"
  by (simp add: waits_for_def)

lemma waits_for_mono: "waits_for w P g \<Longrightarrow> (P \<Longrightarrow> Q) \<Longrightarrow> waits_for w Q g"
  by (auto simp: waits_for_def)

text \<open>What can happen to the mailbox, for those who wait: nothing, a new generation, or, for the
  flags that nobody waits for, no change of the generation.\<close>

definition renewed :: "ControlMailbox \<Rightarrow> ControlMailbox \<Rightarrow> bool" where
  "renewed m m' \<longleftrightarrow>
     mb_wake m' = mb_wake m + 1 \<or>
     mb_wake m' = mb_wake m \<and> (receiver_stuck m \<longrightarrow> receiver_stuck m') \<and>
       (producer_stuck m \<longrightarrow> producer_stuck m')"

lemma renewed_refl [simp]: "renewed m m"
  by (simp add: renewed_def)

lemma renewed_updates [simp]:
  "renewed m (m\<lparr>mb_fullWaiters := b\<rparr>)" "renewed m (m\<lparr>mb_readerReported := True\<rparr>)"
  by (simp_all add: renewed_def receiver_stuck_def producer_stuck_def)

lemma renewed_ops [simp]:
  "renewed m (SetReaderError e m)" "renewed m (mailbox_StopAccepting m)" "renewed m (mailbox_Close m)"
  by (simp_all add: renewed_def SetReaderError_def mailbox_StopAccepting_def mailbox_Close_def)

lemma renewed_Submit:
  assumes "Submit ended c m = (a, m')"
  shows "renewed m m'"
proof (cases "a = Submitted")
  case True
  then show ?thesis using assms Submit_submitted(6) by (simp add: renewed_def)
next
  case False
  then show ?thesis using Submit_not_submitted[OF assms] by auto
qed

lemma renewed_Receive: "Receive m = (a, m') \<Longrightarrow> renewed m m'"
proof (cases a)
  case (Received c)
  assume "Receive m = (a, m')"
  then show ?thesis using Received Receive_received(3) by (simp add: renewed_def)
next
  case (ReceiveFails e)
  assume "Receive m = (a, m')"
  then show ?thesis using ReceiveFails Receive_fails(2)[of m e m'] by auto
next
  case (ReceiveWaits g)
  assume "Receive m = (a, m')"
  then show ?thesis using ReceiveWaits Receive_waits(1)[of m g m'] by simp
qed

lemma waits_for_receiver: "waits_for (mb_wake m) (receiver_stuck m) g \<Longrightarrow> renewed m m' \<Longrightarrow>
    waits_for (mb_wake m') (receiver_stuck m') g"
  by (auto simp: renewed_def waits_for_def)

lemma waits_for_producer: "waits_for (mb_wake m) (producer_stuck m) g \<Longrightarrow> renewed m m' \<Longrightarrow>
    waits_for (mb_wake m') (producer_stuck m') g"
  by (auto simp: renewed_def waits_for_def)

lemma step_renewed: "mailbox_step s s' \<Longrightarrow> renewed (ms_mailbox s) (ms_mailbox s')"
  by (induction rule: mailbox_step.induct) (simp_all add: renewed_Submit renewed_Receive)

lemma placed_step: "mailbox_step s s' \<Longrightarrow> placed s \<Longrightarrow> placed s'"
proof (induction rule: mailbox_step.induct)
  case (submitted s i c ended m)
  note q = Submit_submitted(4)[OF submitted(2)]
  from submitted(3) show ?case by (auto simp: placed_def q)
next
  case (refused s i c ended e m)
  then show ?case using Submit_not_submitted[OF refused(2)] by (auto simp: placed_def)
next
  case (blocked s i c ended g m)
  then show ?case using Submit_not_submitted[OF blocked(2)] by (auto simp: placed_def)
next
  case (receive s a m)
  show ?case
  proof (cases a)
    case (Received c)
    with receive have "mb_queue (ms_mailbox s) = c # mb_queue m" using Receive_received(1) by blast
    with receive(1,3) Received show ?thesis by (auto simp: placed_def forward_def)
  next
    case (ReceiveFails e)
    with receive have "mb_queue (ms_mailbox s) = []" "mb_queue m = []"
      using Receive_fails[of "ms_mailbox s" e m] by auto
    with receive(1,3) ReceiveFails show ?thesis by (auto simp: placed_def forward_def)
  next
    case (ReceiveWaits g)
    with receive have "m = ms_mailbox s" using Receive_waits(1) by blast
    with receive(1,3) ReceiveWaits show ?thesis by (auto simp: placed_def forward_def)
  qed
next
  case (receive_cancelled s g e)
  then show ?case by (auto simp: placed_def forward_cancelled_def)
next
  case (hand_over s r)
  then show ?case by (cases r) (auto simp: placed_def)
next
  case (abandon s r)
  then show ?case by (cases r) (auto simp: placed_def)
qed (auto simp: placed_def SetReaderError_def mailbox_StopAccepting_def mailbox_Close_def)

lemma find_append: "find P (xs @ ys) = (case find P xs of Some x \<Rightarrow> Some x | None \<Rightarrow> find P ys)"
  by (induction xs) auto

lemma find_None_terminal: "find P xs = None \<Longrightarrow> x \<in> set xs \<Longrightarrow> \<not> P x"
  by (auto simp: find_None_iff)

lemma latched_step: "mailbox_step s s' \<Longrightarrow> placed s \<Longrightarrow> latched s \<Longrightarrow> latched s'"
proof (induction rule: mailbox_step.induct)
  case (submitted s i c ended m)
  then show ?case
    by (auto simp: latched_def TerminalCommand_def find_append Submit_submitted split: option.splits)
next
  case (refused s i c ended e m)
  then show ?case using Submit_not_submitted[OF refused(2)] by (auto simp: latched_def TerminalCommand_def)
next
  case (blocked s i c ended g m)
  then show ?case using Submit_not_submitted[OF blocked(2)] by (auto simp: latched_def TerminalCommand_def)
next
  case (receive s a m)
  show ?case
  proof (cases a)
    case (Received c)
    have "c \<in> set (ms_accepted s)"
      using receive Received by (auto simp: placed_def Receive_received(1))
    then have "find is_terminal (ms_accepted s) = None \<Longrightarrow> \<not> is_terminal c"
      using find_None_terminal by fast
    then show ?thesis
      using receive Received by (auto simp: latched_def TerminalCommand_def Receive_received)
  next
    case (ReceiveFails e)
    then show ?thesis using receive Receive_fails(2) by (fastforce simp: latched_def TerminalCommand_def)
  next
    case (ReceiveWaits g)
    with receive have "m = ms_mailbox s" using Receive_waits(1) by blast
    then show ?thesis using receive by (auto simp: latched_def TerminalCommand_def)
  qed
qed (auto simp: latched_def TerminalCommand_def SetReaderError_def mailbox_StopAccepting_def mailbox_Close_def)

lemma bounded_step: "mailbox_step s s' \<Longrightarrow> bounded s \<Longrightarrow> bounded s'"
proof (induction rule: mailbox_step.induct)
  case (submitted s i c ended m)
  note sub = Submit_submitted[OF submitted(2)]
  from submitted(3) sub(3) show ?case by (auto simp: bounded_def sub(4,5))
next
  case (refused s i c ended e m)
  then show ?case using Submit_not_submitted[OF refused(2)] by (auto simp: bounded_def)
next
  case (blocked s i c ended g m)
  then show ?case using Submit_not_submitted[OF blocked(2)] by (auto simp: bounded_def)
next
  case (receive s a m)
  show ?case
  proof (cases a)
    case (Received c)
    with receive have "mb_queue (ms_mailbox s) = c # mb_queue m" "mb_capacity m = mb_capacity (ms_mailbox s)"
      using Receive_received(1,2) by blast+
    with receive(3) show ?thesis by (auto simp: bounded_def)
  next
    case (ReceiveFails e)
    with receive(3) show ?thesis using Receive_fails[of "ms_mailbox s" e m] receive(2)
      by (auto simp: bounded_def)
  next
    case (ReceiveWaits g)
    with receive have "m = ms_mailbox s" using Receive_waits(1) by blast
    with receive(3) show ?thesis by (auto simp: bounded_def)
  qed
qed (auto simp: bounded_def SetReaderError_def mailbox_StopAccepting_def mailbox_Close_def)

lemma waiting_forwarder:
  "mailbox_step s s' \<Longrightarrow> ms_forwarder s' = Waiting g \<Longrightarrow>
     ms_forwarder s = Waiting g \<or> waits_for (mb_wake (ms_mailbox s')) (receiver_stuck (ms_mailbox s')) g"
proof (induction rule: mailbox_step.induct)
  case (receive s a m)
  then have "a = ReceiveWaits g" by (auto simp: forward_def split: receive_answer.splits)
  with receive have w: "Receive (ms_mailbox s) = (ReceiveWaits g, m)" by simp
  show ?case using Receive_waits[OF w] by (simp add: receiver_stuck_def)
next
  case (hand_over s r)
  then show ?case by (cases r) auto
qed (auto simp: forward_cancelled_def split: if_splits)

lemma waiting_producer:
  "mailbox_step s s' \<Longrightarrow> ms_producers s' i = Blocked c g \<Longrightarrow>
     ms_producers s i = Blocked c g \<or> waits_for (mb_wake (ms_mailbox s')) (producer_stuck (ms_mailbox s')) g"
proof (induction rule: mailbox_step.induct)
  case (blocked s j d ended h m)
  note w = Submit_waits[OF blocked(2)]
  from blocked(3) show ?case using w(1-4) by (auto simp: w(5) producer_stuck_def split: if_splits)
qed (auto split: if_splits)

lemma receiver_step: "mailbox_step s s' \<Longrightarrow> receiver_waits s \<Longrightarrow> receiver_waits s'"
  using waiting_forwarder step_renewed waits_for_receiver unfolding receiver_waits_def by blast

lemma producers_step: "mailbox_step s s' \<Longrightarrow> producers_wait s \<Longrightarrow> producers_wait s'"
  using waiting_producer step_renewed waits_for_producer unfolding producers_wait_def by blast

lemma start_invariants:
  "placed (mailbox_start n) \<and> latched (mailbox_start n) \<and> bounded (mailbox_start n) \<and>
   receiver_waits (mailbox_start n) \<and> producers_wait (mailbox_start n)"
  by (simp add: mailbox_start_def placed_def latched_def bounded_def receiver_waits_def
      producers_wait_def TerminalCommand_def)

lemma reachable_invariants:
  "mailbox_reachable n s \<Longrightarrow>
     placed s \<and> latched s \<and> bounded s \<and> receiver_waits s \<and> producers_wait s"
  by (induction rule: mailbox_reachable.induct)
     (use start_invariants placed_step latched_step bounded_step receiver_step producers_step in blast)+


section \<open>Properties\<close>

text \<open>C35: In every interleaving of producers, forwarder, supervisor and the methods that stop, close or
  fail the mailbox, the accepted commands are, in their order, those the supervisor has taken, those in
  the channel, the one the forwarder holds and those in the queue; only a forwarder that has finished
  can have left one out. The queue never exceeds its capacity. The latched command is the first
  terminal command that was accepted, so the first terminal command that the supervisor takes is the
  latched one.\<close>

theorem mailbox_fifo:
  assumes "mailbox_reachable n s"
  shows "(\<exists>lost. ms_accepted s =
              commands (ms_taken s @ ms_results s @ held (ms_forwarder s)) @ lost @ mb_queue (ms_mailbox s) \<and>
            (ms_forwarder s \<noteq> Finished \<longrightarrow> lost = [])) \<and>
         length (mb_queue (ms_mailbox s)) \<le> mb_capacity (ms_mailbox s) \<and>
         TerminalCommand (ms_mailbox s) = find is_terminal (ms_accepted s) \<and>
         (find is_terminal (commands (ms_taken s)) = None \<or>
          find is_terminal (commands (ms_taken s)) = TerminalCommand (ms_mailbox s))"
proof -
  note inv = reachable_invariants[OF assms]
  have placed: "\<exists>lost. ms_accepted s =
             commands (ms_taken s @ ms_results s @ held (ms_forwarder s)) @ lost @ mb_queue (ms_mailbox s) \<and>
           (ms_forwarder s \<noteq> Finished \<longrightarrow> lost = [])"
    using inv by (simp add: placed_def)
  have latch: "TerminalCommand (ms_mailbox s) = find is_terminal (ms_accepted s)"
    using inv by (simp add: latched_def)
  from placed have "find is_terminal (commands (ms_taken s)) = None \<or>
         find is_terminal (commands (ms_taken s)) = TerminalCommand (ms_mailbox s)"
    by (auto simp: latch find_append split: option.splits)
  moreover have "length (mb_queue (ms_mailbox s)) \<le> mb_capacity (ms_mailbox s)"
    using inv by (simp add: bounded_def)
  ultimately show ?thesis using placed latch by blast
qed

definition example_shutdown :: ControlCommand where
  "example_shutdown = \<lparr>cc_protocol = 1, cc_command = ControlShutdown, cc_commandId = ''a''\<rparr>"

definition example_mailbox :: mailbox_system where
  "example_mailbox = (mailbox_start 1)\<lparr>ms_mailbox :=
     signal ((NewControlMailbox 1)\<lparr>mb_queue := [example_shutdown], mb_terminal := Some example_shutdown,
       mb_stopped := True\<rparr>), ms_accepted := [example_shutdown]\<rparr>"

lemma example_mailbox_reachable: "mailbox_reachable 1 example_mailbox"
proof -
  let ?s = "(mailbox_start 1)\<lparr>ms_producers := (\<lambda>_. Idle)(0 := Submitting example_shutdown)\<rparr>"
  have "mailbox_reachable 1 ?s"
    using next_step[OF started enter[of "mailbox_start 1" 0 False example_shutdown]]
    by (simp add: mailbox_start_def mailbox_entry_def)
  moreover have "mailbox_step ?s example_mailbox"
  proof -
    have "Submit None example_shutdown (NewControlMailbox 1) =
        (Submitted, ms_mailbox example_mailbox)"
      by (simp add: Submit_def NewControlMailbox_def example_shutdown_def example_mailbox_def is_terminal_def
          signal_def Let_def mailbox_start_def)
    then have "mailbox_step ?s (?s\<lparr>ms_producers := (ms_producers ?s)(0 := Idle),
        ms_mailbox := ms_mailbox example_mailbox, ms_accepted := ms_accepted ?s @ [example_shutdown]\<rparr>)"
      by (intro submitted[where ended = None]) (simp_all add: mailbox_start_def)
    moreover have "(\<lambda>_ :: nat. Idle)(0 := Idle) = (\<lambda>_. Idle)" by auto
    ultimately show ?thesis
      by (simp add: example_mailbox_def mailbox_start_def)
  qed
  ultimately show ?thesis by (rule next_step)
qed

theorem mailbox_fifo_witness:
  "ms_accepted example_mailbox = [example_shutdown] \<and>
   TerminalCommand (ms_mailbox example_mailbox) = find is_terminal (ms_accepted example_mailbox)"
  using conjunct1[OF conjunct2[OF conjunct2[OF mailbox_fifo[OF example_mailbox_reachable]]]]
  by (simp add: example_mailbox_def)

text \<open>C36: Nobody waits in vain. A forwarder that waits in \<open>Receive\<close> and has not been woken has nothing to
  receive: the queue is empty, the mailbox accepts commands and every error of the reader has been
  reported. A producer that waits in \<open>Submit\<close> and has not been woken faces a full queue of a mailbox
  that still accepts.\<close>

theorem mailbox_no_lost_wakeup:
  assumes "mailbox_reachable n s"
  shows "(ms_forwarder s = Waiting g \<and> \<not> g < mb_wake (ms_mailbox s) \<longrightarrow>
            mb_queue (ms_mailbox s) = [] \<and> \<not> mb_stopped (ms_mailbox s) \<and> \<not> mb_closed (ms_mailbox s) \<and>
            (InfrastructureError (ms_mailbox s) = None \<or> mb_readerReported (ms_mailbox s))) \<and>
         (ms_producers s i = Blocked c h \<and> \<not> h < mb_wake (ms_mailbox s) \<longrightarrow>
            length (mb_queue (ms_mailbox s)) = mb_capacity (ms_mailbox s) \<and>
            \<not> mb_stopped (ms_mailbox s) \<and> \<not> mb_closed (ms_mailbox s))"
proof (intro conjI impI)
  note inv = reachable_invariants[OF assms]
  assume "ms_forwarder s = Waiting g \<and> \<not> g < mb_wake (ms_mailbox s)"
  then have stuck: "receiver_stuck (ms_mailbox s)" using inv by (simp add: receiver_waits_def waits_for_def)
  then show "mb_queue (ms_mailbox s) = []" "\<not> mb_stopped (ms_mailbox s)"
    "InfrastructureError (ms_mailbox s) = None \<or> mb_readerReported (ms_mailbox s)"
    by (simp_all add: receiver_stuck_def InfrastructureError_def)
  show "\<not> mb_closed (ms_mailbox s)" using inv stuck by (auto simp: receiver_stuck_def latched_def)
next
  note inv = reachable_invariants[OF assms]
  assume "ms_producers s i = Blocked c h \<and> \<not> h < mb_wake (ms_mailbox s)"
  then have stuck: "producer_stuck (ms_mailbox s)" using inv
    unfolding producers_wait_def waits_for_def by (meson le_neq_implies_less)
  then show "\<not> mb_stopped (ms_mailbox s)" "\<not> mb_closed (ms_mailbox s)" by (simp_all add: producer_stuck_def)
  show "length (mb_queue (ms_mailbox s)) = mb_capacity (ms_mailbox s)"
    using inv stuck by (simp add: producer_stuck_def bounded_def)
qed

lemma waiting_forwarder_reachable:
  "mailbox_reachable 1 ((mailbox_start 1)\<lparr>ms_forwarder := Waiting 0\<rparr>)"
  using next_step[OF started receive[of "mailbox_start 1" "ReceiveWaits 0" "NewControlMailbox 1"]]
  by (simp add: mailbox_start_def Receive_def NewControlMailbox_def forward_def)

theorem mailbox_no_lost_wakeup_witness:
  "mb_queue (ms_mailbox ((mailbox_start 1)\<lparr>ms_forwarder := Waiting 0\<rparr>)) = []"
  using conjunct1[OF mailbox_no_lost_wakeup[OF waiting_forwarder_reachable, of 0]]
  by (simp add: mailbox_start_def)

end
