(* ===== verification/Backend_World.thy ===== *)
theory Backend_World
  imports Backend_Monad Control_Mailbox Process_Stream Lifecycle
begin

text \<open>
  What the supervisor of \<open>internal/backend\<close> works on: its request and layout, the operations of its
  dependencies (\<open>types.go\<close>) over a world of any type, the state it keeps itself (\<open>controlState\<close>), and
  the trace of what it has done, the newest action first. An operation of the world that another
  goroutine may influence takes and returns the world, so its answers are arbitrary; the branch that
  a \<open>select\<close> takes is such an answer too. The contexts that are passed along and the text of messages
  are left out; a state message is a constructor instead of its text.
\<close>

section \<open>Requests and layout\<close>

type_synonym Mode = string

abbreviation "ModeManaged \<equiv> ''managed''"
abbreviation "ModeDevelopment \<equiv> ''development''"

record backend_request =
  rq_operationID :: string
  rq_runtimePID :: nat
  rq_mode :: Mode
  rq_developmentRepo :: string
  rq_shutdownTimeout :: int
  rq_port :: int

record backend_layout =
  ly_repoDir :: string
  ly_appRoot :: string
  ly_entryFile :: string
  ly_venvDir :: string

definition modeForRequest :: "backend_request \<Rightarrow> Mode" where
  "modeForRequest r = (if rq_mode r = '''' then ModeManaged else rq_mode r)"

section \<open>Values of the dependencies\<close>

record BackendTransaction =
  bt_PID :: nat
  bt_StartedAt :: "int option"
  bt_Handle :: "nat option"

record TransactionRequest =
  tr_operationID :: string
  tr_pid :: nat
  tr_version :: string
  tr_stage :: Stage

record RepositoryResult =
  rr_healthy :: bool
  rr_version :: string
  rr_commit :: string
  rr_reason :: string

text \<open>The options of a check or a start of uv; the identity is a version and a commit.\<close>

record ManagedOptions =
  mo_stage :: Stage
  mo_workingDir :: string
  mo_projectDir :: string
  mo_projectEnvDir :: string
  mo_entry :: string
  mo_identity :: "Revision option"
  mo_port :: int

record Expectation =
  ex_mode :: Mode
  ex_protocol :: int
  ex_version :: string
  ex_commit :: string
  ex_port :: int

datatype state_message =
    MsgStarting | MsgReady | MsgRestarting | MsgStopping | MsgStopped | MsgFailed | MsgStartFailed
  | MsgSnapshot

text \<open>The branches of the \<open>select\<close> statements: of the main loop, of the preflight, of the health check,
  of the delay before a restart, of a drain, and of a cancellation before and after the processes
  are cleaned up.\<close>

datatype main_event = GateFaulted | MainCtxDone | ProcessExited | MainResult controlResult
datatype preflight_event = PreflightDone | PreflightCtxDone | PreflightResult controlResult
datatype health_event = HealthDone | HealthCtxDone | HealthFaulted | HealthResult controlResult
datatype restart_event = RestartCtxDone | TimerFired | RestartResult controlResult
datatype drain_event = DrainExpired | DrainResult controlResult
datatype cancel_event = CleanupFinished | CancelResult controlResult
datatype closing_event = ControlDeadline | ClosingResult controlResult

section \<open>The dependencies\<close>

record 'w deps =
  CtxErr :: "'w \<Rightarrow> go_error option \<times> 'w"
  InfraErr :: "'w \<Rightarrow> go_error option \<times> 'w"
  LatchedCommand :: "'w \<Rightarrow> ControlCommand option \<times> 'w"
  SetControlStage :: "Stage \<Rightarrow> 'w \<Rightarrow> unit \<times> 'w"
  BeforeControlClose :: "('w \<Rightarrow> unit \<times> 'w) option"
  StopAcceptingCommands :: "('w \<Rightarrow> unit \<times> 'w) option"
  BeforeShutdown :: "(string \<Rightarrow> 'w \<Rightarrow> unit \<times> 'w) option"
  EmitStateEvent :: "Stage \<Rightarrow> StateStatus \<Rightarrow> backend_details \<Rightarrow> 'w \<Rightarrow> go_error option \<times> 'w"
  EmitWarningEvent :: "Code \<Rightarrow> backend_details \<Rightarrow> 'w \<Rightarrow> go_error option \<times> 'w"
  NewGate :: "Stage \<Rightarrow> 'w \<Rightarrow> nat \<times> 'w"
  GateFault :: "nat \<Rightarrow> 'w \<Rightarrow> go_error option \<times> 'w"
  GateOpen :: "nat \<Rightarrow> 'w \<Rightarrow> go_error option \<times> 'w"
  GateStage :: "nat \<Rightarrow> Stage \<Rightarrow> 'w \<Rightarrow> unit \<times> 'w"
  AcquireLock :: "'w \<Rightarrow> (nat option \<times> go_error option) \<times> 'w"
  CloseLease :: "nat \<Rightarrow> 'w \<Rightarrow> go_error option \<times> 'w"
  CloseLockSet :: "'w \<Rightarrow> go_error option \<times> 'w"
  ReadEnvironment :: "'w \<Rightarrow> (go_error + EnvironmentState) \<times> 'w"
  ReadBackendTransaction :: "'w \<Rightarrow> (go_error + BackendTransaction) \<times> 'w"
  BeginTransaction :: "TransactionRequest \<Rightarrow> 'w \<Rightarrow> (nat option \<times> go_error option) \<times> 'w"
  UpdateTransaction :: "nat \<Rightarrow> Stage \<Rightarrow> 'w \<Rightarrow> go_error option \<times> 'w"
  RemoveTransactionOp :: "nat \<Rightarrow> 'w \<Rightarrow> go_error option \<times> 'w"
  CloseState :: "'w \<Rightarrow> go_error option \<times> 'w"
  CheckRepository :: "'w \<Rightarrow> (RepositoryResult \<times> go_error option) \<times> 'w"
  CheckEntryFile :: "string \<Rightarrow> 'w \<Rightarrow> go_error option \<times> 'w"
  CheckUV :: "ManagedOptions \<Rightarrow> 'w \<Rightarrow> go_error option \<times> 'w"
  StartManaged :: "ManagedOptions \<Rightarrow> 'w \<Rightarrow> (nat option \<times> go_error option) \<times> 'w"
  CheckHealth :: "Expectation \<Rightarrow> 'w \<Rightarrow> go_error option \<times> 'w"
  OpenLogger :: "'w \<Rightarrow> (nat option \<times> go_error option) \<times> 'w"
  LogPath :: "nat \<Rightarrow> string"
  CloseLogger :: "nat \<Rightarrow> 'w \<Rightarrow> go_error option \<times> 'w"
  AttachRelay :: "nat option \<Rightarrow> 'w \<Rightarrow> unit \<times> 'w"
  PIDAliveProbe :: "(nat \<Rightarrow> 'w \<Rightarrow> (bool \<times> go_error option) \<times> 'w) option"
  PIDCreatedAt :: "nat \<Rightarrow> 'w \<Rightarrow> (int \<times> go_error option) \<times> 'w"
  CloseHTTP :: "'w \<Rightarrow> go_error option \<times> 'w"
  ShutdownTimeoutDep :: int
  RestartDelay :: int
  RestartTimer :: "int \<Rightarrow> 'w \<Rightarrow> bool \<times> 'w"
  ProcessPID :: "nat \<Rightarrow> nat"
  HasExited :: "nat \<Rightarrow> 'w \<Rightarrow> bool \<times> 'w"
  WaitExit :: "nat \<Rightarrow> 'w \<Rightarrow> bool \<times> 'w"
  WaitProcess :: "nat \<Rightarrow> 'w \<Rightarrow> (int \<times> go_error option) \<times> 'w"
  SnapshotProcess :: "nat \<Rightarrow> 'w \<Rightarrow> (ProcessInfo list \<times> go_error option) \<times> 'w"
  TerminateProcess :: "nat \<Rightarrow> 'w \<Rightarrow> go_error option \<times> 'w"
  WaitEmpty :: "nat \<Rightarrow> 'w \<Rightarrow> go_error option \<times> 'w"
  CloseProcess :: "nat \<Rightarrow> 'w \<Rightarrow> go_error option \<times> 'w"
  CleanupExpired :: "'w \<Rightarrow> bool \<times> 'w"
  AbsolutePath :: "string \<Rightarrow> 'w \<Rightarrow> (go_error + string) \<times> 'w"
  CleanPath :: "string \<Rightarrow> string"
  InspectPath :: "string \<Rightarrow> bool \<Rightarrow> 'w \<Rightarrow> (go_error + bool) \<times> 'w"
  PathContains :: "string \<Rightarrow> string \<Rightarrow> 'w \<Rightarrow> (go_error + bool) \<times> 'w"
  StartRelay :: "'w \<Rightarrow> go_error option \<times> 'w"
  CloseRelay :: "'w \<Rightarrow> go_error option \<times> 'w"
  JoinPath :: "string list \<Rightarrow> string"
  NextMain :: "'w \<Rightarrow> main_event \<times> 'w"
  NextPreflight :: "'w \<Rightarrow> preflight_event \<times> 'w"
  NextHealth :: "'w \<Rightarrow> health_event \<times> 'w"
  NextRestart :: "'w \<Rightarrow> restart_event \<times> 'w"
  NextDrain :: "'w \<Rightarrow> drain_event \<times> 'w"
  NextCancel :: "'w \<Rightarrow> cancel_event \<times> 'w"
  NextClosing :: "'w \<Rightarrow> closing_event \<times> 'w"

section \<open>Actions and state\<close>

datatype action =
    Emitted Stage StateStatus state_message backend_details
  | Warned Code
  | StoppedAccepting
  | AcquiredLease nat
  | ClosedLease nat
  | ClosedLockSet
  | ClosedState
  | ReadEnv EnvironmentState
  | CheckedRepository RepositoryResult
  | BeganTransaction nat
  | RemovedTransaction nat
  | RemovedStale nat
  | OpenedLogger nat
  | ClosedLogger nat
  | StartedProcess nat ManagedOptions
  | TerminatedProcess nat
  | EmptiedProcess nat
  | ClosedProcess nat
  | AskedToClose

record 'w supervision =
  world :: 'w
  trace :: "action list"
  cs_stage :: Stage
  cs_status :: StateStatus
  cs_details :: backend_details
  cs_controlClosed :: bool
  cs_closeOnce :: bool
  cs_closeErr :: "go_error option"
  rs_once :: bool
  rs_err :: "go_error option"
  rs_lease :: "nat option"

definition call :: "('w \<Rightarrow> 'a \<times> 'w) \<Rightarrow> 'w supervision \<Rightarrow> 'a option \<times> 'w supervision" where
  "call op s = (let (a, w) = op (world s) in (Some a, s\<lparr>world := w\<rparr>))"

definition act :: "action \<Rightarrow> 'w supervision \<Rightarrow> unit option \<times> 'w supervision" where
  "act a s = (Some (), s\<lparr>trace := a # trace s\<rparr>)"

lemma wp_call [wp]: "(\<And>a w. op (world s) = (a, w) \<Longrightarrow> Q a (s\<lparr>world := w\<rparr>)) \<Longrightarrow> wp (call op) Q W s"
  by (auto simp: wp_def call_def split: prod.splits)

lemma wp_act [wp]: "Q () (s\<lparr>trace := a # trace s\<rparr>) \<Longrightarrow> wp (act a) Q W s"
  by (simp add: wp_def act_def)

text \<open>Rules for the branches of a \<open>select\<close>.\<close>

lemma wp_case_main:
  "(ev = GateFaulted \<Longrightarrow> wp m0 Q W s) \<Longrightarrow>
     (ev = MainCtxDone \<Longrightarrow> wp m1 Q W s) \<Longrightarrow>
     (ev = ProcessExited \<Longrightarrow> wp m2 Q W s) \<Longrightarrow>
     (\<And>r. ev = MainResult r \<Longrightarrow> wp (f0 r) Q W s) \<Longrightarrow>
     wp (case ev of GateFaulted \<Rightarrow> m0 | MainCtxDone \<Rightarrow> m1 | ProcessExited \<Rightarrow> m2 | MainResult r \<Rightarrow> f0 r) Q W s"
  by (cases ev) auto

lemma wp_case_preflight:
  "(ev = PreflightDone \<Longrightarrow> wp m0 Q W s) \<Longrightarrow>
     (ev = PreflightCtxDone \<Longrightarrow> wp m1 Q W s) \<Longrightarrow>
     (\<And>r. ev = PreflightResult r \<Longrightarrow> wp (f0 r) Q W s) \<Longrightarrow>
     wp (case ev of PreflightDone \<Rightarrow> m0 | PreflightCtxDone \<Rightarrow> m1 | PreflightResult r \<Rightarrow> f0 r) Q W s"
  by (cases ev) auto

lemma wp_case_health:
  "(ev = HealthDone \<Longrightarrow> wp m0 Q W s) \<Longrightarrow>
     (ev = HealthCtxDone \<Longrightarrow> wp m1 Q W s) \<Longrightarrow>
     (ev = HealthFaulted \<Longrightarrow> wp m2 Q W s) \<Longrightarrow>
     (\<And>r. ev = HealthResult r \<Longrightarrow> wp (f0 r) Q W s) \<Longrightarrow>
     wp (case ev of HealthDone \<Rightarrow> m0 | HealthCtxDone \<Rightarrow> m1 | HealthFaulted \<Rightarrow> m2 | HealthResult r \<Rightarrow> f0 r) Q W s"
  by (cases ev) auto

lemma wp_case_restart:
  "(ev = RestartCtxDone \<Longrightarrow> wp m0 Q W s) \<Longrightarrow>
     (ev = TimerFired \<Longrightarrow> wp m1 Q W s) \<Longrightarrow>
     (\<And>r. ev = RestartResult r \<Longrightarrow> wp (f0 r) Q W s) \<Longrightarrow>
     wp (case ev of RestartCtxDone \<Rightarrow> m0 | TimerFired \<Rightarrow> m1 | RestartResult r \<Rightarrow> f0 r) Q W s"
  by (cases ev) auto

lemma wp_case_drain:
  "(ev = DrainExpired \<Longrightarrow> wp m0 Q W s) \<Longrightarrow>
     (\<And>r. ev = DrainResult r \<Longrightarrow> wp (f0 r) Q W s) \<Longrightarrow>
     wp (case ev of DrainExpired \<Rightarrow> m0 | DrainResult r \<Rightarrow> f0 r) Q W s"
  by (cases ev) auto

lemma wp_case_cancel:
  "(ev = CleanupFinished \<Longrightarrow> wp m0 Q W s) \<Longrightarrow>
     (\<And>r. ev = CancelResult r \<Longrightarrow> wp (f0 r) Q W s) \<Longrightarrow>
     wp (case ev of CleanupFinished \<Rightarrow> m0 | CancelResult r \<Rightarrow> f0 r) Q W s"
  by (cases ev) auto

lemma wp_case_closing:
  "(ev = ControlDeadline \<Longrightarrow> wp m0 Q W s) \<Longrightarrow>
     (\<And>r. ev = ClosingResult r \<Longrightarrow> wp (f0 r) Q W s) \<Longrightarrow>
     wp (case ev of ControlDeadline \<Rightarrow> m0 | ClosingResult r \<Rightarrow> f0 r) Q W s"
  by (cases ev) auto

lemma wp_case_result:
  "(\<And>r. ev = ResultCommand r \<Longrightarrow> wp (f0 r) Q W s) \<Longrightarrow>
     (\<And>r. ev = ResultError r \<Longrightarrow> wp (f1 r) Q W s) \<Longrightarrow>
     wp (case ev of ResultCommand r \<Rightarrow> f0 r | ResultError r \<Rightarrow> f1 r) Q W s"
  by (cases ev) auto

lemmas wp_branches = wp_case_main wp_case_preflight wp_case_health wp_case_restart wp_case_drain
  wp_case_cancel wp_case_closing wp_case_result

text \<open>\<open>emitState\<close>.\<close>

definition emitState ::
  "'w deps \<Rightarrow> Stage \<Rightarrow> StateStatus \<Rightarrow> state_message \<Rightarrow> backend_details \<Rightarrow> 'w supervision \<Rightarrow>
     go_error option option \<times> 'w supervision" where
  "emitState ops stage status message details =
     seq (act (Emitted stage status message details)) (\<lambda>_.
     seq (call (EmitStateEvent ops stage status details)) (\<lambda>err.
     ret (case err of None \<Rightarrow> None
          | Some e \<Rightarrow> Some (newBackendError CodeOutputWriteFailed stage Map.empty (Some e)))))"


section \<open>What a trace amounts to\<close>

text \<open>A summary of the actions: the processes, transactions, loggers and leases that are open, the
  announcements (the answers to status commands apart), the number of starts, the last environment
  and repository that were read, and whether every start so far was of a revision that both of them
  confirm. The last three fields are the status in the snapshot, whether the resources are closed and
  the lease that is to be closed with them.\<close>

record observation =
  o_live :: "nat list"
  o_txs :: "nat list"
  o_logs :: "nat list"
  o_leases :: "nat list"
  o_announced :: "StateStatus list"
  o_starts :: nat
  o_env :: "EnvironmentState option"
  o_repo :: "RepositoryResult option"
  o_verified :: bool
  o_stateClosed :: nat
  o_lockClosed :: nat
  o_status :: StateStatus
  o_resources :: bool
  o_lease :: "nat option"

text \<open>A managed start is of the revision that the environment read last gives as its last success,
  with the environment ready and the repository read last healthy at that revision.\<close>

definition start_verified :: "observation \<Rightarrow> ManagedOptions \<Rightarrow> bool" where
  "start_verified ob m =
     (case mo_identity m of
        None \<Rightarrow> True
      | Some r \<Rightarrow>
          (case (o_env ob, o_repo ob) of
             (Some env, Some repo) \<Rightarrow>
               env_status env = StateReadyToStart \<and> env_lastSuccessful env = r \<and>
               rr_healthy repo \<and> rr_version repo = rev_version r \<and> rr_commit repo = rev_commit r
           | _ \<Rightarrow> False))"

fun observe :: "action \<Rightarrow> observation \<Rightarrow> observation" where
  "observe (Emitted stage status message details) ob =
     (if message = MsgSnapshot then ob else ob\<lparr>o_announced := status # o_announced ob\<rparr>)"
| "observe (Warned code) ob = ob"
| "observe StoppedAccepting ob = ob"
| "observe (AcquiredLease l) ob = ob\<lparr>o_leases := l # o_leases ob\<rparr>"
| "observe (ClosedLease l) ob = ob\<lparr>o_leases := remove1 l (o_leases ob)\<rparr>"
| "observe ClosedLockSet ob = ob\<lparr>o_lockClosed := o_lockClosed ob + 1\<rparr>"
| "observe ClosedState ob = ob\<lparr>o_stateClosed := o_stateClosed ob + 1\<rparr>"
| "observe (ReadEnv env) ob = ob\<lparr>o_env := Some env\<rparr>"
| "observe (CheckedRepository r) ob = ob\<lparr>o_repo := Some r\<rparr>"
| "observe (BeganTransaction t) ob = ob\<lparr>o_txs := t # o_txs ob\<rparr>"
| "observe (RemovedTransaction t) ob = ob\<lparr>o_txs := remove1 t (o_txs ob)\<rparr>"
| "observe (RemovedStale t) ob = ob"
| "observe (OpenedLogger l) ob = ob\<lparr>o_logs := l # o_logs ob\<rparr>"
| "observe (ClosedLogger l) ob = ob\<lparr>o_logs := remove1 l (o_logs ob)\<rparr>"
| "observe (StartedProcess p m) ob =
     ob\<lparr>o_live := p # o_live ob, o_starts := o_starts ob + 1,
        o_verified := (o_verified ob \<and> start_verified ob m)\<rparr>"
| "observe (TerminatedProcess p) ob = ob"
| "observe (EmptiedProcess p) ob = ob"
| "observe (ClosedProcess p) ob = ob\<lparr>o_live := remove1 p (o_live ob)\<rparr>"
| "observe AskedToClose ob = ob"

lemma start_verified_fields [simp]:
  "start_verified (ob\<lparr>o_status := x\<rparr>) m = start_verified ob m"
  "start_verified (ob\<lparr>o_resources := y\<rparr>) m = start_verified ob m"
  "start_verified (ob\<lparr>o_lease := l\<rparr>) m = start_verified ob m"
  "start_verified (ob\<lparr>o_announced := z\<rparr>) m = start_verified ob m"
  "start_verified (ob\<lparr>o_txs := ts\<rparr>) m = start_verified ob m"
  "start_verified (ob\<lparr>o_logs := ls\<rparr>) m = start_verified ob m"
  "start_verified (ob\<lparr>o_live := ps\<rparr>) m = start_verified ob m"
  by (simp_all add: start_verified_def split: option.splits)

definition obs_start :: observation where
  "obs_start = \<lparr>o_live = [], o_txs = [], o_logs = [], o_leases = [], o_announced = [], o_starts = 0,
     o_env = None, o_repo = None, o_verified = True, o_stateClosed = 0, o_lockClosed = 0,
     o_status = '''', o_resources = False, o_lease = None\<rparr>"

definition obs :: "'w supervision \<Rightarrow> observation" where
  "obs s = (foldr observe (trace s) obs_start)\<lparr>o_status := cs_status s, o_resources := rs_once s, o_lease := rs_lease s\<rparr>"

lemma observe_status:
  "observe a (ob\<lparr>o_status := x, o_resources := y, o_lease := z\<rparr>) =
     (observe a ob)\<lparr>o_status := x, o_resources := y, o_lease := z\<rparr>"
  by (cases a) simp_all

lemma obs_world [simp]: "obs (s\<lparr>world := w\<rparr>) = obs s"
  by (simp add: obs_def)

lemma obs_trace [simp]: "obs (s\<lparr>trace := a # trace s\<rparr>) = observe a (obs s)"
  by (simp add: obs_def observe_status)

lemma obs_fields [simp]:
  "obs (s\<lparr>cs_stage := st\<rparr>) = obs s" "obs (s\<lparr>cs_details := d\<rparr>) = obs s"
  "obs (s\<lparr>cs_status := x\<rparr>) = (obs s)\<lparr>o_status := x\<rparr>" "obs (s\<lparr>rs_once := b\<rparr>) = (obs s)\<lparr>o_resources := b\<rparr>"
  "obs (s\<lparr>cs_controlClosed := b\<rparr>) = obs s" "obs (s\<lparr>cs_closeOnce := b\<rparr>) = obs s"
  "obs (s\<lparr>cs_closeErr := e\<rparr>) = obs s" "obs (s\<lparr>rs_err := e\<rparr>) = obs s"
  by (simp_all add: obs_def)

lemma obs_cs [simp]: "cs_status s = o_status (obs s)" "rs_once s = o_resources (obs s)"
  "rs_lease s = o_lease (obs s)"
  by (simp_all add: obs_def)

text \<open>A rule for operations whose answer does not matter to the conclusion.\<close>

lemma wp_call_obs:
  "(\<And>a s'. obs s' = obs s \<Longrightarrow> Q a s') \<Longrightarrow> wp (call op) Q W s"
  by (rule wp_call) simp

lemma wp_act_obs:
  "(\<And>s'. obs s' = observe a (obs s) \<Longrightarrow> Q () s') \<Longrightarrow> wp (act a) Q W s"
  by (rule wp_act) simp

lemma wp_emitState:
  "(\<And>e s'. obs s' = observe (Emitted stage status message details) (obs s) \<Longrightarrow> Q e s') \<Longrightarrow>
     wp (emitState ops stage status message details) Q W s"
  unfolding emitState_def by (intro wp_seq wp_act wp_call wp_ret) simp

end
