(* ===== verification/Backend_Process.thy ===== *)
theory Backend_Process
  imports Backend_World
begin

text \<open>
  The process tree of a supervised backend, from \<open>internal/backend/supervisor.go\<close>: the details of a
  failure, \<open>cleanupProcess\<close> that terminates what is left, waits for an empty job and releases the
  process, its transaction and its logger, and the probe that recognises the backend by its
  executables and ancestry. The lemmas show what a cleanup has done in every case, what its success
  means, and that the walk up the ancestors ends and decides ancestry.
\<close>

section \<open>Details of a failure\<close>

text \<open>\<open>failureDetails\<close>; an empty path and the process number 0 are left out.\<close>

definition failureDetails :: "'w deps \<Rightarrow> nat option \<Rightarrow> nat option \<Rightarrow> backend_details \<Rightarrow> backend_details" where
  "failureDetails ops logger proc extra =
     (let d1 = (case logger of
                  Some l \<Rightarrow> if LogPath ops l = '''' then extra else extra(''logPath'' \<mapsto> JString (LogPath ops l))
                | None \<Rightarrow> extra) in
      case proc of
        Some p \<Rightarrow> if ProcessPID ops p = 0 then d1 else d1(''pid'' \<mapsto> JNumber (decimal (ProcessPID ops p)))
      | None \<Rightarrow> d1)"

definition withFailureDetailsExtra ::
  "'w deps \<Rightarrow> go_error option \<Rightarrow> nat option \<Rightarrow> nat option \<Rightarrow> backend_details \<Rightarrow> go_error option" where
  "withFailureDetailsExtra ops err logger proc extra =
     (case err of
        None \<Rightarrow> None
      | Some e \<Rightarrow>
          (case errors_as typed e of
             None \<Rightarrow> Some e
           | Some (c, s, d, b) \<Rightarrow>
               Some (GoError (BackendError c s (d ++ failureDetails ops logger proc extra) b) [e])))"

definition withFailureDetails :: "'w deps \<Rightarrow> go_error option \<Rightarrow> nat option \<Rightarrow> nat option \<Rightarrow> go_error option" where
  "withFailureDetails ops err logger proc = withFailureDetailsExtra ops err logger proc Map.empty"

section \<open>Cleaning up\<close>

record processCleanup =
  pc_details :: backend_details
  pc_err :: "go_error option"
  pc_forced :: bool
  pc_rootForced :: bool
  pc_orphans :: "ProcessInfo list"
  pc_orphansUnknown :: bool

definition hasSurvivingDescendant :: "ProcessInfo list \<Rightarrow> nat \<Rightarrow> bool" where
  "hasSurvivingDescendant members root \<longleftrightarrow> list_ex (\<lambda>m. pi_PID m \<noteq> root) members"

fun orphans_loop :: "nat \<Rightarrow> ProcessInfo list \<Rightarrow> ProcessInfo list \<Rightarrow> ProcessInfo list" where
  "orphans_loop root [] known = known"
| "orphans_loop root (m # ms) known =
     orphans_loop root ms
       (if pi_PID m = root \<or> list_ex (\<lambda>k. pi_PID k = pi_PID m) known then known else known @ [m])"

definition recordOrphans :: "ProcessInfo list \<Rightarrow> go_error option \<Rightarrow> nat \<Rightarrow> processCleanup \<Rightarrow> processCleanup" where
  "recordOrphans members snapshotErr root c =
     (if snapshotErr \<noteq> None then c\<lparr>pc_orphansUnknown := True\<rparr>
      else c\<lparr>pc_orphans := orphans_loop root members (pc_orphans c)\<rparr>)"

definition exit_code_json :: "int \<Rightarrow> json" where
  "exit_code_json i = JNumber (decimal_int i)"

definition terminate :: "'w deps \<Rightarrow> nat \<Rightarrow> 'w supervision \<Rightarrow> go_error option option \<times> 'w supervision" where
  "terminate ops p = seq (act (TerminatedProcess p)) (\<lambda>_. call (TerminateProcess ops p))"

definition wait_empty :: "'w deps \<Rightarrow> nat \<Rightarrow> 'w supervision \<Rightarrow> go_error option option \<times> 'w supervision" where
  "wait_empty ops p =
     seq (call (WaitEmpty ops p)) (\<lambda>err.
     seq (if err = None then act (EmptiedProcess p) else ret ()) (\<lambda>_. ret err))"

definition with_exit_code :: "int \<Rightarrow> go_error option \<Rightarrow> backend_details \<Rightarrow> backend_details" where
  "with_exit_code code err details =
     (if (case err of None \<Rightarrow> True | Some e \<Rightarrow> \<not> errors_Is DeadlineExceeded e)
      then details(''exitCode'' \<mapsto> exit_code_json code) else details)"

text \<open>The root process first: a root that has exited leaves at most descendants, which are terminated
  when there are any or nobody knows; a root that is alive is terminated. Then the job and the
  process are waited for.\<close>

definition cleanup_root ::
  "'w deps \<Rightarrow> nat \<Rightarrow> processCleanup \<Rightarrow> 'w supervision \<Rightarrow>
     (processCleanup \<times> go_error option \<times> go_error option \<times> go_error option) option \<times> 'w supervision" where
  "cleanup_root ops p outcome =
     seq (call (HasExited ops p)) (\<lambda>exited.
     seq (if exited then
            seq (call (SnapshotProcess ops p)) (\<lambda>(members, snapshotErr).
            if snapshotErr \<noteq> None \<or> hasSurvivingDescendant members (ProcessPID ops p) then
              seq (terminate ops p) (\<lambda>err.
              ret (recordOrphans members snapshotErr (ProcessPID ops p) (outcome\<lparr>pc_forced := True\<rparr>),
                   Join [None, mapCleanupProcessError ''terminate'' err], snapshotErr))
            else ret (outcome, None, snapshotErr))
          else
            seq (terminate ops p) (\<lambda>err.
            ret (outcome\<lparr>pc_rootForced := True\<rparr>, Join [None, mapCleanupProcessError ''terminate'' err], None)))
       (\<lambda>(outcome, processErr, snapshotErr).
     seq (wait_empty ops p) (\<lambda>waitEmptyErr.
     seq (call (WaitProcess ops p)) (\<lambda>(code, waitErr).
     seq (call (CleanupExpired ops)) (\<lambda>expired.
     ret (outcome\<lparr>pc_details := with_exit_code code waitErr (pc_details outcome)\<rparr>,
          Join [processErr, mapCleanupProcessError ''wait'' (without_cancellation waitErr expired)],
          snapshotErr, waitEmptyErr))))))"

text \<open>When the job was not seen empty it is terminated and waited for once more.\<close>

definition cleanup_force ::
  "'w deps \<Rightarrow> nat \<Rightarrow> processCleanup \<Rightarrow> go_error option \<Rightarrow> go_error option \<Rightarrow> 'w supervision \<Rightarrow>
     (processCleanup \<times> go_error option) option \<times> 'w supervision" where
  "cleanup_force ops p outcome processErr waitEmptyErr =
     (if waitEmptyErr = None
      then ret (outcome, Join [processErr, mapCleanupProcessError ''wait_empty'' waitEmptyErr])
      else
        seq (if \<not> pc_rootForced outcome then
               seq (call (SnapshotProcess ops p)) (\<lambda>(members, err).
               ret (recordOrphans members err (ProcessPID ops p) outcome))
             else ret outcome) (\<lambda>outcome.
        seq (terminate ops p) (\<lambda>terminateErr.
        seq (wait_empty ops p) (\<lambda>forceEmptyErr.
        seq (call (WaitProcess ops p)) (\<lambda>(code, waitErr).
        seq (call (CleanupExpired ops)) (\<lambda>expired.
        let kept = without_cancellation processErr False;
            first = (if forceEmptyErr \<noteq> None then Join [kept, mapCleanupProcessError ''wait_empty'' waitEmptyErr]
                     else kept);
            second = Join [first, mapCleanupProcessError ''terminate'' terminateErr];
            third = Join [second, mapCleanupProcessError ''wait'' (without_cancellation waitErr expired)]
        in ret (outcome\<lparr>pc_details := with_exit_code code waitErr (pc_details outcome),
                        pc_forced := (forceEmptyErr = None)\<rparr>,
                Join [third, mapCleanupProcessError ''wait_empty'' forceEmptyErr])))))))"

definition remove_transaction :: "'w deps \<Rightarrow> nat \<Rightarrow> 'w supervision \<Rightarrow> go_error option option \<times> 'w supervision" where
  "remove_transaction ops tx = seq (act (RemovedTransaction tx)) (\<lambda>_. call (RemoveTransactionOp ops tx))"

definition close_logger :: "'w deps \<Rightarrow> nat \<Rightarrow> 'w supervision \<Rightarrow> go_error option option \<times> 'w supervision" where
  "close_logger ops l = seq (act (ClosedLogger l)) (\<lambda>_. call (CloseLogger ops l))"

definition release_process ::
  "'w deps \<Rightarrow> nat \<Rightarrow> nat option \<Rightarrow> nat option \<Rightarrow> go_error option \<Rightarrow> go_error option \<Rightarrow> 'w supervision \<Rightarrow>
     go_error option option \<times> 'w supervision" where
  "release_process ops p tx logger processErr snapshotErr =
     seq (act (ClosedProcess p)) (\<lambda>_.
     seq (call (CloseProcess ops p)) (\<lambda>closeErr.
     let closed = Join [processErr, mapCleanupProcessError ''close'' closeErr];
         processErr' = (if snapshotErr \<noteq> None \<and> closed \<noteq> None
                        then Join [closed, mapCleanupProcessError ''snapshot'' snapshotErr] else closed)
     in
     seq (case tx of
            None \<Rightarrow> ret processErr'
          | Some t \<Rightarrow>
              seq (remove_transaction ops t) (\<lambda>err.
              ret (if err = None then processErr' else Join [processErr', mapStateCleanupError err]))) (\<lambda>resultErr.
     case logger of
       None \<Rightarrow> ret resultErr
     | Some l \<Rightarrow>
         seq (call (AttachRelay ops None)) (\<lambda>_.
         seq (close_logger ops l) (\<lambda>err.
         ret (if err = None then resultErr else Join [resultErr, mapLoggerCleanupError err]))))))"

definition cleanupProcess ::
  "'w deps \<Rightarrow> nat option \<Rightarrow> nat option \<Rightarrow> nat option \<Rightarrow> 'w supervision \<Rightarrow>
     processCleanup option \<times> 'w supervision" where
  "cleanupProcess ops proc tx logger =
     (let start = \<lparr>pc_details = Map.empty, pc_err = None, pc_forced = False, pc_rootForced = False,
                   pc_orphans = [], pc_orphansUnknown = False\<rparr> in
      case proc of
        None \<Rightarrow>
          ret (start\<lparr>pc_err := Some (newCommittedBackendError CodeInternalError StageBackendCleanup Map.empty
                       (Some (sentinel (PlainError ''managed process is nil''))))\<rparr>)
      | Some p \<Rightarrow>
          seq (cleanup_root ops p (start\<lparr>pc_details := failureDetails ops logger proc Map.empty\<rparr>))
            (\<lambda>(outcome, processErr, snapshotErr, waitEmptyErr).
          seq (cleanup_force ops p outcome processErr waitEmptyErr) (\<lambda>(outcome, processErr).
          seq (release_process ops p tx logger processErr snapshotErr) (\<lambda>resultErr.
          ret (outcome\<lparr>pc_err := withFailureDetailsExtra ops resultErr logger proc (pc_details outcome)\<rparr>)))))"

section \<open>Recognising the backend\<close>

text \<open>The parent of a process in a snapshot: the last entry with its number.\<close>

definition parent_in :: "ProcessInfo list \<Rightarrow> nat \<Rightarrow> nat option" where
  "parent_in snapshot = map_of (rev (map (\<lambda>i. (pi_PID i, pi_ParentPID i)) snapshot))"

lemma parent_in_dom: "parent_in snapshot proc = Some q \<Longrightarrow> proc \<in> set (map pi_PID snapshot)"
  by (force simp: parent_in_def dest: map_of_SomeD)

function ancestor_loop :: "ProcessInfo list \<Rightarrow> nat \<Rightarrow> nat list \<Rightarrow> nat \<Rightarrow> bool" where
  "ancestor_loop snapshot root seen proc =
     (if proc = root then True
      else if proc = 0 then False
      else if List.member seen proc then False
      else case parent_in snapshot proc of
             None \<Rightarrow> False
           | Some parent \<Rightarrow> ancestor_loop snapshot root (proc # seen) parent)"
  by pat_completeness auto

termination
proof (relation "measure (\<lambda>(snapshot, root, seen, proc). card (set (map pi_PID snapshot) - set seen))")
  fix snapshot root seen and proc parent :: nat
  assume "\<not> List.member seen proc" "parent_in snapshot proc = Some parent"
  then have "proc \<in> set (map pi_PID snapshot) - set seen" by (simp add: parent_in_dom del: set_map)
  then have "set (map pi_PID snapshot) - set (proc # seen) \<subset> set (map pi_PID snapshot) - set seen"
    by auto
  then have "card (set (map pi_PID snapshot) - set (proc # seen)) < card (set (map pi_PID snapshot) - set seen)"
    by (intro psubset_card_mono) simp_all
  then show "((snapshot, root, proc # seen, parent), snapshot, root, seen, proc)
      \<in> measure (\<lambda>(snapshot, root, seen, proc). card (set (map pi_PID snapshot) - set seen))"
    by simp
qed simp

declare ancestor_loop.simps [simp del]

definition descendantOf :: "nat \<Rightarrow> nat \<Rightarrow> ProcessInfo list \<Rightarrow> bool" where
  "descendantOf proc root snapshot = ancestor_loop snapshot root [] proc"

text \<open>\<open>same\<close> is the comparison of two cleaned paths without regard to case.\<close>

definition anyExecutable :: "(string \<Rightarrow> string \<Rightarrow> bool) \<Rightarrow> string \<Rightarrow> string list \<Rightarrow> bool" where
  "anyExecutable same path candidates = list_ex (same path) candidates"

text \<open>The loop over the snapshot, with the answers of the context between two entries.\<close>

fun healthy_loop ::
  "(string \<Rightarrow> string \<Rightarrow> bool) \<Rightarrow> (nat \<Rightarrow> go_error option) \<Rightarrow> string list \<Rightarrow> nat \<Rightarrow> ProcessInfo list \<Rightarrow>
     nat \<Rightarrow> ProcessInfo list \<Rightarrow> go_error + bool" where
  "healthy_loop same ended pythonPaths root snapshot n [] =
     (case ended n of Some e \<Rightarrow> Inl e | None \<Rightarrow> Inr False)"
| "healthy_loop same ended pythonPaths root snapshot n (i # is) =
     (case ended n of
        Some e \<Rightarrow> Inl e
      | None \<Rightarrow>
          if pi_PID i = root \<or> \<not> anyExecutable same (pi_Executable i) pythonPaths
          then healthy_loop same ended pythonPaths root snapshot (n + 1) is
          else if descendantOf (pi_PID i) root snapshot then Inr True
          else healthy_loop same ended pythonPaths root snapshot (n + 1) is)"

definition Healthy ::
  "(string \<Rightarrow> string \<Rightarrow> bool) \<Rightarrow> (nat \<Rightarrow> go_error option) \<Rightarrow> bool \<Rightarrow> string \<Rightarrow> string list \<Rightarrow> nat \<Rightarrow>
     go_error + ProcessInfo list \<Rightarrow> go_error + bool" where
  "Healthy same ended nilContext uvPath pythonPaths root snapshot =
     (if nilContext then Inl (sentinel (PlainError ''backend process probe context is nil''))
      else case ended 0 of Some e \<Rightarrow> Inl e
      | None \<Rightarrow>
          (case snapshot of
             Inl e \<Rightarrow> Inl e
           | Inr infos \<Rightarrow>
               (case ended 1 of Some e \<Rightarrow> Inl e
                | None \<Rightarrow>
                    (case find (\<lambda>i. pi_PID i = root) infos of
                       None \<Rightarrow> Inr False
                     | Some i \<Rightarrow>
                         if \<not> same (pi_Executable i) uvPath then Inr False
                         else healthy_loop same ended pythonPaths root infos 2 infos))))"


section \<open>What a cleanup has done\<close>

text \<open>After any cleanup of a process: the process is released, and so are the transaction and the
  logger that it was given.\<close>

definition released :: "nat option \<Rightarrow> nat option \<Rightarrow> nat option \<Rightarrow> observation \<Rightarrow> observation" where
  "released proc tx logger ob =
     ob\<lparr>o_live := (case proc of None \<Rightarrow> o_live ob | Some p \<Rightarrow> remove1 p (o_live ob)),
        o_txs := (case tx of None \<Rightarrow> o_txs ob | Some t \<Rightarrow> remove1 t (o_txs ob)),
        o_logs := (case logger of None \<Rightarrow> o_logs ob | Some l \<Rightarrow> remove1 l (o_logs ob))\<rparr>"

lemma wp_terminate:
  "(\<And>err s'. obs s' = obs s \<Longrightarrow> Q err s') \<Longrightarrow> wp (terminate ops p) Q W s"
  unfolding terminate_def by (intro wp_seq wp_act_obs wp_call_obs) simp

lemma wp_wait_empty:
  "(\<And>err s'. obs s' = obs s \<Longrightarrow> Q err s') \<Longrightarrow> wp (wait_empty ops p) Q W s"
  unfolding wait_empty_def by (intro wp_seq wp_call_obs wp_if wp_act_obs wp_ret) simp_all

lemma wp_remove_transaction:
  "(\<And>err s'. obs s' = (obs s)\<lparr>o_txs := remove1 t (o_txs (obs s))\<rparr> \<Longrightarrow> Q err s') \<Longrightarrow>
     wp (remove_transaction ops t) Q W s"
  unfolding remove_transaction_def by (intro wp_seq wp_call_obs wp_act_obs) simp

lemma wp_close_logger:
  "(\<And>err s'. obs s' = (obs s)\<lparr>o_logs := remove1 l (o_logs (obs s))\<rparr> \<Longrightarrow> Q err s') \<Longrightarrow>
     wp (close_logger ops l) Q W s"
  unfolding close_logger_def by (intro wp_seq wp_call_obs wp_act_obs) simp

lemma wp_cleanup_root:
  "(\<And>r s'. obs s' = obs s \<Longrightarrow> Q r s') \<Longrightarrow> wp (cleanup_root ops p outcome) Q W s"
  unfolding cleanup_root_def
  by (intro wp_seq wp_call_obs wp_if wp_case_prod wp_terminate wp_ret wp_wait_empty) (simp_all)

lemma wp_cleanup_force:
  "(\<And>r s'. obs s' = obs s \<Longrightarrow> Q r s') \<Longrightarrow> wp (cleanup_force ops p outcome pe we) Q W s"
  unfolding cleanup_force_def
  by (intro wp_seq wp_call_obs wp_if wp_case_prod wp_terminate wp_ret wp_wait_empty wp_let) simp_all

lemma wp_release_process:
  "(\<And>r s'. obs s' = released (Some p) tx logger (obs s) \<Longrightarrow> Q r s') \<Longrightarrow>
     wp (release_process ops p tx logger pe se) Q W s"
  unfolding release_process_def
  by (intro wp_seq wp_act_obs wp_call_obs wp_let wp_case_option wp_remove_transaction wp_close_logger wp_ret)
     (simp_all add: released_def)

lemma wp_cleanupProcess:
  assumes "\<And>c s'. obs s' = released (Some p) tx logger (obs s) \<Longrightarrow> Q c s'"
  shows "wp (cleanupProcess ops (Some p) tx logger) Q W s"
  unfolding cleanupProcess_def Let_def option.case
  by (intro wp_seq wp_cleanup_root wp_case_prod wp_cleanup_force wp_release_process wp_ret)
     (simp add: assms)


text \<open>The actions that a program adds to the trace.\<close>

definition added :: "'w supervision \<Rightarrow> 'w supervision \<Rightarrow> action list" where
  "added s s' = take (length (trace s') - length (trace s)) (trace s')"

definition extends :: "'w supervision \<Rightarrow> 'w supervision \<Rightarrow> bool" where
  "extends s s' \<longleftrightarrow> trace s' = added s s' @ trace s"

lemma extends_iff: "extends s s' \<longleftrightarrow> (\<exists>new. trace s' = new @ trace s)"
  by (auto simp: extends_def added_def)

lemma added_eq: "trace s' = new @ trace s \<Longrightarrow> added s s' = new"
  by (simp add: added_def)

lemma mapCleanup_None [simp]: "mapCleanupProcessError op e = None \<longleftrightarrow> e = None"
  by (auto simp: mapCleanupProcessError_def Let_def split: option.splits)

lemma None_Join [simp]: "None = Join es \<longleftrightarrow> (\<forall>e \<in> set es. e = None)"
  by (metis Join_None)

lemma withFailureDetails_None [simp]: "withFailureDetailsExtra ops err l p d = None \<longleftrightarrow> err = None"
  by (auto simp: withFailureDetailsExtra_def split: option.splits)

lemma mapState_None [simp]: "mapStateCleanupError e = None \<longleftrightarrow> e = None"
  by (simp add: mapStateCleanupError_def)

lemma mapLogger_None [simp]: "mapLoggerCleanupError e = None \<longleftrightarrow> e = None"
  by (simp add: mapLoggerCleanupError_def)

lemma wp_call_trace:
  "(\<And>a s'. trace s' = trace s \<Longrightarrow> Q a s') \<Longrightarrow> wp (call op) Q W s"
  by (rule wp_call) simp

lemma wp_act_trace:
  "(\<And>s'. trace s' = a # trace s \<Longrightarrow> Q () s') \<Longrightarrow> wp (act a) Q W s"
  by (rule wp_act) simp

lemma wp_terminate_trace:
  "(\<And>err s'. trace s' = TerminatedProcess p # trace s \<Longrightarrow> Q err s') \<Longrightarrow> wp (terminate ops p) Q W s"
  unfolding terminate_def by (intro wp_seq wp_act_trace wp_call_trace) simp

lemma wp_wait_empty_trace:
  "(\<And>s'. trace s' = EmptiedProcess p # trace s \<Longrightarrow> Q None s') \<Longrightarrow>
     (\<And>e s'. trace s' = trace s \<Longrightarrow> Q (Some e) s') \<Longrightarrow> wp (wait_empty ops p) Q W s"
  unfolding wait_empty_def by (intro wp_seq wp_call_trace wp_if wp_act_trace wp_ret) auto

lemma recordOrphans_sel [simp]:
  "pc_forced (recordOrphans m e r c) = pc_forced c" "pc_rootForced (recordOrphans m e r c) = pc_rootForced c"
  "pc_err (recordOrphans m e r c) = pc_err c"
  by (simp_all add: recordOrphans_def)

lemma wp_cleanup_root_trace:
  assumes "\<And>c pe se we s' new. trace s' = new @ trace s \<Longrightarrow>
      (we = None \<Longrightarrow> EmptiedProcess p \<in> set new) \<Longrightarrow>
      (pc_rootForced c \<Longrightarrow> TerminatedProcess p \<in> set new) \<Longrightarrow> Q (c, pe, se, we) s'"
    and "\<not> pc_rootForced outcome"
  shows "wp (cleanup_root ops p outcome) Q W s"
  unfolding cleanup_root_def
  by (intro wp_seq wp_call_trace wp_if wp_case_prod wp_terminate_trace wp_ret wp_wait_empty_trace)
     (rule assms(1)[where new = "[EmptiedProcess p, TerminatedProcess p]"]
           assms(1)[where new = "[TerminatedProcess p]"] assms(1)[where new = "[EmptiedProcess p]"]
           assms(1)[where new = "[]"]; use assms(2) in \<open>auto; fail\<close>)+


lemma wp_cleanup_force_trace:
  assumes "\<And>c r s' new. trace s' = new @ trace s \<Longrightarrow>
      (r = None \<Longrightarrow> we = None \<or> EmptiedProcess p \<in> set new) \<Longrightarrow>
      pc_rootForced c = pc_rootForced outcome \<Longrightarrow> Q (c, r) s'"
  shows "wp (cleanup_force ops p outcome pe we) Q W s"
  unfolding cleanup_force_def
  by (intro wp_seq wp_call_trace wp_if wp_case_prod wp_terminate_trace wp_ret wp_wait_empty_trace wp_let)
     (rule assms[where new = "[]"] assms[where new = "[EmptiedProcess p, TerminatedProcess p]"]
           assms[where new = "[TerminatedProcess p]"]; (auto; fail))+

lemma wp_release_trace:
  assumes "\<And>r s' post. trace s' = post @ ClosedProcess p # trace s \<Longrightarrow>
      (\<And>t. tx = Some t \<Longrightarrow> RemovedTransaction t \<in> set post) \<Longrightarrow>
      (\<And>l. logger = Some l \<Longrightarrow> ClosedLogger l \<in> set post) \<Longrightarrow>
      (r = None \<Longrightarrow> pe = None) \<Longrightarrow> Q r s'"
  shows "wp (release_process ops p tx logger pe se) Q W s"
  unfolding release_process_def remove_transaction_def close_logger_def
  by (intro wp_seq wp_act_trace wp_call_trace wp_let wp_case_option wp_ret)
     (rule assms[where post = "[]"] assms[where post = "[ClosedLogger _]"]
           assms[where post = "[RemovedTransaction _]"]
           assms[where post = "[ClosedLogger _, RemovedTransaction _]"];
       (auto split: if_splits; fail))+

section \<open>Ancestry\<close>

text \<open>One step from a process to its parent; nobody asks for the parent of the process 0.\<close>

definition parent_step :: "ProcessInfo list \<Rightarrow> (nat \<times> nat) set" where
  "parent_step snapshot = {(p, q). p \<noteq> 0 \<and> parent_in snapshot p = Some q}"

lemma ancestor_loop_iff:
  assumes "\<forall>x \<in> set seen. x \<noteq> root \<and> (\<exists>q. (x, q) \<in> parent_step snapshot \<and> (q \<in> set seen \<or> q = p))"
  shows "ancestor_loop snapshot root seen p \<longleftrightarrow> (p, root) \<in> (parent_step snapshot)\<^sup>*"
  using assms
proof (induction snapshot root seen p rule: ancestor_loop.induct)
  case (1 snapshot root seen p)
  consider "p = root" | "p \<noteq> root" "p = 0" | "p \<noteq> root" "p \<noteq> 0" "p \<in> set seen"
    | "p \<noteq> root" "p \<noteq> 0" "p \<notin> set seen" by blast
  then show ?case
  proof cases
    case 1
    then show ?thesis by (simp add: ancestor_loop.simps)
  next
    case 2
    then have "(p, root) \<notin> (parent_step snapshot)\<^sup>*" by (auto simp: parent_step_def elim: converse_rtranclE)
    with 2 show ?thesis by (simp add: ancestor_loop.simps)
  next
    case 3
    have closed: "y \<in> set seen" if "(p, y) \<in> (parent_step snapshot)\<^sup>*" for y
      using that
    proof (induction rule: rtrancl_induct)
      case (step y z)
      then obtain q where "(y, q) \<in> parent_step snapshot" "q \<in> set seen"
        using 1(2) 3 by blast
      with step show ?case by (auto simp: parent_step_def)
    qed (use 3 in simp)
    then have "(p, root) \<notin> (parent_step snapshot)\<^sup>*" using 1(2) by blast
    with 3 show ?thesis by (simp add: ancestor_loop.simps)
  next
    case 4
    show ?thesis
    proof (cases "parent_in snapshot p")
      case None
      then have "(p, root) \<notin> (parent_step snapshot)\<^sup>*" using 4
        by (auto simp: parent_step_def elim: converse_rtranclE)
      with 4 None show ?thesis by (simp add: ancestor_loop.simps[of _ _ _ p])
    next
      case (Some q)
      have edge: "(p, q) \<in> parent_step snapshot" using 4 Some by (simp add: parent_step_def)
      then have "(p, root) \<in> (parent_step snapshot)\<^sup>* \<longleftrightarrow> (q, root) \<in> (parent_step snapshot)\<^sup>*"
        using 4(1) by (auto simp: parent_step_def elim: converse_rtranclE intro: converse_rtrancl_into_rtrancl)
      moreover have "ancestor_loop snapshot root (p # seen) q \<longleftrightarrow> (q, root) \<in> (parent_step snapshot)\<^sup>*"
        using 4 Some 1(2) edge by (intro 1(1)) auto
      ultimately show ?thesis using 4 Some by (simp add: ancestor_loop.simps[of _ _ _ p])
    qed
  qed
qed

lemma descendant_decided_aux: "descendantOf p root snapshot \<longleftrightarrow> (p, root) \<in> (parent_step snapshot)\<^sup>*"
  unfolding descendantOf_def by (rule ancestor_loop_iff) simp

lemma healthy_loop_True:
  "healthy_loop same ended pythonPaths root snapshot n is = Inr True \<Longrightarrow>
     \<exists>i \<in> set is. pi_PID i \<noteq> root \<and> anyExecutable same (pi_Executable i) pythonPaths \<and>
        descendantOf (pi_PID i) root snapshot"
  by (induction same ended pythonPaths root snapshot n "is" rule: healthy_loop.induct)
     (auto split: option.splits if_splits)

section \<open>Properties\<close>

lemma cleanup_compose:
  "trace s1 = new1 @ trace s \<Longrightarrow> trace s2 = new2 @ trace s1 \<Longrightarrow>
     trace s3 = post @ ClosedProcess p # trace s2 \<Longrightarrow> A post \<Longrightarrow> B (new2 @ new1) \<Longrightarrow>
     \<exists>post new. trace s3 = post @ ClosedProcess p # new @ trace s \<and> A post \<and> B new"
  by auto

text \<open>The trace of a cleanup: what comes before the close of the process and what after it.\<close>

lemma cleanup_trace:
  "\<exists>c s'. cleanupProcess ops (Some p) tx logger s = (Some c, s') \<and>
     (\<exists>post new. trace s' = post @ ClosedProcess p # new @ trace s \<and>
        ((\<forall>t. tx = Some t \<longrightarrow> RemovedTransaction t \<in> set post) \<and>
         (\<forall>l. logger = Some l \<longrightarrow> ClosedLogger l \<in> set post)) \<and>
        (pc_rootForced c \<longrightarrow> TerminatedProcess p \<in> set new) \<and>
        (pc_err c = None \<longrightarrow> EmptiedProcess p \<in> set new))"
proof -
  have "wp (cleanupProcess ops (Some p) tx logger)
      (\<lambda>c s'. \<exists>post new. trace s' = post @ ClosedProcess p # new @ trace s \<and>
         ((\<forall>t. tx = Some t \<longrightarrow> RemovedTransaction t \<in> set post) \<and>
          (\<forall>l. logger = Some l \<longrightarrow> ClosedLogger l \<in> set post)) \<and>
         (pc_rootForced c \<longrightarrow> TerminatedProcess p \<in> set new) \<and>
         (pc_err c = None \<longrightarrow> EmptiedProcess p \<in> set new)) (\<lambda>_. False) s"
    unfolding cleanupProcess_def Let_def option.case
    by (intro wp_seq wp_cleanup_root_trace wp_case_prod wp_cleanup_force_trace wp_release_trace wp_ret;
        (rule cleanup_compose, assumption, assumption, assumption)?) auto
  then show ?thesis by (auto simp: wp_def split: prod.splits option.splits)
qed

text \<open>C40: The walk from a process up to its ancestors ends on every snapshot, cycles included, and
  finds the root exactly when the chain of parents leads to it.\<close>

theorem descendant_decided:
  "descendantOf p root snapshot \<longleftrightarrow> (p, root) \<in> (parent_step snapshot)\<^sup>*"
  by (rule descendant_decided_aux)

text \<open>The probe accepts a backend only when the process with the root's number runs the uv
  executable and a process other than the root runs a known Python and descends from the root.\<close>

lemma healthy_recognises:
  assumes "Healthy same ended nilContext uvPath pythonPaths root snapshot = Inr True"
  shows "\<exists>infos i j. snapshot = Inr infos \<and>
    i \<in> set infos \<and> pi_PID i = root \<and> same (pi_Executable i) uvPath \<and>
    j \<in> set infos \<and> pi_PID j \<noteq> root \<and> list_ex (same (pi_Executable j)) pythonPaths \<and>
    (pi_PID j, root) \<in> (parent_step infos)\<^sup>*"
proof -
  obtain infos where snap: "snapshot = Inr infos"
    using assms by (auto simp: Healthy_def split: if_splits option.splits sum.splits)
  have "(case find (\<lambda>i. pi_PID i = root) infos of None \<Rightarrow> Inr False | Some i \<Rightarrow>
      if \<not> same (pi_Executable i) uvPath then Inr False
      else healthy_loop same ended pythonPaths root infos 2 infos) = (Inr True :: go_error + bool)"
    using assms by (auto simp: Healthy_def snap split: if_splits option.splits)
  then obtain i where infos: "snapshot = Inr infos" "find (\<lambda>i. pi_PID i = root) infos = Some i"
    "same (pi_Executable i) uvPath" "healthy_loop same ended pythonPaths root infos 2 infos = Inr True"
    using snap by (auto split: if_splits option.splits)
  from healthy_loop_True[OF infos(4)] obtain j where "j \<in> set infos" "pi_PID j \<noteq> root"
    "anyExecutable same (pi_Executable j) pythonPaths" "descendantOf (pi_PID j) root infos" by blast
  moreover have "i \<in> set infos" "pi_PID i = root" using infos(2) by (auto simp: find_Some_iff)
  ultimately show ?thesis using infos(1,3) by (auto simp: anyExecutable_def descendant_decided_aux)
qed

end
