(* ===== verification/Backend_Development.thy ===== *)
theory Backend_Development
  imports Backend_Process
begin

text \<open>
  \<open>internal/backend/development.go\<close>: the checks of a request to supervise a source directory of the
  caller. Absolute and clean paths, the inspection of an external path and the containment of two
  paths are operations of the dependencies. The lemmas show that a normalised request differs from
  the given one in its directory only, and what an accepted directory has passed.
\<close>

definition spawn_error :: "Code \<Rightarrow> backend_details \<Rightarrow> go_error option \<Rightarrow> go_error" where
  "spawn_error code details cause = newBackendError code StageBackendSpawn details cause"

section \<open>A blank path\<close>

text \<open>\<open>strings.TrimSpace(s) == ""\<close>: the text is a sequence of the UTF-8 encodings of white space, which
  have one, two or three bytes.\<close>

definition space1 :: "nat \<Rightarrow> bool" where
  "space1 b \<longleftrightarrow> 9 \<le> b \<and> b \<le> 13 \<or> b = 32"

definition space2 :: "nat \<Rightarrow> nat \<Rightarrow> bool" where
  "space2 b c \<longleftrightarrow> b = 0xC2 \<and> (c = 0x85 \<or> c = 0xA0)"

definition space3 :: "nat \<Rightarrow> nat \<Rightarrow> nat \<Rightarrow> bool" where
  "space3 b c d \<longleftrightarrow>
     b = 0xE1 \<and> c = 0x9A \<and> d = 0x80 \<or>
     b = 0xE2 \<and> c = 0x80 \<and> (0x80 \<le> d \<and> d \<le> 0x8A \<or> d = 0xA8 \<or> d = 0xA9 \<or> d = 0xAF) \<or>
     b = 0xE2 \<and> c = 0x81 \<and> d = 0x9F \<or>
     b = 0xE3 \<and> c = 0x80 \<and> d = 0x80"

fun blank_bytes :: "nat list \<Rightarrow> bool" where
  "blank_bytes [] = True"
| "blank_bytes [b] = space1 b"
| "blank_bytes [b, c] = (space1 b \<and> blank_bytes [c] \<or> space2 b c)"
| "blank_bytes (b # c # d # bs) =
     (space1 b \<and> blank_bytes (c # d # bs) \<or> space2 b c \<and> blank_bytes (d # bs) \<or>
      space3 b c d \<and> blank_bytes bs)"

definition blank :: "string \<Rightarrow> bool" where
  "blank s = blank_bytes (map of_char s)"

section \<open>Objects of the directory\<close>

definition inspectDevelopmentObject ::
  "'w deps \<Rightarrow> string \<Rightarrow> bool \<Rightarrow> 'w supervision \<Rightarrow> go_error option option \<times> 'w supervision" where
  "inspectDevelopmentObject ops path wantDirectory =
     (let clean = CleanPath ops path in
      if clean = '''' then ret (Some (sentinel DevelopmentPathMissing))
      else
        seq (call (InspectPath ops clean wantDirectory)) (\<lambda>answer.
        ret (case answer of
               Inl e \<Rightarrow>
                 if errors_Is ErrExternalPathUnsafe e then Some (sentinel DevelopmentPathUnsafe)
                 else if errors_Is ErrExternalPathNotOrdinary e then Some (sentinel DevelopmentPathType)
                 else Some e
             | Inr present \<Rightarrow> if present then None else Some (sentinel DevelopmentPathMissing))))"

definition developmentPathReason :: "go_error \<Rightarrow> string" where
  "developmentPathReason e =
     (if errors_Is DevelopmentPathMissing e then ''missing''
      else if errors_Is DevelopmentPathUnsafe e then ''reparse_point''
      else if errors_Is DevelopmentPathType e then ''not_ordinary''
      else ''inspect_failed'')"

text \<open>The end of the caller's context comes before any failure of a check.\<close>

definition unless_context ::
  "'w deps \<Rightarrow> go_error \<Rightarrow> 'w supervision \<Rightarrow> (go_error + 'a) option \<times> 'w supervision" where
  "unless_context ops e = seq (call (CtxErr ops)) (\<lambda>ended. ret (Inl (case ended of Some x \<Rightarrow> x | None \<Rightarrow> e)))"

section \<open>The request\<close>

definition repo_failure :: "go_error \<Rightarrow> go_error" where
  "repo_failure e =
     (if errors_Is DevelopmentPathUnsafe e
      then spawn_error CodeUnsafeReparsePoint
             [''field'' \<mapsto> JString ''repo'', ''reason'' \<mapsto> JString ''reparse_point''] (Some e)
      else spawn_error CodeInvalidArgument
             [''field'' \<mapsto> JString ''repo'', ''reason'' \<mapsto> JString (developmentPathReason e)] (Some e))"

definition containment_failure :: "go_error \<Rightarrow> go_error" where
  "containment_failure e =
     (if errors_Is ErrExternalPathUnsafe e
      then spawn_error CodeUnsafeReparsePoint
             [''field'' \<mapsto> JString ''repo'', ''reason'' \<mapsto> JString ''reparse_point''] (Some e)
      else spawn_error CodeInvalidArgument
             [''field'' \<mapsto> JString ''app_root'', ''reason'' \<mapsto> JString ''identity_unknown''] (Some e))"

definition entry_failure :: "go_error \<Rightarrow> go_error" where
  "entry_failure e =
     (if errors_Is DevelopmentPathUnsafe e
      then spawn_error CodeUnsafeReparsePoint
             [''field'' \<mapsto> JString ''main.py'', ''reason'' \<mapsto> JString ''reparse_point''] (Some e)
      else spawn_error CodeBackendEntryNotFound [''field'' \<mapsto> JString ''main.py''] (Some e))"

definition project_failure :: "string \<Rightarrow> go_error \<Rightarrow> go_error" where
  "project_failure field e =
     spawn_error CodeEnvironmentBroken
       [''field'' \<mapsto> JString field, ''reason'' \<mapsto> JString (developmentPathReason e)] (Some e)"

definition inspect_or ::
  "'w deps \<Rightarrow> string \<Rightarrow> bool \<Rightarrow> (go_error \<Rightarrow> go_error) \<Rightarrow>
     ('w supervision \<Rightarrow> (go_error + 'a) option \<times> 'w supervision) \<Rightarrow> 'w supervision \<Rightarrow>
     (go_error + 'a) option \<times> 'w supervision" where
  "inspect_or ops path wantDirectory failure rest =
     seq (inspectDevelopmentObject ops path wantDirectory) (\<lambda>err.
     case err of Some e \<Rightarrow> unless_context ops (failure e) | None \<Rightarrow> rest)"

definition normalizeDevelopmentRequest ::
  "'w deps \<Rightarrow> backend_layout \<Rightarrow> backend_request \<Rightarrow> 'w supervision \<Rightarrow>
     (go_error + backend_request) option \<times> 'w supervision" where
  "normalizeDevelopmentRequest ops layout request =
     (if modeForRequest request \<noteq> ModeDevelopment then ret (Inr request)
      else
        seq (call (CtxErr ops)) (\<lambda>ended.
        case ended of Some e \<Rightarrow> ret (Inl e) | None \<Rightarrow>
        if blank (rq_developmentRepo request)
        then ret (Inl (spawn_error CodeInvalidArgument [''field'' \<mapsto> JString ''repo'']
               (Some (sentinel (PlainError ''development repository is required'')))))
        else
          seq (call (AbsolutePath ops (rq_developmentRepo request))) (\<lambda>absolute.
          case absolute of
            Inl e \<Rightarrow> ret (Inl (spawn_error CodeInvalidArgument
                       [''field'' \<mapsto> JString ''repo'', ''reason'' \<mapsto> JString ''absolute_path''] (Some e)))
          | Inr path \<Rightarrow>
              let repo = CleanPath ops path in
              inspect_or ops repo True repo_failure
                (seq (call (PathContains ops repo (CleanPath ops (ly_appRoot layout)))) (\<lambda>containment.
                 case containment of
                   Inl e \<Rightarrow> unless_context ops (containment_failure e)
                 | Inr inside \<Rightarrow>
                     if inside
                     then ret (Inl (spawn_error CodeInvalidArgument
                            [''reason'' \<mapsto> JString ''runtime_root_inside_development_repo''] None))
                     else
                       inspect_or ops (JoinPath ops [repo, ''main.py'']) False entry_failure
                         (inspect_or ops (JoinPath ops [repo, ''pyproject.toml'']) False (project_failure ''pyproject.toml'')
                           (inspect_or ops (JoinPath ops [repo, ''.venv'']) True (project_failure ''.venv'')
                             (ret (Inr (request\<lparr>rq_developmentRepo := repo\<rparr>))))))))))"

section \<open>What a normalised request is\<close>

lemma wp_unless_context: "(\<And>e s'. obs s' = obs s \<Longrightarrow> Q (Inl e) s') \<Longrightarrow> wp (unless_context ops e) Q W s"
  unfolding unless_context_def by (intro wp_seq wp_call_obs wp_ret)

lemma wp_inspect_or:
  assumes "\<And>e s'. obs s' = obs s \<Longrightarrow> Q (Inl e) s'" "\<And>s'. obs s' = obs s \<Longrightarrow> wp rest Q W s'"
  shows "wp (inspect_or ops path d f rest) Q W s"
  unfolding inspect_or_def inspectDevelopmentObject_def Let_def
  by (intro wp_seq wp_if wp_call_obs wp_case_option wp_unless_context wp_ret) (auto intro: assms)

text \<open>The mode and the port are those of the given request.\<close>

definition same_request :: "backend_request \<Rightarrow> backend_request \<Rightarrow> bool" where
  "same_request r r' \<longleftrightarrow> r' = r\<lparr>rq_developmentRepo := rq_developmentRepo r'\<rparr>"

lemma same_request_mode: "same_request r r' \<Longrightarrow> modeForRequest r' = modeForRequest r"
  by (cases r; cases r') (simp add: same_request_def modeForRequest_def)

lemma same_request_refl [simp]: "same_request r r" "same_request r (r\<lparr>rq_developmentRepo := d\<rparr>)"
  by (simp_all add: same_request_def)

lemma wp_normalizeDevelopmentRequest:
  assumes "\<And>e s'. obs s' = obs s \<Longrightarrow> Q (Inl e) s'"
    and "\<And>r s'. obs s' = obs s \<Longrightarrow> same_request request r \<Longrightarrow> Q (Inr r) s'"
  shows "wp (normalizeDevelopmentRequest ops layout request) Q W s"
  unfolding normalizeDevelopmentRequest_def Let_def
  by (intro wp_if wp_seq wp_call_obs wp_case_option wp_case_sum wp_inspect_or wp_unless_context wp_ret)
     (auto intro: assms)

end
