(* ===== verification/Backend_Preflight.thy ===== *)
theory Backend_Preflight
  imports Backend_Development
begin

text \<open>
  The checks before a backend is started, from \<open>internal/backend/supervisor.go\<close>, \<open>port.go\<close> and
  \<open>control.go\<close>: the transaction that an earlier supervisor may have left, the entry file, the managed
  environment, the repository, and the check of uv. The lemmas show what each check reads and that
  a passed preflight has seen a ready environment and a healthy repository of the same revision.
\<close>

section \<open>Ports\<close>

definition defaultPortForMode :: "Mode \<Rightarrow> int" where
  "defaultPortForMode mode = (if mode = ModeDevelopment then 36164 else 36163)"

definition ValidPort :: "int \<Rightarrow> bool" where
  "ValidPort port \<longleftrightarrow> 1024 \<le> port \<and> port \<le> 65535"

definition resolveSupervisedPort :: "backend_request \<Rightarrow> Mode \<Rightarrow> go_error + int" where
  "resolveSupervisedPort request mode =
     (let port = (if rq_port request = 0 then defaultPortForMode mode else rq_port request) in
      if \<not> ValidPort port
      then Inl (newBackendError CodeInvalidArgument StageBackendSpawn
                  [''field'' \<mapsto> JString ''port'', ''port'' \<mapsto> JNumber (decimal_int port)]
                  (Some (sentinel (PlainError ''supervised port is out of range''))))
      else Inr port)"

section \<open>The transaction of an earlier supervisor\<close>


definition probe_operation :: "go_error \<Rightarrow> string option" where
  "probe_operation e = errors_as (\<lambda>k. case k of PIDProbeError oper \<Rightarrow> Some oper | _ \<Rightarrow> None) e"

definition ambiguous_transaction :: "BackendTransaction \<Rightarrow> go_error" where
  "ambiguous_transaction tx =
     spawn_error CodeUpdateStateAmbiguous
       [''reason'' \<mapsto> JString ''transaction_pid_alive_without_backend_mutex'',
        ''pid'' \<mapsto> JNumber (decimal (bt_PID tx))] None"

definition recoverStaleTransaction :: "'w deps \<Rightarrow> 'w supervision \<Rightarrow> go_error option option \<times> 'w supervision" where
  "recoverStaleTransaction ops =
     seq (call (ReadBackendTransaction ops)) (\<lambda>answer.
     case answer of
       Inl e \<Rightarrow>
         if errors_Is ErrTransactionNotFound e then ret None
         else
           seq (call (CtxErr ops)) (\<lambda>ended.
           ret (preferCancellation ended (Some (spawn_error CodeStateWriteFailed
             [''field'' \<mapsto> JString ''backend_transaction'', ''reason'' \<mapsto> JString ''read_failed''] (Some e)))))
     | Inr tx \<Rightarrow>
         (case bt_Handle tx of
            None \<Rightarrow> ret (Some (spawn_error CodeStateWriteFailed Map.empty
                      (Some (sentinel (PlainError ''backend transaction identity is invalid'')))))
          | Some h \<Rightarrow>
         if bt_PID tx = 0
         then ret (Some (spawn_error CodeStateWriteFailed Map.empty
                (Some (sentinel (PlainError ''backend transaction identity is invalid'')))))
         else
           case PIDAliveProbe ops of
             None \<Rightarrow> ret (Some (ambiguous_transaction tx))
           | Some probe \<Rightarrow>
               seq (call (probe (bt_PID tx))) (\<lambda>(alive, probeErr).
               seq (call (CtxErr ops)) (\<lambda>ended.
               let queryIdentity = (ended = None \<and>
                     (case probeErr of None \<Rightarrow> False
                      | Some e \<Rightarrow> probe_operation e = Some ''open-process'' \<and> errors_Is ErrPermission e))
               in
               if probeErr \<noteq> None \<and> \<not> queryIdentity
               then ret (Some (spawn_error CodeStateWriteFailed Map.empty probeErr))
               else
                 seq (if alive \<or> queryIdentity then
                        seq (call (PIDCreatedAt ops (bt_PID tx))) (\<lambda>(createdAt, creationErr).
                        if creationErr \<noteq> None
                        then ret (Inl (spawn_error CodeStateWriteFailed Map.empty (Join [probeErr, creationErr])))
                        else ret (Inr (case bt_StartedAt tx of None \<Rightarrow> False | Some t \<Rightarrow> t < createdAt)))
                      else ret (Inr True)) (\<lambda>stale.
                 case stale of
                   Inl e \<Rightarrow> ret (Some e)
                 | Inr isStale \<Rightarrow>
                     if isStale then
                       seq (act (RemovedStale h)) (\<lambda>_.
                       seq (call (RemoveTransactionOp ops h)) (\<lambda>removeErr.
                       ret (if removeErr = None then None
                            else Some (spawn_error CodeStateWriteFailed Map.empty removeErr))))
                     else ret (Some (ambiguous_transaction tx)))))))"

section \<open>Entry file, environment and repository\<close>

definition checkEntry :: "'w deps \<Rightarrow> backend_layout \<Rightarrow> 'w supervision \<Rightarrow> go_error option option \<times> 'w supervision" where
  "checkEntry ops layout =
     seq (call (CheckEntryFile ops (ly_entryFile layout))) (\<lambda>err.
     case err of
       None \<Rightarrow> ret None
     | Some e \<Rightarrow>
         seq (call (CtxErr ops)) (\<lambda>ended.
         if ended \<noteq> None then ret ended
         else if errors_Is ErrEntryUnsafe e then ret (Some (spawn_error CodeUnsafeReparsePoint Map.empty err))
         else ret (Some (spawn_error CodeBackendEntryNotFound Map.empty err))))"

definition environmentStateDetails :: "EnvironmentState \<Rightarrow> backend_details" where
  "environmentStateDetails env =
     (let details = [''state'' \<mapsto> JString (env_status env)] in
      case env_broken env of
        None \<Rightarrow> details
      | Some b \<Rightarrow>
          let d = details(''reason'' \<mapsto> JString (be_reason b), ''brokenStage'' \<mapsto> JString (be_stage b),
                          ''exitCode'' \<mapsto> JNumber (decimal_int (be_exitCode b))) in
          if be_logPath b = '''' then d else d(''logPath'' \<mapsto> JString (be_logPath b)))"

definition validateEnvironmentReady :: "EnvironmentState \<Rightarrow> go_error option" where
  "validateEnvironmentReady env =
     (if env_status env \<noteq> StateReadyToStart
      then Some (spawn_error CodeEnvironmentBroken (environmentStateDetails env) None)
      else if rev_version (env_lastSuccessful env) = '''' \<or> rev_commit (env_lastSuccessful env) = ''''
      then Some (spawn_error CodeEnvironmentBroken [''field'' \<mapsto> JString ''lastSuccessful''] None)
      else None)"

definition read_environment ::
  "'w deps \<Rightarrow> 'w supervision \<Rightarrow> (go_error + EnvironmentState) option \<times> 'w supervision" where
  "read_environment ops =
     seq (call (ReadEnvironment ops)) (\<lambda>answer.
     case answer of
       Inl e \<Rightarrow> ret (Inl (spawn_error CodeEnvironmentBroken
                  [''field'' \<mapsto> JString ''environment'', ''reason'' \<mapsto> JString ''read_failed''] (Some e)))
     | Inr env \<Rightarrow> seq (act (ReadEnv env)) (\<lambda>_. ret (Inr env)))"

definition check_repository ::
  "'w deps \<Rightarrow> 'w supervision \<Rightarrow> (RepositoryResult \<times> go_error option) option \<times> 'w supervision" where
  "check_repository ops =
     seq (call (CheckRepository ops)) (\<lambda>(result, err).
     seq (if err = None then act (CheckedRepository result) else ret ()) (\<lambda>_. ret (result, err)))"

definition checkRepository ::
  "'w deps \<Rightarrow> EnvironmentState \<Rightarrow> 'w supervision \<Rightarrow> (go_error + Revision) option \<times> 'w supervision" where
  "checkRepository ops env =
     seq (check_repository ops) (\<lambda>(result, err).
     if err \<noteq> None then
       seq (call (CtxErr ops)) (\<lambda>ended.
       ret (Inl (the (preferCancellation ended (Some (spawn_error CodeEnvironmentBroken
              [''field'' \<mapsto> JString ''revision'', ''reason'' \<mapsto> JString ''read_failed''] err))))))
     else if \<not> rr_healthy result \<or> rr_version result \<noteq> rev_version (env_lastSuccessful env) \<or>
             rr_commit result \<noteq> rev_commit (env_lastSuccessful env)
     then ret (Inl (spawn_error CodeEnvironmentBroken
                ((if rr_reason result = '''' then Map.empty else [''reason'' \<mapsto> JString (rr_reason result)])
                   (''field'' \<mapsto> JString ''revision'')) None))
     else ret (Inr \<lparr>rev_version = rr_version result, rev_commit = rr_commit result\<rparr>))"

definition recheckRevision ::
  "'w deps \<Rightarrow> EnvironmentState \<Rightarrow> Revision \<Rightarrow> 'w supervision \<Rightarrow> go_error option option \<times> 'w supervision" where
  "recheckRevision ops env revision =
     seq (read_environment ops) (\<lambda>answer.
     case answer of
       Inl e \<Rightarrow> seq (call (CtxErr ops)) (\<lambda>ended. ret (preferCancellation ended (Some e)))
     | Inr latest \<Rightarrow>
         if env_status latest \<noteq> StateReadyToStart \<or> env_lastSuccessful latest \<noteq> env_lastSuccessful env then
           (let details = (environmentStateDetails latest)(''field'' \<mapsto> JString ''lastSuccessful'') in
            ret (Some (spawn_error CodeEnvironmentBroken
              (if details ''reason'' = None then details(''reason'' \<mapsto> JString ''changed_before_spawn'') else details)
              None)))
         else
           seq (check_repository ops) (\<lambda>(result, err).
           if err \<noteq> None \<or> \<not> rr_healthy result \<or> rr_version result \<noteq> rev_version revision \<or>
              rr_commit result \<noteq> rev_commit revision
           then
             seq (call (CtxErr ops)) (\<lambda>ended.
             if ended \<noteq> None then ret (Join [ended, err])
             else
               ret (Some (spawn_error CodeEnvironmentBroken
                 [''field'' \<mapsto> JString ''revision'',
                  ''reason'' \<mapsto> JString (if err \<noteq> None then ''read_failed''
                     else if rr_reason result \<noteq> '''' then rr_reason result else ''changed_before_spawn'')]
                 (if err = None
                  then Some (sentinel (PlainError ''repository revision changed before spawn'')) else err))))
           else ret None))"

section \<open>The preflight\<close>

definition zero_revision :: Revision where
  "zero_revision = \<lparr>rev_version = '''', rev_commit = ''''\<rparr>"

definition zero_environment :: EnvironmentState where
  "zero_environment = \<lparr>env_schemaVersion = 0, env_status = '''', env_updatedAt = \<lparr>instant = 0, zone_offset = 0\<rparr>,
     env_lastSuccessful = zero_revision, env_broken = None\<rparr>"

definition developmentProjectEnv :: "'w deps \<Rightarrow> string \<Rightarrow> string" where
  "developmentProjectEnv ops repo = JoinPath ops [repo, ''.venv'']"

definition uv_check_options :: "string \<Rightarrow> string \<Rightarrow> ManagedOptions" where
  "uv_check_options project venv =
     \<lparr>mo_stage = StageBackendSpawn, mo_workingDir = '''', mo_projectDir = project, mo_projectEnvDir = venv,
      mo_entry = '''', mo_identity = None, mo_port = 0\<rparr>"

text \<open>What comes after the development request is normalised.\<close>

definition preflight_checks ::
  "'w deps \<Rightarrow> backend_layout \<Rightarrow> backend_request \<Rightarrow> 'w supervision \<Rightarrow>
     (go_error + EnvironmentState \<times> Revision) option \<times> 'w supervision" where
  "preflight_checks ops layout request =
     seq (recoverStaleTransaction ops) (\<lambda>err.
     case err of Some e \<Rightarrow> ret (Inl e) | None \<Rightarrow>
     if modeForRequest request = ModeDevelopment then
       seq (call (CheckUV ops (uv_check_options (rq_developmentRepo request)
              (developmentProjectEnv ops (rq_developmentRepo request))))) (\<lambda>err.
       case err of
         Some e \<Rightarrow> ret (Inl (the (mapDependencyError StageBackendSpawn CodeUVExecFailed err)))
       | None \<Rightarrow> ret (Inr (zero_environment, zero_revision)))
     else
       seq (checkEntry ops layout) (\<lambda>err.
       case err of Some e \<Rightarrow> ret (Inl e) | None \<Rightarrow>
       seq (read_environment ops) (\<lambda>answer.
       case answer of Inl e \<Rightarrow> ret (Inl e) | Inr env \<Rightarrow>
       case validateEnvironmentReady env of Some e \<Rightarrow> ret (Inl e) | None \<Rightarrow>
       seq (checkRepository ops env) (\<lambda>checked.
       case checked of Inl e \<Rightarrow> ret (Inl e) | Inr revision \<Rightarrow>
       seq (call (CheckUV ops (uv_check_options (ly_repoDir layout) (ly_venvDir layout)))) (\<lambda>err.
       case err of
         Some e \<Rightarrow> ret (Inl (the (mapDependencyError StageBackendSpawn CodeEnvironmentBroken err)))
       | None \<Rightarrow> ret (Inr (env, revision)))))))"

definition controlPreflight ::
  "'w deps \<Rightarrow> backend_layout \<Rightarrow> backend_request \<Rightarrow> 'w supervision \<Rightarrow>
     (go_error + EnvironmentState \<times> Revision) option \<times> 'w supervision" where
  "controlPreflight ops layout request =
     (if modeForRequest request = ModeDevelopment then
        seq (normalizeDevelopmentRequest ops layout request) (\<lambda>answer.
        case answer of Inl e \<Rightarrow> ret (Inl e) | Inr _ \<Rightarrow> preflight_checks ops layout request)
      else preflight_checks ops layout request)"


section \<open>What the checks read\<close>

text \<open>Only the environment and the repository that were read last may differ.\<close>

definition only_read :: "observation \<Rightarrow> observation \<Rightarrow> bool" where
  "only_read ob ob' \<longleftrightarrow> ob' = ob\<lparr>o_env := o_env ob', o_repo := o_repo ob'\<rparr>"

lemma only_read_refl [simp]: "only_read ob ob"
  by (simp add: only_read_def)

lemma only_read_env [simp]: "only_read ob (ob\<lparr>o_env := e\<rparr>)"
  by (simp add: only_read_def)

lemma only_read_repo [simp]: "only_read ob (ob\<lparr>o_repo := r\<rparr>)"
  by (simp add: only_read_def)

lemma only_read_trans: "only_read a b \<Longrightarrow> only_read b c \<Longrightarrow> only_read a c"
  unfolding only_read_def by (metis (no_types, lifting) observation.surjective observation.update_convs(7,8))

lemma wp_recoverStaleTransaction:
  "(\<And>r s'. obs s' = obs s \<Longrightarrow> Q r s') \<Longrightarrow> wp (recoverStaleTransaction ops) Q W s"
  unfolding recoverStaleTransaction_def
  by (intro wp_seq wp_call_obs wp_act_obs wp_case_sum wp_case_option wp_case_prod wp_if wp_let wp_ret)
     simp_all

lemma wp_checkEntry: "(\<And>r s'. obs s' = obs s \<Longrightarrow> Q r s') \<Longrightarrow> wp (checkEntry ops layout) Q W s"
  unfolding checkEntry_def by (intro wp_seq wp_call_obs wp_case_option wp_if wp_ret) simp_all

lemma wp_read_environment:
  "(\<And>e s'. obs s' = obs s \<Longrightarrow> Q (Inl e) s') \<Longrightarrow>
     (\<And>env s'. obs s' = (obs s)\<lparr>o_env := Some env\<rparr> \<Longrightarrow> Q (Inr env) s') \<Longrightarrow> wp (read_environment ops) Q W s"
  unfolding read_environment_def by (intro wp_seq wp_call_obs wp_act_obs wp_case_sum wp_ret) simp_all

lemma wp_check_repository:
  "(\<And>r e s'. obs s' = obs s \<Longrightarrow> Q (r, Some e) s') \<Longrightarrow>
     (\<And>r s'. obs s' = (obs s)\<lparr>o_repo := Some r\<rparr> \<Longrightarrow> Q (r, None) s') \<Longrightarrow> wp (check_repository ops) Q W s"
  unfolding check_repository_def by (intro wp_seq wp_call_obs wp_act_obs wp_case_prod wp_if wp_ret) auto

text \<open>A passed check of the repository confirms the revision of the environment.\<close>

lemma wp_checkRepository:
  assumes "\<And>e s'. only_read (obs s) (obs s') \<Longrightarrow> Q (Inl e) s'"
    and "\<And>s'. only_read (obs s) (obs s') \<Longrightarrow> Q (Inr (env_lastSuccessful env)) s'"
  shows "wp (checkRepository ops env) Q W s"
proof -
  have rev: "\<lparr>rev_version = v, rev_commit = c\<rparr> = r" if "v = rev_version r" "c = rev_commit r" for v c and r :: Revision
    using that by simp
  show ?thesis
    unfolding checkRepository_def
    by (intro wp_seq wp_check_repository wp_call_obs wp_case_prod wp_if wp_ret) (auto simp: rev intro!: assms)
qed

definition confirms :: "observation \<Rightarrow> Revision \<Rightarrow> bool" where
  "confirms ob r \<longleftrightarrow> (\<exists>env repo. o_env ob = Some env \<and> o_repo ob = Some repo \<and>
     env_status env = StateReadyToStart \<and> env_lastSuccessful env = r \<and> rr_healthy repo \<and>
     rr_version repo = rev_version r \<and> rr_commit repo = rev_commit r)"

lemma confirms_start: "confirms ob r \<Longrightarrow> mo_identity m = Some r \<Longrightarrow> start_verified ob m"
  by (auto simp: confirms_def start_verified_def)

text \<open>A passed recheck confirms the revision that was checked before.\<close>

lemma preferCancellation_None [simp]: "preferCancellation ended e = None \<longleftrightarrow> e = None"
  by (auto simp: preferCancellation_def)

lemma wp_recheckRevision:
  assumes "\<And>e s'. only_read (obs s) (obs s') \<Longrightarrow>
      (e = None \<Longrightarrow> r = env_lastSuccessful env \<Longrightarrow> confirms (obs s') r) \<Longrightarrow> Q e s'"
  shows "wp (recheckRevision ops env r) Q W s"
proof -
  have final: "Q e s'" if "obs s' = (obs s)\<lparr>o_env := Some latest, o_repo := Some repo\<rparr>"
      "e = None \<Longrightarrow> env_status latest = StateReadyToStart \<and> env_lastSuccessful latest = env_lastSuccessful env \<and>
         rr_healthy repo \<and> rr_version repo = rev_version r \<and> rr_commit repo = rev_commit r"
    for e s' latest repo
    using that by (intro assms) (auto simp: only_read_def confirms_def)
  have partial: "Q e s'" if "obs s' = (obs s)\<lparr>o_env := Some latest\<rparr>" "e \<noteq> None" for e s' latest
    using that by (intro assms) (auto simp: only_read_def)
  have none: "Q e s'" if "obs s' = obs s" "e \<noteq> None" for e s'
    using that by (intro assms) auto
  show ?thesis
    unfolding recheckRevision_def
    by (intro wp_seq wp_read_environment wp_call_obs wp_case_sum wp_if wp_let wp_check_repository
        wp_case_prod wp_ret)
       (rule none partial final; (auto; fail))+
qed

lemma wp_preflight_checks:
  assumes "\<And>r s'. only_read (obs s) (obs s') \<Longrightarrow>
      (\<And>env rev. r = Inr (env, rev) \<Longrightarrow> modeForRequest request \<noteq> ModeDevelopment \<Longrightarrow>
         rev = env_lastSuccessful env) \<Longrightarrow> Q r s'"
  shows "wp (preflight_checks ops layout request) Q W s"
  unfolding preflight_checks_def
  by (intro wp_seq wp_recoverStaleTransaction wp_call_obs wp_case_sum wp_case_option wp_if wp_ret
      wp_checkEntry wp_read_environment wp_checkRepository)
     (rule assms; (auto elim: only_read_trans[rotated] intro: only_read_env; fail)?)+

lemma wp_controlPreflight:
  assumes "\<And>r s'. only_read (obs s) (obs s') \<Longrightarrow>
      (\<And>env rev. r = Inr (env, rev) \<Longrightarrow> modeForRequest request \<noteq> ModeDevelopment \<Longrightarrow>
         rev = env_lastSuccessful env) \<Longrightarrow> Q r s'"
  shows "wp (controlPreflight ops layout request) Q W s"
  unfolding controlPreflight_def
  by (intro wp_seq wp_normalizeDevelopmentRequest wp_case_sum wp_if wp_ret wp_preflight_checks) (auto intro!: assms)

end
