(* ===== verification/Backend_Control.thy ===== *)
theory Backend_Control
  imports Backend_Preflight
begin

text \<open>
  How a supervision ends, from \<open>internal/backend/control.go\<close>: the snapshot that answers a status
  command, closing the control channel and draining it, the failure, the cancellation and the
  shutdown. A loop over a channel runs with fuel, the number of events it may see; when they run out
  the program waits. The lemmas say what each of them does to the observation.
\<close>

section \<open>The snapshot\<close>

definition set_snapshot :: "Stage \<Rightarrow> StateStatus \<Rightarrow> backend_details \<Rightarrow> 'w supervision \<Rightarrow> unit option \<times> 'w supervision" where
  "set_snapshot stage status details =
     upd (\<lambda>s. s\<lparr>cs_stage := stage, cs_status := status, cs_details := details\<rparr>)"

definition controlSnapshotStage :: "Stage \<Rightarrow> 'w supervision \<Rightarrow> Stage" where
  "controlSnapshotStage fallback s = (if cs_stage s = '''' then fallback else cs_stage s)"

text \<open>\<open>WithControlCommandID\<close> on details as a map.\<close>

definition with_command_id :: "backend_details \<Rightarrow> string \<Rightarrow> backend_details" where
  "with_command_id d i = d(''controlCommandId'' \<mapsto> JString i)"

lemma with_command_id_map: "map_of (WithControlCommandID d i) = with_command_id (map_of d) i"
proof
  fix k
  have "map_of (filter (\<lambda>(k, v). k \<noteq> ''controlCommandId'') d) k =
      (if k = ''controlCommandId'' then None else map_of d k)"
    by (induction d) auto
  then show "map_of (WithControlCommandID d i) k = with_command_id (map_of d) i k"
    by (auto simp: WithControlCommandID_def with_command_id_def map_add_def split: option.splits)
qed

definition answer_status :: "'w deps \<Rightarrow> string \<Rightarrow> 'w supervision \<Rightarrow> go_error option option \<times> 'w supervision" where
  "answer_status ops commandID =
     seq (get (\<lambda>s. (cs_stage s, cs_status s, cs_details s))) (\<lambda>(stage, status, details).
     emitState ops stage status MsgSnapshot (with_command_id details commandID))"

definition reader_failure :: "Stage \<Rightarrow> go_error \<Rightarrow> go_error" where
  "reader_failure stage e = newBackendError CodeInternalError stage Map.empty (Some e)"

definition command_details :: "string \<Rightarrow> backend_details" where
  "command_details commandID =
     (if commandID = '''' then Map.empty else [''controlCommandId'' \<mapsto> JString commandID])"

definition newControlCancelled :: "string \<Rightarrow> go_error" where
  "newControlCancelled commandID =
     newBackendError CodeOperationCancelled StageBackendShutdown (command_details commandID)
       (Some (sentinel ContextCanceled))"

section \<open>Closing the control channel\<close>

text \<open>The end of the channel is an error that says so.\<close>

definition channel_ended :: "go_error \<Rightarrow> bool" where
  "channel_ended e \<longleftrightarrow> errors_Is ErrControlStopped e \<or> errors_Is ErrControlMailboxClosed e"

definition set_close_error :: "go_error option \<Rightarrow> 'w supervision \<Rightarrow> unit option \<times> 'w supervision" where
  "set_close_error e = upd (\<lambda>s. s\<lparr>cs_closeErr := e\<rparr>)"

primrec close_drain :: "'w deps \<Rightarrow> nat \<Rightarrow> 'w supervision \<Rightarrow> unit option \<times> 'w supervision" where
  "close_drain ops 0 = waiting"
| "close_drain ops (Suc n) =
     seq (call (NextDrain ops)) (\<lambda>ev.
     case ev of
       DrainExpired \<Rightarrow> set_close_error (Some (sentinel DeadlineExceeded))
     | DrainResult (ResultError e) \<Rightarrow>
         if channel_ended e then ret ()
         else seq (get (controlSnapshotStage StageBackendCleanup)) (\<lambda>stage.
              set_close_error (Some (reader_failure stage e)))
     | DrainResult (ResultCommand c) \<Rightarrow>
         if cc_command c \<noteq> ControlStatus then close_drain ops n
         else seq (answer_status ops (cc_commandId c)) (\<lambda>err.
              if err \<noteq> None then set_close_error err else close_drain ops n))"

text \<open>Both ways to close share one \<open>sync.Once\<close>: what the first one returned is returned again.\<close>

definition close_once ::
  "'w deps \<Rightarrow> nat \<Rightarrow> ('w \<Rightarrow> unit \<times> 'w) option \<Rightarrow> bool \<Rightarrow> 'w supervision \<Rightarrow> go_error option option \<times> 'w supervision" where
  "close_once ops n before skipDrain =
     seq (get cs_closeOnce) (\<lambda>once.
     if once then get cs_closeErr
     else
       seq (upd (\<lambda>s. s\<lparr>cs_closeOnce := True\<rparr>)) (\<lambda>_.
       seq (get cs_controlClosed) (\<lambda>closed.
       if closed then get cs_closeErr
       else
         seq (case before of None \<Rightarrow> ret () | Some f \<Rightarrow> seq (act StoppedAccepting) (\<lambda>_. call f)) (\<lambda>_.
         seq (upd (\<lambda>s. s\<lparr>cs_controlClosed := True\<rparr>)) (\<lambda>_.
         if skipDrain then get cs_closeErr
         else seq (close_drain ops n) (\<lambda>_. get cs_closeErr))))))"

definition closeControlBeforeFailure ::
  "'w deps \<Rightarrow> nat \<Rightarrow> bool \<Rightarrow> 'w supervision \<Rightarrow> go_error option option \<times> 'w supervision" where
  "closeControlBeforeFailure ops n outputFault =
     close_once ops n (case BeforeControlClose ops of Some f \<Rightarrow> Some f | None \<Rightarrow> StopAcceptingCommands ops)
       outputFault"

definition closeControlAndDrain ::
  "'w deps \<Rightarrow> nat \<Rightarrow> ('w \<Rightarrow> unit \<times> 'w) option \<Rightarrow> 'w supervision \<Rightarrow> go_error option option \<times> 'w supervision" where
  "closeControlAndDrain ops n before =
     close_once ops n (case before of Some f \<Rightarrow> Some f | None \<Rightarrow> StopAcceptingCommands ops) False"

definition closeControlBeforeCancel :: "'w deps \<Rightarrow> nat \<Rightarrow> 'w supervision \<Rightarrow> go_error option option \<times> 'w supervision" where
  "closeControlBeforeCancel ops n = closeControlAndDrain ops n (BeforeControlClose ops)"

definition closeControlBeforeShutdown ::
  "'w deps \<Rightarrow> nat \<Rightarrow> string \<Rightarrow> 'w supervision \<Rightarrow> go_error option option \<times> 'w supervision" where
  "closeControlBeforeShutdown ops n commandID =
     closeControlAndDrain ops n (map_option (\<lambda>f. f commandID) (BeforeShutdown ops))"

section \<open>Resources and failure\<close>

definition closeResources :: "'w deps \<Rightarrow> 'w supervision \<Rightarrow> go_error option option \<times> 'w supervision" where
  "closeResources ops =
     seq (get (\<lambda>s. (rs_once s, rs_lease s))) (\<lambda>(once, lease).
     case lease of
       None \<Rightarrow> ret None
     | Some l \<Rightarrow>
         if once then get rs_err
         else
           seq (act ClosedState) (\<lambda>_.
           seq (call (CloseState ops)) (\<lambda>e1.
           seq (act (ClosedLease l)) (\<lambda>_.
           seq (call (CloseLease ops l)) (\<lambda>e2.
           seq (act ClosedLockSet) (\<lambda>_.
           seq (call (CloseLockSet ops)) (\<lambda>e3.
           let err = Join [mapStateCleanupError e1, mapMutexCleanupError e2, mapMutexCleanupError e3] in
           seq (upd (\<lambda>s. s\<lparr>rs_once := True, rs_err := err\<rparr>)) (\<lambda>_. ret err))))))))"

definition emitControlFailure ::
  "'w deps \<Rightarrow> nat \<Rightarrow> go_error option \<Rightarrow> 'w supervision \<Rightarrow> go_error option option \<times> 'w supervision" where
  "emitControlFailure ops n err =
     (case err of
        None \<Rightarrow> ret None
      | Some _ \<Rightarrow>
          seq (closeControlBeforeFailure ops n (backendErrorHasCode err CodeOutputWriteFailed)) (\<lambda>drainErr.
          let err' = (if drainErr = None then err else Join [drainErr, err]);
              details = (case err' of None \<Rightarrow> Map.empty | Some e \<Rightarrow> nestedControlDetails e)
          in
          seq (set_snapshot StageBackendCleanup StateBackendFailed details) (\<lambda>_.
          seq (call (SetControlStage ops StageBackendCleanup)) (\<lambda>_.
          seq (emitState ops StageBackendCleanup StateBackendFailed MsgFailed details) (\<lambda>stateErr.
          ret (Join [err', stateErr]))))))"

section \<open>Waiting for the terminal command\<close>

primrec drain_loop ::
  "'w deps \<Rightarrow> bool \<Rightarrow> nat \<Rightarrow> 'w supervision \<Rightarrow> (go_error + ControlCommand) option \<times> 'w supervision" where
  "drain_loop ops latch 0 = waiting"
| "drain_loop ops latch (Suc n) =
     seq (get (controlSnapshotStage StageBackendRun)) (\<lambda>stage.
     seq (call (InfraErr ops)) (\<lambda>infra.
     case infra of Some e \<Rightarrow> ret (Inl (reader_failure stage e)) | None \<Rightarrow>
     seq (call (NextDrain ops)) (\<lambda>ev.
     case ev of
       DrainExpired \<Rightarrow>
         if latch then ret (Inl (sentinel DeadlineExceeded))
         else seq (call (CtxErr ops)) (\<lambda>ended.
              ret (Inl (case ended of Some e \<Rightarrow> e | None \<Rightarrow> sentinel ContextCanceled)))
     | DrainResult (ResultError e) \<Rightarrow> ret (Inl (reader_failure stage e))
     | DrainResult (ResultCommand c) \<Rightarrow>
         if cc_command c = ControlStatus then
           seq (answer_status ops (cc_commandId c)) (\<lambda>err.
           case err of Some e \<Rightarrow> ret (Inl e) | None \<Rightarrow> drain_loop ops latch n)
         else if is_terminal c then ret (Inr c)
         else drain_loop ops latch n)))"

definition drainUntilTerminal ::
  "'w deps \<Rightarrow> nat \<Rightarrow> 'w supervision \<Rightarrow> (go_error + ControlCommand) option \<times> 'w supervision" where
  "drainUntilTerminal ops n =
     seq (call (LatchedCommand ops)) (\<lambda>latch. drain_loop ops (latch \<noteq> None) n)"


section \<open>Cancellation and shutdown\<close>

text \<open>A cancelled supervision without a process: stopping, the resources, stopped.\<close>

definition announce :: "'w deps \<Rightarrow> StateStatus \<Rightarrow> state_message \<Rightarrow> backend_details \<Rightarrow> 'w supervision \<Rightarrow>
    go_error option option \<times> 'w supervision" where
  "announce ops status message details =
     seq (set_snapshot StageBackendShutdown status details) (\<lambda>_.
     emitState ops StageBackendShutdown status message details)"

definition finish_cancelled ::
  "'w deps \<Rightarrow> nat \<Rightarrow> go_error option list \<Rightarrow> go_error option \<Rightarrow> go_error \<Rightarrow> backend_details \<Rightarrow>
     'w supervision \<Rightarrow> go_error option option \<times> 'w supervision" where
  "finish_cancelled ops n failures stateErr primary details =
     (case Join failures of
        Some _ \<Rightarrow>
          seq (emitControlFailure ops n (Join (failures @ [Some primary]))) (\<lambda>e. ret (Join [stateErr, e]))
      | None \<Rightarrow>
          seq (closeResources ops) (\<lambda>resourceErr.
          if resourceErr \<noteq> None
          then seq (emitControlFailure ops n (Join [resourceErr, Some primary])) (\<lambda>e. ret (Join [stateErr, e]))
          else seq (announce ops StateStopped MsgStopped details) (\<lambda>stoppedErr.
               ret (Join [stateErr, stoppedErr, Some primary]))))"

text \<open>\<open>finalize\<close> of a cancellation with a process: an error of the control channel comes before one of
  the cleanup.\<close>

definition finalize_cancel ::
  "'w deps \<Rightarrow> nat \<Rightarrow> processCleanup \<Rightarrow> go_error option \<Rightarrow> go_error option \<Rightarrow> go_error \<Rightarrow> backend_details \<Rightarrow>
     'w supervision \<Rightarrow> go_error option option \<times> 'w supervision" where
  "finalize_cancel ops n cleanup controlErr stateErr primary details =
     finish_cancelled ops n
       (if controlErr \<noteq> None then [pc_err cleanup, controlErr] else [pc_err cleanup]) stateErr primary details"

definition close_control_once :: "'w deps \<Rightarrow> 'w supervision \<Rightarrow> unit option \<times> 'w supervision" where
  "close_control_once ops =
     seq (case BeforeControlClose ops of None \<Rightarrow> ret () | Some f \<Rightarrow> seq (act StoppedAccepting) (\<lambda>_. call f)) (\<lambda>_.
     upd (\<lambda>s. s\<lparr>cs_controlClosed := True\<rparr>))"

definition control_error_of :: "go_error \<Rightarrow> go_error option \<Rightarrow> go_error option" where
  "control_error_of e controlErr =
     (if channel_ended e then controlErr else Some (reader_failure StageBackendCleanup e))"

text \<open>After the cleanup: the end of the channel, or the deadline that bounds this wait.\<close>

primrec await_channel ::
  "'w deps \<Rightarrow> nat \<Rightarrow> go_error option \<Rightarrow> 'w supervision \<Rightarrow> go_error option option \<times> 'w supervision" where
  "await_channel ops 0 controlErr = waiting"
| "await_channel ops (Suc n) controlErr =
     seq (call (NextClosing ops)) (\<lambda>ev.
     case ev of
       ControlDeadline \<Rightarrow> ret controlErr
     | ClosingResult (ResultError e) \<Rightarrow> ret (control_error_of e controlErr)
     | ClosingResult (ResultCommand c) \<Rightarrow>
         if cc_command c = ControlStatus then
           seq (answer_status ops (cc_commandId c)) (\<lambda>err.
           await_channel ops n (if err = None then controlErr else err))
         else await_channel ops n controlErr)"

text \<open>Before the end of the cleanup. The cleanup runs in a goroutine of its own; here it runs when its
  result is received, which no other effect of this loop can tell.\<close>

primrec await_cleanup ::
  "'w deps \<Rightarrow> nat \<Rightarrow> controlAttempt \<Rightarrow> bool \<Rightarrow> go_error option \<Rightarrow> 'w supervision \<Rightarrow>
     (processCleanup \<times> go_error option) option \<times> 'w supervision" where
  "await_cleanup ops 0 attempt ended controlErr = waiting"
| "await_cleanup ops (Suc n) attempt ended controlErr =
     seq (call (NextCancel ops)) (\<lambda>ev.
     case ev of
       CleanupFinished \<Rightarrow>
         seq (cleanupProcess ops (at_process attempt) (Some (at_tx attempt)) (Some (at_logger attempt))) (\<lambda>cleanup.
         seq (close_control_once ops) (\<lambda>_.
         if ended then ret (cleanup, controlErr)
         else seq (await_channel ops n controlErr) (\<lambda>controlErr. ret (cleanup, controlErr))))
     | CancelResult (ResultError e) \<Rightarrow> await_cleanup ops n attempt True (control_error_of e controlErr)
     | CancelResult (ResultCommand c) \<Rightarrow>
         if cc_command c = ControlStatus then
           seq (answer_status ops (cc_commandId c)) (\<lambda>err.
           await_cleanup ops n attempt ended (if err = None then controlErr else err))
         else await_cleanup ops n attempt ended controlErr)"

definition finishControlCancel ::
  "'w deps \<Rightarrow> nat \<Rightarrow> controlAttempt option \<Rightarrow> string \<Rightarrow> 'w supervision \<Rightarrow> go_error option option \<times> 'w supervision" where
  "finishControlCancel ops n attempt commandID =
     (let details = command_details commandID; primary = newControlCancelled commandID in
      seq (if attempt = None then closeControlBeforeCancel ops n else ret None) (\<lambda>controlErr.
      if controlErr \<noteq> None then ret (Join [controlErr, Some primary])
      else
      seq (get cs_status) (\<lambda>status.
      if attempt = None \<and> status = StateReadyToStart then ret (Some primary)
      else
        seq (call (SetControlStage ops StageBackendShutdown)) (\<lambda>_.
        seq (announce ops StateStoppingBackend MsgStopping details) (\<lambda>stateErr.
        case attempt of
          None \<Rightarrow> finish_cancelled ops n [stateErr] stateErr primary details
        | Some a \<Rightarrow>
            if at_process a = None then finish_cancelled ops n [stateErr] stateErr primary details
            else
              seq (await_cleanup ops n a (BeforeControlClose ops = None) stateErr) (\<lambda>(cleanup, controlErr).
              finalize_cancel ops n cleanup controlErr stateErr primary details))))))"

definition first_error :: "go_error option \<Rightarrow> go_error option \<Rightarrow> go_error option" where
  "first_error a b = (if a = None then b else a)"

text \<open>The warnings about a backend that had to be terminated and about reaped orphans. The table of
  errors is in Protocol_Errors; both codes are in it, so the event can always be built.\<close>

definition maxReportedOrphans :: nat where
  "maxReportedOrphans = 20"

definition orphan_json :: "ProcessInfo \<Rightarrow> json" where
  "orphan_json i = JObject [(''pid'', JNumber (decimal (pi_PID i))), (''executable'', JString (pi_Executable i))]"

definition orphan_details :: "processCleanup \<Rightarrow> backend_details" where
  "orphan_details c =
     (let count = (if pc_orphansUnknown c \<and> pc_orphans c = [] then -1 else int (length (pc_orphans c))) in
      (pc_details c)(''orphanCount'' \<mapsto> JNumber (decimal_int count),
        ''orphans'' \<mapsto> JArray (map orphan_json (take maxReportedOrphans (pc_orphans c))),
        ''orphansTruncated'' \<mapsto> JBool (maxReportedOrphans < length (pc_orphans c))))"

definition emit_warning :: "'w deps \<Rightarrow> Code \<Rightarrow> backend_details \<Rightarrow> 'w supervision \<Rightarrow> go_error option option \<times> 'w supervision" where
  "emit_warning ops code details =
     seq (act (Warned code)) (\<lambda>_.
     seq (call (EmitWarningEvent ops code details)) (\<lambda>err.
     ret (case err of None \<Rightarrow> None
          | Some _ \<Rightarrow> Some (newBackendError CodeOutputWriteFailed StageBackendShutdown Map.empty err))))"

definition emitOrphansWarning :: "'w deps \<Rightarrow> processCleanup \<Rightarrow> 'w supervision \<Rightarrow> go_error option option \<times> 'w supervision" where
  "emitOrphansWarning ops c = emit_warning ops CodeBackendOrphansReaped (orphan_details c)"

definition emitForceWarning :: "'w deps \<Rightarrow> backend_details \<Rightarrow> 'w supervision \<Rightarrow> go_error option option \<times> 'w supervision" where
  "emitForceWarning ops details = emit_warning ops CodeBackendForceTerminated details"

text \<open>Asking the backend to close, unless it has exited already, and whether it did in time.\<close>

definition ask_to_close ::
  "'w deps \<Rightarrow> nat \<Rightarrow> 'w supervision \<Rightarrow> (go_error option \<times> bool) option \<times> 'w supervision" where
  "ask_to_close ops p =
     seq (call (HasExited ops p)) (\<lambda>exited.
     if exited then ret (None, True)
     else
       seq (act AskedToClose) (\<lambda>_.
       seq (call (CloseHTTP ops)) (\<lambda>httpErr.
       if httpErr \<noteq> None then ret (httpErr, False)
       else seq (call (WaitExit ops p)) (\<lambda>inTime. ret (None, inTime)))))"

definition shutdownTimeout :: "'w deps \<Rightarrow> backend_request \<Rightarrow> int" where
  "shutdownTimeout ops request =
     (if 0 < rq_shutdownTimeout request then rq_shutdownTimeout request
      else if 0 < ShutdownTimeoutDep ops then ShutdownTimeoutDep ops
      else 5000000000)"

text \<open>The end of a shutdown: stopped, or a failure of the resources.\<close>

definition finish_shutdown ::
  "'w deps \<Rightarrow> nat \<Rightarrow> ('w supervision \<Rightarrow> go_error option option \<times> 'w supervision) \<Rightarrow> go_error option \<Rightarrow>
     backend_details \<Rightarrow> 'w supervision \<Rightarrow> go_error option option \<times> 'w supervision" where
  "finish_shutdown ops n warn outputErr details =
     seq (closeResources ops) (\<lambda>resourceErr.
     if resourceErr \<noteq> None then emitControlFailure ops n (Join [outputErr, resourceErr])
     else
       seq warn (\<lambda>warnErr.
       seq (announce ops StateStopped MsgStopped details) (\<lambda>stoppedErr.
       ret (first_error (first_error outputErr warnErr) stoppedErr))))"

definition finishControlShutdown ::
  "'w deps \<Rightarrow> nat \<Rightarrow> controlAttempt option \<Rightarrow> string \<Rightarrow> 'w supervision \<Rightarrow> go_error option option \<times> 'w supervision" where
  "finishControlShutdown ops n attempt commandID =
     (let details = command_details commandID in
      seq (if attempt = None then closeControlBeforeShutdown ops n commandID
           else seq (case BeforeShutdown ops of
                       None \<Rightarrow> ret ()
                     | Some f \<Rightarrow> seq (act StoppedAccepting) (\<lambda>_. call (f commandID))) (\<lambda>_. ret None)) (\<lambda>controlErr.
      if controlErr \<noteq> None then ret controlErr
      else
        seq (call (SetControlStage ops StageBackendShutdown)) (\<lambda>_.
        seq (announce ops StateStoppingBackend MsgStopping details) (\<lambda>outputErr.
        case (case attempt of None \<Rightarrow> None | Some a \<Rightarrow> at_process a) of
          None \<Rightarrow> finish_shutdown ops n (ret None) outputErr details
        | Some p \<Rightarrow>
            let a = the attempt in
            seq (ask_to_close ops p) (\<lambda>(httpErr, graceful).
            seq (cleanupProcess ops (Some p) (Some (at_tx a)) (Some (at_logger a))) (\<lambda>cleanup.
            if pc_err cleanup \<noteq> None then
              emitControlFailure ops n
                (if graceful then Join [outputErr, pc_err cleanup]
                 else Join [outputErr, Some (newBackendError CodeBackendShutdownFailed StageBackendCleanup
                                               (pc_details cleanup) httpErr), pc_err cleanup])
            else
              finish_shutdown ops n
                (if \<not> graceful \<or> pc_rootForced cleanup then emitForceWarning ops (pc_details cleanup)
                 else if pc_forced cleanup then emitOrphansWarning ops cleanup
                 else ret None) outputErr details))))))"

definition finishControlShutdownInterrupt ::
  "'w deps \<Rightarrow> nat \<Rightarrow> string \<Rightarrow> 'w supervision \<Rightarrow> go_error option option \<times> 'w supervision" where
  "finishControlShutdownInterrupt ops n commandID =
     seq (get cs_status) (\<lambda>status.
     if status = StateReadyToStart then closeControlBeforeShutdown ops n commandID
     else finishControlShutdown ops n None commandID)"

text \<open>The result of \<open>finishLatchedControl\<close> is \<open>None\<close> when no terminal command is latched.\<close>

definition finish_command ::
  "'w deps \<Rightarrow> nat \<Rightarrow> controlAttempt option \<Rightarrow> ControlCommand \<Rightarrow> 'w supervision \<Rightarrow> go_error option option \<times> 'w supervision" where
  "finish_command ops n attempt c =
     (if cc_command c = ControlCancel then finishControlCancel ops n attempt (cc_commandId c)
      else finishControlShutdown ops n attempt (cc_commandId c))"

definition finish_interrupt ::
  "'w deps \<Rightarrow> nat \<Rightarrow> ControlCommand \<Rightarrow> 'w supervision \<Rightarrow> go_error option option \<times> 'w supervision" where
  "finish_interrupt ops n c =
     (if cc_command c = ControlCancel then
        seq (closeControlBeforeCancel ops n) (\<lambda>e. ret (Join [e, Some (newControlCancelled (cc_commandId c))]))
      else finishControlShutdownInterrupt ops n (cc_commandId c))"

definition finishLatchedControl ::
  "'w deps \<Rightarrow> nat \<Rightarrow> controlAttempt option \<Rightarrow> 'w supervision \<Rightarrow> go_error option option option \<times> 'w supervision" where
  "finishLatchedControl ops n attempt =
     seq (call (LatchedCommand ops)) (\<lambda>latch.
     if latch = None then ret None
     else
       seq (drainUntilTerminal ops n) (\<lambda>r.
       case r of
         Inl e \<Rightarrow> ret (Some (Some e))
       | Inr c \<Rightarrow>
           seq (if attempt = None then finish_interrupt ops n c else finish_command ops n attempt c) (\<lambda>e.
           ret (Some e))))"


section \<open>What a supervision keeps\<close>

text \<open>The life cycle table, and the one step beside it that the supervisor takes: a backend that fails
  before its start was announced.\<close>

definition may_follow :: "StateStatus \<Rightarrow> StateStatus \<Rightarrow> bool" where
  "may_follow a b \<longleftrightarrow> IsKnownLifecycleTransition a b \<or> (a = StateReadyToStart \<and> b = StateBackendFailed)"

definition last_status :: "StateStatus list \<Rightarrow> StateStatus" where
  "last_status xs = (case xs of [] \<Rightarrow> StateReadyToStart | x # _ \<Rightarrow> x)"

fun path_ok :: "StateStatus list \<Rightarrow> bool" where
  "path_ok [] = True"
| "path_ok (x # xs) \<longleftrightarrow> may_follow (last_status xs) x \<and> path_ok xs"

definition live_statuses :: "StateStatus list" where
  "live_statuses = [StateStartingBackend, StateRunning, StateRestarting]"

text \<open>The resources, once the lease is acquired: open with the lease held, or closed once each.\<close>

definition resources_ok :: "observation \<Rightarrow> bool" where
  "resources_ok ob \<longleftrightarrow>
     (case o_lease ob of
        None \<Rightarrow> False
      | Some l \<Rightarrow>
          if o_resources ob then o_leases ob = [] \<and> o_stateClosed ob = 1 \<and> o_lockClosed ob = 1
          else o_leases ob = [l] \<and> o_stateClosed ob = 0 \<and> o_lockClosed ob = 0)"

definition safe :: "observation \<Rightarrow> bool" where
  "safe ob \<longleftrightarrow>
     path_ok (o_announced ob) \<and> count_list (o_announced ob) StateRestarting \<le> 1 \<and>
     o_starts ob \<le> 1 + count_list (o_announced ob) StateRestarting \<and> o_verified ob \<and>
     length (o_live ob) \<le> 1 \<and> length (o_txs ob) \<le> 1 \<and> length (o_logs ob) \<le> 1 \<and> resources_ok ob"

definition owns :: "controlAttempt option \<Rightarrow> observation \<Rightarrow> bool" where
  "owns attempt ob \<longleftrightarrow>
     (case attempt of
        None \<Rightarrow> o_live ob = [] \<and> o_txs ob = [] \<and> o_logs ob = []
      | Some a \<Rightarrow> (\<exists>p. at_process a = Some p \<and> o_live ob = [p]) \<and> o_txs ob = [at_tx a] \<and> o_logs ob = [at_logger a])"

text \<open>The status in the snapshot says \<open>ready_to_start\<close> or a live status was announced last.\<close>

definition active :: "observation \<Rightarrow> bool" where
  "active ob \<longleftrightarrow> last_status (o_announced ob) \<in> set live_statuses"

definition status_ok :: "observation \<Rightarrow> bool" where
  "status_ok ob \<longleftrightarrow> last_status (o_announced ob) \<in> set (StateReadyToStart # live_statuses) \<and>
     (o_status ob = StateReadyToStart \<or> active ob)"

definition over :: "observation \<Rightarrow> bool" where
  "over ob \<longleftrightarrow> safe ob \<and> owns None ob"

lemma last_status_simps [simp]: "last_status [] = StateReadyToStart" "last_status (x # xs) = x"
  by (simp_all add: last_status_def)

lemma may_follow_simps [simp]:
  "may_follow StateReadyToStart StateStartingBackend" "may_follow StateStartingBackend StateRunning"
  "may_follow StateRestarting StateRunning" "may_follow StateRunning StateRestarting"
  "may_follow StateStoppingBackend StateStopped" "may_follow StateStoppingBackend StateBackendFailed"
  "x \<in> set live_statuses \<Longrightarrow> may_follow x StateStoppingBackend"
  "x \<in> set (StateReadyToStart # live_statuses) \<Longrightarrow> may_follow x StateBackendFailed"
  by (auto simp: may_follow_def live_statuses_def IsKnownLifecycleTransition_def lifecycleTransitions_def)

lemma statuses_differ [simp]:
  "StateStoppingBackend \<noteq> StateRestarting" "StateStopped \<noteq> StateRestarting" "StateBackendFailed \<noteq> StateRestarting"
  by simp_all

lemma wp_set_snapshot:
  "(\<And>s'. obs s' = (obs s)\<lparr>o_status := status\<rparr> \<Longrightarrow> Q () s') \<Longrightarrow> wp (set_snapshot stage status details) Q W s"
  unfolding set_snapshot_def by (rule wp_upd) simp

lemma wp_answer_status:
  "(\<And>e s'. obs s' = obs s \<Longrightarrow> Q e s') \<Longrightarrow> wp (answer_status ops c) Q W s"
  unfolding answer_status_def by (intro wp_seq wp_get wp_case_prod wp_emitState) simp

lemma wp_set_close_error:
  "(\<And>s'. obs s' = obs s \<Longrightarrow> Q () s') \<Longrightarrow> wp (set_close_error e) Q W s"
  unfolding set_close_error_def by (rule wp_upd) simp

lemma wp_close_drain:
  assumes "\<And>s'. obs s' = obs s \<Longrightarrow> Q () s'" and "\<And>s'. obs s' = obs s \<Longrightarrow> W s'"
  shows "wp (close_drain ops n) Q W s"
proof -
  have "wp (close_drain ops n) (\<lambda>_ s'. obs s' = obs s) (\<lambda>s'. obs s' = obs s) s"
  proof (induction n arbitrary: s)
    case (Suc n)
    have again: "wp (close_drain ops n) (\<lambda>_ t. obs t = obs s) (\<lambda>t. obs t = obs s) s'" if "obs s' = obs s" for s'
      using Suc[of s'] that by simp
    show ?case
      unfolding close_drain.simps
      by (intro wp_seq wp_call_obs wp_branches wp_set_close_error wp_ret wp_get wp_if wp_answer_status
          again) simp_all
  qed (simp add: wp_waiting)
  then show ?thesis by (rule wp_weaken) (use assms in auto)
qed


lemma wp_close_once:
  assumes "\<And>e s'. obs s' = obs s \<Longrightarrow> Q e s'" and "\<And>s'. obs s' = obs s \<Longrightarrow> W s'"
  shows "wp (close_once ops n before skip) Q W s"
proof -
  have once: "wp (upd (\<lambda>s. s\<lparr>cs_closeOnce := True\<rparr>)) P V t" if "\<And>t'. obs t' = obs t \<Longrightarrow> P () t'" for P V and t :: "'a supervision"
    using that by (intro wp_upd) simp
  have closed: "wp (upd (\<lambda>s. s\<lparr>cs_controlClosed := True\<rparr>)) P V t" if "\<And>t'. obs t' = obs t \<Longrightarrow> P () t'" for P V and t :: "'a supervision"
    using that by (intro wp_upd) simp
  show ?thesis
    unfolding close_once_def
    by (intro wp_seq wp_get wp_if once closed wp_case_option wp_ret wp_act_obs wp_call_obs wp_close_drain)
       (auto intro: assms)
qed

lemmas close_defs = closeControlBeforeFailure_def closeControlAndDrain_def closeControlBeforeCancel_def
  closeControlBeforeShutdown_def

lemma wp_close_control:
  assumes "\<And>e s'. obs s' = obs s \<Longrightarrow> Q e s'" and "\<And>s'. obs s' = obs s \<Longrightarrow> W s'"
  shows "wp (closeControlBeforeFailure ops n b) Q W s" "wp (closeControlBeforeCancel ops n) Q W s"
    "wp (closeControlBeforeShutdown ops n c) Q W s"
  unfolding close_defs by (rule wp_close_once; rule assms; assumption)+

definition same_but_resources :: "observation \<Rightarrow> observation \<Rightarrow> bool" where
  "same_but_resources ob ob' \<longleftrightarrow>
     ob' = ob\<lparr>o_leases := o_leases ob', o_stateClosed := o_stateClosed ob', o_lockClosed := o_lockClosed ob',
              o_resources := o_resources ob'\<rparr>"

lemma same_but_resources_fields:
  assumes "same_but_resources ob ob'"
  shows "o_announced ob' = o_announced ob" "o_starts ob' = o_starts ob" "o_verified ob' = o_verified ob"
    "o_live ob' = o_live ob" "o_txs ob' = o_txs ob" "o_logs ob' = o_logs ob" "o_status ob' = o_status ob"
    "o_lease ob' = o_lease ob" "o_env ob' = o_env ob" "o_repo ob' = o_repo ob"
  by (subst assms[unfolded same_but_resources_def]; simp)+

lemma wp_closeResources:
  assumes "\<And>e s'. same_but_resources (obs s) (obs s') \<Longrightarrow>
      (resources_ok (obs s) \<Longrightarrow> resources_ok (obs s') \<and> (o_lease (obs s) = None \<or> o_resources (obs s'))) \<Longrightarrow>
      Q e s'"
  shows "wp (closeResources ops) Q W s"
proof -
  have mark: "wp (upd (\<lambda>s. s\<lparr>rs_once := True, rs_err := e\<rparr>)) P V t"
    if "\<And>t'. obs t' = (obs t)\<lparr>o_resources := True\<rparr> \<Longrightarrow> P () t'" for P V e and t :: "'a supervision"
    using that by (intro wp_upd) simp
  show ?thesis
    unfolding closeResources_def
    by (intro wp_seq wp_get wp_case_prod wp_case_option wp_if wp_ret wp_act_obs wp_call_obs wp_let mark assms)
       (auto simp: same_but_resources_def resources_ok_def)
qed

lemma safe_same: "safe ob \<Longrightarrow> same_but_resources ob ob' \<Longrightarrow> resources_ok ob' \<Longrightarrow> safe ob'"
  by (simp add: safe_def same_but_resources_fields)

lemma owns_same: "owns a ob \<Longrightarrow> same_but_resources ob ob' \<Longrightarrow> owns a ob'"
  by (auto simp: owns_def same_but_resources_fields split: option.splits)

lemma resources_ok_fields [simp]:
  "resources_ok (ob\<lparr>o_announced := x\<rparr>) = resources_ok ob" "resources_ok (ob\<lparr>o_status := y\<rparr>) = resources_ok ob"
  "resources_ok (ob\<lparr>o_live := ps\<rparr>) = resources_ok ob" "resources_ok (ob\<lparr>o_txs := ts\<rparr>) = resources_ok ob"
  "resources_ok (ob\<lparr>o_logs := ls\<rparr>) = resources_ok ob" "resources_ok (ob\<lparr>o_env := e\<rparr>) = resources_ok ob"
  "resources_ok (ob\<lparr>o_repo := r\<rparr>) = resources_ok ob" "resources_ok (ob\<lparr>o_starts := n\<rparr>) = resources_ok ob"
  "resources_ok (ob\<lparr>o_verified := v\<rparr>) = resources_ok ob"
  by (simp_all add: resources_ok_def split: option.splits)

text \<open>Announcing a status other than \<open>restarting\<close>.\<close>

lemma safe_announce:
  "safe ob \<Longrightarrow> may_follow (last_status (o_announced ob)) x \<Longrightarrow> x \<noteq> StateRestarting \<Longrightarrow>
     safe (ob\<lparr>o_announced := x # o_announced ob\<rparr>)"
  by (simp add: safe_def)

lemma safe_status [simp]: "safe (ob\<lparr>o_status := x\<rparr>) = safe ob"
  by (simp add: safe_def)

lemma owns_announce [simp]:
  "owns a (ob\<lparr>o_announced := x\<rparr>) = owns a ob" "owns a (ob\<lparr>o_status := y\<rparr>) = owns a ob"
  by (auto simp: owns_def split: option.splits)

lemma safe_released: "safe ob \<Longrightarrow> safe (released p t l ob)"
  by (auto simp: safe_def released_def length_remove1 split: option.splits)

lemma owns_released:
  "owns (Some a) ob \<Longrightarrow> owns None (released (at_process a) (Some (at_tx a)) (Some (at_logger a)) ob)"
  by (auto simp: owns_def released_def)

lemma announced_released [simp]:
  "o_announced (released p t l ob) = o_announced ob" "o_status (released p t l ob) = o_status ob"
  by (simp_all add: released_def)

lemma wp_emitControlFailure:
  assumes "safe (obs s)" "owns None (obs s)"
    and "last_status (o_announced (obs s)) \<in> set (StateReadyToStart # StateStoppingBackend # live_statuses)"
    and "\<And>e s'. over (obs s') \<Longrightarrow> Q e s'" and "\<And>s'. safe (obs s') \<Longrightarrow> W s'"
  shows "wp (emitControlFailure ops n err) Q W s"
proof -
  have follow: "may_follow (last_status (o_announced (obs s))) StateBackendFailed"
    using assms(3) may_follow_simps(6,8) by auto
  have failed: "over (ob\<lparr>o_announced := StateBackendFailed # o_announced (obs s)\<rparr>)"
    if "ob = (obs s)\<lparr>o_status := StateBackendFailed\<rparr>" for ob
    using assms(1,2) follow that safe_announce[of ob StateBackendFailed] by (simp add: over_def)
  show ?thesis
    unfolding emitControlFailure_def
    by (intro wp_case_option wp_ret wp_seq wp_close_control wp_let wp_set_snapshot wp_call_obs wp_emitState)
       (use assms failed in \<open>auto simp: over_def\<close>)
qed

end
