(* ===== verification/Backend_Ending.thy ===== *)
theory Backend_Ending
  imports Backend_Control
begin

text \<open>
  What the endings of a supervision leave behind. Started with an attempt that owns everything that
  is open, and with a status from which a supervision may end, each of them closes what is open and
  announces only statuses that may follow one another.
\<close>

definition can_end :: "controlAttempt option \<Rightarrow> observation \<Rightarrow> bool" where
  "can_end attempt ob \<longleftrightarrow>
     safe ob \<and> owns attempt ob \<and> status_ok ob \<and> (attempt \<noteq> None \<longrightarrow> active ob)"

lemma wp_drain_loop:
  assumes "\<And>r s'. obs s' = obs s \<Longrightarrow> Q r s'" and "\<And>s'. obs s' = obs s \<Longrightarrow> W s'"
  shows "wp (drain_loop ops latch n) Q W s"
proof -
  have "wp (drain_loop ops latch n) (\<lambda>_ s'. obs s' = obs s) (\<lambda>s'. obs s' = obs s) s"
  proof (induction n arbitrary: s)
    case (Suc n)
    have again: "wp (drain_loop ops latch n) (\<lambda>_ t. obs t = obs s) (\<lambda>t. obs t = obs s) s'" if "obs s' = obs s" for s'
      using Suc[of s'] that by simp
    show ?case
      unfolding drain_loop.simps
      by (intro wp_seq wp_get wp_call_obs wp_case_option wp_branches wp_if wp_answer_status wp_ret again) simp_all
  qed (simp add: wp_waiting)
  then show ?thesis by (rule wp_weaken) (use assms in auto)
qed

lemma wp_drainUntilTerminal:
  assumes "\<And>r s'. obs s' = obs s \<Longrightarrow> Q r s'" and "\<And>s'. obs s' = obs s \<Longrightarrow> W s'"
  shows "wp (drainUntilTerminal ops n) Q W s"
  unfolding drainUntilTerminal_def by (intro wp_seq wp_call_obs wp_drain_loop) (simp_all add: assms)

lemma wp_announce:
  assumes "\<And>e s'. obs s' = (obs s)\<lparr>o_status := status, o_announced := status # o_announced (obs s)\<rparr> \<Longrightarrow> Q e s'"
    and "message \<noteq> MsgSnapshot"
  shows "wp (announce ops status message details) Q W s"
  unfolding announce_def
  by (intro wp_seq wp_set_snapshot wp_emitState) (simp add: assms)

lemma wp_await_channel:
  assumes "\<And>e s'. obs s' = obs s \<Longrightarrow> Q e s'" and "\<And>s'. obs s' = obs s \<Longrightarrow> W s'"
  shows "wp (await_channel ops n controlErr) Q W s"
proof -
  have "wp (await_channel ops n controlErr) (\<lambda>_ s'. obs s' = obs s) (\<lambda>s'. obs s' = obs s) s"
  proof (induction n arbitrary: s controlErr)
    case (Suc n)
    have again: "wp (await_channel ops n c) (\<lambda>_ t. obs t = obs s) (\<lambda>t. obs t = obs s) s'" if "obs s' = obs s" for s' c
      using Suc[of c s'] that by simp
    show ?case
      unfolding await_channel.simps
      by (intro wp_seq wp_call_obs wp_branches wp_if wp_answer_status wp_ret again) simp_all
  qed (simp add: wp_waiting)
  then show ?thesis by (rule wp_weaken) (use assms in auto)
qed

lemma wp_close_control_once:
  assumes "\<And>s'. obs s' = obs s \<Longrightarrow> Q () s'"
  shows "wp (close_control_once ops) Q W s"
proof -
  have closed: "wp (upd (\<lambda>s. s\<lparr>cs_controlClosed := True\<rparr>)) P V t" if "\<And>t'. obs t' = obs t \<Longrightarrow> P () t'" for P V and t :: "'a supervision"
    using that by (intro wp_upd) simp
  show ?thesis
    unfolding close_control_once_def
    by (intro wp_seq wp_case_option wp_ret wp_act_obs wp_call_obs closed) (simp_all add: assms)
qed

lemma wp_await_cleanup:
  assumes "at_process a = Some p"
    and "\<And>r s'. obs s' = released (Some p) (Some (at_tx a)) (Some (at_logger a)) (obs s) \<Longrightarrow> Q r s'"
    and "\<And>s'. obs s' = obs s \<or> obs s' = released (Some p) (Some (at_tx a)) (Some (at_logger a)) (obs s) \<Longrightarrow> W s'"
  shows "wp (await_cleanup ops n a ended controlErr) Q W s"
proof -
  let ?r = "released (Some p) (Some (at_tx a)) (Some (at_logger a))"
  have "wp (await_cleanup ops n a ended controlErr) (\<lambda>_ s'. obs s' = ?r (obs s))
      (\<lambda>s'. obs s' = obs s \<or> obs s' = ?r (obs s)) s"
  proof (induction n arbitrary: s ended controlErr)
    case (Suc n)
    have again: "wp (await_cleanup ops n a e c) (\<lambda>_ t. obs t = ?r (obs s)) (\<lambda>t. obs t = obs s \<or> obs t = ?r (obs s)) s'"
      if "obs s' = obs s" for s' e c
      using Suc[of e c s'] that by simp
    show ?case
      unfolding await_cleanup.simps assms(1)
      by (intro wp_seq wp_call_obs wp_branches wp_if wp_answer_status wp_ret again wp_cleanupProcess
          wp_close_control_once wp_await_channel) simp_all
  qed (simp add: wp_waiting)
  then show ?thesis by (rule wp_weaken) (use assms in auto)
qed

text \<open>A supervision that has announced that it stops, and whose process is gone.\<close>

definition stopping :: "observation \<Rightarrow> bool" where
  "stopping ob \<longleftrightarrow> safe ob \<and> owns None ob \<and> last_status (o_announced ob) = StateStoppingBackend"

lemma stopping_same: "stopping ob \<Longrightarrow> same_but_resources ob ob' \<Longrightarrow> resources_ok ob' \<Longrightarrow> stopping ob'"
  by (auto simp: stopping_def same_but_resources_fields intro: safe_same owns_same)

lemma safe_resources [simp]: "safe ob \<Longrightarrow> resources_ok ob"
  by (simp add: safe_def)

lemma stopping_stopped: "stopping ob \<Longrightarrow> over (ob\<lparr>o_status := x, o_announced := StateStopped # o_announced ob\<rparr>)"
  using safe_announce[of "ob\<lparr>o_status := x\<rparr>" StateStopped] by (simp add: stopping_def over_def)

lemma wp_stopping_failed:
  assumes "stopping (obs s)" "\<And>e s'. over (obs s') \<Longrightarrow> Q e s'" "\<And>s'. safe (obs s') \<Longrightarrow> W s'"
  shows "wp (emitControlFailure ops n err) Q W s"
  by (rule wp_emitControlFailure) (use assms in \<open>simp_all add: stopping_def\<close>)

lemma wp_closeResources_stopping:
  assumes "stopping (obs s)" "\<And>e s'. stopping (obs s') \<Longrightarrow> Q e s'"
  shows "wp (closeResources ops) Q W s"
proof (rule wp_closeResources)
  fix e and s' :: "'a supervision"
  assume same: "same_but_resources (obs s) (obs s')"
    and "resources_ok (obs s) \<Longrightarrow> resources_ok (obs s') \<and> (o_lease (obs s) = None \<or> o_resources (obs s'))"
  then have "resources_ok (obs s')" using assms(1) by (simp add: stopping_def)
  then show "Q e s'" using stopping_same assms same by blast
qed

lemma wp_finish_cancelled:
  assumes "stopping (obs s)" "\<And>e s'. over (obs s') \<Longrightarrow> Q e s'" "\<And>s'. safe (obs s') \<Longrightarrow> W s'"
  shows "wp (finish_cancelled ops n failures stateErr primary details) Q W s"
  unfolding finish_cancelled_def
  by (intro wp_case_option wp_seq wp_if wp_ret wp_stopping_failed wp_closeResources_stopping wp_announce)
     (use assms stopping_stopped in auto)

lemma wp_finish_shutdown:
  assumes "stopping (obs s)" "\<And>e s'. over (obs s') \<Longrightarrow> Q e s'" "\<And>s'. safe (obs s') \<Longrightarrow> W s'"
    and "\<And>t P V. (\<And>e t'. obs t' = obs t \<Longrightarrow> P e t') \<Longrightarrow> wp warn P V t"
  shows "wp (finish_shutdown ops n warn outputErr details) Q W s"
  unfolding finish_shutdown_def
  by (intro wp_seq wp_if wp_ret wp_stopping_failed wp_closeResources_stopping assms(4) wp_announce)
     (use assms(1-3) stopping_stopped in auto)

text \<open>Announcing the stop, and releasing the process then.\<close>

lemma stopping_announced:
  assumes "can_end attempt ob" "active ob"
  shows "safe (ob\<lparr>o_status := x, o_announced := StateStoppingBackend # o_announced ob\<rparr>)"
    "owns attempt (ob\<lparr>o_status := x, o_announced := StateStoppingBackend # o_announced ob\<rparr>)"
  using assms safe_announce[of "ob\<lparr>o_status := x\<rparr>" StateStoppingBackend]
  by (auto simp: can_end_def active_def)

lemma stopping_released:
  assumes "can_end (Some a) ob" "at_process a = Some p"
    and "ob' = released (Some p) (Some (at_tx a)) (Some (at_logger a))
          (ob\<lparr>o_status := x, o_announced := StateStoppingBackend # o_announced ob\<rparr>)"
  shows "stopping ob'"
proof -
  let ?ob = "ob\<lparr>o_status := x, o_announced := StateStoppingBackend # o_announced ob\<rparr>"
  have "safe ?ob" "owns (Some a) ?ob" using stopping_announced[of "Some a" ob] assms(1) by (auto simp: can_end_def)
  then show ?thesis
    using safe_released owns_released[of a ?ob] assms(2,3) by (simp add: stopping_def)
qed

lemma can_end_status: "can_end None ob \<Longrightarrow> o_status ob \<noteq> StateReadyToStart \<Longrightarrow> active ob"
  by (auto simp: can_end_def status_ok_def)

lemma can_end_over: "can_end None ob \<Longrightarrow> over ob"
  by (simp add: can_end_def over_def)

lemma can_end_safe: "can_end attempt ob \<Longrightarrow> safe ob"
  by (simp add: can_end_def)

lemma wp_finishControlCancel:
  assumes "can_end attempt (obs s)" "\<And>e s'. over (obs s') \<Longrightarrow> Q e s'" "\<And>s'. safe (obs s') \<Longrightarrow> W s'"
  shows "wp (finishControlCancel ops n attempt commandID) Q W s"
proof (cases attempt)
  case None
  have stop: "stopping ob" if "ob = (obs s)\<lparr>o_status := StateStoppingBackend, o_announced := StateStoppingBackend # o_announced (obs s)\<rparr>"
      "o_status (obs s) \<noteq> StateReadyToStart" for ob
    using stopping_announced[of None "obs s"] can_end_status assms(1) None that by (simp add: stopping_def)
  show ?thesis
    unfolding finishControlCancel_def Let_def None option.case
    by (simp; intro wp_seq wp_close_control wp_if wp_ret wp_get wp_call_obs wp_announce wp_finish_cancelled)
       (use assms None stop in \<open>auto simp: can_end_over can_end_safe\<close>)
next
  case (Some a)
  then obtain p where p: "at_process a = Some p"
    using assms(1) by (auto simp: can_end_def owns_def)
  have act: "active (obs s)" using assms(1) Some by (simp add: can_end_def)
  note announced = stopping_announced(1)[OF assms(1) act]
  have stop: "stopping ob" if "ob = released (Some p) (Some (at_tx a)) (Some (at_logger a))
      ((obs s)\<lparr>o_status := StateStoppingBackend, o_announced := StateStoppingBackend # o_announced (obs s)\<rparr>)" for ob
    using stopping_released p assms(1) Some that by blast
  show ?thesis
    unfolding finishControlCancel_def finalize_cancel_def Let_def Some option.case option.sel p
    by (simp; intro wp_seq wp_if wp_ret wp_get wp_call_obs wp_announce wp_finish_cancelled wp_case_prod
        wp_await_cleanup[OF p])
       (use assms Some stop announced in \<open>auto simp: stopping_def\<close>)
qed

lemma wp_ask_to_close:
  "(\<And>r s'. obs s' = obs s \<Longrightarrow> Q r s') \<Longrightarrow> wp (ask_to_close ops p) Q W s"
  unfolding ask_to_close_def by (intro wp_seq wp_call_obs wp_act_obs wp_if wp_ret) simp_all

lemma wp_warnings:
  assumes "\<And>e s'. obs s' = obs s \<Longrightarrow> Q e s'"
  shows "wp (emitForceWarning ops d) Q W s" "wp (emitOrphansWarning ops c) Q W s" "wp (ret None) Q W s"
  unfolding emitForceWarning_def emitOrphansWarning_def emit_warning_def
  by (intro wp_seq wp_call_obs wp_act_obs wp_ret; simp add: assms)+

lemma wp_before_shutdown:
  assumes "\<And>s'. obs s' = obs s \<Longrightarrow> Q () s'"
  shows "wp (case BeforeShutdown ops of None \<Rightarrow> ret () | Some f \<Rightarrow> seq (act StoppedAccepting) (\<lambda>_. call (f c))) Q W s"
  by (intro wp_case_option wp_seq wp_act_obs wp_call_obs wp_ret) (simp_all add: assms)

lemma wp_finishControlShutdown:
  assumes "can_end attempt (obs s)" "active (obs s)"
    "\<And>e s'. over (obs s') \<Longrightarrow> Q e s'" "\<And>s'. safe (obs s') \<Longrightarrow> W s'"
  shows "wp (finishControlShutdown ops n attempt commandID) Q W s"
proof (cases attempt)
  case None
  have stop: "stopping ob" if "ob = (obs s)\<lparr>o_status := StateStoppingBackend, o_announced := StateStoppingBackend # o_announced (obs s)\<rparr>" for ob
    using stopping_announced[of None "obs s"] assms(1,2) None that by (simp add: stopping_def)
  show ?thesis
    unfolding finishControlShutdown_def Let_def None option.case
    by (simp; intro wp_seq wp_close_control wp_if wp_ret wp_get wp_call_obs wp_announce wp_finish_shutdown)
       (use assms None stop in \<open>auto simp: can_end_over can_end_safe intro: wp_ret\<close>)
next
  case (Some a)
  then obtain p where p: "at_process a = Some p"
    using assms(1) by (auto simp: can_end_def owns_def)
  have stop: "stopping ob" if "ob = released (Some p) (Some (at_tx a)) (Some (at_logger a))
      ((obs s)\<lparr>o_status := StateStoppingBackend, o_announced := StateStoppingBackend # o_announced (obs s)\<rparr>)" for ob
    using stopping_released p assms(1) Some that by blast
  show ?thesis
    unfolding finishControlShutdown_def Let_def Some option.case option.sel p
    by (simp; intro wp_seq wp_before_shutdown wp_if wp_ret wp_call_obs wp_announce wp_case_prod wp_ask_to_close
          wp_cleanupProcess wp_stopping_failed wp_finish_shutdown)
       (use assms(3,4) stop in \<open>auto intro: wp_warnings\<close>)
qed

lemma wp_finishControlShutdownInterrupt:
  assumes "can_end None (obs s)" "\<And>e s'. over (obs s') \<Longrightarrow> Q e s'" "\<And>s'. safe (obs s') \<Longrightarrow> W s'"
  shows "wp (finishControlShutdownInterrupt ops n commandID) Q W s"
  unfolding finishControlShutdownInterrupt_def
  by (intro wp_seq wp_get wp_if wp_close_control wp_finishControlShutdown)
     (use assms in \<open>auto simp: can_end_over can_end_safe can_end_status\<close>)

lemma wp_finish_command:
  assumes "can_end attempt (obs s)" "active (obs s)"
    "\<And>e s'. over (obs s') \<Longrightarrow> Q e s'" "\<And>s'. safe (obs s') \<Longrightarrow> W s'"
  shows "wp (finish_command ops n attempt c) Q W s"
  unfolding finish_command_def
  by (intro wp_if wp_finishControlCancel wp_finishControlShutdown) (use assms in simp_all)

lemma wp_finish_interrupt:
  assumes "can_end None (obs s)" "\<And>e s'. over (obs s') \<Longrightarrow> Q e s'" "\<And>s'. safe (obs s') \<Longrightarrow> W s'"
  shows "wp (finish_interrupt ops n c) Q W s"
  unfolding finish_interrupt_def
  by (intro wp_if wp_seq wp_close_control wp_ret wp_finishControlShutdownInterrupt)
     (use assms in \<open>auto simp: can_end_over can_end_safe\<close>)

text \<open>Without an attempt; and when no terminal command is latched.\<close>

lemma wp_finishLatchedControl:
  assumes "can_end None (obs s)" "\<And>s'. obs s' = obs s \<Longrightarrow> Q None s'"
    "\<And>e s'. over (obs s') \<Longrightarrow> Q (Some e) s'" "\<And>s'. safe (obs s') \<Longrightarrow> W s'"
  shows "wp (finishLatchedControl ops n None) Q W s"
  unfolding finishLatchedControl_def
  by (intro wp_seq wp_call_obs wp_if wp_ret wp_drainUntilTerminal wp_case_sum wp_finish_interrupt)
     (use assms in \<open>auto simp: can_end_over can_end_safe\<close>)

lemma wp_finishLatchedControl_quiet:
  assumes "\<And>l w. LatchedCommand ops (world s) = (l, w) \<Longrightarrow> l = None" "\<And>s'. obs s' = obs s \<Longrightarrow> Q None s'"
  shows "wp (finishLatchedControl ops n attempt) Q W s"
  unfolding finishLatchedControl_def by (intro wp_seq wp_call wp_if wp_ret) (use assms in auto)

end
