(* ===== verification/Backend_Attempt.thy ===== *)
theory Backend_Attempt
  imports Backend_Ending
begin

text \<open>
  One attempt to run the backend, from \<open>internal/backend/control.go\<close>: waiting for the preflight, for
  the delay of a restart and for the health check while control commands arrive, and
  \<open>startControlAttempt\<close>. A check that runs in a goroutine of its own runs here when its result is
  received; the only effects of the loop beside it are answers to status commands. The lemmas show
  that an attempt that fails leaves nothing open, and one that is interrupted or succeeds owns
  everything that is open.
\<close>

section \<open>Interrupts\<close>

text \<open>How a step ends. An interrupt is \<open>controlInterruptError\<close>: with a command, and the attempt that is
  still running; without a command it carries the failure of the reader. The type is private to the
  package and returned as it is, so \<open>errors.As\<close> finds it exactly where it was returned.\<close>

datatype 'a step_result =
    Went 'a
  | Interrupt ControlCommand "controlAttempt option"
  | ReaderBroke go_error
  | Failed go_error

definition unless_broken ::
  "'w deps \<Rightarrow> (go_error \<Rightarrow> 'w supervision \<Rightarrow> 'a option \<times> 'w supervision) \<Rightarrow>
     ('w supervision \<Rightarrow> 'a option \<times> 'w supervision) \<Rightarrow> 'w supervision \<Rightarrow> 'a option \<times> 'w supervision" where
  "unless_broken ops broke m =
     seq (call (InfraErr ops)) (\<lambda>infra. case infra of Some e \<Rightarrow> broke e | None \<Rightarrow> m)"

definition unless_latched ::
  "'w deps \<Rightarrow> nat \<Rightarrow> ('w supervision \<Rightarrow> 'a step_result option \<times> 'w supervision) \<Rightarrow> 'w supervision \<Rightarrow>
     'a step_result option \<times> 'w supervision" where
  "unless_latched ops n m =
     seq (call (LatchedCommand ops)) (\<lambda>latch.
     if latch = None then m
     else seq (drainUntilTerminal ops n) (\<lambda>r.
          ret (case r of Inl e \<Rightarrow> Failed e | Inr c \<Rightarrow> Interrupt c None)))"

definition ended_or ::
  "'w deps \<Rightarrow> 'a step_result \<Rightarrow> 'w supervision \<Rightarrow> 'a step_result option \<times> 'w supervision" where
  "ended_or ops r = seq (call (CtxErr ops)) (\<lambda>ended. ret (case ended of Some e \<Rightarrow> Failed e | None \<Rightarrow> r))"

section \<open>Waiting for the preflight\<close>

definition preflight_ended ::
  "'w deps \<Rightarrow> nat \<Rightarrow> ('w supervision \<Rightarrow> 'a step_result option \<times> 'w supervision) \<Rightarrow> 'w supervision \<Rightarrow>
     'a step_result option \<times> 'w supervision" where
  "preflight_ended ops n m =
     unless_broken ops (\<lambda>e. ret (Failed (reader_failure StageBackendSpawn e))) (unless_latched ops n m)"

primrec awaitControlPreflight ::
  "'w deps \<Rightarrow> backend_layout \<Rightarrow> backend_request \<Rightarrow> nat \<Rightarrow> 'w supervision \<Rightarrow>
     (EnvironmentState \<times> Revision) step_result option \<times> 'w supervision" where
  "awaitControlPreflight ops layout request 0 = waiting"
| "awaitControlPreflight ops layout request (Suc n) =
     unless_broken ops
       (\<lambda>e. seq (controlPreflight ops layout request) (\<lambda>_. ret (Failed (reader_failure StageBackendSpawn e))))
       (seq (call (NextPreflight ops)) (\<lambda>ev.
        case ev of
          PreflightDone \<Rightarrow>
            seq (controlPreflight ops layout request) (\<lambda>checked.
            preflight_ended ops n
              (ended_or ops (case checked of Inl e \<Rightarrow> Failed e | Inr facts \<Rightarrow> Went facts)))
        | PreflightCtxDone \<Rightarrow>
            seq (controlPreflight ops layout request) (\<lambda>_.
            preflight_ended ops n (ended_or ops (Went (zero_environment, zero_revision))))
        | PreflightResult r \<Rightarrow>
            (case r of
               ResultError e \<Rightarrow>
                 seq (controlPreflight ops layout request) (\<lambda>_.
                 preflight_ended ops n (ret (Failed (reader_failure StageBackendSpawn e))))
             | ResultCommand c \<Rightarrow>
                 if cc_command c = ControlStatus then
                   seq (answer_status ops (cc_commandId c)) (\<lambda>err.
                   case err of
                     Some e \<Rightarrow> seq (controlPreflight ops layout request) (\<lambda>_. ret (Failed e))
                   | None \<Rightarrow> awaitControlPreflight ops layout request n)
                 else if is_terminal c then
                   seq (controlPreflight ops layout request) (\<lambda>_.
                   unless_broken ops (\<lambda>e. ret (Failed (reader_failure StageBackendSpawn e)))
                     (ret (Interrupt c None)))
                 else awaitControlPreflight ops layout request n)))"

section \<open>The delay of a restart\<close>

definition restart_checks ::
  "'w deps \<Rightarrow> nat \<Rightarrow> ('w supervision \<Rightarrow> unit step_result option \<times> 'w supervision) \<Rightarrow> 'w supervision \<Rightarrow>
     unit step_result option \<times> 'w supervision" where
  "restart_checks ops n m =
     unless_broken ops (\<lambda>e. ret (Failed (reader_failure StageBackendRestart e))) (unless_latched ops n m)"

primrec restart_loop ::
  "'w deps \<Rightarrow> nat \<Rightarrow> 'w supervision \<Rightarrow> unit step_result option \<times> 'w supervision" where
  "restart_loop ops 0 = waiting"
| "restart_loop ops (Suc n) =
     restart_checks ops n
       (seq (call (NextRestart ops)) (\<lambda>ev.
        case ev of
          RestartCtxDone \<Rightarrow> restart_checks ops n (ended_or ops (Went ()))
        | TimerFired \<Rightarrow> restart_checks ops n (ended_or ops (Went ()))
        | RestartResult r \<Rightarrow>
            (case r of
               ResultError e \<Rightarrow> restart_checks ops n (ret (Failed (reader_failure StageBackendRestart e)))
             | ResultCommand c \<Rightarrow>
                 if cc_command c = ControlStatus then
                   seq (answer_status ops (cc_commandId c)) (\<lambda>err.
                   case err of Some e \<Rightarrow> ret (Failed e) | None \<Rightarrow> restart_loop ops n)
                 else if is_terminal c then
                   unless_broken ops (\<lambda>e. ret (Failed (reader_failure StageBackendRestart e)))
                     (ret (Interrupt c None))
                 else restart_loop ops n)))"

definition waitRestart :: "'w deps \<Rightarrow> nat \<Rightarrow> 'w supervision \<Rightarrow> unit step_result option \<times> 'w supervision" where
  "waitRestart ops n =
     (if RestartDelay ops \<le> 0 then ret (Went ())
      else
        seq (call (RestartTimer ops (RestartDelay ops))) (\<lambda>made.
        if \<not> made then ret (Failed (sentinel (PlainError ''backend restart timer is nil'')))
        else restart_loop ops n))"

section \<open>Waiting for the health check\<close>

definition health_expectation :: "backend_request \<Rightarrow> Revision \<Rightarrow> Expectation" where
  "health_expectation request revision =
     (let development = (modeForRequest request = ModeDevelopment) in
      \<lparr>ex_mode = (if development then ModeDevelopment else ModeManaged), ex_protocol = Version,
       ex_version = (if development then '''' else rev_version revision),
       ex_commit = (if development then '''' else rev_commit revision), ex_port = rq_port request\<rparr>)"

definition unless_fault ::
  "'w deps \<Rightarrow> nat \<Rightarrow> ('w supervision \<Rightarrow> unit step_result option \<times> 'w supervision) \<Rightarrow> 'w supervision \<Rightarrow>
     unit step_result option \<times> 'w supervision" where
  "unless_fault ops g m =
     seq (call (GateFault ops g)) (\<lambda>fault. case fault of Some e \<Rightarrow> ret (Failed e) | None \<Rightarrow> m)"

definition reader_broke :: "go_error \<Rightarrow> 'w supervision \<Rightarrow> 'a step_result option \<times> 'w supervision" where
  "reader_broke e = ret (ReaderBroke (reader_failure StageBackendHealth e))"

definition health_ended ::
  "'w deps \<Rightarrow> nat \<Rightarrow> nat \<Rightarrow> ('w supervision \<Rightarrow> unit step_result option \<times> 'w supervision) \<Rightarrow> 'w supervision \<Rightarrow>
     unit step_result option \<times> 'w supervision" where
  "health_ended ops n g m =
     unless_fault ops g (unless_broken ops reader_broke (unless_latched ops n m))"

primrec awaitHealth ::
  "'w deps \<Rightarrow> Expectation \<Rightarrow> nat \<Rightarrow> nat \<Rightarrow> 'w supervision \<Rightarrow> unit step_result option \<times> 'w supervision" where
  "awaitHealth ops expectation g 0 = waiting"
| "awaitHealth ops expectation g (Suc n) =
     unless_broken ops (\<lambda>e. seq (call (CheckHealth ops expectation)) (\<lambda>_. reader_broke e))
       (seq (call (NextHealth ops)) (\<lambda>ev.
        case ev of
          HealthDone \<Rightarrow>
            seq (call (CheckHealth ops expectation)) (\<lambda>err.
            health_ended ops n g (ended_or ops (case err of None \<Rightarrow> Went () | Some e \<Rightarrow> Failed e)))
        | HealthCtxDone \<Rightarrow>
            seq (call (CheckHealth ops expectation)) (\<lambda>_. health_ended ops n g (ended_or ops (Went ())))
        | HealthFaulted \<Rightarrow>
            seq (call (CheckHealth ops expectation)) (\<lambda>_. health_ended ops n g (ret (Went ())))
        | HealthResult r \<Rightarrow>
            (case r of
               ResultError e \<Rightarrow>
                 seq (call (CheckHealth ops expectation)) (\<lambda>_.
                 unless_fault ops g (unless_broken ops reader_broke (reader_broke e)))
             | ResultCommand c \<Rightarrow>
                 if cc_command c = ControlStatus then
                   seq (answer_status ops (cc_commandId c)) (\<lambda>err.
                   case err of
                     Some e \<Rightarrow> seq (call (CheckHealth ops expectation)) (\<lambda>_. ret (Failed e))
                   | None \<Rightarrow> awaitHealth ops expectation g n)
                 else if is_terminal c then
                   seq (call (CheckHealth ops expectation)) (\<lambda>_.
                   unless_fault ops g (unless_broken ops reader_broke (ret (Interrupt c None))))
                 else awaitHealth ops expectation g n)))"

section \<open>Starting an attempt\<close>

definition developmentEntryArgument :: string where
  "developmentEntryArgument = ''main.py''"

definition attempt_options ::
  "'w deps \<Rightarrow> backend_layout \<Rightarrow> backend_request \<Rightarrow> Revision \<Rightarrow> ManagedOptions" where
  "attempt_options ops layout request revision =
     (let development = (modeForRequest request = ModeDevelopment) in
      \<lparr>mo_stage = StageBackendSpawn,
       mo_workingDir = (if development then '''' else ly_appRoot layout),
       mo_projectDir = (if development then rq_developmentRepo request else ly_repoDir layout),
       mo_projectEnvDir = (if development then developmentProjectEnv ops (rq_developmentRepo request) else ''''),
       mo_entry = (if development then developmentEntryArgument else ly_entryFile layout),
       mo_identity = (if development then None else Some revision),
       mo_port = rq_port request\<rparr>)"

text \<open>The acquisition of a logger, a transaction and a process is recorded when there is a handle, with
  or without an error.\<close>

definition open_logger :: "'w deps \<Rightarrow> 'w supervision \<Rightarrow> (nat option \<times> go_error option) option \<times> 'w supervision" where
  "open_logger ops =
     seq (call (OpenLogger ops)) (\<lambda>(logger, err).
     seq (case logger of None \<Rightarrow> ret () | Some l \<Rightarrow> act (OpenedLogger l)) (\<lambda>_. ret (logger, err)))"

definition begin_transaction ::
  "'w deps \<Rightarrow> TransactionRequest \<Rightarrow> 'w supervision \<Rightarrow> (nat option \<times> go_error option) option \<times> 'w supervision" where
  "begin_transaction ops input =
     seq (call (BeginTransaction ops input)) (\<lambda>(tx, err).
     seq (case tx of None \<Rightarrow> ret () | Some t \<Rightarrow> act (BeganTransaction t)) (\<lambda>_. ret (tx, err)))"

definition start_managed ::
  "'w deps \<Rightarrow> ManagedOptions \<Rightarrow> 'w supervision \<Rightarrow> (nat option \<times> go_error option) option \<times> 'w supervision" where
  "start_managed ops options =
     seq (call (StartManaged ops options)) (\<lambda>(proc, err).
     seq (case proc of None \<Rightarrow> ret () | Some p \<Rightarrow> act (StartedProcess p options)) (\<lambda>_. ret (proc, err)))"

definition or_plain :: "go_error option \<Rightarrow> string \<Rightarrow> go_error option" where
  "or_plain err text = (case err of None \<Rightarrow> Some (sentinel (PlainError text)) | Some e \<Rightarrow> Some e)"

definition logger_failure :: "'w deps \<Rightarrow> go_error option \<Rightarrow> nat option \<Rightarrow> go_error" where
  "logger_failure ops err logger =
     the (withFailureDetails ops
           (Some (newBackendError CodeInternalError StageBackendSpawn [''sink'' \<mapsto> JString ''runtime_log'']
             (or_plain err ''backend logger is nil''))) logger None)"

definition transaction_failure :: "Stage \<Rightarrow> go_error option \<Rightarrow> go_error" where
  "transaction_failure stage err = newBackendError CodeStateWriteFailed stage Map.empty err"

text \<open>\<open>removeBackendTransaction\<close> and the close of the logger that follows it.\<close>

definition abandon :: "'w deps \<Rightarrow> nat \<Rightarrow> nat \<Rightarrow> 'w supervision \<Rightarrow> go_error option option \<times> 'w supervision" where
  "abandon ops t l =
     seq (remove_transaction ops t) (\<lambda>e1.
     seq (close_logger ops l) (\<lambda>e2.
     ret (Join [mapStateCleanupError e1, mapLoggerCleanupError e2])))"

definition failed_join :: "go_error \<Rightarrow> go_error option \<Rightarrow> 'a step_result" where
  "failed_join e cleanupErr = Failed (the (Join [Some e, cleanupErr]))"

definition abandoned ::
  "'w deps \<Rightarrow> nat \<Rightarrow> nat \<Rightarrow> go_error \<Rightarrow> 'w supervision \<Rightarrow> 'a step_result option \<times> 'w supervision" where
  "abandoned ops t l e = seq (abandon ops t l) (\<lambda>cleanupErr. ret (failed_join e cleanupErr))"

text \<open>The logger and the transaction of the attempt, and the second look at the revision.\<close>

definition prepare_attempt ::
  "'w deps \<Rightarrow> backend_request \<Rightarrow> EnvironmentState \<Rightarrow> Revision \<Rightarrow> 'w supervision \<Rightarrow>
     (nat \<times> nat) step_result option \<times> 'w supervision" where
  "prepare_attempt ops request env revision =
     seq (open_logger ops) (\<lambda>(logger, err).
     case logger of
       None \<Rightarrow> ret (Failed (logger_failure ops err None))
     | Some l \<Rightarrow>
         if err \<noteq> None then
           seq (close_logger ops l) (\<lambda>closeErr.
           ret (Failed (logger_failure ops (Join [err, mapLoggerCleanupError closeErr]) (Some l))))
         else
           seq (call (AttachRelay ops (Some l))) (\<lambda>_.
           seq (begin_transaction ops
                  \<lparr>tr_operationID = rq_operationID request, tr_pid = rq_runtimePID request,
                   tr_version = rev_version revision, tr_stage = StageBackendSpawn\<rparr>) (\<lambda>(tx, err).
           case tx of
             None \<Rightarrow>
               seq (close_logger ops l) (\<lambda>closeErr.
               ret (failed_join (transaction_failure StageBackendSpawn
                      (or_plain err ''backend transaction handle is nil''))
                      (Join [None, mapLoggerCleanupError closeErr])))
           | Some t \<Rightarrow>
               if err \<noteq> None then
                 seq (remove_transaction ops t) (\<lambda>removeErr.
                 seq (close_logger ops l) (\<lambda>closeErr.
                 ret (failed_join (transaction_failure StageBackendSpawn err)
                        (Join [Join [None, mapStateCleanupError removeErr], mapLoggerCleanupError closeErr]))))
               else if modeForRequest request = ModeManaged then
                 seq (recheckRevision ops env revision) (\<lambda>err.
                 case err of None \<Rightarrow> ret (Went (l, t)) | Some e \<Rightarrow> abandoned ops t l e)
               else ret (Went (l, t)))))"

text \<open>Cleaning up an attempt that fails, which commits the supervision.\<close>

definition cleanup_attempt :: "'w deps \<Rightarrow> controlAttempt \<Rightarrow> 'w supervision \<Rightarrow> processCleanup option \<times> 'w supervision" where
  "cleanup_attempt ops a = cleanupProcess ops (at_process a) (Some (at_tx a)) (Some (at_logger a))"

definition committed :: "processCleanup \<Rightarrow> go_error option \<Rightarrow> 'a step_result" where
  "committed c e = Failed (the (markCommitted (Join [pc_err c, e])))"

definition committed_details :: "'w deps \<Rightarrow> controlAttempt \<Rightarrow> processCleanup \<Rightarrow> go_error option \<Rightarrow> 'a step_result" where
  "committed_details ops a c e =
     committed c (withFailureDetailsExtra ops e (Some (at_logger a)) (at_process a) (pc_details c))"

definition fail_attempt ::
  "'w deps \<Rightarrow> controlAttempt \<Rightarrow> go_error \<Rightarrow> 'w supervision \<Rightarrow> 'a step_result option \<times> 'w supervision" where
  "fail_attempt ops a e = seq (cleanup_attempt ops a) (\<lambda>c. ret (committed_details ops a c (Some e)))"

definition unless_faulted ::
  "'w deps \<Rightarrow> controlAttempt \<Rightarrow> ('w supervision \<Rightarrow> 'a step_result option \<times> 'w supervision) \<Rightarrow>
     'w supervision \<Rightarrow> 'a step_result option \<times> 'w supervision" where
  "unless_faulted ops a m =
     seq (call (GateFault ops (at_gate a))) (\<lambda>fault. case fault of Some e \<Rightarrow> fail_attempt ops a e | None \<Rightarrow> m)"

text \<open>The process, with the checks right before its start.\<close>

definition spawn_attempt ::
  "'w deps \<Rightarrow> nat \<Rightarrow> backend_layout \<Rightarrow> backend_request \<Rightarrow> Revision \<Rightarrow> nat \<Rightarrow> nat \<Rightarrow> 'w supervision \<Rightarrow>
     controlAttempt step_result option \<times> 'w supervision" where
  "spawn_attempt ops n layout request revision l t =
     seq (call (NewGate ops StageBackendSpawn)) (\<lambda>g.
     unless_broken ops (\<lambda>e. abandoned ops t l (reader_failure StageBackendSpawn e))
       (seq (call (LatchedCommand ops)) (\<lambda>latch.
        if latch \<noteq> None then
          seq (drainUntilTerminal ops n) (\<lambda>r.
          case r of
            Inl e \<Rightarrow> abandoned ops t l e
          | Inr c \<Rightarrow>
              seq (abandon ops t l) (\<lambda>cleanupErr.
              ret (case cleanupErr of Some e \<Rightarrow> Failed e | None \<Rightarrow> Interrupt c None)))
        else
          seq (call (CtxErr ops)) (\<lambda>ended.
          case ended of
            Some e \<Rightarrow> abandoned ops t l e
          | None \<Rightarrow>
              seq (start_managed ops (attempt_options ops layout request revision)) (\<lambda>(proc, err).
              case proc of
                None \<Rightarrow>
                  seq (call (GateFault ops g)) (\<lambda>fault.
                  abandoned ops t l
                    (case fault of
                       Some e \<Rightarrow> e
                     | None \<Rightarrow> newBackendError CodeBackendSpawnFailed StageBackendSpawn Map.empty
                                 (or_plain err ''managed process is nil'')))
              | Some p \<Rightarrow>
                  let a = \<lparr>at_process = Some p, at_tx = t, at_logger = l, at_gate = g\<rparr> in
                  if err \<noteq> None then
                    seq (call (GateFault ops g)) (\<lambda>fault.
                    seq (cleanup_attempt ops a) (\<lambda>c.
                    ret (committed_details ops a c
                      (case fault of
                         Some _ \<Rightarrow> withFailureDetailsExtra ops fault (Some l) (Some p) (pc_details c)
                       | None \<Rightarrow> Some (newBackendError CodeBackendSpawnFailed StageBackendSpawn Map.empty err)))))
                  else ret (Went a))))))"

section \<open>From the start of the process to a running backend\<close>

text \<open>What a transaction that cannot be updated, and a health check that failed, amount to once the
  attempt is cleaned up. A latched command comes before the caller's cancellation.\<close>

definition after_cleanup_latched ::
  "'w deps \<Rightarrow> nat \<Rightarrow> processCleanup \<Rightarrow> ('w supervision \<Rightarrow> controlAttempt step_result option \<times> 'w supervision) \<Rightarrow>
     'w supervision \<Rightarrow> controlAttempt step_result option \<times> 'w supervision" where
  "after_cleanup_latched ops n c m =
     seq (call (LatchedCommand ops)) (\<lambda>latch.
     if latch = None then m
     else
       seq (drainUntilTerminal ops n) (\<lambda>r.
       ret (case r of
              Inl e \<Rightarrow> committed c (Some e)
            | Inr command \<Rightarrow>
                if pc_err c \<noteq> None then Failed (the (markCommitted (pc_err c))) else Interrupt command None)))"

definition update_failed ::
  "'w deps \<Rightarrow> nat \<Rightarrow> controlAttempt \<Rightarrow> Stage \<Rightarrow> go_error \<Rightarrow> 'w supervision \<Rightarrow>
     controlAttempt step_result option \<times> 'w supervision" where
  "update_failed ops n a stage err =
     seq (cleanup_attempt ops a) (\<lambda>c.
     seq (call (GateFault ops (at_gate a))) (\<lambda>fault.
     if fault \<noteq> None then ret (committed_details ops a c fault)
     else
       unless_broken ops (\<lambda>e. ret (committed_details ops a c (Some (reader_failure stage e))))
         (after_cleanup_latched ops n c
           (seq (call (CtxErr ops)) (\<lambda>ended.
            ret (case ended of
                   Some e \<Rightarrow> if pc_err c \<noteq> None then committed_details ops a c ended else Failed e
                 | None \<Rightarrow> committed_details ops a c (Some (transaction_failure stage (Some err)))))))))"

definition health_failed ::
  "'w deps \<Rightarrow> nat \<Rightarrow> controlAttempt \<Rightarrow> go_error \<Rightarrow> 'w supervision \<Rightarrow>
     controlAttempt step_result option \<times> 'w supervision" where
  "health_failed ops n a err =
     seq (cleanup_attempt ops a) (\<lambda>c.
     if backendErrorHasCode (Some err) CodeOutputWriteFailed then ret (committed_details ops a c (Some err))
     else
       seq (call (GateFault ops (at_gate a))) (\<lambda>fault.
       if fault \<noteq> None then ret (committed_details ops a c fault)
       else
         after_cleanup_latched ops n c
           (seq (call (CtxErr ops)) (\<lambda>ended.
            ret (committed_details ops a c
                   (if ended \<noteq> None then ended
                    else mapDependencyError StageBackendHealth CodeBackendHealthInvalid (Some err)))))))"

text \<open>A command that is latched while the attempt runs interrupts it without ending it.\<close>

definition unless_latched_running ::
  "'w deps \<Rightarrow> nat \<Rightarrow> controlAttempt \<Rightarrow> ('w supervision \<Rightarrow> controlAttempt step_result option \<times> 'w supervision) \<Rightarrow>
     'w supervision \<Rightarrow> controlAttempt step_result option \<times> 'w supervision" where
  "unless_latched_running ops n a m =
     seq (call (LatchedCommand ops)) (\<lambda>latch.
     if latch = None then m
     else
       seq (drainUntilTerminal ops n) (\<lambda>r.
       case r of
         Inl e \<Rightarrow> seq (cleanup_attempt ops a) (\<lambda>c. ret (committed c (Some e)))
       | Inr command \<Rightarrow> ret (Interrupt command (Some a))))"

definition process_details :: "'w deps \<Rightarrow> controlAttempt \<Rightarrow> backend_details" where
  "process_details ops a =
     [''pid'' \<mapsto> JNumber (decimal (case at_process a of Some p \<Rightarrow> ProcessPID ops p | None \<Rightarrow> 0)),
      ''logPath'' \<mapsto> JString (LogPath ops (at_logger a))]"

definition BaseURL :: "int \<Rightarrow> string" where
  "BaseURL port = ''http://127.0.0.1:'' @ decimal_int port"

text \<open>The last steps: the transaction, everything that may have gone wrong meanwhile, the announcement.\<close>

definition announce_running ::
  "'w deps \<Rightarrow> nat \<Rightarrow> backend_request \<Rightarrow> controlAttempt \<Rightarrow> 'w supervision \<Rightarrow>
     controlAttempt step_result option \<times> 'w supervision" where
  "announce_running ops n request a =
     unless_faulted ops a
       (unless_latched_running ops n a
         (seq (call (UpdateTransaction ops (at_tx a) StageBackendRun)) (\<lambda>updateErr.
          case updateErr of
            Some e \<Rightarrow> update_failed ops n a StageBackendRun e
          | None \<Rightarrow>
              unless_faulted ops a
                (unless_broken ops (\<lambda>e. fail_attempt ops a (reader_failure StageBackendRun e))
                  (unless_latched_running ops n a
                    (seq (call (CtxErr ops)) (\<lambda>ended.
                     if ended \<noteq> None then seq (cleanup_attempt ops a) (\<lambda>c. ret (committed c ended))
                     else
                       seq (call (GateStage ops (at_gate a) StageBackendRun)) (\<lambda>_.
                       seq (call (SetControlStage ops StageBackendRun)) (\<lambda>_.
                       let details = (process_details ops a)(''baseUrl'' \<mapsto> JString (BaseURL (rq_port request))) in
                       seq (emitState ops StageBackendRun StateRunning MsgReady details) (\<lambda>err.
                       case err of
                         Some e \<Rightarrow> fail_attempt ops a e
                       | None \<Rightarrow>
                           seq (set_snapshot StageBackendRun StateRunning details) (\<lambda>_. ret (Went a))))))))))))"

definition observe_health ::
  "'w deps \<Rightarrow> nat \<Rightarrow> backend_request \<Rightarrow> Revision \<Rightarrow> bool \<Rightarrow> controlAttempt \<Rightarrow> 'w supervision \<Rightarrow>
     controlAttempt step_result option \<times> 'w supervision" where
  "observe_health ops n request revision restarting a =
     seq (if restarting then
            seq (call (SetControlStage ops StageBackendRestart)) (\<lambda>_.
            set_snapshot StageBackendRestart StateRestarting (process_details ops a))
          else
            seq (call (GateStage ops (at_gate a) StageBackendHealth)) (\<lambda>_.
            seq (call (SetControlStage ops StageBackendHealth)) (\<lambda>_.
            set_snapshot StageBackendHealth StateStartingBackend (process_details ops a)))) (\<lambda>_.
     seq (awaitHealth ops (health_expectation request revision) (at_gate a) n) (\<lambda>health.
     case health of
       Went _ \<Rightarrow> announce_running ops n request a
     | Interrupt c _ \<Rightarrow> ret (Interrupt c (Some a))
     | ReaderBroke e \<Rightarrow> fail_attempt ops a e
     | Failed e \<Rightarrow> health_failed ops n a e))"

text \<open>Only the first attempt announces that the backend starts; the restart was announced before.\<close>

definition announce_attempt ::
  "'w deps \<Rightarrow> bool \<Rightarrow> controlAttempt \<Rightarrow> 'w supervision \<Rightarrow> go_error option option \<times> 'w supervision" where
  "announce_attempt ops restarting a =
     (if restarting then
        seq (call (SetControlStage ops StageBackendRestart)) (\<lambda>_.
        seq (call (GateStage ops (at_gate a) StageBackendRestart)) (\<lambda>_. ret None))
      else
        seq (call (SetControlStage ops StageBackendSpawn)) (\<lambda>_.
        emitState ops StageBackendSpawn StateStartingBackend MsgStarting Map.empty))"

definition watch_attempt ::
  "'w deps \<Rightarrow> nat \<Rightarrow> backend_request \<Rightarrow> Revision \<Rightarrow> bool \<Rightarrow> controlAttempt \<Rightarrow> 'w supervision \<Rightarrow>
     controlAttempt step_result option \<times> 'w supervision" where
  "watch_attempt ops n request revision restarting a =
     unless_faulted ops a
       (seq (announce_attempt ops restarting a) (\<lambda>err.
        case err of
          Some e \<Rightarrow> fail_attempt ops a e
        | None \<Rightarrow>
            seq (call (GateOpen ops (at_gate a))) (\<lambda>err.
            case err of
              Some e \<Rightarrow> fail_attempt ops a e
            | None \<Rightarrow>
                seq (call (UpdateTransaction ops (at_tx a) StageBackendHealth)) (\<lambda>updateErr.
                case updateErr of
                  Some e \<Rightarrow> update_failed ops n a StageBackendHealth e
                | None \<Rightarrow> observe_health ops n request revision restarting a))))"

text \<open>The result of a step that did not go through, for the step that contains it.\<close>

definition and_then ::
  "('w supervision \<Rightarrow> 'a step_result option \<times> 'w supervision) \<Rightarrow>
     ('a \<Rightarrow> 'w supervision \<Rightarrow> 'b step_result option \<times> 'w supervision) \<Rightarrow> 'w supervision \<Rightarrow>
     'b step_result option \<times> 'w supervision" where
  "and_then m f =
     seq m (\<lambda>r. case r of
       Went a \<Rightarrow> f a
     | Interrupt c a \<Rightarrow> ret (Interrupt c a)
     | ReaderBroke e \<Rightarrow> ret (ReaderBroke e)
     | Failed e \<Rightarrow> ret (Failed e))"

definition startControlAttempt ::
  "'w deps \<Rightarrow> nat \<Rightarrow> backend_layout \<Rightarrow> backend_request \<Rightarrow> EnvironmentState \<Rightarrow> Revision \<Rightarrow> bool \<Rightarrow>
     'w supervision \<Rightarrow> controlAttempt step_result option \<times> 'w supervision" where
  "startControlAttempt ops n layout request env revision restarting =
     unless_broken ops (\<lambda>e. ret (Failed (reader_failure StageBackendSpawn e)))
       (unless_latched ops n
         (seq (call (CtxErr ops)) (\<lambda>ended.
          case ended of
            Some e \<Rightarrow> ret (Failed e)
          | None \<Rightarrow>
              and_then (prepare_attempt ops request env revision) (\<lambda>(l, t).
              and_then (spawn_attempt ops n layout request revision l t) (\<lambda>a.
              watch_attempt ops n request revision restarting a)))))"

section \<open>What an attempt leaves open\<close>

definition restarts :: "observation \<Rightarrow> nat" where
  "restarts ob = count_list (o_announced ob) StateRestarting"

text \<open>Before an attempt nothing is open and one start is left; in the course of it the logger and the
  transaction are open, and then the process too.\<close>

definition can_start :: "nat \<Rightarrow> bool \<Rightarrow> observation \<Rightarrow> bool" where
  "can_start k restarting ob \<longleftrightarrow>
     safe ob \<and> owns None ob \<and> status_ok ob \<and> o_starts ob \<le> k \<and> restarts ob = k \<and>
     last_status (o_announced ob) = (if restarting then StateRestarting else StateReadyToStart)"

definition prepared :: "nat \<Rightarrow> bool \<Rightarrow> nat \<Rightarrow> nat \<Rightarrow> observation \<Rightarrow> bool" where
  "prepared k restarting l t ob \<longleftrightarrow>
     can_start k restarting (ob\<lparr>o_txs := [], o_logs := []\<rparr>) \<and> o_txs ob = [t] \<and> o_logs ob = [l]"

definition held :: "controlAttempt \<Rightarrow> observation \<Rightarrow> bool" where
  "held a ob \<longleftrightarrow> safe ob \<and> owns (Some a) ob \<and> status_ok ob"

definition alive :: "nat \<Rightarrow> bool \<Rightarrow> controlAttempt \<Rightarrow> observation \<Rightarrow> bool" where
  "alive k restarting a ob \<longleftrightarrow>
     held a ob \<and> restarts ob = k \<and>
     last_status (o_announced ob) \<in> set (if restarting then [StateRestarting] else [StateReadyToStart, StateStartingBackend])"

text \<open>Once it is announced, an attempt may be ended by a command.\<close>

definition announced :: "nat \<Rightarrow> bool \<Rightarrow> controlAttempt \<Rightarrow> observation \<Rightarrow> bool" where
  "announced k restarting a ob \<longleftrightarrow> alive k restarting a ob \<and>
     last_status (o_announced ob) = (if restarting then StateRestarting else StateStartingBackend)"

definition running :: "nat \<Rightarrow> controlAttempt \<Rightarrow> observation \<Rightarrow> bool" where
  "running k a ob \<longleftrightarrow> can_end (Some a) ob \<and> restarts ob = k \<and> last_status (o_announced ob) = StateRunning"

fun attempt_outcome :: "nat \<Rightarrow> controlAttempt step_result \<Rightarrow> observation \<Rightarrow> bool" where
  "attempt_outcome k (Went a) ob \<longleftrightarrow> running k a ob"
| "attempt_outcome k (Interrupt c a) ob \<longleftrightarrow> can_end a ob"
| "attempt_outcome k (ReaderBroke e) ob \<longleftrightarrow> can_end None ob"
| "attempt_outcome k (Failed e) ob \<longleftrightarrow> can_end None ob"

lemma can_start_end: "can_start k restarting ob \<Longrightarrow> can_end None ob"
  by (simp add: can_start_def can_end_def)

lemma announced_end: "announced k restarting a ob \<Longrightarrow> can_end (Some a) ob"
  by (auto simp: announced_def alive_def held_def can_end_def active_def live_statuses_def)

lemma alive_held: "alive k restarting a ob \<Longrightarrow> held a ob"
  by (simp add: alive_def)

lemma can_end_held: "can_end (Some a) ob \<Longrightarrow> held a ob"
  by (simp add: can_end_def held_def)

lemma status_ok_lists [simp]:
  "status_ok (ob\<lparr>o_txs := ts\<rparr>) = status_ok ob" "status_ok (ob\<lparr>o_logs := ls\<rparr>) = status_ok ob"
  "status_ok (ob\<lparr>o_live := ps\<rparr>) = status_ok ob" "status_ok (ob\<lparr>o_starts := n\<rparr>) = status_ok ob"
  "status_ok (ob\<lparr>o_verified := v\<rparr>) = status_ok ob" "status_ok (released p t l ob) = status_ok ob"
  by (simp_all add: status_ok_def active_def)

lemma prepared_fields:
  assumes "prepared k restarting l t ob"
  shows "safe ob" "o_live ob = []" "o_txs ob = [t]" "o_logs ob = [l]" "status_ok ob"
    "o_starts ob \<le> restarts ob" "restarts ob = k"
    "last_status (o_announced ob) = (if restarting then StateRestarting else StateReadyToStart)"
proof -
  note prep = assms[unfolded prepared_def can_start_def]
  show "o_txs ob = [t]" "o_logs ob = [l]" "o_starts ob \<le> restarts ob" "restarts ob = k"
    "last_status (o_announced ob) = (if restarting then StateRestarting else StateReadyToStart)"
    using prep by (simp_all add: restarts_def)
  show "o_live ob = []" using prep by (simp add: owns_def)
  show "safe ob" using prep by (simp add: safe_def)
  show "status_ok ob" using prep by (simp only: status_ok_lists)
qed

lemma only_read_safe:
  assumes "only_read ob ob'"
  shows "safe ob' = safe ob" "owns a ob' = owns a ob" "status_ok ob' = status_ok ob" "restarts ob' = restarts ob"
    "o_starts ob' = o_starts ob" "o_announced ob' = o_announced ob" "active ob' = active ob"
    "o_txs ob' = o_txs ob" "o_logs ob' = o_logs ob"
proof -
  obtain e r where ob': "ob' = ob\<lparr>o_env := e, o_repo := r\<rparr>" using assms unfolding only_read_def by blast
  show "safe ob' = safe ob" "status_ok ob' = status_ok ob" "restarts ob' = restarts ob"
    "o_starts ob' = o_starts ob" "o_announced ob' = o_announced ob" "active ob' = active ob"
    "o_txs ob' = o_txs ob" "o_logs ob' = o_logs ob"
    by (simp_all add: ob' safe_def status_ok_def restarts_def active_def)
  show "owns a ob' = owns a ob" by (simp add: ob' owns_def split: option.split)
qed

lemma only_read_start: "only_read ob ob' \<Longrightarrow> can_start k restarting ob \<Longrightarrow> can_start k restarting ob'"
  by (simp add: can_start_def only_read_safe)

lemma only_read_prepared: "only_read ob ob' \<Longrightarrow> prepared k restarting l t ob \<Longrightarrow> prepared k restarting l t ob'"
proof -
  assume read: "only_read ob ob'" and prep: "prepared k restarting l t ob"
  obtain e r where ob': "ob' = ob\<lparr>o_env := e, o_repo := r\<rparr>" using read unfolding only_read_def by blast
  have "only_read (ob\<lparr>o_txs := [], o_logs := []\<rparr>) (ob'\<lparr>o_txs := [], o_logs := []\<rparr>)"
    by (simp add: only_read_def ob')
  then show ?thesis using prep only_read_start by (simp add: prepared_def only_read_safe[OF read])
qed

lemma held_released:
  assumes "held a ob"
  shows "can_end None (released (at_process a) (Some (at_tx a)) (Some (at_logger a)) ob)"
  using assms safe_released owns_released
  by (auto simp: held_def can_end_def status_ok_def active_def)

lemma wp_cleanup_attempt:
  assumes "held a (obs s)" "\<And>c s'. can_end None (obs s') \<Longrightarrow> Q c s'"
  shows "wp (cleanup_attempt ops a) Q W s"
proof -
  obtain p where p: "at_process a = Some p" using assms(1) by (auto simp: held_def owns_def)
  show ?thesis
    unfolding cleanup_attempt_def p
    using held_released[OF assms(1)] p by (intro wp_cleanupProcess assms(2)) simp
qed

lemma wp_fail_attempt:
  assumes "held a (obs s)" "\<And>e s'. can_end None (obs s') \<Longrightarrow> Q (Failed e) s'"
  shows "wp (fail_attempt ops a e) Q W s"
  unfolding fail_attempt_def committed_details_def committed_def
  by (intro wp_seq wp_cleanup_attempt[OF assms(1)] wp_ret assms(2))

lemma prepared_abandoned:
  assumes "prepared k restarting l t ob"
  shows "can_end None (ob\<lparr>o_txs := remove1 t (o_txs ob), o_logs := remove1 l (o_logs ob)\<rparr>)"
  using assms can_start_end by (auto simp: prepared_def)

lemma wp_abandon:
  assumes "prepared k restarting l t (obs s)" "\<And>e s'. can_end None (obs s') \<Longrightarrow> Q e s'"
  shows "wp (abandon ops t l) Q W s"
  unfolding abandon_def
  by (intro wp_seq wp_remove_transaction wp_close_logger wp_ret assms(2)) (use prepared_abandoned[OF assms(1)] in simp)

lemma wp_abandoned:
  assumes "prepared k restarting l t (obs s)" "\<And>e s'. can_end None (obs s') \<Longrightarrow> Q (Failed e) s'"
  shows "wp (abandoned ops t l e) Q W s"
  unfolding abandoned_def failed_join_def by (intro wp_seq wp_abandon[OF assms(1)] wp_ret assms(2))

section \<open>The waits\<close>

lemma wp_unless_broken:
  assumes "\<And>e s'. obs s' = obs s \<Longrightarrow> wp (broke e) Q W s'" "\<And>s'. obs s' = obs s \<Longrightarrow> wp m Q W s'"
  shows "wp (unless_broken ops broke m) Q W s"
  unfolding unless_broken_def by (intro wp_seq wp_call_obs wp_case_option) (simp_all add: assms)

lemma wp_unless_latched:
  assumes "\<And>s'. obs s' = obs s \<Longrightarrow> wp m Q W s'" "\<And>e s'. obs s' = obs s \<Longrightarrow> Q (Failed e) s'"
    "\<And>c s'. obs s' = obs s \<Longrightarrow> Q (Interrupt c None) s'" "\<And>s'. obs s' = obs s \<Longrightarrow> W s'"
  shows "wp (unless_latched ops n m) Q W s"
  unfolding unless_latched_def
  by (intro wp_seq wp_call_obs wp_if wp_drainUntilTerminal wp_ret) (auto simp: assms split: sum.splits)

lemma wp_ended_or:
  assumes "\<And>s'. obs s' = obs s \<Longrightarrow> Q r s'" "\<And>e s'. obs s' = obs s \<Longrightarrow> Q (Failed e) s'"
  shows "wp (ended_or ops r) Q W s"
  unfolding ended_or_def by (intro wp_seq wp_call_obs wp_ret) (auto simp: assms split: option.splits)

text \<open>A wait ends with what it waited for, with a failure, or with a command and no attempt.\<close>

definition plain_result :: "('a \<Rightarrow> bool) \<Rightarrow> 'a step_result \<Rightarrow> bool" where
  "plain_result P r \<longleftrightarrow> (case r of Went x \<Rightarrow> P x | Interrupt c a \<Rightarrow> a = None | ReaderBroke e \<Rightarrow> False | Failed e \<Rightarrow> True)"

lemma plain_result_simps [simp]:
  "plain_result P (Went x) = P x" "plain_result P (Interrupt c a) = (a = None)"
  "plain_result P (ReaderBroke e) = False" "plain_result P (Failed e) = True"
  by (simp_all add: plain_result_def)

definition facts_ok :: "backend_request \<Rightarrow> EnvironmentState \<times> Revision \<Rightarrow> bool" where
  "facts_ok request facts \<longleftrightarrow>
     (modeForRequest request \<noteq> ModeDevelopment \<longrightarrow> snd facts = env_lastSuccessful (fst facts))"

lemma facts_zero [simp]: "facts_ok request (zero_environment, zero_revision)"
  by (simp add: facts_ok_def zero_environment_def)

lemma wp_preflight_ended:
  assumes "\<And>s'. obs s' = obs s \<Longrightarrow> wp m Q W s'" "\<And>e s'. obs s' = obs s \<Longrightarrow> Q (Failed e) s'"
    "\<And>c s'. obs s' = obs s \<Longrightarrow> Q (Interrupt c None) s'" "\<And>s'. obs s' = obs s \<Longrightarrow> W s'"
  shows "wp (preflight_ended ops n m) Q W s"
  unfolding preflight_ended_def by (intro wp_unless_broken wp_unless_latched wp_ret) (simp_all add: assms)

lemma wp_awaitControlPreflight:
  assumes "\<And>r s'. only_read (obs s) (obs s') \<Longrightarrow> plain_result (facts_ok request) r \<Longrightarrow> Q r s'"
    and "\<And>s'. only_read (obs s) (obs s') \<Longrightarrow> W s'"
  shows "wp (awaitControlPreflight ops layout request n) Q W s"
proof -
  have "wp (awaitControlPreflight ops layout request n)
      (\<lambda>r s'. only_read (obs s) (obs s') \<and> plain_result (facts_ok request) r) (\<lambda>s'. only_read (obs s) (obs s')) s"
  proof (induction n arbitrary: s)
    case (Suc n)
    have again: "wp (awaitControlPreflight ops layout request n)
        (\<lambda>r t. only_read (obs s) (obs t) \<and> plain_result (facts_ok request) r) (\<lambda>t. only_read (obs s) (obs t)) s'"
      if "obs s' = obs s" for s'
      using Suc[of s'] that by simp
    show ?case
      unfolding awaitControlPreflight.simps
      by (intro wp_unless_broken wp_seq wp_call_obs wp_branches wp_if wp_case_option wp_controlPreflight
            wp_answer_status wp_ret again wp_preflight_ended wp_ended_or)
         (auto simp: facts_ok_def zero_environment_def split: sum.splits)
  qed (simp add: wp_waiting)
  then show ?thesis by (rule wp_weaken) (use assms in auto)
qed

lemma wp_restart_checks:
  assumes "\<And>s'. obs s' = obs s \<Longrightarrow> wp m Q W s'" "\<And>e s'. obs s' = obs s \<Longrightarrow> Q (Failed e) s'"
    "\<And>c s'. obs s' = obs s \<Longrightarrow> Q (Interrupt c None) s'" "\<And>s'. obs s' = obs s \<Longrightarrow> W s'"
  shows "wp (restart_checks ops n m) Q W s"
  unfolding restart_checks_def by (intro wp_unless_broken wp_unless_latched wp_ret) (simp_all add: assms)

lemma wp_waitRestart:
  assumes "\<And>r s'. obs s' = obs s \<Longrightarrow> plain_result (\<lambda>_. True) r \<Longrightarrow> Q r s'" "\<And>s'. obs s' = obs s \<Longrightarrow> W s'"
  shows "wp (waitRestart ops n) Q W s"
proof -
  have loop: "wp (restart_loop ops n) (\<lambda>r s'. obs s' = obs s \<and> plain_result (\<lambda>_. True) r) (\<lambda>s'. obs s' = obs s) s" for s
  proof (induction n arbitrary: s)
    case (Suc n)
    have again: "wp (restart_loop ops n) (\<lambda>r t. obs t = obs s \<and> plain_result (\<lambda>_. True) r) (\<lambda>t. obs t = obs s) s'"
      if "obs s' = obs s" for s'
      using Suc[of s'] that by simp
    show ?case
      unfolding restart_loop.simps
      by (intro wp_restart_checks wp_unless_broken wp_seq wp_call_obs wp_branches wp_if wp_case_option
            wp_answer_status wp_ret again wp_ended_or) simp_all
  qed (simp add: wp_waiting)
  have loop': "wp (restart_loop ops n) Q W s'" if "obs s' = obs s" for s'
    using loop[of s'] by (rule wp_weaken) (use assms that in auto)
  show ?thesis
    unfolding waitRestart_def by (intro wp_if wp_seq wp_call_obs wp_ret loop') (auto simp: assms)
qed

lemma wp_health_ended:
  assumes "\<And>s'. obs s' = obs s \<Longrightarrow> wp m Q W s'" "\<And>r s'. obs s' = obs s \<Longrightarrow> Q r s'" "\<And>s'. obs s' = obs s \<Longrightarrow> W s'"
  shows "wp (unless_fault ops g (unless_broken ops reader_broke m)) Q W s"
    "wp (health_ended ops n g m) Q W s"
  unfolding health_ended_def unless_fault_def reader_broke_def
  by (intro wp_seq wp_call_obs wp_case_option wp_unless_broken wp_unless_latched wp_ret; simp add: assms)+

lemma wp_awaitHealth:
  assumes "\<And>r s'. obs s' = obs s \<Longrightarrow> Q r s'" "\<And>s'. obs s' = obs s \<Longrightarrow> W s'"
  shows "wp (awaitHealth ops expectation g n) Q W s"
proof -
  have "wp (awaitHealth ops expectation g n) (\<lambda>r s'. obs s' = obs s) (\<lambda>s'. obs s' = obs s) s"
  proof (induction n arbitrary: s)
    case (Suc n)
    have again: "wp (awaitHealth ops expectation g n) (\<lambda>r t. obs t = obs s) (\<lambda>t. obs t = obs s) s'"
      if "obs s' = obs s" for s'
      using Suc[of s'] that by simp
    have broke: "wp (reader_broke e) (\<lambda>r t. obs t = obs s) (\<lambda>t. obs t = obs s) s'" if "obs s' = obs s" for s' e
      unfolding reader_broke_def by (intro wp_ret) (simp add: that)
    show ?case
      unfolding awaitHealth.simps
      by (intro wp_unless_broken wp_seq wp_call_obs wp_branches wp_if wp_case_option wp_health_ended
            wp_answer_status wp_ret again broke wp_ended_or) simp_all
  qed (simp add: wp_waiting)
  then show ?thesis by (rule wp_weaken) (use assms in auto)
qed

section \<open>The steps of an attempt\<close>

lemma can_start_logger: "can_start k restarting ob \<Longrightarrow> can_end None (ob\<lparr>o_logs := remove1 l (l # o_logs ob)\<rparr>)"
  using can_start_end by simp

lemma prepared_opened:
  assumes "can_start k restarting ob"
  shows "prepared k restarting l t (ob\<lparr>o_logs := [l], o_txs := [t]\<rparr>)"
  using assms by (auto simp: prepared_def can_start_def owns_def safe_def restarts_def)

lemma opened_safe: "can_start k restarting ob \<Longrightarrow> safe (ob\<lparr>o_logs := [l]\<rparr>)"
  by (simp add: can_start_def safe_def)

definition prepared_outcome ::
  "nat \<Rightarrow> bool \<Rightarrow> backend_request \<Rightarrow> Revision \<Rightarrow> (nat \<times> nat) step_result \<Rightarrow> observation \<Rightarrow> bool" where
  "prepared_outcome k restarting request revision r ob \<longleftrightarrow>
     (case r of
        Went (l, t) \<Rightarrow> prepared k restarting l t ob \<and> (modeForRequest request = ModeManaged \<longrightarrow> confirms ob revision)
      | Failed e \<Rightarrow> can_end None ob
      | _ \<Rightarrow> False)"

lemma wp_prepare_attempt:
  assumes start: "can_start k restarting (obs s)"
    and facts: "modeForRequest request = ModeManaged \<Longrightarrow> revision = env_lastSuccessful env"
    and Q: "\<And>r s'. prepared_outcome k restarting request revision r (obs s') \<Longrightarrow> Q r s'"
  shows "wp (prepare_attempt ops request env revision) Q W s"
proof -
  have logs: "o_logs (obs s) = []" "o_txs (obs s) = []" using start by (auto simp: can_start_def owns_def)
  note ends = can_start_end[OF start]
  have same: "(obs s)\<lparr>o_logs := []\<rparr> = obs s" "(obs s)\<lparr>o_txs := [], o_logs := []\<rparr> = obs s"
    using logs by simp_all
  have failed: "Q (Failed e) s'" if "can_end None (obs s')" for e s' using that by (intro Q) (simp add: prepared_outcome_def)
  have opened: "prepared k restarting l t ob" if "ob = (obs s)\<lparr>o_logs := [l], o_txs := [t]\<rparr>" for l t ob
    using prepared_opened[OF start] that by simp
  have went: "Q (Went (l, t)) s'" if "only_read ((obs s)\<lparr>o_logs := [l], o_txs := [t]\<rparr>) (obs s')"
    "modeForRequest request = ModeManaged \<Longrightarrow> confirms (obs s') revision" for l t s'
    using that only_read_prepared[OF that(1) opened] by (intro Q) (auto simp: prepared_outcome_def)
  have given_up: "wp (abandoned ops t l e) Q W s'" if "only_read ((obs s)\<lparr>o_logs := [l], o_txs := [t]\<rparr>) (obs s')" for l t e s'
    using only_read_prepared[OF that opened] by (intro wp_abandoned failed) auto
  show ?thesis
    unfolding prepare_attempt_def open_logger_def begin_transaction_def failed_join_def
    by (intro wp_seq wp_call_obs wp_case_prod wp_case_option wp_ret wp_act_obs wp_if wp_close_logger
          wp_remove_transaction wp_recheckRevision)
       (auto simp: logs ends same facts intro!: failed given_up went)
qed

definition fresh :: "nat \<Rightarrow> bool \<Rightarrow> controlAttempt \<Rightarrow> observation \<Rightarrow> bool" where
  "fresh k restarting a ob \<longleftrightarrow> alive k restarting a ob \<and>
     last_status (o_announced ob) = (if restarting then StateRestarting else StateReadyToStart)"

definition spawn_outcome :: "nat \<Rightarrow> bool \<Rightarrow> controlAttempt step_result \<Rightarrow> observation \<Rightarrow> bool" where
  "spawn_outcome k restarting r ob \<longleftrightarrow>
     (case r of
        Went a \<Rightarrow> fresh k restarting a ob
      | Interrupt c a \<Rightarrow> a = None \<and> can_end None ob
      | ReaderBroke e \<Rightarrow> False
      | Failed e \<Rightarrow> can_end None ob)"

definition mode_ok :: "backend_request \<Rightarrow> bool" where
  "mode_ok request \<longleftrightarrow> modeForRequest request = ModeManaged \<or> modeForRequest request = ModeDevelopment"

lemma started_alive:
  assumes "prepared k restarting l t ob" "start_verified ob m"
  shows "fresh k restarting \<lparr>at_process = Some p, at_tx = t, at_logger = l, at_gate = g\<rparr> (observe (StartedProcess p m) ob)"
proof -
  note f = prepared_fields[OF assms(1)]
  have "safe (observe (StartedProcess p m) ob)"
    using f assms(2) by (simp add: safe_def restarts_def)
  moreover have "status_ok (observe (StartedProcess p m) ob)" using f(5) by simp
  moreover have "restarts (observe (StartedProcess p m) ob) = k" using f(7) by (simp add: restarts_def)
  ultimately show ?thesis
    using f by (simp add: alive_def held_def owns_def fresh_def)
qed

lemma wp_spawn_attempt:
  assumes prep: "prepared k restarting l t (obs s)" and mode: "mode_ok request"
    and facts: "modeForRequest request = ModeManaged \<Longrightarrow> confirms (obs s) revision"
    and Q: "\<And>r s'. spawn_outcome k restarting r (obs s') \<Longrightarrow> Q r s'" and W: "\<And>s'. safe (obs s') \<Longrightarrow> W s'"
  shows "wp (spawn_attempt ops n layout request revision l t) Q W s"
proof -
  have verified: "start_verified (obs s) (attempt_options ops layout request revision)"
  proof (cases "modeForRequest request = ModeManaged")
    case True
    then show ?thesis using confirms_start facts by (simp add: attempt_options_def)
  next
    case False
    then show ?thesis using mode by (simp add: mode_ok_def attempt_options_def start_verified_def)
  qed
  have failed: "Q (Failed e) s'" if "can_end None (obs s')" for e s' using that by (intro Q) (simp add: spawn_outcome_def)
  have interrupted: "Q (Interrupt c None) s'" if "can_end None (obs s')" for c s'
    using that by (intro Q) (simp add: spawn_outcome_def)
  have live: "fresh k restarting \<lparr>at_process = Some p, at_tx = t, at_logger = l, at_gate = g\<rparr> ob"
    if "ob = observe (StartedProcess p (attempt_options ops layout request revision)) (obs s)" for p g ob
    using started_alive[OF prep verified] that by simp
  have given_up: "wp (abandoned ops t l e) Q W s'" if "obs s' = obs s" for e s'
    using that prep by (intro wp_abandoned failed) auto
  have dropped: "wp (abandon ops t l) P W s'" if "obs s' = obs s" "\<And>e s'. can_end None (obs s') \<Longrightarrow> P e s'" for P s'
    by (rule wp_abandon[of k restarting]) (use prep that in auto)
  have cleaned: "wp (cleanup_attempt ops \<lparr>at_process = Some p, at_tx = t, at_logger = l, at_gate = g\<rparr>) P W s'"
    if "obs s' = observe (StartedProcess p (attempt_options ops layout request revision)) (obs s)"
      "\<And>c s'. can_end None (obs s') \<Longrightarrow> P c s'" for p g P s'
    by (rule wp_cleanup_attempt[OF alive_held[OF live[OF that(1), unfolded fresh_def, THEN conjunct1]]]) (rule that(2))
  show ?thesis
    unfolding spawn_attempt_def start_managed_def committed_details_def committed_def Let_def
    by (intro wp_unless_broken wp_seq wp_call_obs wp_case_prod wp_case_option wp_ret wp_act_obs wp_if
          wp_drainUntilTerminal wp_case_sum given_up cleaned dropped)
       (auto intro!: failed interrupted Q simp: spawn_outcome_def live prepared_fields(1)[OF prep] W split: option.splits)
qed

text \<open>From the start on, an attempt that does not go through is cleaned up or left to its command.\<close>

lemma wp_unless_faulted:
  assumes "held a (obs s)" "\<And>e s'. can_end None (obs s') \<Longrightarrow> Q (Failed e) s'"
    "\<And>s'. obs s' = obs s \<Longrightarrow> wp m Q W s'"
  shows "wp (unless_faulted ops a m) Q W s"
  unfolding unless_faulted_def
  by (intro wp_seq wp_call_obs wp_case_option wp_fail_attempt) (use assms in auto)

lemma wp_unless_latched_running:
  assumes "announced k restarting a (obs s)" "\<And>e s'. can_end None (obs s') \<Longrightarrow> Q (Failed e) s'"
    "\<And>c s'. can_end (Some a) (obs s') \<Longrightarrow> Q (Interrupt c (Some a)) s'" "\<And>s'. safe (obs s') \<Longrightarrow> W s'"
    "\<And>s'. obs s' = obs s \<Longrightarrow> wp m Q W s'"
  shows "wp (unless_latched_running ops n a m) Q W s"
  unfolding unless_latched_running_def committed_def
  by (intro wp_seq wp_call_obs wp_if wp_drainUntilTerminal wp_case_sum wp_cleanup_attempt wp_ret)
     (use assms announced_end[OF assms(1)] in \<open>auto simp: announced_def alive_held can_end_safe\<close>)

lemma wp_after_cleanup_latched:
  assumes "can_end None (obs s)" "\<And>e s'. can_end None (obs s') \<Longrightarrow> Q (Failed e) s'"
    "\<And>c s'. can_end None (obs s') \<Longrightarrow> Q (Interrupt c None) s'" "\<And>s'. safe (obs s') \<Longrightarrow> W s'"
    "\<And>s'. obs s' = obs s \<Longrightarrow> wp m Q W s'"
  shows "wp (after_cleanup_latched ops n c m) Q W s"
  unfolding after_cleanup_latched_def committed_def
  by (intro wp_seq wp_call_obs wp_if wp_drainUntilTerminal wp_ret)
     (use assms can_end_safe in \<open>auto split: sum.splits\<close>)

lemma wp_attempt_failed:
  assumes "held a (obs s)" "\<And>e s'. can_end None (obs s') \<Longrightarrow> Q (Failed e) s'"
    "\<And>c s'. can_end None (obs s') \<Longrightarrow> Q (Interrupt c None) s'" "\<And>s'. safe (obs s') \<Longrightarrow> W s'"
  shows "wp (update_failed ops n a stage err) Q W s" "wp (health_failed ops n a err) Q W s"
  unfolding update_failed_def health_failed_def committed_details_def committed_def
  by (intro wp_seq wp_cleanup_attempt[OF assms(1)] wp_call_obs wp_if wp_unless_broken wp_after_cleanup_latched wp_ret;
      use assms(2-4) in \<open>auto split: option.splits\<close>)+

lemma announced_held: "announced k restarting a ob \<Longrightarrow> held a ob"
  by (simp add: announced_def alive_def)

lemma now_running:
  assumes "announced k restarting a ob"
  shows "running k a (ob\<lparr>o_announced := StateRunning # o_announced ob, o_status := x\<rparr>)"
    and "held a (ob\<lparr>o_announced := StateRunning # o_announced ob\<rparr>)"
proof -
  have "may_follow (last_status (o_announced ob)) StateRunning"
    using assms by (simp add: announced_def)
  then have "safe (ob\<lparr>o_announced := StateRunning # o_announced ob\<rparr>)"
    using assms by (intro safe_announce) (simp_all add: announced_def alive_def held_def)
  then show "running k a (ob\<lparr>o_announced := StateRunning # o_announced ob, o_status := x\<rparr>)"
    "held a (ob\<lparr>o_announced := StateRunning # o_announced ob\<rparr>)"
    using assms by (simp_all add: announced_def alive_def held_def running_def can_end_def status_ok_def active_def
        live_statuses_def safe_def restarts_def)
qed

lemma wp_announce_running:
  assumes ann: "announced k restarting a (obs s)"
    and Q: "\<And>r s'. attempt_outcome k r (obs s') \<Longrightarrow> Q r s'" and W: "\<And>s'. safe (obs s') \<Longrightarrow> W s'"
  shows "wp (announce_running ops n request a) Q W s"
proof -
  have failed: "Q (Failed e) s'" if "can_end None (obs s')" for e s' using that by (intro Q) simp
  have interrupted: "Q (Interrupt c b) s'" if "can_end b (obs s')" for c b s' using that by (intro Q) simp
  have went: "Q (Went a) s'" if "running k a (obs s')" for s' using that by (intro Q) simp
  show ?thesis
    unfolding announce_running_def committed_def Let_def
    by (intro wp_seq wp_unless_faulted wp_unless_latched_running[of k restarting] wp_call_obs
         wp_case_option wp_attempt_failed wp_unless_broken wp_fail_attempt wp_if
         wp_cleanup_attempt wp_emitState wp_set_snapshot wp_ret)
       (use ann failed interrupted W went in \<open>auto simp: announced_held now_running(1)[OF ann] now_running(2)\<close>)
qed

lemma wp_observe_health:
  assumes ann: "announced k restarting a (obs s)"
    and Q: "\<And>r s'. attempt_outcome k r (obs s') \<Longrightarrow> Q r s'" and W: "\<And>s'. safe (obs s') \<Longrightarrow> W s'"
  shows "wp (observe_health ops n request revision restarting a) Q W s"
proof -
  have snap: "announced k restarting a ((obs s)\<lparr>o_status := x\<rparr>)" for x
    using ann by (auto simp: announced_def alive_def held_def status_ok_def active_def restarts_def live_statuses_def)
  have run: "wp (announce_running ops n request a) Q W s'" if "obs s' = (obs s)\<lparr>o_status := x\<rparr>" for s' x
    using snap that by (intro wp_announce_running[of k restarting] Q W) auto
  have bad: "wp (fail_attempt ops a e) Q W s'" "wp (health_failed ops n a e) Q W s'" if "obs s' = (obs s)\<lparr>o_status := x\<rparr>" for s' x e
    using announced_held[OF snap[of x]] that by (auto intro!: wp_fail_attempt wp_attempt_failed Q W)
  have ends: "can_end (Some a) ((obs s)\<lparr>o_status := x\<rparr>)" "safe (obs s)" for x
    using announced_end[OF snap[of x]] announced_held[OF ann] by (auto simp: held_def)
  have after: "wp (case health of Went u \<Rightarrow> announce_running ops n request a | Interrupt c b \<Rightarrow> ret (Interrupt c (Some a))
       | ReaderBroke e \<Rightarrow> fail_attempt ops a e | Failed e \<Rightarrow> health_failed ops n a e) Q W s'"
    if "obs s' = (obs s)\<lparr>o_status := x\<rparr>" for health s' x
  proof (cases health)
    case (Interrupt c b)
    then show ?thesis using ends that by (auto intro!: wp_ret Q)
  qed (use run bad that in simp_all)
  show ?thesis
    unfolding observe_health_def
    by (intro wp_seq wp_if wp_call_obs wp_set_snapshot wp_awaitHealth after) (simp_all add: ends W)
qed

lemma starting_announced:
  assumes "fresh k False a ob"
  shows "announced k False a (ob\<lparr>o_announced := StateStartingBackend # o_announced ob\<rparr>)"
proof -
  have "safe (ob\<lparr>o_announced := StateStartingBackend # o_announced ob\<rparr>)"
    using assms by (intro safe_announce) (simp_all add: fresh_def alive_def held_def)
  then show ?thesis
    using assms by (simp add: fresh_def announced_def alive_def held_def status_ok_def active_def live_statuses_def restarts_def)
qed

lemma wp_watch_attempt:
  assumes start: "fresh k restarting a (obs s)"
    and Q: "\<And>r s'. attempt_outcome k r (obs s') \<Longrightarrow> Q r s'" and W: "\<And>s'. safe (obs s') \<Longrightarrow> W s'"
  shows "wp (watch_attempt ops n request revision restarting a) Q W s"
proof -
  have held: "held a (obs s)" using start by (simp add: fresh_def alive_def)
  have failed: "Q (Failed e) s'" if "can_end None (obs s')" for e s' using that by (intro Q) simp
  have interrupted: "Q (Interrupt c b) s'" if "can_end b (obs s')" for c b s' using that by (intro Q) simp
  have go: "wp (case err of Some e \<Rightarrow> fail_attempt ops a e | None \<Rightarrow>
      seq (call (GateOpen ops (at_gate a))) (\<lambda>err. case err of Some e \<Rightarrow> fail_attempt ops a e | None \<Rightarrow>
      seq (call (UpdateTransaction ops (at_tx a) StageBackendHealth)) (\<lambda>updateErr.
        case updateErr of Some e \<Rightarrow> update_failed ops n a StageBackendHealth e
        | None \<Rightarrow> observe_health ops n request revision restarting a))) Q W s'"
    if "announced k restarting a (obs s')" for err s'
    using that announced_held[OF that]
    by (intro wp_seq wp_call_obs wp_case_option wp_fail_attempt wp_attempt_failed wp_observe_health[of k] failed interrupted Q W)
       simp_all
  show ?thesis
    unfolding watch_attempt_def announce_attempt_def
    by (intro wp_unless_faulted wp_seq wp_if wp_call_obs wp_ret wp_emitState go held failed)
       (use start starting_announced in \<open>auto simp: announced_def fresh_def\<close>)
qed

text \<open>The attempt as a whole.\<close>

lemma wp_startControlAttempt:
  assumes start: "can_start k restarting (obs s)" and mode: "mode_ok request"
    and facts: "facts_ok request (env, revision)"
    and Q: "\<And>r s'. attempt_outcome k r (obs s') \<Longrightarrow> Q r s'" and W: "\<And>s'. safe (obs s') \<Longrightarrow> W s'"
  shows "wp (startControlAttempt ops n layout request env revision restarting) Q W s"
proof -
  have failed: "Q (Failed e) s'" if "can_end None (obs s')" for e s' using that by (intro Q) simp
  have interrupted: "Q (Interrupt c None) s'" if "can_end None (obs s')" for c s' using that by (intro Q) simp
  have watch: "wp (case r of Went a \<Rightarrow> watch_attempt ops n request revision restarting a | Interrupt c b \<Rightarrow> ret (Interrupt c b)
      | ReaderBroke e \<Rightarrow> ret (ReaderBroke e) | Failed e \<Rightarrow> ret (Failed e)) Q W s'"
    if "spawn_outcome k restarting r (obs s')" for r s'
    using that by (cases r) (auto simp: spawn_outcome_def intro!: wp_ret wp_watch_attempt[of k] failed interrupted Q W)
  have spawn: "wp (case r of Went x \<Rightarrow> (case x of (l, t) \<Rightarrow>
        and_then (spawn_attempt ops n layout request revision l t) (watch_attempt ops n request revision restarting))
      | Interrupt c b \<Rightarrow> ret (Interrupt c b) | ReaderBroke e \<Rightarrow> ret (ReaderBroke e) | Failed e \<Rightarrow> ret (Failed e)) Q W s'"
    if "prepared_outcome k restarting request revision r (obs s')" for r s'
    using that mode unfolding and_then_def
    by (cases r) (auto simp: prepared_outcome_def intro!: wp_seq wp_spawn_attempt[of k restarting] watch wp_ret failed W)
  have "modeForRequest request = ModeManaged \<Longrightarrow> revision = env_lastSuccessful env"
    using facts by (simp add: facts_ok_def)
  then have prep: "wp (and_then (prepare_attempt ops request env revision) (\<lambda>(l, t).
        and_then (spawn_attempt ops n layout request revision l t) (watch_attempt ops n request revision restarting))) Q W s'"
    if "obs s' = obs s" for s'
    unfolding and_then_def[of "prepare_attempt ops request env revision"]
    using start that by (intro wp_seq wp_prepare_attempt[of k restarting] spawn) auto
  have ends: "can_end None (obs s)" "safe (obs s)" using can_start_end[OF start] can_end_safe by auto
  show ?thesis
    unfolding startControlAttempt_def
    by (intro wp_unless_broken wp_unless_latched wp_seq wp_call_obs wp_case_option wp_ret prep)
       (auto intro!: failed interrupted W simp: ends)
qed

end
