(* ===== verification/Backend_Supervise.thy ===== *)
theory Backend_Supervise
  imports Backend_Attempt
begin

text \<open>
  The supervision that control commands steer, \<open>superviseControlled\<close> of \<open>internal/backend/control.go\<close>:
  the lock, the first attempt, the loop over a running attempt with its one restart, and the
  resources that are closed at the end. The theorems are about every run from the start, for any
  dependencies and any order of events.
\<close>

section \<open>Failures\<close>

definition empty_command :: ControlCommand where
  "empty_command = \<lparr>cc_protocol = 0, cc_command = '''', cc_commandId = ''''\<rparr>"

definition restart_error :: "backend_details \<Rightarrow> go_error \<Rightarrow> go_error" where
  "restart_error facts err =
     newBackendError CodeBackendRestartFailed StageBackendRestart (restartFailureDetails facts err) (Some err)"

definition close_and_join ::
  "'w deps \<Rightarrow> nat \<Rightarrow> bool \<Rightarrow> go_error option list \<Rightarrow> 'w supervision \<Rightarrow> go_error option option \<times> 'w supervision" where
  "close_and_join ops n outputFault errs =
     seq (closeControlBeforeFailure ops n outputFault) (\<lambda>closeErr. ret (Join (closeErr # errs)))"

text \<open>\<open>None\<close> when the error is left to the caller.\<close>

definition handled ::
  "('w supervision \<Rightarrow> go_error option option \<times> 'w supervision) \<Rightarrow> 'w supervision \<Rightarrow>
     go_error option option option \<times> 'w supervision" where
  "handled m = seq m (\<lambda>e. ret (Some e))"

definition resolveStartAttemptError ::
  "'w deps \<Rightarrow> nat \<Rightarrow> go_error \<Rightarrow> bool \<Rightarrow> backend_details \<Rightarrow> 'w supervision \<Rightarrow>
     go_error option option option \<times> 'w supervision" where
  "resolveStartAttemptError ops n err restarting facts =
     (let stage = (if restarting then StageBackendRestart else StageBackendSpawn);
          commits = (restarting \<or> backendErrorCommitted (Some err))
      in
      if backendErrorHasCode (Some err) CodeOutputWriteFailed then
        handled (if commits then emitControlFailure ops n (Some err) else close_and_join ops n True [Some err])
      else
        unless_broken ops
          (\<lambda>e. let joined = Join [Some (reader_failure stage e), Some err] in
               handled (if commits then emitControlFailure ops n joined else close_and_join ops n False [joined]))
          (if backendErrorCommitted (Some err) then
             handled (emitControlFailure ops n (Some (if restarting then restart_error facts err else err)))
           else
             seq (finishLatchedControl ops n None) (\<lambda>latch.
             case latch of
               Some e \<Rightarrow> ret (Some e)
             | None \<Rightarrow>
                 seq (call (CtxErr ops)) (\<lambda>ended.
                 if ended = None then ret None
                 else if restarting then handled (finishControlCancel ops n None '''')
                 else
                   seq (closeControlBeforeFailure ops n False) (\<lambda>closeErr.
                   seq (finishControlCancel ops n None '''') (\<lambda>e. ret (Some (Join [closeErr, e]))))))))"

definition preflight_failed ::
  "'w deps \<Rightarrow> nat \<Rightarrow> go_error \<Rightarrow> 'w supervision \<Rightarrow> go_error option option \<times> 'w supervision" where
  "preflight_failed ops n err =
     (if backendErrorHasCode (Some err) CodeOutputWriteFailed then
        seq (get cs_status) (\<lambda>status.
        if status = StateReadyToStart then close_and_join ops n True [Some err]
        else emitControlFailure ops n (Some err))
      else
        unless_broken ops
          (\<lambda>e. close_and_join ops n False [Some (reader_failure StageBackendSpawn e), Some err])
          (seq (finishLatchedControl ops n None) (\<lambda>latch.
           case latch of
             Some e \<Rightarrow> ret e
           | None \<Rightarrow>
               seq (call (CtxErr ops)) (\<lambda>ended.
               close_and_join ops n (backendErrorHasCode (Some err) CodeOutputWriteFailed)
                 [if ended \<noteq> None then ended else Some err]))))"

text \<open>A restart that fails while it waits or checks.\<close>

definition restart_failed ::
  "'w deps \<Rightarrow> nat \<Rightarrow> backend_details \<Rightarrow> go_error \<Rightarrow> 'w supervision \<Rightarrow> go_error option option \<times> 'w supervision" where
  "restart_failed ops n facts err =
     (if backendErrorHasCode (Some err) CodeOutputWriteFailed then emitControlFailure ops n (Some err)
      else
        unless_broken ops (\<lambda>_. emitControlFailure ops n (Some err))
          (seq (finishLatchedControl ops n None) (\<lambda>latch.
           case latch of
             Some e \<Rightarrow> ret e
           | None \<Rightarrow>
               seq (call (CtxErr ops)) (\<lambda>ended.
               if ended \<noteq> None then finishControlCancel ops n None ''''
               else emitControlFailure ops n (Some (restart_error facts err))))))"

section \<open>The first attempt\<close>

text \<open>A supervision goes on with an attempt or ends with its result.\<close>

definition ends ::
  "('w supervision \<Rightarrow> go_error option option \<times> 'w supervision) \<Rightarrow> 'w supervision \<Rightarrow>
     (go_error option + controlAttempt) option \<times> 'w supervision" where
  "ends m = seq m (\<lambda>e. ret (Inl e))"

definition finish_either ::
  "'w deps \<Rightarrow> nat \<Rightarrow> controlAttempt option \<Rightarrow> ControlCommand \<Rightarrow> 'w supervision \<Rightarrow> go_error option option \<times> 'w supervision" where
  "finish_either ops n attempt c =
     (if attempt = None then finish_interrupt ops n c else finish_command ops n attempt c)"

definition first_start ::
  "'w deps \<Rightarrow> nat \<Rightarrow> backend_layout \<Rightarrow> backend_request \<Rightarrow> EnvironmentState \<Rightarrow> Revision \<Rightarrow>
     'w supervision \<Rightarrow> (go_error option + controlAttempt) option \<times> 'w supervision" where
  "first_start ops n layout request env revision =
     seq (startControlAttempt ops n layout request env revision False) (\<lambda>started.
     case started of
       Went a \<Rightarrow> ret (Inr a)
     | Interrupt c a \<Rightarrow> ends (finish_either ops n a c)
     | ReaderBroke e \<Rightarrow> ends (finish_interrupt ops n empty_command)
     | Failed e \<Rightarrow>
         seq (resolveStartAttemptError ops n e False Map.empty) (\<lambda>resolved.
         case resolved of
           Some r \<Rightarrow> ret (Inl r)
         | None \<Rightarrow>
             ends (close_and_join ops n (backendErrorHasCode (Some e) CodeOutputWriteFailed) [Some e])))"

definition first_attempt ::
  "'w deps \<Rightarrow> nat \<Rightarrow> backend_layout \<Rightarrow> backend_request \<Rightarrow> 'w supervision \<Rightarrow>
     (go_error option + controlAttempt) option \<times> 'w supervision" where
  "first_attempt ops n layout request =
     seq (awaitControlPreflight ops layout request n) (\<lambda>checked.
     case checked of
       Interrupt c _ \<Rightarrow> ends (finish_interrupt ops n c)
     | ReaderBroke e \<Rightarrow> ends (finish_interrupt ops n empty_command)
     | Failed e \<Rightarrow> ends (preflight_failed ops n e)
     | Went (env, revision) \<Rightarrow>
         first_start ops n layout request env revision)"

section \<open>The restart\<close>

definition restart_start ::
  "'w deps \<Rightarrow> nat \<Rightarrow> backend_layout \<Rightarrow> backend_request \<Rightarrow> backend_details \<Rightarrow> EnvironmentState \<Rightarrow> Revision \<Rightarrow>
     'w supervision \<Rightarrow> (go_error option + controlAttempt) option \<times> 'w supervision" where
  "restart_start ops n layout request facts env revision =
     seq (startControlAttempt ops n layout request env revision True) (\<lambda>started.
     case started of
       Went a \<Rightarrow> ret (Inr a)
     | Interrupt c a \<Rightarrow> ends (finish_either ops n a c)
     | ReaderBroke e \<Rightarrow> ends (finish_interrupt ops n empty_command)
     | Failed e \<Rightarrow>
         seq (resolveStartAttemptError ops n e True facts) (\<lambda>resolved.
         case resolved of
           Some r \<Rightarrow> ret (Inl r)
         | None \<Rightarrow> ends (emitControlFailure ops n (Some (restart_error facts e)))))"

definition restart_attempt ::
  "'w deps \<Rightarrow> nat \<Rightarrow> backend_layout \<Rightarrow> backend_request \<Rightarrow> backend_details \<Rightarrow> 'w supervision \<Rightarrow>
     (go_error option + controlAttempt) option \<times> 'w supervision" where
  "restart_attempt ops n layout request facts =
     seq (set_snapshot StageBackendRestart StateRestarting Map.empty) (\<lambda>_.
     seq (emitState ops StageBackendRestart StateRestarting MsgRestarting Map.empty) (\<lambda>err.
     if err \<noteq> None then ret (Inl err)
     else
       seq (waitRestart ops n) (\<lambda>waited.
       case waited of
         Interrupt c _ \<Rightarrow> ends (finish_command ops n None c)
       | ReaderBroke e \<Rightarrow> ends (finish_command ops n None empty_command)
       | Failed e \<Rightarrow> ends (restart_failed ops n facts e)
       | Went _ \<Rightarrow>
           seq (awaitControlPreflight ops layout request n) (\<lambda>checked.
           case checked of
             Interrupt c a \<Rightarrow> ends (if a = None then finish_interrupt ops n c else finish_command ops n None c)
           | ReaderBroke e \<Rightarrow> ends (finish_interrupt ops n empty_command)
           | Failed e \<Rightarrow> ends (restart_failed ops n facts e)
           | Went (env, revision) \<Rightarrow> restart_start ops n layout request facts env revision))))"

section \<open>The loop over a running attempt\<close>

definition fail_running ::
  "'w deps \<Rightarrow> nat \<Rightarrow> controlAttempt \<Rightarrow> go_error option \<Rightarrow> 'w supervision \<Rightarrow> go_error option option \<times> 'w supervision" where
  "fail_running ops n a err =
     seq (cleanup_attempt ops a) (\<lambda>c. emitControlFailure ops n (Join [pc_err c, err]))"

definition reader_failed ::
  "'w deps \<Rightarrow> nat \<Rightarrow> controlAttempt \<Rightarrow> go_error \<Rightarrow> 'w supervision \<Rightarrow> go_error option option \<times> 'w supervision" where
  "reader_failed ops n a e = fail_running ops n a (Some (reader_failure StageBackendRun e))"

text \<open>A fault of the output behind which a shutdown is latched does not stop the graceful shutdown.\<close>

definition shutdownLatchedBehindOutputFault ::
  "'w deps \<Rightarrow> go_error option \<Rightarrow> 'w supervision \<Rightarrow> string option option \<times> 'w supervision" where
  "shutdownLatchedBehindOutputFault ops fault =
     (if \<not> backendErrorHasCode fault CodeOutputWriteFailed then ret None
      else
        seq (call (LatchedCommand ops)) (\<lambda>latch.
        ret (case latch of
               Some c \<Rightarrow> if cc_command c = ControlShutdown then Some (cc_commandId c) else None
             | None \<Rightarrow> None)))"

definition on_fault ::
  "'w deps \<Rightarrow> nat \<Rightarrow> controlAttempt \<Rightarrow> go_error option \<Rightarrow> 'w supervision \<Rightarrow> go_error option option \<times> 'w supervision" where
  "on_fault ops n a fault =
     seq (shutdownLatchedBehindOutputFault ops fault) (\<lambda>shutdown.
     case shutdown of
       Some commandID \<Rightarrow> seq (finishControlShutdown ops n (Some a) commandID) (\<lambda>e. ret (Join [fault, e]))
     | None \<Rightarrow> fail_running ops n a fault)"

definition end_by_context ::
  "'w deps \<Rightarrow> nat \<Rightarrow> controlAttempt \<Rightarrow> 'w supervision \<Rightarrow> go_error option option \<times> 'w supervision" where
  "end_by_context ops n a =
     seq (call (LatchedCommand ops)) (\<lambda>latch.
     case latch of
       Some c \<Rightarrow>
         if cc_command c = ControlShutdown then finishControlShutdown ops n (Some a) (cc_commandId c)
         else finishControlCancel ops n (Some a) (cc_commandId c)
     | None \<Rightarrow> finishControlCancel ops n (Some a) '''')"

text \<open>What comes before any other reaction: a fault of the gate, then a failure of the reader.\<close>

definition unless_run_failed ::
  "'w deps \<Rightarrow> nat \<Rightarrow> controlAttempt \<Rightarrow> ('w supervision \<Rightarrow> (go_error option + controlAttempt) option \<times> 'w supervision) \<Rightarrow>
     'w supervision \<Rightarrow> (go_error option + controlAttempt) option \<times> 'w supervision" where
  "unless_run_failed ops n a m =
     seq (call (GateFault ops (at_gate a))) (\<lambda>fault.
     if fault \<noteq> None then ends (fail_running ops n a fault)
     else unless_broken ops (\<lambda>e. ends (reader_failed ops n a e)) m)"

text \<open>The process has exited and no command is latched: it is cleaned up and, once, started again.\<close>

definition process_gone ::
  "'w deps \<Rightarrow> nat \<Rightarrow> backend_layout \<Rightarrow> backend_request \<Rightarrow> controlAttempt \<Rightarrow> bool \<Rightarrow> 'w supervision \<Rightarrow>
     (go_error option + controlAttempt) option \<times> 'w supervision" where
  "process_gone ops n layout request a used =
     seq (cleanup_attempt ops a) (\<lambda>c.
     seq (call (GateFault ops (at_gate a))) (\<lambda>fault.
     if fault \<noteq> None then ends (emitControlFailure ops n (Join [fault, pc_err c]))
     else if pc_err c \<noteq> None then ends (emitControlFailure ops n (pc_err c))
     else
       unless_broken ops (\<lambda>e. ends (emitControlFailure ops n (Some (reader_failure StageBackendRun e))))
         (seq (call (LatchedCommand ops)) (\<lambda>latch.
          if latch \<noteq> None then
            seq (drainUntilTerminal ops n) (\<lambda>r.
            case r of
              Inl e \<Rightarrow> ends (emitControlFailure ops n (Some e))
            | Inr command \<Rightarrow> ends (finish_command ops n None command))
          else
            seq (call (CtxErr ops)) (\<lambda>ended.
            if ended \<noteq> None then ends (finishControlCancel ops n None '''')
            else if used then
              ends (emitControlFailure ops n
                (Some (newCommittedBackendError CodeBackendExitedUnexpectedly StageBackendRun (pc_details c) None)))
            else restart_attempt ops n layout request (pc_details c))))))"

definition on_exited ::
  "'w deps \<Rightarrow> nat \<Rightarrow> backend_layout \<Rightarrow> backend_request \<Rightarrow> controlAttempt \<Rightarrow> bool \<Rightarrow> 'w supervision \<Rightarrow>
     (go_error option + controlAttempt) option \<times> 'w supervision" where
  "on_exited ops n layout request a used =
     unless_run_failed ops n a
       (seq (call (LatchedCommand ops)) (\<lambda>latch.
        if latch \<noteq> None then
          seq (drainUntilTerminal ops n) (\<lambda>r.
          case r of
            Inl e \<Rightarrow> ends (fail_running ops n a (Some e))
          | Inr c \<Rightarrow> ends (finish_command ops n (Some a) c))
        else process_gone ops n layout request a used))"

text \<open>An event of the control channel; only an answered status command lets the attempt run on.\<close>

definition on_result ::
  "'w deps \<Rightarrow> nat \<Rightarrow> controlAttempt \<Rightarrow> controlResult \<Rightarrow> 'w supervision \<Rightarrow>
     (go_error option + controlAttempt) option \<times> 'w supervision" where
  "on_result ops n a result =
     (case result of
        ResultError e \<Rightarrow>
          unless_run_failed ops n a
            (seq (finishLatchedControl ops n (Some a)) (\<lambda>latch.
             case latch of
               Some r \<Rightarrow> ret (Inl r)
             | None \<Rightarrow>
                 seq (call (CtxErr ops)) (\<lambda>ended.
                 if ended \<noteq> None then ends (finishControlCancel ops n (Some a) '''')
                 else ends (reader_failed ops n a e))))
      | ResultCommand c \<Rightarrow>
          if cc_command c = ControlStatus then
            seq (answer_status ops (cc_commandId c)) (\<lambda>err.
            case err of
              Some e \<Rightarrow> ends (fail_running ops n a (Some e))
            | None \<Rightarrow> ret (Inr a))
          else if cc_command c = ControlCancel then
            unless_run_failed ops n a (ends (finishControlCancel ops n (Some a) (cc_commandId c)))
          else if cc_command c = ControlShutdown then
            unless_run_failed ops n a (ends (finishControlShutdown ops n (Some a) (cc_commandId c)))
          else ret (Inr a))"

text \<open>One pass of the loop. A process that exited and was started again has used the restart.\<close>

definition on_event ::
  "'w deps \<Rightarrow> nat \<Rightarrow> backend_layout \<Rightarrow> backend_request \<Rightarrow> controlAttempt \<Rightarrow> bool \<Rightarrow> main_event \<Rightarrow>
     'w supervision \<Rightarrow> (go_error option + controlAttempt) option \<times> 'w supervision" where
  "on_event ops n layout request a used ev =
     (case ev of
        GateFaulted \<Rightarrow> seq (call (GateFault ops (at_gate a))) (\<lambda>fault. ends (on_fault ops n a fault))
      | MainCtxDone \<Rightarrow> unless_run_failed ops n a (ends (end_by_context ops n a))
      | ProcessExited \<Rightarrow> on_exited ops n layout request a used
      | MainResult r \<Rightarrow> on_result ops n a r)"

definition run_step ::
  "'w deps \<Rightarrow> nat \<Rightarrow> backend_layout \<Rightarrow> backend_request \<Rightarrow> controlAttempt \<Rightarrow> bool \<Rightarrow> 'w supervision \<Rightarrow>
     (go_error option + controlAttempt \<times> bool) option \<times> 'w supervision" where
  "run_step ops n layout request a used =
     seq (call (GateFault ops (at_gate a))) (\<lambda>fault.
     if fault \<noteq> None then seq (on_fault ops n a fault) (\<lambda>e. ret (Inl e))
     else
       unless_broken ops (\<lambda>e. seq (reader_failed ops n a e) (\<lambda>e. ret (Inl e)))
         (seq (call (CtxErr ops)) (\<lambda>ended.
          if ended \<noteq> None then seq (end_by_context ops n a) (\<lambda>e. ret (Inl e))
          else
            seq (call (NextMain ops)) (\<lambda>ev.
            seq (on_event ops n layout request a used ev) (\<lambda>r.
            ret (case r of Inl e \<Rightarrow> Inl e | Inr b \<Rightarrow> Inr (b, (case ev of ProcessExited \<Rightarrow> True | _ \<Rightarrow> used))))))))"

primrec supervise_loop ::
  "'w deps \<Rightarrow> backend_layout \<Rightarrow> backend_request \<Rightarrow> nat \<Rightarrow> controlAttempt \<Rightarrow> bool \<Rightarrow> 'w supervision \<Rightarrow>
     go_error option option \<times> 'w supervision" where
  "supervise_loop ops layout request 0 a used = waiting"
| "supervise_loop ops layout request (Suc n) a used =
     seq (run_step ops n layout request a used) (\<lambda>r.
     case r of
       Inl e \<Rightarrow> ret e
     | Inr (b, used') \<Rightarrow> supervise_loop ops layout request n b used')"

section \<open>The whole supervision\<close>

definition supervise_held ::
  "'w deps \<Rightarrow> nat \<Rightarrow> backend_layout \<Rightarrow> backend_request \<Rightarrow> 'w supervision \<Rightarrow> go_error option option \<times> 'w supervision" where
  "supervise_held ops n layout request =
     seq (first_attempt ops n layout request) (\<lambda>r.
     case r of
       Inl e \<Rightarrow> ret e
     | Inr a \<Rightarrow> supervise_loop ops layout request n a False)"

definition acquire_lock :: "'w deps \<Rightarrow> 'w supervision \<Rightarrow> (nat option \<times> go_error option) option \<times> 'w supervision" where
  "acquire_lock ops =
     seq (call (AcquireLock ops)) (\<lambda>(lease, err).
     seq (case lease of None \<Rightarrow> ret () | Some l \<Rightarrow> act (AcquiredLease l)) (\<lambda>_. ret (lease, err)))"

definition close_lease :: "'w deps \<Rightarrow> nat \<Rightarrow> 'w supervision \<Rightarrow> go_error option option \<times> 'w supervision" where
  "close_lease ops l =
     seq (act (ClosedLease l)) (\<lambda>_. seq (call (CloseLease ops l)) (\<lambda>e. ret (mapMutexCleanupError e)))"

definition close_state :: "'w deps \<Rightarrow> 'w supervision \<Rightarrow> go_error option option \<times> 'w supervision" where
  "close_state ops =
     seq (act ClosedState) (\<lambda>_. seq (call (CloseState ops)) (\<lambda>e. ret (mapStateCleanupError e)))"

definition close_lock_set :: "'w deps \<Rightarrow> 'w supervision \<Rightarrow> go_error option option \<times> 'w supervision" where
  "close_lock_set ops =
     seq (act ClosedLockSet) (\<lambda>_. seq (call (CloseLockSet ops)) (\<lambda>e. ret (mapMutexCleanupError e)))"

definition lock_failed ::
  "'w deps \<Rightarrow> nat \<Rightarrow> nat option \<Rightarrow> go_error option \<Rightarrow> 'w supervision \<Rightarrow> go_error option option \<times> 'w supervision" where
  "lock_failed ops n lease err =
     seq (call (CtxErr ops)) (\<lambda>ended.
     let primary = preferCancellation ended
           (mapDependencyError StageBackendSpawn CodeMutexOperationFailed (or_plain err ''backend lock lease is nil''))
     in
     seq (close_state ops) (\<lambda>e1.
     seq (case lease of None \<Rightarrow> ret (Join [None, e1])
          | Some l \<Rightarrow> seq (close_lease ops l) (\<lambda>e2. ret (Join [Join [None, e1], e2]))) (\<lambda>e12.
     seq (close_lock_set ops) (\<lambda>e3.
     let resourceErr = Join [e12, e3] in
     seq (finishLatchedControl ops n None) (\<lambda>latch.
     case latch of
       Some e \<Rightarrow> ret (Join [resourceErr, e])
     | None \<Rightarrow>
         seq (closeControlBeforeFailure ops n (backendErrorHasCode primary CodeOutputWriteFailed)) (\<lambda>closeErr.
         ret (Join [resourceErr, closeErr, primary])))))))"

definition superviseControlled ::
  "'w deps \<Rightarrow> nat \<Rightarrow> backend_layout \<Rightarrow> backend_request \<Rightarrow> 'w supervision \<Rightarrow> go_error option option \<times> 'w supervision" where
  "superviseControlled ops n layout request =
     seq (set_snapshot StageBackendSpawn StateReadyToStart Map.empty) (\<lambda>_.
     seq (acquire_lock ops) (\<lambda>(lease, err).
     case lease of
       None \<Rightarrow> lock_failed ops n None err
     | Some l \<Rightarrow>
         if err \<noteq> None then lock_failed ops n (Some l) err
         else
           seq (upd (\<lambda>s. s\<lparr>rs_lease := Some l\<rparr>)) (\<lambda>_.
           seq (supervise_held ops n layout request) (\<lambda>result.
           seq (closeResources ops) (\<lambda>resourceErr. ret (Join [result, resourceErr]))))))"

section \<open>How the parts end\<close>

lemma wp_emit_failure:
  assumes "can_end None (obs s)" "\<And>e s'. over (obs s') \<Longrightarrow> Q e s'" "\<And>s'. safe (obs s') \<Longrightarrow> W s'"
  shows "wp (emitControlFailure ops n err) Q W s"
proof -
  have "last_status (o_announced (obs s)) \<in> set (StateReadyToStart # StateStoppingBackend # live_statuses)"
    using assms(1) by (auto simp: can_end_def status_ok_def)
  then show ?thesis
    using assms by (intro wp_emitControlFailure) (simp_all add: can_end_def)
qed

lemma wp_close_and_join:
  assumes "can_end None (obs s)" "\<And>e s'. over (obs s') \<Longrightarrow> Q e s'" "\<And>s'. safe (obs s') \<Longrightarrow> W s'"
  shows "wp (close_and_join ops n outputFault errs) Q W s"
  unfolding close_and_join_def
  by (intro wp_seq wp_close_control wp_ret) (use assms in \<open>auto simp: can_end_over can_end_safe\<close>)

lemma can_end_cancel:
  assumes "can_end None (obs s)" "\<And>e s'. over (obs s') \<Longrightarrow> Q e s'" "\<And>s'. safe (obs s') \<Longrightarrow> W s'"
  shows "wp (finishControlCancel ops n None c) Q W s"
  by (rule wp_finishControlCancel[OF assms])

lemma wp_latched_end:
  assumes "can_end None (obs s)" "\<And>e s'. over (obs s') \<Longrightarrow> Q (Some e) s'" "\<And>s'. can_end None (obs s') \<Longrightarrow> Q None s'"
    "\<And>s'. safe (obs s') \<Longrightarrow> W s'"
  shows "wp (finishLatchedControl ops n None) Q W s"
  by (rule wp_finishLatchedControl) (use assms in auto)

lemma wp_resolveStartAttemptError:
  assumes "can_end None (obs s)" "\<And>e s'. over (obs s') \<Longrightarrow> Q (Some e) s'" "\<And>s'. can_end None (obs s') \<Longrightarrow> Q None s'"
    "\<And>s'. safe (obs s') \<Longrightarrow> W s'"
  shows "wp (resolveStartAttemptError ops n err restarting facts) Q W s"
  unfolding resolveStartAttemptError_def handled_def Let_def
  by (intro wp_if wp_seq wp_unless_broken wp_emit_failure wp_close_and_join wp_latched_end wp_call_obs
        wp_case_option wp_close_control can_end_cancel wp_ret)
     (use assms in \<open>auto simp: can_end_safe\<close>)

lemma wp_preflight_failed:
  assumes "can_end None (obs s)" "\<And>e s'. over (obs s') \<Longrightarrow> Q e s'" "\<And>s'. safe (obs s') \<Longrightarrow> W s'"
  shows "wp (preflight_failed ops n err) Q W s"
  unfolding preflight_failed_def
  by (intro wp_if wp_seq wp_get wp_unless_broken wp_emit_failure wp_close_and_join wp_latched_end wp_call_obs
        wp_case_option wp_ret)
     (use assms in auto)

lemma wp_restart_failed:
  assumes "can_end None (obs s)" "\<And>e s'. over (obs s') \<Longrightarrow> Q e s'" "\<And>s'. safe (obs s') \<Longrightarrow> W s'"
  shows "wp (restart_failed ops n facts err) Q W s"
  unfolding restart_failed_def
  by (intro wp_if wp_seq wp_unless_broken wp_emit_failure wp_latched_end wp_call_obs can_end_cancel
        wp_case_option wp_ret)
     (use assms in auto)

lemma wp_ends:
  assumes "wp m (\<lambda>e. Q (Inl e)) W s"
  shows "wp (ends m) Q W s"
  unfolding ends_def by (intro wp_seq wp_weaken[OF assms] wp_ret)

lemma wp_finish_either:
  assumes "can_end attempt (obs s)" "\<And>e s'. over (obs s') \<Longrightarrow> Q e s'" "\<And>s'. safe (obs s') \<Longrightarrow> W s'"
  shows "wp (finish_either ops n attempt c) Q W s"
proof (cases attempt)
  case None
  then show ?thesis using assms by (simp add: finish_either_def wp_finish_interrupt)
next
  case (Some a)
  then have "active (obs s)" using assms(1) by (simp add: can_end_def)
  then show ?thesis using Some assms by (simp add: finish_either_def wp_finish_command)
qed

text \<open>The outcome of a part that starts an attempt.\<close>

fun part_outcome :: "nat \<Rightarrow> go_error option + controlAttempt \<Rightarrow> observation \<Rightarrow> bool" where
  "part_outcome k (Inl e) ob \<longleftrightarrow> over ob"
| "part_outcome k (Inr a) ob \<longleftrightarrow> running k a ob"

lemma only_read_can_end: "only_read ob ob' \<Longrightarrow> can_end a ob' = can_end a ob"
  by (simp add: can_end_def only_read_safe)

lemma wp_case_step:
  "(\<And>x. r = Went x \<Longrightarrow> wp (f x) Q W s) \<Longrightarrow> (\<And>c a. r = Interrupt c a \<Longrightarrow> wp (g c a) Q W s) \<Longrightarrow>
     (\<And>e. r = ReaderBroke e \<Longrightarrow> wp (h e) Q W s) \<Longrightarrow> (\<And>e. r = Failed e \<Longrightarrow> wp (i e) Q W s) \<Longrightarrow>
     wp (case r of Went x \<Rightarrow> f x | Interrupt c a \<Rightarrow> g c a | ReaderBroke e \<Rightarrow> h e | Failed e \<Rightarrow> i e) Q W s"
  by (cases r) auto

lemma wp_first_start:
  assumes "can_start k False (obs s)" "mode_ok request" "facts_ok request (env, revision)"
    and Q: "\<And>r s'. part_outcome k r (obs s') \<Longrightarrow> Q r s'" and W: "\<And>s'. safe (obs s') \<Longrightarrow> W s'"
  shows "wp (first_start ops n layout request env revision) Q W s"
  unfolding first_start_def
  by (intro wp_seq wp_startControlAttempt[OF assms(1-3)] wp_case_step wp_ret wp_ends wp_finish_either
        wp_finish_interrupt wp_resolveStartAttemptError wp_case_option wp_close_and_join wp_emit_failure W)
     (auto intro!: Q)

lemma wp_restart_start:
  assumes "can_start k True (obs s)" "mode_ok request" "facts_ok request (env, revision)"
    and Q: "\<And>r s'. part_outcome k r (obs s') \<Longrightarrow> Q r s'" and W: "\<And>s'. safe (obs s') \<Longrightarrow> W s'"
  shows "wp (restart_start ops n layout request details env revision) Q W s"
  unfolding restart_start_def
  by (intro wp_seq wp_startControlAttempt[OF assms(1-3)] wp_case_step wp_ret wp_ends wp_finish_either
        wp_finish_interrupt wp_resolveStartAttemptError wp_case_option wp_close_and_join wp_emit_failure W)
     (auto intro!: Q)

lemma wp_first_attempt:
  assumes start: "can_start 0 False (obs s)" and mode: "mode_ok request"
    and Q: "\<And>r s'. part_outcome 0 r (obs s') \<Longrightarrow> Q r s'" and W: "\<And>s'. safe (obs s') \<Longrightarrow> W s'"
  shows "wp (first_attempt ops n layout request) Q W s"
proof -
  have start': "can_start 0 False (obs s')" if "only_read (obs s) (obs s')" for s'
    by (rule only_read_start[OF that start])
  have "safe (obs s)" using start by (simp add: can_start_def)
  then show ?thesis
    unfolding first_attempt_def
    by (intro wp_seq wp_awaitControlPreflight wp_case_step wp_case_prod wp_first_start[OF start' mode] wp_ends
          wp_finish_interrupt wp_preflight_failed can_start_end[OF start'] W)
       (auto intro!: Q simp: only_read_safe)
qed

text \<open>Nothing is left of an attempt that was running, and the restart is not used.\<close>

definition gone :: "nat \<Rightarrow> observation \<Rightarrow> bool" where
  "gone k ob \<longleftrightarrow> can_end None ob \<and> restarts ob = k \<and> last_status (o_announced ob) = StateRunning"

lemma restarting_can_start:
  assumes "gone 0 ob"
  shows "can_start 1 True (ob\<lparr>o_status := x, o_announced := StateRestarting # o_announced ob\<rparr>)"
proof -
  have "safe (ob\<lparr>o_status := x, o_announced := StateRestarting # o_announced ob\<rparr>)"
    using assms by (simp add: gone_def can_end_def safe_def restarts_def)
  then show ?thesis
    using assms by (simp add: gone_def can_end_def can_start_def restarts_def safe_def status_ok_def active_def
        live_statuses_def)
qed

lemma gone_safe: "gone k ob \<Longrightarrow> safe ob"
  by (simp add: gone_def can_end_def)

lemma can_start_active: "can_start k True ob \<Longrightarrow> active ob"
  by (simp add: can_start_def active_def live_statuses_def)

lemma wp_restart_attempt:
  assumes start: "gone 0 (obs s)" and mode: "mode_ok request"
    and Q: "\<And>r s'. part_outcome 1 r (obs s') \<Longrightarrow> Q r s'" and W: "\<And>s'. safe (obs s') \<Longrightarrow> W s'"
  shows "wp (restart_attempt ops n layout request facts) Q W s"
proof -
  have ready: "can_start 1 True (obs s')"
    if "only_read ((obs s)\<lparr>o_status := StateRestarting, o_announced := StateRestarting # o_announced (obs s)\<rparr>) (obs s')" for s'
    by (rule only_read_start[OF that restarting_can_start[OF start]])
  have safe: "safe (obs s')"
    if "only_read ((obs s)\<lparr>o_status := StateRestarting, o_announced := StateRestarting # o_announced (obs s)\<rparr>) (obs s')" for s'
    using ready[OF that] by (simp add: can_start_def)
  have over: "over ((obs s)\<lparr>o_status := StateRestarting, o_announced := StateRestarting # o_announced (obs s)\<rparr>)"
    by (rule can_end_over[OF can_start_end[OF restarting_can_start[OF start]]])
  show ?thesis
    unfolding restart_attempt_def
    by (intro wp_seq wp_set_snapshot wp_emitState wp_if wp_ret wp_waitRestart wp_case_step wp_ends wp_finish_command
          wp_restart_failed wp_awaitControlPreflight wp_finish_interrupt wp_case_prod
          wp_restart_start[OF ready mode] can_start_end[OF ready] can_start_active[OF ready] W)
       (auto intro!: Q intro: safe over over[unfolded over_def, THEN conjunct1])
qed

lemma running_held: "running k a ob \<Longrightarrow> held a ob"
  by (simp add: running_def can_end_held)

lemma running_end: "running k a ob \<Longrightarrow> can_end (Some a) ob"
  by (simp add: running_def)

lemma running_active: "running k a ob \<Longrightarrow> active ob"
  by (simp add: running_def can_end_def)

lemma running_safe: "running k a ob \<Longrightarrow> safe ob"
  by (simp add: running_def can_end_def)

lemma running_gone:
  assumes "running k a ob"
  shows "gone k (released (at_process a) (Some (at_tx a)) (Some (at_logger a)) ob)"
  using assms held_released[OF running_held[OF assms]] by (simp add: running_def gone_def restarts_def)

lemma wp_cleanup_running:
  assumes "running k a (obs s)" "\<And>c s'. gone k (obs s') \<Longrightarrow> Q c s'"
  shows "wp (cleanup_attempt ops a) Q W s"
proof -
  obtain p where p: "at_process a = Some p" using assms(1) by (auto simp: running_def can_end_def owns_def)
  show ?thesis
    unfolding cleanup_attempt_def p
    using running_gone[OF assms(1)] p by (intro wp_cleanupProcess assms(2)) simp
qed

lemma gone_end: "gone k ob \<Longrightarrow> can_end None ob"
  by (simp add: gone_def)

lemma gone_active: "gone k ob \<Longrightarrow> active ob"
  by (simp add: gone_def active_def live_statuses_def)

lemma wp_process_gone:
  assumes run: "running (if used then 1 else 0) a (obs s)" and mode: "mode_ok request"
    and Q: "\<And>r s'. part_outcome 1 r (obs s') \<Longrightarrow> Q r s'" and W: "\<And>s'. safe (obs s') \<Longrightarrow> W s'"
  shows "wp (process_gone ops n layout request a used) Q W s"
  unfolding process_gone_def
  by (intro wp_seq wp_cleanup_running[OF run] wp_call_obs wp_if wp_ends wp_emit_failure wp_unless_broken
        wp_drainUntilTerminal wp_case_sum wp_finish_command can_end_cancel wp_restart_attempt mode W)
     (auto intro!: Q gone_end gone_active simp: gone_safe)

lemma wp_fail_running:
  assumes run: "running k a (obs s)" and Q: "\<And>e s'. over (obs s') \<Longrightarrow> Q e s'" and W: "\<And>s'. safe (obs s') \<Longrightarrow> W s'"
  shows "wp (fail_running ops n a err) Q W s" "wp (reader_failed ops n a e) Q W s"
  unfolding reader_failed_def fail_running_def
  by (intro wp_seq wp_cleanup_running[OF run] wp_emit_failure Q W gone_end; assumption)+

lemma wp_unless_run_failed:
  assumes run: "running k a (obs s)" and Q: "\<And>e s'. over (obs s') \<Longrightarrow> Q (Inl e) s'" and W: "\<And>s'. safe (obs s') \<Longrightarrow> W s'"
    and m: "\<And>s'. obs s' = obs s \<Longrightarrow> wp m Q W s'"
  shows "wp (unless_run_failed ops n a m) Q W s"
  unfolding unless_run_failed_def
  by (intro wp_seq wp_call_obs wp_if wp_ends wp_fail_running[of k] wp_unless_broken Q W m) (auto simp: run)

lemma wp_on_exited:
  assumes run: "running (if used then 1 else 0) a (obs s)" and mode: "mode_ok request"
    and Q: "\<And>r s'. part_outcome 1 r (obs s') \<Longrightarrow> Q r s'" and W: "\<And>s'. safe (obs s') \<Longrightarrow> W s'"
  shows "wp (on_exited ops n layout request a used) Q W s"
  unfolding on_exited_def
  by (intro wp_unless_run_failed[OF run] wp_seq wp_call_obs wp_if wp_drainUntilTerminal wp_case_sum wp_ends
        wp_fail_running[of "if used then 1 else 0"] wp_finish_command wp_process_gone mode W)
     (use run in \<open>auto intro!: Q running_end[OF run] running_active[OF run] running_safe[OF run]\<close>)

lemma wp_on_fault:
  assumes run: "running k a (obs s)" and Q: "\<And>e s'. over (obs s') \<Longrightarrow> Q e s'" and W: "\<And>s'. safe (obs s') \<Longrightarrow> W s'"
  shows "wp (on_fault ops n a fault) Q W s"
  unfolding on_fault_def shutdownLatchedBehindOutputFault_def
  by (intro wp_seq wp_if wp_call_obs wp_ret wp_case_option wp_finishControlShutdown wp_fail_running[of k] W)
     (use run in \<open>auto intro!: Q running_end[OF run] running_active[OF run]\<close>)

lemma wp_end_by_context:
  assumes run: "running k a (obs s)" and Q: "\<And>e s'. over (obs s') \<Longrightarrow> Q e s'" and W: "\<And>s'. safe (obs s') \<Longrightarrow> W s'"
  shows "wp (end_by_context ops n a) Q W s"
  unfolding end_by_context_def
  by (intro wp_seq wp_if wp_call_obs wp_case_option wp_finishControlShutdown wp_finishControlCancel W)
     (use run in \<open>auto intro!: Q running_end[OF run] running_active[OF run]\<close>)

text \<open>The channel reports its end only after every command that was accepted: when it has, with no
  fault of the gate and no failure of the reader, no terminal command is latched.\<close>

definition quiet_at_end :: "'w deps \<Rightarrow> 'w \<Rightarrow> bool" where
  "quiet_at_end ops w \<longleftrightarrow>
     (\<forall>g w2 w3. GateFault ops g w = (None, w2) \<longrightarrow> InfraErr ops w2 = (None, w3) \<longrightarrow>
        fst (LatchedCommand ops w3) = None)"

definition channel_fifo :: "'w deps \<Rightarrow> bool" where
  "channel_fifo ops \<longleftrightarrow>
     (\<forall>w e w1. NextMain ops w = (MainResult (ResultError e), w1) \<longrightarrow> quiet_at_end ops w1)"

lemma wp_unless_run_failed_quiet:
  assumes run: "running k a (obs s)" and quiet: "quiet_at_end ops (world s)"
    and Q: "\<And>e s'. over (obs s') \<Longrightarrow> Q (Inl e) s'" and W: "\<And>s'. safe (obs s') \<Longrightarrow> W s'"
    and m: "\<And>s'. obs s' = obs s \<Longrightarrow> fst (LatchedCommand ops (world s')) = None \<Longrightarrow> wp m Q W s'"
  shows "wp (unless_run_failed ops n a m) Q W s"
  unfolding unless_run_failed_def unless_broken_def
proof (intro wp_seq wp_call wp_if wp_ends wp_fail_running[of k] Q W wp_case_option m)
  fix fault infra w1 w2
  assume "GateFault ops (at_gate a) (world s) = (fault, w1)" "\<not> fault \<noteq> None"
    "InfraErr ops (world (s\<lparr>world := w1\<rparr>)) = (infra, w2)" "infra = None"
  then show "fst (LatchedCommand ops (world (s\<lparr>world := w1, world := w2\<rparr>))) = None"
    using quiet by (simp add: quiet_at_end_def)
qed (use run in simp_all)

lemma wp_result_error:
  assumes run: "running k a (obs s)" and quiet: "quiet_at_end ops (world s)"
    and Q: "\<And>e s'. over (obs s') \<Longrightarrow> Q (Inl e) s'" and W: "\<And>s'. safe (obs s') \<Longrightarrow> W s'"
  shows "wp (on_result ops n a (ResultError e)) Q W s"
  unfolding on_result_def controlResult.case
  by (intro wp_unless_run_failed_quiet[OF run quiet] wp_seq wp_finishLatchedControl_quiet wp_case_option wp_ret
        wp_call_obs wp_if wp_ends wp_finishControlCancel wp_fail_running[of k] W)
     (use run in \<open>auto intro!: Q running_end[OF run]\<close>)

lemma wp_on_event:
  assumes run: "running (if used then 1 else 0) a (obs s)" and mode: "mode_ok request"
    and quiet: "\<And>e. ev = MainResult (ResultError e) \<Longrightarrow> quiet_at_end ops (world s)"
    and Q: "\<And>r s'. part_outcome (if ev = ProcessExited \<or> used then 1 else 0) r (obs s') \<Longrightarrow> Q r s'"
    and W: "\<And>s'. safe (obs s') \<Longrightarrow> W s'"
  shows "wp (on_event ops n layout request a used ev) Q W s"
proof (cases ev)
  case GateFaulted
  then show ?thesis
    unfolding on_event_def main_event.case GateFaulted
    by (intro wp_seq wp_call_obs wp_ends wp_on_fault[of "if used then 1 else 0"] W) (use run in \<open>auto intro!: Q\<close>)
next
  case MainCtxDone
  then show ?thesis
    unfolding on_event_def main_event.case MainCtxDone
    by (intro wp_unless_run_failed[OF run] wp_ends wp_end_by_context[of "if used then 1 else 0"] W)
       (use run in \<open>auto intro!: Q\<close>)
next
  case ProcessExited
  then show ?thesis
    unfolding on_event_def main_event.case ProcessExited
    by (intro wp_on_exited[OF run mode] W) (use Q ProcessExited in simp)
next
  case (MainResult r)
  show ?thesis
  proof (cases r)
    case (ResultError e)
    have "quiet_at_end ops (world s)" using quiet MainResult ResultError by blast
    then show ?thesis
      unfolding on_event_def main_event.case MainResult ResultError
      by (intro wp_result_error[OF run] W) (simp_all add: Q)
  next
    case (ResultCommand c)
    show ?thesis
      unfolding on_event_def on_result_def main_event.case MainResult ResultCommand controlResult.case
      by (intro wp_if wp_seq wp_answer_status wp_case_option wp_ends wp_fail_running[of "if used then 1 else 0"]
            wp_ret wp_unless_run_failed[OF run] wp_finishControlCancel wp_finishControlShutdown W)
         (use run MainResult ResultCommand in
            \<open>auto intro!: Q running_end[OF run] running_active[OF run]\<close>)
  qed
qed

lemma wp_run_step:
  assumes run: "running (if used then 1 else 0) a (obs s)" and mode: "mode_ok request" and fifo: "channel_fifo ops"
    and Q: "\<And>e s'. over (obs s') \<Longrightarrow> Q (Inl e) s'"
      "\<And>b u s'. running (if u then 1 else 0) b (obs s') \<Longrightarrow> Q (Inr (b, u)) s'"
    and W: "\<And>s'. safe (obs s') \<Longrightarrow> W s'"
  shows "wp (run_step ops n layout request a used) Q W s"
proof -
  have event: "wp (on_event ops n layout request a used ev)
      (\<lambda>r. wp (ret (case r of Inl e \<Rightarrow> Inl e
        | Inr b \<Rightarrow> Inr (b, (case ev of ProcessExited \<Rightarrow> True | _ \<Rightarrow> used)))) Q W) W (t\<lparr>world := w\<rparr>)"
    if "NextMain ops (world t) = (ev, w)" "obs t = obs s" for ev t w
  proof (rule wp_on_event[OF _ mode])
    show "running (if used then 1 else 0) a (obs (t\<lparr>world := w\<rparr>))" using run that by simp
    show "quiet_at_end ops (world (t\<lparr>world := w\<rparr>))" if "ev = MainResult (ResultError e)" for e
      using fifo that \<open>NextMain ops (world t) = (ev, w)\<close> by (simp add: channel_fifo_def)
    show "wp (ret (case r of Inl e \<Rightarrow> Inl e
        | Inr b \<Rightarrow> Inr (b, (case ev of ProcessExited \<Rightarrow> True | _ \<Rightarrow> used)))) Q W s'"
      if "part_outcome (if ev = ProcessExited \<or> used then 1 else 0) r (obs s')" for r s'
      using that by (cases r; cases ev) (auto intro!: wp_ret Q)
  qed (rule W)
  show ?thesis
    unfolding run_step_def
    by (intro wp_seq wp_call_obs wp_if wp_on_fault[of "if used then 1 else 0"] wp_unless_broken
          wp_fail_running[of "if used then 1 else 0"] wp_end_by_context[of "if used then 1 else 0"] wp_ret W
          wp_call[of "NextMain ops"] event)
       (use run in \<open>auto intro!: Q\<close>)
qed

section \<open>The whole run\<close>

lemma wp_supervise_loop:
  assumes "running (if used then 1 else 0) a (obs s)" "mode_ok request" "channel_fifo ops"
    and Q: "\<And>e s'. over (obs s') \<Longrightarrow> Q e s'" and W: "\<And>s'. safe (obs s') \<Longrightarrow> W s'"
  shows "wp (supervise_loop ops layout request n a used) Q W s"
  using assms(1)
proof (induction n arbitrary: a used s)
  case 0
  then show ?case by (simp add: wp_waiting W running_safe)
next
  case (Suc n)
  show ?case
    unfolding supervise_loop.simps
    by (intro wp_seq wp_run_step[OF Suc.prems assms(2,3)]) (auto intro!: wp_ret Q W Suc.IH)
qed

lemma wp_supervise_held:
  assumes "can_start 0 False (obs s)" "mode_ok request" "channel_fifo ops"
    and Q: "\<And>e s'. over (obs s') \<Longrightarrow> Q e s'" and W: "\<And>s'. safe (obs s') \<Longrightarrow> W s'"
  shows "wp (supervise_held ops n layout request) Q W s"
  unfolding supervise_held_def
  by (intro wp_seq wp_first_attempt[OF assms(1,2)])
     (auto intro!: wp_ret Q W wp_supervise_loop assms(2,3) split: sum.splits)

text \<open>Before anything is announced the end of the control channel changes nothing that is observed.\<close>

lemma wp_finishLatchedControl_ready:
  assumes "o_status (obs s) = StateReadyToStart" "\<And>r s'. obs s' = obs s \<Longrightarrow> Q r s'" "\<And>s'. obs s' = obs s \<Longrightarrow> W s'"
  shows "wp (finishLatchedControl ops n None) Q W s"
proof -
  have status: "cs_status s' = StateReadyToStart" if "obs s' = obs s" for s' using assms(1) that by simp
  have quit: "wp (finish_interrupt ops n c) P W s'" if "obs s' = obs s" "\<And>e t. obs t = obs s \<Longrightarrow> P e t" for c P s'
    unfolding finish_interrupt_def finishControlShutdownInterrupt_def
    by (intro wp_if wp_seq wp_get wp_close_control wp_ret) (use status that assms(3) in \<open>auto intro: that(2)\<close>)
  show ?thesis
    unfolding finishLatchedControl_def
    by (intro wp_seq wp_call_obs wp_if wp_ret wp_drainUntilTerminal wp_case_sum quit) (auto intro: assms)
qed

lemma obs_start_fields [simp]:
  "o_stateClosed obs_start = 0" "o_lockClosed obs_start = 0" "o_leases obs_start = []"
  by (simp_all add: obs_start_def)

definition initial_supervision :: "'w \<Rightarrow> 'w supervision" where
  "initial_supervision w =
     \<lparr>world = w, trace = [], cs_stage = '''', cs_status = '''', cs_details = Map.empty, cs_controlClosed = False,
      cs_closeOnce = False, cs_closeErr = None, rs_once = False, rs_err = None, rs_lease = None\<rparr>"

lemma obs_initial [simp]: "obs (initial_supervision w) = obs_start"
  by (simp add: obs_def initial_supervision_def obs_start_def del: obs_cs)

text \<open>Nothing is left open, and what is shared by all attempts is closed exactly once.\<close>

definition all_closed :: "observation \<Rightarrow> bool" where
  "all_closed ob \<longleftrightarrow> o_live ob = [] \<and> o_txs ob = [] \<and> o_logs ob = [] \<and> o_leases ob = [] \<and>
     o_stateClosed ob = 1 \<and> o_lockClosed ob = 1"

definition bounded :: "observation \<Rightarrow> bool" where
  "bounded ob \<longleftrightarrow>
     path_ok (o_announced ob) \<and> count_list (o_announced ob) StateRestarting \<le> 1 \<and>
     o_starts ob \<le> 1 + count_list (o_announced ob) StateRestarting \<and> o_verified ob \<and>
     length (o_live ob) \<le> 1 \<and> length (o_txs ob) \<le> 1 \<and> length (o_logs ob) \<le> 1"

lemma safe_bounded: "safe ob \<Longrightarrow> bounded ob"
  by (simp add: safe_def bounded_def)

lemma wp_lock_failed:
  assumes start: "obs s = obs_start\<lparr>o_status := StateReadyToStart, o_leases := (case lease of None \<Rightarrow> [] | Some l \<Rightarrow> [l])\<rparr>"
    and Q: "\<And>e s'. all_closed (obs s') \<and> bounded (obs s') \<Longrightarrow> Q e s'" and W: "\<And>s'. bounded (obs s') \<Longrightarrow> W s'"
  shows "wp (lock_failed ops n lease err) Q W s"
proof -
  have final: "all_closed ob" "bounded ob"
    if "ob = obs_start\<lparr>o_status := StateReadyToStart, o_leases := [], o_stateClosed := 1, o_lockClosed := 1\<rparr>" for ob
    using that by (simp_all add: all_closed_def bounded_def obs_start_def)
  show ?thesis
    unfolding lock_failed_def close_state_def close_lease_def close_lock_set_def Let_def
    by (intro wp_seq wp_call_obs wp_act_obs wp_case_option wp_ret wp_finishLatchedControl_ready wp_close_control)
       (use start in \<open>auto intro!: Q W final split: option.splits\<close>)
qed

lemma acquired_can_start:
  assumes "ob = obs_start\<lparr>o_status := StateReadyToStart, o_leases := [l], o_lease := Some l\<rparr>"
  shows "can_start 0 False ob"
  using assms by (simp add: can_start_def safe_def owns_def status_ok_def restarts_def resources_ok_def obs_start_def)

lemma obs_lease [simp]: "obs (s\<lparr>rs_lease := l\<rparr>) = (obs s)\<lparr>o_lease := l\<rparr>"
  by (simp add: obs_def del: obs_cs)

lemma wp_superviseControlled:
  assumes "channel_fifo ops" "mode_ok request" "obs s0 = obs_start"
  shows "wp (superviseControlled ops n layout request)
    (\<lambda>_ s. all_closed (obs s) \<and> bounded (obs s)) (\<lambda>s. bounded (obs s)) s0"
proof -
  have closed: "all_closed ob'" "bounded ob'"
    if "over ob" "same_but_resources ob ob'"
      "resources_ok ob \<Longrightarrow> resources_ok ob' \<and> (o_lease ob = None \<or> o_resources ob')" for ob ob'
  proof -
    have ok: "resources_ok ob" using that(1) by (simp add: over_def)
    then obtain l where l: "o_lease ob = Some l" by (auto simp: resources_ok_def split: option.splits)
    have ok': "resources_ok ob'" "o_resources ob'" using that(3)[OF ok] l by auto
    show "all_closed ob'"
      using that(1) ok' l by (simp add: over_def all_closed_def owns_def resources_ok_def same_but_resources_fields[OF that(2)])
    show "bounded ob'"
      using safe_same[OF _ that(2) ok'(1)] that(1) by (simp add: over_def safe_bounded)
  qed
  show ?thesis
    unfolding superviseControlled_def acquire_lock_def
    by (intro wp_seq wp_set_snapshot wp_call_obs wp_case_prod wp_case_option wp_ret wp_act_obs wp_if wp_lock_failed
          wp_upd wp_supervise_held wp_closeResources assms)
       (auto simp: assms acquired_can_start safe_bounded dest: closed)
qed

lemmas superviseControlled_aux = wp_superviseControlled[OF _ _ obs_initial]

end
