(* ===== verification/Backend_Runs.thy ===== *)
theory Backend_Runs
  imports Backend_Supervise
begin

text \<open>
  Runs of the supervision of \<open>internal/backend/control.go\<close> with example dependencies: how a cleanup and
  a supervision go, and where the code departs from its documents.
\<close>

section \<open>An example\<close>

text \<open>Dependencies that always answer without an error: the events of the main loop are given, and
  handles are numbered.\<close>

record example_world =
  ew_main :: "main_event list"
  ew_next :: nat

definition next_main :: "example_world \<Rightarrow> main_event \<times> example_world" where
  "next_main w = (case ew_main w of [] \<Rightarrow> (MainCtxDone, w) | ev # evs \<Rightarrow> (ev, w\<lparr>ew_main := evs\<rparr>))"

definition new_handle :: "example_world \<Rightarrow> nat \<times> example_world" where
  "new_handle w = (ew_next w, w\<lparr>ew_next := Suc (ew_next w)\<rparr>)"

definition opened :: "example_world \<Rightarrow> (nat option \<times> go_error option) \<times> example_world" where
  "opened w = ((Some (ew_next w), None), w\<lparr>ew_next := Suc (ew_next w)\<rparr>)"

definition example_revision :: Revision where
  "example_revision = \<lparr>rev_version = ''v1.0.0'', rev_commit = ''c0ffee''\<rparr>"

definition example_environment :: EnvironmentState where
  "example_environment = zero_environment\<lparr>env_status := StateReadyToStart, env_lastSuccessful := example_revision\<rparr>"

definition example_deps :: "example_world deps" where
  "example_deps =
     \<lparr>CtxErr = Pair None, InfraErr = Pair None, LatchedCommand = Pair None, SetControlStage = (\<lambda>_. Pair ()),
      BeforeControlClose = None, StopAcceptingCommands = None, BeforeShutdown = None,
      EmitStateEvent = (\<lambda>_ _ _. Pair None), EmitWarningEvent = (\<lambda>_ _. Pair None), NewGate = (\<lambda>_. new_handle),
      GateFault = (\<lambda>_. Pair None), GateOpen = (\<lambda>_. Pair None), GateStage = (\<lambda>_ _. Pair ()),
      AcquireLock = opened, CloseLease = (\<lambda>_. Pair None), CloseLockSet = Pair None,
      ReadEnvironment = Pair (Inr example_environment),
      ReadBackendTransaction = Pair (Inl (sentinel ErrTransactionNotFound)),
      BeginTransaction = (\<lambda>_. opened), UpdateTransaction = (\<lambda>_ _. Pair None), RemoveTransactionOp = (\<lambda>_. Pair None),
      CloseState = Pair None,
      CheckRepository = Pair (\<lparr>rr_healthy = True, rr_version = ''v1.0.0'', rr_commit = ''c0ffee'', rr_reason = ''''\<rparr>, None),
      CheckEntryFile = (\<lambda>_. Pair None), CheckUV = (\<lambda>_. Pair None), StartManaged = (\<lambda>_. opened),
      CheckHealth = (\<lambda>_. Pair None), OpenLogger = opened, LogPath = (\<lambda>_. ''run.log''), CloseLogger = (\<lambda>_. Pair None),
      AttachRelay = (\<lambda>_. Pair ()), PIDAliveProbe = None, PIDCreatedAt = (\<lambda>_. Pair (0, None)), CloseHTTP = Pair None,
      ShutdownTimeoutDep = 0, RestartDelay = 2000000000, RestartTimer = (\<lambda>_. Pair True), ProcessPID = (\<lambda>p. p),
      HasExited = (\<lambda>_. Pair True), WaitExit = (\<lambda>_. Pair True), WaitProcess = (\<lambda>_. Pair (0, None)),
      SnapshotProcess = (\<lambda>_. Pair ([], None)), TerminateProcess = (\<lambda>_. Pair None), WaitEmpty = (\<lambda>_. Pair None),
      CloseProcess = (\<lambda>_. Pair None), CleanupExpired = Pair False, AbsolutePath = (\<lambda>p. Pair (Inr p)),
      CleanPath = id, InspectPath = (\<lambda>_ _. Pair (Inr True)), PathContains = (\<lambda>_ _. Pair (Inr False)),
      StartRelay = Pair None, CloseRelay = Pair None, JoinPath = concat, NextMain = next_main,
      NextPreflight = Pair PreflightDone, NextHealth = Pair HealthDone, NextRestart = Pair TimerFired,
      NextDrain = Pair DrainExpired, NextCancel = Pair CleanupFinished, NextClosing = Pair ControlDeadline\<rparr>"

definition example_request :: backend_request where
  "example_request = \<lparr>rq_operationID = ''op'', rq_runtimePID = 7, rq_mode = '''', rq_developmentRepo = '''',
     rq_shutdownTimeout = 0, rq_port = 36163\<rparr>"

definition example_layout :: backend_layout where
  "example_layout = \<lparr>ly_repoDir = ''repo'', ly_appRoot = ''app'', ly_entryFile = ''repo/main.py'', ly_venvDir = ''venv''\<rparr>"

definition shutdown_command :: ControlCommand where
  "shutdown_command = \<lparr>cc_protocol = 1, cc_command = ControlShutdown, cc_commandId = ''c1''\<rparr>"

text \<open>The backend exits once, is started again and is then asked to shut down.\<close>

definition example_world :: example_world where
  "example_world = \<lparr>ew_main = [ProcessExited, MainResult (ResultCommand shutdown_command)], ew_next = 1\<rparr>"

definition summary :: "go_error option option \<times> 'w supervision \<Rightarrow>
    bool \<times> nat list \<times> StateStatus list \<times> nat \<times> nat list \<times> nat list" where
  "summary r = (case r of (result, s) \<Rightarrow>
     ((case result of Some None \<Rightarrow> True | _ \<Rightarrow> False), o_live (obs s), o_announced (obs s), o_starts (obs s), o_txs (obs s), o_leases (obs s)))"

text \<open>To run the example: the programs unfolded at a state.\<close>

lemma example_fields [simp]:
  "CtxErr example_deps = (Pair None)"
  "InfraErr example_deps = (Pair None)"
  "LatchedCommand example_deps = (Pair None)"
  "SetControlStage example_deps = ((\<lambda>_. Pair ()))"
  "BeforeControlClose example_deps = (None)"
  "StopAcceptingCommands example_deps = (None)"
  "BeforeShutdown example_deps = (None)"
  "EmitStateEvent example_deps = ((\<lambda>_ _ _. Pair None))"
  "EmitWarningEvent example_deps = ((\<lambda>_ _. Pair None))"
  "NewGate example_deps = ((\<lambda>_. new_handle))"
  "GateFault example_deps = ((\<lambda>_. Pair None))"
  "GateOpen example_deps = ((\<lambda>_. Pair None))"
  "GateStage example_deps = ((\<lambda>_ _. Pair ()))"
  "AcquireLock example_deps = (opened)"
  "CloseLease example_deps = ((\<lambda>_. Pair None))"
  "CloseLockSet example_deps = (Pair None)"
  "ReadEnvironment example_deps = (Pair (Inr example_environment))"
  "ReadBackendTransaction example_deps = (Pair (Inl (sentinel ErrTransactionNotFound)))"
  "BeginTransaction example_deps = ((\<lambda>_. opened))"
  "UpdateTransaction example_deps = ((\<lambda>_ _. Pair None))"
  "RemoveTransactionOp example_deps = ((\<lambda>_. Pair None))"
  "CloseState example_deps = (Pair None)"
  "CheckRepository example_deps = (Pair (\<lparr>rr_healthy = True, rr_version = ''v1.0.0'', rr_commit = ''c0ffee'', rr_reason = ''''\<rparr>, None))"
  "CheckEntryFile example_deps = ((\<lambda>_. Pair None))"
  "CheckUV example_deps = ((\<lambda>_. Pair None))"
  "StartManaged example_deps = ((\<lambda>_. opened))"
  "CheckHealth example_deps = ((\<lambda>_. Pair None))"
  "OpenLogger example_deps = (opened)"
  "LogPath example_deps = ((\<lambda>_. ''run.log''))"
  "CloseLogger example_deps = ((\<lambda>_. Pair None))"
  "AttachRelay example_deps = ((\<lambda>_. Pair ()))"
  "PIDAliveProbe example_deps = (None)"
  "PIDCreatedAt example_deps = ((\<lambda>_. Pair (0, None)))"
  "CloseHTTP example_deps = (Pair None)"
  "ShutdownTimeoutDep example_deps = (0)"
  "RestartDelay example_deps = (2000000000)"
  "RestartTimer example_deps = ((\<lambda>_. Pair True))"
  "ProcessPID example_deps = ((\<lambda>p. p))"
  "HasExited example_deps = ((\<lambda>_. Pair True))"
  "WaitExit example_deps = ((\<lambda>_. Pair True))"
  "WaitProcess example_deps = ((\<lambda>_. Pair (0, None)))"
  "SnapshotProcess example_deps = ((\<lambda>_. Pair ([], None)))"
  "TerminateProcess example_deps = ((\<lambda>_. Pair None))"
  "WaitEmpty example_deps = ((\<lambda>_. Pair None))"
  "CloseProcess example_deps = ((\<lambda>_. Pair None))"
  "CleanupExpired example_deps = (Pair False)"
  "AbsolutePath example_deps = ((\<lambda>p. Pair (Inr p)))"
  "CleanPath example_deps = id"
  "InspectPath example_deps = ((\<lambda>_ _. Pair (Inr True)))"
  "PathContains example_deps = ((\<lambda>_ _. Pair (Inr False)))"
  "StartRelay example_deps = (Pair None)"
  "CloseRelay example_deps = (Pair None)"
  "JoinPath example_deps = (concat)"
  "NextMain example_deps = (next_main)"
  "NextPreflight example_deps = (Pair PreflightDone)"
  "NextHealth example_deps = (Pair HealthDone)"
  "NextRestart example_deps = (Pair TimerFired)"
  "NextDrain example_deps = (Pair DrainExpired)"
  "NextCancel example_deps = (Pair CleanupFinished)"
  "NextClosing example_deps = (Pair ControlDeadline)"
  by (simp_all add: example_deps_def)

lemma example_facts [simp]:
  "modeForRequest example_request = ModeManaged"
  "errors_Is ErrTransactionNotFound (sentinel ErrTransactionNotFound)"
  "validateEnvironmentReady example_environment = None" "env_status example_environment = StateReadyToStart"
  "env_lastSuccessful example_environment = example_revision" "rev_version example_revision = ''v1.0.0''"
  "rev_commit example_revision = ''c0ffee''" "rq_port example_request = 36163"
  "next_main \<lparr>ew_main = ev # evs, ew_next = i\<rparr> = (ev, \<lparr>ew_main = evs, ew_next = i\<rparr>)"
  "new_handle \<lparr>ew_main = evs, ew_next = i\<rparr> = (i, \<lparr>ew_main = evs, ew_next = Suc i\<rparr>)"
  "opened \<lparr>ew_main = evs, ew_next = i\<rparr> = ((Some i, None), \<lparr>ew_main = evs, ew_next = Suc i\<rparr>)"
  "hasSurvivingDescendant [] r = False"
  by (simp_all add: example_request_def modeForRequest_def errors_Is_def sentinel_def validateEnvironmentReady_def
      example_environment_def example_revision_def next_main_def new_handle_def opened_def hasSurvivingDescendant_def)

lemma no_error [simp]:
  "Join [] = None" "Join (None # es) = Join es" "mapStateCleanupError None = None" "mapMutexCleanupError None = None"
  "mapLoggerCleanupError None = None" "mapCleanupProcessError x None = None" "without_cancellation None b = None"
  "withFailureDetailsExtra ops None l p d = None"
  by (simp_all add: Join_def List.map_filter_simps mapStateCleanupError_def mapMutexCleanupError_def
      mapLoggerCleanupError_def mapCleanupProcessError_def without_cancellation_def withFailureDetailsExtra_def)

lemma shutdown_fields [simp]: "cc_command shutdown_command = ControlShutdown" "cc_commandId shutdown_command = ''c1''"
  by (simp_all add: shutdown_command_def)

lemmas run_programs =
  superviseControlled_def[THEN fun_cong]
  acquire_lock_def[THEN fun_cong]
  supervise_held_def[THEN fun_cong]
  first_attempt_def[THEN fun_cong]
  first_start_def[THEN fun_cong]
  startControlAttempt_def[THEN fun_cong]
  unless_broken_def[THEN fun_cong]
  unless_latched_def[THEN fun_cong]
  ended_or_def[THEN fun_cong]
  preflight_ended_def[THEN fun_cong]
  restart_checks_def[THEN fun_cong]
  waitRestart_def[THEN fun_cong]
  unless_fault_def[THEN fun_cong]
  health_ended_def[THEN fun_cong]
  open_logger_def[THEN fun_cong]
  begin_transaction_def[THEN fun_cong]
  start_managed_def[THEN fun_cong]
  prepare_attempt_def[THEN fun_cong]
  cleanup_attempt_def[THEN fun_cong]
  fail_attempt_def[THEN fun_cong]
  unless_faulted_def[THEN fun_cong]
  spawn_attempt_def[THEN fun_cong]
  unless_latched_running_def[THEN fun_cong]
  announce_running_def[THEN fun_cong]
  observe_health_def[THEN fun_cong]
  announce_attempt_def[THEN fun_cong]
  watch_attempt_def[THEN fun_cong]
  and_then_def[THEN fun_cong]
  restart_start_def[THEN fun_cong]
  restart_attempt_def[THEN fun_cong]
  fail_running_def[THEN fun_cong]
  on_fault_def[THEN fun_cong]
  end_by_context_def[THEN fun_cong]
  unless_run_failed_def[THEN fun_cong]
  process_gone_def[THEN fun_cong]
  on_exited_def[THEN fun_cong]
  on_result_def[THEN fun_cong]
  on_event_def[THEN fun_cong]
  run_step_def[THEN fun_cong]
  closeResources_def[THEN fun_cong]
  cleanupProcess_def[THEN fun_cong]
  cleanup_root_def[THEN fun_cong]
  cleanup_force_def[THEN fun_cong]
  terminate_def[THEN fun_cong]
  wait_empty_def[THEN fun_cong]
  remove_transaction_def[THEN fun_cong]
  close_logger_def[THEN fun_cong]
  release_process_def[THEN fun_cong]
  recoverStaleTransaction_def[THEN fun_cong]
  checkEntry_def[THEN fun_cong]
  read_environment_def[THEN fun_cong]
  check_repository_def[THEN fun_cong]
  checkRepository_def[THEN fun_cong]
  recheckRevision_def[THEN fun_cong]
  preflight_checks_def[THEN fun_cong]
  controlPreflight_def[THEN fun_cong]
  emitState_def[THEN fun_cong]
  set_snapshot_def[THEN fun_cong]
  announce_def[THEN fun_cong]
  finishControlShutdown_def[THEN fun_cong]
  finish_shutdown_def[THEN fun_cong]
  ask_to_close_def[THEN fun_cong]
  ends_def[THEN fun_cong]
  finish_command_def[THEN fun_cong]
  emitOrphansWarning_def[THEN fun_cong]
  emitForceWarning_def[THEN fun_cong]
  emit_warning_def[THEN fun_cong]

lemmas run_loops =
  awaitControlPreflight.simps(2)[THEN fun_cong]
  restart_loop.simps(2)[THEN fun_cong]
  awaitHealth.simps(2)[THEN fun_cong]
  supervise_loop.simps(2)[THEN fun_cong]

lemmas run_steps = seq_def ret_def call_def act_def upd_def get_def if_distribR Let_def

lemmas run_example = run_programs run_loops run_steps numeral_eq_Suc first_error_def initial_supervision_def

lemmas summary_simps = summary_def obs_def obs_start_def

lemma restarted_run:
  "summary (superviseControlled example_deps 9 example_layout example_request (initial_supervision example_world)) =
     (True, [], [StateStopped, StateStoppingBackend, StateRunning, StateRestarting, StateRunning, StateStartingBackend], 2, [], [])"
  by (simp add: example_world_def run_example del: obs_cs, simp add: summary_simps del: obs_cs)

section \<open>The cleanup of a process\<close>

text \<open>C39: The cleanup of a process always ends and always releases the process, and after it the
  transaction and the logger it was given. A root process that was still alive was terminated. A
  cleanup without an error has seen the job empty before it released the process.\<close>

theorem cleanup_confirms_tree:
  "\<exists>c s'. cleanupProcess ops (Some p) tx logger s = (Some c, s') \<and>
     (\<exists>post new. trace s' = post @ ClosedProcess p # new @ trace s \<and>
        ((\<forall>t. tx = Some t \<longrightarrow> RemovedTransaction t \<in> set post) \<and>
         (\<forall>l. logger = Some l \<longrightarrow> ClosedLogger l \<in> set post)) \<and>
        (pc_rootForced c \<longrightarrow> TerminatedProcess p \<in> set new) \<and>
        (pc_err c = None \<longrightarrow> EmptiedProcess p \<in> set new))"
  by (rule cleanup_trace)

lemma example_cleanup:
  "\<exists>c s. cleanupProcess example_deps (Some 3) (Some 2) (Some 1) (initial_supervision example_world) = (Some c, s) \<and>
     pc_err c = None"
  by (simp add: example_world_def run_example del: obs_cs)

theorem cleanup_confirms_tree_witness:
  "\<exists>c s. cleanupProcess example_deps (Some 3) (Some 2) (Some 1) (initial_supervision example_world) = (Some c, s) \<and>
     RemovedTransaction 2 \<in> set (trace s) \<and> ClosedLogger 1 \<in> set (trace s) \<and> EmptiedProcess 3 \<in> set (trace s)"
proof -
  obtain c s where run:
    "cleanupProcess example_deps (Some 3) (Some 2) (Some 1) (initial_supervision example_world) = (Some c, s)" "pc_err c = None"
    using example_cleanup by blast
  then show ?thesis
    using cleanup_confirms_tree[of example_deps 3 "Some 2" "Some 1" "initial_supervision example_world"] by auto
qed

section \<open>Where the code departs from its documents\<close>

lemmas run_failures =
  resolveStartAttemptError_def[THEN fun_cong] handled_def[THEN fun_cong] emitControlFailure_def[THEN fun_cong]
  close_defs[THEN fun_cong] close_once_def[THEN fun_cong] close_drain.simps(2)[THEN fun_cong]
  finishControlCancel_def[THEN fun_cong] finish_interrupt_def[THEN fun_cong] finish_cancelled_def[THEN fun_cong]
  finish_either_def[THEN fun_cong] finishLatchedControl_def[THEN fun_cong] drainUntilTerminal_def[THEN fun_cong]
  set_close_error_def[THEN fun_cong] shutdownLatchedBehindOutputFault_def[THEN fun_cong] reader_failed_def[THEN fun_cong]
  drain_loop.simps(2)[THEN fun_cong] restart_failed_def[THEN fun_cong]

lemma Join_Some_Cons: "Join (Some e # es) = Some (GoError JoinedError (e # List.map_filter (\<lambda>x. x) es))"
  by (simp add: Join_def List.map_filter_simps)

lemmas run_errors = committed_details_def committed_def markCommitted_def withFailureDetailsExtra_def Join_Some_Cons
  List.map_filter_simps backendErrorCommitted_def backendErrorHasCode_def

definition gate_fault :: go_error where
  "gate_fault = newBackendError CodeInternalError StageBackendSpawn Map.empty None"

lemma gate_fault_facts [simp]:
  "hasCode CodeOutputWriteFailed gate_fault = False"
  "errors_as typed gate_fault = Some (CodeInternalError, StageBackendSpawn, Map.empty, False)"
  by (simp_all add: gate_fault_def newBackendError_def backendErrorHasCode_def)

text \<open>A fault of the gate between the start of the process and its announcement: the supervision
  announces a failure and nothing else, a transition that the table does not have.\<close>

lemma failure_before_start_announced:
  "summary (superviseControlled (example_deps\<lparr>GateFault := (\<lambda>_. Pair (Some gate_fault))\<rparr>) 9 example_layout
       example_request (initial_supervision example_world)) = (False, [], [StateBackendFailed], 1, [], []) \<and>
   \<not> IsKnownLifecycleTransition StateReadyToStart StateBackendFailed"
proof
  show "summary (superviseControlled (example_deps\<lparr>GateFault := (\<lambda>_. Pair (Some gate_fault))\<rparr>) 9 example_layout
       example_request (initial_supervision example_world)) = (False, [], [StateBackendFailed], 1, [], [])"
    by (simp add: example_world_def run_example run_failures run_errors del: obs_cs, simp add: summary_simps del: obs_cs)
qed (simp add: IsKnownLifecycleTransition_def lifecycleTransitions_def)

text \<open>A fault of the gate while the backend runs: the failure is announced from \<open>running\<close> although the
  restart is not used.\<close>

definition fault_at_end :: "nat \<Rightarrow> example_world \<Rightarrow> go_error option \<times> example_world" where
  "fault_at_end g w = (if ew_main w = [] then Some gate_fault else None, w)"

lemma running_failed_without_restart:
  "summary (superviseControlled (example_deps\<lparr>GateFault := fault_at_end\<rparr>) 9 example_layout
       example_request (initial_supervision \<lparr>ew_main = [GateFaulted], ew_next = 1\<rparr>)) =
     (False, [], [StateBackendFailed, StateRunning, StateStartingBackend], 1, [], [])"
  by (simp add: fault_at_end_def run_example run_failures run_errors del: obs_cs, simp add: summary_simps del: obs_cs)

text \<open>A cancellation while the restart checks its environment: the supervision ends without announcing
  that it stops, although the same command during the delay before does.\<close>

definition cancel_command :: ControlCommand where
  "cancel_command = \<lparr>cc_protocol = 1, cc_command = ControlCancel, cc_commandId = ''c2''\<rparr>"

lemma cancel_fields [simp]: "cc_command cancel_command = ControlCancel" "cc_commandId cancel_command = ''c2''"
  by (simp_all add: cancel_command_def)

definition cancel_at_end :: "example_world \<Rightarrow> preflight_event \<times> example_world" where
  "cancel_at_end w = (if ew_main w = [] then PreflightResult (ResultCommand cancel_command) else PreflightDone, w)"

definition cancel_in_delay :: "example_world \<Rightarrow> restart_event \<times> example_world" where
  "cancel_in_delay w = (RestartResult (ResultCommand cancel_command), w)"

definition channel_stopped :: "example_world \<Rightarrow> drain_event \<times> example_world" where
  "channel_stopped w = (DrainResult (ResultError (sentinel ErrControlStopped)), w)"

lemma stopped_ended [simp]: "channel_ended (sentinel ErrControlStopped)"
  by (simp add: channel_ended_def errors_Is_def sentinel_def)

lemma cancelled_restart_check_unannounced:
  "summary (superviseControlled (example_deps\<lparr>NextPreflight := cancel_at_end, NextDrain := channel_stopped\<rparr>) 9 example_layout
       example_request (initial_supervision \<lparr>ew_main = [ProcessExited], ew_next = 1\<rparr>)) =
     (False, [], [StateRestarting, StateRunning, StateStartingBackend], 1, [], [])"
  by (simp add: cancel_at_end_def run_example run_failures run_errors is_terminal_def channel_stopped_def del: obs_cs,
      simp add: summary_simps del: obs_cs)

lemma cancelled_restart_delay_announced:
  "summary (superviseControlled (example_deps\<lparr>NextRestart := cancel_in_delay, NextDrain := channel_stopped\<rparr>) 9 example_layout
       example_request (initial_supervision \<lparr>ew_main = [ProcessExited], ew_next = 1\<rparr>)) =
     (False, [], [StateStopped, StateStoppingBackend, StateRestarting, StateRunning, StateStartingBackend], 1, [], [])"
  by (simp add: cancel_in_delay_def run_example run_failures run_errors is_terminal_def channel_stopped_def del: obs_cs,
      simp add: summary_simps del: obs_cs)

text \<open>Without the assumption on the channel: when it has reported its end and a terminal command is
  latched that it never delivers, the supervision returns with the process still running.\<close>

definition latched_at_end :: "example_world \<Rightarrow> ControlCommand option \<times> example_world" where
  "latched_at_end w = (if ew_main w = [] then Some shutdown_command else None, w)"

lemma undelivered_command_leaves_process:
  "summary (superviseControlled (example_deps\<lparr>LatchedCommand := latched_at_end\<rparr>) 9 example_layout
       example_request (initial_supervision \<lparr>ew_main = [MainResult (ResultError (sentinel ErrControlStopped))], ew_next = 1\<rparr>)) =
     (False, [5], [StateRunning, StateStartingBackend], 1, [3], [])"
  by (simp add: latched_at_end_def run_example run_failures run_errors del: obs_cs, simp add: summary_simps del: obs_cs)

end
