(* ===== verification/Backend_Managed.thy ===== *)
theory Backend_Managed
  imports Backend_Runs
begin

text \<open>
  \<open>Supervise\<close> of \<open>internal/backend/supervisor.go\<close>: the checks of a request, the relay around every
  supervision, and the supervision of a managed backend without control commands, whose resources
  are released by deferred functions. A deferred function is a program that wraps the rest of the
  body; the flags that say who still owns the process, the transaction and the logger are the
  boolean of the body's result. The theorems are about every run of \<open>Supervise\<close>, of either path, for
  any dependencies and any order of events.
\<close>

section \<open>The managed path\<close>

definition preferring :: "'w deps \<Rightarrow> go_error \<Rightarrow> 'w supervision \<Rightarrow> go_error option option \<times> 'w supervision" where
  "preferring ops e = seq (call (CtxErr ops)) (\<lambda>ended. ret (preferCancellation ended (Some e)))"

definition managed_lock_failed ::
  "'w deps \<Rightarrow> nat option \<Rightarrow> go_error option \<Rightarrow> 'w supervision \<Rightarrow> go_error option option \<times> 'w supervision" where
  "managed_lock_failed ops lease err =
     seq (call (CtxErr ops)) (\<lambda>ended.
     let primary = preferCancellation ended
           (mapDependencyError StageBackendSpawn CodeMutexOperationFailed (or_plain err ''backend lock lease is nil''))
     in
     seq (case lease of None \<Rightarrow> ret None | Some l \<Rightarrow> seq (close_lease ops l) (\<lambda>e. ret (Join [None, e]))) (\<lambda>e1.
     seq (close_state ops) (\<lambda>e2.
     seq (close_lock_set ops) (\<lambda>e3.
     ret (Join [primary, Join [Join [e1, e2], e3]])))))"

text \<open>The result of the body says whether the process, the transaction and the logger are released.\<close>

type_synonym body_result = "bool \<times> go_error option"

definition released_with ::
  "'w deps \<Rightarrow> controlAttempt \<Rightarrow> (processCleanup \<Rightarrow> go_error option) \<Rightarrow> 'w supervision \<Rightarrow> body_result option \<times> 'w supervision" where
  "released_with ops a primary =
     seq (cleanup_attempt ops a) (\<lambda>c. ret (True, Join [pc_err c, primary c]))"

definition with_details :: "'w deps \<Rightarrow> controlAttempt \<Rightarrow> go_error option \<Rightarrow> processCleanup \<Rightarrow> go_error option" where
  "with_details ops a e c = withFailureDetailsExtra ops e (Some (at_logger a)) (at_process a) (pc_details c)"

definition failAfterStarting ::
  "'w deps \<Rightarrow> controlAttempt \<Rightarrow> go_error \<Rightarrow> 'w supervision \<Rightarrow> body_result option \<times> 'w supervision" where
  "failAfterStarting ops a primary =
     seq (call (GateFault ops (at_gate a))) (\<lambda>fault.
     let first = (case fault of
                    None \<Rightarrow> Some primary
                  | Some _ \<Rightarrow> withFailureDetails ops fault (Some (at_logger a)) (at_process a))
     in
     seq (cleanup_attempt ops a) (\<lambda>c.
     seq (emitState ops StageBackendCleanup StateBackendFailed MsgStartFailed
            (failureDetails ops (Some (at_logger a)) (at_process a) (pc_details c))) (\<lambda>stateErr.
     ret (True, Join [pc_err c, with_details ops a (markCommitted first) c, stateErr]))))"

definition managed_update ::
  "'w deps \<Rightarrow> controlAttempt \<Rightarrow> Stage \<Rightarrow> ('w supervision \<Rightarrow> body_result option \<times> 'w supervision) \<Rightarrow> 'w supervision \<Rightarrow>
     body_result option \<times> 'w supervision" where
  "managed_update ops a stage m =
     seq (call (UpdateTransaction ops (at_tx a) stage)) (\<lambda>updateErr.
     case updateErr of
       Some e \<Rightarrow>
         seq (call (CtxErr ops)) (\<lambda>ended.
         if ended \<noteq> None then released_with ops a (\<lambda>_. ended)
         else failAfterStarting ops a (transaction_failure stage (Some e)))
     | None \<Rightarrow>
         seq (call (GateFault ops (at_gate a))) (\<lambda>fault.
         case fault of Some e \<Rightarrow> failAfterStarting ops a e | None \<Rightarrow> m))"

text \<open>The backend runs until it exits or the caller cancels.\<close>

definition managed_running ::
  "'w deps \<Rightarrow> controlAttempt \<Rightarrow> nat \<Rightarrow> 'w supervision \<Rightarrow> body_result option \<times> 'w supervision" where
  "managed_running ops a p =
     seq (call (WaitExit ops p)) (\<lambda>exited.
     seq (cleanup_attempt ops a) (\<lambda>c.
     seq (call (GateFault ops (at_gate a))) (\<lambda>fault.
     seq (call (CtxErr ops)) (\<lambda>ended.
     ret (True, Join [pc_err c,
       (if exited then
          with_details ops a
            (if fault \<noteq> None then withFailureDetails ops fault (Some (at_logger a)) (at_process a)
             else if ended \<noteq> None then ended
             else Some (newCommittedBackendError CodeBackendExitedUnexpectedly StageBackendRun Map.empty None)) c
        else if fault \<noteq> None then with_details ops a fault c else ended)])))))"

definition managed_ready ::
  "'w deps \<Rightarrow> backend_request \<Rightarrow> controlAttempt \<Rightarrow> nat \<Rightarrow> 'w supervision \<Rightarrow> body_result option \<times> 'w supervision" where
  "managed_ready ops request a p =
     managed_update ops a StageBackendRun
       (seq (call (CtxErr ops)) (\<lambda>ended.
        if ended \<noteq> None then released_with ops a (\<lambda>_. ended)
        else
          seq (call (GateStage ops (at_gate a) StageBackendRun)) (\<lambda>_.
          seq (emitState ops StageBackendRun StateRunning MsgReady
                 ((process_details ops a)(''baseUrl'' \<mapsto> JString (BaseURL (rq_port request))))) (\<lambda>err.
          case err of Some e \<Rightarrow> failAfterStarting ops a e | None \<Rightarrow> managed_running ops a p))))"

definition managed_health ::
  "'w deps \<Rightarrow> backend_request \<Rightarrow> Revision \<Rightarrow> controlAttempt \<Rightarrow> nat \<Rightarrow> 'w supervision \<Rightarrow> body_result option \<times> 'w supervision" where
  "managed_health ops request revision a p =
     seq (call (CheckHealth ops
           \<lparr>ex_mode = ModeManaged, ex_protocol = Version, ex_version = rev_version revision,
            ex_commit = rev_commit revision, ex_port = rq_port request\<rparr>)) (\<lambda>err.
     case err of
       None \<Rightarrow> managed_ready ops request a p
     | Some e \<Rightarrow>
         seq (call (GateFault ops (at_gate a))) (\<lambda>fault.
         if fault \<noteq> None then released_with ops a (with_details ops a fault)
         else
           seq (call (CtxErr ops)) (\<lambda>ended.
           if ended \<noteq> None then released_with ops a (\<lambda>_. ended)
           else
             failAfterStarting ops a
               (the (withFailureDetails ops (mapDependencyError StageBackendHealth CodeBackendHealthInvalid err)
                       (Some (at_logger a)) (at_process a))))))"

definition managed_started ::
  "'w deps \<Rightarrow> backend_request \<Rightarrow> Revision \<Rightarrow> controlAttempt \<Rightarrow> nat \<Rightarrow> 'w supervision \<Rightarrow> body_result option \<times> 'w supervision" where
  "managed_started ops request revision a p =
     seq (call (GateFault ops (at_gate a))) (\<lambda>fault.
     if fault \<noteq> None then released_with ops a (with_details ops a fault)
     else
       seq (emitState ops StageBackendSpawn StateStartingBackend MsgStarting Map.empty) (\<lambda>err.
       if err \<noteq> None then ret (False, err)
       else
         seq (call (GateOpen ops (at_gate a))) (\<lambda>err.
         case err of
           Some e \<Rightarrow> failAfterStarting ops a e
         | None \<Rightarrow>
             seq (call (GateStage ops (at_gate a) StageBackendHealth)) (\<lambda>_.
             managed_update ops a StageBackendHealth (managed_health ops request revision a p)))))"

text \<open>The deferred functions: of the process, of the transaction and of the logger.\<close>

definition defer_process ::
  "'w deps \<Rightarrow> nat \<Rightarrow> ('w supervision \<Rightarrow> body_result option \<times> 'w supervision) \<Rightarrow> 'w supervision \<Rightarrow>
     body_result option \<times> 'w supervision" where
  "defer_process ops p rest =
     seq rest (\<lambda>(done_already, result).
     if done_already then ret (True, result)
     else seq (cleanupProcess ops (Some p) None None) (\<lambda>c. ret (False, Join [result, pc_err c])))"

definition defer_transaction ::
  "'w deps \<Rightarrow> nat option \<Rightarrow> ('w supervision \<Rightarrow> body_result option \<times> 'w supervision) \<Rightarrow> 'w supervision \<Rightarrow>
     body_result option \<times> 'w supervision" where
  "defer_transaction ops tx rest =
     seq rest (\<lambda>(done_already, result).
     case tx of
       None \<Rightarrow> ret (done_already, result)
     | Some t \<Rightarrow>
         if done_already then ret (True, result)
         else seq (remove_transaction ops t) (\<lambda>e. ret (False, Join [result, mapStateCleanupError e])))"

definition defer_logger ::
  "'w deps \<Rightarrow> nat \<Rightarrow> ('w supervision \<Rightarrow> body_result option \<times> 'w supervision) \<Rightarrow> 'w supervision \<Rightarrow>
     go_error option option \<times> 'w supervision" where
  "defer_logger ops l rest =
     seq rest (\<lambda>(done_already, result).
     seq (call (AttachRelay ops None)) (\<lambda>_.
     if done_already then ret result
     else seq (close_logger ops l) (\<lambda>e. ret (Join [result, mapLoggerCleanupError e]))))"

definition managed_start ::
  "'w deps \<Rightarrow> backend_layout \<Rightarrow> backend_request \<Rightarrow> Revision \<Rightarrow> nat \<Rightarrow> nat \<Rightarrow> 'w supervision \<Rightarrow>
     body_result option \<times> 'w supervision" where
  "managed_start ops layout request revision l t =
     seq (call (NewGate ops StageBackendSpawn)) (\<lambda>g.
     seq (start_managed ops (attempt_options ops layout request revision)) (\<lambda>(proc, err).
     case proc of
       None \<Rightarrow>
         seq (call (GateFault ops g)) (\<lambda>fault.
         if fault \<noteq> None then ret (False, withFailureDetails ops fault (Some l) None)
         else
           seq (call (CtxErr ops)) (\<lambda>ended.
           ret (False, withFailureDetails ops
             (preferCancellation ended
               (Some (newBackendError CodeBackendSpawnFailed StageBackendSpawn Map.empty
                  (or_plain err ''managed process is nil''))))
             (Some l) None)))
     | Some p \<Rightarrow>
         let a = \<lparr>at_process = Some p, at_tx = t, at_logger = l, at_gate = g\<rparr> in
         if err \<noteq> None then
           seq (call (GateFault ops g)) (\<lambda>fault.
           if fault \<noteq> None then released_with ops a (with_details ops a fault)
           else
             seq (call (CtxErr ops)) (\<lambda>ended.
             released_with ops a
               (with_details ops a
                 (preferCancellation ended
                   (Some (newBackendError CodeBackendSpawnFailed StageBackendSpawn Map.empty err))))))
         else defer_process ops p (managed_started ops request revision a p)))"

definition managed_transaction ::
  "'w deps \<Rightarrow> backend_layout \<Rightarrow> backend_request \<Rightarrow> EnvironmentState \<Rightarrow> Revision \<Rightarrow> nat \<Rightarrow> 'w supervision \<Rightarrow>
     body_result option \<times> 'w supervision" where
  "managed_transaction ops layout request env revision l =
     seq (begin_transaction ops
            \<lparr>tr_operationID = rq_operationID request, tr_pid = rq_runtimePID request,
             tr_version = rev_version revision, tr_stage = StageBackendSpawn\<rparr>) (\<lambda>(tx, err).
     defer_transaction ops tx
       (case tx of
          None \<Rightarrow>
            seq (preferring ops (the (withFailureDetails ops
                   (Some (transaction_failure StageBackendSpawn (or_plain err ''backend transaction handle is nil'')))
                   (Some l) None))) (\<lambda>e. ret (False, e))
        | Some t \<Rightarrow>
            if err \<noteq> None then
              seq (preferring ops (the (withFailureDetails ops
                     (Some (transaction_failure StageBackendSpawn err)) (Some l) None))) (\<lambda>e. ret (False, e))
            else
              seq (recheckRevision ops env revision) (\<lambda>err.
              case err of
                Some e \<Rightarrow>
                  seq (preferring ops (the (withFailureDetails ops err (Some l) None))) (\<lambda>e. ret (False, e))
              | None \<Rightarrow>
                  seq (call (CtxErr ops)) (\<lambda>ended.
                  if ended \<noteq> None then ret (False, ended)
                  else managed_start ops layout request revision l t))))"

definition managed_logger ::
  "'w deps \<Rightarrow> backend_layout \<Rightarrow> backend_request \<Rightarrow> EnvironmentState \<Rightarrow> Revision \<Rightarrow> 'w supervision \<Rightarrow>
     go_error option option \<times> 'w supervision" where
  "managed_logger ops layout request env revision =
     seq (open_logger ops) (\<lambda>(logger, err).
     case logger of
       None \<Rightarrow> preferring ops (logger_failure ops err None)
     | Some l \<Rightarrow>
         if err \<noteq> None then
           seq (close_logger ops l) (\<lambda>closeErr.
           preferring ops (logger_failure ops (Join [err, mapLoggerCleanupError closeErr]) (Some l)))
         else
           seq (call (AttachRelay ops (Some l))) (\<lambda>_.
           defer_logger ops l (managed_transaction ops layout request env revision l)))"

definition managed_checks ::
  "'w deps \<Rightarrow> backend_layout \<Rightarrow> backend_request \<Rightarrow> 'w supervision \<Rightarrow> go_error option option \<times> 'w supervision" where
  "managed_checks ops layout request =
     seq (recoverStaleTransaction ops) (\<lambda>err.
     case err of Some e \<Rightarrow> preferring ops e | None \<Rightarrow>
     seq (checkEntry ops layout) (\<lambda>err.
     case err of Some e \<Rightarrow> preferring ops e | None \<Rightarrow>
     seq (read_environment ops) (\<lambda>answer.
     case answer of Inl e \<Rightarrow> preferring ops e | Inr env \<Rightarrow>
     case validateEnvironmentReady env of Some e \<Rightarrow> preferring ops e | None \<Rightarrow>
     seq (checkRepository ops env) (\<lambda>checked.
     case checked of Inl e \<Rightarrow> preferring ops e | Inr revision \<Rightarrow>
     seq (call (CheckUV ops (uv_check_options (ly_repoDir layout) (ly_venvDir layout)))) (\<lambda>err.
     case err of
       Some e \<Rightarrow> preferring ops (the (mapDependencyError StageBackendSpawn CodeUVExecFailed err))
     | None \<Rightarrow> managed_logger ops layout request env revision)))))"

definition superviseManaged ::
  "'w deps \<Rightarrow> backend_layout \<Rightarrow> backend_request \<Rightarrow> 'w supervision \<Rightarrow> go_error option option \<times> 'w supervision" where
  "superviseManaged ops layout request =
     seq (acquire_lock ops) (\<lambda>(lease, err).
     case lease of
       None \<Rightarrow> managed_lock_failed ops None err
     | Some l \<Rightarrow>
         if err \<noteq> None then managed_lock_failed ops (Some l) err
         else
           seq (managed_checks ops layout request) (\<lambda>result.
           seq (close_state ops) (\<lambda>e1.
           seq (close_lease ops l) (\<lambda>e2.
           seq (close_lock_set ops) (\<lambda>e3.
           ret (Join [Join [Join [result, e1], e2], e3]))))))"

section \<open>The request\<close>

definition invalid_request :: "Code \<Rightarrow> backend_details \<Rightarrow> string \<Rightarrow> go_error" where
  "invalid_request code details text =
     newBackendError code StageBackendSpawn details (Some (sentinel (PlainError text)))"

text \<open>\<open>controlled\<close> says whether the request brings a channel of control commands; the development mode
  makes one of its own.\<close>

definition supervise_mode ::
  "'w deps \<Rightarrow> nat \<Rightarrow> backend_layout \<Rightarrow> backend_request \<Rightarrow> bool \<Rightarrow> 'w supervision \<Rightarrow> go_error option option \<times> 'w supervision" where
  "supervise_mode ops n layout request controlled =
     (if modeForRequest request = ModeDevelopment then
        seq (normalizeDevelopmentRequest ops layout request) (\<lambda>answer.
        case answer of
          Inl e \<Rightarrow> ret (Some e)
        | Inr r \<Rightarrow> superviseControlled ops n layout r)
      else if controlled then superviseControlled ops n layout request
      else superviseManaged ops layout request)"

definition Supervise ::
  "'w deps \<Rightarrow> nat \<Rightarrow> backend_layout \<Rightarrow> backend_request \<Rightarrow> bool \<Rightarrow> 'w supervision \<Rightarrow> go_error option option \<times> 'w supervision" where
  "Supervise ops n layout request controlled =
     (let mode = modeForRequest request in
      if rq_operationID request = '''' \<or> rq_runtimePID request = 0
      then ret (Some (invalid_request CodeInvalidArgument Map.empty ''backend request is invalid''))
      else if mode \<noteq> ModeManaged \<and> mode \<noteq> ModeDevelopment
      then ret (Some (invalid_request CodeUnsupportedMode [''mode'' \<mapsto> JString mode] ''backend mode is unsupported''))
      else
        seq (call (CtxErr ops)) (\<lambda>ended.
        if ended \<noteq> None then ret ended
        else
          case resolveSupervisedPort request mode of
            Inl e \<Rightarrow> ret (Some e)
          | Inr port \<Rightarrow>
              seq (call (StartRelay ops)) (\<lambda>relayErr.
              case relayErr of
                Some e \<Rightarrow> preferring ops e
              | None \<Rightarrow>
                  seq (supervise_mode ops n layout (request\<lparr>rq_port := port\<rparr>) controlled) (\<lambda>result.
                  seq (call (CloseRelay ops)) (\<lambda>closeErr.
                  ret (if closeErr \<noteq> None then Join [result, closeErr] else result))))))"


section \<open>What the managed path leaves\<close>

text \<open>While the lease is held: at most one start, of a confirmed revision, and announcements in order.\<close>

definition orderly :: "nat \<Rightarrow> observation \<Rightarrow> bool" where
  "orderly h ob \<longleftrightarrow> path_ok (o_announced ob) \<and> count_list (o_announced ob) StateRestarting = 0 \<and>
     o_starts ob \<le> 1 \<and> o_verified ob \<and> o_leases ob = [h] \<and> o_stateClosed ob = 0 \<and> o_lockClosed ob = 0"

definition open_at :: "nat \<Rightarrow> nat list \<Rightarrow> nat list \<Rightarrow> nat list \<Rightarrow> observation \<Rightarrow> bool" where
  "open_at h live txs logs ob \<longleftrightarrow> orderly h ob \<and> o_live ob = live \<and> o_txs ob = txs \<and> o_logs ob = logs"

text \<open>A body either released everything or left all it was given.\<close>

definition left_at :: "nat \<Rightarrow> nat list \<Rightarrow> nat list \<Rightarrow> nat list \<Rightarrow> body_result \<Rightarrow> observation \<Rightarrow> bool" where
  "left_at h live txs logs r ob \<longleftrightarrow> (if fst r then open_at h [] [] [] ob else open_at h live txs logs ob)"

lemma left_at_simps [simp]:
  "left_at h live txs logs (True, e) ob = open_at h [] [] [] ob"
  "left_at h live txs logs (False, e) ob = open_at h live txs logs ob"
  by (simp_all add: left_at_def)

definition up :: "nat \<Rightarrow> controlAttempt \<Rightarrow> nat \<Rightarrow> StateStatus list \<Rightarrow> observation \<Rightarrow> bool" where
  "up h a p statuses ob \<longleftrightarrow> at_process a = Some p \<and> open_at h [p] [at_tx a] [at_logger a] ob \<and> o_announced ob = statuses"

lemma up_left: "up h a p statuses ob \<Longrightarrow> left_at h [p] [at_tx a] [at_logger a] (False, e) ob"
  by (simp add: up_def)

lemma up_same: "up h a p statuses ob \<Longrightarrow> ob' = ob \<Longrightarrow> up h a p statuses ob'"
  by simp

lemma up_released:
  assumes "up h a p statuses ob"
  shows "open_at h [] [] [] (released (at_process a) (Some (at_tx a)) (Some (at_logger a)) ob)"
    "o_announced (released (at_process a) (Some (at_tx a)) (Some (at_logger a)) ob) = statuses"
  using assms by (auto simp: up_def open_at_def orderly_def released_def)

lemma wp_release_up:
  assumes "up h a p statuses (obs s)"
    and "\<And>c s'. open_at h [] [] [] (obs s') \<Longrightarrow> o_announced (obs s') = statuses \<Longrightarrow> Q c s'"
  shows "wp (cleanup_attempt ops a) Q W s"
proof -
  have p: "at_process a = Some p" using assms(1) by (simp add: up_def)
  show ?thesis
    unfolding cleanup_attempt_def p
    using up_released[OF assms(1)] p by (intro wp_cleanupProcess assms(2)) simp_all
qed

lemma wp_released_with:
  assumes "up h a p statuses (obs s)" "\<And>r s'. left_at h [p] [at_tx a] [at_logger a] r (obs s') \<Longrightarrow> Q r s'"
  shows "wp (released_with ops a primary) Q W s"
  unfolding released_with_def
  by (intro wp_seq wp_release_up[OF assms(1)] wp_ret assms(2)) simp

text \<open>Only after the start was announced is a failure announced.\<close>

definition may_fail :: "StateStatus list \<Rightarrow> bool" where
  "may_fail statuses \<longleftrightarrow> statuses = [StateStartingBackend] \<or> statuses = [StateRunning, StateStartingBackend]"

lemma failed_announced:
  "may_fail statuses \<Longrightarrow> o_announced ob = statuses \<Longrightarrow> open_at h [] [] [] ob \<Longrightarrow>
     open_at h [] [] [] (ob\<lparr>o_announced := StateBackendFailed # statuses\<rparr>)"
  by (auto simp: may_fail_def open_at_def orderly_def live_statuses_def)

lemma wp_failAfterStarting:
  assumes "up h a p statuses (obs s)" "may_fail statuses" "\<And>r s'. left_at h [p] [at_tx a] [at_logger a] r (obs s') \<Longrightarrow> Q r s'"
  shows "wp (failAfterStarting ops a primary) Q W s"
proof -
  have start: "up h a p statuses (obs s')" if "obs s' = obs s" for s' using assms(1) that by simp
  show ?thesis
    unfolding failAfterStarting_def Let_def
    by (intro wp_seq wp_call_obs wp_release_up[OF start] wp_emitState wp_ret assms(3))
       (auto simp: failed_announced[OF assms(2)])
qed

text \<open>The rules of this section, for an attempt that is up.\<close>

lemma wp_managed_update:
  assumes "up h a p statuses (obs s)" "may_fail statuses" "\<And>r s'. left_at h [p] [at_tx a] [at_logger a] r (obs s') \<Longrightarrow> Q r s'"
    and "\<And>s'. obs s' = obs s \<Longrightarrow> wp m Q W s'"
  shows "wp (managed_update ops a stage m) Q W s"
proof -
  have start: "up h a p statuses (obs s')" if "obs s' = obs s" for s' using assms(1) that by simp
  show ?thesis
    unfolding managed_update_def
    by (intro wp_seq wp_call_obs wp_case_option wp_if wp_released_with[OF start] wp_failAfterStarting[OF start assms(2)]
          assms(3,4)) simp_all
qed

lemma wp_managed_running:
  assumes "up h a p statuses (obs s)" "\<And>r s'. left_at h [p] [at_tx a] [at_logger a] r (obs s') \<Longrightarrow> Q r s'"
  shows "wp (managed_running ops a p') Q W s"
proof -
  have start: "up h a p statuses (obs s')" if "obs s' = obs s" for s' using assms(1) that by simp
  show ?thesis
    unfolding managed_running_def by (intro wp_seq wp_call_obs wp_release_up[OF start] wp_ret assms(2)) simp_all
qed

text \<open>The two announcements.\<close>

lemma up_running:
  "up h a p [StateStartingBackend] ob \<Longrightarrow> ob' = ob\<lparr>o_announced := StateRunning # o_announced ob\<rparr> \<Longrightarrow>
     up h a p [StateRunning, StateStartingBackend] ob'"
  by (auto simp: up_def open_at_def orderly_def)

lemma up_starting:
  "up h a p [] ob \<Longrightarrow> ob' = ob\<lparr>o_announced := StateStartingBackend # o_announced ob\<rparr> \<Longrightarrow> up h a p [StateStartingBackend] ob'"
  by (auto simp: up_def open_at_def orderly_def)

lemma may_fail_simps [simp]: "may_fail [StateStartingBackend]" "may_fail [StateRunning, StateStartingBackend]"
  by (simp_all add: may_fail_def)

lemma up_opened: "up h a p statuses ob \<Longrightarrow> open_at h [p] [at_tx a] [at_logger a] ob"
  by (simp add: up_def)

lemma wp_managed_ready:
  assumes "up h a p [StateStartingBackend] (obs s)" "\<And>r s'. left_at h [p] [at_tx a] [at_logger a] r (obs s') \<Longrightarrow> Q r s'"
  shows "wp (managed_ready ops request a p') Q W s"
  unfolding managed_ready_def
  by (intro wp_managed_update[OF assms(1) _ assms(2)] wp_seq wp_call_obs wp_if wp_emitState wp_case_option
        wp_failAfterStarting[of h a p "[StateRunning, StateStartingBackend]"]
        wp_managed_running[of h a p "[StateRunning, StateStartingBackend]"]
        wp_released_with[of h a p "[StateStartingBackend]"] assms(2))
     (use assms(1) in \<open>auto intro: up_running\<close>)

lemma wp_managed_health:
  assumes "up h a p [StateStartingBackend] (obs s)" "\<And>r s'. left_at h [p] [at_tx a] [at_logger a] r (obs s') \<Longrightarrow> Q r s'"
  shows "wp (managed_health ops request revision a p') Q W s"
  unfolding managed_health_def
  by (intro wp_seq wp_call_obs wp_case_option wp_if wp_managed_ready wp_released_with[of h a p "[StateStartingBackend]"]
        wp_failAfterStarting[of h a p "[StateStartingBackend]"] assms(2)) (simp_all add: assms(1))

lemma wp_managed_started:
  assumes "up h a p [] (obs s)" "\<And>r s'. left_at h [p] [at_tx a] [at_logger a] r (obs s') \<Longrightarrow> Q r s'"
  shows "wp (managed_started ops request revision a p') Q W s"
  unfolding managed_started_def
  by (intro wp_seq wp_call_obs wp_if wp_case_option wp_emitState wp_ret wp_managed_health
        wp_released_with[of h a p "[]"] wp_failAfterStarting[of h a p "[StateStartingBackend]"]
        wp_managed_update[of h a p "[StateStartingBackend]"] assms(2))
     (use assms(1) in \<open>auto intro: up_starting up_opened[OF up_starting]\<close>)

text \<open>The deferred functions.\<close>

lemma wp_defer_process:
  assumes "wp rest (\<lambda>r s'. left_at h [p] txs logs r (obs s')) W s"
    and "\<And>r s'. left_at h [] txs logs r (obs s') \<Longrightarrow> Q r s'"
  shows "wp (defer_process ops p rest) Q W s"
  unfolding defer_process_def
proof (intro wp_seq wp_weaken[OF assms(1)] wp_case_prod wp_if wp_ret assms(2) wp_cleanupProcess)
  fix r d e s' and c :: processCleanup and t :: "'a supervision"
  assume "left_at h [p] txs logs r (obs s')" "r = (d, e)" "\<not> d" "obs t = released (Some p) None None (obs s')"
  then show "left_at h [] txs logs (False, Join [e, pc_err c]) (obs t)"
    by (simp add: open_at_def orderly_def released_def)
qed auto

lemma wp_defer_transaction:
  assumes "wp rest (\<lambda>r s'. left_at h [] (case tx of None \<Rightarrow> [] | Some t \<Rightarrow> [t]) logs r (obs s')) W s"
    and "\<And>r s'. left_at h [] [] logs r (obs s') \<Longrightarrow> Q r s'"
  shows "wp (defer_transaction ops tx rest) Q W s"
  unfolding defer_transaction_def
  by (intro wp_seq wp_weaken[OF assms(1)] wp_case_prod wp_if wp_case_option wp_ret wp_remove_transaction assms(2))
     (auto simp: open_at_def orderly_def)

lemma wp_defer_logger:
  assumes "wp rest (\<lambda>r s'. left_at h [] [] [l] r (obs s')) W s"
    and "\<And>r s'. open_at h [] [] [] (obs s') \<Longrightarrow> Q r s'"
  shows "wp (defer_logger ops l rest) Q W s"
  unfolding defer_logger_def
  by (intro wp_seq wp_weaken[OF assms(1)] wp_case_prod wp_if wp_call_obs wp_ret wp_close_logger assms(2))
     (auto simp: open_at_def orderly_def)

section \<open>The body of the managed path\<close>

text \<open>Before the start of the process.\<close>

definition ready_at :: "nat \<Rightarrow> nat list \<Rightarrow> nat list \<Rightarrow> observation \<Rightarrow> bool" where
  "ready_at h txs logs ob \<longleftrightarrow> open_at h [] txs logs ob \<and> o_starts ob = 0 \<and> o_announced ob = []"

lemma ready_open: "ready_at h txs logs ob \<Longrightarrow> open_at h [] txs logs ob"
  by (simp add: ready_at_def)

lemma ready_read: "only_read ob ob' \<Longrightarrow> ready_at h txs logs ob \<Longrightarrow> ready_at h txs logs ob'"
proof -
  assume "only_read ob ob'" and ready: "ready_at h txs logs ob"
  then obtain e r where "ob' = ob\<lparr>o_env := e, o_repo := r\<rparr>" unfolding only_read_def by blast
  then show ?thesis using ready by (simp add: ready_at_def open_at_def orderly_def)
qed

lemma started_up:
  assumes "ready_at h [t] [l] ob" "confirms ob revision"
  shows "up h \<lparr>at_process = Some p, at_tx = t, at_logger = l, at_gate = g\<rparr> p []
      (observe (StartedProcess p (attempt_options ops layout request revision)) ob)"
proof -
  have "start_verified ob (attempt_options ops layout request revision)"
    using assms(2) confirms_start[OF assms(2), of "attempt_options ops layout request revision"]
    by (cases "modeForRequest request = ModeDevelopment") (simp_all add: attempt_options_def Let_def start_verified_def)
  then show ?thesis using assms(1) by (simp add: up_def ready_at_def open_at_def orderly_def)
qed

lemma wp_managed_start:
  assumes "ready_at h [t] [l] (obs s)" "confirms (obs s) revision"
    and "\<And>r s'. left_at h [] [t] [l] r (obs s') \<Longrightarrow> Q r s'"
  shows "wp (managed_start ops layout request revision l t) Q W s"
proof -
  let ?options = "attempt_options ops layout request revision"
  have started: "wp (seq (call (GateFault ops g)) (\<lambda>fault.
      if fault \<noteq> None then released_with ops a (with_details ops a fault)
      else seq (call (CtxErr ops)) (\<lambda>ended.
        released_with ops a (with_details ops a (preferCancellation ended (Some (newBackendError CodeBackendSpawnFailed StageBackendSpawn Map.empty err)))))))
      Q W s'"
    "wp (defer_process ops p (managed_started ops request revision a p)) Q W s'"
    if "obs s' = observe (StartedProcess p ?options) (obs s)"
      "a = \<lparr>at_process = Some p, at_tx = t, at_logger = l, at_gate = g\<rparr>" for s' :: "'a supervision" and p g a err
  proof -
    have up: "up h a p [] (obs s')" using started_up[OF assms(1,2)] that by simp
    have fields: "at_tx a = t" "at_logger a = l" using that(2) by simp_all
    have ended: "Q (True, e) u" if "open_at h [] [] [] (obs u)" for e u using that by (intro assms(3)) simp
    show "wp (seq (call (GateFault ops g)) (\<lambda>fault.
        if fault \<noteq> None then released_with ops a (with_details ops a fault)
        else seq (call (CtxErr ops)) (\<lambda>ended.
          released_with ops a (with_details ops a (preferCancellation ended (Some (newBackendError CodeBackendSpawnFailed StageBackendSpawn Map.empty err)))))))
        Q W s'"
      unfolding released_with_def
      by (intro wp_seq wp_call_obs wp_if wp_release_up[of h a p "[]"] wp_ret ended) (use up in simp_all)
    show "wp (defer_process ops p (managed_started ops request revision a p)) Q W s'"
      by (intro wp_defer_process[of _ h _ "[t]" "[l]"] wp_managed_started[of h a p] assms(3)) (use up fields in auto)
  qed
  have plain: "Q (False, e) s'" if "obs s' = obs s" for e s'
    using ready_open[OF assms(1)] that by (intro assms(3)) simp
  show ?thesis
    unfolding managed_start_def start_managed_def Let_def
    by (intro wp_seq wp_call_obs wp_case_prod wp_case_option wp_act_obs wp_ret wp_if plain started)
       (auto intro: plain started)
qed

lemma wp_preferring: "(\<And>e s'. obs s' = obs s \<Longrightarrow> Q e s') \<Longrightarrow> wp (preferring ops e) Q W s"
  unfolding preferring_def by (intro wp_seq wp_call_obs wp_ret)

lemma ready_env [simp]: "ready_at h txs logs (ob\<lparr>o_env := e\<rparr>) = ready_at h txs logs ob"
  by (simp add: ready_at_def open_at_def orderly_def)

lemma began: "ready_at h [] logs ob \<Longrightarrow> ready_at h [t] logs (ob\<lparr>o_txs := t # o_txs ob\<rparr>)"
  by (simp add: ready_at_def open_at_def orderly_def)

lemma opened_logger: "ready_at h [] [] ob \<Longrightarrow> ready_at h [] [l] (ob\<lparr>o_logs := l # o_logs ob\<rparr>)"
  by (simp add: ready_at_def open_at_def orderly_def)

lemma closed_logger: "open_at h [] [] [l] ob \<Longrightarrow> open_at h [] [] [] (ob\<lparr>o_logs := remove1 l (o_logs ob)\<rparr>)"
  by (simp add: open_at_def orderly_def)

lemma wp_managed_transaction:
  assumes ready: "ready_at h [] [l] (obs s)" and revision: "revision = env_lastSuccessful env"
    and Q: "\<And>r s'. left_at h [] [] [l] r (obs s') \<Longrightarrow> Q r s'"
  shows "wp (managed_transaction ops layout request env revision l) Q W s"
proof -
  have fresh: "ready_at h [t] [l] (obs s')" if "only_read (observe (BeganTransaction t) (obs s)) (obs s')" for t s'
    using that began[OF ready] by (auto intro: ready_read)
  have none: "wp (defer_transaction ops None (seq (preferring ops e) (\<lambda>e. ret (False, e)))) Q W s'"
    if "obs s' = obs s" for e s'
    by (intro wp_defer_transaction[of _ h None "[l]"] wp_seq wp_preferring wp_ret Q)
       (use that ready_open[OF ready] in auto)
  have some: "wp (defer_transaction ops (Some t) (if err \<noteq> None then seq (preferring ops e) (\<lambda>e. ret (False, e))
      else seq (recheckRevision ops env revision) (\<lambda>err.
        case err of
          Some e \<Rightarrow> seq (preferring ops (the (withFailureDetails ops err (Some l) None))) (\<lambda>e. ret (False, e))
        | None \<Rightarrow> seq (call (CtxErr ops)) (\<lambda>ended.
            if ended \<noteq> None then ret (False, ended) else managed_start ops layout request revision l t)))) Q W s'"
    if "obs s' = observe (BeganTransaction t) (obs s)" for t e err s'
    by (intro wp_defer_transaction[of _ h "Some t" "[l]"] wp_if wp_seq wp_preferring wp_ret Q wp_recheckRevision
          wp_case_option wp_call_obs wp_managed_start)
       (use that in \<open>auto simp: revision intro: ready_open[OF fresh] fresh ready_open[OF began[OF ready]]\<close>)
  show ?thesis
    unfolding managed_transaction_def begin_transaction_def
    by (intro wp_seq wp_call_obs wp_case_prod wp_case_option wp_act_obs wp_ret)
       (auto simp: none[simplified] some[simplified])
qed

lemma wp_managed_logger:
  assumes ready: "ready_at h [] [] (obs s)" and revision: "revision = env_lastSuccessful env"
    and Q: "\<And>r s'. open_at h [] [] [] (obs s') \<Longrightarrow> Q r s'"
  shows "wp (managed_logger ops layout request env revision) Q W s"
  unfolding managed_logger_def open_logger_def
  by (intro wp_seq wp_call_obs wp_case_prod wp_case_option wp_act_obs wp_ret wp_if wp_preferring wp_close_logger
        wp_defer_logger wp_managed_transaction revision Q)
     (use ready in \<open>auto intro: ready_open opened_logger\<close>)

lemma wp_managed_checks:
  assumes ready: "ready_at h [] [] (obs s)" and Q: "\<And>r s'. open_at h [] [] [] (obs s') \<Longrightarrow> Q r s'"
  shows "wp (managed_checks ops layout request) Q W s"
proof -
  have same: "ready_at h [] [] (obs s')" if "only_read (obs s) (obs s')" for s' using that ready by (rule ready_read)
  have fail: "wp (preferring ops e) Q W s'" if "only_read (obs s) (obs s')" for e s'
    by (intro wp_preferring Q) (use ready_open[OF same[OF that]] in simp)
  show ?thesis
    unfolding managed_checks_def
    by (intro wp_seq wp_recoverStaleTransaction wp_case_option wp_case_sum wp_checkEntry wp_read_environment
          wp_checkRepository wp_call_obs fail wp_managed_logger Q)
       (auto intro: same ready_read elim: only_read_trans[rotated] simp: ready)
qed

section \<open>Every supervision\<close>

lemma acquired_ready: "ready_at h [] [] (obs_start\<lparr>o_leases := [h]\<rparr>)"
  by (simp add: ready_at_def open_at_def orderly_def obs_start_def)

lemma managed_closed:
  assumes "open_at h [] [] [] ob"
    and "ob' = ob\<lparr>o_stateClosed := Suc (o_stateClosed ob), o_leases := remove1 h (o_leases ob), o_lockClosed := Suc (o_lockClosed ob)\<rparr>"
  shows "all_closed ob' \<and> bounded ob' \<and> o_starts ob' \<le> 1"
  using assms by (auto simp: open_at_def orderly_def all_closed_def bounded_def)

lemma wp_superviseManaged:
  assumes start: "obs s = obs_start"
  shows "wp (superviseManaged ops layout request)
    (\<lambda>_ s. all_closed (obs s) \<and> bounded (obs s) \<and> o_starts (obs s) \<le> 1) (\<lambda>_. False) s"
proof -
  have failed: "wp (managed_lock_failed ops lease err)
      (\<lambda>_ s. all_closed (obs s) \<and> bounded (obs s) \<and> o_starts (obs s) \<le> 1) (\<lambda>_. False) s'"
    if "obs s' = obs_start\<lparr>o_leases := (case lease of None \<Rightarrow> [] | Some l \<Rightarrow> [l])\<rparr>" for lease err s'
    unfolding managed_lock_failed_def close_lease_def close_state_def close_lock_set_def Let_def
    by (intro wp_seq wp_call_obs wp_act_obs wp_case_option wp_ret)
       (use that in \<open>auto simp: all_closed_def bounded_def obs_start_def\<close>)
  have held: "wp (seq (managed_checks ops layout request) (\<lambda>result.
        seq (close_state ops) (\<lambda>e1. seq (close_lease ops h) (\<lambda>e2. seq (close_lock_set ops) (\<lambda>e3.
        ret (Join [Join [Join [result, e1], e2], e3]))))))
      (\<lambda>_ s. all_closed (obs s) \<and> bounded (obs s) \<and> o_starts (obs s) \<le> 1) (\<lambda>_. False) s'"
    if "obs s' = obs_start\<lparr>o_leases := [h]\<rparr>" for h s'
    unfolding close_lease_def close_state_def close_lock_set_def
    by (intro wp_seq wp_managed_checks[of h] wp_act_obs wp_call_obs wp_ret managed_closed)
       (auto simp: that acquired_ready)
  show ?thesis
    unfolding superviseManaged_def acquire_lock_def
    by (intro wp_seq wp_call_obs wp_case_prod wp_case_option wp_act_obs wp_ret wp_if failed held)
       (use start in \<open>auto simp: obs_start_def\<close>)
qed

text \<open>A supervision either was refused before it touched anything, or closed everything.\<close>

definition untouched :: "observation \<Rightarrow> bool" where
  "untouched ob \<longleftrightarrow> ob = obs_start"

lemma untouched_bounded: "untouched ob \<Longrightarrow> bounded ob"
  by (simp add: untouched_def bounded_def obs_start_def)

lemma wp_Supervise:
  assumes fifo: "channel_fifo ops" and start: "obs s = obs_start"
  shows "wp (Supervise ops n layout request controlled)
    (\<lambda>_ s. (untouched (obs s) \<or> all_closed (obs s)) \<and> bounded (obs s)) (\<lambda>s. bounded (obs s)) s"
proof -
  let ?Q = "\<lambda>_ s. (untouched (obs s) \<or> all_closed (obs s)) \<and> bounded (obs s)"
  have quiet: "(untouched (obs s') \<or> all_closed (obs s')) \<and> bounded (obs s')" if "obs s' = obs s" for s'
    using that start untouched_bounded[of "obs s'"] by (simp add: untouched_def)
  have controlled_run: "wp (superviseControlled ops n layout r) P (\<lambda>s. bounded (obs s)) s'"
    if "mode_ok r" "obs s' = obs s" "\<And>e t. all_closed (obs t) \<Longrightarrow> bounded (obs t) \<Longrightarrow> P e t" for r P s'
    by (rule wp_weaken[OF wp_superviseControlled[OF fifo that(1)]]) (use that start in auto)
  have managed_run: "wp (superviseManaged ops layout r) P (\<lambda>s. bounded (obs s)) s'"
    if "obs s' = obs s" "\<And>e t. all_closed (obs t) \<Longrightarrow> bounded (obs t) \<Longrightarrow> P e t" for r P s'
    by (rule wp_weaken[OF wp_superviseManaged]) (use that start in auto)
  have mode: "wp (supervise_mode ops n layout r controlled) P (\<lambda>s. bounded (obs s)) s'"
    if "modeForRequest r = ModeManaged \<or> modeForRequest r = ModeDevelopment" "obs s' = obs s"
      "\<And>e t. (untouched (obs t) \<or> all_closed (obs t)) \<and> bounded (obs t) \<Longrightarrow> P e t" for r P s'
    unfolding supervise_mode_def
    by (intro wp_if wp_seq wp_normalizeDevelopmentRequest wp_case_sum wp_ret controlled_run managed_run that(3))
       (use that(1,2) quiet in \<open>auto simp: mode_ok_def same_request_mode\<close>)
  have port: "modeForRequest (request\<lparr>rq_port := p\<rparr>) = modeForRequest request" for p
    by (simp add: modeForRequest_def)
  show ?thesis
    unfolding Supervise_def Let_def
    by (intro wp_if wp_ret wp_seq wp_call_obs wp_case_sum wp_case_option wp_preferring mode)
       (use quiet port in auto)
qed

lemma bounded_run:
  assumes "channel_fifo ops" "Supervise ops n layout request controlled (initial_supervision w) = (r, s)"
  shows "bounded (obs s)"
proof -
  have "wp (Supervise ops n layout request controlled) (\<lambda>_ s. bounded (obs s)) (\<lambda>s. bounded (obs s)) (initial_supervision w)"
    by (rule wp_weaken[OF wp_Supervise[OF assms(1) obs_initial]]) blast+
  then show ?thesis by (rule wp_always) (rule assms(2))
qed

lemma o_verified_observe: "o_verified (observe a ob) \<Longrightarrow> o_verified ob"
  by (cases a) (auto split: if_splits)

lemma o_verified_at:
  "o_verified (foldr observe (newer @ StartedProcess p m # older) ob) \<Longrightarrow>
     start_verified (foldr observe older ob) m"
  by (induction newer) (auto dest: o_verified_observe)


text \<open>C4: At most one process, one transaction and one logger are open whenever a supervision waits
  or returns; it announces at most one restart, and it starts a process at most twice, the second
  time only after it has announced the restart.\<close>

theorem supervision_one_restart:
  assumes "channel_fifo ops" "Supervise ops n layout request controlled (initial_supervision w) = (r, s)"
  shows "length (o_live (obs s)) \<le> 1 \<and> length (o_txs (obs s)) \<le> 1 \<and> length (o_logs (obs s)) \<le> 1 \<and>
    count_list (o_announced (obs s)) StateRestarting \<le> 1 \<and>
    o_starts (obs s) \<le> 1 + count_list (o_announced (obs s)) StateRestarting"
  using bounded_run[OF assms] by (simp add: bounded_def)

text \<open>C5: Every process that is started for a managed revision is started only after the environment
  that was read last was ready with that revision as its last success, and the repository that was
  checked last was healthy at it: the check is never older than the last thing the supervisor knew.\<close>

theorem managed_start_confirmed:
  assumes "channel_fifo ops" "Supervise ops n layout request controlled (initial_supervision w) = (r, s)"
    and "trace s = newer @ StartedProcess p m # older"
  shows "start_verified (foldr observe older obs_start) m"
proof -
  have "o_verified (obs s)" using bounded_run[OF assms(1,2)] by (simp add: bounded_def)
  then have "o_verified (foldr observe (newer @ StartedProcess p m # older) obs_start)"
    by (simp add: obs_def assms(3) del: obs_cs)
  then show ?thesis by (rule o_verified_at)
qed


section \<open>The example, from the request on\<close>

lemma example_fifo: "channel_fifo example_deps"
  by (simp add: channel_fifo_def quiet_at_end_def)

lemma example_port [simp]: "example_request\<lparr>rq_port := 36163\<rparr> = example_request"
  "resolveSupervisedPort example_request ModeManaged = Inr 36163" "rq_operationID example_request \<noteq> ''''"
  "rq_runtimePID example_request = 7"
  by (simp_all add: example_request_def resolveSupervisedPort_def ValidPort_def)

lemma example_supervise:
  "summary (Supervise example_deps 9 example_layout example_request True (initial_supervision example_world)) =
     (True, [], [StateStopped, StateStoppingBackend, StateRunning, StateRestarting, StateRunning, StateStartingBackend], 2, [], [])"
proof -
  have "Supervise example_deps 9 example_layout example_request True (initial_supervision example_world) =
      superviseControlled example_deps 9 example_layout example_request (initial_supervision example_world)"
    by (cases "superviseControlled example_deps 9 example_layout example_request (initial_supervision example_world)")
       (simp add: Supervise_def supervise_mode_def[THEN fun_cong] run_steps split_def split: option.splits)
  then show ?thesis using restarted_run by simp
qed

text \<open>The run of the example.\<close>

definition example_ran :: "example_world supervision \<Rightarrow> bool" where
  "example_ran s \<longleftrightarrow>
     Supervise example_deps 9 example_layout example_request True (initial_supervision example_world) = (Some None, s)"

lemma example_returns:
  "\<exists>s. example_ran s \<and> o_starts (obs s) = 2 \<and>
     rev (o_announced (obs s)) = [StateStartingBackend] @ StateRunning # [StateRestarting, StateRunning, StateStoppingBackend, StateStopped]"
proof -
  obtain r s where run: "Supervise example_deps 9 example_layout example_request True (initial_supervision example_world) = (r, s)"
    by fastforce
  from example_supervise[unfolded run] have "r = Some None" by (auto simp: summary_def split: option.splits simp del: obs_cs)
  with run example_supervise[unfolded run] show ?thesis by (auto simp: summary_def example_ran_def simp del: obs_cs)
qed


theorem supervision_one_restart_witness:
  "\<exists>s. example_ran s \<and> 2 \<le> 1 + count_list (o_announced (obs s)) StateRestarting"
  using example_returns supervision_one_restart[OF example_fifo] unfolding example_ran_def by metis


lemma observe_starts: "(\<nexists>p m. a = StartedProcess p m) \<Longrightarrow> o_starts (observe a ob) = o_starts ob"
  by (cases a) auto

lemma started_in_trace:
  "0 < o_starts (foldr observe tr obs_start) \<Longrightarrow> \<exists>newer p m older. tr = newer @ StartedProcess p m # older"
proof (induction tr)
  case (Cons a tr)
  show ?case
  proof (cases "\<exists>p m. a = StartedProcess p m")
    case True
    then show ?thesis by (metis append_Nil)
  next
    case False
    then obtain newer p m older where "tr = newer @ StartedProcess p m # older"
      using Cons observe_starts[OF False] by auto
    then show ?thesis by (metis append_Cons)
  qed
qed (simp add: obs_start_def)

theorem managed_start_confirmed_witness:
  "\<exists>s newer p m older. example_ran s \<and> trace s = newer @ StartedProcess p m # older \<and>
     start_verified (foldr observe older obs_start) m"
proof -
  obtain s where run: "example_ran s" and "o_starts (obs s) = 2"
    using example_returns by blast
  then have "0 < o_starts (foldr observe (trace s) obs_start)" by (simp add: obs_def del: obs_cs)
  then obtain newer p m older where tr: "trace s = newer @ StartedProcess p m # older"
    using started_in_trace by blast
  show ?thesis using run tr managed_start_confirmed[OF example_fifo run[unfolded example_ran_def] tr] by blast
qed

end
