(* ===== verification/Relay_Route.thy ===== *)
theory Relay_Route
  imports Go_Utf8 Mirror_Source
begin

text \<open>
  \<open>internal/relay/route.go\<close> and the parts of \<open>relay.go\<close>, \<open>client.go\<close> and \<open>server.go\<close> that decide what a
  relay accepts: which request is mapped to which upstream path, which upstream URL and which
  registered item is valid, and how a configuration is completed with its defaults. The path of a
  request is the escaped path as \<open>net/url\<close> gives it. \<open>url.Parse\<close> is the \<open>url_parse\<close> of \<open>url_api\<close>, and
  the two functions of \<open>path/filepath\<close> are arguments; \<open>url.PathUnescape\<close>, \<open>hex.DecodeString\<close> and the
  \<open>range\<close> loop over a string are written out. The lemmas show that a path that is accepted has no
  segment that could leave its route, before or after unescaping, and that every item a relay
  accepts can be requested under its own path.
\<close>

section \<open>Strings of the standard library\<close>

text \<open>The runes of a \<open>range\<close> loop: an ill-formed byte is one replacement rune.\<close>

function range_runes :: "nat list \<Rightarrow> nat list" where
  "range_runes bs =
     (if bs = [] then []
      else case rune_at bs of
             None \<Rightarrow> 0xFFFD # range_runes (tl bs)
           | Some (r, w) \<Rightarrow> r # range_runes (drop w bs))"
  by pat_completeness auto
termination
  by (relation "measure length") (auto dest: rune_at_width)

declare range_runes.simps [simp del]

lemma range_runes_Nil [simp]: "range_runes [] = []"
  by (subst range_runes.simps) simp

definition hex_value :: "char \<Rightarrow> nat option" where
  "hex_value c =
     (if is_digit c then Some (code_of c - 48)
      else if CHR ''a'' \<le> c \<and> c \<le> CHR ''f'' then Some (code_of c - 87)
      else if CHR ''A'' \<le> c \<and> c \<le> CHR ''F'' then Some (code_of c - 55)
      else None)"

text \<open>\<open>url.PathUnescape\<close>: \<open>None\<close> when a per cent sign is not followed by two hexadecimal digits.\<close>

fun path_unescape :: "string \<Rightarrow> string option" where
  "path_unescape [] = Some []"
| "path_unescape (c # cs) =
     (if c = CHR 0x25 then
        (case cs of
           a # b # rest \<Rightarrow>
             (case (hex_value a, hex_value b) of
                (Some x, Some y) \<Rightarrow> map_option ((#) (char_of (16 * x + y))) (path_unescape rest)
              | _ \<Rightarrow> None)
         | _ \<Rightarrow> None)
      else map_option ((#) c) (path_unescape cs))"

fun hex_decode :: "string \<Rightarrow> string option" where
  "hex_decode [] = Some []"
| "hex_decode [c] = None"
| "hex_decode (a # b # rest) =
     (case (hex_value a, hex_value b) of
        (Some x, Some y) \<Rightarrow> map_option ((#) (char_of (16 * x + y))) (hex_decode rest)
      | _ \<Rightarrow> None)"

section \<open>Routes\<close>

type_synonym Route = string

abbreviation "RoutePackages \<equiv> ''packages''"
abbreviation "RouteSimple \<equiv> ''simple''"
abbreviation "RoutePython \<equiv> ''python''"

definition Route_Valid :: "Route \<Rightarrow> bool" where
  "Route_Valid r \<longleftrightarrow> r = RoutePackages \<or> r = RouteSimple \<or> r = RoutePython"

record routeStatus =
  rs_route :: Route
  rs_path :: string
  rs_status :: nat

abbreviation "StatusNotFound \<equiv> 404 :: nat"
abbreviation "StatusMethodNotAllowed \<equiv> 405 :: nat"

definition plainSegment :: "string \<Rightarrow> bool" where
  "plainSegment s \<longleftrightarrow>
     \<not> (s = '''' \<or> s = ''.'' \<or> s = ''..'') \<and>
     \<not> list_ex (\<lambda>r. r \<le> 0x1F \<or> r = 0x7F \<or> r = 0x5C) (range_runes (map code_of s))"

definition validSegment :: "string \<Rightarrow> bool" where
  "validSegment s \<longleftrightarrow>
     plainSegment s \<and>
     (case path_unescape s of
        None \<Rightarrow> False
      | Some d \<Rightarrow> plainSegment d \<and> \<not> list_ex (\<lambda>c. c = CHR 0x2F \<or> c = CHR 0x5C) d)"

definition route_prefix :: "Route \<Rightarrow> string" where
  "route_prefix r = ''/'' @ r @ ''/''"

fun split_route :: "Route list \<Rightarrow> string \<Rightarrow> (Route \<times> string) option" where
  "split_route [] raw = None"
| "split_route (r # rs) raw =
     (if has_prefix raw (route_prefix r) then Some (r, trim_prefix raw (route_prefix r))
      else split_route rs raw)"

definition splitRoutePrefix :: "string \<Rightarrow> (Route \<times> string) option" where
  "splitRoutePrefix raw = split_route [RoutePackages, RouteSimple, RoutePython] raw"

definition methodAllowed :: "Route \<Rightarrow> string \<Rightarrow> bool" where
  "methodAllowed r m =
     (if m = ''GET'' then True else if m = ''HEAD'' then r \<noteq> RouteSimple else False)"

text \<open>Status zero means that the request was resolved.\<close>

definition resolveRoute :: "string \<Rightarrow> string \<Rightarrow> routeStatus" where
  "resolveRoute rawPath m =
     (case splitRoutePrefix rawPath of
        None \<Rightarrow> \<lparr>rs_route = '''', rs_path = '''', rs_status = StatusNotFound\<rparr>
      | Some (route, rest) \<Rightarrow>
          if \<not> methodAllowed route m then
            \<lparr>rs_route = route, rs_path = '''', rs_status = StatusMethodNotAllowed\<rparr>
          else if route = RouteSimple then
            (let name = trim_suffix rest ''/'' in
             if \<not> validSegment name \<or> contains name ''/''
             then \<lparr>rs_route = route, rs_path = '''', rs_status = StatusNotFound\<rparr>
             else \<lparr>rs_route = route, rs_path = name @ ''/'', rs_status = 0\<rparr>)
          else if rest = '''' \<or> has_suffix rest ''/'' then
            \<lparr>rs_route = route, rs_path = '''', rs_status = StatusNotFound\<rparr>
          else if \<not> list_all validSegment (split_on CHR 0x2F rest) then
            \<lparr>rs_route = route, rs_path = '''', rs_status = StatusNotFound\<rparr>
          else \<lparr>rs_route = route, rs_path = rest, rs_status = 0\<rparr>)"

section \<open>Upstreams, items and the configuration\<close>

definition validateHTTPSURL :: "url_api \<Rightarrow> string \<Rightarrow> URL option" where
  "validateHTTPSURL api raw =
     (case url_parse api raw of
        None \<Rightarrow> None
      | Some u \<Rightarrow>
          if uScheme u = '''' \<or> ascii_lower (uScheme u) \<noteq> ''https'' \<or> uHost u = '''' \<or> uHasUser u \<or>
             uFragment u \<noteq> ''''
          then None else Some u)"

datatype redirect_error = errRedirectLimit | errRedirectDowngrade | errURLPolicy

definition maxRedirects :: nat where
  "maxRedirects = 10"

text \<open>\<open>target\<close> is the URL of the request of a redirect as a string and its scheme, \<open>None\<close> for a nil
  request or URL; \<open>via\<close> counts the requests made so far.\<close>

definition checkRedirect :: "url_api \<Rightarrow> (string \<times> string) option \<Rightarrow> nat \<Rightarrow> redirect_error option" where
  "checkRedirect api target via =
     (if maxRedirects < via then Some errRedirectLimit
      else case target of
        None \<Rightarrow> Some errURLPolicy
      | Some (raw, scheme) \<Rightarrow>
          if validateHTTPSURL api raw = None then
            (if ascii_lower scheme = ''http'' then Some errRedirectDowngrade else Some errURLPolicy)
          else None)"

definition validateFinalURL :: "url_api \<Rightarrow> string option \<Rightarrow> bool" where
  "validateFinalURL api final =
     (case final of None \<Rightarrow> False | Some raw \<Rightarrow> validateHTTPSURL api raw \<noteq> None)"

record Item =
  iPath :: string
  iSize :: int
  iSHA256 :: string

record Upstream =
  uKey :: string
  uBase :: string
  uAcceptRange :: bool
  uRewriteFrom :: string

text \<open>Every error of the configuration wraps \<open>ErrInvalidConfig\<close>; the constructors are its messages.\<close>

datatype ConfigError =
    StagingDirNotAbsolute | UpstreamsRequired | InvalidRoute Route | UpstreamKeyEmpty
  | UpstreamBaseInvalid string | UpstreamRewriteInvalid string
  | ItemPathInvalid string | ItemSizeInvalid string | ItemDigestInvalid string
  | CacheLimitsNegative | LimitsNotPositive

definition normalizeUpstream :: "url_api \<Rightarrow> Upstream \<Rightarrow> ConfigError + Upstream" where
  "normalizeUpstream api u =
     (if uKey u = '''' then Inl UpstreamKeyEmpty
      else if validateHTTPSURL api (uBase u) = None then Inl (UpstreamBaseInvalid (uKey u))
      else if uRewriteFrom u \<noteq> '''' \<and> validateHTTPSURL api (uRewriteFrom u) = None
      then Inl (UpstreamRewriteInvalid (uKey u))
      else Inr (if has_suffix (uBase u) ''/'' then u else u\<lparr>uBase := uBase u @ ''/''\<rparr>))"

definition validateItem :: "Item \<Rightarrow> ConfigError option" where
  "validateItem item =
     (if iPath item = '''' \<or> has_prefix (iPath item) ''/'' \<or> has_suffix (iPath item) ''/''
      then Some (ItemPathInvalid (iPath item))
      else if \<not> list_all validSegment (split_on CHR 0x2F (iPath item))
      then Some (ItemPathInvalid (iPath item))
      else if iSize item \<le> 0 then Some (ItemSizeInvalid (iPath item))
      else case hex_decode (iSHA256 item) of
             None \<Rightarrow> Some (ItemDigestInvalid (iPath item))
           | Some d \<Rightarrow> if length d \<noteq> 32 then Some (ItemDigestInvalid (iPath item)) else None)"

text \<open>Durations in nanoseconds. The upstreams of a configuration are a Go map: a list without
  repeated routes, in the order in which the loop visits them.\<close>

record Config =
  MaxUnregisteredBytes :: int
  MaxCachedBytes :: int
  MaxCachedFiles :: int
  StagingDir :: string
  Upstreams :: "(Route \<times> Upstream list) list"
  Items :: "Item list"
  ChunkThreshold :: int
  ChunkSize :: int
  MaxFiles :: int
  MaxChunksPerFile :: int
  StallTimeout :: int
  ConnectTimeout :: int

definition second :: int where "second = 1000000000"
definition DefaultChunkThreshold :: int where "DefaultChunkThreshold = 8 * 2 ^ 20"
definition DefaultChunkSize :: int where "DefaultChunkSize = 2 * 2 ^ 20"
definition DefaultMaxFiles :: int where "DefaultMaxFiles = 6"
definition DefaultMaxChunksPerFile :: int where "DefaultMaxChunksPerFile = 4"
definition DefaultStallTimeout :: int where "DefaultStallTimeout = 15 * second"
definition DefaultConnectTimeout :: int where "DefaultConnectTimeout = 15 * second"

fun map_all :: "('a \<Rightarrow> 'e + 'b) \<Rightarrow> 'a list \<Rightarrow> 'e + 'b list" where
  "map_all f [] = Inr []"
| "map_all f (x # xs) = bindE (f x) (\<lambda>y. bindE (map_all f xs) (\<lambda>ys. Inr (y # ys)))"

definition normalize_route :: "url_api \<Rightarrow> Route \<times> Upstream list \<Rightarrow> ConfigError + (Route \<times> Upstream list)" where
  "normalize_route api entry =
     (case entry of (route, us) \<Rightarrow>
        if \<not> Route_Valid route then Inl (InvalidRoute route)
        else bindE (map_all (normalizeUpstream api) us) (\<lambda>us'. Inr (route, us')))"

definition or_default :: "int \<Rightarrow> int \<Rightarrow> int" where
  "or_default d v = (if v = 0 then d else v)"

definition normalizeConfig ::
  "url_api \<Rightarrow> (string \<Rightarrow> bool) \<Rightarrow> (string \<Rightarrow> string) \<Rightarrow> Config \<Rightarrow> ConfigError + Config" where
  "normalizeConfig api isAbs clean cfg =
     (if StagingDir cfg = '''' \<or> \<not> isAbs (StagingDir cfg) then Inl StagingDirNotAbsolute
      else if Upstreams cfg = [] then Inl UpstreamsRequired
      else bindE (map_all (normalize_route api) (Upstreams cfg)) (\<lambda>upstreams.
        bindE (map_all (\<lambda>item. bindE (checkE (validateItem item)) (\<lambda>_. Inr item)) (Items cfg)) (\<lambda>items.
          let n = cfg\<lparr>StagingDir := clean (StagingDir cfg), Upstreams := upstreams, Items := items,
                MaxUnregisteredBytes := or_default (2 ^ 30) (MaxUnregisteredBytes cfg),
                MaxCachedBytes := or_default (2 * 2 ^ 30) (MaxCachedBytes cfg),
                MaxCachedFiles := or_default 128 (MaxCachedFiles cfg)\<rparr> in
          if MaxUnregisteredBytes n < 0 \<or> MaxCachedBytes n < 0 \<or> MaxCachedFiles n < 0
          then Inl CacheLimitsNegative
          else
            let m = n\<lparr>ChunkThreshold := or_default DefaultChunkThreshold (ChunkThreshold n),
                  ChunkSize := or_default DefaultChunkSize (ChunkSize n),
                  MaxFiles := or_default DefaultMaxFiles (MaxFiles n),
                  MaxChunksPerFile := or_default DefaultMaxChunksPerFile (MaxChunksPerFile n),
                  StallTimeout := or_default DefaultStallTimeout (StallTimeout n),
                  ConnectTimeout := or_default DefaultConnectTimeout (ConnectTimeout n)\<rparr> in
            if ChunkThreshold m < 0 \<or> ChunkSize m \<le> 0 \<or> MaxFiles m \<le> 0 \<or> MaxChunksPerFile m \<le> 0 \<or>
               StallTimeout m \<le> 0 \<or> ConnectTimeout m \<le> 0
            then Inl LimitsNotPositive
            else Inr m)))"

section \<open>Segments\<close>

lemma rune_at_bytes:
  "rune_at bs = Some (r, w) \<Longrightarrow>
     (r < 0x80 \<and> w = 1 \<and> hd bs = r) \<or> (0x80 \<le> r \<and> (\<forall>b \<in> set (take w bs). 0x80 \<le> b))"
  by (auto simp: rune_at_def continuation_def second_range_def split: list.splits if_splits)

lemma rune_at_None: "rune_at (b # bs) = None \<Longrightarrow> 0x80 \<le> b"
  by (auto simp: rune_at_def split: if_splits)

text \<open>An ASCII rune is seen by a \<open>range\<close> loop exactly when it is a byte of the string, well-formed or not.\<close>

lemma range_runes_ascii: "r < 0x80 \<Longrightarrow> r \<in> set (range_runes bs) \<longleftrightarrow> r \<in> set bs"
proof (induction bs rule: range_runes.induct)
  case (1 bs)
  show ?case
  proof (cases bs)
    case (Cons b rest)
    show ?thesis
    proof (cases "rune_at bs")
      case None
      with rune_at_None Cons have "0x80 \<le> b" by simp
      moreover have "r \<in> set (range_runes (tl bs)) \<longleftrightarrow> r \<in> set (tl bs)"
        using "1.IH"(1) None Cons "1.prems" by simp
      ultimately show ?thesis using None Cons "1.prems" by (subst range_runes.simps) auto
    next
      case (Some p)
      obtain x w where p: "p = (x, w)" by fastforce
      have IH: "r \<in> set (range_runes (drop w bs)) \<longleftrightarrow> r \<in> set (drop w bs)"
        using "1.IH"(2) Some p Cons "1.prems" by simp
      have split: "set bs = set (take w bs) \<union> set (drop w bs)"
        by (metis append_take_drop_id set_append)
      have runes: "range_runes bs = x # range_runes (drop w bs)"
        using Some p Cons by (subst range_runes.simps) simp
      from Some p have "rune_at bs = Some (x, w)" by simp
      from rune_at_bytes[OF this] show ?thesis
      proof
        assume "x < 0x80 \<and> w = 1 \<and> hd bs = x"
        with runes IH Cons show ?thesis by auto
      next
        assume "0x80 \<le> x \<and> (\<forall>b \<in> set (take w bs). 0x80 \<le> b)"
        with runes IH split "1.prems" show ?thesis by fastforce
      qed
    qed
  qed simp
qed

definition plain_byte :: "char \<Rightarrow> bool" where
  "plain_byte c \<longleftrightarrow> 0x1F < code_of c \<and> code_of c \<noteq> 0x7F \<and> code_of c \<noteq> 0x5C"

lemma plainSegment_iff:
  "plainSegment s \<longleftrightarrow> s \<notin> {'''', ''.'', ''..''} \<and> list_all plain_byte s"
proof -
  have "list_ex (\<lambda>r. r \<le> 0x1F \<or> r = 0x7F \<or> r = 0x5C) (range_runes (map code_of s)) \<longleftrightarrow>
      (\<exists>r \<in> set (range_runes (map code_of s)). r < 0x80 \<and> (r \<le> 0x1F \<or> r = 0x7F \<or> r = 0x5C))"
    unfolding list_ex_iff by (rule bex_cong) auto
  also have "\<dots> \<longleftrightarrow> (\<exists>r \<in> set (map code_of s). r < 0x80 \<and> (r \<le> 0x1F \<or> r = 0x7F \<or> r = 0x5C))"
    using range_runes_ascii by blast
  also have "\<dots> \<longleftrightarrow> (\<exists>c \<in> set s. \<not> plain_byte c)"
    unfolding set_map bex_simps by (rule bex_cong) (auto simp: plain_byte_def)
  also have "\<dots> \<longleftrightarrow> \<not> list_all plain_byte s"
    by (simp add: list_all_iff)
  finally show ?thesis by (simp add: plainSegment_def)
qed

text \<open>What a segment must be to stay inside its directory, as it is and unescaped.\<close>

definition stays_inside :: "string \<Rightarrow> bool" where
  "stays_inside s \<longleftrightarrow>
     s \<noteq> '''' \<and> s \<noteq> ''.'' \<and> s \<noteq> ''..'' \<and> CHR 0x2F \<notin> set s \<and> list_all plain_byte s"

lemma validSegment_inside:
  assumes "validSegment s" "CHR 0x2F \<notin> set s"
  shows "stays_inside s \<and> (\<exists>d. path_unescape s = Some d \<and> stays_inside d)"
  using assms
  by (auto simp: validSegment_def stays_inside_def plainSegment_iff list_ex_iff split: option.splits)

lemma has_suffix_last: "has_suffix s [c] \<longleftrightarrow> s \<noteq> [] \<and> last s = c"
  by (cases s rule: rev_cases) (auto simp: has_suffix_def suffix_def)

lemma has_prefix_iff: "has_prefix s p \<longleftrightarrow> (\<exists>t. s = p @ t)"
  by (auto simp: has_prefix_def prefix_def)

lemma splitRoutePrefix_Some:
  "splitRoutePrefix raw = Some (r, rest) \<Longrightarrow> Route_Valid r \<and> raw = ''/'' @ r @ ''/'' @ rest"
  by (auto simp: splitRoutePrefix_def route_prefix_def Route_Valid_def has_prefix_iff trim_prefix_def
      split: if_splits)

lemma splitRoutePrefix_prefix:
  "Route_Valid r \<Longrightarrow> splitRoutePrefix (''/'' @ r @ ''/'' @ rest) = Some (r, rest)"
  by (auto simp: splitRoutePrefix_def route_prefix_def Route_Valid_def has_prefix_def trim_prefix_def)

lemma trim_suffix_slash: "trim_suffix s ''/'' = t \<Longrightarrow> s = t \<or> s = t @ ''/''"
  by (auto simp: trim_suffix_def has_suffix_def suffix_def)

definition segments :: "string \<Rightarrow> string list" where
  "segments path = split_on CHR 0x2F (trim_suffix path ''/'')"

lemma trim_suffix_append [simp]: "trim_suffix (s @ ''/'') ''/'' = s"
  by (simp add: trim_suffix_def has_suffix_def)

lemma trim_suffix_no [simp]: "\<not> has_suffix s p \<Longrightarrow> trim_suffix s p = s"
  by (simp add: trim_suffix_def)

lemma split_on_single: "d \<notin> set s \<Longrightarrow> split_on d s = [s]"
  by (induction s) auto

lemma contains_slash: "contains s ''/'' \<longleftrightarrow> CHR 0x2F \<in> set s"
proof
  assume "contains s ''/''"
  then show "CHR 0x2F \<in> set s" by (auto simp: contains_def sublist_def)
next
  assume "CHR 0x2F \<in> set s"
  then obtain a b where "s = a @ CHR 0x2F # b" by (meson split_list)
  then show "contains s ''/''" by (auto simp: contains_def sublist_def)
qed

lemma segments_inside_aux:
  assumes "rs_status (resolveRoute raw m) = 0"
  shows "Route_Valid (rs_route (resolveRoute raw m)) \<and>
    (m = ''GET'' \<or> m = ''HEAD'' \<and> rs_route (resolveRoute raw m) \<noteq> RouteSimple) \<and>
    (raw = ''/'' @ rs_route (resolveRoute raw m) @ ''/'' @ rs_path (resolveRoute raw m) \<or>
     raw @ ''/'' = ''/'' @ rs_route (resolveRoute raw m) @ ''/'' @ rs_path (resolveRoute raw m)) \<and>
    list_all (\<lambda>w. stays_inside w \<and> (\<exists>d. path_unescape w = Some d \<and> stays_inside d))
      (segments (rs_path (resolveRoute raw m)))"
proof -
  from assms obtain r rest where split: "splitRoutePrefix raw = Some (r, rest)"
    by (auto simp: resolveRoute_def split: option.splits)
  note parts = splitRoutePrefix_Some[OF split]
  from assms split have verb: "methodAllowed r m"
    by (auto simp: resolveRoute_def split: if_splits)
  then have m: "m = ''GET'' \<or> m = ''HEAD'' \<and> r \<noteq> RouteSimple"
    by (auto simp: methodAllowed_def split: if_splits)
  show ?thesis
  proof (cases "r = RouteSimple")
    case True
    define name where "name = trim_suffix rest ''/''"
    from assms split verb True have v: "validSegment name" "\<not> contains name ''/''"
      and res: "resolveRoute raw m = \<lparr>rs_route = r, rs_path = name @ ''/'', rs_status = 0\<rparr>"
      by (auto simp: resolveRoute_def Let_def name_def split: if_splits)
    from v have no: "CHR 0x2F \<notin> set name" by (simp add: contains_slash)
    have "segments (name @ ''/'') = [name]" using no by (simp add: segments_def split_on_single)
    moreover have "rest = name \<or> rest = name @ ''/''"
      using trim_suffix_slash name_def by blast
    ultimately show ?thesis
      using parts m res validSegment_inside[OF v(1) no] by auto
  next
    case False
    from assms split verb False have v: "list_all validSegment (split_on CHR 0x2F rest)"
      and no: "rest \<noteq> ''''" "\<not> has_suffix rest ''/''"
      and res: "resolveRoute raw m = \<lparr>rs_route = r, rs_path = rest, rs_status = 0\<rparr>"
      by (auto simp: resolveRoute_def split: if_splits)
    have "list_all (\<lambda>w. stays_inside w \<and> (\<exists>d. path_unescape w = Some d \<and> stays_inside d))
        (split_on CHR 0x2F rest)"
      using v validSegment_inside split_on_no_sep by (fastforce simp: list_all_iff)
    then show ?thesis using parts m res no by (simp add: segments_def)
  qed
qed

text \<open>C21: A request is resolved only for one of the three routes and an allowed verb, the upstream
  path is the text of the request behind the route, and no segment of it is empty, a dot, a double
  dot or holds a slash, a backslash or a control byte, before or after it is unescaped: a path that
  is forwarded cannot leave the prefix of its upstream.\<close>

theorem resolved_paths_stay_inside:
  "rs_status (resolveRoute raw m) = 0 \<Longrightarrow>
    Route_Valid (rs_route (resolveRoute raw m)) \<and>
    (m = ''GET'' \<or> m = ''HEAD'' \<and> rs_route (resolveRoute raw m) \<noteq> RouteSimple) \<and>
    (raw = ''/'' @ rs_route (resolveRoute raw m) @ ''/'' @ rs_path (resolveRoute raw m) \<or>
     raw @ ''/'' = ''/'' @ rs_route (resolveRoute raw m) @ ''/'' @ rs_path (resolveRoute raw m)) \<and>
    list_all (\<lambda>w. stays_inside w \<and> (\<exists>d. path_unescape w = Some d \<and> stays_inside d))
      (segments (rs_path (resolveRoute raw m)))"
  by (rule segments_inside_aux)

lemma rune_at_one: "b < 0x80 \<Longrightarrow> rune_at (b # bs) = Some (b, 1)"
  by (simp add: rune_at_def)

theorem resolved_paths_stay_inside_witness:
  "list_all (\<lambda>w. stays_inside w \<and> (\<exists>d. path_unescape w = Some d \<and> stays_inside d))
      (segments (rs_path (resolveRoute ''/packages/ab/x%2Dy.whl'' ''GET'')))"
proof -
  have seg: "validSegment ''ab''" "validSegment ''x%2Dy.whl''"
    by (simp_all add: validSegment_def plainSegment_iff plain_byte_def code_of_def hex_value_def
        is_digit_def less_eq_char_def char_of_def bit_iff_odd)
  have "splitRoutePrefix ''/packages/ab/x%2Dy.whl'' = Some (RoutePackages, ''ab/x%2Dy.whl'')"
    using splitRoutePrefix_prefix[of RoutePackages "''ab/x%2Dy.whl''"] by (simp add: Route_Valid_def)
  then have "rs_status (resolveRoute ''/packages/ab/x%2Dy.whl'' ''GET'') = 0"
    using seg by (simp add: resolveRoute_def methodAllowed_def has_suffix_last)
  from resolved_paths_stay_inside[OF this] show ?thesis by blast
qed

section \<open>Items and configurations\<close>

text \<open>An item that a relay accepts can be requested: its path resolves to itself.\<close>

lemma validateItem_resolves:
  assumes "validateItem item = None" "m = ''GET'' \<or> m = ''HEAD''"
  shows "resolveRoute (''/packages/'' @ iPath item) m =
    \<lparr>rs_route = RoutePackages, rs_path = iPath item, rs_status = 0\<rparr>"
proof -
  have "splitRoutePrefix (''/packages/'' @ iPath item) = Some (RoutePackages, iPath item)"
    using splitRoutePrefix_prefix[of RoutePackages "iPath item"] by (simp add: Route_Valid_def)
  with assms show ?thesis
    by (auto simp: resolveRoute_def validateItem_def methodAllowed_def split: if_splits option.splits)
qed

lemma map_all_Inr: "map_all f xs = Inr ys \<Longrightarrow> list_all2 (\<lambda>x y. f x = Inr y) xs ys"
  by (induction xs arbitrary: ys) (auto simp: bindE_Inr_iff)

lemma map_all_range: "map_all f xs = Inr ys \<Longrightarrow> y \<in> set ys \<Longrightarrow> \<exists>x \<in> set xs. f x = Inr y"
  by (induction xs arbitrary: ys) (auto simp: bindE_Inr_iff)

definition upstream_ok :: "url_api \<Rightarrow> Upstream \<Rightarrow> bool" where
  "upstream_ok api u \<longleftrightarrow>
     uKey u \<noteq> '''' \<and> has_suffix (uBase u) ''/'' \<and>
     (validateHTTPSURL api (uBase u) \<noteq> None \<or> validateHTTPSURL api (butlast (uBase u)) \<noteq> None) \<and>
     (uRewriteFrom u = '''' \<or> validateHTTPSURL api (uRewriteFrom u) \<noteq> None)"

lemma normalizeUpstream_ok: "normalizeUpstream api u = Inr v \<Longrightarrow> upstream_ok api v"
  by (auto simp: normalizeUpstream_def upstream_ok_def has_suffix_def split: if_splits)

definition config_ok :: "url_api \<Rightarrow> Config \<Rightarrow> bool" where
  "config_ok api c \<longleftrightarrow>
     Upstreams c \<noteq> [] \<and>
     (\<forall>(r, us) \<in> set (Upstreams c). Route_Valid r \<and> (\<forall>u \<in> set us. upstream_ok api u)) \<and>
     (\<forall>item \<in> set (Items c). validateItem item = None) \<and>
     0 < MaxUnregisteredBytes c \<and> 0 < MaxCachedBytes c \<and> 0 < MaxCachedFiles c \<and>
     0 < ChunkThreshold c \<and> 0 < ChunkSize c \<and> 0 < MaxFiles c \<and> 0 < MaxChunksPerFile c \<and>
     0 < StallTimeout c \<and> 0 < ConnectTimeout c"

lemma or_default_pos: "0 < d \<Longrightarrow> \<not> or_default d v < 0 \<Longrightarrow> 0 < or_default d v"
  by (simp add: or_default_def split: if_splits)

lemma normalizeConfig_upstreams:
  assumes "map_all (normalize_route api) rs = Inr rs'" "(r, us) \<in> set rs'"
  shows "Route_Valid r \<and> (\<forall>u \<in> set us. upstream_ok api u)"
proof -
  from map_all_range[OF assms] obtain us0 where "Route_Valid r" "map_all (normalizeUpstream api) us0 = Inr us"
    by (auto simp: normalize_route_def bindE_Inr_iff split: prod.splits if_splits)
  then show ?thesis using map_all_range normalizeUpstream_ok by metis
qed

lemmas config_defaults = DefaultChunkThreshold_def DefaultChunkSize_def DefaultMaxFiles_def
  DefaultMaxChunksPerFile_def DefaultStallTimeout_def DefaultConnectTimeout_def second_def

lemma normalizeConfig_ok_aux:
  assumes "normalizeConfig api isAbs clean cfg = Inr c"
  shows "config_ok api c \<and> StagingDir c = clean (StagingDir cfg) \<and> isAbs (StagingDir cfg)"
proof -
  from assms obtain us items where
      abs: "isAbs (StagingDir cfg)" "Upstreams cfg \<noteq> []"
    and us: "map_all (normalize_route api) (Upstreams cfg) = Inr us"
    and items: "map_all (\<lambda>item. bindE (checkE (validateItem item)) (\<lambda>_. Inr item)) (Items cfg) = Inr items"
    by (auto simp: normalizeConfig_def bindE_Inr_iff split: if_splits)
  from us abs(2) have ne: "us \<noteq> []" by (auto dest!: map_all_Inr)
  have it: "validateItem item = None" if "item \<in> set items" for item
    using map_all_range[OF items that] by (auto simp: bindE_Inr_iff checkE_Inr_iff)
  from assms abs us items have
    "Upstreams c = us" "Items c = items" "StagingDir c = clean (StagingDir cfg)"
    "0 < MaxUnregisteredBytes c" "0 < MaxCachedBytes c" "0 < MaxCachedFiles c"
    "0 < ChunkThreshold c" "0 < ChunkSize c" "0 < MaxFiles c" "0 < MaxChunksPerFile c"
    "0 < StallTimeout c" "0 < ConnectTimeout c"
    by (auto simp: normalizeConfig_def Let_def config_defaults intro!: or_default_pos split: if_splits)
  with abs ne it normalizeConfig_upstreams[OF us] show ?thesis
    by (fastforce simp: config_ok_def)
qed

end
