(* ===== verification/Go_Map.thy ===== *)
theory Go_Map
  imports Go_Prelude "HOL-Library.AList"
begin

text \<open>
  Go maps with integer counters as association lists without repeated keys: reading a key that is
  absent gives zero, \<open>m[k] += n\<close> creates it. The order of the list is the order in which a \<open>range\<close>
  loop visits the map, which Go leaves open; what is stated of a loop holds for every order.
\<close>

type_synonym ('k, 'v) go_map = "('k \<times> 'v) list"

definition map_ok :: "('k, 'v) go_map \<Rightarrow> bool" where
  "map_ok m \<longleftrightarrow> distinct (map fst m)"

definition map_get :: "'v \<Rightarrow> ('k, 'v) go_map \<Rightarrow> 'k \<Rightarrow> 'v" where
  "map_get d m k = (case map_of m k of None \<Rightarrow> d | Some v \<Rightarrow> v)"

abbreviation counter :: "('k, int) go_map \<Rightarrow> 'k \<Rightarrow> int" where
  "counter \<equiv> map_get 0"

definition bump :: "'k \<Rightarrow> int \<Rightarrow> ('k, int) go_map \<Rightarrow> ('k, int) go_map" where
  "bump k n m = AList.update k (counter m k + n) m"

definition counters :: "('k, int) go_map \<Rightarrow> int" where
  "counters m = sum_list (map snd m)"

named_theorems go_map \<open>reading and updating Go maps\<close>

lemma map_ok_Nil [simp]: "map_ok []"
  by (simp add: map_ok_def)

lemma map_ok_Cons [simp]: "map_ok ((k, v) # m) \<longleftrightarrow> k \<notin> fst ` set m \<and> map_ok m"
  by (auto simp: map_ok_def)

lemma map_ok_update [simp]: "map_ok m \<Longrightarrow> map_ok (AList.update k v m)"
  by (simp add: map_ok_def distinct_update)

lemma map_ok_delete [simp]: "map_ok m \<Longrightarrow> map_ok (AList.delete k m)"
  by (simp add: map_ok_def distinct_delete)

lemma map_ok_bump [simp]: "map_ok m \<Longrightarrow> map_ok (bump k n m)"
  by (simp add: bump_def)

lemma map_get_Nil [simp]: "map_get d [] k = d"
  by (simp add: map_get_def)

lemma map_get_update [go_map]: "map_get d (AList.update k v m) k' = (if k' = k then v else map_get d m k')"
  by (simp add: map_get_def update_conv')

lemma map_get_delete [go_map]: "map_get d (AList.delete k m) k' = (if k' = k then d else map_get d m k')"
  by (simp add: map_get_def delete_conv')

lemma counter_bump [go_map]: "counter (bump k n m) k' = counter m k' + (if k' = k then n else 0)"
  by (simp add: bump_def go_map)

lemma counter_absent: "k \<notin> fst ` set m \<Longrightarrow> counter m k = 0"
  by (auto simp: map_get_def map_of_eq_None_iff[symmetric] split: option.split)

lemma counters_Nil [simp]: "counters [] = 0"
  by (simp add: counters_def)

lemma counters_Cons: "counters ((k, v) # m) = v + counters m"
  by (simp add: counters_def)

lemma counters_update: "map_ok m \<Longrightarrow> counters (AList.update k v m) = counters m - counter m k + v"
proof (induction m)
  case (Cons p m)
  obtain k' v' where p: "p = (k', v')" by fastforce
  show ?case
  proof (cases "k' = k")
    case True
    with Cons.prems p show ?thesis
      by (simp add: counters_def map_get_def)
  next
    case False
    with Cons p show ?thesis by (simp add: counters_def map_get_def)
  qed
qed (simp add: counters_def)

lemma counters_bump [go_map]: "map_ok m \<Longrightarrow> counters (bump k n m) = counters m + n"
  by (simp add: bump_def counters_update)

lemma counters_delete [go_map]: "map_ok m \<Longrightarrow> counters (AList.delete k m) = counters m - counter m k"
proof (induction m)
  case (Cons p m)
  obtain k' v' where p: "p = (k', v')" by fastforce
  show ?case
  proof (cases "k' = k")
    case True
    with Cons.prems p show ?thesis
      by (simp add: counters_def map_get_def delete_id)
  next
    case False
    with Cons p show ?thesis by (simp add: counters_def map_get_def)
  qed
qed simp

lemma map_get_in: "map_ok m \<Longrightarrow> (k, v) \<in> set m \<Longrightarrow> map_get d m k = v"
  by (simp add: map_get_def map_ok_def)

lemma fold_bump_counters:
  "map_ok m \<Longrightarrow> counters (fold (\<lambda>(k, n). bump k n) xs m) = counters m + counters xs \<and>
     map_ok (fold (\<lambda>(k, n). bump k n) xs m)"
  by (induction xs arbitrary: m) (auto simp: go_map counters_Cons)

end
