(* ===== verification/Relay_Progress.thy ===== *)
theory Relay_Progress
  imports Relay_Route Go_Map
begin

text \<open>
  \<open>internal/relay/progress.go\<close>, \<open>summary.go\<close> and \<open>diagnostics.go\<close>: the tracker that adds up the bytes of
  all fetches and reports them to a synchronous callback, the ledger of delivered and failed files,
  and the diagnosis of one attempt. Every method runs under the mutex of its object, so a run is a
  list of calls; the answers of the clock and of the callback are arguments. The lemmas show that
  the bytes of the sources of a file add up to the bytes of the file, that the reports are throttled
  and end with the first error of the callback, and that the ledger is bounded without losing the
  failure of an artefact to that of an index page.
\<close>

section \<open>Attempts\<close>

type_synonym Outcome = string

abbreviation (input) "OutcomeNone \<equiv> '''' :: Outcome"
abbreviation "OutcomeConnectTimeout \<equiv> ''connect_timeout''"
abbreviation "OutcomeReadTimeout \<equiv> ''read_timeout''"
abbreviation "OutcomeHTTPStatus \<equiv> ''http_status''"
abbreviation "OutcomeChecksumMismatch \<equiv> ''checksum_mismatch''"
abbreviation "OutcomeNetwork \<equiv> ''network''"
abbreviation "OutcomeCancelled \<equiv> ''cancelled''"

record AttemptOutcome =
  aSource :: string
  aOutcome :: Outcome
  aFailureKind :: string
  aHTTPStatus :: int
  aDuration :: int
  aOperation :: string
  aWindowsError :: nat

definition new_attempt :: "string \<Rightarrow> AttemptOutcome" where
  "new_attempt source = \<lparr>aSource = source, aOutcome = '''', aFailureKind = '''', aHTTPStatus = 0,
     aDuration = 0, aOperation = '''', aWindowsError = 0\<rparr>"

text \<open>\<open>errno\<close> is what \<open>errors.As\<close> finds in the cause.\<close>

definition diagnoseAttempt :: "string \<Rightarrow> string \<Rightarrow> int \<Rightarrow> nat option \<Rightarrow> AttemptOutcome \<Rightarrow> AttemptOutcome" where
  "diagnoseAttempt k operation status errno d =
     (let d1 = d\<lparr>aFailureKind := k, aOperation := operation\<rparr>;
          d2 = (if 100 \<le> status \<and> status \<le> 599 then d1\<lparr>aHTTPStatus := status\<rparr> else d1)
      in case errno of None \<Rightarrow> d2 | Some e \<Rightarrow> d2\<lparr>aWindowsError := e\<rparr>)"

definition finishAttempt :: "Outcome \<Rightarrow> int \<Rightarrow> int \<Rightarrow> AttemptOutcome \<Rightarrow> AttemptOutcome" where
  "finishAttempt outcome startedAt now d =
     (let d1 = d\<lparr>aOutcome := outcome, aDuration := max 0 (now - startedAt)\<rparr>
      in if aFailureKind d1 = '''' then d1\<lparr>aFailureKind := outcome\<rparr> else d1)"

text \<open>The fields of a log entry for a failed attempt: text and numbers.\<close>

definition attemptLogFields :: "AttemptOutcome \<Rightarrow> Route \<Rightarrow> string \<Rightarrow> (string \<times> (string + int)) list" where
  "attemptLogFields a route item =
     [(''route'', Inl route), (''item'', Inl item), (''source'', Inl (aSource a)),
      (''outcome'', Inl (aOutcome a)), (''failureKind'', Inl (aFailureKind a)),
      (''durationMs'', Inr (max 0 (aDuration a div 1000000)))] @
     (if aOperation a \<noteq> '''' then [(''operation'', Inl (aOperation a))] else []) @
     (if aHTTPStatus a \<noteq> 0 then [(''httpStatus'', Inr (aHTTPStatus a))] else []) @
     (if aWindowsError a \<noteq> 0 then [(''windowsError'', Inr (int (aWindowsError a)))] else [])"

section \<open>The source that contributed most\<close>

fun top_loop :: "string \<Rightarrow> int \<Rightarrow> (string, int) go_map \<Rightarrow> string" where
  "top_loop best n [] = best"
| "top_loop best n ((k, c) # m) =
     (if n < c \<or> (c = n \<and> ord_class.lexordp k best) then top_loop k c m else top_loop best n m)"

definition topSource :: "(string, int) go_map \<Rightarrow> string" where
  "topSource m = top_loop '''' (- 1) m"

section \<open>The tracker\<close>

record Progress =
  pRoute :: Route
  pItem :: string
  pSource :: string
  pReceived :: int
  pTotal :: int
  pBytesPerSecond :: int

type_synonym fileKey = "Route \<times> string"

text \<open>\<open>tk_calls\<close> and \<open>tk_stops\<close> record the calls of the callback, with the time and whether the report was
  forced, and the calls of \<open>onStop\<close>. Times are nanoseconds.\<close>

record tracker =
  tk_callback :: bool
  tk_stopped :: bool
  tk_total :: int
  tk_delivered :: int
  tk_inflight :: "(fileKey, int) go_map"
  tk_perSource :: "(fileKey, (string, int) go_map) go_map"
  tk_current :: Progress
  tk_samples :: "(int \<times> int) list"
  tk_reported :: bool
  tk_lastAt :: int
  tk_last :: Progress
  tk_calls :: "(int \<times> bool \<times> Progress) list"
  tk_stops :: nat

definition progressInterval :: int where "progressInterval = 200000000"
definition throughputWindow :: int where "throughputWindow = second"

definition no_progress :: Progress where
  "no_progress = \<lparr>pRoute = '''', pItem = '''', pSource = '''', pReceived = 0, pTotal = 0, pBytesPerSecond = 0\<rparr>"

definition newTracker :: "bool \<Rightarrow> tracker" where
  "newTracker callback = \<lparr>tk_callback = callback, tk_stopped = False, tk_total = 0, tk_delivered = 0,
     tk_inflight = [], tk_perSource = [], tk_current = no_progress, tk_samples = [],
     tk_reported = False, tk_lastAt = 0, tk_last = no_progress, tk_calls = [], tk_stops = 0\<rparr>"

definition progress_of :: "Route \<Rightarrow> string \<Rightarrow> string \<Rightarrow> Progress" where
  "progress_of route item source = no_progress\<lparr>pRoute := route, pItem := item, pSource := source\<rparr>"

text \<open>\<open>throughputLocked\<close>: the samples that stay and their sum.\<close>

definition throughputLocked :: "int \<Rightarrow> tracker \<Rightarrow> int \<times> tracker" where
  "throughputLocked now t =
     (let kept = dropWhile (\<lambda>(at, n). \<not> now - throughputWindow < at) (tk_samples t)
      in (sum_list (map snd kept), t\<lparr>tk_samples := kept\<rparr>))"

definition snapshotLocked :: "int \<Rightarrow> tracker \<Rightarrow> Progress \<times> tracker" where
  "snapshotLocked now t =
     (let (rate, t') = throughputLocked now t in
      (\<lparr>pRoute = pRoute (tk_current t), pItem = pItem (tk_current t), pSource = pSource (tk_current t),
        pReceived = tk_delivered t + counters (tk_inflight t), pTotal = tk_total t,
        pBytesPerSecond = rate\<rparr>, t'))"

definition sameProgress :: "Progress \<Rightarrow> Progress \<Rightarrow> bool" where
  "sameProgress l r \<longleftrightarrow>
     pRoute l = pRoute r \<and> pItem l = pItem r \<and> pSource l = pSource r \<and>
     pReceived l = pReceived r \<and> pTotal l = pTotal r"

text \<open>\<open>fails\<close> is the answer of the callback to the snapshot.\<close>

definition report :: "bool \<Rightarrow> int \<Rightarrow> bool \<Rightarrow> tracker \<Rightarrow> tracker" where
  "report force now fails t =
     (if \<not> tk_callback t \<or> tk_stopped t then t
      else
        let (snap, t1) = snapshotLocked now t in
        if \<not> force \<and> tk_reported t1 \<and>
           (now - tk_lastAt t1 < progressInterval \<or> sameProgress snap (tk_last t1))
        then t1
        else
          let t2 = t1\<lparr>tk_calls := tk_calls t1 @ [(now, force, snap)]\<rparr> in
          if fails then t2\<lparr>tk_stopped := True, tk_stops := tk_stops t2 + 1\<rparr>
          else t2\<lparr>tk_reported := True, tk_lastAt := now, tk_last := snap\<rparr>)"

definition addTotal :: "int \<Rightarrow> tracker \<Rightarrow> tracker" where
  "addTotal n t = (if n \<le> 0 then t else t\<lparr>tk_total := tk_total t + n\<rparr>)"

definition tracker_add ::
  "fileKey \<Rightarrow> string \<Rightarrow> string \<Rightarrow> int \<Rightarrow> int \<Rightarrow> int \<Rightarrow> bool \<Rightarrow> tracker \<Rightarrow> tracker" where
  "tracker_add k item source n at now fails t =
     (if n \<le> 0 then t
      else
        let sources = bump source n (map_get [] (tk_perSource t) k) in
        report False now fails
          (t\<lparr>tk_inflight := bump k n (tk_inflight t),
             tk_perSource := AList.update k sources (tk_perSource t),
             tk_current := progress_of (fst k) item (topSource sources),
             tk_samples := tk_samples t @ [(at, n)]\<rparr>))"

definition tracker_discard :: "fileKey \<Rightarrow> string \<Rightarrow> int \<Rightarrow> tracker \<Rightarrow> tracker" where
  "tracker_discard k source n t =
     (if n \<le> 0 then t
      else t\<lparr>tk_inflight := bump k (- n) (tk_inflight t),
             tk_perSource := (case map_of (tk_perSource t) k of
                None \<Rightarrow> tk_perSource t
              | Some sources \<Rightarrow> AList.update k (bump source (- n) sources) (tk_perSource t))\<rparr>)"

definition tracker_reset :: "fileKey \<Rightarrow> tracker \<Rightarrow> tracker" where
  "tracker_reset k t =
     t\<lparr>tk_inflight := AList.update k 0 (tk_inflight t), tk_perSource := AList.delete k (tk_perSource t)\<rparr>"

definition tracker_complete :: "fileKey \<Rightarrow> string \<Rightarrow> string \<Rightarrow> int \<Rightarrow> int \<Rightarrow> bool \<Rightarrow> tracker \<Rightarrow> tracker" where
  "tracker_complete k item source n now fails t =
     report True now fails
       (t\<lparr>tk_inflight := AList.delete k (tk_inflight t), tk_perSource := AList.delete k (tk_perSource t),
          tk_delivered := tk_delivered t + n, tk_current := progress_of (fst k) item source\<rparr>)"

definition tracker_fail :: "fileKey \<Rightarrow> string \<Rightarrow> int \<Rightarrow> bool \<Rightarrow> tracker \<Rightarrow> tracker" where
  "tracker_fail k item now fails t =
     report True now fails
       (t\<lparr>tk_inflight := AList.delete k (tk_inflight t), tk_perSource := AList.delete k (tk_perSource t),
          tk_current := progress_of (fst k) item (pSource (tk_current t))\<rparr>)"

section \<open>The ledger\<close>

record FileFailure =
  ffItem :: string
  ffAttempts :: "AttemptOutcome list"
  ffDiagnosticOnly :: bool

record Summary =
  smFiles :: nat
  smBytes :: int
  smBySource :: "(string, int) go_map"
  smFailures :: "FileFailure list"

record ledger =
  lg_files :: nat
  lg_bytes :: int
  lg_bySource :: "(string, int) go_map"
  lg_failures :: "FileFailure list"
  lg_indexFailures :: "FileFailure list"

definition maxFailures :: nat where "maxFailures = 32"

definition newLedger :: ledger where
  "newLedger = \<lparr>lg_files = 0, lg_bytes = 0, lg_bySource = [], lg_failures = [], lg_indexFailures = []\<rparr>"

definition ledger_delivered :: "int \<Rightarrow> (string, int) go_map \<Rightarrow> ledger \<Rightarrow> ledger" where
  "ledger_delivered n contributions l =
     l\<lparr>lg_files := lg_files l + 1, lg_bytes := lg_bytes l + n,
       lg_bySource := fold (\<lambda>(s, c). bump s c) contributions (lg_bySource l)\<rparr>"

definition ledger_failed :: "string \<Rightarrow> AttemptOutcome list \<Rightarrow> bool \<Rightarrow> ledger \<Rightarrow> ledger" where
  "ledger_failed item attempts diagnosticOnly l =
     (let failures = (if diagnosticOnly then lg_indexFailures l else lg_failures l);
          entry = \<lparr>ffItem = item, ffAttempts = attempts, ffDiagnosticOnly = diagnosticOnly\<rparr> in
      if maxFailures \<le> length failures then l
      else if diagnosticOnly then l\<lparr>lg_indexFailures := failures @ [entry]\<rparr>
      else l\<lparr>lg_failures := failures @ [entry]\<rparr>)"

definition ledger_summary :: "ledger \<Rightarrow> Summary" where
  "ledger_summary l =
     \<lparr>smFiles = lg_files l, smBytes = lg_bytes l, smBySource = lg_bySource l,
      smFailures = take maxFailures (lg_failures l @ lg_indexFailures l)\<rparr>"

section \<open>Runs of the tracker\<close>

datatype tracker_call =
    AddTotal int
  | AddBytes fileKey string string int int int bool
  | Discard fileKey string int
  | Reset fileKey
  | Complete fileKey string string int int bool
  | Fail fileKey string int bool

fun tracker_step :: "tracker_call \<Rightarrow> tracker \<Rightarrow> tracker" where
  "tracker_step (AddTotal n) t = addTotal n t"
| "tracker_step (AddBytes k item source n at now fails) t = tracker_add k item source n at now fails t"
| "tracker_step (Discard k source n) t = tracker_discard k source n t"
| "tracker_step (Reset k) t = tracker_reset k t"
| "tracker_step (Complete k item source n now fails) t = tracker_complete k item source n now fails t"
| "tracker_step (Fail k item now fails) t = tracker_fail k item now fails t"

text \<open>The bytes that are counted for a file are those of its sources.\<close>

definition bytes_add_up :: "tracker \<Rightarrow> bool" where
  "bytes_add_up t \<longleftrightarrow>
     map_ok (tk_inflight t) \<and> map_ok (tk_perSource t) \<and>
     (\<forall>k sources. map_of (tk_perSource t) k = Some sources \<longrightarrow>
        map_ok sources \<and> counters sources = counter (tk_inflight t) k)"

definition report_follows :: "int \<times> bool \<times> Progress \<Rightarrow> int \<times> bool \<times> Progress \<Rightarrow> bool" where
  "report_follows a b \<longleftrightarrow>
     fst (snd b) \<or> (progressInterval \<le> fst b - fst a \<and> \<not> sameProgress (snd (snd b)) (snd (snd a)))"

definition reports_ok :: "tracker \<Rightarrow> bool" where
  "reports_ok t \<longleftrightarrow>
     successively report_follows (tk_calls t) \<and>
     tk_stops t = (if tk_stopped t then 1 else 0) \<and>
     (\<not> tk_stopped t \<longrightarrow>
        (tk_reported t \<longleftrightarrow> tk_calls t \<noteq> []) \<and>
        (tk_reported t \<longrightarrow> fst (last (tk_calls t)) = tk_lastAt t \<and> snd (snd (last (tk_calls t))) = tk_last t))"

text \<open>Every report shows the bytes of the tracker at that moment.\<close>

lemma report_same [simp]:
  "tk_inflight (report force now fails t) = tk_inflight t"
  "tk_perSource (report force now fails t) = tk_perSource t"
  "tk_delivered (report force now fails t) = tk_delivered t"
  "tk_total (report force now fails t) = tk_total t"
  by (auto simp: report_def snapshotLocked_def throughputLocked_def Let_def)

lemma successively_snoc:
  "successively P (xs @ [x]) \<longleftrightarrow> successively P xs \<and> (xs \<noteq> [] \<longrightarrow> P (last xs) x)"
  by (auto simp: successively_append_iff)

lemma report_reports_ok:
  assumes "reports_ok t"
  shows "reports_ok (report force now fails t)"
proof -
  obtain snap t1 where snap: "snapshotLocked now t = (snap, t1)" by fastforce
  have t1: "tk_calls t1 = tk_calls t" "tk_stops t1 = tk_stops t" "tk_stopped t1 = tk_stopped t"
    "tk_reported t1 = tk_reported t" "tk_lastAt t1 = tk_lastAt t" "tk_last t1 = tk_last t"
    using snap by (auto simp: snapshotLocked_def throughputLocked_def Let_def)
  show ?thesis
    using assms t1
    by (cases "tk_calls t = []")
      (auto simp: report_def snap Let_def reports_ok_def successively_snoc report_follows_def)
qed

lemma reports_ok_cong:
  "tk_calls t' = tk_calls t \<Longrightarrow> tk_stops t' = tk_stops t \<Longrightarrow> tk_stopped t' = tk_stopped t \<Longrightarrow>
   tk_reported t' = tk_reported t \<Longrightarrow> tk_lastAt t' = tk_lastAt t \<Longrightarrow> tk_last t' = tk_last t \<Longrightarrow>
   reports_ok t \<Longrightarrow> reports_ok t'"
  by (simp add: reports_ok_def)

lemma step_reports_ok: "reports_ok t \<Longrightarrow> reports_ok (tracker_step c t)"
  by (cases c)
    (auto simp: addTotal_def tracker_add_def tracker_discard_def tracker_reset_def tracker_complete_def
      tracker_fail_def Let_def intro!: report_reports_ok elim!: reports_ok_cong[rotated 6] split: option.split)

lemma counters_of_add:
  assumes "bytes_add_up t" "k \<notin> dom (map_of (tk_perSource t)) \<Longrightarrow> counter (tk_inflight t) k = 0"
  shows "map_ok (map_get [] (tk_perSource t) k) \<and>
    counters (map_get [] (tk_perSource t) k) = counter (tk_inflight t) k"
  using assms
  by (cases "map_of (tk_perSource t) k")
    (auto simp: bytes_add_up_def map_get_def[of "[]"] simp del: split_paired_All)

text \<open>The bytes of a file without known sources are zero: the other half of the invariant, which a
  \<open>discard\<close> keeps because it follows the bytes it takes back.\<close>

definition sources_known :: "tracker \<Rightarrow> bool" where
  "sources_known t \<longleftrightarrow> (\<forall>k. map_of (tk_perSource t) k = None \<longrightarrow> counter (tk_inflight t) k = 0)"

definition discard_known :: "tracker_call \<Rightarrow> tracker \<Rightarrow> bool" where
  "discard_known c t \<longleftrightarrow>
     (case c of Discard k source n \<Rightarrow> n \<le> 0 \<or> map_of (tk_perSource t) k \<noteq> None | _ \<Rightarrow> True)"

lemma bytes_add_up_report [simp]: "bytes_add_up (report force now fails t) = bytes_add_up t"
  by (simp add: bytes_add_up_def)

lemma sources_known_report [simp]: "sources_known (report force now fails t) = sources_known t"
  by (simp add: sources_known_def)

lemmas tracker_defs = addTotal_def tracker_add_def tracker_discard_def tracker_reset_def
  tracker_complete_def tracker_fail_def Let_def

lemma map_of_update_iff: "map_of (AList.update k v m) k' = (if k' = k then Some v else map_of m k')"
  by (simp add: update_conv')

lemma map_of_delete_iff: "map_of (AList.delete k m) k' = (if k' = k then None else map_of m k')"
  by (simp add: delete_conv')

lemma step_bytes_add_up:
  assumes "bytes_add_up t" "sources_known t" "discard_known c t"
  shows "bytes_add_up (tracker_step c t) \<and> sources_known (tracker_step c t)"
proof (cases c)
  case (AddBytes k item source n at now fails)
  have "map_ok (map_get [] (tk_perSource t) k) \<and>
      counters (map_get [] (tk_perSource t) k) = counter (tk_inflight t) k"
    using assms(2) by (intro counters_of_add[OF assms(1)]) (auto simp: sources_known_def simp del: split_paired_All)
  with AddBytes assms show ?thesis
    by (auto simp: tracker_defs bytes_add_up_def sources_known_def map_of_update_iff go_map)
qed (use assms in \<open>auto simp: tracker_defs bytes_add_up_def sources_known_def discard_known_def
      map_of_update_iff map_of_delete_iff go_map split: option.splits if_splits\<close>)

fun tracker_run :: "tracker_call list \<Rightarrow> tracker \<Rightarrow> tracker" where
  "tracker_run [] t = t"
| "tracker_run (c # cs) t = tracker_run cs (tracker_step c t)"

fun discards_known :: "tracker_call list \<Rightarrow> tracker \<Rightarrow> bool" where
  "discards_known [] t = True"
| "discards_known (c # cs) t = (discard_known c t \<and> discards_known cs (tracker_step c t))"

lemma run_reports_ok: "reports_ok t \<Longrightarrow> reports_ok (tracker_run cs t)"
  by (induction cs arbitrary: t) (auto intro: step_reports_ok)

lemma run_bytes_add_up:
  "bytes_add_up t \<Longrightarrow> sources_known t \<Longrightarrow> discards_known cs t \<Longrightarrow> bytes_add_up (tracker_run cs t)"
  by (induction cs arbitrary: t) (auto dest: step_bytes_add_up)

lemma newTracker_ok [simp]:
  "reports_ok (newTracker cb)" "bytes_add_up (newTracker cb)" "sources_known (newTracker cb)"
  by (simp_all add: newTracker_def reports_ok_def bytes_add_up_def sources_known_def)

text \<open>After the first error of the callback there is no further report.\<close>

lemma step_stopped:
  "tk_stopped t \<Longrightarrow> tk_stopped (tracker_step c t) \<and> tk_calls (tracker_step c t) = tk_calls t"
  by (cases c) (auto simp: tracker_defs report_def)

lemma run_stopped: "tk_stopped t \<Longrightarrow> tk_calls (tracker_run cs t) = tk_calls t"
  by (induction cs arbitrary: t) (auto simp: step_stopped)


definition example_key :: fileKey where "example_key = (RoutePackages, ''x.whl'')"

definition example_tracker_calls :: "tracker_call list" where
  "example_tracker_calls = [AddTotal 10, AddBytes example_key ''x.whl'' ''pypi'' 4 0 0 False,
     AddBytes example_key ''x.whl'' ''tuna'' 3 1 1 False, Complete example_key ''x.whl'' ''pypi'' 7 2 True]"


text \<open>The rate of a report is the number of bytes of the last second, when the clock does not go back.\<close>

lemma throughput_window:
  assumes "sorted (map fst (tk_samples t))"
  shows "fst (throughputLocked now t) =
    sum_list (map snd (filter (\<lambda>(at, n). now - throughputWindow < at) (tk_samples t)))"
proof -
  have "dropWhile (\<lambda>(at, n). \<not> now - throughputWindow < at) xs = filter (\<lambda>(at, n). now - throughputWindow < at) xs"
    if "sorted (map fst xs)" for xs :: "(int \<times> int) list"
    using that
  proof (induction xs)
    case (Cons p xs)
    obtain at n where p: "p = (at, n)" by fastforce
    show ?case
    proof (cases "now - throughputWindow < at")
      case True
      with Cons.prems p have "\<forall>(a, b) \<in> set xs. now - throughputWindow < a" by auto
      then have "filter (\<lambda>(at, n). now - throughputWindow < at) xs = xs" by (auto simp: filter_id_conv)
      with True p show ?thesis by simp
    qed (use Cons p in simp)
  qed simp
  with assms show ?thesis by (simp add: throughputLocked_def Let_def)
qed

section \<open>The source that contributed most\<close>

lemma str_linear: "ord_class.lexordp (s :: string) t \<or> s = t \<or> ord_class.lexordp t s"
  by (rule lexordp_linear)

lemma str_trans: "ord_class.lexordp (s :: string) t \<Longrightarrow> ord_class.lexordp t u \<Longrightarrow> ord_class.lexordp s u"
  by (rule lexordp_trans)

lemma str_irrefl: "\<not> ord_class.lexordp (s :: string) s"
  by (rule lexordp_irreflexive')

text \<open>\<open>beats\<close> orders the entries: more bytes first, then the smaller key.\<close>

definition beats :: "string \<times> int \<Rightarrow> string \<times> int \<Rightarrow> bool" where
  "beats a b \<longleftrightarrow> snd b < snd a \<or> (snd a = snd b \<and> ord_class.lexordp (fst a) (fst b))"

lemma beats_trans: "beats a b \<Longrightarrow> beats b c \<Longrightarrow> beats a c"
  by (auto simp: beats_def intro: str_trans)

lemma beats_split: "beats a c \<Longrightarrow> beats a b \<or> beats b c"
  using str_linear[of "fst a" "fst b"] str_trans[of "fst b" "fst a" "fst c"] by (auto simp: beats_def)

lemma top_loop_Cons:
  "top_loop best n ((k, c) # m) = (if beats (k, c) (best, n) then top_loop k c m else top_loop best n m)"
  by (auto simp: beats_def)

lemma top_loop_best:
  "\<exists>n'. (top_loop best n m, n') \<in> insert (best, n) (set m) \<and>
     (\<forall>p \<in> insert (best, n) (set m). \<not> beats p (top_loop best n m, n'))"
proof (induction m arbitrary: best n)
  case Nil
  show ?case by (simp add: beats_def str_irrefl)
next
  case (Cons p m)
  obtain k c where p: "p = (k, c)" by fastforce
  show ?case
  proof (cases "beats (k, c) (best, n)")
    case True
    then have top: "top_loop best n (p # m) = top_loop k c m" using p by (simp only: top_loop_Cons if_True)
    from Cons.IH obtain n' where n': "(top_loop k c m, n') \<in> insert (k, c) (set m)"
      "\<forall>q \<in> insert (k, c) (set m). \<not> beats q (top_loop k c m, n')" by blast
    have "\<not> beats (best, n) (top_loop k c m, n')"
      using n'(2) True beats_trans by blast
    with n' top p show ?thesis by auto
  next
    case False
    then have top: "top_loop best n (p # m) = top_loop best n m" using p by (simp only: top_loop_Cons if_False)
    from Cons.IH obtain n' where n': "(top_loop best n m, n') \<in> insert (best, n) (set m)"
      "\<forall>q \<in> insert (best, n) (set m). \<not> beats q (top_loop best n m, n')" by blast
    have "\<not> beats (k, c) (top_loop best n m, n')"
      using n'(2) False beats_split by blast
    with n' top p show ?thesis by auto
  qed
qed

lemma topSource_best:
  assumes "m \<noteq> []" "\<forall>(k, c) \<in> set m. 0 \<le> c"
  shows "\<exists>c. (topSource m, c) \<in> set m \<and> (\<forall>p \<in> set m. \<not> beats p (topSource m, c))"
proof -
  obtain n' where n': "(topSource m, n') \<in> insert ('''', - 1) (set m)"
    "\<forall>p \<in> insert ('''', - 1) (set m). \<not> beats p (topSource m, n')"
    using top_loop_best[of "''''" "- 1" m] unfolding topSource_def by blast
  obtain k c where kc: "(k, c) \<in> set m" using assms(1) by (metis list.set_intros(1) neq_Nil_conv surj_pair)
  have "n' \<noteq> - 1" using n'(2) kc assms(2) by (fastforce simp: beats_def)
  with n' show ?thesis by auto
qed

text \<open>The choice does not depend on the order in which the map is visited.\<close>

lemma topSource_order:
  assumes "m \<noteq> []" "map_ok m" "\<forall>(k, c) \<in> set m. 0 \<le> c" "set m' = set m"
  shows "topSource m' = topSource m"
proof -
  from assms have "m' \<noteq> []" "\<forall>(k, c) \<in> set m'. 0 \<le> c" by auto
  from topSource_best[OF this] assms(4) obtain c' where
    c': "(topSource m', c') \<in> set m" "\<forall>p \<in> set m. \<not> beats p (topSource m', c')" by auto
  from topSource_best[OF assms(1,3)] obtain c where
    c: "(topSource m, c) \<in> set m" "\<forall>p \<in> set m. \<not> beats p (topSource m, c)" by blast
  from c c' have "\<not> beats (topSource m', c') (topSource m, c)" "\<not> beats (topSource m, c) (topSource m', c')"
    by blast+
  then show ?thesis using str_linear by (fastforce simp: beats_def)
qed

section \<open>The ledger\<close>

definition ledger_ok :: "ledger \<Rightarrow> bool" where
  "ledger_ok l \<longleftrightarrow>
     map_ok (lg_bySource l) \<and> counters (lg_bySource l) = lg_bytes l \<and>
     length (lg_failures l) \<le> maxFailures \<and> length (lg_indexFailures l) \<le> maxFailures \<and>
     (\<forall>f \<in> set (lg_failures l). \<not> ffDiagnosticOnly f) \<and> (\<forall>f \<in> set (lg_indexFailures l). ffDiagnosticOnly f)"

lemma newLedger_ok [simp]: "ledger_ok newLedger"
  by (simp add: newLedger_def ledger_ok_def)

lemma ledger_delivered_ok:
  "ledger_ok l \<Longrightarrow> counters contributions = n \<Longrightarrow> ledger_ok (ledger_delivered n contributions l)"
  by (simp add: ledger_ok_def ledger_delivered_def fold_bump_counters)

lemma ledger_failed_ok: "ledger_ok l \<Longrightarrow> ledger_ok (ledger_failed item attempts only l)"
  by (auto simp: ledger_ok_def ledger_failed_def Let_def)

text \<open>A summary is bounded, keeps every recorded failure of an artefact in front, and its bytes are
  those of the sources.\<close>

lemma ledger_summary_ok:
  assumes "ledger_ok l"
  shows "length (smFailures (ledger_summary l)) \<le> maxFailures \<and>
    filter (\<lambda>f. \<not> ffDiagnosticOnly f) (smFailures (ledger_summary l)) = lg_failures l \<and>
    counters (smBySource (ledger_summary l)) = smBytes (ledger_summary l)"
proof -
  have "filter (\<lambda>f. \<not> ffDiagnosticOnly f) (take n (lg_indexFailures l)) = []" for n
    using assms in_set_takeD by (fastforce simp: ledger_ok_def filter_empty_conv)
  moreover have "filter (\<lambda>f. \<not> ffDiagnosticOnly f) (lg_failures l) = lg_failures l"
    using assms by (simp add: ledger_ok_def filter_id_conv)
  ultimately show ?thesis
    using assms by (auto simp: ledger_summary_def ledger_ok_def)
qed

end
