(* ===== verification/Relay_Http.thy ===== *)
theory Relay_Http
  imports Relay_Progress
begin

text \<open>
  One request of the relay to an upstream, from \<open>internal/relay/fetch.go\<close>: \<open>open\<close> waits for the
  response header, \<open>readBody\<close> copies the body to a writer. What the network, the timers and the file
  system answer is an argument: an \<open>open_answer\<close> says which branch of the \<open>select\<close> was taken and what
  arrived, a \<open>read_event\<close> what one turn of the loop of \<open>readBody\<close> found. The lemmas show that a
  request that is not handed to the caller leaves no response open, and that a body is never longer
  than was asked for and complete when no failure is reported.
\<close>

section \<open>Opening a request\<close>

text \<open>A network error as the classification of package \<open>mirror\<close> and \<open>errors.As\<close> see it.\<close>

record io_error =
  ie_kind :: string
  ie_errno :: "nat option"

record response =
  rp_status :: int
  rp_length :: int
  rp_acceptRanges :: string
  rp_contentType :: string
  rp_finalURL :: "string option"

text \<open>The answer of \<open>client.Do\<close>, and the branch of the \<open>select\<close>: the result came first, the context ended
  first or the connection timer fired first; in the last two the result is drained afterwards.
  \<open>ended\<close> is \<open>ctx.Err() != nil\<close> when it is asked.\<close>

record do_result =
  do_response :: "response option"
  do_err :: "io_error option"

datatype open_select = ResultFirst bool | ContextFirst | TimerFirst bool

record open_answer =
  oa_requestBuilt :: bool
  oa_select :: open_select
  oa_result :: do_result

text \<open>What was done with the request: whether its context was cancelled and how often its body closed.\<close>

record request_trace =
  rt_cancelled :: bool
  rt_closes :: nat

definition close_response :: "response option \<Rightarrow> request_trace \<Rightarrow> request_trace" where
  "close_response r t = (case r of None \<Rightarrow> t | Some _ \<Rightarrow> t\<lparr>rt_closes := rt_closes t + 1\<rparr>)"

definition open_outcome :: "open_answer \<Rightarrow> AttemptOutcome \<Rightarrow> Outcome \<times> AttemptOutcome" where
  "open_outcome a d =
     (case oa_select a of
        ResultFirst ended \<Rightarrow>
          (if ended then (OutcomeCancelled, d)
           else case do_err (oa_result a) of
             Some e \<Rightarrow> (OutcomeNetwork, diagnoseAttempt (ie_kind e) ''request'' 0 (ie_errno e) d)
           | None \<Rightarrow>
               if do_response (oa_result a) = None
               then (OutcomeNetwork, diagnoseAttempt ''response_invalid'' ''request'' 0 None d)
               else (OutcomeNone, d))
      | ContextFirst \<Rightarrow> (OutcomeCancelled, d)
      | TimerFirst ended \<Rightarrow>
          (if ended then OutcomeCancelled else OutcomeConnectTimeout,
           diagnoseAttempt ''connect_timeout'' ''request'' 0 None d))"

definition engine_open ::
  "url_api \<Rightarrow> string \<Rightarrow> open_answer \<Rightarrow> AttemptOutcome \<Rightarrow>
   (response option \<times> Outcome \<times> AttemptOutcome) \<times> request_trace" where
  "engine_open api target a d =
     (let t0 = \<lparr>rt_cancelled = False, rt_closes = 0\<rparr> in
      if validateHTTPSURL api target = None then
        ((None, OutcomeNetwork, diagnoseAttempt ''url_policy'' ''request'' 0 None d), t0)
      else if \<not> oa_requestBuilt a then
        ((None, OutcomeNetwork, diagnoseAttempt ''request_invalid'' ''request'' 0 None d),
         t0\<lparr>rt_cancelled := True\<rparr>)
      else
        let (outcome, d1) = open_outcome a d; r = do_response (oa_result a) in
        if outcome \<noteq> OutcomeNone then
          ((None, outcome, d1), (close_response r t0)\<lparr>rt_cancelled := True\<rparr>)
        else if \<not> validateFinalURL api (case r of None \<Rightarrow> None | Some p \<Rightarrow> rp_finalURL p) then
          ((None, OutcomeNetwork, diagnoseAttempt ''url_policy'' ''request'' 0 None d1),
           (close_response r t0)\<lparr>rt_cancelled := True\<rparr>)
        else ((r, OutcomeNone, d1), t0))"

text \<open>\<open>upstreamHandle.close\<close>, which the callers defer.\<close>

definition handle_close :: "response option \<Rightarrow> request_trace \<Rightarrow> request_trace" where
  "handle_close r t = (close_response r t)\<lparr>rt_cancelled := True\<rparr>"

lemma engine_open_cases:
  assumes "engine_open api target a d = ((r, outcome, d'), t)"
  shows "(outcome = OutcomeNone \<longleftrightarrow> r \<noteq> None) \<and>
    (r \<noteq> None \<longrightarrow> validateHTTPSURL api target \<noteq> None \<and> r = do_response (oa_result a) \<and>
       validateFinalURL api (rp_finalURL (the r)) \<and> rt_closes t = 0 \<and> \<not> rt_cancelled t) \<and>
    (r = None \<and> validateHTTPSURL api target \<noteq> None \<longrightarrow> rt_cancelled t \<and>
       (oa_requestBuilt a \<longrightarrow> rt_closes t = (if do_response (oa_result a) = None then 0 else 1)))"
proof -
  obtain rr where rr: "do_response (oa_result a) = rr" by blast
  show ?thesis
    using assms
    by (cases rr) (auto simp: rr engine_open_def open_outcome_def close_response_def Let_def
      split: if_splits option.splits open_select.splits prod.splits)
qed

section \<open>Reading a body\<close>

text \<open>A part of the body with the error the reader returned with it; the writer may fail after some
  bytes. \<open>StallTimer\<close>: no part came in time. \<open>BodyContext\<close>: the context ended.\<close>

datatype body_error = EndOfFile | BodyFailed io_error

datatype read_event =
    BodyPart string "body_error option" "(nat \<times> io_error) option"
  | StallTimer
  | BodyContext

datatype read_turn = ReadOn | ReadDone Outcome

text \<open>The writer of one turn: the bytes that reach the file, whether the loop is left at once, and the
  diagnosis. \<open>expected\<close> is the length that was asked for, zero for any.\<close>

definition read_write ::
  "int \<Rightarrow> int \<Rightarrow> string \<Rightarrow> (nat \<times> io_error) option \<Rightarrow> AttemptOutcome \<Rightarrow> string \<times> bool \<times> AttemptOutcome" where
  "read_write expected received data fails d =
     (if data = '''' then ('''', False, d)
      else if 0 < expected \<and> expected < received + int (length data) then
        ('''', True, diagnoseAttempt ''size_limit'' ''read'' 0 None d)
      else case fails of
        Some (n, e) \<Rightarrow> (take n data, True, diagnoseAttempt (ie_kind e) ''write'' 0 (ie_errno e) d)
      | None \<Rightarrow> (data, False, d))"

text \<open>How the turn ends once the bytes are counted: \<open>ended\<close> is \<open>ctx.Err() != nil\<close>.\<close>

definition read_end :: "body_error option \<Rightarrow> bool \<Rightarrow> AttemptOutcome \<Rightarrow> read_turn \<times> AttemptOutcome" where
  "read_end err ended d =
     (case err of
        Some EndOfFile \<Rightarrow> (ReadDone OutcomeNone, d)
      | Some (BodyFailed e) \<Rightarrow>
          (ReadDone OutcomeNetwork, diagnoseAttempt (ie_kind e) ''read'' 0 (ie_errno e) d)
      | None \<Rightarrow> (if ended then ReadDone OutcomeCancelled else ReadOn, d))"

definition read_stall :: "bool \<Rightarrow> AttemptOutcome \<Rightarrow> Outcome \<times> AttemptOutcome" where
  "read_stall ended d =
     (if ended then OutcomeCancelled else OutcomeReadTimeout,
      diagnoseAttempt ''read_timeout'' ''read'' 0 None d)"

text \<open>The whole loop for a caller whose other goroutines do not matter: the bytes written, the counts that
  \<open>onBytes\<close> was called with and the outcome. The list of events is the fuel; every event carries the
  state of the context.\<close>

fun readBody ::
  "int \<Rightarrow> (read_event \<times> bool) list \<Rightarrow> string \<Rightarrow> int list \<Rightarrow> AttemptOutcome \<Rightarrow>
   (string \<times> int list \<times> Outcome \<times> AttemptOutcome) option" where
  "readBody expected [] written counts d = None"
| "readBody expected ((BodyPart data err fails, ended) # evs) written counts d =
     (let (out, stop, d1) = read_write expected (sum_list counts) data fails d in
      if stop then Some (written @ out, counts, OutcomeNetwork, d1)
      else
        let counts' = (if out = '''' then counts else counts @ [int (length out)]);
            (turn, d2) = read_end err ended d1 in
        case turn of
          ReadOn \<Rightarrow> readBody expected evs (written @ out) counts' d2
        | ReadDone oc \<Rightarrow> Some (written @ out, counts', oc, d2))"
| "readBody expected ((StallTimer, ended) # evs) written counts d =
     (let (oc, d1) = read_stall ended d in Some (written, counts, oc, d1))"
| "readBody expected ((BodyContext, ended) # evs) written counts d =
     Some (written, counts, OutcomeCancelled, d)"

lemma read_write_bounds:
  "read_write expected received data fails d = (out, stop, d') \<Longrightarrow> 0 \<le> expected \<Longrightarrow>
     received \<le> expected \<or> expected = 0 \<Longrightarrow>
     (expected = 0 \<or> received + int (length out) \<le> expected) \<and> (\<not> stop \<longrightarrow> out = data)"
  by (auto simp: read_write_def split: if_splits option.splits)

text \<open>A body is never longer than expected, and without an outcome every byte counted was written.\<close>

lemma readBody_bounds:
  "readBody expected evs written counts d = Some (w, ns, oc, d') \<Longrightarrow> 0 \<le> expected \<Longrightarrow>
   sum_list counts \<le> expected \<or> expected = 0 \<Longrightarrow> int (length written) = sum_list counts \<Longrightarrow>
     (expected = 0 \<or> sum_list ns \<le> expected) \<and> prefix written w \<and> sum_list ns \<le> int (length w) \<and>
     (expected = 0 \<or> int (length w) \<le> expected) \<and> (oc = OutcomeNone \<longrightarrow> int (length w) = sum_list ns)"
proof (induction expected evs written counts d arbitrary: w ns oc d' rule: readBody.induct)
  case (2 expected data err fails ended evs written counts d)
  obtain out stop d1 where rw: "read_write expected (sum_list counts) data fails d = (out, stop, d1)"
    by (metis prod_cases3)
  note b = read_write_bounds[OF rw "2.prems"(2,3)]
  show ?case
  proof (cases stop)
    case True
    with "2.prems" rw have "w = written @ out" "ns = counts" "oc = OutcomeNetwork" by auto
    with b "2.prems" show ?thesis by auto
  next
    case False
    obtain turn d2 where re: "read_end err ended d1 = (turn, d2)" by fastforce
    define counts' where "counts' = (if out = '''' then counts else counts @ [int (length out)])"
    have sum: "sum_list counts' = sum_list counts + int (length out)" by (simp add: counts'_def)
    show ?thesis
    proof (cases turn)
      case ReadOn
      have "readBody expected evs (written @ out) counts' d2 = Some (w, ns, oc, d')"
        using "2.prems"(1) rw re False ReadOn by (simp add: counts'_def)
      from "2.IH"[OF rw[symmetric] refl refl False counts'_def re[symmetric] refl ReadOn this]
        b "2.prems" False sum
      show ?thesis by (auto dest: append_prefixD)
    next
      case (ReadDone oo)
      with "2.prems"(1) rw re False have "w = written @ out" "ns = counts'" by (auto simp: counts'_def)
      with b "2.prems" False sum show ?thesis by auto
    qed
  qed
qed (auto simp: read_stall_def split: if_splits)

end
