(* ===== verification/Relay_Chunk.thy ===== *)
theory Relay_Chunk
  imports Relay_Http
begin

text \<open>
  \<open>internal/relay/chunk.go\<close>: a large file is split into pieces that several workers, one for each
  source, fetch in parallel into one file. \<open>chunkPlan\<close> is the state they share; each of its methods is
  one section under its mutex and one atomic step here. A worker is its program counter in
  \<open>chunkWorker\<close> and \<open>fetchChunk\<close>, and a schedule says which worker runs next and what its surroundings
  answer, so that what is proved of every schedule holds for every interleaving.
\<close>

section \<open>The plan\<close>

record chunk =
  c_start :: int
  c_end :: int

definition chunk_length :: "chunk \<Rightarrow> int" where
  "chunk_length c = c_end c - c_start c + 1"

text \<open>\<open>if_cancelled\<close>: the context of the piece was cancelled by the entry of \<open>cancel\<close>.\<close>

record inflightChunk =
  if_piece :: chunk
  if_startedAt :: int
  if_startedCompleted :: int
  if_received :: int
  if_cancelled :: bool

text \<open>The top of the stack is the end of \<open>cp_pending\<close>. The channel \<open>changed\<close> is closed and replaced on
  every notification: \<open>cp_changed\<close> counts them.\<close>

record chunkPlan =
  cp_pending :: "chunk list"
  cp_failed :: "string set"
  cp_attempts :: "AttemptOutcome list"
  cp_contributions :: "(string, int) go_map"
  cp_completed :: int
  cp_inflight :: "(string, inflightChunk) go_map"
  cp_slow :: "string set"
  cp_changed :: nat

definition slowSourceCompletedLead :: int where "slowSourceCompletedLead = 2"
definition slowSourceProgressLimit :: int where "slowSourceProgressLimit = 4"
definition tailLaggardProgressLimit :: int where "tailLaggardProgressLimit = 2"
definition slowSourceMinAge :: int where "slowSourceMinAge = 1500000000"

definition newChunkPlan :: chunkPlan where
  "newChunkPlan = \<lparr>cp_pending = [], cp_failed = {}, cp_attempts = [], cp_contributions = [],
     cp_completed = 0, cp_inflight = [], cp_slow = {}, cp_changed = 0\<rparr>"

definition notifyLocked :: "chunkPlan \<Rightarrow> chunkPlan" where
  "notifyLocked p = p\<lparr>cp_changed := cp_changed p + 1\<rparr>"

definition plan_begin :: "string \<Rightarrow> chunk \<Rightarrow> int \<Rightarrow> chunkPlan \<Rightarrow> chunkPlan" where
  "plan_begin k piece now p =
     p\<lparr>cp_inflight := AList.update k \<lparr>if_piece = piece, if_startedAt = now,
        if_startedCompleted = cp_completed p, if_received = 0, if_cancelled = False\<rparr> (cp_inflight p)\<rparr>"

definition plan_progress :: "string \<Rightarrow> int \<Rightarrow> chunkPlan \<Rightarrow> chunkPlan" where
  "plan_progress k n p =
     (case map_of (cp_inflight p) k of
        None \<Rightarrow> p
      | Some e \<Rightarrow> p\<lparr>cp_inflight := AList.update k (e\<lparr>if_received := if_received e + n\<rparr>) (cp_inflight p)\<rparr>)"

definition plan_end :: "string \<Rightarrow> chunkPlan \<Rightarrow> chunkPlan" where
  "plan_end k p = notifyLocked (p\<lparr>cp_inflight := AList.delete k (cp_inflight p)\<rparr>)"

definition plan_complete :: "chunkPlan \<Rightarrow> chunkPlan" where
  "plan_complete p = p\<lparr>cp_completed := cp_completed p + 1\<rparr>"

definition plan_isSlow :: "string \<Rightarrow> chunkPlan \<Rightarrow> bool" where
  "plan_isSlow k p \<longleftrightarrow> k \<in> cp_slow p"

definition cancel_piece :: "string \<Rightarrow> inflightChunk \<Rightarrow> chunkPlan \<Rightarrow> chunkPlan" where
  "cancel_piece k e p =
     p\<lparr>cp_slow := insert k (cp_slow p),
       cp_inflight := AList.update k (e\<lparr>if_cancelled := True\<rparr>) (cp_inflight p)\<rparr>"

text \<open>\<open>order\<close> is the order in which the loop visits the keys of \<open>inflight\<close>.\<close>

definition is_laggard :: "string \<Rightarrow> int \<Rightarrow> string \<Rightarrow> inflightChunk \<Rightarrow> chunkPlan \<Rightarrow> bool" where
  "is_laggard self now k e p \<longleftrightarrow>
     \<not> (k = self \<or> k \<in> cp_slow p) \<and>
     \<not> cp_completed p - if_startedCompleted e < slowSourceCompletedLead \<and>
     \<not> chunk_length (if_piece e) \<le> if_received e * slowSourceProgressLimit \<and>
     \<not> now - if_startedAt e < slowSourceMinAge"

fun demoteLaggards :: "string \<Rightarrow> int \<Rightarrow> string list \<Rightarrow> chunkPlan \<Rightarrow> string list \<times> chunkPlan" where
  "demoteLaggards self now [] p = ([], p)"
| "demoteLaggards self now (k # order) p =
     (case map_of (cp_inflight p) k of
        None \<Rightarrow> demoteLaggards self now order p
      | Some e \<Rightarrow>
          if is_laggard self now k e p then
            let (ks, p') = demoteLaggards self now order (cancel_piece k e p) in (k # ks, p')
          else demoteLaggards self now order p)"

fun tail_loop :: "string \<Rightarrow> int \<Rightarrow> int \<Rightarrow> string list \<Rightarrow> chunkPlan \<Rightarrow> (bool \<times> int) \<times> chunkPlan" where
  "tail_loop self now retry [] p = ((False, retry), p)"
| "tail_loop self now retry (k # order) p =
     (case map_of (cp_inflight p) k of
        None \<Rightarrow> tail_loop self now retry order p
      | Some e \<Rightarrow>
          if k = self \<or> k \<in> cp_slow p then tail_loop self now retry order p
          else if chunk_length (if_piece e) \<le> if_received e * tailLaggardProgressLimit
          then tail_loop self now retry order p
          else if now - if_startedAt e < slowSourceMinAge then
            (let left = slowSourceMinAge - (now - if_startedAt e) in
             tail_loop self now (if retry = 0 \<or> left < retry then left else retry) order p)
          else ((True, 0), cancel_piece k e p))"

definition demoteTailLaggard ::
  "string \<Rightarrow> bool \<Rightarrow> int \<Rightarrow> string list \<Rightarrow> chunkPlan \<Rightarrow> (bool \<times> int) \<times> chunkPlan" where
  "demoteTailLaggard self selfCompleted now order p =
     (if \<not> selfCompleted then ((False, 0), p) else tail_loop self now 0 order p)"

definition othersInflight :: "string \<Rightarrow> chunkPlan \<Rightarrow> bool" where
  "othersInflight self p \<longleftrightarrow> list_ex (\<lambda>(k, e). k \<noteq> self) (cp_inflight p)"

definition plan_pop :: "chunkPlan \<Rightarrow> chunk option \<times> chunkPlan" where
  "plan_pop p =
     (if cp_pending p = [] then (None, p)
      else (Some (last (cp_pending p)), p\<lparr>cp_pending := butlast (cp_pending p)\<rparr>))"

definition plan_push :: "chunk \<Rightarrow> chunkPlan \<Rightarrow> chunkPlan" where
  "plan_push c p = notifyLocked (p\<lparr>cp_pending := cp_pending p @ [c]\<rparr>)"

definition plan_remaining :: "chunkPlan \<Rightarrow> nat" where
  "plan_remaining p = length (cp_pending p)"

definition markFailed :: "string \<Rightarrow> Outcome \<Rightarrow> AttemptOutcome option \<Rightarrow> chunkPlan \<Rightarrow> chunkPlan" where
  "markFailed k outcome diagnostic p =
     (let attempt = (case diagnostic of
          None \<Rightarrow> (new_attempt k)\<lparr>aOutcome := outcome, aFailureKind := outcome\<rparr>
        | Some d \<Rightarrow> d\<lparr>aSource := k, aOutcome := outcome\<rparr>)
      in p\<lparr>cp_failed := insert k (cp_failed p), cp_attempts := cp_attempts p @ [attempt]\<rparr>)"

definition plan_credit :: "string \<Rightarrow> int \<Rightarrow> chunkPlan \<Rightarrow> chunkPlan" where
  "plan_credit k n p = p\<lparr>cp_contributions := bump k n (cp_contributions p)\<rparr>"

text \<open>\<open>recordLocalFailure\<close>: a failure of the file that belongs to no source.\<close>

definition recordLocalFailure :: "string \<Rightarrow> string \<Rightarrow> nat option \<Rightarrow> chunkPlan \<Rightarrow> chunkPlan" where
  "recordLocalFailure k operation errno p =
     p\<lparr>cp_attempts := cp_attempts p @
         [diagnoseAttempt k operation 0 errno ((new_attempt '''')\<lparr>aOutcome := OutcomeNetwork\<rparr>)]\<rparr>"

section \<open>The sources of a route\<close>

definition rangeSources :: "Upstream list \<Rightarrow> chunkPlan \<Rightarrow> Upstream list" where
  "rangeSources ups p =
     (let sources = filter (\<lambda>u. uAcceptRange u \<and> uKey u \<notin> cp_failed p) ups;
          fast = filter (\<lambda>u. uKey u \<notin> cp_slow p) sources
      in if fast \<noteq> [] then fast else sources)"

fun split_key :: "string \<Rightarrow> Upstream list \<Rightarrow> (Upstream list \<times> Upstream \<times> Upstream list) option" where
  "split_key k [] = None"
| "split_key k (u # us) =
     (if uKey u = k then Some ([], u, us)
      else map_option (\<lambda>(a, v, b). (u # a, v, b)) (split_key k us))"

definition demoteUpstream :: "string \<Rightarrow> Upstream list \<Rightarrow> Upstream list" where
  "demoteUpstream k ups =
     (case split_key k ups of
        None \<Rightarrow> ups
      | Some (a, u, b) \<Rightarrow> if b = [] then ups else a @ b @ [u])"

section \<open>Workers\<close>

record fileSpec =
  sp_key :: fileKey
  sp_name :: string
  sp_size :: int
  sp_digest :: "string option"

text \<open>What the workers share: the plan, the file (what was written at which offset), the upstreams of the
  route, the tracker, whether the context has ended, and the clock.\<close>

record fetchState =
  fs_plan :: chunkPlan
  fs_file :: "int \<Rightarrow> char option"
  fs_upstreams :: "Upstream list"
  fs_tracker :: tracker
  fs_ended :: bool
  fs_now :: int

text \<open>The places of \<open>chunkWorker\<close> between two steps. The argument of \<open>Reading\<close> and of what follows is the
  piece and the number of bytes received of it.\<close>

datatype wpc =
    Top
  | Pop
  | Empty
  | Alone
  | Tail
  | WaitTimer | TimedWait nat
  | WaitChange | ChangeWait nat
  | Popped chunk
  | Opening chunk
  | Reading chunk int
  | Counting chunk int int "body_error option"
  | Noting chunk int int "body_error option"
  | Fetched chunk int Outcome
  | Ended chunk int Outcome
  | Completing
  | Judging
  | Demoting "string list"
  | SlowCredit chunk int
  | SlowPush chunk int
  | SlowDemote
  | FailPush chunk int Outcome
  | FailDiscard int Outcome
  | FailMark Outcome
  | Done

record worker =
  w_pc :: wpc
  w_completed :: bool
  w_attempt :: AttemptOutcome
  w_startedAt :: int

datatype wake = WakeChange | WakeTimer | WakeContext

text \<open>What the surroundings answer in one step; a step uses the parts it needs.\<close>

record choice =
  ch_order :: "string list"
  ch_open :: open_answer
  ch_body :: read_event
  ch_wake :: wake
  ch_at :: int
  ch_callbackFails :: bool

record chunk_env =
  ce_api :: url_api
  ce_spec :: fileSpec
  ce_upstream :: "string \<Rightarrow> string"

definition new_worker :: "worker" where
  "new_worker = \<lparr>w_pc = Top, w_completed = False, w_attempt = new_attempt '''', w_startedAt = 0\<rparr>"

text \<open>\<open>chunkCtx.Err() != nil\<close> for the piece that \<open>k\<close> is fetching.\<close>

definition piece_ended :: "string \<Rightarrow> fetchState \<Rightarrow> bool" where
  "piece_ended k s \<longleftrightarrow>
     fs_ended s \<or> (case map_of (cp_inflight (fs_plan s)) k of None \<Rightarrow> True | Some e \<Rightarrow> if_cancelled e)"

definition write_at :: "int \<Rightarrow> string \<Rightarrow> (int \<Rightarrow> char option) \<Rightarrow> int \<Rightarrow> char option" where
  "write_at off data file x =
     (if off \<le> x \<and> x < off + int (length data) then Some (data ! nat (x - off)) else file x)"

definition upd_plan :: "(chunkPlan \<Rightarrow> chunkPlan) \<Rightarrow> fetchState \<Rightarrow> fetchState" where
  "upd_plan f s = s\<lparr>fs_plan := f (fs_plan s)\<rparr>"

text \<open>The response of the piece: anything but a 206 of the length of the piece is a failure.\<close>

definition check_response :: "chunk \<Rightarrow> response \<Rightarrow> AttemptOutcome \<Rightarrow> Outcome \<times> AttemptOutcome" where
  "check_response c r d =
     (if rp_status r \<noteq> 206 then
        (OutcomeHTTPStatus, diagnoseAttempt ''http_status'' ''range'' (rp_status r) None d)
      else if 0 \<le> rp_length r \<and> rp_length r \<noteq> chunk_length c then
        (OutcomeNetwork, diagnoseAttempt ''size_mismatch'' ''response_size'' 0 None d)
      else (OutcomeNone, d))"

text \<open>The end of \<open>fetchChunk\<close>.\<close>

definition finish_chunk :: "chunk \<Rightarrow> int \<Rightarrow> Outcome \<Rightarrow> AttemptOutcome \<Rightarrow> wpc \<times> AttemptOutcome" where
  "finish_chunk c received outcome d =
     (if outcome \<noteq> OutcomeNone then (Fetched c received outcome, d)
      else if received \<noteq> chunk_length c then
        (Fetched c received OutcomeNetwork, diagnoseAttempt ''size_mismatch'' ''response_size'' 0 None d)
      else (Fetched c received OutcomeNone, d))"

definition goto :: "wpc \<Rightarrow> worker \<Rightarrow> worker" where
  "goto pc w = w\<lparr>w_pc := pc\<rparr>"

definition goto_with :: "wpc \<times> AttemptOutcome \<Rightarrow> worker \<Rightarrow> worker" where
  "goto_with r w = w\<lparr>w_pc := fst r, w_attempt := snd r\<rparr>"

text \<open>The end of one turn of the loop of \<open>readBody\<close>.\<close>

definition next_turn :: "string \<Rightarrow> chunk \<Rightarrow> int \<Rightarrow> body_error option \<Rightarrow> worker \<Rightarrow> fetchState \<Rightarrow> worker" where
  "next_turn k c received err w s =
     (let (turn, d) = read_end err (piece_ended k s) (w_attempt w) in
      case turn of
        ReadOn \<Rightarrow> w\<lparr>w_pc := Reading c received, w_attempt := d\<rparr>
      | ReadDone oc \<Rightarrow> goto_with (finish_chunk c received oc d) w)"

text \<open>The two steps of a worker that talk to the network: opening the request and one turn of the loop
  that reads the body. The context is chosen only when it has ended.\<close>

definition open_step :: "chunk_env \<Rightarrow> choice \<Rightarrow> string \<Rightarrow> chunk \<Rightarrow> worker \<Rightarrow> worker" where
  "open_step env ch k c w =
     (let ((r, oc, d), _) = engine_open (ce_api env) (ce_upstream env k @ snd (sp_key (ce_spec env)))
            (ch_open ch) (w_attempt w)
      in case r of
           None \<Rightarrow> goto_with (Fetched c 0 oc, d) w
         | Some resp \<Rightarrow>
             let (oc', d') = check_response c resp d in
             if oc' \<noteq> OutcomeNone then goto_with (Fetched c 0 oc', d') w
             else goto_with (Reading c 0, d') w)"

definition body_step ::
  "choice \<Rightarrow> string \<Rightarrow> chunk \<Rightarrow> int \<Rightarrow> worker \<Rightarrow> fetchState \<Rightarrow> (worker \<times> fetchState) option" where
  "body_step ch k c received w s =
     (case ch_body ch of
        BodyContext \<Rightarrow>
          (if piece_ended k s
           then Some (goto_with (finish_chunk c received OutcomeCancelled (w_attempt w)) w, s)
           else None)
      | StallTimer \<Rightarrow>
          (let (oc, d) = read_stall (piece_ended k s) (w_attempt w)
           in Some (goto_with (finish_chunk c received oc d) w, s))
      | BodyPart data err fails \<Rightarrow>
          (let (out, stop, d) = read_write (chunk_length c) received data fails (w_attempt w);
               s' = s\<lparr>fs_file := write_at (c_start c + received) out (fs_file s)\<rparr> in
           if stop then Some (goto_with (finish_chunk c received OutcomeNetwork d) w, s')
           else if out = '''' then Some (next_turn k c received err (w\<lparr>w_attempt := d\<rparr>) s', s')
           else Some (w\<lparr>w_pc := Counting c received (int (length out)) err, w_attempt := d\<rparr>, s')))"

text \<open>Waiting for a change, with or without a timer.\<close>

definition wait_step :: "choice \<Rightarrow> bool \<Rightarrow> nat \<Rightarrow> worker \<Rightarrow> fetchState \<Rightarrow> (worker \<times> fetchState) option" where
  "wait_step ch timed gen w s =
     (case ch_wake ch of
        WakeChange \<Rightarrow> (if gen < cp_changed (fs_plan s) then Some (goto Top w, s) else None)
      | WakeTimer \<Rightarrow> (if timed then Some (goto Top w, s) else None)
      | WakeContext \<Rightarrow> (if fs_ended s then Some (goto Done w, s) else None))"

fun wstep_at ::
  "chunk_env \<Rightarrow> choice \<Rightarrow> string \<Rightarrow> wpc \<Rightarrow> worker \<Rightarrow> fetchState \<Rightarrow> (worker \<times> fetchState) option" where
  "wstep_at env ch k Top w s = Some (goto (if fs_ended s then Done else Pop) w, s)"
| "wstep_at env ch k Pop w s =
     (let (piece, p) = plan_pop (fs_plan s); s' = s\<lparr>fs_plan := p\<rparr> in
      case piece of None \<Rightarrow> Some (goto Empty w, s') | Some c \<Rightarrow> Some (goto (Popped c) w, s'))"
| "wstep_at env ch k Empty w s = Some (goto (if plan_isSlow k (fs_plan s) then Done else Alone) w, s)"
| "wstep_at env ch k Alone w s = Some (goto (if othersInflight k (fs_plan s) then Tail else Done) w, s)"
| "wstep_at env ch k Tail w s =
     (let ((demoted, retryAfter), p) =
            demoteTailLaggard k (w_completed w) (fs_now s) (ch_order ch) (fs_plan s);
          s' = s\<lparr>fs_plan := p\<rparr> in
      if \<not> demoted \<and> retryAfter \<le> 0 then Some (goto Done w, s')
      else if \<not> demoted then Some (goto WaitTimer w, s')
      else Some (goto WaitChange w, s'))"
| "wstep_at env ch k WaitTimer w s = Some (goto (TimedWait (cp_changed (fs_plan s))) w, s)"
| "wstep_at env ch k (TimedWait gen) w s = wait_step ch True gen w s"
| "wstep_at env ch k WaitChange w s = Some (goto (ChangeWait (cp_changed (fs_plan s))) w, s)"
| "wstep_at env ch k (ChangeWait gen) w s = wait_step ch False gen w s"
| "wstep_at env ch k (Popped c) w s =
     Some (w\<lparr>w_pc := Opening c, w_attempt := new_attempt k, w_startedAt := ch_at ch\<rparr>,
           upd_plan (plan_begin k c (fs_now s)) s)"
| "wstep_at env ch k (Opening c) w s = Some (open_step env ch k c w, s)"
| "wstep_at env ch k (Reading c received) w s = body_step ch k c received w s"
| "wstep_at env ch k (Counting c received n err) w s =
     Some (goto (Noting c received n err) w,
           s\<lparr>fs_tracker := tracker_add (sp_key (ce_spec env)) (sp_name (ce_spec env)) k n
               (fs_now s) (fs_now s) (ch_callbackFails ch) (fs_tracker s)\<rparr>)"
| "wstep_at env ch k (Noting c received n err) w s =
     (let s' = upd_plan (plan_progress k n) s in Some (next_turn k c (received + n) err w s', s'))"
| "wstep_at env ch k (Fetched c received oc) w s =
     Some (goto (Ended c received oc) w, upd_plan (plan_end k) s)"
| "wstep_at env ch k (Ended c received oc) w s =
     (if oc = OutcomeNone then Some (goto Completing w, upd_plan (plan_credit k received) s)
      else if plan_isSlow k (fs_plan s) \<and> \<not> fs_ended s then Some (goto (SlowCredit c received) w, s)
      else Some (goto (FailPush c received oc) w, s))"
| "wstep_at env ch k Completing w s =
     Some (w\<lparr>w_pc := Judging, w_completed := True\<rparr>, upd_plan plan_complete s)"
| "wstep_at env ch k Judging w s =
     (let (demoted, p) = demoteLaggards k (fs_now s) (ch_order ch) (fs_plan s)
      in Some (goto (Demoting demoted) w, s\<lparr>fs_plan := p\<rparr>))"
| "wstep_at env ch k (Demoting []) w s = Some (goto Top w, s)"
| "wstep_at env ch k (Demoting (d # ds)) w s =
     Some (goto (Demoting ds) w, s\<lparr>fs_upstreams := demoteUpstream d (fs_upstreams s)\<rparr>)"
| "wstep_at env ch k (SlowCredit c received) w s =
     Some (goto (SlowPush c received) w, upd_plan (plan_credit k received) s)"
| "wstep_at env ch k (SlowPush c received) w s =
     Some (goto SlowDemote w,
           if received < chunk_length c
           then upd_plan (plan_push \<lparr>c_start = c_start c + received, c_end = c_end c\<rparr>) s else s)"
| "wstep_at env ch k SlowDemote w s =
     Some (goto Done w, s\<lparr>fs_upstreams := demoteUpstream k (fs_upstreams s)\<rparr>)"
| "wstep_at env ch k (FailPush c received oc) w s =
     Some (goto (FailDiscard received oc) w, upd_plan (plan_push c) s)"
| "wstep_at env ch k (FailDiscard received oc) w s =
     Some (goto (FailMark oc) w,
           s\<lparr>fs_tracker := tracker_discard (sp_key (ce_spec env)) k received (fs_tracker s)\<rparr>)"
| "wstep_at env ch k (FailMark oc) w s =
     (let d = finishAttempt oc (w_startedAt w) (ch_at ch) (w_attempt w)
      in Some (w\<lparr>w_pc := Done, w_attempt := d\<rparr>, upd_plan (markFailed k oc (Some d)) s))"
| "wstep_at env ch k Done w s = None"

definition wstep ::
  "chunk_env \<Rightarrow> choice \<Rightarrow> string \<Rightarrow> worker \<Rightarrow> fetchState \<Rightarrow> (worker \<times> fetchState) option" where
  "wstep env ch k w s = wstep_at env ch k (w_pc w) w s"

section \<open>A round\<close>

text \<open>The workers of a round by the keys of their sources. The surroundings may let time pass, end the
  context and, through another file of the same relay, change the upstreams and the tracker.\<close>

type_synonym chunkSys = "(string, worker) go_map \<times> fetchState"

datatype sched =
    Work string choice
  | Clock int
  | EndContext
  | Outside "Upstream list" tracker

definition sys_step :: "chunk_env \<Rightarrow> sched \<Rightarrow> chunkSys \<Rightarrow> chunkSys option" where
  "sys_step env e sys =
     (case e of
        Work k ch \<Rightarrow>
          (case map_of (fst sys) k of
             None \<Rightarrow> None
           | Some w \<Rightarrow>
               map_option (\<lambda>(w', s'). (AList.update k w' (fst sys), s')) (wstep env ch k w (snd sys)))
      | Clock t \<Rightarrow> (if fs_now (snd sys) \<le> t then Some (fst sys, (snd sys)\<lparr>fs_now := t\<rparr>) else None)
      | EndContext \<Rightarrow> Some (fst sys, (snd sys)\<lparr>fs_ended := True\<rparr>)
      | Outside ups tr \<Rightarrow> Some (fst sys, (snd sys)\<lparr>fs_upstreams := ups, fs_tracker := tr\<rparr>))"

fun sys_run :: "chunk_env \<Rightarrow> sched list \<Rightarrow> chunkSys \<Rightarrow> chunkSys option" where
  "sys_run env [] sys = Some sys"
| "sys_run env (e # es) sys =
     (case sys_step env e sys of None \<Rightarrow> None | Some sys' \<Rightarrow> sys_run env es sys')"

definition start_workers :: "int \<Rightarrow> Upstream list \<Rightarrow> (string, worker) go_map" where
  "start_workers n sources = map (\<lambda>u. (uKey u, new_worker)) (take (nat n) sources)"

definition all_done :: "(string, worker) go_map \<Rightarrow> bool" where
  "all_done ws \<longleftrightarrow> list_all (\<lambda>(k, w). w_pc w = Done) ws"

text \<open>The loop of \<open>tryChunked\<close>: \<open>RoundsOver\<close> when its condition fails or no source is left,
  \<open>RoundsOpen\<close> when the schedules are used up, \<open>RoundStuck\<close> when a schedule does not run all workers
  to their end.\<close>

datatype rounds_result = RoundsOver fetchState | RoundsOpen fetchState | RoundStuck

definition round_sources :: "fetchState \<Rightarrow> Upstream list" where
  "round_sources s = rangeSources (fs_upstreams s) (fs_plan s)"

definition rounds_go_on :: "fetchState \<Rightarrow> bool" where
  "rounds_go_on s \<longleftrightarrow> 0 < plan_remaining (fs_plan s) \<and> \<not> fs_ended s \<and> round_sources s \<noteq> []"

definition run_round :: "chunk_env \<Rightarrow> int \<Rightarrow> sched list \<Rightarrow> fetchState \<Rightarrow> fetchState option" where
  "run_round env maxChunks es s =
     (case sys_run env es (start_workers maxChunks (round_sources s), s) of
        None \<Rightarrow> None
      | Some (ws, s') \<Rightarrow> if all_done ws then Some s' else None)"

fun run_rounds :: "chunk_env \<Rightarrow> int \<Rightarrow> sched list list \<Rightarrow> fetchState \<Rightarrow> rounds_result" where
  "run_rounds env maxChunks [] s = (if rounds_go_on s then RoundsOpen s else RoundsOver s)"
| "run_rounds env maxChunks (es # ess) s =
     (if \<not> rounds_go_on s then RoundsOver s
      else case run_round env maxChunks es s of
             None \<Rightarrow> RoundStuck
           | Some s' \<Rightarrow> run_rounds env maxChunks ess s')"

text \<open>The pieces of a file, from its end to its start, so that the stack gives the start first. The
  fuel counts pieces and is more than enough.\<close>

fun split_from :: "nat \<Rightarrow> int \<Rightarrow> int \<Rightarrow> int \<Rightarrow> chunk list" where
  "split_from 0 start step len = []"
| "split_from (Suc fuel) start step len =
     (if start < len then
        (let stop = start + step - 1; stop' = (if len \<le> stop then len - 1 else stop)
         in \<lparr>c_start = start, c_end = stop'\<rparr> # split_from fuel (start + step) step len)
      else [])"

definition split_file :: "int \<Rightarrow> int \<Rightarrow> chunk list" where
  "split_file step len = rev (split_from (nat len) 0 step len)"

section \<open>What a step does to the pieces\<close>

definition inside :: "int \<Rightarrow> chunk \<Rightarrow> bool" where
  "inside x c \<longleftrightarrow> c_start c \<le> x \<and> x \<le> c_end c"

definition hits :: "int \<Rightarrow> chunk list \<Rightarrow> int" where
  "hits x cs = sum_list (map (\<lambda>c. if inside x c then 1 else 0) cs)"

definition lengths :: "chunk list \<Rightarrow> int" where
  "lengths cs = sum_list (map chunk_length cs)"

definition chunk_valid :: "int \<Rightarrow> chunk \<Rightarrow> bool" where
  "chunk_valid n c \<longleftrightarrow> 0 \<le> c_start c \<and> c_start c \<le> c_end c \<and> c_end c < n"

definition rest :: "chunk \<Rightarrow> int \<Rightarrow> chunk list" where
  "rest c received =
     (if received < chunk_length c then [\<lparr>c_start = c_start c + received, c_end = c_end c\<rparr>] else [])"

text \<open>The piece that a worker still has to fetch or to give back, and the bytes it has not credited yet.\<close>

fun owed :: "wpc \<Rightarrow> chunk list" where
  "owed (Popped c) = [c]"
| "owed (Opening c) = [c]"
| "owed (Reading c received) = [c]"
| "owed (Counting c received n err) = [c]"
| "owed (Noting c received n err) = [c]"
| "owed (Fetched c received oc) = (if oc = '''' then [] else [c])"
| "owed (Ended c received oc) = (if oc = '''' then [] else [c])"
| "owed (SlowCredit c received) = rest c received"
| "owed (SlowPush c received) = rest c received"
| "owed (FailPush c received oc) = [c]"
| "owed pc = []"

fun uncredited :: "wpc \<Rightarrow> int" where
  "uncredited (Fetched c received oc) = (if oc = '''' then received else 0)"
| "uncredited (Ended c received oc) = (if oc = '''' then received else 0)"
| "uncredited (SlowCredit c received) = received"
| "uncredited pc = 0"

definition filled :: "(int \<Rightarrow> char option) \<Rightarrow> int \<Rightarrow> int \<Rightarrow> bool" where
  "filled f a b \<longleftrightarrow> (\<forall>x. a \<le> x \<and> x < b \<longrightarrow> f x \<noteq> None)"

definition got :: "(int \<Rightarrow> char option) \<Rightarrow> chunk \<Rightarrow> int \<Rightarrow> bool" where
  "got f c received \<longleftrightarrow>
     0 \<le> received \<and> received \<le> chunk_length c \<and> filled f (c_start c) (c_start c + received)"

text \<open>What a worker knows about the bytes of its piece.\<close>

fun pc_ok :: "(int \<Rightarrow> char option) \<Rightarrow> wpc \<Rightarrow> bool" where
  "pc_ok f (Reading c received) = got f c received"
| "pc_ok f (Counting c received n err) = (0 \<le> received \<and> 0 < n \<and> got f c (received + n))"
| "pc_ok f (Noting c received n err) = (0 \<le> received \<and> 0 < n \<and> got f c (received + n))"
| "pc_ok f (Fetched c received oc) = (got f c received \<and> (oc = '''' \<longrightarrow> received = chunk_length c))"
| "pc_ok f (Ended c received oc) = (got f c received \<and> (oc = '''' \<longrightarrow> received = chunk_length c))"
| "pc_ok f (SlowCredit c received) = got f c received"
| "pc_ok f (SlowPush c received) = got f c received"
| "pc_ok f pc = True"

definition file_grows :: "(int \<Rightarrow> char option) \<Rightarrow> (int \<Rightarrow> char option) \<Rightarrow> bool" where
  "file_grows f g \<longleftrightarrow> (\<forall>x. f x \<noteq> None \<longrightarrow> g x \<noteq> None)"

lemma hits_simps [simp]:
  "hits x [] = 0"
  "hits x (c # cs) = (if inside x c then 1 else 0) + hits x cs"
  "hits x (cs @ ds) = hits x cs + hits x ds"
  by (simp_all add: hits_def)

lemma lengths_simps [simp]:
  "lengths [] = 0"
  "lengths (c # cs) = chunk_length c + lengths cs"
  "lengths (cs @ ds) = lengths cs + lengths ds"
  by (simp_all add: lengths_def)

lemma hits_nonneg: "0 \<le> hits x cs"
  by (auto simp: hits_def intro!: sum_list_nonneg)

lemma file_grows_refl [simp]: "file_grows f f"
  by (simp add: file_grows_def)

lemma file_grows_write [simp]: "file_grows f (write_at off data f)"
  by (simp add: file_grows_def write_at_def)

lemma got_grows: "got f c n \<Longrightarrow> file_grows f g \<Longrightarrow> got g c n"
  by (auto simp: got_def filled_def file_grows_def)

lemma pc_ok_grows: "pc_ok f pc \<Longrightarrow> file_grows f g \<Longrightarrow> pc_ok g pc"
  by (cases pc) (auto intro: got_grows)

text \<open>The effect of a step on what the pieces are about: the pieces that are pending or owed, the file and
  the accounts.\<close>

definition step_effect :: "int \<Rightarrow> wpc \<Rightarrow> fetchState \<Rightarrow> wpc \<Rightarrow> fetchState \<Rightarrow> bool" where
  "step_effect n pc s pc' s' \<longleftrightarrow>
     (let p = fs_plan s; p' = fs_plan s' in
      file_grows (fs_file s) (fs_file s') \<and> pc_ok (fs_file s') pc' \<and>
      (\<forall>x. hits x (cp_pending p') + hits x (owed pc') \<le> hits x (cp_pending p) + hits x (owed pc) \<and>
           (hits x (cp_pending p') + hits x (owed pc') < hits x (cp_pending p) + hits x (owed pc) \<longrightarrow>
              fs_file s' x \<noteq> None)) \<and>
      map_ok (cp_contributions p') \<and>
      counters (cp_contributions p') + lengths (cp_pending p') + lengths (owed pc') + uncredited pc' =
        counters (cp_contributions p) + lengths (cp_pending p) + lengths (owed pc) + uncredited pc \<and>
      (\<forall>c \<in> set (cp_pending p') \<union> set (owed pc'). chunk_valid n c))"

definition step_pre :: "int \<Rightarrow> wpc \<Rightarrow> fetchState \<Rightarrow> bool" where
  "step_pre n pc s \<longleftrightarrow>
     pc_ok (fs_file s) pc \<and> map_ok (cp_contributions (fs_plan s)) \<and>
     (\<forall>c \<in> set (cp_pending (fs_plan s)) \<union> set (owed pc). chunk_valid n c)"

lemma effect_plain:
  "step_pre n pc s \<Longrightarrow> cp_pending (fs_plan s') = cp_pending (fs_plan s) \<Longrightarrow>
   cp_contributions (fs_plan s') = cp_contributions (fs_plan s) \<Longrightarrow> file_grows (fs_file s) (fs_file s') \<Longrightarrow>
   owed pc' = owed pc \<Longrightarrow> uncredited pc' = uncredited pc \<Longrightarrow> pc_ok (fs_file s') pc' \<Longrightarrow>
   step_effect n pc s pc' s'"
  by (simp add: step_effect_def step_pre_def)

text \<open>A piece that is complete is not owed any more.\<close>

lemma got_all: "got f c (chunk_length c) \<Longrightarrow> inside x c \<Longrightarrow> f x \<noteq> None"
  by (auto simp: got_def filled_def inside_def chunk_length_def)

lemma effect_complete:
  assumes "step_pre n pc s" "owed pc = [c]" "uncredited pc = 0" "fs_plan s' = fs_plan s"
    "file_grows (fs_file s) (fs_file s')" "owed pc' = []" "uncredited pc' = chunk_length c"
    "pc_ok (fs_file s') pc'" "got (fs_file s') c (chunk_length c)"
  shows "step_effect n pc s pc' s'"
  using assms got_all[OF assms(9)] by (auto simp: step_effect_def step_pre_def)

lemma finish_chunk_effect:
  assumes "step_pre n pc s" "owed pc = [c]" "uncredited pc = 0" "fs_plan s' = fs_plan s"
    "file_grows (fs_file s) (fs_file s')" "got (fs_file s') c received"
  shows "step_effect n pc s (fst (finish_chunk c received oc d)) s'"
proof (cases "oc = '''' \<and> received = chunk_length c")
  case True
  with assms show ?thesis by (intro effect_complete[where c = c]) (auto simp: finish_chunk_def)
next
  case False
  with assms show ?thesis by (intro effect_plain) (auto simp: finish_chunk_def)
qed

lemma next_turn_effect:
  assumes "step_pre n pc s" "owed pc = [c]" "uncredited pc = 0"
    "cp_pending (fs_plan s') = cp_pending (fs_plan s)"
    "cp_contributions (fs_plan s') = cp_contributions (fs_plan s)"
    "file_grows (fs_file s) (fs_file s')" "got (fs_file s') c received"
  shows "step_effect n pc s (w_pc (next_turn k c received err w s'')) s'"
proof -
  obtain turn d where t: "read_end err (piece_ended k s'') (w_attempt w) = (turn, d)" by fastforce
  have mid: "step_effect n pc s (fst (finish_chunk c received oc d)) s'" for oc
  proof (cases "oc = '''' \<and> received = chunk_length c")
    case True
    with assms got_all[of "fs_file s'" c] show ?thesis
      by (auto simp: step_effect_def step_pre_def finish_chunk_def)
  next
    case False
    with assms show ?thesis by (intro effect_plain) (auto simp: finish_chunk_def)
  qed
  show ?thesis
  proof (cases turn)
    case ReadOn
    with t assms show ?thesis by (intro effect_plain) (auto simp: next_turn_def)
  next
    case (ReadDone oc)
    with t mid[of oc] show ?thesis by (simp add: next_turn_def goto_with_def)
  qed
qed

lemma got_more:
  assumes "got f c received" "int (length data) \<le> chunk_length c - received"
  shows "got (write_at (c_start c + received) data f) c (received + int (length data)) \<and>
    got (write_at (c_start c + received) data f) c received"
  using assms by (auto simp: got_def filled_def write_at_def)

lemma cancel_piece_sel [simp]:
  "cp_pending (cancel_piece k e p) = cp_pending p"
  "cp_contributions (cancel_piece k e p) = cp_contributions p"
  "cp_failed (cancel_piece k e p) = cp_failed p"
  "cp_changed (cancel_piece k e p) = cp_changed p"
  by (simp_all add: cancel_piece_def)

definition same_pieces :: "chunkPlan \<Rightarrow> chunkPlan \<Rightarrow> bool" where
  "same_pieces p p' \<longleftrightarrow>
     cp_pending p' = cp_pending p \<and> cp_contributions p' = cp_contributions p \<and>
     cp_failed p' = cp_failed p \<and> cp_slow p \<subseteq> cp_slow p'"

lemma same_pieces_trans: "same_pieces p q \<Longrightarrow> same_pieces q r \<Longrightarrow> same_pieces p r"
  by (auto simp: same_pieces_def)

lemma same_pieces_refl [simp]: "same_pieces p p"
  by (simp add: same_pieces_def)

lemma same_pieces_cancel: "same_pieces p (cancel_piece k e p)"
  by (auto simp: same_pieces_def cancel_piece_def)

lemma demoteLaggards_same: "same_pieces p (snd (demoteLaggards self now order p))"
proof (induction self now order p rule: demoteLaggards.induct)
  case (2 self now k order p)
  then show ?case
    by (auto split: option.splits prod.splits intro: same_pieces_trans[OF same_pieces_cancel])
qed simp

lemma tail_loop_same: "same_pieces p (snd (tail_loop self now retry order p))"
  by (induction self now retry order p rule: tail_loop.induct)
     (auto split: option.splits simp: Let_def same_pieces_cancel)

lemma demoteTailLaggard_same: "same_pieces p (snd (demoteTailLaggard self done' now order p))"
  by (simp add: demoteTailLaggard_def tail_loop_same)

lemma plan_sel [simp]:
  "cp_pending (plan_begin k c now p) = cp_pending p"
  "cp_contributions (plan_begin k c now p) = cp_contributions p"
  "cp_failed (plan_begin k c now p) = cp_failed p"
  "cp_slow (plan_begin k c now p) = cp_slow p"
  "cp_pending (plan_progress k n p) = cp_pending p"
  "cp_contributions (plan_progress k n p) = cp_contributions p"
  "cp_failed (plan_progress k n p) = cp_failed p"
  "cp_slow (plan_progress k n p) = cp_slow p"
  "cp_pending (plan_end k p) = cp_pending p"
  "cp_contributions (plan_end k p) = cp_contributions p"
  "cp_failed (plan_end k p) = cp_failed p"
  "cp_slow (plan_end k p) = cp_slow p"
  "cp_pending (plan_complete p) = cp_pending p"
  "cp_contributions (plan_complete p) = cp_contributions p"
  "cp_failed (plan_complete p) = cp_failed p"
  "cp_slow (plan_complete p) = cp_slow p"
  "cp_pending (plan_credit k n p) = cp_pending p"
  "cp_contributions (plan_credit k n p) = bump k n (cp_contributions p)"
  "cp_failed (plan_credit k n p) = cp_failed p"
  "cp_slow (plan_credit k n p) = cp_slow p"
  "cp_pending (plan_push c p) = cp_pending p @ [c]"
  "cp_contributions (plan_push c p) = cp_contributions p"
  "cp_failed (plan_push c p) = cp_failed p"
  "cp_slow (plan_push c p) = cp_slow p"
  "cp_pending (markFailed k oc d p) = cp_pending p"
  "cp_contributions (markFailed k oc d p) = cp_contributions p"
  "cp_failed (markFailed k oc d p) = insert k (cp_failed p)"
  "cp_slow (markFailed k oc d p) = cp_slow p"
  by (simp_all add: plan_begin_def plan_progress_def plan_end_def plan_complete_def plan_credit_def
      plan_push_def notifyLocked_def markFailed_def Let_def split: option.split)

lemma upd_plan_sel [simp]:
  "fs_plan (upd_plan f s) = f (fs_plan s)" "fs_file (upd_plan f s) = fs_file s"
  "fs_ended (upd_plan f s) = fs_ended s" "fs_now (upd_plan f s) = fs_now s"
  "fs_upstreams (upd_plan f s) = fs_upstreams s" "fs_tracker (upd_plan f s) = fs_tracker s"
  by (simp_all add: upd_plan_def)

lemma goto_sel [simp]: "w_pc (goto pc w) = pc" "w_pc (goto_with r w) = fst r"
  by (simp_all add: goto_def goto_with_def)

lemma open_step_effect:
  assumes "step_pre n (Opening c) s"
  shows "step_effect n (Opening c) s (w_pc (open_step env ch k c w)) s"
proof -
  obtain r oc d t where o: "engine_open (ce_api env) (ce_upstream env k @ snd (sp_key (ce_spec env)))
      (ch_open ch) (w_attempt w) = ((r, oc, d), t)"
    by (metis prod_cases3 surj_pair)
  note oc = engine_open_cases[OF o]
  from assms have g: "got (fs_file s) c 0"
    by (auto simp: step_pre_def chunk_valid_def got_def filled_def chunk_length_def)
  show ?thesis
    using assms g oc
    by (intro effect_plain) (auto simp: open_step_def o check_response_def split: option.splits)
qed

lemma body_step_effect:
  assumes pre: "step_pre n (Reading c received) s"
    and step: "body_step ch k c received w s = Some (w', s')"
  shows "step_effect n (Reading c received) s (w_pc w') s'"
proof -
  from pre have g: "got (fs_file s) c received" and v: "chunk_valid n c"
    by (auto simp: step_pre_def)
  have fin: "step_effect n (Reading c received) s (fst (finish_chunk c received oc d)) s" for oc d
    by (rule finish_chunk_effect[OF pre]) (use g in auto)
  show ?thesis
  proof (cases "ch_body ch")
    case BodyContext
    with step fin show ?thesis by (auto simp: body_step_def split: if_splits)
  next
    case StallTimer
    with step fin show ?thesis by (auto simp: body_step_def split: prod.splits)
  next
    case (BodyPart data err fails)
    obtain out stop d where rw: "read_write (chunk_length c) received data fails (w_attempt w) = (out, stop, d)"
      by (metis prod_cases3)
    have "0 \<le> chunk_length c" "received \<le> chunk_length c"
      using g by (auto simp: got_def)
    with read_write_bounds[OF rw] v have out: "int (length out) \<le> chunk_length c - received"
      by (auto simp: chunk_valid_def chunk_length_def)
    note more = got_more[OF g out]
    let ?s = "s\<lparr>fs_file := write_at (c_start c + received) out (fs_file s)\<rparr>"
    consider (stop) stop | (none) "\<not> stop" "out = ''''" | (some) "\<not> stop" "out \<noteq> ''''" by blast
    then show ?thesis
    proof cases
      case stop
      with step BodyPart rw have "s' = ?s" "w_pc w' = fst (finish_chunk c received OutcomeNetwork d)"
        by (auto simp: body_step_def Let_def)
      then show ?thesis
        using more by (auto intro!: finish_chunk_effect[OF pre])
    next
      case none
      with step BodyPart rw have "s' = ?s" "w' = next_turn k c received err (w\<lparr>w_attempt := d\<rparr>) ?s"
        by (auto simp: body_step_def Let_def)
      then show ?thesis
        using more by (auto intro!: next_turn_effect[OF pre])
    next
      case some
      with step BodyPart rw have "s' = ?s" "w_pc w' = Counting c received (int (length out)) err"
        by (auto simp: body_step_def Let_def)
      then show ?thesis
        using more some g by (intro effect_plain[OF pre]) (auto simp: got_def)
    qed
  qed
qed

lemma rest_cover:
  assumes "got f c received" "inside x c"
  shows "hits x (rest c received) = 1 \<or> hits x (rest c received) = 0 \<and> f x \<noteq> None"
  using assms by (auto simp: rest_def inside_def got_def filled_def chunk_length_def)

lemma rest_lengths:
  "received \<le> chunk_length c \<Longrightarrow> lengths (rest c received) = chunk_length c - received"
  by (auto simp: rest_def chunk_length_def)

lemma rest_valid: "chunk_valid n c \<Longrightarrow> 0 \<le> received \<Longrightarrow> \<forall>d \<in> set (rest c received). chunk_valid n d"
  by (auto simp: rest_def chunk_valid_def chunk_length_def)

lemma rest_outside: "\<not> inside x c \<Longrightarrow> 0 \<le> received \<Longrightarrow> hits x (rest c received) = 0"
  by (auto simp: rest_def inside_def)

text \<open>A slow worker keeps what it has written and gives the rest back.\<close>

lemma slow_effect:
  assumes pre: "step_pre n (Ended c received oc) s" and oc: "oc \<noteq> ''''"
  shows "step_effect n (Ended c received oc) s (SlowCredit c received) s"
proof -
  from pre oc have g: "got (fs_file s) c received" and v: "chunk_valid n c"
    by (auto simp: step_pre_def)
  then have "received \<le> chunk_length c" "0 \<le> received" by (auto simp: got_def)
  with pre oc g v rest_lengths[of received c] rest_valid[OF v, of received] show ?thesis
    by (auto simp: step_effect_def step_pre_def
        dest: rest_cover[OF g] rest_outside[of _ c received])
qed

lemma step_effect_ok:
  assumes pre: "step_pre n (w_pc w) s" and step: "wstep env ch k w s = Some (w', s')"
  shows "step_effect n (w_pc w) s (w_pc w') s'"
proof (cases "w_pc w")
  case Pop
  with pre step show ?thesis
    by (cases "cp_pending (fs_plan s)" rule: rev_cases)
      (auto simp: wstep_def plan_pop_def step_effect_def step_pre_def)
next
  case Tail
  obtain d r p where t: "demoteTailLaggard k (w_completed w) (fs_now s) (ch_order ch) (fs_plan s) = ((d, r), p)"
    by (metis surj_pair)
  from demoteTailLaggard_same[of "fs_plan s" k "w_completed w" "fs_now s" "ch_order ch"] t
  have "same_pieces (fs_plan s) p" by simp
  with pre step Tail t show ?thesis
    by (intro effect_plain) (auto simp: wstep_def same_pieces_def Let_def split: if_splits)
next
  case Judging
  obtain ks p where t: "demoteLaggards k (fs_now s) (ch_order ch) (fs_plan s) = (ks, p)" by fastforce
  from demoteLaggards_same[of "fs_plan s" k "fs_now s" "ch_order ch"] t
  have "same_pieces (fs_plan s) p" by simp
  with pre step Judging t show ?thesis
    by (intro effect_plain) (auto simp: wstep_def same_pieces_def)
next
  case (Opening c)
  with pre step show ?thesis by (auto simp: wstep_def open_step_effect)
next
  case (Reading c received)
  with pre step show ?thesis by (auto simp: wstep_def body_step_effect)
next
  case (Noting c received m err)
  with pre step show ?thesis
    by (auto simp: wstep_def Let_def step_pre_def intro!: next_turn_effect)
next
  case (Ended c received oc)
  show ?thesis
  proof (cases "oc = ''''")
    case True
    with Ended pre step show ?thesis by (auto simp: wstep_def step_effect_def step_pre_def go_map)
  next
    case False
    with Ended pre have "step_effect n (Ended c received oc) s (FailPush c received oc) s"
      by (intro effect_plain) (auto simp: step_pre_def)
    with False Ended pre step slow_effect[of n c received oc s] show ?thesis
      by (cases "plan_isSlow k (fs_plan s) \<and> \<not> fs_ended s") (auto simp: wstep_def)
  qed
next
  case (Demoting ds)
  with pre step show ?thesis by (cases ds) (auto simp: wstep_def intro!: effect_plain)
next
  case (SlowCredit c received)
  with pre step show ?thesis by (auto simp: wstep_def step_effect_def step_pre_def go_map)
next
  case (SlowPush c received)
  with pre step show ?thesis by (auto simp: wstep_def step_effect_def step_pre_def rest_def split: if_splits)
next
  case (FailPush c received oc)
  with pre step show ?thesis by (auto simp: wstep_def step_effect_def step_pre_def)
qed (use pre step in \<open>auto simp: wstep_def wait_step_def Let_def step_pre_def
      intro!: effect_plain split: if_splits wake.splits\<close>)

section \<open>The pieces in every interleaving\<close>

definition wsum :: "(wpc \<Rightarrow> int) \<Rightarrow> (string, worker) go_map \<Rightarrow> int" where
  "wsum f ws = sum_list (map (\<lambda>(k, w). f (w_pc w)) ws)"

lemma wsum_update:
  "map_ok ws \<Longrightarrow> map_of ws k = Some w \<Longrightarrow>
     wsum f (AList.update k w' ws) = wsum f ws - f (w_pc w) + f (w_pc w')"
proof (induction ws)
  case (Cons p ws)
  obtain k0 w0 where p: "p = (k0, w0)" by fastforce
  with Cons show ?case by (cases "k0 = k") (auto simp: wsum_def)
qed simp

definition workers_ok :: "int \<Rightarrow> chunkSys \<Rightarrow> bool" where
  "workers_ok n sys \<longleftrightarrow>
     (\<forall>k w. map_of (fst sys) k = Some w \<longrightarrow>
        pc_ok (fs_file (snd sys)) (w_pc w) \<and> (\<forall>c \<in> set (owed (w_pc w)). chunk_valid n c))"

text \<open>Every byte of the file is in at most one piece that is pending or owed, and in one of them unless it
  has been written; the bytes that are credited, pending, owed or about to be credited are those of
  the file.\<close>

definition chunk_inv :: "int \<Rightarrow> chunkSys \<Rightarrow> bool" where
  "chunk_inv n sys \<longleftrightarrow>
     (let ws = fst sys; s = snd sys; p = fs_plan s in
      map_ok ws \<and> map_ok (cp_contributions p) \<and> workers_ok n sys \<and>
      (\<forall>c \<in> set (cp_pending p). chunk_valid n c) \<and>
      (\<forall>x. hits x (cp_pending p) + wsum (\<lambda>pc. hits x (owed pc)) ws \<le> 1 \<and>
           (0 \<le> x \<and> x < n \<and> hits x (cp_pending p) + wsum (\<lambda>pc. hits x (owed pc)) ws = 0 \<longrightarrow>
              fs_file s x \<noteq> None)) \<and>
      counters (cp_contributions p) + lengths (cp_pending p) +
        wsum (\<lambda>pc. lengths (owed pc) + uncredited pc) ws = n)"

lemma chunk_inv_work:
  assumes inv: "chunk_inv n (ws, s)" and w: "map_of ws k = Some w"
    and step: "wstep env ch k w s = Some (w', s')"
  shows "chunk_inv n (AList.update k w' ws, s')"
proof -
  from inv w have pre: "step_pre n (w_pc w) s"
    by (auto simp: chunk_inv_def step_pre_def workers_ok_def Let_def)
  note eff = step_effect_ok[OF pre step]
  from inv have ok: "map_ok ws" by (simp add: chunk_inv_def Let_def)
  have grows: "file_grows (fs_file s) (fs_file s')" using eff by (simp add: step_effect_def Let_def)
  have workers: "workers_ok n (AList.update k w' ws, s')"
    using inv eff pc_ok_grows[OF _ grows]
    by (auto simp: workers_ok_def chunk_inv_def step_effect_def Let_def update_conv')
  have hit: "hits x (cp_pending (fs_plan s')) + wsum (\<lambda>pc. hits x (owed pc)) (AList.update k w' ws) \<le> 1 \<and>
      (0 \<le> x \<and> x < n \<and>
       hits x (cp_pending (fs_plan s')) + wsum (\<lambda>pc. hits x (owed pc)) (AList.update k w' ws) = 0 \<longrightarrow>
         fs_file s' x \<noteq> None)" for x
  proof -
    have old: "hits x (cp_pending (fs_plan s)) + wsum (\<lambda>pc. hits x (owed pc)) ws \<le> 1"
      "0 \<le> x \<and> x < n \<and> hits x (cp_pending (fs_plan s)) + wsum (\<lambda>pc. hits x (owed pc)) ws = 0 \<Longrightarrow>
         fs_file s x \<noteq> None"
      using inv by (auto simp: chunk_inv_def Let_def)
    have new: "hits x (cp_pending (fs_plan s')) + hits x (owed (w_pc w')) \<le>
        hits x (cp_pending (fs_plan s)) + hits x (owed (w_pc w))"
      "hits x (cp_pending (fs_plan s')) + hits x (owed (w_pc w')) <
        hits x (cp_pending (fs_plan s)) + hits x (owed (w_pc w)) \<Longrightarrow> fs_file s' x \<noteq> None"
      using eff by (auto simp: step_effect_def Let_def)
    have "fs_file s x \<noteq> None \<Longrightarrow> fs_file s' x \<noteq> None" using grows by (simp add: file_grows_def)
    then show ?thesis
      using old new wsum_update[OF ok w, of "\<lambda>pc. hits x (owed pc)" w'] by linarith
  qed
  have acc: "counters (cp_contributions (fs_plan s')) + lengths (cp_pending (fs_plan s')) +
      wsum (\<lambda>pc. lengths (owed pc) + uncredited pc) (AList.update k w' ws) = n"
    using inv eff wsum_update[OF ok w, of "\<lambda>pc. lengths (owed pc) + uncredited pc" w']
    by (simp add: chunk_inv_def step_effect_def Let_def)
  show ?thesis
    using workers hit acc eff ok by (simp add: chunk_inv_def step_effect_def Let_def)
qed

lemma chunk_inv_step:
  assumes "chunk_inv n sys" "sys_step env e sys = Some sys'"
  shows "chunk_inv n sys'"
proof (cases e)
  case (Work k ch)
  with assms show ?thesis
    by (cases sys) (auto simp: sys_step_def chunk_inv_work split: option.splits)
qed (use assms in \<open>auto simp: sys_step_def chunk_inv_def workers_ok_def Let_def split: if_splits\<close>)

lemma chunk_inv_run: "chunk_inv n sys \<Longrightarrow> sys_run env es sys = Some sys' \<Longrightarrow> chunk_inv n sys'"
  by (induction es arbitrary: sys) (auto split: option.splits dest: chunk_inv_step)

text \<open>Between two rounds no worker owns anything.\<close>

abbreviation plan_inv :: "int \<Rightarrow> fetchState \<Rightarrow> bool" where
  "plan_inv n s \<equiv> chunk_inv n ([], s)"

lemma wsum_Nil [simp]: "wsum f [] = 0"
  by (simp add: wsum_def)

lemma wsum_zero: "(\<And>k w. (k, w) \<in> set ws \<Longrightarrow> f (w_pc w) = 0) \<Longrightarrow> wsum f ws = 0"
proof (induction ws)
  case (Cons p ws)
  obtain k w where p: "p = (k, w)" by fastforce
  have "wsum f ws = 0" by (rule Cons.IH) (use Cons.prems in auto)
  moreover have "f (w_pc w) = 0" by (rule Cons.prems) (use p in auto)
  ultimately show ?case using p by (simp add: wsum_def)
qed simp

definition idle :: "(string, worker) go_map \<Rightarrow> bool" where
  "idle ws \<longleftrightarrow> (\<forall>(k, w) \<in> set ws. owed (w_pc w) = [] \<and> uncredited (w_pc w) = 0 \<and> (\<forall>f. pc_ok f (w_pc w)))"

lemma wsum_idle:
  assumes "idle ws" "\<And>pc. owed pc = [] \<Longrightarrow> uncredited pc = 0 \<Longrightarrow> f pc = 0"
  shows "wsum f ws = 0"
  by (rule wsum_zero) (use assms in \<open>auto simp: idle_def\<close>)

lemma idle_inv: "idle ws \<Longrightarrow> map_ok ws \<Longrightarrow> chunk_inv n (ws, s) \<longleftrightarrow> plan_inv n s"
  using map_of_SomeD
  by (fastforce simp: chunk_inv_def workers_ok_def Let_def wsum_idle idle_def)

lemma all_done_idle: "all_done ws \<Longrightarrow> idle ws"
  by (auto simp: all_done_def idle_def list_all_iff)

lemma start_workers_idle: "idle (start_workers m us)"
  by (auto simp: idle_def start_workers_def new_worker_def)

lemma sys_run_map_ok: "sys_run env es sys = Some sys' \<Longrightarrow> map_ok (fst sys) \<Longrightarrow> map_ok (fst sys')"
  by (induction es arbitrary: sys)
     (fastforce simp: sys_step_def split: option.splits sched.splits if_splits)+

definition keys_distinct :: "Upstream list \<Rightarrow> bool" where
  "keys_distinct us \<longleftrightarrow> distinct (map uKey us)"

lemma start_workers_ok: "keys_distinct us \<Longrightarrow> map_ok (start_workers m us)"
  by (auto simp: map_ok_def start_workers_def keys_distinct_def comp_def take_map[symmetric])

lemma rangeSources_distinct: "keys_distinct ups \<Longrightarrow> keys_distinct (rangeSources ups p)"
  by (auto simp: rangeSources_def keys_distinct_def Let_def distinct_map_filter)

lemma run_round_inv:
  assumes "plan_inv n s" "keys_distinct (fs_upstreams s)" "run_round env m es s = Some s'"
  shows "plan_inv n s'"
proof -
  let ?ws = "start_workers m (round_sources s)"
  have ok: "map_ok ?ws"
    using assms(2) by (intro start_workers_ok) (simp add: round_sources_def rangeSources_distinct)
  from assms(3) obtain ws where run: "sys_run env es (?ws, s) = Some (ws, s')" and fin: "all_done ws"
    by (auto simp: run_round_def split: option.splits prod.splits if_splits)
  have "chunk_inv n (?ws, s)" using assms(1) ok start_workers_idle by (simp add: idle_inv)
  from chunk_inv_run[OF this run] sys_run_map_ok[OF run] ok all_done_idle[OF fin]
  show ?thesis by (simp add: idle_inv)
qed

section \<open>All rounds of a file\<close>

lemma split_key_Some: "split_key k us = Some (a, u, b) \<Longrightarrow> us = a @ u # b \<and> uKey u = k"
  by (induction us arbitrary: a) (auto split: if_splits)

lemma demoteUpstream_set [simp]: "set (demoteUpstream k us) = set us"
  by (auto simp: demoteUpstream_def dest!: split_key_Some split: option.split)

lemma distinct_to_end: "distinct (xs @ ys @ [y]) \<longleftrightarrow> distinct (xs @ y # ys)"
  by auto

lemma demoteUpstream_distinct [simp]: "keys_distinct (demoteUpstream k us) = keys_distinct us"
proof (cases "split_key k us")
  case (Some p)
  obtain a u b where p: "p = (a, u, b)" by (metis prod_cases3)
  with Some split_key_Some have us: "us = a @ u # b" by blast
  show ?thesis
    using distinct_to_end[of "map uKey a" "map uKey b" "uKey u"] Some p us
    by (simp add: demoteUpstream_def keys_distinct_def del: distinct_append)
qed (simp add: demoteUpstream_def)

text \<open>The upstreams that another file leaves behind have distinct keys, as those of a catalog have.\<close>

fun sched_ok :: "sched \<Rightarrow> bool" where
  "sched_ok (Outside ups tr) = keys_distinct ups"
| "sched_ok e = True"

lemma body_step_upstreams: "body_step ch k c r w s = Some (w', s') \<Longrightarrow> fs_upstreams s' = fs_upstreams s"
  by (auto simp: body_step_def Let_def split: read_event.splits if_splits prod.splits)

lemma wait_step_state: "wait_step ch t g w s = Some (w', s') \<Longrightarrow> s' = s"
  by (auto simp: wait_step_def split: wake.splits if_splits)

lemma wstep_distinct:
  assumes "wstep env ch k w s = Some (w', s')"
  shows "keys_distinct (fs_upstreams s') = keys_distinct (fs_upstreams s)"
proof (cases "w_pc w")
  case (Demoting ds)
  with assms show ?thesis by (cases ds) (auto simp: wstep_def)
qed (use assms in \<open>auto simp: wstep_def Let_def body_step_upstreams dest: wait_step_state
      split: option.splits if_splits prod.splits\<close>)

lemma sys_step_distinct:
  "sys_step env e sys = Some sys' \<Longrightarrow> sched_ok e \<Longrightarrow> keys_distinct (fs_upstreams (snd sys)) \<Longrightarrow>
     keys_distinct (fs_upstreams (snd sys'))"
  by (cases e) (auto simp: sys_step_def dest: wstep_distinct split: option.splits if_splits)

lemma sys_run_distinct:
  "sys_run env es sys = Some sys' \<Longrightarrow> list_all sched_ok es \<Longrightarrow> keys_distinct (fs_upstreams (snd sys)) \<Longrightarrow>
     keys_distinct (fs_upstreams (snd sys'))"
  by (induction es arbitrary: sys) (auto split: option.splits dest: sys_step_distinct)

lemma run_round_distinct:
  "run_round env m es s = Some s' \<Longrightarrow> list_all sched_ok es \<Longrightarrow> keys_distinct (fs_upstreams s) \<Longrightarrow>
     keys_distinct (fs_upstreams s')"
  by (auto simp: run_round_def dest: sys_run_distinct split: option.splits prod.splits if_splits)

lemma run_rounds_inv:
  "plan_inv n s \<Longrightarrow> keys_distinct (fs_upstreams s) \<Longrightarrow> list_all (list_all sched_ok) ess \<Longrightarrow>
   run_rounds env m ess s = RoundsOver s' \<Longrightarrow> plan_inv n s' \<and> \<not> rounds_go_on s'"
proof (induction ess arbitrary: s)
  case Nil
  then show ?case by (auto split: if_splits)
next
  case (Cons es ess)
  show ?case
  proof (cases "rounds_go_on s")
    case True
    with Cons.prems obtain t where t: "run_round env m es s = Some t"
      and rest: "run_rounds env m ess t = RoundsOver s'" by (auto split: option.splits)
    from Cons.IH[OF run_round_inv[OF Cons.prems(1,2) t] run_round_distinct[OF t] _ rest] Cons.prems
    show ?thesis by simp
  qed (use Cons.prems in auto)
qed

text \<open>The pieces of a file are a partition of it.\<close>

lemma split_from_props:
  assumes "0 < step" "0 \<le> start" "len \<le> start + int fuel * step"
  shows "(\<forall>c \<in> set (split_from fuel start step len). chunk_valid len c \<and> start \<le> c_start c \<and>
            chunk_length c \<le> step) \<and>
    (\<forall>x. hits x (split_from fuel start step len) = (if start \<le> x \<and> x < len then 1 else 0)) \<and>
    lengths (split_from fuel start step len) = max 0 (len - start)"
  using assms
proof (induction fuel arbitrary: start)
  case (Suc fuel)
  show ?case
  proof (cases "start < len")
    case True
    define stop where "stop = (if len \<le> start + step - 1 then len - 1 else start + step - 1)"
    have IH: "(\<forall>c \<in> set (split_from fuel (start + step) step len). chunk_valid len c \<and>
          start + step \<le> c_start c \<and> chunk_length c \<le> step) \<and>
        (\<forall>x. hits x (split_from fuel (start + step) step len) =
          (if start + step \<le> x \<and> x < len then 1 else 0)) \<and>
        lengths (split_from fuel (start + step) step len) = max 0 (len - (start + step))"
      using Suc.prems by (intro Suc.IH) (auto simp: algebra_simps)
    have unfold: "split_from (Suc fuel) start step len =
        \<lparr>c_start = start, c_end = stop\<rparr> # split_from fuel (start + step) step len"
      using True by (simp add: stop_def Let_def)
    have one: "hits x (split_from (Suc fuel) start step len) = (if start \<le> x \<and> x < len then 1 else 0)" for x
      unfolding unfold using IH True Suc.prems(1) by (auto simp: inside_def stop_def)
    have len: "lengths (split_from (Suc fuel) start step len) = max 0 (len - start)"
      unfolding unfold using IH True Suc.prems(1) by (auto simp: chunk_length_def stop_def)
    have valid: "\<forall>c \<in> set (split_from (Suc fuel) start step len). chunk_valid len c \<and> start \<le> c_start c \<and>
        chunk_length c \<le> step"
      unfolding unfold using IH True Suc.prems(1,2)
      by (auto simp: chunk_valid_def chunk_length_def stop_def)
    show ?thesis using one len valid by simp
  qed (use Suc.prems in auto)
qed auto

lemma hits_rev [simp]: "hits x (rev cs) = hits x cs"
  by (simp add: hits_def rev_map[symmetric])

lemma lengths_rev [simp]: "lengths (rev cs) = lengths cs"
  by (simp add: lengths_def rev_map[symmetric])

lemma split_fuel: "0 < step \<Longrightarrow> len \<le> int (nat len) * step" for step len :: int
  by (cases "0 \<le> len") (auto simp: mult_le_cancel_left1)

lemma split_file_props:
  assumes "0 < step"
  shows "(\<forall>c \<in> set (split_file step len). chunk_valid len c \<and> chunk_length c \<le> step) \<and>
    (\<forall>x. hits x (split_file step len) = (if 0 \<le> x \<and> x < len then 1 else 0)) \<and>
    lengths (split_file step len) = max 0 len"
  using split_from_props[of step 0 len "nat len"] split_fuel[OF assms, of len] assms
  by (auto simp: split_file_def)

section \<open>Honest sources\<close>

text \<open>What was written is what the sources sent: if every part of a body that arrives is the content of
  the file at that place, the file never holds anything else.\<close>

fun part_honest :: "(int \<Rightarrow> char) \<Rightarrow> wpc \<Rightarrow> read_event \<Rightarrow> bool" where
  "part_honest content (Reading c received) (BodyPart data err fails) =
     (\<forall>i < length data. data ! i = content (c_start c + received + int i))"
| "part_honest content pc ev = True"

definition honest_step :: "(int \<Rightarrow> char) \<Rightarrow> sched \<Rightarrow> chunkSys \<Rightarrow> bool" where
  "honest_step content e sys \<longleftrightarrow>
     (case e of
        Work k ch \<Rightarrow>
          (case map_of (fst sys) k of None \<Rightarrow> True | Some w \<Rightarrow> part_honest content (w_pc w) (ch_body ch))
      | _ \<Rightarrow> True)"

fun honest_run :: "chunk_env \<Rightarrow> (int \<Rightarrow> char) \<Rightarrow> sched list \<Rightarrow> chunkSys \<Rightarrow> bool" where
  "honest_run env content [] sys = True"
| "honest_run env content (e # es) sys =
     (honest_step content e sys \<and>
      (case sys_step env e sys of None \<Rightarrow> True | Some sys' \<Rightarrow> honest_run env content es sys'))"

fun honest_rounds :: "chunk_env \<Rightarrow> (int \<Rightarrow> char) \<Rightarrow> int \<Rightarrow> sched list list \<Rightarrow> fetchState \<Rightarrow> bool" where
  "honest_rounds env content m [] s = True"
| "honest_rounds env content m (es # ess) s =
     (honest_run env content es (start_workers m (round_sources s), s) \<and>
      (case run_round env m es s of None \<Rightarrow> True | Some s' \<Rightarrow> honest_rounds env content m ess s'))"

definition file_honest :: "(int \<Rightarrow> char) \<Rightarrow> fetchState \<Rightarrow> bool" where
  "file_honest content s \<longleftrightarrow> (\<forall>x b. fs_file s x = Some b \<longrightarrow> b = content x)"

lemma write_honest:
  assumes "\<forall>i < length out. out ! i = content (off + int i)" "\<forall>x b. f x = Some b \<longrightarrow> b = content x"
  shows "\<forall>x b. write_at off out f x = Some b \<longrightarrow> b = content x"
proof (intro allI impI)
  fix x b assume b: "write_at off out f x = Some b"
  show "b = content x"
  proof (cases "off \<le> x \<and> x < off + int (length out)")
    case True
    then have "nat (x - off) < length out" "off + int (nat (x - off)) = x" by auto
    with assms(1) b True show ?thesis by (metis (no_types, lifting) option.inject write_at_def)
  qed (use assms(2) b in \<open>auto simp: write_at_def\<close>)
qed

lemma read_write_out: "read_write expected received data fails d = (out, stop, d') \<Longrightarrow> \<exists>n. out = take n data"
  by (auto simp: read_write_def split: if_splits option.splits intro: exI[of _ 0] exI[of _ "length data"])

lemma body_step_honest:
  assumes "body_step ch k c received w s = Some (w', s')" "file_honest content s"
    "part_honest content (Reading c received) (ch_body ch)"
  shows "file_honest content s'"
proof (cases "ch_body ch")
  case (BodyPart data err fails)
  obtain out stop d where rw: "read_write (chunk_length c) received data fails (w_attempt w) = (out, stop, d)"
    by (metis prod_cases3)
  from assms(1) BodyPart rw have s': "s' = s\<lparr>fs_file := write_at (c_start c + received) out (fs_file s)\<rparr>"
    by (auto simp: body_step_def Let_def split: if_splits)
  from read_write_out[OF rw] assms(3) BodyPart
  have "\<forall>i < length out. out ! i = content (c_start c + received + int i)" by auto
  note w = write_honest[OF this assms(2)[unfolded file_honest_def]]
  have "fs_file s' = write_at (c_start c + received) out (fs_file s)" by (simp add: s')
  with w show ?thesis by (simp only: file_honest_def)
qed (use assms in \<open>auto simp: body_step_def Let_def split: if_splits prod.splits\<close>)

lemma wstep_honest:
  assumes "wstep env ch k w s = Some (w', s')" "file_honest content s"
    "part_honest content (w_pc w) (ch_body ch)"
  shows "file_honest content s'"
proof (cases "w_pc w")
  case (Reading c received)
  with assms show ?thesis by (auto simp: wstep_def intro: body_step_honest)
next
  case (Demoting ds)
  with assms show ?thesis by (cases ds) (auto simp: wstep_def file_honest_def)
qed (use assms in \<open>auto simp: wstep_def Let_def file_honest_def dest: wait_step_state
      split: option.splits if_splits prod.splits\<close>)

lemma sys_step_honest:
  "sys_step env e sys = Some sys' \<Longrightarrow> honest_step content e sys \<Longrightarrow> file_honest content (snd sys) \<Longrightarrow>
     file_honest content (snd sys')"
proof (cases e)
  case (Work k ch)
  assume step: "sys_step env e sys = Some sys'" "honest_step content e sys" "file_honest content (snd sys)"
  from step Work obtain w w' s' where w: "map_of (fst sys) k = Some w"
    and wk: "wstep env ch k w (snd sys) = Some (w', s')" and sys': "snd sys' = s'"
    by (auto simp: sys_step_def split: option.splits)
  from step w Work have "part_honest content (w_pc w) (ch_body ch)" by (simp add: honest_step_def)
  from wstep_honest[OF wk step(3) this] sys' show ?thesis by simp
qed (auto simp: sys_step_def file_honest_def split: if_splits)

lemma sys_run_honest:
  "sys_run env es sys = Some sys' \<Longrightarrow> honest_run env content es sys \<Longrightarrow> file_honest content (snd sys) \<Longrightarrow>
     file_honest content (snd sys')"
  by (induction es arbitrary: sys) (auto split: option.splits dest: sys_step_honest)

lemma run_rounds_honest:
  "run_rounds env m ess s = RoundsOver s' \<Longrightarrow> honest_rounds env content m ess s \<Longrightarrow>
     file_honest content s \<Longrightarrow> file_honest content s'"
proof (induction ess arbitrary: s)
  case (Cons es ess)
  show ?case
  proof (cases "rounds_go_on s")
    case True
    with Cons.prems obtain t where t: "run_round env m es s = Some t"
      and rest: "run_rounds env m ess t = RoundsOver s'" by (auto split: option.splits)
    from t obtain ws where "sys_run env es (start_workers m (round_sources s), s) = Some (ws, t)"
      by (auto simp: run_round_def split: option.splits prod.splits if_splits)
    with sys_run_honest Cons.prems have "file_honest content t" by fastforce
    with Cons.IH[OF rest] Cons.prems t show ?thesis by simp
  qed (use Cons.prems in auto)
qed (auto split: if_splits)

end
