(* ===== verification/Relay_Rounds.thy ===== *)
theory Relay_Rounds
  imports Relay_Chunk
begin

text \<open>
  \<open>tryChunked\<close> of \<open>internal/relay/chunk.go\<close>: the whole of a chunked fetch, from the file that is opened
  and split to the digest that is checked. The lemmas show, for every interleaving of the workers in
  every round, that a fetch that reports success has written every byte of the file and credited
  each of them to exactly one source, that a round that leaves pieces behind has found a source that
  failed or was demoted, and that a demoted source that fails for good keeps the rounds going for
  ever.
\<close>

section \<open>A chunked fetch\<close>

text \<open>What the file system answers: \<open>None\<close> is success, otherwise the number of the Windows error if the
  cause has one.\<close>

record chunk_answers =
  ca_open :: "nat option option"
  ca_truncate :: "nat option option"
  ca_sync :: "nat option option"
  ca_read :: "nat option option"

definition file_content :: "int \<Rightarrow> (int \<Rightarrow> char option) \<Rightarrow> string" where
  "file_content n f = map (\<lambda>i. case f (int i) of None \<Rightarrow> CHR 0x00 | Some b \<Rightarrow> b) [0..<nat n]"

text \<open>\<open>verifyDigest\<close> with the diagnosis of a failed read.\<close>

definition verifyDigest ::
  "(string \<Rightarrow> string) \<Rightarrow> string \<Rightarrow> string option \<Rightarrow> nat option option \<Rightarrow> AttemptOutcome \<Rightarrow> bool \<times> AttemptOutcome" where
  "verifyDigest sha content digest readFails d =
     (case digest of
        None \<Rightarrow> (True, d)
      | Some expected \<Rightarrow>
          (case readFails of
             Some errno \<Rightarrow> (False, diagnoseAttempt ''filesystem_read'' ''verify'' 0 errno d)
           | None \<Rightarrow> (sha content = expected, d)))"

text \<open>The pieces cannot be blamed on one source: every source that contributed fails for this file.\<close>

definition fail_contributors :: "AttemptOutcome \<Rightarrow> chunkPlan \<Rightarrow> chunkPlan" where
  "fail_contributors d p =
     p\<lparr>cp_failed := cp_failed p \<union> fst ` set (cp_contributions p),
       cp_attempts := cp_attempts p @
         map (\<lambda>(k, n). d\<lparr>aSource := k, aOutcome := OutcomeChecksumMismatch\<rparr>) (cp_contributions p),
       cp_contributions := []\<rparr>"

definition reset_file :: "fileSpec \<Rightarrow> fetchState \<Rightarrow> fetchState" where
  "reset_file spec s = s\<lparr>fs_tracker := tracker_reset (sp_key spec) (fs_tracker s)\<rparr>"

text \<open>The end of \<open>tryChunked\<close>, once the rounds are over.\<close>

definition finish_chunked ::
  "chunk_answers \<Rightarrow> (string \<Rightarrow> string) \<Rightarrow> fileSpec \<Rightarrow> fetchState \<Rightarrow> bool \<times> fetchState" where
  "finish_chunked ans sha spec s =
     (if 0 < plan_remaining (fs_plan s) then (False, reset_file spec s)
      else case ca_sync ans of
        Some errno \<Rightarrow> (False, upd_plan (recordLocalFailure ''filesystem_sync'' ''sync'' errno) s)
      | None \<Rightarrow>
          let (ok, d) = verifyDigest sha (file_content (sp_size spec) (fs_file s)) (sp_digest spec) (ca_read ans)
                ((new_attempt '''')\<lparr>aFailureKind := ''checksum_mismatch'', aOperation := ''verify''\<rparr>)
          in if \<not> ok then (False, reset_file spec (upd_plan (fail_contributors d) s))
             else (True, s))"

definition push_pieces :: "int \<Rightarrow> int \<Rightarrow> chunkPlan \<Rightarrow> chunkPlan" where
  "push_pieces step n p = p\<lparr>cp_pending := rev (cp_pending p @ split_from (nat n) 0 step n)\<rparr>"

text \<open>\<open>None\<close>: the schedules do not run the rounds to their end.\<close>

definition tryChunked ::
  "Config \<Rightarrow> chunk_env \<Rightarrow> chunk_answers \<Rightarrow> (string \<Rightarrow> string) \<Rightarrow> sched list list \<Rightarrow> fetchState \<Rightarrow>
   (bool \<times> fetchState) option" where
  "tryChunked cfg env ans sha ess s =
     (let n = sp_size (ce_spec env) in
      if n < ChunkThreshold cfg \<or> n \<le> 0 then Some (False, s)
      else if length (round_sources s) < 2 then Some (False, s)
      else case ca_open ans of
        Some errno \<Rightarrow> Some (False, upd_plan (recordLocalFailure ''filesystem_open'' ''open'' errno) s)
      | None \<Rightarrow>
          let s1 = s\<lparr>fs_file := (\<lambda>x. None)\<rparr> in
          case ca_truncate ans of
            Some errno \<Rightarrow> Some (False, upd_plan (recordLocalFailure ''filesystem_truncate'' ''truncate'' errno) s1)
          | None \<Rightarrow>
              (case run_rounds env (MaxChunksPerFile cfg) ess (upd_plan (push_pieces (ChunkSize cfg) n) s1) of
                 RoundsOver s2 \<Rightarrow> Some (finish_chunked ans sha (ce_spec env) s2)
               | _ \<Rightarrow> None))"

section \<open>A fetch that succeeds is complete\<close>

lemma plan_inv_start:
  assumes "0 < step" "0 \<le> n" "cp_pending (fs_plan s) = []" "cp_contributions (fs_plan s) = []"
  shows "plan_inv n (upd_plan (push_pieces step n) s)"
  using split_file_props[OF assms(1), of n] assms
  by (auto simp: chunk_inv_def workers_ok_def push_pieces_def split_file_def)

lemma plan_inv_complete:
  assumes "plan_inv n s" "plan_remaining (fs_plan s) = 0"
  shows "filled (fs_file s) 0 n \<and> counters (cp_contributions (fs_plan s)) = n"
  using assms by (auto simp: chunk_inv_def plan_remaining_def Let_def filled_def)

lemma file_content_honest:
  assumes "filled f 0 n" "\<forall>x b. f x = Some b \<longrightarrow> b = content x"
  shows "file_content n f = map (\<lambda>i. content (int i)) [0..<nat n]"
proof -
  have "f (int i) = Some (content (int i))" if "i < nat n" for i
    using assms that by (metis (no_types, lifting) filled_def not_None_eq of_nat_0_le_iff zless_nat_eq_int_zless)
  then show ?thesis by (simp add: file_content_def)
qed

lemma tryChunked_complete_aux:
  assumes run: "tryChunked cfg env ans sha ess s = Some (True, s')"
    and cfg: "0 < ChunkSize cfg" and fresh: "fs_plan s = newChunkPlan"
    and ups: "keys_distinct (fs_upstreams s)" and sched: "list_all (list_all sched_ok) ess"
  shows "filled (fs_file s') 0 (sp_size (ce_spec env)) \<and>
    counters (cp_contributions (fs_plan s')) = sp_size (ce_spec env) \<and>
    (case sp_digest (ce_spec env) of
       None \<Rightarrow> True
     | Some d \<Rightarrow> sha (file_content (sp_size (ce_spec env)) (fs_file s')) = d) \<and>
    (honest_rounds env content (MaxChunksPerFile cfg) ess
        (upd_plan (push_pieces (ChunkSize cfg) (sp_size (ce_spec env))) (s\<lparr>fs_file := (\<lambda>x. None)\<rparr>)) \<longrightarrow>
       file_content (sp_size (ce_spec env)) (fs_file s') =
         map (\<lambda>i. content (int i)) [0..<nat (sp_size (ce_spec env))])"
proof -
  let ?n = "sp_size (ce_spec env)"
  let ?s = "upd_plan (push_pieces (ChunkSize cfg) ?n) (s\<lparr>fs_file := (\<lambda>x. None)\<rparr>)"
  from run obtain s2 where n: "0 < ?n"
    and rounds: "run_rounds env (MaxChunksPerFile cfg) ess ?s = RoundsOver s2"
    and fin: "finish_chunked ans sha (ce_spec env) s2 = (True, s')"
    by (auto simp: tryChunked_def Let_def split: if_splits option.splits rounds_result.splits)
  from fin have s2: "s2 = s'" "plan_remaining (fs_plan s') = 0"
    and digest: "fst (verifyDigest sha (file_content ?n (fs_file s')) (sp_digest (ce_spec env)) (ca_read ans)
      ((new_attempt '''')\<lparr>aFailureKind := ''checksum_mismatch'', aOperation := ''verify''\<rparr>))"
    by (auto simp: finish_chunked_def split: if_splits option.splits prod.splits)
  have "plan_inv ?n ?s"
    by (rule plan_inv_start) (use cfg n fresh in \<open>auto simp: newChunkPlan_def\<close>)
  from run_rounds_inv[OF this _ sched rounds] ups s2(1) have inv: "plan_inv ?n s'" by simp
  note complete = plan_inv_complete[OF inv s2(2)]
  have honest: "file_content ?n (fs_file s') = map (\<lambda>i. content (int i)) [0..<nat ?n]"
    if "honest_rounds env content (MaxChunksPerFile cfg) ess ?s"
  proof (rule file_content_honest)
    have "file_honest content ?s" by (simp add: file_honest_def)
    from run_rounds_honest[OF rounds that this] s2(1)
    show "\<forall>x b. fs_file s' x = Some b \<longrightarrow> b = content x" by (simp only: file_honest_def)
  qed (use complete in simp)
  show ?thesis
    using complete digest honest by (auto simp: verifyDigest_def split: option.splits)
qed

text \<open>C3: Whatever the interleaving of the workers, the demotions, the failures and the changes from
  outside: when a chunked fetch reports success, every byte of the file has been written, the bytes
  credited to the sources add up to the size of the file, the digest of the file is the one that was
  asked for, and if every part that the sources sent was the content of the file at its place, the
  file is that content.\<close>

theorem chunked_fetch_complete:
  "tryChunked cfg env ans sha ess s = Some (True, s') \<Longrightarrow> 0 < ChunkSize cfg \<Longrightarrow>
   fs_plan s = newChunkPlan \<Longrightarrow> keys_distinct (fs_upstreams s) \<Longrightarrow> list_all (list_all sched_ok) ess \<Longrightarrow>
   filled (fs_file s') 0 (sp_size (ce_spec env)) \<and>
   counters (cp_contributions (fs_plan s')) = sp_size (ce_spec env) \<and>
   (case sp_digest (ce_spec env) of
      None \<Rightarrow> True
    | Some d \<Rightarrow> sha (file_content (sp_size (ce_spec env)) (fs_file s')) = d) \<and>
   (honest_rounds env content (MaxChunksPerFile cfg) ess
       (upd_plan (push_pieces (ChunkSize cfg) (sp_size (ce_spec env))) (s\<lparr>fs_file := (\<lambda>x. None)\<rparr>)) \<longrightarrow>
      file_content (sp_size (ce_spec env)) (fs_file s') =
        map (\<lambda>i. content (int i)) [0..<nat (sp_size (ce_spec env))])"
  by (rule tryChunked_complete_aux)

section \<open>A round that leaves pieces behind\<close>

text \<open>The places of a worker that has found the stack empty.\<close>

fun emptied :: "wpc \<Rightarrow> bool" where
  "emptied Empty = True"
| "emptied Alone = True"
| "emptied Tail = True"
| "emptied WaitTimer = True"
| "emptied (TimedWait g) = True"
| "emptied WaitChange = True"
| "emptied (ChangeWait g) = True"
| "emptied Done = True"
| "emptied pc = False"

fun giving_up :: "wpc \<Rightarrow> bool" where
  "giving_up (FailDiscard r oc) = True"
| "giving_up (FailMark oc) = True"
| "giving_up pc = False"

fun demoted_at :: "wpc \<Rightarrow> bool" where
  "demoted_at (SlowCredit c r) = True"
| "demoted_at (SlowPush c r) = True"
| "demoted_at SlowDemote = True"
| "demoted_at pc = False"

definition lost :: "string \<Rightarrow> fetchState \<Rightarrow> bool" where
  "lost k s \<longleftrightarrow> k \<in> cp_failed (fs_plan s) \<or> k \<in> cp_slow (fs_plan s)"

definition gives_back :: "string \<Rightarrow> wpc \<Rightarrow> fetchState \<Rightarrow> bool" where
  "gives_back k pc s \<longleftrightarrow> lost k s \<or> giving_up pc"

definition leaves_pieces :: "chunkSys \<Rightarrow> bool" where
  "leaves_pieces sys \<longleftrightarrow>
     fs_ended (snd sys) \<or> (\<exists>k w. map_of (fst sys) k = Some w \<and> gives_back k (w_pc w) (snd sys)) \<or>
     ((\<exists>k w. map_of (fst sys) k = Some w \<and> emptied (w_pc w)) \<longrightarrow> cp_pending (fs_plan (snd sys)) = [])"

definition demoted_known :: "chunkSys \<Rightarrow> bool" where
  "demoted_known sys \<longleftrightarrow>
     (\<forall>k w. map_of (fst sys) k = Some w \<and> demoted_at (w_pc w) \<longrightarrow> k \<in> cp_slow (fs_plan (snd sys)))"

text \<open>Failures and demotions stay, a worker that pushes is lost or gives up, and a worker reaches the places
  of an empty stack only when it is empty, unless it is lost or the context has ended.\<close>

definition step_keeps :: "string \<Rightarrow> wpc \<Rightarrow> fetchState \<Rightarrow> wpc \<Rightarrow> fetchState \<Rightarrow> bool" where
  "step_keeps k pc s pc' s' \<longleftrightarrow>
     (fs_ended s \<longrightarrow> fs_ended s') \<and>
     cp_failed (fs_plan s) \<subseteq> cp_failed (fs_plan s') \<and> cp_slow (fs_plan s) \<subseteq> cp_slow (fs_plan s') \<and>
     (giving_up pc \<longrightarrow> gives_back k pc' s') \<and>
     (demoted_at pc' \<longrightarrow> k \<in> cp_slow (fs_plan s')) \<and>
     (cp_pending (fs_plan s) = [] \<longrightarrow> cp_pending (fs_plan s') = [] \<or> gives_back k pc' s') \<and>
     (emptied pc' \<longrightarrow> fs_ended s' \<or> gives_back k pc' s' \<or> cp_pending (fs_plan s') = [] \<or> emptied pc)"

lemma finish_chunk_pc:
  "\<not> emptied (fst (finish_chunk c r oc d)) \<and> \<not> giving_up (fst (finish_chunk c r oc d)) \<and>
   \<not> demoted_at (fst (finish_chunk c r oc d))"
  by (auto simp: finish_chunk_def)

lemma next_turn_pc:
  "\<not> emptied (w_pc (next_turn k c r err w s)) \<and> \<not> giving_up (w_pc (next_turn k c r err w s)) \<and>
   \<not> demoted_at (w_pc (next_turn k c r err w s))"
  using finish_chunk_pc by (auto simp: next_turn_def goto_with_def split: prod.split read_turn.split)

lemma open_step_pc:
  "\<not> emptied (w_pc (open_step env ch k c w)) \<and> \<not> giving_up (w_pc (open_step env ch k c w)) \<and>
   \<not> demoted_at (w_pc (open_step env ch k c w))"
  by (auto simp: open_step_def goto_with_def split: prod.split option.split)

lemma body_step_keeps:
  "body_step ch k c r w s = Some (w', s') \<Longrightarrow>
     fs_plan s' = fs_plan s \<and> fs_ended s' = fs_ended s \<and>
     \<not> emptied (w_pc w') \<and> \<not> giving_up (w_pc w') \<and> \<not> demoted_at (w_pc w')"
  using finish_chunk_pc next_turn_pc
  by (auto simp: body_step_def Let_def goto_with_def split: read_event.splits if_splits prod.splits)

lemma step_keeps_ok:
  assumes step: "wstep env ch k w s = Some (w', s')"
    and slow: "demoted_at (w_pc w) \<Longrightarrow> k \<in> cp_slow (fs_plan s)"
  shows "step_keeps k (w_pc w) s (w_pc w') s'"
proof (cases "w_pc w")
  case Pop
  with step show ?thesis
    by (auto simp: wstep_def plan_pop_def step_keeps_def gives_back_def split: if_splits)
next
  case Tail
  obtain d r p where t: "demoteTailLaggard k (w_completed w) (fs_now s) (ch_order ch) (fs_plan s) = ((d, r), p)"
    by (metis surj_pair)
  from demoteTailLaggard_same[of "fs_plan s" k "w_completed w" "fs_now s" "ch_order ch"] t
  have "same_pieces (fs_plan s) p" by simp
  with step Tail t show ?thesis
    by (auto simp: wstep_def same_pieces_def Let_def step_keeps_def split: if_splits)
next
  case Judging
  obtain ks p where t: "demoteLaggards k (fs_now s) (ch_order ch) (fs_plan s) = (ks, p)" by fastforce
  from demoteLaggards_same[of "fs_plan s" k "fs_now s" "ch_order ch"] t
  have "same_pieces (fs_plan s) p" by simp
  with step Judging t show ?thesis
    by (auto simp: wstep_def same_pieces_def step_keeps_def)
next
  case (Opening c)
  with step open_step_pc[of env ch k c w] show ?thesis by (auto simp: wstep_def step_keeps_def)
next
  case (Reading c received)
  with step show ?thesis by (auto simp: wstep_def step_keeps_def dest: body_step_keeps)
next
  case (Noting c received m err)
  with step next_turn_pc show ?thesis by (auto simp: wstep_def Let_def step_keeps_def)
next
  case (Demoting ds)
  with step show ?thesis by (cases ds) (auto simp: wstep_def step_keeps_def)
qed (use step slow in \<open>auto simp: wstep_def wait_step_def Let_def step_keeps_def gives_back_def lost_def
      plan_isSlow_def split: if_splits wake.splits\<close>)

lemma lost_mono:
  "lost k s \<Longrightarrow> cp_failed (fs_plan s) \<subseteq> cp_failed (fs_plan s') \<Longrightarrow>
     cp_slow (fs_plan s) \<subseteq> cp_slow (fs_plan s') \<Longrightarrow> lost k s'"
  by (auto simp: lost_def)

lemma leaves_pieces_work:
  assumes inv: "leaves_pieces (ws, s)" "demoted_known (ws, s)" and w: "map_of ws k = Some w"
    and step: "wstep env ch k w s = Some (w', s')"
  shows "leaves_pieces (AList.update k w' ws, s') \<and> demoted_known (AList.update k w' ws, s')"
proof -
  have kp: "step_keeps k (w_pc w) s (w_pc w') s'"
    using step inv(2) w by (intro step_keeps_ok) (auto simp: demoted_known_def)
  have sub: "cp_failed (fs_plan s) \<subseteq> cp_failed (fs_plan s')" "cp_slow (fs_plan s) \<subseteq> cp_slow (fs_plan s')"
    and ended: "fs_ended s \<Longrightarrow> fs_ended s'"
    using kp by (auto simp: step_keeps_def)
  note up = update_conv'[of k w' ws]
  have dk: "demoted_known (AList.update k w' ws, s')"
    using inv(2) kp sub by (auto simp: demoted_known_def up step_keeps_def)
  have bk: "gives_back j pc s'" if "gives_back j pc s" for j pc
    using that lost_mono[OF _ sub] by (auto simp: gives_back_def)
  have "leaves_pieces (AList.update k w' ws, s')"
  proof (cases "fs_ended s' \<or> (\<exists>j v. map_of (AList.update k w' ws) j = Some v \<and> gives_back j (w_pc v) s')")
    case False
    then have no: "\<not> fs_ended s'" "\<And>j v. map_of (AList.update k w' ws) j = Some v \<Longrightarrow> \<not> gives_back j (w_pc v) s'"
      by blast+
    have nk: "\<not> gives_back k (w_pc w') s'" using no(2) by (simp add: up)
    have "\<not> gives_back j (w_pc v) s" if v: "map_of ws j = Some v" for j v
    proof (cases "j = k")
      case True
      with nk kp v w sub show ?thesis
        by (auto simp: gives_back_def step_keeps_def dest: lost_mono[OF _ sub])
    next
      case F: False
      with no(2)[of j v] v bk show ?thesis by (auto simp: up)
    qed
    with inv(1) ended no(1) have old: "(\<exists>j v. map_of ws j = Some v \<and> emptied (w_pc v)) \<Longrightarrow>
        cp_pending (fs_plan s) = []"
      by (auto simp: leaves_pieces_def)
    have "cp_pending (fs_plan s') = []"
      if v: "map_of (AList.update k w' ws) j = Some v" "emptied (w_pc v)" for j v
    proof (cases "j = k")
      case True
      with v kp no(1) nk have "cp_pending (fs_plan s') = [] \<or> emptied (w_pc w)"
        by (auto simp: up step_keeps_def)
      with old w kp nk show ?thesis by (auto simp: step_keeps_def)
    next
      case False
      with v old have "cp_pending (fs_plan s) = []" by (auto simp: up)
      with kp nk show ?thesis by (auto simp: step_keeps_def)
    qed
    then show ?thesis by (auto simp: leaves_pieces_def)
  qed (auto simp: leaves_pieces_def)
  with dk show ?thesis by simp
qed

lemma leaves_pieces_cong:
  assumes "leaves_pieces (ws, s)" "demoted_known (ws, s)" "fs_plan s' = fs_plan s" "fs_ended s \<longrightarrow> fs_ended s'"
  shows "leaves_pieces (ws, s') \<and> demoted_known (ws, s')"
  using assms(1,2,4)
  unfolding leaves_pieces_def demoted_known_def gives_back_def lost_def fst_conv snd_conv assms(3)
  by blast

lemma leaves_pieces_step:
  assumes "leaves_pieces sys" "demoted_known sys" "sys_step env e sys = Some sys'"
  shows "leaves_pieces sys' \<and> demoted_known sys'"
proof (cases e)
  case (Work k ch)
  from assms(3) Work obtain w w' s' where "map_of (fst sys) k = Some w"
    "wstep env ch k w (snd sys) = Some (w', s')" "sys' = (AList.update k w' (fst sys), s')"
    by (auto simp: sys_step_def split: option.splits)
  with leaves_pieces_work[of "fst sys" "snd sys" k w env ch w' s'] assms(1,2) show ?thesis by simp
qed (use assms leaves_pieces_cong[of "fst sys" "snd sys"] in
    \<open>auto simp: sys_step_def split: if_splits\<close>)

lemma leaves_pieces_run:
  "leaves_pieces sys \<Longrightarrow> demoted_known sys \<Longrightarrow> sys_run env es sys = Some sys' \<Longrightarrow> leaves_pieces sys'"
proof (induction es arbitrary: sys)
  case (Cons e es)
  from Cons.prems(3) obtain t where t: "sys_step env e sys = Some t" and rest: "sys_run env es t = Some sys'"
    by (auto split: option.splits)
  from leaves_pieces_step[OF Cons.prems(1,2) t] Cons.IH rest show ?case by blast
qed simp

lemma sys_run_keys: "sys_run env es sys = Some sys' \<Longrightarrow> dom (map_of (fst sys')) = dom (map_of (fst sys))"
proof (induction es arbitrary: sys)
  case (Cons e es)
  from Cons.prems obtain t where t: "sys_step env e sys = Some t" and rest: "sys_run env es t = Some sys'"
    by (auto split: option.splits)
  have "dom (map_of (fst t)) = dom (map_of (fst sys))"
    using t by (cases e) (auto simp: sys_step_def update_conv' split: option.splits if_splits)
  with Cons.IH[OF rest] show ?case by simp
qed simp

lemma dom_start_workers: "dom (map_of (start_workers m us)) = uKey ` set (take (nat m) us)"
  by (force simp: start_workers_def dom_map_of_conv_image_fst)

lemma run_round_progress_aux:
  assumes run: "run_round env m es s = Some s'" and go: "rounds_go_on s" and m: "0 < m"
  shows "fs_ended s' \<or> plan_remaining (fs_plan s') = 0 \<or>
    (\<exists>u \<in> set (round_sources s). lost (uKey u) s' \<and> uKey u \<notin> cp_failed (fs_plan s))"
proof -
  let ?ws = "start_workers m (round_sources s)"
  from run obtain ws where r: "sys_run env es (?ws, s) = Some (ws, s')" and fin: "all_done ws"
    by (auto simp: run_round_def split: option.splits prod.splits if_splits)
  have start: "w_pc w = Top" if "map_of ?ws k = Some w" for k w
    using map_of_SomeD[OF that] by (auto simp: start_workers_def new_worker_def)
  have "leaves_pieces (?ws, s)" "demoted_known (?ws, s)"
    using start by (fastforce simp: leaves_pieces_def demoted_known_def)+
  from leaves_pieces_run[OF this r] have inv: "leaves_pieces (ws, s')" .
  have dn: "w_pc w = Done" if "map_of ws k = Some w" for k w
    using map_of_SomeD[OF that] fin by (auto simp: all_done_def list_all_iff)
  have keys: "dom (map_of ws) = uKey ` set (take (nat m) (round_sources s))"
    using sys_run_keys[OF r] by (simp add: dom_start_workers)
  from go m have "take (nat m) (round_sources s) \<noteq> []" by (auto simp: rounds_go_on_def)
  with keys obtain k w where kw: "map_of ws k = Some w" by (metis domD ex_in_conv image_is_empty set_empty2)
  have notfailed: "uKey u \<notin> cp_failed (fs_plan s)" if "u \<in> set (round_sources s)" for u
    using that by (auto simp: round_sources_def rangeSources_def Let_def split: if_splits)
  have "emptied (w_pc w)" using dn[OF kw] by simp
  with inv kw consider "fs_ended s'"
    | j v where "map_of ws j = Some v" "gives_back j (w_pc v) s'"
    | "cp_pending (fs_plan s') = []"
    unfolding leaves_pieces_def fst_conv snd_conv by blast
  then show ?thesis
  proof cases
    case (2 j v)
    with dn[of j v] have "lost j s'" by (simp add: gives_back_def)
    moreover from 2 keys have "j \<in> uKey ` set (take (nat m) (round_sources s))" by blast
    then obtain u where "u \<in> set (round_sources s)" "uKey u = j" using in_set_takeD by fastforce
    ultimately show ?thesis using notfailed by blast
  qed (simp_all add: plan_remaining_def)
qed

definition grows_only :: "fetchState \<Rightarrow> fetchState \<Rightarrow> bool" where
  "grows_only s s' \<longleftrightarrow>
     (fs_ended s \<longrightarrow> fs_ended s') \<and> cp_failed (fs_plan s) \<subseteq> cp_failed (fs_plan s') \<and>
     cp_slow (fs_plan s) \<subseteq> cp_slow (fs_plan s') \<and>
     (finite (cp_failed (fs_plan s)) \<longrightarrow> finite (cp_failed (fs_plan s')))"

lemma grows_only_refl [simp]: "grows_only s s"
  by (simp add: grows_only_def)

lemma grows_only_trans: "grows_only s t \<Longrightarrow> grows_only t u \<Longrightarrow> grows_only s u"
  by (auto simp: grows_only_def)

lemma wstep_grows_only:
  assumes step: "wstep env ch k w s = Some (w', s')"
  shows "grows_only s s'"
proof (cases "w_pc w")
  case Pop
  with step show ?thesis by (auto simp: wstep_def plan_pop_def grows_only_def split: if_splits)
next
  case Tail
  obtain d r p where t: "demoteTailLaggard k (w_completed w) (fs_now s) (ch_order ch) (fs_plan s) = ((d, r), p)"
    by (metis surj_pair)
  from demoteTailLaggard_same[of "fs_plan s" k "w_completed w" "fs_now s" "ch_order ch"] t
  have "same_pieces (fs_plan s) p" by simp
  with step Tail t show ?thesis
    by (auto simp: wstep_def same_pieces_def Let_def grows_only_def split: if_splits)
next
  case Judging
  obtain ks p where t: "demoteLaggards k (fs_now s) (ch_order ch) (fs_plan s) = (ks, p)" by fastforce
  from demoteLaggards_same[of "fs_plan s" k "fs_now s" "ch_order ch"] t
  have "same_pieces (fs_plan s) p" by simp
  with step Judging t show ?thesis by (auto simp: wstep_def same_pieces_def grows_only_def)
next
  case (Reading c received)
  with step show ?thesis by (auto simp: wstep_def grows_only_def dest: body_step_keeps)
next
  case (Demoting ds)
  with step show ?thesis by (cases ds) (auto simp: wstep_def grows_only_def)
qed (use step in \<open>auto simp: wstep_def wait_step_def Let_def grows_only_def split: if_splits wake.splits\<close>)

lemma sys_run_grows_only: "sys_run env es sys = Some sys' \<Longrightarrow> grows_only (snd sys) (snd sys')"
proof (induction es arbitrary: sys)
  case (Cons e es)
  from Cons.prems obtain t where t: "sys_step env e sys = Some t" and rest: "sys_run env es t = Some sys'"
    by (auto split: option.splits)
  have "grows_only (snd sys) (snd t)"
    using t by (cases e) (auto simp: sys_step_def grows_only_def split: option.splits if_splits
        dest!: wstep_grows_only)
  with Cons.IH[OF rest] grows_only_trans show ?case by blast
qed simp

lemma run_round_grows_only: "run_round env m es s = Some s' \<Longrightarrow> grows_only s s'"
  using sys_run_grows_only by (fastforce simp: run_round_def split: option.splits prod.splits if_splits)

lemma run_rounds_grows_only: "run_rounds env m ess s = RoundsOpen s' \<Longrightarrow> grows_only s s' \<and> rounds_go_on s'"
proof (induction ess arbitrary: s)
  case (Cons es ess)
  then obtain t where "run_round env m es s = Some t" "run_rounds env m ess t = RoundsOpen s'"
    by (auto split: if_splits option.splits)
  with Cons.IH run_round_grows_only grows_only_trans show ?case by blast
qed (auto split: if_splits)

lemma rounds_bound_aux:
  "run_rounds env m ess s = RoundsOpen s' \<Longrightarrow> cp_slow (fs_plan s') = {} \<Longrightarrow> 0 < m \<Longrightarrow>
   finite (cp_failed (fs_plan s)) \<Longrightarrow>
     length ess + card (cp_failed (fs_plan s)) \<le> card (cp_failed (fs_plan s'))"
proof (induction ess arbitrary: s)
  case (Cons es ess)
  then have go: "rounds_go_on s" by (auto split: if_splits)
  with Cons.prems obtain t where t: "run_round env m es s = Some t"
    and rest: "run_rounds env m ess t = RoundsOpen s'" by (auto split: option.splits)
  note g = run_round_grows_only[OF t]
  note g' = run_rounds_grows_only[OF rest]
  have fin: "finite (cp_failed (fs_plan t))" using g Cons.prems(4) by (simp add: grows_only_def)
  have go': "rounds_go_on t" using rest by (cases ess) (auto split: if_splits)
  have slow: "cp_slow (fs_plan t) = {}" using g' Cons.prems(2) by (auto simp: grows_only_def)
  from run_round_progress_aux[OF t go Cons.prems(3)] go' slow
  obtain u :: Upstream where "uKey u \<in> cp_failed (fs_plan t)" "uKey u \<notin> cp_failed (fs_plan s)"
    by (auto simp: rounds_go_on_def lost_def)
  with g have "cp_failed (fs_plan s) \<subset> cp_failed (fs_plan t)" by (auto simp: grows_only_def)
  with fin have "card (cp_failed (fs_plan s)) < card (cp_failed (fs_plan t))" by (rule psubset_card_mono)
  with Cons.IH[OF rest Cons.prems(2,3) fin] show ?case by simp
qed (auto split: if_splits)

text \<open>C10: A round that leaves pieces behind although the context has not ended has lost one of the
  sources it started with: the source failed in this round or is demoted. As long as no source is
  demoted, every round but the last one therefore uses up a source for good, so the rounds are no
  more than the sources that failed.\<close>

theorem rounds_use_up_sources:
  "run_rounds env m ess s = RoundsOpen s' \<Longrightarrow> cp_slow (fs_plan s') = {} \<Longrightarrow> 0 < m \<Longrightarrow>
   cp_failed (fs_plan s) = {} \<Longrightarrow>
     length ess \<le> card (cp_failed (fs_plan s')) \<and>
     (\<forall>es t. run_round env m es s' = Some t \<longrightarrow>
        fs_ended t \<or> plan_remaining (fs_plan t) = 0 \<or>
        (\<exists>u \<in> set (round_sources s'). lost (uKey u) t \<and> uKey u \<notin> cp_failed (fs_plan s')))"
proof -
  assume run: "run_rounds env m ess s = RoundsOpen s'" and slow: "cp_slow (fs_plan s') = {}"
    and m: "0 < m" and new: "cp_failed (fs_plan s) = {}"
  have go: "rounds_go_on s'" using run_rounds_grows_only[OF run] ..
  have "length ess \<le> card (cp_failed (fs_plan s'))"
    using rounds_bound_aux[OF run slow m] new by simp
  with run_round_progress_aux[OF _ go m] show ?thesis by blast
qed

section \<open>A demoted source that fails for good\<close>

text \<open>Two sources and a file of four pieces. The first source is fast and loses its connection in the end,
  the second one is demoted before its first byte and answers 404 from then on.\<close>

definition open_url_api :: url_api where
  "open_url_api = \<lparr>
     url_parse = (\<lambda>s. Some \<lparr>uScheme = ''https'', uOpaque = '''', uHasUser = False, uHost = ''h'',
        uPath = '''', uRawPath = '''', uForceQuery = False, uRawQuery = '''', uFragment = '''',
        uRawFragment = ''''\<rparr>),
     url_string = (\<lambda>u. uHost u), url_hostname = (\<lambda>u. uHost u), to_lower = (\<lambda>s. s)\<rparr>"

definition answer_status :: "int \<Rightarrow> open_answer" where
  "answer_status status = \<lparr>oa_requestBuilt = True, oa_select = ResultFirst False,
     oa_result = \<lparr>do_response = Some \<lparr>rp_status = status, rp_length = - 1, rp_acceptRanges = '''',
        rp_contentType = '''', rp_finalURL = Some ''''\<rparr>, do_err = None\<rparr>\<rparr>"

definition plain_choice :: choice where
  "plain_choice = \<lparr>ch_order = [''a'', ''b''], ch_open = answer_status 206, ch_body = BodyContext,
     ch_wake = WakeChange, ch_at = 0, ch_callbackFails = False\<rparr>"

definition not_found :: choice where
  "not_found = plain_choice\<lparr>ch_open := answer_status 404\<rparr>"

definition one_byte :: choice where
  "one_byte = plain_choice\<lparr>ch_body := BodyPart ''x'' (Some EndOfFile) None\<rparr>"

definition two_env :: chunk_env where
  "two_env = \<lparr>ce_api = open_url_api,
     ce_spec = \<lparr>sp_key = example_key, sp_name = ''x.whl'', sp_size = 4, sp_digest = None\<rparr>,
     ce_upstream = (\<lambda>k. k)\<rparr>"

definition two_sources :: "Upstream list" where
  "two_sources = map (\<lambda>k. \<lparr>uKey = k, uBase = '''', uAcceptRange = True, uRewriteFrom = ''''\<rparr>) [''a'', ''b'']"

definition small_config :: Config where
  "small_config = \<lparr>MaxUnregisteredBytes = 1, MaxCachedBytes = 1, MaxCachedFiles = 1, StagingDir = '''',
     Upstreams = [], Items = [], ChunkThreshold = 1, ChunkSize = 1, MaxFiles = 1, MaxChunksPerFile = 4,
     StallTimeout = 1, ConnectTimeout = 1\<rparr>"

definition all_well :: chunk_answers where
  "all_well = \<lparr>ca_open = None, ca_truncate = None, ca_sync = None, ca_read = None\<rparr>"

definition two_start :: fetchState where
  "two_start = \<lparr>fs_plan = newChunkPlan, fs_file = (\<lambda>x. None), fs_upstreams = two_sources,
     fs_tracker = newTracker False, fs_ended = False, fs_now = 0\<rparr>"

text \<open>A worker fetches one piece: twelve steps from the head of its loop back to it.\<close>

definition fetch_one :: "string \<Rightarrow> sched list" where
  "fetch_one k = replicate 4 (Work k plain_choice) @ [Work k one_byte] @ replicate 7 (Work k plain_choice)"

definition take_empty :: "string \<Rightarrow> sched list" where
  "take_empty k = replicate 4 (Work k plain_choice)"

definition fetch_all_round :: "sched list" where
  "fetch_all_round = concat (replicate 4 (fetch_one ''a'')) @ take_empty ''a'' @ take_empty ''b''"

definition demoting_round :: "sched list" where
  "demoting_round =
     replicate 4 (Work ''b'' plain_choice) @ [Clock 2000000000] @
     fetch_one ''a'' @ fetch_one ''a'' @ [Work ''a'' plain_choice] @
     replicate 9 (Work ''a'' not_found) @
     replicate 6 (Work ''b'' plain_choice)"

definition failing_round :: "sched list" where
  "failing_round = replicate 9 (Work ''b'' not_found)"

definition two_rounds_start :: fetchState where
  "two_rounds_start = upd_plan (push_pieces 1 4) (two_start\<lparr>fs_file := (\<lambda>x. None)\<rparr>)"

definition sources_of :: "chunkPlan \<Rightarrow> string set \<times> string set" where
  "sources_of p = (cp_failed p, cp_slow p)"

text \<open>The plan between two rounds in which the only source left is demoted and not failed.\<close>

definition left_over :: "chunk list" where
  "left_over = [\<lparr>c_start = 3, c_end = 3\<rparr>, \<lparr>c_start = 0, c_end = 0\<rparr>]"

definition livelocked :: "fetchState \<Rightarrow> bool" where
  "livelocked s \<longleftrightarrow>
     cp_pending (fs_plan s) = left_over \<and> cp_failed (fs_plan s) = {''a''} \<and>
     cp_slow (fs_plan s) = {''b''} \<and> cp_inflight (fs_plan s) = [] \<and>
     fs_upstreams s = two_sources \<and> \<not> fs_ended s"

lemma livelock_reached: "\<exists>s. run_round two_env 4 demoting_round two_rounds_start = Some s \<and> livelocked s"
proof -
  have "case run_round two_env 4 demoting_round two_rounds_start of
      None \<Rightarrow> False
    | Some s \<Rightarrow> cp_pending (fs_plan s) = left_over \<and> cp_failed (fs_plan s) = {''a''} \<and>
        cp_slow (fs_plan s) = {''b''} \<and> cp_inflight (fs_plan s) = [] \<and>
        fs_upstreams s = two_sources \<and> \<not> fs_ended s"
    by code_simp
  then show ?thesis by (auto simp: livelocked_def split: option.splits)
qed

lemma replicate_9: "replicate 9 x = [x, x, x, x, x, x, x, x, x]"
  by (simp add: numeral_eq_Suc)

lemma livelock_step:
  assumes "livelocked s"
  shows "\<exists>s'. run_round two_env 4 failing_round s = Some s' \<and> livelocked s'"
proof -
  have src: "round_sources s = [\<lparr>uKey = ''b'', uBase = '''', uAcceptRange = True, uRewriteFrom = ''''\<rparr>]"
    using assms by (simp add: round_sources_def rangeSources_def livelocked_def two_sources_def)
  note defs = run_round_def src start_workers_def failing_round_def replicate_9 sys_step_def wstep_def
    new_worker_def goto_def plan_pop_def open_step_def goto_with_def not_found_def plain_choice_def
    answer_status_def engine_open_def open_outcome_def validateHTTPSURL_def validateFinalURL_def
    open_url_api_def two_env_def check_response_def plan_isSlow_def upd_plan_def all_done_def
    chunk_length_def plan_begin_def plan_end_def notifyLocked_def plan_credit_def plan_push_def
    ascii_lower_def is_upper_def
  show ?thesis
    using assms
    by (simp add: defs livelocked_def left_over_def two_sources_def demoteUpstream_def)
qed

lemma livelock_rounds:
  "livelocked s \<Longrightarrow> \<exists>s'. run_rounds two_env 4 (replicate n failing_round) s = RoundsOpen s' \<and> livelocked s'"
proof (induction n arbitrary: s)
  case 0
  then show ?case
    by (auto simp: rounds_go_on_def plan_remaining_def livelocked_def left_over_def round_sources_def
        rangeSources_def two_sources_def)
next
  case (Suc n)
  then have go: "rounds_go_on s"
    by (auto simp: rounds_go_on_def plan_remaining_def livelocked_def left_over_def round_sources_def
        rangeSources_def two_sources_def)
  from livelock_step[OF Suc.prems] obtain t where "run_round two_env 4 failing_round s = Some t" "livelocked t"
    by blast
  with Suc.IH[of t] go show ?case by simp
qed


section \<open>Examples\<close>

theorem chunked_fetch_complete_witness:
  "case tryChunked small_config two_env all_well (\<lambda>s. s) [fetch_all_round] two_start of
     None \<Rightarrow> False
   | Some (b, s') \<Rightarrow>
       b \<and> filled (fs_file s') 0 4 \<and> counters (cp_contributions (fs_plan s')) = 4 \<and>
       file_content 4 (fs_file s') = ''xxxx''"
proof -
  have ok: "fst (the (tryChunked small_config two_env all_well (\<lambda>s. s) [fetch_all_round] two_start))"
    and some: "tryChunked small_config two_env all_well (\<lambda>s. s) [fetch_all_round] two_start \<noteq> None"
    by code_simp+
  from ok some obtain s' where run:
    "tryChunked small_config two_env all_well (\<lambda>s. s) [fetch_all_round] two_start = Some (True, s')"
    by (metis (full_types) fst_conv not_None_eq option.sel surj_pair)
  have "honest_rounds two_env (\<lambda>x. CHR ''x'') 4 [fetch_all_round]
      (upd_plan (push_pieces 1 4) (two_start\<lparr>fs_file := (\<lambda>x. None)\<rparr>))"
    by code_simp
  moreover have "sp_size (ce_spec two_env) = 4" "MaxChunksPerFile small_config = 4"
    "ChunkSize small_config = 1" "fs_plan two_start = newChunkPlan"
    "keys_distinct (fs_upstreams two_start)" "list_all (list_all sched_ok) [fetch_all_round]"
    by code_simp+
  moreover have "map (\<lambda>i. CHR ''x'') [0..<nat 4] = ''xxxx''" by code_simp
  ultimately show ?thesis
    using chunked_fetch_complete[OF run, of "\<lambda>x. CHR ''x''"] run by simp
qed


theorem rounds_use_up_sources_witness:
  "case run_rounds two_env 1 [replicate 9 (Work ''a'' not_found)] two_rounds_start of
     RoundsOpen s' \<Rightarrow> 1 \<le> card (cp_failed (fs_plan s')) | _ \<Rightarrow> False"
proof -
  have "case run_rounds two_env 1 [replicate 9 (Work ''a'' not_found)] two_rounds_start of
      RoundsOpen s' \<Rightarrow> cp_slow (fs_plan s') = {} | _ \<Rightarrow> False"
    by code_simp
  then obtain s' where run: "run_rounds two_env 1 [replicate 9 (Work ''a'' not_found)] two_rounds_start = RoundsOpen s'"
    and slow: "cp_slow (fs_plan s') = {}"
    by (auto split: rounds_result.splits)
  have "cp_failed (fs_plan two_rounds_start) = {}" by code_simp
  from rounds_use_up_sources[OF run slow _ this] run show ?thesis by simp
qed

text \<open>A worker that demotes the last laggard does not take over its rest: the notification of \<open>end\<close> wakes
  it before the rest is pushed, it finds the stack empty and no one in flight, and leaves. The rest
  is fetched in the next round.\<close>

definition takeover_round :: "sched list" where
  "takeover_round =
     replicate 4 (Work ''b'' plain_choice) @ fetch_one ''a'' @ [Clock 2000000000] @
     replicate 6 (Work ''a'' plain_choice) @ replicate 2 (Work ''b'' plain_choice) @
     replicate 5 (Work ''a'' plain_choice)"

lemma takeover_misses_the_rest:
  "case sys_run two_env takeover_round
      (start_workers 4 two_sources, upd_plan (push_pieces 1 2) two_start) of
     None \<Rightarrow> False
   | Some (ws, s) \<Rightarrow>
       map_option w_pc (map_of ws ''a'') = Some Done \<and>
       map_option (owed \<circ> w_pc) (map_of ws ''b'') = Some [\<lparr>c_start = 0, c_end = 0\<rparr>] \<and>
       cp_pending (fs_plan s) = []"
  by code_simp

end
