(* ===== verification/Relay_Fetch.thy ===== *)
theory Relay_Fetch
  imports Relay_Rounds
begin

text \<open>
  The fetching engine of \<open>internal/relay/fetch.go\<close> and the index pages of \<open>simple.go\<close>: the registered
  items, the upstreams of each route with the strikes that evict a source, and the download of one
  file, which tries a chunked fetch and then one source after the other. The methods on the shared
  state run under the mutex of the engine and are one step each; a download is a sequence of answers
  of its surroundings, each of which may say that another file has changed the upstreams. The lemmas
  show that a source that was evicted does not come back, that no source is asked twice for one file,
  and that what is delivered is a complete body with the digest that was registered.
\<close>

section \<open>The engine\<close>

type_synonym strikes = "(string \<Rightarrow> nat) option"

record engine =
  en_items :: "string \<Rightarrow> Item option"
  en_upstreams :: "Route \<Rightarrow> Upstream list"
  en_strikes :: "Route \<Rightarrow> strikes"
  en_tracker :: tracker
  en_ledger :: ledger
  en_created :: "string set"
  en_files :: "string \<Rightarrow> string option"

definition register_item :: "Item \<Rightarrow> engine \<Rightarrow> engine" where
  "register_item item e =
     (if validateItem item \<noteq> None then e
      else if en_items e (iPath item) \<noteq> None then e
      else e\<lparr>en_items := (en_items e)(iPath item \<mapsto> item),
             en_tracker := addTotal (iSize item) (en_tracker e)\<rparr>)"

definition register :: "Item list \<Rightarrow> engine \<Rightarrow> engine" where
  "register items e = fold register_item items e"

definition newEngine :: "Config \<Rightarrow> bool \<Rightarrow> engine" where
  "newEngine cfg callback =
     register (Items cfg)
       \<lparr>en_items = (\<lambda>p. None),
        en_upstreams = (\<lambda>r. case map_of (Upstreams cfg) r of None \<Rightarrow> [] | Some us \<Rightarrow> us),
        en_strikes = (\<lambda>r. case map_of (Upstreams cfg) r of None \<Rightarrow> None | Some us \<Rightarrow> Some (\<lambda>k. 0)),
        en_tracker = newTracker callback, en_ledger = newLedger, en_created = {}, en_files = (\<lambda>p. None)\<rparr>"

definition strike_count :: "engine \<Rightarrow> Route \<Rightarrow> string \<Rightarrow> nat" where
  "strike_count e r k = (case en_strikes e r of None \<Rightarrow> 0 | Some f \<Rightarrow> f k)"

text \<open>The loop over the old list keeps the last value of a key that occurs twice.\<close>

definition known_range :: "Upstream list \<Rightarrow> string \<Rightarrow> bool" where
  "known_range us k = fold (\<lambda>u b. if uKey u = k then uAcceptRange u else b) us False"

definition setUpstreams :: "Route \<Rightarrow> Upstream list \<Rightarrow> engine \<Rightarrow> engine" where
  "setUpstreams r us e =
     (let replaced = map (\<lambda>u. if known_range (en_upstreams e r) (uKey u) then u\<lparr>uAcceptRange := True\<rparr> else u)
            (filter (\<lambda>u. \<not> (en_strikes e r \<noteq> None \<and> 2 \<le> strike_count e r (uKey u))) us)
      in e\<lparr>en_upstreams := (en_upstreams e)(r := replaced),
           en_strikes := (if en_strikes e r = None then (en_strikes e)(r := Some (\<lambda>k. 0)) else en_strikes e)\<rparr>)"

definition markAcceptRange :: "Route \<Rightarrow> string \<Rightarrow> engine \<Rightarrow> engine" where
  "markAcceptRange r k e =
     e\<lparr>en_upstreams := (en_upstreams e)(r :=
         map (\<lambda>u. if uKey u = k then u\<lparr>uAcceptRange := True\<rparr> else u) (en_upstreams e r))\<rparr>"

definition nextUpstream :: "Upstream list \<Rightarrow> string set \<Rightarrow> Upstream option" where
  "nextUpstream us failed = find (\<lambda>u. uKey u \<notin> failed) us"

definition engine_demote :: "Route \<Rightarrow> string \<Rightarrow> engine \<Rightarrow> engine" where
  "engine_demote r k e = e\<lparr>en_upstreams := (en_upstreams e)(r := demoteUpstream k (en_upstreams e r))\<rparr>"

text \<open>A strike on a route without a map of strikes writes to a nil map: \<open>None\<close> is the panic.\<close>

definition strike :: "Route \<Rightarrow> string \<Rightarrow> engine \<Rightarrow> engine option" where
  "strike r k e =
     (case en_strikes e r of
        None \<Rightarrow> None
      | Some f \<Rightarrow>
          let e1 = e\<lparr>en_strikes := (en_strikes e)(r := Some (f(k := f k + 1)))\<rparr> in
          if f k + 1 < 2 then Some e1
          else Some (e1\<lparr>en_upstreams := (en_upstreams e1)(r := filter (\<lambda>u. uKey u \<noteq> k) (en_upstreams e1 r))\<rparr>))"

section \<open>What to fetch\<close>

definition last_segment :: "string \<Rightarrow> string" where
  "last_segment path = last (split_on CHR 0x2F path)"

definition displayName :: "string \<Rightarrow> string" where
  "displayName path =
     (case path_unescape (last_segment path) of None \<Rightarrow> last_segment path | Some d \<Rightarrow> d)"

definition find_item :: "engine \<Rightarrow> string \<Rightarrow> Item option" where
  "find_item e path =
     (case en_items e path of
        Some item \<Rightarrow> Some item
      | None \<Rightarrow> (case path_unescape path of None \<Rightarrow> None | Some d \<Rightarrow> en_items e d))"

definition describe :: "engine \<Rightarrow> Route \<Rightarrow> string \<Rightarrow> fileSpec" where
  "describe e r path =
     (let spec = \<lparr>sp_key = (r, path), sp_name = displayName path, sp_size = 0, sp_digest = None\<rparr> in
      if r \<noteq> RoutePackages then spec
      else case find_item e path of
        None \<Rightarrow> spec
      | Some item \<Rightarrow>
          (case hex_decode (iSHA256 item) of
             None \<Rightarrow> spec
           | Some d \<Rightarrow> spec\<lparr>sp_size := iSize item, sp_digest := Some d\<rparr>))"

text \<open>\<open>probeSize\<close>: one answer for each upstream of the snapshot.\<close>

fun probe_loop ::
  "url_api \<Rightarrow> string \<Rightarrow> Route \<Rightarrow> (Upstream \<times> open_answer) list \<Rightarrow> fileSpec \<Rightarrow> engine \<Rightarrow> fileSpec \<times> engine" where
  "probe_loop api path r [] spec e = (spec, e)"
| "probe_loop api path r ((u, a) # us) spec e =
     (let ((resp, oc, d), t) = engine_open api (uBase u @ path) a (new_attempt '''') in
      case resp of
        None \<Rightarrow> if oc = OutcomeCancelled then (spec, e) else probe_loop api path r us spec e
      | Some p \<Rightarrow>
          if rp_status p \<noteq> 200 then probe_loop api path r us spec e
          else
            let e1 = (if ascii_lower (rp_acceptRanges p) = ''bytes'' \<and> \<not> uAcceptRange u
                      then markAcceptRange r (uKey u) e else e)
            in if 0 < rp_length p
               then (spec\<lparr>sp_size := rp_length p\<rparr>, e1\<lparr>en_tracker := addTotal (rp_length p) (en_tracker e1)\<rparr>)
               else (spec, e1))"

definition probeSize :: "url_api \<Rightarrow> open_answer list \<Rightarrow> fileSpec \<Rightarrow> engine \<Rightarrow> fileSpec \<times> engine" where
  "probeSize api answers spec e =
     probe_loop api (snd (sp_key spec)) (fst (sp_key spec))
       (zip (en_upstreams e (fst (sp_key spec))) answers) spec e"

section \<open>One source, one stream\<close>

text \<open>The answers in one attempt: what another file left as the upstreams of the route, whether the
  context has ended, the response, the file and the body. Times are those of the clock.\<close>

record attempt_answer =
  an_outside :: "Upstream list option"
  an_ended :: bool
  an_open :: open_answer
  an_create :: "nat option option"
  an_body :: "(read_event \<times> bool) list"
  an_close :: "nat option option"
  an_publish :: "nat option option"
  an_startedAt :: int
  an_now :: int
  an_callbackFails :: bool

record stream_result =
  sr_received :: int
  sr_outcome :: Outcome
  sr_contributions :: "(string, int) go_map"
  sr_part :: "string option"
  sr_attempt :: AttemptOutcome
  sr_tracker :: tracker

definition stream_limit :: "Config \<Rightarrow> fileSpec \<Rightarrow> int" where
  "stream_limit cfg spec =
     (if sp_digest spec = None \<and> (sp_size spec = 0 \<or> MaxUnregisteredBytes cfg < sp_size spec)
      then MaxUnregisteredBytes cfg else sp_size spec)"

definition count_bytes :: "fileSpec \<Rightarrow> string \<Rightarrow> attempt_answer \<Rightarrow> int list \<Rightarrow> tracker \<Rightarrow> tracker" where
  "count_bytes spec k an counts t =
     fold (\<lambda>n. tracker_add (sp_key spec) (sp_name spec) k n (an_now an) (an_now an) (an_callbackFails an)) counts t"

text \<open>What is checked once the body has ended without an outcome.\<close>

definition check_stream ::
  "(string \<Rightarrow> string) \<Rightarrow> fileSpec \<Rightarrow> string \<Rightarrow> int \<Rightarrow> AttemptOutcome \<Rightarrow> Outcome \<times> AttemptOutcome" where
  "check_stream sha spec written received d =
     (if 0 < sp_size spec \<and> received \<noteq> sp_size spec then
        (OutcomeNetwork, diagnoseAttempt ''size_mismatch'' ''response_size'' 0 None d)
      else case sp_digest spec of
        Some digest \<Rightarrow>
          (if sha written \<noteq> digest then
             (OutcomeChecksumMismatch, diagnoseAttempt ''checksum_mismatch'' ''verify'' 0 None d)
           else (OutcomeNone, d))
      | None \<Rightarrow> (OutcomeNone, d))"

text \<open>\<open>part\<close> is the content of the partial file, \<open>None\<close> when it does not exist; the last result is \<open>None\<close>
  when the events of the body end too early.\<close>

definition singleStream ::
  "Config \<Rightarrow> url_api \<Rightarrow> (string \<Rightarrow> string) \<Rightarrow> fileSpec \<Rightarrow> Upstream \<Rightarrow> attempt_answer \<Rightarrow>
   AttemptOutcome \<Rightarrow> string option \<Rightarrow> tracker \<Rightarrow> stream_result option" where
  "singleStream cfg api sha spec u an d part tr =
     (let ((resp, oc, d1), t) = engine_open api (uBase u @ snd (sp_key spec)) (an_open an) d;
          failed = (\<lambda>oc d part. Some \<lparr>sr_received = 0, sr_outcome = oc, sr_contributions = [],
                       sr_part = part, sr_attempt = d, sr_tracker = tr\<rparr>)
      in case resp of
        None \<Rightarrow> failed oc d1 part
      | Some p \<Rightarrow>
          if rp_status p \<noteq> 200 then
            failed OutcomeHTTPStatus (diagnoseAttempt ''http_status'' ''request'' (rp_status p) None d1) part
          else if 0 < sp_size spec \<and> 0 \<le> rp_length p \<and> rp_length p \<noteq> sp_size spec then
            failed OutcomeNetwork (diagnoseAttempt ''size_mismatch'' ''response_size'' 0 None d1) part
          else case an_create an of
            Some errno \<Rightarrow> failed OutcomeNetwork (diagnoseAttempt ''filesystem_open'' ''open'' 0 errno d1) part
          | None \<Rightarrow>
              (case readBody (stream_limit cfg spec) (an_body an) '''' [] d1 of
                 None \<Rightarrow> None
               | Some (written, counts, oc1, d2) \<Rightarrow>
                   let received = sum_list counts; tr1 = count_bytes spec (uKey u) an counts tr;
                       (oc2, d3) = (case an_close an of
                          Some errno \<Rightarrow>
                            (if oc1 = OutcomeNone
                             then (OutcomeNetwork, diagnoseAttempt ''filesystem_close'' ''close'' 0 errno d2)
                             else (oc1, d2))
                        | None \<Rightarrow> (oc1, d2));
                       (oc3, d4) = (if oc2 \<noteq> OutcomeNone then (oc2, d3)
                                    else check_stream sha spec written received d3)
                   in Some \<lparr>sr_received = received, sr_outcome = oc3,
                        sr_contributions = (if oc3 = OutcomeNone then [(uKey u, received)] else []),
                        sr_part = Some written, sr_attempt = d4,
                        sr_tracker = (if oc3 = OutcomeNone \<and> sp_size spec = 0 then addTotal received tr1 else tr1)\<rparr>))"

section \<open>A download\<close>

text \<open>\<open>pathFor\<close>: the staging file is named by a digest of the route and the path.\<close>

definition pathFor :: "(string \<Rightarrow> string) \<Rightarrow> (string \<Rightarrow> string \<Rightarrow> string) \<Rightarrow> string \<Rightarrow> fileKey \<Rightarrow> string" where
  "pathFor sha join dir k = join dir (hex_encode (take 16 (sha (fst k @ ''/'' @ snd k))))"

definition staging_track :: "string \<Rightarrow> engine \<Rightarrow> engine" where
  "staging_track path e = e\<lparr>en_created := insert path (en_created e)\<rparr>"

text \<open>\<open>staging.remove\<close> when the file system lets it: a file that does not exist counts as removed.\<close>

definition staging_remove :: "string \<Rightarrow> engine \<Rightarrow> engine" where
  "staging_remove path e = e\<lparr>en_created := en_created e - {path}, en_files := (en_files e)(path := None)\<rparr>"

definition publish ::
  "fileSpec \<Rightarrow> string \<Rightarrow> (string, int) go_map \<Rightarrow> string option \<Rightarrow> attempt_answer \<Rightarrow> engine \<Rightarrow> engine option" where
  "publish spec target contributions part an e =
     (case an_publish an of
        Some errno \<Rightarrow> None
      | None \<Rightarrow>
          Some (e\<lparr>en_files := (en_files e)(target := part),
                  en_ledger := ledger_delivered (sp_size spec) contributions (en_ledger e),
                  en_tracker := tracker_complete (sp_key spec) (sp_name spec) (topSource contributions)
                    (sp_size spec) (an_now an) (an_callbackFails an) (en_tracker e)\<rparr>))"

datatype download_result = Delivered string | AllSourcesFailed | Panicked

definition fail_download :: "fileSpec \<Rightarrow> chunkPlan \<Rightarrow> int \<Rightarrow> bool \<Rightarrow> engine \<Rightarrow> engine" where
  "fail_download spec plan now fails e =
     e\<lparr>en_tracker := tracker_fail (sp_key spec) (sp_name spec) now fails (en_tracker e),
       en_ledger := ledger_failed (sp_name spec) (cp_attempts plan) False (en_ledger e)\<rparr>"

definition outside_change :: "Route \<Rightarrow> Upstream list option \<Rightarrow> engine \<Rightarrow> engine" where
  "outside_change r us e = (case us of None \<Rightarrow> e | Some l \<Rightarrow> e\<lparr>en_upstreams := (en_upstreams e)(r := l)\<rparr>)"

text \<open>After a failed attempt: the attempt is recorded, a wrong digest is a strike, a cancelled attempt ends
  the loop.\<close>

definition after_failure ::
  "fileSpec \<Rightarrow> string \<Rightarrow> Outcome \<Rightarrow> AttemptOutcome \<Rightarrow> attempt_answer \<Rightarrow> chunkPlan \<Rightarrow> engine \<Rightarrow>
   (chunkPlan \<times> engine) option" where
  "after_failure spec k oc d an plan e =
     (let plan' = markFailed k oc (Some (finishAttempt oc (an_startedAt an) (an_now an) d)) plan;
          e1 = e\<lparr>en_tracker := tracker_reset (sp_key spec) (en_tracker e)\<rparr>
      in if oc = OutcomeChecksumMismatch then map_option (Pair plan') (strike (fst (sp_key spec)) k e1)
         else Some (plan', e1))"

fun download_loop ::
  "Config \<Rightarrow> url_api \<Rightarrow> (string \<Rightarrow> string) \<Rightarrow> string \<Rightarrow> attempt_answer list \<Rightarrow> fileSpec \<Rightarrow> string option \<Rightarrow>
   chunkPlan \<Rightarrow> engine \<Rightarrow> (download_result \<times> chunkPlan \<times> engine) option" where
  "download_loop cfg api sha target [] spec part plan e = None"
| "download_loop cfg api sha target (an # ans) spec part plan e =
     (if an_ended an then
        Some (AllSourcesFailed, plan, fail_download spec plan (an_now an) (an_callbackFails an) e)
      else
        let r = fst (sp_key spec); e1 = outside_change r (an_outside an) e in
        case nextUpstream (en_upstreams e1 r) (cp_failed plan) of
          None \<Rightarrow> Some (AllSourcesFailed, plan, fail_download spec plan (an_now an) (an_callbackFails an) e1)
        | Some u \<Rightarrow>
            (case singleStream cfg api sha spec u an (new_attempt (uKey u)) part (en_tracker e1) of
               None \<Rightarrow> None
             | Some sr \<Rightarrow>
                 let e2 = e1\<lparr>en_tracker := sr_tracker sr\<rparr>;
                     spec' = (if sr_outcome sr = OutcomeNone \<and> sp_size spec = 0
                              then spec\<lparr>sp_size := sr_received sr\<rparr> else spec);
                     published = (if sr_outcome sr = OutcomeNone
                                  then publish spec' target (sr_contributions sr) (sr_part sr) an e2 else None);
                     d = (if sr_outcome sr = OutcomeNone
                          then (diagnoseAttempt ''filesystem_publish'' ''publish'' 0
                                 (case an_publish an of None \<Rightarrow> None | Some errno \<Rightarrow> errno) (sr_attempt sr))
                                 \<lparr>aOutcome := OutcomeNetwork\<rparr>
                          else sr_attempt sr);
                     oc = (if sr_outcome sr = OutcomeNone then OutcomeNetwork else sr_outcome sr)
                 in case published of
                      Some e3 \<Rightarrow> Some (Delivered target, plan, e3)
                    | None \<Rightarrow>
                        (case after_failure spec' (uKey u) oc d an plan e2 of
                           None \<Rightarrow> Some (Panicked, plan, e2)
                         | Some (plan', e3) \<Rightarrow>
                             if oc = OutcomeCancelled then
                               Some (AllSourcesFailed, plan',
                                 fail_download spec' plan' (an_now an) (an_callbackFails an) e3)
                             else download_loop cfg api sha target ans spec' (sr_part sr) plan' e3)))"

text \<open>The whole download: a chunked fetch first, then the loop; the partial file is removed at the end.\<close>

record download_answers =
  da_files :: chunk_answers
  da_rounds :: "sched list list"
  da_chunkPublish :: attempt_answer
  da_attempts :: "attempt_answer list"

definition chunk_state :: "Route \<Rightarrow> int \<Rightarrow> bool \<Rightarrow> engine \<Rightarrow> fetchState" where
  "chunk_state r now ended e =
     \<lparr>fs_plan = newChunkPlan, fs_file = (\<lambda>x. None), fs_upstreams = en_upstreams e r,
      fs_tracker = en_tracker e, fs_ended = ended, fs_now = now\<rparr>"

definition after_chunks :: "Route \<Rightarrow> fetchState \<Rightarrow> engine \<Rightarrow> engine" where
  "after_chunks r s e =
     e\<lparr>en_upstreams := (en_upstreams e)(r := fs_upstreams s), en_tracker := fs_tracker s\<rparr>"

definition chunk_env_of :: "url_api \<Rightarrow> fileSpec \<Rightarrow> Upstream list \<Rightarrow> chunk_env" where
  "chunk_env_of api spec us =
     \<lparr>ce_api = api, ce_spec = spec,
      ce_upstream = (\<lambda>k. case find (\<lambda>u. uKey u = k) us of None \<Rightarrow> '''' | Some u \<Rightarrow> uBase u)\<rparr>"

definition download ::
  "Config \<Rightarrow> url_api \<Rightarrow> (string \<Rightarrow> string) \<Rightarrow> (string \<Rightarrow> string \<Rightarrow> string) \<Rightarrow> download_answers \<Rightarrow> fileSpec \<Rightarrow>
   engine \<Rightarrow> (download_result \<times> engine) option" where
  "download cfg api sha join ans spec e =
     (let r = fst (sp_key spec); target = pathFor sha join (StagingDir cfg) (sp_key spec);
          part = target @ ''.part''; e1 = staging_track part (staging_track target e);
          an = da_chunkPublish ans;
          finish = map_option (\<lambda>(res, plan, e'). (res, staging_remove part e')) in
      case tryChunked cfg (chunk_env_of api spec (en_upstreams e1 r)) (da_files ans) sha (da_rounds ans)
             (chunk_state r (an_startedAt an) (an_ended an) e1) of
        None \<Rightarrow> None
      | Some (ok, s) \<Rightarrow>
          let e2 = after_chunks r s e1; plan = fs_plan s;
              body = (if ok then Some (file_content (sp_size spec) (fs_file s)) else None) in
          if ok then
            (case publish spec target (cp_contributions plan) body an e2 of
               Some e3 \<Rightarrow> Some (Delivered target, staging_remove part e3)
             | None \<Rightarrow>
                 let d = (diagnoseAttempt ''filesystem_publish'' ''publish'' 0
                       (case an_publish an of None \<Rightarrow> None | Some errno \<Rightarrow> errno) (new_attempt ''''))
                       \<lparr>aOutcome := OutcomeNetwork\<rparr>
                 in finish (download_loop cfg api sha target (da_attempts ans) spec body
                      (plan\<lparr>cp_attempts := cp_attempts plan @ [d]\<rparr>) e2))
          else finish (download_loop cfg api sha target (da_attempts ans) spec body plan e2))"

text \<open>\<open>fetch\<close>: a stopped relay or a context that ends while waiting for a slot fetches nothing; a file
  without a registered digest is probed for its size first and refused when it is too large.\<close>

datatype fetch_result = Fetch download_result | FetchRefused | SlotCancelled

definition engine_fetch ::
  "Config \<Rightarrow> url_api \<Rightarrow> (string \<Rightarrow> string) \<Rightarrow> (string \<Rightarrow> string \<Rightarrow> string) \<Rightarrow> bool \<Rightarrow> open_answer list \<Rightarrow>
   download_answers \<Rightarrow> Route \<Rightarrow> string \<Rightarrow> engine \<Rightarrow> (fetch_result \<times> engine) option" where
  "engine_fetch cfg api sha join slot heads ans r path e =
     (if tk_stopped (en_tracker e) then Some (FetchRefused, e)
      else if \<not> slot then Some (SlotCancelled, e)
      else
        let spec = describe e r path;
            (spec', e') = (if sp_digest spec = None then probeSize api heads spec e else (spec, e)) in
        if sp_digest spec' = None \<and> MaxUnregisteredBytes cfg < sp_size spec' then Some (FetchRefused, e')
        else map_option (\<lambda>(res, e2). (Fetch res, e2)) (download cfg api sha join ans spec' e'))"

section \<open>Evicted sources stay away\<close>

datatype engine_op =
    Register "Item list"
  | SetUpstreams Route "Upstream list"
  | MarkAcceptRange Route string
  | Demote Route string
  | Strike Route string

fun engine_call :: "engine \<Rightarrow> engine_op \<Rightarrow> string + engine" where
  "engine_call e (Register items) = Inr (register items e)"
| "engine_call e (SetUpstreams r us) = Inr (setUpstreams r us e)"
| "engine_call e (MarkAcceptRange r k) = Inr (markAcceptRange r k e)"
| "engine_call e (Demote r k) = Inr (engine_demote r k e)"
| "engine_call e (Strike r k) = (case strike r k e of None \<Rightarrow> Inl ''panic'' | Some e' \<Rightarrow> Inr e')"

definition engine_ok :: "engine \<Rightarrow> bool" where
  "engine_ok e \<longleftrightarrow>
     (\<forall>r u. u \<in> set (en_upstreams e r) \<longrightarrow> strike_count e r (uKey u) < 2) \<and>
     (\<forall>r u. u \<in> set (en_upstreams e r) \<longrightarrow> en_strikes e r \<noteq> None)"

lemma register_item_same [simp]:
  "en_upstreams (register_item item e) = en_upstreams e" "en_strikes (register_item item e) = en_strikes e"
  by (simp_all add: register_item_def)

lemma register_same [simp]:
  "en_upstreams (register items e) = en_upstreams e" "en_strikes (register items e) = en_strikes e"
  unfolding register_def by (induction items arbitrary: e) simp_all

lemma engine_ok_cong:
  "en_upstreams e' = en_upstreams e \<Longrightarrow> en_strikes e' = en_strikes e \<Longrightarrow> engine_ok e' = engine_ok e"
  by (simp add: engine_ok_def strike_count_def)

lemma setUpstreams_ok: "engine_ok e \<Longrightarrow> engine_ok (setUpstreams r us e)"
  by (auto simp: engine_ok_def setUpstreams_def strike_count_def Let_def split: if_splits option.splits)

lemma markAcceptRange_ok: "engine_ok e \<Longrightarrow> engine_ok (markAcceptRange r k e)"
  by (fastforce simp: engine_ok_def markAcceptRange_def strike_count_def)

lemma demote_ok: "engine_ok e \<Longrightarrow> engine_ok (engine_demote r k e)"
  using demoteUpstream_set[of k "en_upstreams e r"]
  by (auto simp: engine_ok_def engine_demote_def strike_count_def)

lemma strike_ok: "engine_ok e \<Longrightarrow> strike r k e = Some e' \<Longrightarrow> engine_ok e'"
  by (fastforce simp: engine_ok_def strike_def strike_count_def Let_def split: option.splits if_splits)

interpretation engine_machine: invariant_machine engine_call engine_ok
proof
  fix e c e' assume "engine_ok e" "engine_call e c = Inr e'"
  then show "engine_ok e'"
    by (cases c) (auto simp: setUpstreams_ok markAcceptRange_ok demote_ok cong: engine_ok_cong
        intro: strike_ok split: option.splits)
qed

lemma newEngine_ok: "engine_ok (newEngine cfg callback)"
  by (auto simp: engine_ok_def newEngine_def strike_count_def split: option.splits)


definition example_upstream :: "string \<Rightarrow> Upstream" where
  "example_upstream k = \<lparr>uKey = k, uBase = ''https://'' @ k @ ''/'', uAcceptRange = False, uRewriteFrom = ''''\<rparr>"

definition example_ops :: "engine_op list" where
  "example_ops = [SetUpstreams RoutePackages [example_upstream ''a'', example_upstream ''b''],
     Strike RoutePackages ''a'', Demote RoutePackages ''a'', Strike RoutePackages ''a'',
     SetUpstreams RoutePackages [example_upstream ''a'', example_upstream ''b'']]"


section \<open>No source twice, and only complete bodies\<close>

definition body_ends :: "(read_event \<times> bool) list \<Rightarrow> bool" where
  "body_ends evs \<longleftrightarrow>
     list_ex (\<lambda>(ev, ended). case ev of BodyPart data err fails \<Rightarrow> err \<noteq> None \<or> ended | _ \<Rightarrow> True) evs"

lemma body_ends_readBody: "body_ends evs \<Longrightarrow> readBody expected evs written counts d \<noteq> None"
  by (induction expected evs written counts d rule: readBody.induct)
     (auto simp: body_ends_def read_end_def Let_def split: prod.splits read_turn.splits option.splits
        body_error.splits if_splits)

definition body_fits :: "(string \<Rightarrow> string) \<Rightarrow> fileSpec \<Rightarrow> string \<Rightarrow> bool" where
  "body_fits sha spec body \<longleftrightarrow>
     (\<forall>d. sp_digest spec = Some d \<longrightarrow> sha body = d) \<and>
     (0 < sp_size spec \<longrightarrow> int (length body) = sp_size spec)"

lemma stream_limit_nonneg: "0 \<le> sp_size spec \<Longrightarrow> 0 < MaxUnregisteredBytes cfg \<Longrightarrow> 0 \<le> stream_limit cfg spec"
  by (auto simp: stream_limit_def)

lemma singleStream_ok:
  assumes run: "singleStream cfg api sha spec u an d part tr = Some sr" and ok: "sr_outcome sr = ''''"
    and lim: "0 \<le> stream_limit cfg spec"
  shows "\<exists>w. sr_part sr = Some w \<and> int (length w) = sr_received sr \<and> body_fits sha spec w \<and>
    sr_contributions sr = [(uKey u, sr_received sr)] \<and> (0 < sp_size spec \<longrightarrow> sr_received sr = sp_size spec)"
proof -
  obtain resp oc d1 t where o: "engine_open api (uBase u @ snd (sp_key spec)) (an_open an) d = ((resp, oc, d1), t)"
    by (metis prod_cases3 surj_pair)
  note cases = engine_open_cases[OF o]
  from run ok o cases obtain written counts oc1 d2 where
    body: "readBody (stream_limit cfg spec) (an_body an) '''' [] d1 = Some (written, counts, oc1, d2)"
    and oc1: "oc1 = ''''" and part: "sr_part sr = Some written" and rec: "sr_received sr = sum_list counts"
    and con: "sr_contributions sr = [(uKey u, sum_list counts)]"
    and chk: "fst (check_stream sha spec written (sum_list counts) d2) = ''''"
    by (auto simp: singleStream_def Let_def split: option.splits if_splits prod.splits)
  from readBody_bounds[OF body lim] lim oc1 have "int (length written) = sum_list counts" by auto
  moreover from chk have "0 < sp_size spec \<longrightarrow> sum_list counts = sp_size spec"
    "\<forall>d. sp_digest spec = Some d \<longrightarrow> sha written = d"
    by (auto simp: check_stream_def split: if_splits option.splits)
  ultimately show ?thesis using part rec con by (auto simp: body_fits_def)
qed

lemma publish_Some:
  "publish spec target contributions part an e = Some e' \<Longrightarrow>
     en_files e' target = part \<and> en_upstreams e' = en_upstreams e \<and> en_strikes e' = en_strikes e \<and>
     en_ledger e' = ledger_delivered (sp_size spec) contributions (en_ledger e)"
  by (auto simp: publish_def split: option.splits)

lemma strike_other:
  "strike r k e = Some e' \<Longrightarrow>
     en_ledger e' = en_ledger e \<and> (\<forall>r. en_strikes e r \<noteq> None \<longrightarrow> en_strikes e' r \<noteq> None) \<and>
     (\<forall>r. set (en_upstreams e' r) \<subseteq> set (en_upstreams e r))"
  by (auto simp: strike_def Let_def split: option.splits if_splits)

lemma after_failure_Some:
  "after_failure spec k oc d an plan e = Some (plan', e') \<Longrightarrow>
     (\<exists>a. aSource a = k \<and> cp_attempts plan' = cp_attempts plan @ [a]) \<and>
     cp_failed plan' = insert k (cp_failed plan) \<and> en_ledger e' = en_ledger e \<and>
     (\<forall>r. en_strikes e r \<noteq> None \<longrightarrow> en_strikes e' r \<noteq> None) \<and>
     (\<forall>r. set (en_upstreams e' r) \<subseteq> set (en_upstreams e r))"
  by (auto simp: after_failure_def markFailed_def Let_def subset_iff split: if_splits dest!: strike_other)

lemma after_failure_None:
  "after_failure spec k oc d an plan e = None \<Longrightarrow> en_strikes e (fst (sp_key spec)) = None"
  by (auto simp: after_failure_def strike_def Let_def split: if_splits option.splits)

lemma nextUpstream_Some:
  "nextUpstream us failed = Some u \<Longrightarrow> u \<in> set us \<and> uKey u \<notin> failed"
  by (auto simp: nextUpstream_def find_Some_iff)

definition tried :: "chunkPlan \<Rightarrow> chunkPlan \<Rightarrow> string list \<Rightarrow> bool" where
  "tried p p' ks \<longleftrightarrow>
     map aSource (cp_attempts p') = map aSource (cp_attempts p) @ ks \<and>
     distinct ks \<and> set ks \<inter> cp_failed p = {} \<and> cp_failed p' = cp_failed p \<union> set ks"

lemma tried_refl: "tried p p []"
  by (simp add: tried_def)

lemma tried_cons:
  assumes "after_failure spec k oc d an plan e = Some (plan', e')" "k \<notin> cp_failed plan" "tried plan' plan'' ks"
  shows "tried plan plan'' (k # ks)"
  using after_failure_Some[OF assms(1)] assms(2,3) by (auto simp: tried_def)

definition loop_post ::
  "(string \<Rightarrow> string) \<Rightarrow> string \<Rightarrow> fileSpec \<Rightarrow> chunkPlan \<Rightarrow> engine \<Rightarrow> download_result \<Rightarrow> chunkPlan \<Rightarrow> engine \<Rightarrow> bool" where
  "loop_post sha target spec plan e res plan' e' \<longleftrightarrow>
     (\<exists>ks. tried plan plan' ks) \<and>
     (case res of
        Delivered t \<Rightarrow> t = target \<and> (\<exists>body. en_files e' target = Some body \<and> body_fits sha spec body)
      | AllSourcesFailed \<Rightarrow> True
      | Panicked \<Rightarrow> en_strikes e (fst (sp_key spec)) = None) \<and>
     (ledger_ok (en_ledger e) \<longrightarrow> ledger_ok (en_ledger e'))"

lemma ledger_fail_download [simp]:
  "ledger_ok (en_ledger e) \<Longrightarrow> ledger_ok (en_ledger (fail_download spec plan now fails e))"
  by (simp add: fail_download_def ledger_failed_ok)

lemma outside_change_same [simp]:
  "en_ledger (outside_change r us e) = en_ledger e" "en_strikes (outside_change r us e) = en_strikes e"
  by (simp_all add: outside_change_def split: option.split)

lemma download_loop_post:
  "download_loop cfg api sha target ans spec part plan e = Some (res, plan', e') \<Longrightarrow>
   0 \<le> sp_size spec \<Longrightarrow> 0 < MaxUnregisteredBytes cfg \<Longrightarrow>
     loop_post sha target spec plan e res plan' e'"
proof (induction ans arbitrary: spec part plan e)
  case (Cons an ans)
  let ?r = "fst (sp_key spec)" and ?e1 = "outside_change (fst (sp_key spec)) (an_outside an) e"
  show ?case
  proof (cases "an_ended an \<or> nextUpstream (en_upstreams ?e1 ?r) (cp_failed plan) = None")
    case True
    with Cons.prems(1) show ?thesis
      by (auto simp: loop_post_def Let_def intro: tried_refl split: if_splits)
  next
    case False
    then obtain u where go: "\<not> an_ended an" and u: "nextUpstream (en_upstreams ?e1 ?r) (cp_failed plan) = Some u"
      by auto
    note uf = nextUpstream_Some[OF u]
    from Cons.prems(1) go u obtain sr where
      sr: "singleStream cfg api sha spec u an (new_attempt (uKey u)) part (en_tracker ?e1) = Some sr"
      by (auto simp: Let_def split: option.splits)
    define e2 where "e2 = ?e1\<lparr>en_tracker := sr_tracker sr\<rparr>"
    define spec' where "spec' = (if sr_outcome sr = '''' \<and> sp_size spec = 0
        then spec\<lparr>sp_size := sr_received sr\<rparr> else spec)"
    define published where "published = (if sr_outcome sr = ''''
        then publish spec' target (sr_contributions sr) (sr_part sr) an e2 else None)"
    define d where "d = (if sr_outcome sr = ''''
        then (diagnoseAttempt ''filesystem_publish'' ''publish'' 0
               (case an_publish an of None \<Rightarrow> None | Some errno \<Rightarrow> errno) (sr_attempt sr))
               \<lparr>aOutcome := OutcomeNetwork\<rparr>
        else sr_attempt sr)"
    define oc where "oc = (if sr_outcome sr = '''' then OutcomeNetwork else sr_outcome sr)"
    have same: "en_ledger e2 = en_ledger e" "en_strikes e2 = en_strikes e"
      by (simp_all add: e2_def)
    have lim: "0 \<le> stream_limit cfg spec" using Cons.prems(2,3) by (rule stream_limit_nonneg)
    have key: "sp_key spec' = sp_key spec" "sp_digest spec' = sp_digest spec"
      "0 < sp_size spec \<Longrightarrow> sp_size spec' = sp_size spec"
      by (auto simp: spec'_def)
    have size': "0 \<le> sp_size spec'"
      using Cons.prems(2) singleStream_ok[OF sr _ lim] by (auto simp: spec'_def)
    note step = Cons.prems(1)[unfolded download_loop.simps Let_def if_not_P[OF go] u option.case sr,
        folded e2_def, folded spec'_def, folded published_def d_def oc_def]
    show ?thesis
    proof (cases published)
      case (Some e3)
      then have out: "sr_outcome sr = ''''" and pub: "publish spec' target (sr_contributions sr) (sr_part sr) an e2 = Some e3"
        by (auto simp: published_def split: if_splits)
      from step Some have res: "res = Delivered target" "plan' = plan" "e' = e3" by auto
      from singleStream_ok[OF sr out lim] obtain w where
        w: "sr_part sr = Some w" "int (length w) = sr_received sr" "body_fits sha spec w"
        and con: "sr_contributions sr = [(uKey u, sr_received sr)]"
          "0 < sp_size spec \<longrightarrow> sr_received sr = sp_size spec" by blast
      have "counters (sr_contributions sr) = sp_size spec'"
        using con out Cons.prems(2) by (auto simp: counters_def spec'_def)
      then have "ledger_ok (en_ledger e) \<longrightarrow> ledger_ok (en_ledger e3)"
        using publish_Some[OF pub] same(1) by (simp add: ledger_delivered_ok)
      with res w publish_Some[OF pub] show ?thesis
        by (auto simp: loop_post_def intro: tried_refl)
    next
      case None
      show ?thesis
      proof (cases "after_failure spec' (uKey u) oc d an plan e2")
        case af: None
        with step None have "res = Panicked" "plan' = plan" "e' = e2" by auto
        with after_failure_None[OF af] key same show ?thesis
          by (auto simp: loop_post_def intro: tried_refl)
      next
        case (Some p)
        obtain plan1 e3 where p: "p = (plan1, e3)" by fastforce
        note af = after_failure_Some[OF Some[unfolded p]]
        show ?thesis
        proof (cases "oc = OutcomeCancelled")
          case True
          with step None Some p have res: "res = AllSourcesFailed" "plan' = plan1"
            "e' = fail_download spec' plan1 (an_now an) (an_callbackFails an) e3" by auto
          have "tried plan plan' [uKey u]"
            using tried_cons[OF Some[unfolded p] _ tried_refl] uf res(2) by simp
          with res af same show ?thesis by (auto simp: loop_post_def)
        next
          case False
          with step None Some p have
            rest: "download_loop cfg api sha target ans spec' (sr_part sr) plan1 e3 = Some (res, plan', e')"
            by auto
          from Cons.IH[OF rest size' Cons.prems(3)]
          have IH: "loop_post sha target spec' plan1 e3 res plan' e'" .
          then obtain ks where "tried plan1 plan' ks" by (auto simp: loop_post_def)
          then have "tried plan plan' (uKey u # ks)" using tried_cons[OF Some[unfolded p]] uf by blast
          with IH af same key show ?thesis
            by (fastforce simp: loop_post_def body_fits_def split: download_result.splits)
        qed
      qed
    qed
  qed
qed simp


section \<open>A download ends\<close>

definition unfailed :: "chunkPlan \<Rightarrow> Upstream list \<Rightarrow> string set" where
  "unfailed plan us = uKey ` set us - cp_failed plan"

lemma singleStream_ends: "body_ends (an_body an) \<Longrightarrow> singleStream cfg api sha spec u an d part tr \<noteq> None"
proof -
  assume ends: "body_ends (an_body an)"
  have read: "readBody expected (an_body an) '''' [] d = None \<Longrightarrow> False" for expected d
    using body_ends_readBody[OF ends] by blast
  show ?thesis by (auto simp: singleStream_def Let_def dest: read split: prod.splits option.splits)
qed

lemma download_loop_ends_aux:
  "\<forall>an \<in> set ans. an_outside an = None \<and> body_ends (an_body an) \<Longrightarrow>
   card (unfailed plan (en_upstreams e (fst (sp_key spec)))) < length ans \<Longrightarrow>
     download_loop cfg api sha target ans spec part plan e \<noteq> None"
proof (induction ans arbitrary: spec part plan e)
  case (Cons an ans)
  let ?r = "fst (sp_key spec)"
  show ?case
  proof (cases "an_ended an \<or> nextUpstream (en_upstreams e ?r) (cp_failed plan) = None")
    case True
    with Cons.prems(1) show ?thesis by (auto simp: Let_def outside_change_def)
  next
    case False
    then obtain u where go: "\<not> an_ended an" and u: "nextUpstream (en_upstreams e ?r) (cp_failed plan) = Some u"
      by auto
    note uf = nextUpstream_Some[OF u]
    have e1: "outside_change ?r (an_outside an) e = e" using Cons.prems(1) by (simp add: outside_change_def)
    obtain sr where sr: "singleStream cfg api sha spec u an (new_attempt (uKey u)) part (en_tracker e) = Some sr"
      using singleStream_ends Cons.prems(1) by (metis list.set_intros(1) not_None_eq)
    have next_ends: "download_loop cfg api sha target ans spec' part' plan' e3 \<noteq> None"
      if af: "after_failure spec' (uKey u) oc d an plan e2 = Some (plan', e3)" and key: "sp_key spec' = sp_key spec"
        and e2: "en_upstreams e2 = en_upstreams e" for spec' part' plan' e3 oc d e2
    proof (rule Cons.IH)
      note a = after_failure_Some[OF af]
      have sub: "unfailed plan' (en_upstreams e3 (fst (sp_key spec'))) \<subseteq>
          unfailed plan (en_upstreams e ?r) - {uKey u}"
      proof -
        have "uKey ` set (en_upstreams e3 ?r) \<subseteq> uKey ` set (en_upstreams e ?r)"
          using a e2 by (intro image_mono) simp
        then show ?thesis using a key by (auto simp: unfailed_def)
      qed
      have "uKey u \<in> unfailed plan (en_upstreams e ?r)" using uf by (auto simp: unfailed_def)
      moreover have "finite (unfailed plan (en_upstreams e ?r))" by (simp add: unfailed_def)
      ultimately have "card (unfailed plan (en_upstreams e ?r) - {uKey u}) < card (unfailed plan (en_upstreams e ?r))"
        by (intro card_Diff1_less)
      moreover have "card (unfailed plan' (en_upstreams e3 (fst (sp_key spec')))) \<le>
          card (unfailed plan (en_upstreams e ?r) - {uKey u})"
        by (rule card_mono[OF _ sub]) (simp add: unfailed_def)
      ultimately show "card (unfailed plan' (en_upstreams e3 (fst (sp_key spec')))) < length ans"
        using Cons.prems(2) by simp
    qed (use Cons.prems(1) in auto)
    show ?thesis
      using go u sr e1 next_ends
      by (auto simp: Let_def split: option.splits prod.splits if_splits)
  qed
qed simp


definition all_answered :: "open_answer \<Rightarrow> (read_event \<times> bool) list \<Rightarrow> attempt_answer" where
  "all_answered a evs = \<lparr>an_outside = None, an_ended = False, an_open = a, an_create = None, an_body = evs,
     an_close = None, an_publish = None, an_startedAt = 0, an_now = 1, an_callbackFails = False\<rparr>"

definition two_attempts :: "attempt_answer list" where
  "two_attempts = [all_answered (answer_status 404) [(StallTimer, False)],
     all_answered (answer_status 200) [(BodyPart ''abc'' None None, False), (BodyPart ''d'' (Some EndOfFile) None, False)],
     all_answered (answer_status 200) [(StallTimer, False)]]"

definition small_spec :: fileSpec where
  "small_spec = \<lparr>sp_key = example_key, sp_name = ''x.whl'', sp_size = 4, sp_digest = Some ''abcd''\<rparr>"

definition two_engine :: engine where
  "two_engine = setUpstreams RoutePackages two_sources (newEngine small_config False)"



section \<open>Items and whole downloads\<close>

text \<open>A registered item is found under its own path and with its own size and digest.\<close>

definition items_valid :: "engine \<Rightarrow> bool" where
  "items_valid e \<longleftrightarrow> (\<forall>p item. en_items e p = Some item \<longrightarrow> validateItem item = None \<and> iPath item = p)"

lemma register_item_valid: "items_valid e \<Longrightarrow> items_valid (register_item item e)"
  by (auto simp: register_item_def items_valid_def)

lemma register_keeps_valid: "items_valid e \<Longrightarrow> items_valid (register items e)"
  unfolding register_def by (induction items arbitrary: e) (simp_all add: register_item_valid)

lemma describe_registered:
  assumes "items_valid e" and "en_items e path = Some item"
  shows "sp_size (describe e RoutePackages path) = iSize item \<and>
    sp_digest (describe e RoutePackages path) = hex_decode (iSHA256 item) \<and> hex_decode (iSHA256 item) \<noteq> None \<and>
    resolveRoute (''/packages/'' @ path) ''GET'' = \<lparr>rs_route = RoutePackages, rs_path = path, rs_status = 0\<rparr>"
proof -
  from assms have v: "validateItem item = None" "iPath item = path" by (auto simp: items_valid_def)
  from v(1) obtain d where "hex_decode (iSHA256 item) = Some d"
    by (auto simp: validateItem_def split: if_splits option.splits)
  with assms(2) validateItem_resolves[OF v(1), of "''GET''"] v(2) show ?thesis
    by (simp add: describe_def find_item_def Let_def)
qed

lemma staging_remove_other: "p \<noteq> q \<Longrightarrow> en_files (staging_remove p e) q = en_files e q"
  by (simp add: staging_remove_def)

lemma length_file_content [simp]: "length (file_content n f) = nat n"
  by (simp add: file_content_def)

lemma download_complete_aux:
  assumes run: "download cfg api sha join ans spec e = Some (Delivered t, e')"
    and cfg: "0 < ChunkSize cfg" "0 < MaxUnregisteredBytes cfg" and spec: "0 \<le> sp_size spec"
    and ups: "keys_distinct (en_upstreams e (fst (sp_key spec)))"
    and sched: "list_all (list_all sched_ok) (da_rounds ans)"
  shows "t = pathFor sha join (StagingDir cfg) (sp_key spec) \<and>
    (\<exists>body. en_files e' t = Some body \<and> body_fits sha spec body) \<and>
    (ledger_ok (en_ledger e) \<longrightarrow> ledger_ok (en_ledger e'))"
proof -
  let ?r = "fst (sp_key spec)" and ?target = "pathFor sha join (StagingDir cfg) (sp_key spec)"
  define e1 where "e1 = staging_track (?target @ ''.part'') (staging_track ?target e)"
  have e1: "en_upstreams e1 = en_upstreams e" "en_ledger e1 = en_ledger e"
    by (simp_all add: e1_def staging_track_def)
  let ?env = "chunk_env_of api spec (en_upstreams e1 ?r)"
  have env: "ce_spec ?env = spec" by (simp add: chunk_env_of_def)
  have ne: "?target @ ''.part'' \<noteq> ?target" by simp
  from run obtain ok s where
    tryc: "tryChunked cfg ?env (da_files ans) sha (da_rounds ans)
      (chunk_state ?r (an_startedAt (da_chunkPublish ans)) (an_ended (da_chunkPublish ans)) e1) = Some (ok, s)"
    by (auto simp: download_def Let_def e1_def split: option.splits)
  define e2 where "e2 = after_chunks ?r s e1"
  have e2: "en_ledger e2 = en_ledger e" by (simp add: e2_def after_chunks_def e1)
  note step = run[unfolded download_def Let_def, folded e1_def, unfolded tryc option.case prod.case, folded e2_def]
  have chunked: "body_fits sha spec (file_content (sp_size spec) (fs_file s)) \<and>
      counters (cp_contributions (fs_plan s)) = sp_size spec" if ok
  proof -
    from tryc that have
      tr: "tryChunked cfg ?env (da_files ans) sha (da_rounds ans)
        (chunk_state ?r (an_startedAt (da_chunkPublish ans)) (an_ended (da_chunkPublish ans)) e1) = Some (True, s)"
      by simp
    from tryChunked_complete_aux[OF tr cfg(1) _ _ sched] ups e1 env spec show ?thesis
      by (auto simp: chunk_state_def body_fits_def split: option.splits)
  qed
  show ?thesis
  proof (cases "ok \<and> publish spec ?target (cp_contributions (fs_plan s))
      (Some (file_content (sp_size spec) (fs_file s))) (da_chunkPublish ans) e2 \<noteq> None")
    case True
    then obtain e3 where ok: ok and pub: "publish spec ?target (cp_contributions (fs_plan s))
      (Some (file_content (sp_size spec) (fs_file s))) (da_chunkPublish ans) e2 = Some e3" by auto
    from step ok pub have "t = ?target" "e' = staging_remove (?target @ ''.part'') e3" by auto
    with publish_Some[OF pub] chunked[OF ok] e2 show ?thesis
      by (auto simp: staging_remove_def ledger_delivered_ok)
  next
    case False
    with step obtain part plan plan' e3 where
      loop: "download_loop cfg api sha ?target (da_attempts ans) spec part plan e2 = Some (Delivered t, plan', e3)"
      and e': "e' = staging_remove (?target @ ''.part'') e3"
      by (auto split: if_splits option.splits)
    from download_loop_post[OF loop spec cfg(2)] e' e2 show ?thesis
      by (auto simp: loop_post_def staging_remove_def)
  qed
qed

text \<open>C12: A download that delivers hands out the file under the name that the route and the path give it,
  with the registered size and digest whichever way it was fetched, chunked or as a single stream,
  and the ledger still credits every delivered byte to exactly one source.\<close>

theorem download_delivers_complete:
  "download cfg api sha join ans spec e = Some (Delivered t, e') \<Longrightarrow>
   0 < ChunkSize cfg \<Longrightarrow> 0 < MaxUnregisteredBytes cfg \<Longrightarrow> 0 \<le> sp_size spec \<Longrightarrow>
   keys_distinct (en_upstreams e (fst (sp_key spec))) \<Longrightarrow> list_all (list_all sched_ok) (da_rounds ans) \<Longrightarrow>
     t = pathFor sha join (StagingDir cfg) (sp_key spec) \<and>
     (\<exists>body. en_files e' t = Some body \<and> body_fits sha spec body) \<and>
     (ledger_ok (en_ledger e) \<longrightarrow> ledger_ok (en_ledger e'))"
  by (rule download_complete_aux)

definition small_download :: download_answers where
  "small_download = \<lparr>da_files = all_well\<lparr>ca_open := Some None\<rparr>, da_rounds = [],
     da_chunkPublish = all_answered (answer_status 200) [], da_attempts = two_attempts\<rparr>"

theorem download_delivers_complete_witness:
  "case download small_config open_url_api (\<lambda>s. s) (@) small_download small_spec two_engine of
     None \<Rightarrow> False
   | Some (res, e) \<Rightarrow>
       (\<exists>t body. res = Delivered t \<and> en_files e t = Some body \<and> body_fits (\<lambda>s. s) small_spec body)"
proof -
  let ?run = "download small_config open_url_api (\<lambda>s. s) (@) small_download small_spec two_engine"
  have "case ?run of None \<Rightarrow> False | Some (res, e) \<Rightarrow> (case res of Delivered t \<Rightarrow> True | _ \<Rightarrow> False)" by code_simp
  then obtain t e where run: "?run = Some (Delivered t, e)"
    by (auto split: option.splits download_result.splits)
  have pre: "0 < ChunkSize small_config" "0 < MaxUnregisteredBytes small_config" "0 \<le> sp_size small_spec"
    "list_all (list_all sched_ok) (da_rounds small_download)"
    by (simp_all add: small_spec_def small_config_def small_download_def)
  have keys: "keys_distinct (en_upstreams two_engine (fst (sp_key small_spec)))" by code_simp
  from download_delivers_complete[OF run pre(1-3) keys pre(4)] run show ?thesis by auto
qed

section \<open>Index pages\<close>

text \<open>\<open>bytes.ReplaceAll\<close> for a text that is not empty.\<close>

function replace_all :: "string \<Rightarrow> string \<Rightarrow> string \<Rightarrow> string" where
  "replace_all old new s =
     (if s = [] then []
      else if old \<noteq> [] \<and> has_prefix s old then new @ replace_all old new (drop (length old) s)
      else hd s # replace_all old new (tl s))"
  by pat_completeness auto
termination
  by (relation "measure (\<lambda>(old, new, s). length s)") auto

declare replace_all.simps [simp del]

definition maxSimpleBody :: int where "maxSimpleBody = 64 * 2 ^ 20"

definition too_large :: io_error where
  "too_large = \<lparr>ie_kind = ''size_limit'', ie_errno = None\<rparr>"

text \<open>\<open>limitedWriter\<close> decides whether a write fails: with less room than bytes nothing is written.\<close>

fun limit_writes :: "int \<Rightarrow> (read_event \<times> bool) list \<Rightarrow> (read_event \<times> bool) list" where
  "limit_writes room [] = []"
| "limit_writes room ((BodyPart data err fails, ended) # evs) =
     (if room < int (length data) then (BodyPart data err (Some (0, too_large)), ended) # evs
      else (BodyPart data err None, ended) # limit_writes (room - int (length data)) evs)"
| "limit_writes room (ev # evs) = ev # evs"

record index_answer =
  ia_open :: open_answer
  ia_body :: "(read_event \<times> bool) list"
  ia_startedAt :: int
  ia_now :: int

definition fetchIndex ::
  "url_api \<Rightarrow> Upstream \<Rightarrow> string \<Rightarrow> index_answer \<Rightarrow> AttemptOutcome \<Rightarrow>
   ((string \<times> string) option \<times> Outcome \<times> AttemptOutcome) option" where
  "fetchIndex api u name ia d =
     (let ((resp, oc, d1), t) = engine_open api (uBase u @ name) (ia_open ia) d in
      case resp of
        None \<Rightarrow> Some (None, oc, d1)
      | Some p \<Rightarrow>
          if rp_status p \<noteq> 200 then
            Some (None, OutcomeHTTPStatus, diagnoseAttempt ''http_status'' ''request'' (rp_status p) None d1)
          else if maxSimpleBody < rp_length p then
            Some (None, OutcomeNetwork, diagnoseAttempt ''size_limit'' ''response_size'' 0 None d1)
          else
            (case readBody 0 (limit_writes maxSimpleBody (ia_body ia)) '''' [] d1 of
               None \<Rightarrow> None
             | Some (written, counts, oc1, d2) \<Rightarrow>
                 if oc1 \<noteq> OutcomeNone then Some (None, oc1, d2)
                 else Some (Some (written, rp_contentType p), OutcomeNone, d2)))"

text \<open>\<open>strings.Trim\<close> with a slash.\<close>

definition trim_slashes :: "string \<Rightarrow> string" where
  "trim_slashes s = rev (dropWhile (\<lambda>c. c = CHR 0x2F) (rev (dropWhile (\<lambda>c. c = CHR 0x2F) s)))"

datatype index_result = IndexServed string string | IndexGone | IndexFailed

definition rewrite_index :: "string \<Rightarrow> Upstream \<Rightarrow> string \<Rightarrow> string" where
  "rewrite_index relayBase u body =
     (if uRewriteFrom u \<noteq> '''' then replace_all (uRewriteFrom u) (relayBase @ ''/packages/'') body else body)"

text \<open>\<open>ended\<close> is \<open>ctx.Err() != nil\<close> once every source has failed.\<close>

fun index_loop ::
  "url_api \<Rightarrow> string \<Rightarrow> string \<Rightarrow> bool \<Rightarrow> (Upstream \<times> index_answer) list \<Rightarrow> AttemptOutcome list \<Rightarrow> engine \<Rightarrow>
   (index_result \<times> engine) option" where
  "index_loop api relayBase name ended [] attempts e =
     (if ended then Some (IndexGone, e)
      else Some (IndexFailed, e\<lparr>en_ledger := ledger_failed (displayName (trim_slashes name)) attempts True (en_ledger e)\<rparr>))"
| "index_loop api relayBase name ended ((u, ia) # us) attempts e =
     (case fetchIndex api u name ia (new_attempt (uKey u)) of
        None \<Rightarrow> None
      | Some (page, oc, d) \<Rightarrow>
          if oc = OutcomeCancelled then Some (IndexGone, e)
          else case page of
            Some (body, contentType) \<Rightarrow> Some (IndexServed (rewrite_index relayBase u body) contentType, e)
          | None \<Rightarrow>
              index_loop api relayBase name ended us
                (attempts @ [finishAttempt oc (ia_startedAt ia) (ia_now ia) d]) e)"

definition serveSimple ::
  "url_api \<Rightarrow> string \<Rightarrow> bool \<Rightarrow> bool \<Rightarrow> index_answer list \<Rightarrow> string \<Rightarrow> engine \<Rightarrow> (index_result \<times> engine) option" where
  "serveSimple api relayBase slot ended answers name e =
     (if \<not> slot then Some (IndexGone, e)
      else index_loop api relayBase name ended (zip (en_upstreams e RouteSimple) answers) [] e)"

lemma limit_writes_length:
  "readBody 0 (limit_writes room evs) written counts d = Some (w, ns, oc, d') \<Longrightarrow> 0 \<le> room \<Longrightarrow>
     int (length w) \<le> int (length written) + room"
proof (induction room evs arbitrary: written counts d rule: limit_writes.induct)
  case (2 room data err fails ended evs)
  show ?case
  proof (cases "room < int (length data)")
    case True
    then have "data \<noteq> ''''" using "2.prems"(2) by auto
    with "2.prems" True show ?thesis by (auto simp: read_write_def Let_def)
  next
    case False
    obtain out stop d1 where rw: "read_write 0 (sum_list counts) data None d = (out, stop, d1)"
      by (metis prod_cases3)
    then have out: "out = data" "\<not> stop" by (auto simp: read_write_def split: if_splits)
    obtain turn d2 where re: "read_end err ended d1 = (turn, d2)" by fastforce
    show ?thesis
    proof (cases turn)
      case ReadOn
      with "2.prems"(1) False rw re out obtain cs where
        "readBody 0 (limit_writes (room - int (length data)) evs) (written @ data) cs d2 = Some (w, ns, oc, d')"
        by (auto simp: Let_def)
      from "2.IH"[OF False this] False show ?thesis by simp
    next
      case (ReadDone x)
      with "2.prems"(1) False rw re out have "w = written @ data" by (auto simp: Let_def)
      with False show ?thesis by simp
    qed
  qed
qed (auto simp: read_stall_def split: if_splits)

text \<open>A page that is served is the rewritten body of one of the sources, of at most 64 MB.\<close>

lemma index_served:
  "index_loop api relayBase name ended us attempts e = Some (IndexServed body ct, e') \<Longrightarrow>
     e' = e \<and> (\<exists>u \<in> fst ` set us. \<exists>page. body = rewrite_index relayBase u page \<and> int (length page) \<le> maxSimpleBody)"
proof (induction us arbitrary: attempts)
  case (Cons p us)
  obtain u ia where p: "p = (u, ia)" by fastforce
  from Cons.prems p obtain page oc d where f: "fetchIndex api u name ia (new_attempt (uKey u)) = Some (page, oc, d)"
    by (auto split: option.splits)
  show ?case
  proof (cases page)
    case None
    with Cons.prems p f Cons.IH show ?thesis by (fastforce split: if_splits)
  next
    case (Some pg)
    obtain written ct' where pg: "pg = (written, ct')" by fastforce
    from f Some pg obtain counts d1 d2 where
      "readBody 0 (limit_writes maxSimpleBody (ia_body ia)) '''' [] d1 = Some (written, counts, '''', d2)"
      by (auto simp: fetchIndex_def Let_def split: prod.splits option.splits if_splits)
    from limit_writes_length[OF this] have "int (length written) \<le> maxSimpleBody"
      by (simp add: maxSimpleBody_def)
    with Cons.prems p f Some pg show ?thesis by (auto split: if_splits)
  qed
qed (auto split: if_splits)

end
