(* ===== verification/Relay_Server.thy ===== *)
theory Relay_Server
  imports Relay_Fetch
begin

text \<open>
  \<open>internal/relay/server.go\<close>: the requests of a relay. Requests for the same file share one fetch; the
  finished files stay in a cache that is trimmed when it grows too large. A run is a list of the
  steps that hold the mutex of the server: a request arrives, a request leaves, a fetch ends. The
  lemmas show that a file has one fetch at a time, that no file is removed while a request reads it,
  and what the cache keeps. The life of the server, from \<open>start\<close> to \<open>Close\<close>, is given with the order
  of its actions.
\<close>

section \<open>The cache\<close>

record fileEntry =
  fe_refs :: int
  fe_used :: nat
  fe_size :: int
  fe_done :: bool
  fe_path :: string
  fe_failed :: bool

text \<open>Entries are objects: a request keeps its entry after the map has forgotten it. \<open>sv_running\<close> are the
  fetches that have not ended, with the key they run for, \<open>sv_readers\<close> the entries of the requests that
  have not been released, and \<open>sv_disk\<close> the staged files.\<close>

record cacheState =
  sv_files :: "(string, nat) go_map"
  sv_entry :: "nat \<Rightarrow> fileEntry"
  sv_next :: nat
  sv_clock :: nat
  sv_stopped :: bool
  sv_running :: "(nat, string) go_map"
  sv_readers :: "nat list"
  sv_disk :: "string set"

record cache_limits =
  cl_bytes :: int
  cl_files :: int
  cl_path :: "string \<Rightarrow> string"
  cl_removable :: "string \<Rightarrow> bool"

definition new_entry :: fileEntry where
  "new_entry = \<lparr>fe_refs = 0, fe_used = 0, fe_size = 0, fe_done = False, fe_path = '''', fe_failed = False\<rparr>"

definition new_cache :: cacheState where
  "new_cache = \<lparr>sv_files = [], sv_entry = (\<lambda>i. new_entry), sv_next = 0, sv_clock = 0, sv_stopped = False,
     sv_running = [], sv_readers = [], sv_disk = {}\<rparr>"

definition upd_entry :: "nat \<Rightarrow> (fileEntry \<Rightarrow> fileEntry) \<Rightarrow> cacheState \<Rightarrow> cacheState" where
  "upd_entry i f s = s\<lparr>sv_entry := (sv_entry s)(i := f (sv_entry s i))\<rparr>"

text \<open>One pass of the loop of \<open>trimCache\<close> over the files: the bytes of the finished files and the one that
  can be removed and was used longest ago.\<close>

fun scan_files :: "(nat \<Rightarrow> fileEntry) \<Rightarrow> int \<Rightarrow> (string \<times> nat) option \<Rightarrow> (string, nat) go_map \<Rightarrow> int \<times> (string \<times> nat) option" where
  "scan_files entry tot oldest [] = (tot, oldest)"
| "scan_files entry tot oldest ((k, i) # files) =
     (let e = entry i in
      if fe_done e then
        scan_files entry (tot + fe_size e)
          (if fe_refs e = 0 \<and> \<not> fe_failed e \<and>
              (case oldest of None \<Rightarrow> True | Some (k0, i0) \<Rightarrow> fe_used e < fe_used (entry i0))
           then Some (k, i) else oldest) files
      else scan_files entry tot oldest files)"

fun trim_loop :: "nat \<Rightarrow> cache_limits \<Rightarrow> cacheState \<Rightarrow> cacheState" where
  "trim_loop 0 lim s = s"
| "trim_loop (Suc fuel) lim s =
     (let (tot, oldest) = scan_files (sv_entry s) 0 None (sv_files s) in
      if tot \<le> cl_bytes lim \<and> int (length (sv_files s)) \<le> cl_files lim then s
      else case oldest of
        None \<Rightarrow> s
      | Some (k, i) \<Rightarrow>
          if \<not> cl_removable lim (fe_path (sv_entry s i)) then s\<lparr>sv_stopped := True\<rparr>
          else trim_loop fuel lim
            (s\<lparr>sv_disk := sv_disk s - {fe_path (sv_entry s i)}, sv_files := AList.delete k (sv_files s)\<rparr>))"

text \<open>Every turn but the last forgets a file: one more turn than there are files is enough.\<close>

definition trimCache :: "cache_limits \<Rightarrow> cacheState \<Rightarrow> cacheState" where
  "trimCache lim s = trim_loop (length (sv_files s) + 1) lim s"

text \<open>The first part of \<open>awaitFile\<close>: the entry of the key, with a new fetch when there is none.\<close>

definition find_entry :: "string \<Rightarrow> cacheState \<Rightarrow> nat \<times> cacheState" where
  "find_entry k s =
     (case map_of (sv_files s) k of
        Some i \<Rightarrow> (i, s)
      | None \<Rightarrow>
          (sv_next s, s\<lparr>sv_entry := (sv_entry s)(sv_next s := new_entry),
             sv_files := AList.update k (sv_next s) (sv_files s),
             sv_running := AList.update (sv_next s) k (sv_running s), sv_next := sv_next s + 1\<rparr>))"

definition arrive :: "string \<Rightarrow> cacheState \<Rightarrow> cacheState" where
  "arrive k s =
     (let (i, s1) = find_entry k s; now = sv_clock s1 + 1 in
      (upd_entry i (\<lambda>e. e\<lparr>fe_used := now, fe_refs := fe_refs e + 1\<rparr>) s1)
        \<lparr>sv_clock := now, sv_readers := i # sv_readers s1\<rparr>)"

text \<open>The function \<open>release\<close> of a request.\<close>

definition leave :: "cache_limits \<Rightarrow> nat \<Rightarrow> cacheState \<Rightarrow> cacheState" where
  "leave lim i s =
     trimCache lim ((upd_entry i (\<lambda>e. e\<lparr>fe_refs := fe_refs e - 1\<rparr>) s)\<lparr>sv_readers := remove1 i (sv_readers s)\<rparr>)"

text \<open>The end of \<open>runFetch\<close>: \<open>result\<close> is the size of the file that was fetched, \<open>None\<close> for an error.\<close>

definition fetch_ends :: "cache_limits \<Rightarrow> nat \<Rightarrow> string \<Rightarrow> int option \<Rightarrow> cacheState \<Rightarrow> cacheState" where
  "fetch_ends lim i k result s =
     (let s1 = s\<lparr>sv_running := AList.delete i (sv_running s)\<rparr>;
          s2 = (case result of
             Some n \<Rightarrow>
               (upd_entry i (\<lambda>e. e\<lparr>fe_path := cl_path lim k, fe_size := n, fe_done := True\<rparr>) s1)
                 \<lparr>sv_disk := insert (cl_path lim k) (sv_disk s1)\<rparr>
           | None \<Rightarrow>
               (upd_entry i (\<lambda>e. e\<lparr>fe_failed := True, fe_done := True\<rparr>) s1)
                 \<lparr>sv_files := AList.delete k (sv_files s1)\<rparr>)
      in trimCache lim s2)"

datatype cache_call = Arrive string | Leave nat | FetchEnds nat "int option"

fun cache_step :: "cache_limits \<Rightarrow> cacheState \<Rightarrow> cache_call \<Rightarrow> unit + cacheState" where
  "cache_step lim s (Arrive k) = Inr (arrive k s)"
| "cache_step lim s (Leave i) = (if i \<in> set (sv_readers s) then Inr (leave lim i s) else Inl ())"
| "cache_step lim s (FetchEnds i result) =
     (case map_of (sv_running s) i of None \<Rightarrow> Inl () | Some k \<Rightarrow> Inr (fetch_ends lim i k result s))"

section \<open>Its invariant\<close>

text \<open>What is true of the map, the entries, the running fetches and the requests at every moment.\<close>

definition file_ok :: "cache_limits \<Rightarrow> cacheState \<Rightarrow> string \<Rightarrow> nat \<Rightarrow> bool" where
  "file_ok lim s k i \<longleftrightarrow>
     i < sv_next s \<and> \<not> fe_failed (sv_entry s i) \<and>
     (if fe_done (sv_entry s i) then fe_path (sv_entry s i) = cl_path lim k \<and> cl_path lim k \<in> sv_disk s
      else map_of (sv_running s) i = Some k)"

definition running_ok :: "cacheState \<Rightarrow> nat \<Rightarrow> string \<Rightarrow> bool" where
  "running_ok s i k \<longleftrightarrow> map_of (sv_files s) k = Some i \<and> \<not> fe_done (sv_entry s i) \<and> i < sv_next s"

definition reader_ok :: "cacheState \<Rightarrow> nat \<Rightarrow> bool" where
  "reader_ok s i \<longleftrightarrow>
     i < sv_next s \<and>
     (fe_done (sv_entry s i) \<and> \<not> fe_failed (sv_entry s i) \<longrightarrow> (\<exists>k. map_of (sv_files s) k = Some i))"

definition refs_ok :: "cacheState \<Rightarrow> nat \<Rightarrow> bool" where
  "refs_ok s i \<longleftrightarrow> fe_refs (sv_entry s i) = int (count_list (sv_readers s) i)"

definition cache_ok :: "cache_limits \<Rightarrow> cacheState \<Rightarrow> bool" where
  "cache_ok lim s \<longleftrightarrow>
     map_ok (sv_files s) \<and> map_ok (sv_running s) \<and>
     (\<forall>k i. map_of (sv_files s) k = Some i \<longrightarrow> file_ok lim s k i) \<and>
     (\<forall>i k. map_of (sv_running s) i = Some k \<longrightarrow> running_ok s i k) \<and>
     (\<forall>i. i \<in> set (sv_readers s) \<longrightarrow> reader_ok s i) \<and> (\<forall>i. i < sv_next s \<longrightarrow> refs_ok s i)"

lemmas item_ok_defs = file_ok_def running_ok_def reader_ok_def refs_ok_def

lemma scan_files_oldest:
  "scan_files entry tot oldest files = (tot', Some (k, i)) \<Longrightarrow>
     oldest = Some (k, i) \<or> ((k, i) \<in> set files \<and> fe_done (entry i) \<and> fe_refs (entry i) = 0 \<and> \<not> fe_failed (entry i))"
proof (induction files arbitrary: tot oldest)
  case (Cons p files)
  obtain a b where p: "p = (a, b)" by fastforce
  define old where "old = (if fe_done (entry b) \<and> fe_refs (entry b) = 0 \<and> \<not> fe_failed (entry b) \<and>
      (case oldest of None \<Rightarrow> True | Some (k0, i0) \<Rightarrow> fe_used (entry b) < fe_used (entry i0))
    then Some (a, b) else oldest)"
  from Cons.prems p obtain t where "scan_files entry t old files = (tot', Some (k, i))"
    by (auto simp: Let_def old_def split: if_splits)
  from Cons.IH[OF this] p show ?case by (auto simp: old_def split: if_splits)
qed simp

lemma cache_okD:
  assumes "cache_ok lim s"
  shows "map_ok (sv_files s)" "map_ok (sv_running s)"
    "\<And>k i. map_of (sv_files s) k = Some i \<Longrightarrow> file_ok lim s k i"
    "\<And>i k. map_of (sv_running s) i = Some k \<Longrightarrow> running_ok s i k"
    "\<And>i. i \<in> set (sv_readers s) \<Longrightarrow> reader_ok s i"
    "\<And>i. i < sv_next s \<Longrightarrow> refs_ok s i"
  using assms unfolding cache_ok_def by blast+

lemma cache_ok_intro:
  assumes "map_ok (sv_files s)" "map_ok (sv_running s)"
    "\<And>k i. map_of (sv_files s) k = Some i \<Longrightarrow> file_ok lim s k i"
    "\<And>i k. map_of (sv_running s) i = Some k \<Longrightarrow> running_ok s i k"
    "\<And>i. i \<in> set (sv_readers s) \<Longrightarrow> reader_ok s i"
    "\<And>i. i < sv_next s \<Longrightarrow> refs_ok s i"
  shows "cache_ok lim s"
  unfolding cache_ok_def using assms by blast

lemma cache_ok_parts:
  assumes "cache_ok lim s"
  shows "\<And>k i. map_of (sv_files s) k = Some i \<Longrightarrow> i < sv_next s"
    "\<And>k i. map_of (sv_files s) k = Some i \<Longrightarrow> \<not> fe_done (sv_entry s i) \<Longrightarrow> map_of (sv_running s) i = Some k"
    "\<And>i k. map_of (sv_running s) i = Some k \<Longrightarrow> map_of (sv_files s) k = Some i"
    "\<And>i k. map_of (sv_running s) i = Some k \<Longrightarrow> \<not> fe_done (sv_entry s i)"
    "\<And>i. i \<in> set (sv_readers s) \<Longrightarrow> i < sv_next s"
  using cache_okD[OF assms] unfolding item_ok_defs by (metis)+

text \<open>Forgetting a finished file that no request holds.\<close>

lemma cache_ok_evict:
  assumes ok: "cache_ok lim s" and inj: "inj (cl_path lim)" and k: "map_of (sv_files s) k = Some i"
    and dn: "fe_done (sv_entry s i)" and refs: "fe_refs (sv_entry s i) = 0"
  shows "cache_ok lim (s\<lparr>sv_disk := sv_disk s - {fe_path (sv_entry s i)}, sv_files := AList.delete k (sv_files s)\<rparr>)"
    (is "cache_ok lim ?s")
proof -
  note c = cache_okD[OF ok] and parts = cache_ok_parts[OF ok]
  from c(3)[OF k] dn have i: "i < sv_next s" "fe_path (sv_entry s i) = cl_path lim k"
    by (auto simp: file_ok_def)
  from c(6)[OF i(1)] refs have none: "i \<notin> set (sv_readers s)"
    unfolding refs_ok_def by (metis count_list_0_iff of_nat_eq_0_iff)
  have files: "map_of (sv_files ?s) k' = Some j \<longleftrightarrow> k' \<noteq> k \<and> map_of (sv_files s) k' = Some j" for k' j
    by (auto simp: delete_conv')
  show ?thesis
  proof (rule cache_ok_intro)
    fix k' j assume "map_of (sv_files ?s) k' = Some j"
    then have k': "k' \<noteq> k" "map_of (sv_files s) k' = Some j" unfolding files by blast+
    have "cl_path lim k' \<noteq> cl_path lim k" using inj k'(1) by (simp add: inj_eq)
    with c(3)[OF k'(2)] i(2) show "file_ok lim ?s k' j" by (simp add: file_ok_def)
  next
    fix j k' assume r: "map_of (sv_running ?s) j = Some k'"
    then have r': "map_of (sv_running s) j = Some k'" by simp
    have "k' \<noteq> k" using parts(3,4)[OF r'] k dn by auto
    with c(4)[OF r'] show "running_ok ?s j k'" unfolding running_ok_def files by simp
  next
    fix j assume "j \<in> set (sv_readers ?s)"
    then have j: "j \<in> set (sv_readers s)" by simp
    have "\<exists>k'. k' \<noteq> k \<and> map_of (sv_files s) k' = Some j"
      if "fe_done (sv_entry s j)" "\<not> fe_failed (sv_entry s j)"
    proof -
      from c(5)[OF j] that obtain k' where k': "map_of (sv_files s) k' = Some j" by (auto simp: reader_ok_def)
      moreover have "k' \<noteq> k" using k k' none j by auto
      ultimately show ?thesis by blast
    qed
    with c(5)[OF j] show "reader_ok ?s j" unfolding reader_ok_def files by simp
  next
    fix j assume "j < sv_next ?s"
    then have "j < sv_next s" by simp
    from c(6)[OF this] show "refs_ok ?s j" by (simp add: refs_ok_def)
  qed (use c(1,2) in simp_all)
qed

lemma item_ok_stopped:
  "file_ok lim (s\<lparr>sv_stopped := b\<rparr>) k i = file_ok lim s k i"
  "running_ok (s\<lparr>sv_stopped := b\<rparr>) i k = running_ok s i k"
  "reader_ok (s\<lparr>sv_stopped := b\<rparr>) i = reader_ok s i"
  "refs_ok (s\<lparr>sv_stopped := b\<rparr>) i = refs_ok s i"
  by (simp_all add: item_ok_defs)

lemma cache_ok_stopped [simp]: "cache_ok lim (s\<lparr>sv_stopped := b\<rparr>) = cache_ok lim s"
  by (simp add: cache_ok_def item_ok_stopped)

lemma trim_loop_ok: "cache_ok lim s \<Longrightarrow> inj (cl_path lim) \<Longrightarrow> cache_ok lim (trim_loop fuel lim s)"
proof (induction fuel arbitrary: s)
  case (Suc fuel)
  obtain tot oldest where scan: "scan_files (sv_entry s) 0 None (sv_files s) = (tot, oldest)" by fastforce
  have stop: "cache_ok lim (s\<lparr>sv_stopped := True\<rparr>)" using Suc.prems(1) by simp
  show ?case
  proof (cases oldest)
    case None
    with Suc.prems scan show ?thesis by simp
  next
    case (Some p)
    obtain k i where p: "p = (k, i)" by fastforce
    from scan_files_oldest[OF scan[unfolded Some p]]
    have e: "(k, i) \<in> set (sv_files s)" "fe_done (sv_entry s i)" "fe_refs (sv_entry s i) = 0" by auto
    from e(1) cache_okD(1)[OF Suc.prems(1)] have "map_of (sv_files s) k = Some i" by (simp add: map_ok_def)
    from Suc.IH[OF cache_ok_evict[OF Suc.prems this e(2,3)] Suc.prems(2)] stop Suc.prems scan Some p
    show ?thesis by simp
  qed
qed simp

lemma trimCache_ok: "cache_ok lim s \<Longrightarrow> inj (cl_path lim) \<Longrightarrow> cache_ok lim (trimCache lim s)"
  unfolding trimCache_def by (rule trim_loop_ok)

lemma find_entry_ok:
  assumes ok: "cache_ok lim s" and f: "find_entry k s = (i, s')"
  shows "cache_ok lim s' \<and> map_of (sv_files s') k = Some i"
proof (cases "map_of (sv_files s) k")
  case (Some j)
  with f ok show ?thesis by (simp add: find_entry_def)
next
  case None
  note c = cache_okD[OF ok] and parts = cache_ok_parts[OF ok]
  from f None have i: "i = sv_next s" by (simp add: find_entry_def)
  have sel: "sv_entry s' = (sv_entry s)(i := new_entry)" "sv_files s' = AList.update k i (sv_files s)"
    "sv_running s' = AList.update i k (sv_running s)" "sv_next s' = sv_next s + 1"
    "sv_readers s' = sv_readers s" "sv_disk s' = sv_disk s"
    using f None by (auto simp: find_entry_def)
  have files: "map_of (sv_files s') k' = Some j \<longleftrightarrow> (if k' = k then j = i else map_of (sv_files s) k' = Some j)"
    and running: "map_of (sv_running s') j = Some k' \<longleftrightarrow> (if j = i then k' = k else map_of (sv_running s) j = Some k')"
    for k' j
    by (auto simp: sel update_conv')
  have "cache_ok lim s'"
  proof (rule cache_ok_intro)
    fix k' j assume m: "map_of (sv_files s') k' = Some j"
    show "file_ok lim s' k' j"
    proof (cases "k' = k")
      case True
      with m have "j = i" by (simp add: files)
      with True i show ?thesis unfolding file_ok_def running by (simp add: sel new_entry_def)
    next
      case False
      with m have m': "map_of (sv_files s) k' = Some j" by (simp add: files)
      from parts(1)[OF m'] i have "j \<noteq> i" by simp
      with c(3)[OF m'] show ?thesis unfolding file_ok_def running by (simp add: sel)
    qed
  next
    fix j k' assume m: "map_of (sv_running s') j = Some k'"
    show "running_ok s' j k'"
    proof (cases "j = i")
      case True
      with m have "k' = k" by (simp add: running)
      with True i show ?thesis unfolding running_ok_def files by (simp add: sel new_entry_def)
    next
      case False
      with m have m': "map_of (sv_running s) j = Some k'" by (simp add: running)
      from parts(3)[OF m'] None have "k' \<noteq> k" by auto
      with False c(4)[OF m'] show ?thesis unfolding running_ok_def files by (simp add: sel)
    qed
  next
    fix j assume "j \<in> set (sv_readers s')"
    then have j: "j \<in> set (sv_readers s)" by (simp add: sel)
    from parts(5)[OF j] i have ne: "j \<noteq> i" by simp
    have "\<exists>k'. map_of (sv_files s') k' = Some j" if "\<exists>k'. map_of (sv_files s) k' = Some j"
      using that None unfolding files by (metis option.distinct(1))
    with c(5)[OF j] ne show "reader_ok s' j" unfolding reader_ok_def by (auto simp: sel)
  next
    fix j assume j: "j < sv_next s'"
    have "i \<notin> set (sv_readers s)" using parts(5)[of i] i by auto
    then have "count_list (sv_readers s) i = 0" by (simp add: count_list_0_iff)
    with c(6)[of j] j i show "refs_ok s' j" by (auto simp: refs_ok_def sel new_entry_def less_Suc_eq)
  qed (use c(1,2) in \<open>simp_all add: sel\<close>)
  then show ?thesis by (simp add: files)
qed

text \<open>A change of one entry that leaves alone what the map and the fetches say of it.\<close>

lemma cache_ok_touch:
  assumes ok: "cache_ok lim s"
    and same: "sv_files t = sv_files s" "sv_running t = sv_running s" "sv_next t = sv_next s" "sv_disk t = sv_disk s"
      "\<And>j. fe_done (sv_entry t j) = fe_done (sv_entry s j)"
      "\<And>j. fe_failed (sv_entry t j) = fe_failed (sv_entry s j)"
      "\<And>j. fe_path (sv_entry t j) = fe_path (sv_entry s j)"
    and readers: "\<And>j. j \<in> set (sv_readers t) \<Longrightarrow> reader_ok s j"
    and refs: "\<And>j. j < sv_next s \<Longrightarrow> refs_ok t j"
  shows "cache_ok lim t"
proof (rule cache_ok_intro)
  note c = cache_okD[OF ok]
  fix k i assume "map_of (sv_files t) k = Some i"
  with c(3)[of k i] same show "file_ok lim t k i" by (simp add: file_ok_def)
next
  note c = cache_okD[OF ok]
  fix k i assume "map_of (sv_running t) i = Some k"
  with c(4)[of i k] same show "running_ok t i k" by (simp add: running_ok_def)
next
  fix i assume "i \<in> set (sv_readers t)"
  from readers[OF this] same show "reader_ok t i" by (simp add: reader_ok_def)
qed (use cache_okD(1,2)[OF ok] same refs in simp_all)

lemma arrive_ok: "cache_ok lim s \<Longrightarrow> cache_ok lim (arrive k s)"
proof -
  assume ok: "cache_ok lim s"
  obtain i t where f: "find_entry k s = (i, t)" by fastforce
  from find_entry_ok[OF ok f] have t: "cache_ok lim t" "map_of (sv_files t) k = Some i" by auto
  note c = cache_okD[OF t(1)] and parts = cache_ok_parts[OF t(1)]
  show ?thesis
  proof (rule cache_ok_touch[OF t(1)])
    fix j assume "j \<in> set (sv_readers (arrive k s))"
    then consider "j = i" | "j \<in> set (sv_readers t)" by (auto simp: arrive_def f Let_def)
    then show "reader_ok t j" using parts(1)[OF t(2)] t(2) c(5) by cases (auto simp: reader_ok_def)
  next
    fix j assume "j < sv_next t"
    from c(6)[OF this] show "refs_ok (arrive k s) j"
      by (simp add: refs_ok_def arrive_def f Let_def upd_entry_def)
  qed (simp_all add: arrive_def f Let_def upd_entry_def)
qed

lemma count_list_remove1: "count_list (remove1 x xs) y = count_list xs y - (if y = x \<and> x \<in> set xs then 1 else 0)"
  by (induction xs) (auto simp: count_list_0_iff)

lemma count_list_pos: "x \<in> set xs \<Longrightarrow> 0 < count_list xs x"
  by (metis count_list_0_iff neq0_conv)

lemma leave_ok:
  assumes ok: "cache_ok lim s" and inj: "inj (cl_path lim)" and i: "i \<in> set (sv_readers s)"
  shows "cache_ok lim (leave lim i s)"
proof -
  note c = cache_okD[OF ok]
  let ?t = "(upd_entry i (\<lambda>e. e\<lparr>fe_refs := fe_refs e - 1\<rparr>) s)\<lparr>sv_readers := remove1 i (sv_readers s)\<rparr>"
  have "cache_ok lim ?t"
  proof (rule cache_ok_touch[OF ok])
    fix j assume "j \<in> set (sv_readers ?t)"
    then have "j \<in> set (sv_readers s)" using set_remove1_subset[of i "sv_readers s"] by auto
    then show "reader_ok s j" by (rule c(5))
  next
    fix j assume "j < sv_next s"
    from c(6)[OF this] i count_list_pos[OF i] show "refs_ok ?t j"
      by (auto simp: refs_ok_def upd_entry_def count_list_remove1)
  qed (simp_all add: upd_entry_def)
  from this inj show ?thesis unfolding leave_def by (rule trimCache_ok)
qed

lemma fetch_ends_ok:
  assumes ok: "cache_ok lim s" and inj: "inj (cl_path lim)" and run: "map_of (sv_running s) i = Some k"
  shows "cache_ok lim (fetch_ends lim i k result s)"
proof -
  note c = cache_okD[OF ok] and parts = cache_ok_parts[OF ok]
  have ki: "map_of (sv_files s) k = Some i" "i < sv_next s"
    using parts(3)[OF run] parts(1) by blast+
  have running: "map_of (AList.delete i (sv_running s)) j = Some k' \<longleftrightarrow> j \<noteq> i \<and> map_of (sv_running s) j = Some k'"
    for j k' by (auto simp: delete_conv')
  have uniq: "k' = k" if "map_of (sv_files s) k' = Some i" for k'
    using parts(2)[OF that] parts(4)[OF run] run by simp
  have uniq': "j = i" if "map_of (sv_running s) j = Some k" for j
    using parts(3)[OF that] ki by simp
  define t where "t = (case result of
       Some n \<Rightarrow>
         (upd_entry i (\<lambda>e. e\<lparr>fe_path := cl_path lim k, fe_size := n, fe_done := True\<rparr>)
            (s\<lparr>sv_running := AList.delete i (sv_running s)\<rparr>))\<lparr>sv_disk := insert (cl_path lim k) (sv_disk s)\<rparr>
     | None \<Rightarrow>
         (upd_entry i (\<lambda>e. e\<lparr>fe_failed := True, fe_done := True\<rparr>)
            (s\<lparr>sv_running := AList.delete i (sv_running s)\<rparr>))\<lparr>sv_files := AList.delete k (sv_files s)\<rparr>)"
  have sel: "sv_running t = AList.delete i (sv_running s)" "sv_next t = sv_next s" "sv_readers t = sv_readers s"
    "\<And>j. j \<noteq> i \<Longrightarrow> sv_entry t j = sv_entry s j" "fe_refs (sv_entry t i) = fe_refs (sv_entry s i)"
    "fe_done (sv_entry t i)"
    by (auto simp: t_def upd_entry_def split: option.split)
  have files: "map_of (sv_files t) k' = Some j \<longleftrightarrow>
      (result = None \<longrightarrow> k' \<noteq> k) \<and> map_of (sv_files s) k' = Some j" for k' j
    by (auto simp: t_def upd_entry_def delete_conv' split: option.split)
  have disk: "sv_disk s \<subseteq> sv_disk t" "result \<noteq> None \<Longrightarrow> cl_path lim k \<in> sv_disk t"
    by (auto simp: t_def upd_entry_def split: option.split)
  have good: "result \<noteq> None \<Longrightarrow> fe_path (sv_entry t i) = cl_path lim k \<and> fe_failed (sv_entry t i) = fe_failed (sv_entry s i)"
    and bad: "result = None \<Longrightarrow> fe_failed (sv_entry t i)"
    by (auto simp: t_def upd_entry_def)
  have "cache_ok lim t"
  proof (rule cache_ok_intro)
    fix k' j assume "map_of (sv_files t) k' = Some j"
    then have m: "result = None \<longrightarrow> k' \<noteq> k" "map_of (sv_files s) k' = Some j" by (simp_all add: files)
    show "file_ok lim t k' j"
    proof (cases "j = i")
      case True
      with uniq m have "k' = k" "result \<noteq> None" by auto
      with True c(3)[OF m(2)] good disk show ?thesis by (simp add: file_ok_def sel)
    next
      case False
      with c(3)[OF m(2)] disk show ?thesis unfolding file_ok_def sel running by (auto simp: sel)
    qed
  next
    fix j k' assume "map_of (sv_running t) j = Some k'"
    then have m: "j \<noteq> i" "map_of (sv_running s) j = Some k'" by (simp_all add: sel running)
    with uniq' have "k' \<noteq> k" by blast
    with c(4)[OF m(2)] m(1) show "running_ok t j k'" unfolding running_ok_def files by (simp add: sel)
  next
    fix j assume "j \<in> set (sv_readers t)"
    then have j: "j \<in> set (sv_readers s)" by (simp add: sel)
    show "reader_ok t j"
    proof (cases "j = i")
      case True
      with ki bad c(5)[OF j] show ?thesis unfolding reader_ok_def files by (auto simp: sel)
    next
      case False
      have "k' \<noteq> k" if "map_of (sv_files s) k' = Some j" for k' using that ki False by auto
      with False c(5)[OF j] show ?thesis unfolding reader_ok_def files by (auto simp: sel)
    qed
  next
    fix j assume "j < sv_next t"
    with c(6)[of j] show "refs_ok t j" by (cases "j = i") (simp_all add: refs_ok_def sel)
  next
    show "map_ok (sv_files t)" using c(1) by (auto simp: t_def upd_entry_def split: option.split)
    show "map_ok (sv_running t)" using c(2) by (simp add: sel)
  qed
  moreover have "fetch_ends lim i k result s = trimCache lim t"
    by (simp add: fetch_ends_def t_def Let_def upd_entry_def split: option.split)
  ultimately show ?thesis using inj by (simp only: trimCache_ok)
qed

lemma new_cache_ok: "cache_ok lim new_cache"
  by (simp add: cache_ok_def new_cache_def)

interpretation cache: invariant_machine "cache_step lim" "\<lambda>s. inj (cl_path lim) \<longrightarrow> cache_ok lim s" for lim
proof
  fix s c s' assume "inj (cl_path lim) \<longrightarrow> cache_ok lim s" "cache_step lim s c = Inr s'"
  then show "inj (cl_path lim) \<longrightarrow> cache_ok lim s'"
    by (cases c) (auto simp: arrive_ok intro: leave_ok fetch_ends_ok split: if_splits option.splits)
qed

section \<open>What trimming leaves\<close>

lemma scan_files_None:
  "scan_files entry tot oldest files = (tot', None) \<Longrightarrow>
     oldest = None \<and> (\<forall>(k, i) \<in> set files. fe_done (entry i) \<longrightarrow> \<not> (fe_refs (entry i) = 0 \<and> \<not> fe_failed (entry i)))"
proof (induction files arbitrary: tot oldest)
  case (Cons p files)
  obtain a b where p: "p = (a, b)" by fastforce
  define old where "old = (if fe_done (entry b) \<and> fe_refs (entry b) = 0 \<and> \<not> fe_failed (entry b) \<and>
      (case oldest of None \<Rightarrow> True | Some (k0, i0) \<Rightarrow> fe_used (entry b) < fe_used (entry i0))
    then Some (a, b) else oldest)"
  from Cons.prems p obtain t where "scan_files entry t old files = (tot', None)"
    by (auto simp: Let_def old_def split: if_splits)
  from Cons.IH[OF this] p show ?case by (auto simp: old_def split: if_splits option.splits)
qed simp

definition finished_bytes :: "cacheState \<Rightarrow> int" where
  "finished_bytes s = sum_list (map (\<lambda>(k, i). if fe_done (sv_entry s i) then fe_size (sv_entry s i) else 0) (sv_files s))"

lemma scan_files_total:
  "scan_files entry tot oldest files = (tot', oldest') \<Longrightarrow>
     tot' = tot + sum_list (map (\<lambda>(k, i). if fe_done (entry i) then fe_size (entry i) else 0) files)"
proof (induction files arbitrary: tot oldest)
  case (Cons p files)
  obtain a b where p: "p = (a, b)" by fastforce
  from Cons.prems p obtain old where
    "scan_files entry (tot + (if fe_done (entry b) then fe_size (entry b) else 0)) old files = (tot', oldest')"
    by (auto simp: Let_def split: if_splits)
  from Cons.IH[OF this] p show ?case by simp
qed simp

text \<open>Within the limits, or stopped because a file could not be removed, or every finished file is in use.\<close>

definition trimmed :: "cache_limits \<Rightarrow> cacheState \<Rightarrow> bool" where
  "trimmed lim s \<longleftrightarrow>
     sv_stopped s \<or>
     (finished_bytes s \<le> cl_bytes lim \<and> int (length (sv_files s)) \<le> cl_files lim) \<or>
     (\<forall>(k, i) \<in> set (sv_files s). fe_done (sv_entry s i) \<and> \<not> fe_failed (sv_entry s i) \<longrightarrow> fe_refs (sv_entry s i) \<noteq> 0)"

lemma length_delete_less: "(k, i) \<in> set files \<Longrightarrow> length (AList.delete k files) < length files"
  unfolding AList.delete_eq by (rule length_filter_less) auto

lemma trim_loop_trimmed: "length (sv_files s) < fuel \<Longrightarrow> trimmed lim (trim_loop fuel lim s)"
proof (induction fuel arbitrary: s)
  case (Suc fuel)
  obtain tot oldest where scan: "scan_files (sv_entry s) 0 None (sv_files s) = (tot, oldest)" by fastforce
  have tot: "tot = finished_bytes s" using scan_files_total[OF scan] by (simp add: finished_bytes_def)
  show ?case
  proof (cases oldest)
    case None
    have "\<forall>(k, i) \<in> set (sv_files s). fe_done (sv_entry s i) \<and> \<not> fe_failed (sv_entry s i) \<longrightarrow>
        fe_refs (sv_entry s i) \<noteq> 0"
      using scan_files_None[OF scan[unfolded None]] by auto
    with None scan show ?thesis by (simp add: trimmed_def)
  next
    case (Some p)
    obtain k i where p: "p = (k, i)" by fastforce
    from scan_files_oldest[OF scan[unfolded Some p]] have "(k, i) \<in> set (sv_files s)" by auto
    with length_delete_less Suc.prems have "length (AList.delete k (sv_files s)) < fuel" by fastforce
    then have IH: "trimmed lim (trim_loop fuel lim
        (s\<lparr>sv_disk := sv_disk s - {fe_path (sv_entry s i)}, sv_files := AList.delete k (sv_files s)\<rparr>))"
      by (intro Suc.IH) simp
    consider "tot \<le> cl_bytes lim \<and> int (length (sv_files s)) \<le> cl_files lim"
      | "\<not> (tot \<le> cl_bytes lim \<and> int (length (sv_files s)) \<le> cl_files lim)" "\<not> cl_removable lim (fe_path (sv_entry s i))"
      | "\<not> (tot \<le> cl_bytes lim \<and> int (length (sv_files s)) \<le> cl_files lim)" "cl_removable lim (fe_path (sv_entry s i))"
      by blast
    then show ?thesis
    proof cases
      case 1
      with scan Some p tot show ?thesis by (simp add: trimmed_def)
    next
      case 2
      then have "trim_loop (Suc fuel) lim s = s\<lparr>sv_stopped := True\<rparr>" by (auto simp: scan Some p)
      then show ?thesis by (simp add: trimmed_def)
    next
      case 3
      then have "trim_loop (Suc fuel) lim s = trim_loop fuel lim
          (s\<lparr>sv_disk := sv_disk s - {fe_path (sv_entry s i)}, sv_files := AList.delete k (sv_files s)\<rparr>)"
        by (auto simp: scan Some p)
      with IH show ?thesis by simp
    qed
  qed
qed simp

lemma trimCache_trimmed: "trimmed lim (trimCache lim s)"
  unfolding trimCache_def by (rule trim_loop_trimmed) simp

lemma ends_trimmed:
  "cache_step lim s c = Inr s' \<Longrightarrow> (\<forall>k. c \<noteq> Arrive k) \<Longrightarrow> trimmed lim s'"
  by (cases c) (auto simp: leave_def fetch_ends_def Let_def trimCache_trimmed split: if_splits option.splits)


definition example_limits :: cache_limits where
  "example_limits = \<lparr>cl_bytes = 5, cl_files = 2, cl_path = (\<lambda>k. k), cl_removable = (\<lambda>p. True)\<rparr>"

definition example_requests :: "cache_call list" where
  "example_requests = [Arrive ''a'', Arrive ''a'', Arrive ''b'', FetchEnds 0 (Some 4), FetchEnds 1 (Some 3),
     Leave 1, Leave 0]"


section \<open>The life of a server\<close>

text \<open>The actions of \<open>start\<close> and \<open>Close\<close> in their order; errors are named by the action that failed.\<close>

datatype server_action =
    PinStaging | CloseLease | MakeStaging | ListenLoopback | Serve | SignalClosed | CancelFetch
  | ShutdownServer | ForceClose | WaitBackground | CleanStaging | RemoveStaging

datatype start_error = NilContext | BadConfig ConfigError | StartFailed "server_action list"

text \<open>\<open>fails a\<close>: the action fails. \<open>pins\<close>: the production caller pins the staging directory.\<close>

definition server_start ::
  "(server_action \<Rightarrow> bool) \<Rightarrow> bool \<Rightarrow> bool \<Rightarrow> ConfigError + Config \<Rightarrow> (start_error + Config) \<times> server_action list" where
  "server_start fails pins nilContext cfg =
     (if nilContext then (Inl NilContext, [])
      else case cfg of
        Inl e \<Rightarrow> (Inl (BadConfig e), [])
      | Inr c \<Rightarrow>
          let pin = (if pins then [PinStaging] else []);
              undo = (if pins then [CloseLease] else []);
              errors = (\<lambda>a. a # filter fails undo) in
          if pins \<and> fails PinStaging then (Inl (StartFailed [PinStaging]), pin)
          else if fails MakeStaging then (Inl (StartFailed (errors MakeStaging)), pin @ [MakeStaging] @ undo)
          else if fails ListenLoopback then
            (Inl (StartFailed (errors ListenLoopback)), pin @ [MakeStaging, ListenLoopback] @ undo)
          else (Inr c, pin @ [MakeStaging, ListenLoopback, Serve]))"

text \<open>\<open>Close\<close> runs once; the result is the list of the actions that failed, in the order of the joined
  error. \<open>serveErr\<close> is the error that ended the listener, if one did.\<close>

definition server_close ::
  "(server_action \<Rightarrow> bool) \<Rightarrow> bool \<Rightarrow> bool \<Rightarrow> server_action list \<times> server_action list" where
  "server_close fails lease serveErr =
     (let down = (if fails ShutdownServer then [ShutdownServer, ForceClose] else [ShutdownServer]);
          downErr = filter fails down in
      if fails WaitBackground then
        ([SignalClosed, CancelFetch] @ down @ [WaitBackground], downErr @ [WaitBackground])
      else
        ([SignalClosed, CancelFetch] @ down @ [WaitBackground, CleanStaging] @
           (if lease then [CloseLease, RemoveStaging] else []),
         downErr @ filter fails [CleanStaging] @ (if lease then filter fails [CloseLease] else []) @
           (if serveErr then [Serve] else [])))"

text \<open>A lease that was taken is given back exactly once, and on close only after every goroutine of the
  relay has ended and the staged files are gone.\<close>

lemma start_lease:
  "server_start fails pins nilContext cfg = (Inl e, as) \<Longrightarrow>
     count_list as CloseLease = (if PinStaging \<in> set as \<and> \<not> fails PinStaging then 1 else 0) \<and> Serve \<notin> set as"
  by (auto simp: server_start_def Let_def split: if_splits sum.splits)

lemma close_lease:
  "server_close fails lease serveErr = (as, errs) \<Longrightarrow>
     (CloseLease \<in> set as \<longleftrightarrow> lease \<and> \<not> fails WaitBackground) \<and> count_list as CloseLease \<le> 1 \<and>
     (CloseLease \<in> set as \<longrightarrow> sublist [WaitBackground, CleanStaging, CloseLease] as) \<and>
     (errs = [] \<longleftrightarrow> \<not> (\<exists>a \<in> set as - {RemoveStaging, SignalClosed, CancelFetch}. fails a) \<and> \<not> serveErr)"
  by (auto simp: server_close_def Let_def sublist_Cons_right split: if_splits)

section \<open>One request\<close>

datatype slot_wait = SlotFree | SlotLater | SlotClientGone | SlotRelayStopped

datatype await_result = AwaitDone "string + string" | AwaitClientGone | AwaitRelayEnded

datatype http_reply =
    Reply nat string
  | NoReply
  | ReplyFile string
  | ReplyIndex

text \<open>\<open>gone\<close>: the context of the request has ended. The body of a refusal is its text.\<close>

record request_answers =
  ra_slot :: slot_wait
  ra_gone :: bool
  ra_stopped :: bool
  ra_await :: await_result
  ra_opens :: bool
  ra_goneLater :: bool

abbreviation "StatusBadGateway \<equiv> 502 :: nat"

definition serveFile :: "request_answers \<Rightarrow> http_reply" where
  "serveFile a =
     (case ra_await a of
        AwaitDone (Inr path) \<Rightarrow>
          (if ra_opens a then ReplyFile path else Reply StatusBadGateway ''relay: staged file unavailable'')
      | _ \<Rightarrow> (if ra_goneLater a then NoReply else Reply StatusBadGateway ''relay: all sources failed''))"

text \<open>The reply and the change of the count of handlers while the request is served and afterwards.\<close>

definition ServeHTTP :: "string \<Rightarrow> string \<Rightarrow> request_answers \<Rightarrow> http_reply \<times> int list" where
  "ServeHTTP rawPath m a =
     (let resolved = resolveRoute rawPath m in
      if rs_status resolved \<noteq> 0 then (Reply (rs_status resolved) '''', [])
      else if ra_slot a = SlotClientGone then (NoReply, [])
      else if ra_slot a = SlotRelayStopped then (Reply StatusBadGateway ''relay is stopped'', [])
      else if ra_gone a then (NoReply, [1, - 1])
      else if ra_stopped a then (Reply StatusBadGateway ''relay is stopped'', [1, - 1])
      else if rs_route resolved = RouteSimple then (ReplyIndex, [1, - 1])
      else (serveFile a, [1, - 1]))"

text \<open>A file is served only for a path that stays inside its route, by a relay that has not stopped, and
  every handler that is counted in is counted out.\<close>

lemma ServeHTTP_file:
  "ServeHTTP rawPath m a = (reply, counts) \<Longrightarrow>
     sum_list counts = 0 \<and>
     (\<forall>path. reply = ReplyFile path \<longrightarrow>
        rs_status (resolveRoute rawPath m) = 0 \<and> \<not> ra_stopped a \<and> ra_await a = AwaitDone (Inr path) \<and>
        list_all (\<lambda>w. stays_inside w \<and> (\<exists>d. path_unescape w = Some d \<and> stays_inside d))
          (segments (rs_path (resolveRoute rawPath m))))"
  using segments_inside_aux[of rawPath m]
  by (auto simp: ServeHTTP_def serveFile_def Let_def split: if_splits await_result.splits sum.splits)

end
